(* ===== verification/Prelude.thy ===== *)
theory Prelude
  imports Main "HOL-Library.Multiset"
begin

text \<open>
  Shared vocabulary of the development: effectful operations as functions from a state to a
  result and a new state, a small invariant calculus for them, Go's map iteration order as an
  explicit choice, and the fact collections that the component theories extend.
\<close>

named_theorems op_simps \<open>evaluation of the operation combinators\<close>
named_theorems keeps_intros \<open>introduction rules of the invariant calculus\<close>
named_theorems op_defs \<open>definitions of the Manager operations\<close>

subsection \<open>Fallible operations on a state\<close>

text \<open>
  A Go method \<open>func (...) (T, error)\<close> becomes a function that takes the state and gives
  either the error or the result, together with the state it leaves. The state is returned on
  the error path as well: an early \<open>return err\<close> does not undo earlier effects.
\<close>

type_synonym ('w, 'e, 'a) op = "'w \<Rightarrow> ('e + 'a) \<times> 'w"

definition ret :: "'a \<Rightarrow> ('w, 'e, 'a) op" where
  "ret x = (\<lambda>w. (Inr x, w))"

definition throw :: "'e \<Rightarrow> ('w, 'e, 'a) op" where
  "throw e = (\<lambda>w. (Inl e, w))"

definition bindE :: "('w, 'e, 'a) op \<Rightarrow> ('a \<Rightarrow> ('w, 'e, 'b) op) \<Rightarrow> ('w, 'e, 'b) op" where
  "bindE m f = (\<lambda>w. case m w of (Inl e, w') \<Rightarrow> (Inl e, w') | (Inr x, w') \<Rightarrow> f x w')"

text \<open>\<open>attempt m\<close> runs \<open>m\<close> and hands its error to the continuation as a value
  (\<open>err := m()\<close> without a return).\<close>

definition attempt :: "('w, 'e, 'a) op \<Rightarrow> ('w, 'e, 'e + 'a) op" where
  "attempt m = (\<lambda>w. case m w of (r, w') \<Rightarrow> (Inr r, w'))"

definition gets :: "('w \<Rightarrow> 'a) \<Rightarrow> ('w, 'e, 'a) op" where
  "gets f = (\<lambda>w. (Inr (f w), w))"

definition modify :: "('w \<Rightarrow> 'w) \<Rightarrow> ('w, 'e, unit) op" where
  "modify f = (\<lambda>w. (Inr (), f w))"

definition whenE :: "bool \<Rightarrow> ('w, 'e, unit) op \<Rightarrow> ('w, 'e, unit) op" where
  "whenE b m = (if b then m else ret ())"

fun forE :: "('a \<Rightarrow> ('w, 'e, unit) op) \<Rightarrow> 'a list \<Rightarrow> ('w, 'e, unit) op" where
  "forE f [] = ret ()"
| "forE f (x # xs) = bindE (f x) (\<lambda>_. forE f xs)"

lemma ret_apply [op_simps]: "ret x w = (Inr x, w)"
  by (simp add: ret_def)

lemma throw_apply [op_simps]: "throw e w = (Inl e, w)"
  by (simp add: throw_def)

lemma gets_apply [op_simps]: "gets f w = (Inr (f w), w)"
  by (simp add: gets_def)

lemma modify_apply [op_simps]: "modify f w = (Inr (), f w)"
  by (simp add: modify_def)

lemma bindE_apply [op_simps]:
  "bindE m f w = (case m w of (Inl e, w') \<Rightarrow> (Inl e, w') | (Inr x, w') \<Rightarrow> f x w')"
  by (simp add: bindE_def)

lemma attempt_apply [op_simps]: "attempt m w = (case m w of (r, w') \<Rightarrow> (Inr r, w'))"
  by (simp add: attempt_def)

lemma whenE_apply [op_simps]: "whenE b m w = (if b then m w else (Inr (), w))"
  by (simp add: whenE_def ret_apply)

lemma bindE_InrE:
  assumes "bindE m f w = (Inr y, w'')"
  obtains x w' where "m w = (Inr x, w')" and "f x w' = (Inr y, w'')"
  using assms by (auto simp: bindE_def split: prod.splits sum.splits)

lemma bindE_InlE:
  assumes "bindE m f w = (Inl e, w'')"
  obtains "m w = (Inl e, w'')"
    | x w' where "m w = (Inr x, w')" and "f x w' = (Inl e, w'')"
  using assms by (auto simp: bindE_def split: prod.splits sum.splits)

lemma bindE_ret_left [simp]: "bindE (ret x) f = f x"
  by (rule ext) (simp add: bindE_def ret_def)

lemma bindE_throw_left [simp]: "bindE (throw e) f = throw e"
  by (rule ext) (simp add: bindE_def throw_def)

lemma bindE_assoc: "bindE (bindE m f) g = bindE m (\<lambda>x. bindE (f x) g)"
  by (rule ext) (simp add: bindE_def split: prod.splits sum.splits)

subsection \<open>The invariant calculus\<close>

text \<open>
  \<open>keeps I m Q\<close>: from a state with \<open>I\<close>, the operation leaves a state with \<open>I\<close> whether
  it succeeds or fails, and a returned value satisfies \<open>Q\<close>. As \<open>Q\<close> does not mention
  the state, such a fact about a value stays true whatever runs afterwards.
\<close>

definition keeps :: "('w \<Rightarrow> bool) \<Rightarrow> ('w, 'e, 'a) op \<Rightarrow> ('a \<Rightarrow> bool) \<Rightarrow> bool" where
  "keeps I m Q \<longleftrightarrow>
     (\<forall>w. I w \<longrightarrow> I (snd (m w)) \<and> (case fst (m w) of Inl _ \<Rightarrow> True | Inr x \<Rightarrow> Q x))"

lemma keepsI:
  assumes "\<And>w. I w \<Longrightarrow> I (snd (m w))" and "\<And>w x w'. I w \<Longrightarrow> m w = (Inr x, w') \<Longrightarrow> Q x"
  shows "keeps I m Q"
  unfolding keeps_def
proof (intro allI impI conjI)
  fix w assume "I w"
  then show "I (snd (m w))" by (rule assms(1))
  show "case fst (m w) of Inl _ \<Rightarrow> True | Inr x \<Rightarrow> Q x"
    using assms(2) [OF \<open>I w\<close>] by (cases "m w") (auto split: sum.splits)
qed

lemma keepsD: "keeps I m Q \<Longrightarrow> I w \<Longrightarrow> I (snd (m w))"
  by (simp add: keeps_def)

lemma keeps_stateD: "keeps I m Q \<Longrightarrow> I w \<Longrightarrow> m w = (r, w') \<Longrightarrow> I w'"
  by (drule (1) keepsD) simp

lemma keeps_valueD:
  assumes "keeps I m Q" and "I w" and "m w = (Inr x, w')"
  shows "Q x"
proof -
  from assms(1,2) have "case fst (m w) of Inl _ \<Rightarrow> True | Inr x \<Rightarrow> Q x"
    unfolding keeps_def by blast
  with assms(3) show ?thesis by simp
qed

lemma keeps_weaken: "keeps I m R \<Longrightarrow> (\<And>x. R x \<Longrightarrow> Q x) \<Longrightarrow> keeps I m Q"
  by (force simp: keeps_def split: sum.splits)

lemma keeps_ret [keeps_intros]: "Q x \<Longrightarrow> keeps I (ret x) Q"
  by (simp add: keeps_def ret_def)

lemma keeps_throw [keeps_intros]: "keeps I (throw e) Q"
  by (simp add: keeps_def throw_def)

lemma keeps_bindE:
  assumes "keeps I m R" and "\<And>x. R x \<Longrightarrow> keeps I (f x) Q"
  shows "keeps I (bindE m f) Q"
  using assms by (fastforce simp: keeps_def bindE_def split: prod.splits sum.splits)

lemma keeps_bindE_True [keeps_intros]:
  "keeps I m (\<lambda>_. True) \<Longrightarrow> (\<And>x. keeps I (f x) Q) \<Longrightarrow> keeps I (bindE m f) Q"
  by (rule keeps_bindE)

lemma keeps_attempt [keeps_intros]:
  "keeps I m (\<lambda>_. True) \<Longrightarrow> keeps I (attempt m) (\<lambda>_. True)"
  by (auto simp: keeps_def attempt_def split: prod.splits)

lemma keeps_attempt_value:
  assumes "keeps I m Q"
  shows "keeps I (attempt m) (\<lambda>r. \<forall>x. r = Inr x \<longrightarrow> Q x)"
proof (rule keepsI)
  fix w assume "I w"
  then show "I (snd (attempt m w))"
    using keepsD [OF assms] by (cases "m w") (fastforce simp: attempt_apply)
next
  fix w r w' assume w: "I w" and "attempt m w = (Inr r, w')"
  then have "m w = (r, w')" by (simp add: attempt_apply split: prod.splits)
  then show "\<forall>x. r = Inr x \<longrightarrow> Q x" using keeps_valueD [OF assms w] by blast
qed

lemma keeps_whenE [keeps_intros]:
  "(b \<Longrightarrow> keeps I m (\<lambda>_. True)) \<Longrightarrow> keeps I (whenE b m) (\<lambda>_. True)"
  by (simp add: whenE_def keeps_ret)

lemma keeps_if [keeps_intros]:
  "(b \<Longrightarrow> keeps I m Q) \<Longrightarrow> (\<not> b \<Longrightarrow> keeps I m' Q) \<Longrightarrow> keeps I (if b then m else m') Q"
  by simp

lemma keeps_case_option [keeps_intros]:
  "(x = None \<Longrightarrow> keeps I m Q) \<Longrightarrow> (\<And>y. x = Some y \<Longrightarrow> keeps I (f y) Q) \<Longrightarrow>
   keeps I (case x of None \<Rightarrow> m | Some y \<Rightarrow> f y) Q"
  by (cases x) auto

lemma keeps_case_sum [keeps_intros]:
  "(\<And>e. x = Inl e \<Longrightarrow> keeps I (g e) Q) \<Longrightarrow> (\<And>y. x = Inr y \<Longrightarrow> keeps I (f y) Q) \<Longrightarrow>
   keeps I (case x of Inl e \<Rightarrow> g e | Inr y \<Rightarrow> f y) Q"
  by (cases x) auto

lemma keeps_modify: "(\<And>w. I w \<Longrightarrow> I (f w)) \<Longrightarrow> keeps I (modify f) (\<lambda>_. True)"
  by (simp add: keeps_def modify_def)

lemma keeps_forE:
  "(\<And>x. x \<in> set xs \<Longrightarrow> keeps I (f x) (\<lambda>_. True)) \<Longrightarrow> keeps I (forE f xs) (\<lambda>_. True)"
  by (induction xs) (auto intro!: keeps_ret keeps_bindE_True)

subsection \<open>Weakest preconditions\<close>

text \<open>
  \<open>wp m Q E w\<close>: run from \<open>w\<close>, the operation returns a value and a state with \<open>Q\<close>, or fails
  with an error and a state with \<open>E\<close>. With \<open>E = (\<lambda>_ _. False)\<close> the operation succeeds.
\<close>

definition wp :: "('w, 'e, 'a) op \<Rightarrow> ('a \<Rightarrow> 'w \<Rightarrow> bool) \<Rightarrow> ('e \<Rightarrow> 'w \<Rightarrow> bool) \<Rightarrow> 'w \<Rightarrow> bool" where
  "wp m Q E w = (case m w of (Inl e, w') \<Rightarrow> E e w' | (Inr x, w') \<Rightarrow> Q x w')"

named_theorems wp_simps \<open>weakest preconditions of the combinators\<close>

lemma wp_ret [wp_simps]: "wp (ret x) Q E w = Q x w"
  by (simp add: wp_def ret_def)

lemma wp_throw [wp_simps]: "wp (throw e) Q E w = E e w"
  by (simp add: wp_def throw_def)

lemma wp_gets [wp_simps]: "wp (gets f) Q E w = Q (f w) w"
  by (simp add: wp_def gets_def)

lemma wp_modify [wp_simps]: "wp (modify f) Q E w = Q () (f w)"
  by (simp add: wp_def modify_def)

lemma wp_bindE [wp_simps]: "wp (bindE m f) Q E w = wp m (\<lambda>x. wp (f x) Q E) E w"
  by (simp add: wp_def bindE_def split: prod.split sum.split)

lemma wp_attempt [wp_simps]: "wp (attempt m) Q E w = wp m (\<lambda>x. Q (Inr x)) (\<lambda>e. Q (Inl e)) w"
  by (simp add: wp_def attempt_def split: prod.split sum.split)

lemma wp_whenE [wp_simps]: "wp (whenE b m) Q E w = (if b then wp m Q E w else Q () w)"
  by (simp add: whenE_def wp_ret)

lemma wp_if [wp_simps]: "wp (if b then m else m') Q E w = (if b then wp m Q E w else wp m' Q E w)"
  by simp

lemma wp_case_option [wp_simps]:
  "wp (case x of None \<Rightarrow> m | Some y \<Rightarrow> f y) Q E w =
   (case x of None \<Rightarrow> wp m Q E w | Some y \<Rightarrow> wp (f y) Q E w)"
  by (simp split: option.split)

lemma wp_case_sum [wp_simps]:
  "wp (case x of Inl e \<Rightarrow> g e | Inr y \<Rightarrow> f y) Q E w =
   (case x of Inl e \<Rightarrow> wp (g e) Q E w | Inr y \<Rightarrow> wp (f y) Q E w)"
  by (simp split: sum.split)

lemma wp_mono:
  assumes "wp m Q E w" and "\<And>x w'. Q x w' \<Longrightarrow> Q' x w'" and "\<And>e w'. E e w' \<Longrightarrow> E' e w'"
  shows "wp m Q' E' w"
  using assms by (auto simp: wp_def split: prod.splits sum.splits)

lemma wp_succeeds: "wp m Q (\<lambda>_ _. False) w \<longleftrightarrow> (\<exists>x w'. m w = (Inr x, w') \<and> Q x w')"
  by (auto simp: wp_def split: prod.splits sum.splits)

lemma wp_fails: "wp m (\<lambda>_ _. False) E w \<longleftrightarrow> (\<exists>e w'. m w = (Inl e, w') \<and> E e w')"
  by (auto simp: wp_def split: prod.splits sum.splits)

lemma wp_InrD: "wp m Q E w \<Longrightarrow> m w = (Inr x, w') \<Longrightarrow> Q x w'"
  by (simp add: wp_def)

lemma wp_InlD: "wp m Q E w \<Longrightarrow> m w = (Inl e, w') \<Longrightarrow> E e w'"
  by (simp add: wp_def)

lemma keeps_wp:
  "(\<And>w. I w \<Longrightarrow> wp m (\<lambda>x w'. I w' \<and> Q x) (\<lambda>_. I) w) \<Longrightarrow> keeps I m Q"
  by (rule keepsI) (fastforce simp: wp_def split: prod.splits sum.splits)+

lemma wp_forE:
  assumes "P xs w"
    and "\<And>x xs w. P (x # xs) w \<Longrightarrow> wp (f x) (\<lambda>_. P xs) E w"
    and "\<And>w. P [] w \<Longrightarrow> Q () w"
  shows "wp (forE f xs) Q E w"
  using assms(1)
proof (induction xs arbitrary: w)
  case Nil
  then show ?case using assms(3) by (simp add: wp_ret)
next
  case (Cons x xs)
  have "wp (f x) (\<lambda>_. wp (forE f xs) Q E) E w"
    by (rule wp_mono [OF assms(2) [OF Cons.prems]]) (auto intro: Cons.IH)
  then show ?case by (simp add: wp_bindE)
qed

subsection \<open>The iteration order of a Go map\<close>

text \<open>
  \<open>for k := range m\<close> visits the entries in an unspecified order. The model represents a set
  of keys by a list without repetition and lets a choice function pick the next entry among
  those that remain: every order is some choice, and every choice is an order.
\<close>

fun drop_nth :: "nat \<Rightarrow> 'a list \<Rightarrow> 'a list" where
  "drop_nth _ [] = []"
| "drop_nth 0 (x # xs) = xs"
| "drop_nth (Suc n) (x # xs) = x # drop_nth n xs"

lemma length_drop_nth [simp]: "n < length xs \<Longrightarrow> length (drop_nth n xs) = length xs - 1"
  by (induction n xs rule: drop_nth.induct) auto

lemma mset_drop_nth: "n < length xs \<Longrightarrow> add_mset (xs ! n) (mset (drop_nth n xs)) = mset xs"
  by (induction n xs rule: drop_nth.induct) (auto simp: add_mset_commute)

function map_order :: "(nat \<Rightarrow> nat) \<Rightarrow> 'a list \<Rightarrow> 'a list" where
  "map_order c [] = []"
| "map_order c (x # xs) =
     (let i = c (length xs) mod Suc (length xs)
      in (x # xs) ! i # map_order c (drop_nth i (x # xs)))"
  by pat_completeness auto
termination
  by (relation "measure (\<lambda>(c, xs). length xs)") auto

lemma mset_map_order [simp]: "mset (map_order c xs) = mset xs"
proof (induction c xs rule: map_order.induct)
  case (2 c x xs)
  let ?i = "c (length xs) mod Suc (length xs)"
  have "?i < length (x # xs)" by simp
  from mset_drop_nth [OF this] 2 show ?case by (simp add: Let_def)
qed simp

lemma set_map_order [simp]: "set (map_order c xs) = set xs"
  by (metis mset_map_order set_mset_mset)

lemma distinct_map_order [simp]: "distinct (map_order c xs) = distinct xs"
  by (metis mset_map_order mset_eq_imp_distinct_iff)

end
