(* ===== verification/Go_Std.thy ===== *)
theory Go_Std
  imports Complex_Main Prelude "HOL-Library.Sublist"
begin

text \<open>
  The parts of Go's standard library that the program relies on: \<open>time.Time\<close> and
  \<open>time.Duration\<close>, the functions of package \<open>strings\<close> (a Go string is a sequence of
  bytes, as is a HOL string), the values a \<open>map[string]any\<close> holds, and the functional options
  of \<open>pkg/option\<close>.
\<close>

subsection \<open>Instants and durations\<close>

text \<open>
  An instant is its distance from the Unix epoch in nanoseconds; \<open>UTC()\<close> changes the display of
  an instant only. A duration is a number of nanoseconds within 64 bits: \<open>Sub\<close> saturates there.
\<close>

type_synonym time = int
type_synonym duration = int

definition Nanosecond :: duration where "Nanosecond = 1"
definition Millisecond :: duration where "Millisecond = 1000000"
definition Second :: duration where "Second = 1000000000"
definition Minute :: duration where "Minute = 60 * Second"
definition Hour :: duration where "Hour = 60 * Minute"

definition max_duration :: duration where "max_duration = 2 ^ 63 - 1"
definition min_duration :: duration where "min_duration = - (2 ^ 63)"

definition Time_Add :: "time \<Rightarrow> duration \<Rightarrow> time" where
  "Time_Add t d = t + d"

definition Time_Sub :: "time \<Rightarrow> time \<Rightarrow> duration" where
  "Time_Sub t u = max min_duration (min max_duration (t - u))"

definition Before :: "time \<Rightarrow> time \<Rightarrow> bool" where
  "Before t u \<longleftrightarrow> t < u"

text \<open>The zero \<open>time.Time\<close> is midnight of 1 January of year 1.\<close>

definition zero_time :: time where
  "zero_time = - 62135596800 * Second"

lemma Time_Sub_pos_iff: "0 < Time_Sub t u \<longleftrightarrow> u < t"
  by (auto simp: Time_Sub_def min_duration_def max_duration_def)

lemma Time_Sub_le_0_iff: "Time_Sub t u \<le> 0 \<longleftrightarrow> t \<le> u"
  by (auto simp: Time_Sub_def min_duration_def max_duration_def)

lemma Time_Add_Sub:
  "min_duration \<le> t - u \<Longrightarrow> t - u \<le> max_duration \<Longrightarrow> Time_Add u (Time_Sub t u) = t"
  by (simp add: Time_Add_def Time_Sub_def)

subsection \<open>White space\<close>

text \<open>
  The UTF-8 encodings of the runes for which \<open>unicode.IsSpace\<close> holds. An encoding is at the
  start (end) of a string exactly when the first (last) rune of the string is that rune, so
  trimming is the removal of encodings.
\<close>

definition utf8_spaces :: "string list" where
  "utf8_spaces =
    [[CHR 0x09], [CHR 0x0A], [CHR 0x0B], [CHR 0x0C], [CHR 0x0D], [CHR 0x20],
     [CHR 0xC2, CHR 0x85], [CHR 0xC2, CHR 0xA0],
     [CHR 0xE1, CHR 0x9A, CHR 0x80],
     [CHR 0xE2, CHR 0x80, CHR 0x80], [CHR 0xE2, CHR 0x80, CHR 0x81], [CHR 0xE2, CHR 0x80, CHR 0x82],
     [CHR 0xE2, CHR 0x80, CHR 0x83], [CHR 0xE2, CHR 0x80, CHR 0x84], [CHR 0xE2, CHR 0x80, CHR 0x85],
     [CHR 0xE2, CHR 0x80, CHR 0x86], [CHR 0xE2, CHR 0x80, CHR 0x87], [CHR 0xE2, CHR 0x80, CHR 0x88],
     [CHR 0xE2, CHR 0x80, CHR 0x89], [CHR 0xE2, CHR 0x80, CHR 0x8A],
     [CHR 0xE2, CHR 0x80, CHR 0xA8], [CHR 0xE2, CHR 0x80, CHR 0xA9], [CHR 0xE2, CHR 0x80, CHR 0xAF],
     [CHR 0xE2, CHR 0x81, CHR 0x9F], [CHR 0xE3, CHR 0x80, CHR 0x80]]"

function strip :: "string list \<Rightarrow> string \<Rightarrow> string" where
  "strip ps s =
     (case find (\<lambda>p. p \<noteq> [] \<and> prefix p s) ps of
        None \<Rightarrow> s
      | Some p \<Rightarrow> strip ps (drop (length p) s))"
  by pat_completeness auto
termination
  by (relation "measure (\<lambda>(ps, s). length s)")
     (auto simp: find_Some_iff prefix_def)

declare strip.simps [simp del]

definition trim_left :: "string \<Rightarrow> string" where
  "trim_left s = strip utf8_spaces s"

definition trim_right :: "string \<Rightarrow> string" where
  "trim_right s = rev (strip (map rev utf8_spaces) (rev s))"

definition TrimSpace :: "string \<Rightarrow> string" where
  "TrimSpace s = trim_right (trim_left s)"

definition no_prefix :: "string list \<Rightarrow> string \<Rightarrow> bool" where
  "no_prefix ps s \<longleftrightarrow> (\<forall>p \<in> set ps. p \<noteq> [] \<longrightarrow> \<not> prefix p s)"

lemma strip_id: "no_prefix ps s \<Longrightarrow> strip ps s = s"
proof -
  assume "no_prefix ps s"
  then have "find (\<lambda>p. p \<noteq> [] \<and> prefix p s) ps = None"
    by (auto simp: no_prefix_def find_None_iff)
  then show ?thesis by (subst strip.simps) simp
qed

lemma no_prefix_strip: "no_prefix ps (strip ps s)"
proof (induction ps s rule: strip.induct)
  case (1 ps s)
  show ?case
  proof (cases "find (\<lambda>p. p \<noteq> [] \<and> prefix p s) ps")
    case None
    then show ?thesis
      by (subst strip.simps, simp only: option.case) (auto simp: no_prefix_def find_None_iff)
  next
    case (Some p)
    with 1 show ?thesis by (subst strip.simps) simp
  qed
qed

lemma suffix_strip: "suffix (strip ps s) s"
proof (induction ps s rule: strip.induct)
  case (1 ps s)
  show ?case
  proof (cases "find (\<lambda>p. p \<noteq> [] \<and> prefix p s) ps")
    case None
    then show ?thesis by (subst strip.simps) simp
  next
    case (Some p)
    have "suffix (strip ps (drop (length p) s)) s"
      using 1 [OF Some] suffix_drop suffix_order.trans by blast
    with Some show ?thesis by (subst strip.simps) simp
  qed
qed

lemma no_prefix_mono: "no_prefix ps s \<Longrightarrow> prefix t s \<Longrightarrow> no_prefix ps t"
  unfolding no_prefix_def by (blast intro: prefix_order.trans)

lemma prefix_trim_right: "prefix (trim_right s) s"
  using suffix_strip [of "map rev utf8_spaces" "rev s"]
  by (simp add: trim_right_def suffix_to_prefix)

lemma trim_left_TrimSpace: "trim_left (TrimSpace s) = TrimSpace s"
  unfolding TrimSpace_def trim_left_def
  by (rule strip_id) (metis no_prefix_strip no_prefix_mono prefix_trim_right)

lemma trim_right_idem: "trim_right (trim_right s) = trim_right s"
  by (simp add: trim_right_def strip_id [OF no_prefix_strip])

lemma TrimSpace_idem [simp]: "TrimSpace (TrimSpace s) = TrimSpace s"
proof -
  have "TrimSpace (TrimSpace s) = trim_right (TrimSpace s)"
    by (subst TrimSpace_def) (simp only: trim_left_TrimSpace)
  then show ?thesis
    by (simp add: TrimSpace_def trim_right_idem)
qed

lemma TrimSpace_Nil [simp]: "TrimSpace [] = []"
proof -
  have "no_prefix ps []" for ps by (auto simp: no_prefix_def)
  then show ?thesis by (simp add: TrimSpace_def trim_left_def trim_right_def strip_id)
qed

text \<open>A string between two visible ASCII characters is left alone.\<close>

definition graphic :: "char \<Rightarrow> bool" where
  "graphic c \<longleftrightarrow> 33 \<le> (of_char c :: nat) \<and> (of_char c :: nat) \<le> 126"

lemma graphic_spaces: "p \<in> set utf8_spaces \<Longrightarrow> \<not> graphic (hd p) \<and> \<not> graphic (last p)"
  by (auto simp: utf8_spaces_def graphic_def)

lemma TrimSpace_graphic:
  assumes "s \<noteq> []" and "graphic (hd s)" and "graphic (last s)"
  shows "TrimSpace s = s"
proof -
  have "no_prefix utf8_spaces s"
    using assms graphic_spaces
    by (auto simp: no_prefix_def prefix_def neq_Nil_conv) (metis hd_append2 list.sel(1))
  moreover have "no_prefix (map rev utf8_spaces) (rev s)"
  proof -
    have "p = [] \<or> \<not> suffix p s" if "p \<in> set utf8_spaces" for p
      using graphic_spaces [OF that] assms(3) by (auto simp: suffix_def)
    then show ?thesis
      by (auto simp: no_prefix_def suffix_to_prefix)
  qed
  ultimately show ?thesis
    by (simp add: TrimSpace_def trim_left_def trim_right_def strip_id)
qed

subsection \<open>Prefixes and suffixes\<close>

definition HasPrefix :: "string \<Rightarrow> string \<Rightarrow> bool" where
  "HasPrefix s p \<longleftrightarrow> prefix p s"

definition HasSuffix :: "string \<Rightarrow> string \<Rightarrow> bool" where
  "HasSuffix s p \<longleftrightarrow> suffix p s"

definition TrimPrefix :: "string \<Rightarrow> string \<Rightarrow> string" where
  "TrimPrefix s p = (if HasPrefix s p then drop (length p) s else s)"

definition TrimSuffix :: "string \<Rightarrow> string \<Rightarrow> string" where
  "TrimSuffix s p = (if HasSuffix s p then take (length s - length p) s else s)"

lemma HasSuffix_TrimSuffix: "HasSuffix s p \<Longrightarrow> TrimSuffix s p @ p = s"
  by (auto simp: HasSuffix_def TrimSuffix_def suffix_def)

subsection \<open>The values of a map[string]any\<close>

text \<open>
  A value of type \<open>any\<close> with its dynamic type as far as the program inspects it: the signed and
  the unsigned integer kinds, floats (a finite float is a rational number), \<open>json.Number\<close>, and
  containers as trees. \<open>AnyOpaque\<close> stands for every other pointer or struct.
\<close>

datatype go_float = FloatNaN | FloatInf bool | FloatVal rat

datatype go_any =
    AnyNil
  | AnyBool bool
  | AnyString string
  | AnyInt int
  | AnyUint int
  | AnyFloat go_float
  | AnyNumber string
  | AnyMap "(string \<times> go_any) list"
  | AnySlice "go_any list"
  | AnyOpaque nat

subsection \<open>Functional options\<close>

text \<open>
  \<open>option.Option[T]\<close> is a function that mutates a \<open>T\<close>; \<open>None\<close> is the nil function,
  which \<open>Apply\<close> skips.
\<close>

type_synonym 't go_option = "('t \<Rightarrow> 't) option"

fun option_Apply :: "'t \<Rightarrow> 't go_option list \<Rightarrow> 't" where
  "option_Apply t [] = t"
| "option_Apply t (opt # opts) =
     (case opt of None \<Rightarrow> option_Apply t opts | Some f \<Rightarrow> option_Apply (f t) opts)"

text \<open>\<open>OptionErr\<close> mutates and may report an error, which stops \<open>ApplyErr\<close>.\<close>

type_synonym ('e, 't) go_option_err = "('t \<Rightarrow> 'e option \<times> 't) option"

fun option_ApplyErr :: "'t \<Rightarrow> ('e, 't) go_option_err list \<Rightarrow> 'e option \<times> 't" where
  "option_ApplyErr t [] = (None, t)"
| "option_ApplyErr t (opt # opts) =
     (case opt of
        None \<Rightarrow> option_ApplyErr t opts
      | Some f \<Rightarrow> (case f t of
          (Some e, t') \<Rightarrow> (Some e, t')
        | (None, t') \<Rightarrow> option_ApplyErr t' opts))"

lemma option_Apply_append: "option_Apply t (xs @ ys) = option_Apply (option_Apply t xs) ys"
  by (induction xs arbitrary: t) (auto split: option.split)

lemma option_Apply_inv:
  assumes "P t" and "\<And>f t. Some f \<in> set opts \<Longrightarrow> P t \<Longrightarrow> P (f t)"
  shows "P (option_Apply t opts)"
  using assms by (induction opts arbitrary: t) (auto split: option.split)

end
