(* ===== verification/Go_Numbers.thy ===== *)
theory Go_Numbers
  imports Go_Std
begin

text \<open>
  Numbers of Go: the conversion of an integer to the width of \<open>int\<close>, \<open>strconv.ParseInt\<close> in base
  ten, and the syntax checker of \<open>encoding/json\<close>, the state machine behind \<open>json.Valid\<close>, with
  the shape of the numbers it accepts.
\<close>

subsection \<open>Conversion of an integer\<close>

text \<open>The conversion \<open>int(n)\<close> on a platform whose \<open>int\<close> has \<open>bits\<close> bits.\<close>

definition to_int :: "nat \<Rightarrow> int \<Rightarrow> int" where
  "to_int bits n = signed_take_bit (bits - 1) n"

definition int64_range :: "int \<Rightarrow> bool" where
  "int64_range n \<longleftrightarrow> - (2 ^ 63) \<le> n \<and> n < 2 ^ 63"

lemma to_int_eq_iff:
  "0 < bits \<Longrightarrow> to_int bits n = n \<longleftrightarrow> - (2 ^ (bits - 1)) \<le> n \<and> n < 2 ^ (bits - 1)"
  by (auto simp: to_int_def signed_take_bit_int_eq_self_iff)

subsection \<open>Decimal digits\<close>

definition is_digit :: "char \<Rightarrow> bool" where
  "is_digit c \<longleftrightarrow> 48 \<le> (of_char c :: nat) \<and> (of_char c :: nat) \<le> 57"

definition digit_value :: "char \<Rightarrow> int" where
  "digit_value c = of_char c - 48"

fun digits_value :: "int \<Rightarrow> string \<Rightarrow> int" where
  "digits_value acc [] = acc"
| "digits_value acc (c # cs) = digits_value (10 * acc + digit_value c) cs"

text \<open>\<open>strconv.ParseInt(s, 10, 64)\<close>: an optional sign, then one or more digits within range.\<close>

definition ParseInt :: "string \<Rightarrow> int option" where
  "ParseInt s =
     (let neg = (s \<noteq> [] \<and> hd s = CHR ''-'');
          digits = (if s \<noteq> [] \<and> hd s \<in> {CHR ''+'', CHR ''-''} then tl s else s)
      in if digits = [] \<or> \<not> list_all is_digit digits then None
         else
           let n = (if neg then - digits_value 0 digits else digits_value 0 digits)
           in if int64_range n then Some n else None)"

lemma is_digit_chars [simp]:
  "\<not> is_digit CHR ''-''" "\<not> is_digit CHR ''+''" "\<not> is_digit CHR ''.''" "\<not> is_digit CHR ''e''"
  "\<not> is_digit CHR ''E''" "\<not> is_digit CHR '' ''" "is_digit CHR ''0''"
  by (simp_all add: is_digit_def)

lemma digit_value_bounds: "is_digit c \<Longrightarrow> 0 \<le> digit_value c \<and> digit_value c \<le> 9"
  unfolding is_digit_def digit_value_def of_nat_of_char [of c, where 'a = int, symmetric] by simp

lemma digit_value_0_iff: "is_digit c \<Longrightarrow> digit_value c = 0 \<longleftrightarrow> c = CHR ''0''"
proof
  assume "digit_value c = 0"
  then have "(of_char c :: int) = of_char CHR ''0''" by (simp add: digit_value_def)
  then show "c = CHR ''0''" by (simp only: of_char_eq_iff)
qed (simp add: digit_value_def)

lemma digits_value_acc: "digits_value acc cs = acc * 10 ^ length cs + digits_value 0 cs"
proof (induction cs arbitrary: acc)
  case (Cons c cs)
  show ?case
    by (subst (1 2) digits_value.simps, subst (1 2) Cons.IH) (simp add: algebra_simps)
qed simp

lemma digits_value_append: "digits_value 0 (xs @ ys) = digits_value 0 xs * 10 ^ length ys + digits_value 0 ys"
proof -
  have "digits_value acc (xs @ ys) = digits_value (digits_value acc xs) ys" for acc
    by (induction xs arbitrary: acc) auto
  then show ?thesis by (simp add: digits_value_acc [of "digits_value 0 xs"])
qed

lemma digits_value_Cons: "digits_value 0 (c # cs) = digit_value c * 10 ^ length cs + digits_value 0 cs"
  by (simp add: digits_value_acc [of "digit_value c"])

declare digits_value.simps(2) [simp del]

lemma digits_value_bounds:
  "list_all is_digit cs \<Longrightarrow> 0 \<le> digits_value 0 cs \<and> digits_value 0 cs < 10 ^ length cs"
proof (induction cs)
  case (Cons c cs)
  then have "0 \<le> digit_value c" "digit_value c \<le> 9" using digit_value_bounds by auto
  then have "0 \<le> digit_value c * 10 ^ length cs" "digit_value c * 10 ^ length cs \<le> 9 * 10 ^ length cs"
    by (simp_all add: mult_right_mono)
  moreover have "0 \<le> digits_value 0 cs" "digits_value 0 cs < 10 ^ length cs" using Cons by simp_all
  ultimately show ?case unfolding digits_value_Cons length_Cons power_Suc by linarith
qed simp

lemma digits_value_zeros [simp]: "digits_value 0 (replicate n CHR ''0'') = 0"
  by (induction n) (simp_all add: digits_value_Cons digit_value_def)

lemma digits_value_0_iff:
  "list_all is_digit cs \<Longrightarrow> digits_value 0 cs = 0 \<longleftrightarrow> list_all (\<lambda>c. c = CHR ''0'') cs"
proof (induction cs)
  case (Cons c cs)
  then have c: "is_digit c" and d: "0 \<le> digit_value c" and cs: "0 \<le> digits_value 0 cs"
    using digit_value_bounds digits_value_bounds by auto
  have "digits_value 0 (c # cs) = 0 \<longleftrightarrow> digit_value c = 0 \<and> digits_value 0 cs = 0"
    unfolding digits_value_Cons using d cs by (simp add: add_nonneg_eq_0_iff)
  then show ?case using Cons c by (simp add: digit_value_0_iff)
qed simp

lemma digits_value_lead:
  assumes "list_all is_digit (c # cs)" and "c \<noteq> CHR ''0''"
  shows "10 ^ length cs \<le> digits_value 0 (c # cs)"
proof -
  from assms have c: "is_digit c" and cs: "list_all is_digit cs" by simp_all
  have "1 \<le> digit_value c"
    using digit_value_bounds [OF c] digit_value_0_iff [OF c] assms(2) by linarith
  then have "1 * 10 ^ length cs \<le> digit_value c * 10 ^ length cs" by (intro mult_right_mono) simp_all
  then show ?thesis using digits_value_bounds [OF cs] unfolding digits_value_Cons by linarith
qed

lemma digits_value_strip_zeros [simp]: "digits_value 0 (dropWhile (\<lambda>c. c = CHR ''0'') cs) = digits_value 0 cs"
  by (induction cs) (auto simp: digits_value_Cons digit_value_def)

lemma ParseInt_digits:
  assumes "ds \<noteq> []" and "list_all is_digit ds"
  shows "ParseInt ds = (if int64_range (digits_value 0 ds) then Some (digits_value 0 ds) else None)"
    and "ParseInt (CHR ''-'' # ds) = (if int64_range (- digits_value 0 ds) then Some (- digits_value 0 ds) else None)"
    and "ParseInt (CHR ''+'' # ds) = (if int64_range (digits_value 0 ds) then Some (digits_value 0 ds) else None)"
proof -
  have "hd ds \<noteq> CHR ''-'' \<and> hd ds \<noteq> CHR ''+''" using assms by (cases ds) auto
  then show "ParseInt ds = (if int64_range (digits_value 0 ds) then Some (digits_value 0 ds) else None)"
    using assms by (simp add: ParseInt_def)
qed (use assms in \<open>simp_all add: ParseInt_def\<close>)

lemma ParseInt_SomeD:
  assumes "ParseInt s = Some n"
  shows "int64_range n \<and> (\<exists>ds. ds \<noteq> [] \<and> list_all is_digit ds
    \<and> (s = ds \<and> n = digits_value 0 ds \<or> s = CHR ''+'' # ds \<and> n = digits_value 0 ds
       \<or> s = CHR ''-'' # ds \<and> n = - digits_value 0 ds))"
  using assms by (cases s) (auto simp: ParseInt_def Let_def split: if_splits)

lemma ParseInt_not_digit:
  assumes "c \<in> set s" and "\<not> is_digit c" and "c \<notin> {CHR ''+'', CHR ''-''}"
  shows "ParseInt s = None"
proof (cases "ParseInt s")
  case (Some n)
  then show ?thesis using ParseInt_SomeD [OF Some] assms by (auto simp: list_all_iff)
qed simp

subsection \<open>The syntax of JSON\<close>

text \<open>The scanner of \<open>encoding/json\<close>: its step functions, and the kinds of open composites.\<close>

datatype json_state =
    SBeginValue | SBeginValueOrEmpty | SBeginString | SBeginStringOrEmpty | SEndValue | SEndTop
  | SInString | SInStringEsc | SInStringEscU nat
  | SNeg | S1 | S0 | SDot | SDot0 | SE | SESign | SE0
  | SLiteral string

datatype json_frame = ObjectKey | ObjectValue | ArrayValue

definition json_space :: "char \<Rightarrow> bool" where
  "json_space c \<longleftrightarrow> c \<in> {CHR '' '', CHR 0x09, CHR 0x0D, CHR 0x0A}"

definition json_hex :: "char \<Rightarrow> bool" where
  "json_hex c \<longleftrightarrow> is_digit c \<or> c \<in> set ''abcdefABCDEF''"

definition maxNestingDepth :: nat where "maxNestingDepth = 10000"

definition json_push :: "json_state \<Rightarrow> json_frame \<Rightarrow> json_frame list \<Rightarrow> (json_state \<times> json_frame list) option" where
  "json_push st f fs = (if Suc (length fs) \<le> maxNestingDepth then Some (st, f # fs) else None)"

definition json_pop :: "json_frame list \<Rightarrow> json_state \<times> json_frame list" where
  "json_pop fs = (if fs = [] then (SEndTop, []) else (SEndValue, fs))"

definition json_end_top :: "char \<Rightarrow> (json_state \<times> json_frame list) option" where
  "json_end_top c = (if json_space c then Some (SEndTop, []) else None)"

fun json_end_value :: "json_frame list \<Rightarrow> char \<Rightarrow> (json_state \<times> json_frame list) option" where
  "json_end_value [] c = json_end_top c"
| "json_end_value (f # fs) c =
     (if json_space c then Some (SEndValue, f # fs)
      else case f of
        ObjectKey \<Rightarrow> if c = CHR '':'' then Some (SBeginValue, ObjectValue # fs) else None
      | ObjectValue \<Rightarrow>
          if c = CHR '','' then Some (SBeginString, ObjectKey # fs)
          else if c = CHR ''}'' then Some (json_pop fs) else None
      | ArrayValue \<Rightarrow>
          if c = CHR '','' then Some (SBeginValue, ArrayValue # fs)
          else if c = CHR '']'' then Some (json_pop fs) else None)"

definition json_begin_value :: "json_frame list \<Rightarrow> char \<Rightarrow> (json_state \<times> json_frame list) option" where
  "json_begin_value fs c =
     (if json_space c then Some (SBeginValue, fs)
      else if c = CHR ''{'' then json_push SBeginStringOrEmpty ObjectKey fs
      else if c = CHR ''['' then json_push SBeginValueOrEmpty ArrayValue fs
      else if c = CHR 0x22 then Some (SInString, fs)
      else if c = CHR ''-'' then Some (SNeg, fs)
      else if c = CHR ''0'' then Some (S0, fs)
      else if c = CHR ''t'' then Some (SLiteral ''rue'', fs)
      else if c = CHR ''f'' then Some (SLiteral ''alse'', fs)
      else if c = CHR ''n'' then Some (SLiteral ''ull'', fs)
      else if is_digit c then Some (S1, fs)
      else None)"

definition json_begin_string :: "json_frame list \<Rightarrow> char \<Rightarrow> (json_state \<times> json_frame list) option" where
  "json_begin_string fs c =
     (if json_space c then Some (SBeginString, fs)
      else if c = CHR 0x22 then Some (SInString, fs) else None)"

definition json_state_0 :: "json_frame list \<Rightarrow> char \<Rightarrow> (json_state \<times> json_frame list) option" where
  "json_state_0 fs c =
     (if c = CHR ''.'' then Some (SDot, fs)
      else if c \<in> {CHR ''e'', CHR ''E''} then Some (SE, fs)
      else json_end_value fs c)"

definition json_esign :: "json_frame list \<Rightarrow> char \<Rightarrow> (json_state \<times> json_frame list) option" where
  "json_esign fs c = (if is_digit c then Some (SE0, fs) else None)"

fun json_step :: "json_state \<times> json_frame list \<Rightarrow> char \<Rightarrow> (json_state \<times> json_frame list) option" where
  "json_step (SBeginValue, fs) c = json_begin_value fs c"
| "json_step (SBeginValueOrEmpty, fs) c =
     (if json_space c then Some (SBeginValueOrEmpty, fs)
      else if c = CHR '']'' then json_end_value fs c
      else json_begin_value fs c)"
| "json_step (SBeginString, fs) c = json_begin_string fs c"
| "json_step (SBeginStringOrEmpty, fs) c =
     (if json_space c then Some (SBeginStringOrEmpty, fs)
      else if c = CHR ''}'' then json_end_value (ObjectValue # tl fs) c
      else json_begin_string fs c)"
| "json_step (SEndValue, fs) c = json_end_value fs c"
| "json_step (SEndTop, fs) c = json_end_top c"
| "json_step (SInString, fs) c =
     (if c = CHR 0x22 then Some (SEndValue, fs)
      else if c = CHR 0x5C then Some (SInStringEsc, fs)
      else if (of_char c :: nat) < 32 then None
      else Some (SInString, fs))"
| "json_step (SInStringEsc, fs) c =
     (if c \<in> set ''bfnrt'' \<union> {CHR 0x5C, CHR ''/'', CHR 0x22} then Some (SInString, fs)
      else if c = CHR ''u'' then Some (SInStringEscU 3, fs) else None)"
| "json_step (SInStringEscU n, fs) c =
     (if json_hex c then Some (case n of 0 \<Rightarrow> SInString | Suc k \<Rightarrow> SInStringEscU k, fs) else None)"
| "json_step (SNeg, fs) c =
     (if c = CHR ''0'' then Some (S0, fs) else if is_digit c then Some (S1, fs) else None)"
| "json_step (S1, fs) c = (if is_digit c then Some (S1, fs) else json_state_0 fs c)"
| "json_step (S0, fs) c = json_state_0 fs c"
| "json_step (SDot, fs) c = (if is_digit c then Some (SDot0, fs) else None)"
| "json_step (SDot0, fs) c =
     (if is_digit c then Some (SDot0, fs)
      else if c \<in> {CHR ''e'', CHR ''E''} then Some (SE, fs)
      else json_end_value fs c)"
| "json_step (SE, fs) c = (if c \<in> {CHR ''+'', CHR ''-''} then Some (SESign, fs) else json_esign fs c)"
| "json_step (SESign, fs) c = json_esign fs c"
| "json_step (SE0, fs) c = (if is_digit c then Some (SE0, fs) else json_end_value fs c)"
| "json_step (SLiteral [], fs) c = json_end_value fs c"
| "json_step (SLiteral (x # xs), fs) c =
     (if c = x then Some (if xs = [] then SEndValue else SLiteral xs, fs) else None)"

text \<open>At the end of the input the scanner takes one step on a blank, unless the value has ended.\<close>

fun json_accepts :: "json_state \<times> json_frame list \<Rightarrow> string \<Rightarrow> bool" where
  "json_accepts (st, fs) [] =
     (st = SEndTop \<or> (case json_step (st, fs) CHR '' '' of None \<Rightarrow> False | Some (st', _) \<Rightarrow> st' = SEndTop))"
| "json_accepts s (c # cs) = (case json_step s c of None \<Rightarrow> False | Some s' \<Rightarrow> json_accepts s' cs)"

definition json_Valid :: "string \<Rightarrow> bool" where
  "json_Valid data = json_accepts (SBeginValue, []) data"

subsection \<open>The numbers among the JSON texts\<close>

definition json_exponent :: "string \<Rightarrow> int \<Rightarrow> bool" where
  "json_exponent t e \<longleftrightarrow> t = [] \<and> e = 0
     \<or> (\<exists>x sgn ds. x \<in> {CHR ''e'', CHR ''E''} \<and> sgn \<in> {[], ''+'', ''-''} \<and> ds \<noteq> [] \<and> list_all is_digit ds
          \<and> t = x # sgn @ ds \<and> e = (if sgn = ''-'' then - digits_value 0 ds else digits_value 0 ds))"

definition json_fraction :: "string \<Rightarrow> string \<Rightarrow> bool" where
  "json_fraction p f \<longleftrightarrow> list_all is_digit f \<and> p = (if f = [] then [] else CHR ''.'' # f)"

text \<open>The number with the sign, the integer digits, the fraction digits and the exponent.\<close>

definition json_number :: "bool \<Rightarrow> string \<Rightarrow> string \<Rightarrow> int \<Rightarrow> string \<Rightarrow> bool" where
  "json_number neg i f e s \<longleftrightarrow> i \<noteq> [] \<and> list_all is_digit i \<and> (hd i = CHR ''0'' \<longrightarrow> tl i = [])
     \<and> (\<exists>p t. json_fraction p f \<and> json_exponent t e \<and> s = (if neg then ''-'' else []) @ i @ p @ t)"

lemma is_digit_not_space: "is_digit c \<Longrightarrow> \<not> json_space c"
  by (auto simp: is_digit_def json_space_def)

lemma space_chars [simp]: "json_space CHR '' ''" "\<not> json_space CHR ''.''" "\<not> json_space CHR ''e''" "\<not> json_space CHR ''E''"
  by (simp_all add: json_space_def)

lemma accepts_EndTop: "json_accepts (SEndTop, []) r \<longleftrightarrow> list_all json_space r"
  by (induction r) (auto simp: json_end_top_def)

lemma accepts_end_value:
  "(case json_end_top c of None \<Rightarrow> False | Some s \<Rightarrow> json_accepts s r) \<longleftrightarrow> json_space c \<and> list_all json_space r"
  by (simp add: json_end_top_def accepts_EndTop)

text \<open>What each state accepts at the top level.\<close>

lemma accepts_E0D:
  "json_accepts (SE0, []) r \<Longrightarrow> \<exists>ds ws. r = ds @ ws \<and> list_all is_digit ds \<and> list_all json_space ws"
proof (induction r)
  case (Cons c r)
  show ?case
  proof (cases "is_digit c")
    case True
    with Cons obtain ds ws where "r = ds @ ws" "list_all is_digit ds" "list_all json_space ws" by auto
    with True show ?thesis by (intro exI [of _ "c # ds"] exI [of _ ws]) simp
  next
    case False
    with Cons.prems have "json_space c \<and> list_all json_space r" by (simp add: accepts_end_value)
    then show ?thesis by (intro exI [of _ "[]"] exI [of _ "c # r"]) simp
  qed
qed simp

lemma accepts_E0I: "list_all is_digit ds \<Longrightarrow> json_accepts (SE0, []) ds"
  by (induction ds) (simp_all add: json_end_top_def)

lemma accepts_ESignD:
  "json_accepts (SESign, []) r \<Longrightarrow>
     \<exists>ds ws. r = ds @ ws \<and> ds \<noteq> [] \<and> list_all is_digit ds \<and> list_all json_space ws"
proof (cases r)
  case (Cons c cs)
  assume "json_accepts (SESign, []) r"
  then have c: "is_digit c" and "json_accepts (SE0, []) cs"
    using Cons by (simp_all add: json_esign_def split: if_splits)
  from accepts_E0D [OF this(2)] obtain ds ws where "cs = ds @ ws" "list_all is_digit ds" "list_all json_space ws" by blast
  with c Cons show ?thesis by (intro exI [of _ "c # ds"] exI [of _ ws]) simp
qed (simp add: json_esign_def is_digit_def)

lemma accepts_ED:
  assumes "json_accepts (SE, []) r" and x: "x \<in> {CHR ''e'', CHR ''E''}"
  shows "\<exists>t e ws. x # r = t @ ws \<and> json_exponent t e \<and> list_all json_space ws"
proof -
  have "\<exists>sgn q. r = sgn @ q \<and> sgn \<in> {[], ''+'', ''-''} \<and> json_accepts (SESign, []) q"
  proof (cases r)
    case Nil
    with assms(1) show ?thesis by (simp add: json_esign_def is_digit_def)
  next
    case (Cons c cs)
    show ?thesis
    proof (cases "c \<in> {CHR ''+'', CHR ''-''}")
      case True
      with assms(1) Cons show ?thesis by (intro exI [of _ "[c]"] exI [of _ cs]) auto
    next
      case False
      with assms(1) Cons show ?thesis by (intro exI [of _ "[]"] exI [of _ r]) simp
    qed
  qed
  then obtain sgn q where q: "r = sgn @ q" "sgn \<in> {[], ''+'', ''-''}" "json_accepts (SESign, []) q" by blast
  from accepts_ESignD [OF q(3)] obtain ds ws
    where "q = ds @ ws" "ds \<noteq> []" "list_all is_digit ds" "list_all json_space ws" by blast
  moreover from this q(2) x
  have "json_exponent (x # sgn @ ds) (if sgn = ''-'' then - digits_value 0 ds else digits_value 0 ds)"
    unfolding json_exponent_def by blast
  ultimately show ?thesis using q(1) by (metis append_Cons append_assoc)
qed

lemma accepts_exponentI: "json_exponent (x # t) e \<Longrightarrow> json_accepts (SE, []) t"
proof -
  assume "json_exponent (x # t) e"
  then obtain sgn ds where t: "sgn \<in> {[], ''+'', ''-''}" "ds \<noteq> []" "list_all is_digit ds" "t = sgn @ ds"
    by (auto simp: json_exponent_def)
  have "json_accepts (SESign, []) ds" using t by (cases ds) (simp_all add: json_esign_def accepts_E0I)
  moreover have "json_accepts (SE, []) ds"
    using t by (cases ds) (auto simp: json_esign_def accepts_E0I)
  ultimately show ?thesis using t by auto
qed

text \<open>An exponent or the end, after the digits of a fraction or at once.\<close>

lemma accepts_Dot0D:
  "json_accepts (SDot0, []) r \<Longrightarrow>
     \<exists>ds t e ws. r = ds @ t @ ws \<and> list_all is_digit ds \<and> json_exponent t e \<and> list_all json_space ws"
proof (induction r)
  case Nil
  then show ?case by (intro exI [of _ "[]"] exI [of _ 0]) (simp add: json_exponent_def)
next
  case (Cons c r)
  consider "is_digit c" | "\<not> is_digit c" "c \<in> {CHR ''e'', CHR ''E''}" | "\<not> is_digit c" "c \<notin> {CHR ''e'', CHR ''E''}" by blast
  then show ?case
  proof cases
    case 1
    with Cons obtain ds t e ws where "r = ds @ t @ ws" "list_all is_digit ds" "json_exponent t e" "list_all json_space ws"
      by auto
    with 1 show ?thesis by (intro exI [of _ "c # ds"] exI [of _ t] exI [of _ e] exI [of _ ws]) simp
  next
    case 2
    with Cons.prems have "json_accepts (SE, []) r" by auto
    from accepts_ED [OF this 2(2)] show ?thesis by (metis append_Nil list.pred_inject(1))
  next
    case 3
    with Cons.prems have "json_space c \<and> list_all json_space r" by (simp add: accepts_end_value)
    then show ?thesis
      by (intro exI [of _ "[]"] exI [of _ 0] exI [of _ "c # r"]) (simp add: json_exponent_def)
  qed
qed

lemma json_exponent_cases:
  assumes "json_exponent t e"
  obtains "t = []" "e = 0" | x u where "t = x # u" "x \<in> {CHR ''e'', CHR ''E''}"
  using assms by (auto simp: json_exponent_def)

lemma accepts_Dot0I: "list_all is_digit ds \<Longrightarrow> json_exponent t e \<Longrightarrow> json_accepts (SDot0, []) (ds @ t)"
proof (induction ds)
  case Nil
  show ?case
  proof (rule json_exponent_cases [OF Nil(2)])
    fix x u assume t: "t = x # u" "x \<in> {CHR ''e'', CHR ''E''}"
    then have "json_accepts (SE, []) u" using accepts_exponentI Nil(2) by blast
    with t show ?thesis by auto
  qed (simp add: json_end_top_def)
qed simp

lemma accepts_S0D:
  "json_accepts (S0, []) r \<Longrightarrow>
     \<exists>p f t e ws. r = p @ t @ ws \<and> json_fraction p f \<and> json_exponent t e \<and> list_all json_space ws"
proof (cases r)
  case Nil
  then show ?thesis
    by (intro exI [of _ "[]"] exI [of _ 0]) (simp add: json_exponent_def json_fraction_def)
next
  case (Cons c q)
  assume acc: "json_accepts (S0, []) r"
  consider "c = CHR ''.''" | "c \<noteq> CHR ''.''" "c \<in> {CHR ''e'', CHR ''E''}" | "c \<noteq> CHR ''.''" "c \<notin> {CHR ''e'', CHR ''E''}" by blast
  then show ?thesis
  proof cases
    case 1
    with acc Cons have "json_accepts (SDot, []) q" by (simp add: json_state_0_def)
    then obtain d q' where q: "q = d # q'" "is_digit d" "json_accepts (SDot0, []) q'"
      by (cases q) (simp_all add: is_digit_def split: if_splits)
    from accepts_Dot0D [OF q(3)] obtain ds t e ws
      where "q' = ds @ t @ ws" "list_all is_digit ds" "json_exponent t e" "list_all json_space ws" by blast
    with 1 q Cons show ?thesis
      by (intro exI [of _ "CHR ''.'' # d # ds"] exI [of _ "d # ds"] exI [of _ t] exI [of _ e] exI [of _ ws])
        (simp add: json_fraction_def)
  next
    case 2
    with acc Cons have "json_accepts (SE, []) q" by (auto simp: json_state_0_def)
    from accepts_ED [OF this 2(2)] Cons obtain t e ws
      where "r = t @ ws" "json_exponent t e" "list_all json_space ws" by blast
    then show ?thesis
      by (intro exI [of _ "[]"] exI [of _ t] exI [of _ e] exI [of _ ws]) (simp add: json_fraction_def)
  next
    case 3
    with acc Cons have "json_space c \<and> list_all json_space q" by (simp add: json_state_0_def accepts_end_value)
    with Cons show ?thesis
      by (intro exI [of _ "[]"] exI [of _ 0] exI [of _ r]) (simp add: json_fraction_def json_exponent_def)
  qed
qed

lemma accepts_S0I: "json_fraction p f \<Longrightarrow> json_exponent t e \<Longrightarrow> json_accepts (S0, []) (p @ t)"
proof (cases f)
  case Nil
  assume "json_fraction p f" and t: "json_exponent t e"
  with Nil have p: "p = []" by (simp add: json_fraction_def)
  show ?thesis
  proof (rule json_exponent_cases [OF t])
    fix x u assume u: "t = x # u" "x \<in> {CHR ''e'', CHR ''E''}"
    then have "json_accepts (SE, []) u" using accepts_exponentI t by blast
    with u show ?thesis by (auto simp: p json_state_0_def)
  qed (simp add: p json_state_0_def json_end_top_def)
next
  case (Cons d ds)
  assume "json_fraction p f" "json_exponent t e"
  with Cons show ?thesis by (simp add: json_fraction_def json_state_0_def accepts_Dot0I)
qed

lemma accepts_S1D:
  "json_accepts (S1, []) r \<Longrightarrow> \<exists>ds q. r = ds @ q \<and> list_all is_digit ds \<and> json_accepts (S0, []) q"
proof (induction r)
  case Nil
  then show ?case by (simp add: json_state_0_def)
next
  case (Cons c r)
  show ?case
  proof (cases "is_digit c")
    case True
    with Cons obtain ds q where "r = ds @ q" "list_all is_digit ds" "json_accepts (S0, []) q" by auto
    with True show ?thesis by (intro exI [of _ "c # ds"] exI [of _ q]) simp
  next
    case False
    with Cons.prems show ?thesis by (intro exI [of _ "[]"] exI [of _ "c # r"]) simp
  qed
qed

lemma accepts_S1I: "list_all is_digit ds \<Longrightarrow> json_accepts (S0, []) q \<Longrightarrow>
    (case q of [] \<Rightarrow> True | c # _ \<Rightarrow> \<not> is_digit c) \<Longrightarrow> json_accepts (S1, []) (ds @ q)"
proof (induction ds)
  case Nil
  then show ?case by (cases q) (simp_all add: json_state_0_def)
qed simp

lemma accepts_after_sign:
  assumes "c = CHR ''0'' \<and> json_accepts (S0, []) r \<or> c \<noteq> CHR ''0'' \<and> is_digit c \<and> json_accepts (S1, []) r"
  shows "\<exists>i f e p t ws. c # r = i @ p @ t @ ws \<and> i \<noteq> [] \<and> list_all is_digit i \<and> (hd i = CHR ''0'' \<longrightarrow> tl i = [])
    \<and> json_fraction p f \<and> json_exponent t e \<and> list_all json_space ws"
proof -
  obtain ds q where "r = ds @ q" "list_all is_digit ds" "json_accepts (S0, []) q" "c = CHR ''0'' \<longrightarrow> ds = []"
    using assms accepts_S1D by (metis append_Nil list.pred_inject(1))
  moreover from accepts_S0D [OF this(3)] obtain p f t e ws
    where "q = p @ t @ ws" "json_fraction p f" "json_exponent t e" "list_all json_space ws" by blast
  moreover have "is_digit c" using assms by auto
  ultimately show ?thesis
    by (intro exI [of _ "c # ds"] exI [of _ f] exI [of _ e] exI [of _ p] exI [of _ t] exI [of _ ws]) simp
qed

lemma json_numberI:
  "i \<noteq> [] \<Longrightarrow> list_all is_digit i \<Longrightarrow> (hd i = CHR ''0'' \<longrightarrow> tl i = []) \<Longrightarrow> json_fraction p f \<Longrightarrow>
   json_exponent t e \<Longrightarrow> json_number neg i f e ((if neg then ''-'' else []) @ i @ p @ t)"
  unfolding json_number_def by blast

lemma json_Valid_number_start:
  assumes "json_Valid (c # r)" and "c = CHR ''-'' \<or> is_digit c"
  shows "\<exists>neg i f e u ws. c # r = u @ ws \<and> json_number neg i f e u \<and> list_all json_space ws"
proof (cases "c = CHR ''-''")
  case True
  with assms(1) have "json_accepts (SNeg, []) r" by (simp add: json_Valid_def json_begin_value_def json_space_def)
  then obtain d q where "r = d # q"
    "d = CHR ''0'' \<and> json_accepts (S0, []) q \<or> d \<noteq> CHR ''0'' \<and> is_digit d \<and> json_accepts (S1, []) q"
    by (cases r) (simp_all split: if_splits)
  with accepts_after_sign [of d q] obtain i f e p t ws where "r = i @ p @ t @ ws"
    and number: "i \<noteq> []" "list_all is_digit i" "hd i = CHR ''0'' \<longrightarrow> tl i = []" "json_fraction p f" "json_exponent t e"
    and ws: "list_all json_space ws" by blast
  then have "c # r = ((if True then ''-'' else []) @ i @ p @ t) @ ws" using True by simp
  with json_numberI [OF number, of True] ws show ?thesis by blast
next
  case False
  with assms have c: "is_digit c" by simp
  then have "(of_char c :: nat) \<in> {48..57}" by (simp add: is_digit_def)
  then have "\<not> json_space c" "c \<notin> {CHR ''{'', CHR ''['', CHR 0x22, CHR ''t'', CHR ''f'', CHR ''n''}"
    by (auto simp: json_space_def)
  with assms(1) False c
  have "c = CHR ''0'' \<and> json_accepts (S0, []) r \<or> c \<noteq> CHR ''0'' \<and> is_digit c \<and> json_accepts (S1, []) r"
    by (simp add: json_Valid_def json_begin_value_def split: if_splits)
  from accepts_after_sign [OF this] obtain i f e p t ws where "c # r = i @ p @ t @ ws"
    and number: "i \<noteq> []" "list_all is_digit i" "hd i = CHR ''0'' \<longrightarrow> tl i = []" "json_fraction p f" "json_exponent t e"
    and ws: "list_all json_space ws" by blast
  then have "c # r = ((if False then ''-'' else []) @ i @ p @ t) @ ws" by simp
  with json_numberI [OF number, of False] ws show ?thesis by blast
qed

lemma json_Valid_start:
  assumes "json_Valid s"
  obtains c r where "s = c # r" "c \<notin> {CHR ''+'', CHR ''.'', CHR ''e'', CHR ''E''}"
proof (cases s)
  case Nil
  with assms show ?thesis by (simp add: json_Valid_def json_begin_value_def)
next
  case (Cons c r)
  have "c \<notin> {CHR ''+'', CHR ''.'', CHR ''e'', CHR ''E''}"
    using assms unfolding Cons
    by (auto simp: json_Valid_def json_begin_value_def json_space_def is_digit_def)
  with Cons that show ?thesis by blast
qed

lemma json_Valid_number:
  assumes "json_number neg i f e s"
  shows "json_Valid s"
proof -
  from assms obtain p t where i: "i \<noteq> []" "list_all is_digit i" "hd i = CHR ''0'' \<longrightarrow> tl i = []"
    and s: "s = (if neg then ''-'' else []) @ i @ p @ t" and pt: "json_fraction p f" "json_exponent t e"
    unfolding json_number_def by blast
  have S0: "json_accepts (S0, []) (p @ t)" by (rule accepts_S0I [OF pt])
  have "case p @ t of [] \<Rightarrow> True | c # _ \<Rightarrow> \<not> is_digit c"
    using pt by (cases rule: json_exponent_cases [OF pt(2)]) (auto simp: json_fraction_def)
  then have S1: "list_all is_digit ds \<Longrightarrow> json_accepts (S1, []) (ds @ p @ t)" for ds
    using accepts_S1I S0 by blast
  obtain d ds where d: "i = d # ds" "is_digit d" using i(1,2) by (cases i) auto
  then have "(of_char d :: nat) \<in> {48..57}" by (simp add: is_digit_def)
  then have "\<not> json_space d" "d \<notin> {CHR ''-'', CHR ''{'', CHR ''['', CHR 0x22, CHR ''t'', CHR ''f'', CHR ''n''}"
    by (auto simp: json_space_def)
  then have "json_accepts (SNeg, []) (i @ p @ t)" "json_accepts (SBeginValue, []) (i @ p @ t)"
    using d i S0 S1 [of ds] by (auto simp: json_begin_value_def)
  then show ?thesis unfolding s json_Valid_def by (simp add: json_begin_value_def json_space_def)
qed

end
