(* ===== verification/Go_Time.thy ===== *)
theory Go_Time
  imports Go_Numbers
begin

text \<open>
  The text of an instant: the calendar of package \<open>time\<close> and its strict RFC 3339 form, which
  \<open>encoding/json\<close> writes and reads, with the round trip between the two.
\<close>

subsection \<open>The calendar\<close>

text \<open>Days are counted from 1 January of year 0 of the proleptic Gregorian calendar.\<close>

definition isLeap :: "int \<Rightarrow> bool" where
  "isLeap y \<longleftrightarrow> y mod 4 = 0 \<and> (y mod 100 \<noteq> 0 \<or> y mod 400 = 0)"

definition days_before_year :: "int \<Rightarrow> int" where
  "days_before_year y = 365 * y + (y + 3) div 4 - (y + 99) div 100 + (y + 399) div 400"

definition days_before_month :: "bool \<Rightarrow> int \<Rightarrow> int" where
  "days_before_month leap m =
     [0, 31, 59, 90, 120, 151, 181, 212, 243, 273, 304, 334, 365] ! nat (m - 1) + (if leap \<and> m > 2 then 1 else 0)"

definition daysIn :: "int \<Rightarrow> int \<Rightarrow> int" where
  "daysIn m y = days_before_month (isLeap y) (m + 1) - days_before_month (isLeap y) m"

definition unix_day :: int where
  "unix_day = days_before_year 1970"

definition year_of :: "int \<Rightarrow> int" where
  "year_of n =
     (let y = 400 * n div 146097
      in if n < days_before_year y then y - 1 else if days_before_year (y + 1) \<le> n then y + 1 else y)"

definition month_of :: "bool \<Rightarrow> int \<Rightarrow> int" where
  "month_of leap d =
     int (length (takeWhile (\<lambda>m. days_before_month leap (m + 1) \<le> d) [1, 2, 3, 4, 5, 6, 7, 8, 9, 10, 11])) + 1"

lemma div_plus_one: "0 < k \<Longrightarrow> (a + 1) div k = a div k + (if (a + 1) mod k = 0 then 1 else 0)" for a k :: int
proof -
  assume k: "0 < k"
  define q r where "q = (a + 1) div k" and "r = (a + 1) mod k"
  have a: "a + 1 = k * q + r" "0 \<le> r" "r < k" using k by (simp_all add: q_def r_def)
  show ?thesis
  proof (cases "r = 0")
    case True
    with a have "a = k * (q - 1) + (k - 1)" by (simp add: algebra_simps)
    with k have "a div k = q - 1" by (intro int_div_pos_eq [of _ _ _ "k - 1"]) auto
    then show ?thesis using True by (simp add: q_def r_def)
  next
    case False
    with a have "a = k * q + (r - 1)" "0 \<le> r - 1" "r - 1 < k" by auto
    then have "a div k = q" by (intro int_div_pos_eq [of _ _ _ "r - 1"]) auto
    then show ?thesis using False by (simp add: q_def r_def)
  qed
qed

lemma div_bounds: "0 < k \<Longrightarrow> k * (a div k) \<le> a \<and> a < k * (a div k) + k" for a k :: int
  using mult_div_mod_eq [of k a] pos_mod_sign [of k a] pos_mod_bound [of k a] by linarith

lemma days_before_Suc_year: "days_before_year (y + 1) = days_before_year y + (if isLeap y then 366 else 365)"
proof -
  have step: "b div k = a div k + (if y mod k = 0 then 1 else 0)" if "b = a + 1" "b = y + k" "0 < k" for a b k
    using div_plus_one [OF that(3), of a] unfolding that(1) [symmetric] unfolding that(2) mod_add_self2 .
  have "(y + 4) div 4 = (y + 3) div 4 + (if y mod 4 = 0 then 1 else 0)"
    "(y + 100) div 100 = (y + 99) div 100 + (if y mod 100 = 0 then 1 else 0)"
    "(y + 400) div 400 = (y + 399) div 400 + (if y mod 400 = 0 then 1 else 0)"
    by (rule step; simp)+
  moreover have "y mod 100 = 0 \<Longrightarrow> y mod 4 = 0"
    unfolding mod_eq_0_iff_dvd by (rule dvd_trans [of 4 100]) simp_all
  moreover have "y mod 400 = 0 \<Longrightarrow> y mod 100 = 0"
    unfolding mod_eq_0_iff_dvd by (rule dvd_trans [of 100 400]) simp_all
  moreover have "days_before_year (y + 1) = 365 * y + 365 + (y + 4) div 4 - (y + 100) div 100 + (y + 400) div 400"
    by (simp only: days_before_year_def add.assoc) (simp only: distrib_left mult_1_right one_add_one numeral_plus_one semiring_norm)
  ultimately show ?thesis
    by (cases "y mod 4 = 0"; cases "y mod 100 = 0"; cases "y mod 400 = 0")
      (simp_all only: days_before_year_def isLeap_def simp_thms if_True if_False)
qed

lemma days_before_year_bounds:
  "146097 * y - 400 \<le> 400 * days_before_year y \<and> 400 * days_before_year y \<le> 146097 * y + 700"
proof -
  define A B C where "A = (y + 3) div 4" and "B = (y + 99) div 100" and "C = (y + 399) div 400"
  have "4 * A \<le> y + 3" "y \<le> 4 * A" "100 * B \<le> y + 99" "y \<le> 100 * B" "400 * C \<le> y + 399" "y \<le> 400 * C"
    using div_bounds [of 4 "y + 3"] div_bounds [of 100 "y + 99"] div_bounds [of 400 "y + 399"]
    unfolding A_def B_def C_def by linarith+
  moreover have "days_before_year y = 365 * y + A - B + C" by (simp add: days_before_year_def A_def B_def C_def)
  ultimately show ?thesis by linarith
qed

lemma year_of_bounds: "days_before_year (year_of n) \<le> n \<and> n < days_before_year (year_of n + 1)"
proof -
  define y where "y = 400 * n div 146097"
  define r where "r = 400 * n mod 146097"
  have "400 * n = 146097 * y + r" "0 \<le> r" "r < 146097"
    unfolding y_def r_def by simp_all
  then have y: "146097 * y \<le> 400 * n" "400 * n < 146097 * y + 146097" by simp_all
  have lo: "n < days_before_year (y + 2)"
    using y days_before_year_bounds [of "y + 2"] by simp
  have hi: "days_before_year (y - 1) \<le> n"
    using y days_before_year_bounds [of "y - 1"] by simp
  show ?thesis using lo hi by (auto simp: year_of_def y_def [symmetric] Let_def add.assoc)
qed

lemma month_of_bounds:
  assumes "0 \<le> d" and "d < 365 + (if leap then 1 else 0)"
  shows "1 \<le> month_of leap d \<and> month_of leap d \<le> 12 \<and> days_before_month leap (month_of leap d) \<le> d
    \<and> d < days_before_month leap (month_of leap d + 1)"
  using assms by (cases leap) (auto simp: month_of_def days_before_month_def)

subsection \<open>RFC 3339\<close>

text \<open>A number in \<open>k\<close> digits.\<close>

fun digits :: "nat \<Rightarrow> int \<Rightarrow> string" where
  "digits 0 n = []"
| "digits (Suc k) n = digits k (n div 10) @ [char_of (48 + nat (n mod 10))]"

text \<open>The fraction of a second, without its trailing zeros.\<close>

definition fraction :: "int \<Rightarrow> string" where
  "fraction ns =
     (let ds = rev (dropWhile (\<lambda>c. c = CHR ''0'') (rev (digits 9 ns)))
      in if ds = [] then [] else CHR ''.'' # ds)"

text \<open>\<open>Time.MarshalJSON\<close> of a UTC instant, without the quotes: the year has four digits.\<close>

definition format_time :: "time \<Rightarrow> string option" where
  "format_time t =
     (let secs = t div Second; n = secs div 86400 + unix_day; s = secs mod 86400;
          y = year_of n; d = n - days_before_year y; m = month_of (isLeap y) d
      in if 0 \<le> y \<and> y \<le> 9999
         then Some (digits 4 y @ ''-'' @ digits 2 m @ ''-'' @ digits 2 (d - days_before_month (isLeap y) m + 1) @ ''T''
           @ digits 2 (s div 3600) @ '':'' @ digits 2 (s div 60 mod 60) @ '':'' @ digits 2 (s mod 60)
           @ fraction (t mod Second) @ ''Z'')
         else None)"

text \<open>\<open>parseRFC3339\<close>. A fraction is read to the nanosecond; an offset is subtracted.\<close>

definition parse_uint :: "string \<Rightarrow> int \<Rightarrow> int \<Rightarrow> int option" where
  "parse_uint s lo hi =
     (let n = digits_value 0 s in if list_all is_digit s \<and> lo \<le> n \<and> n \<le> hi then Some n else None)"

definition parse_fraction :: "string \<Rightarrow> int \<times> string" where
  "parse_fraction s =
     (if 2 \<le> length s \<and> hd s = CHR ''.'' \<and> is_digit (s ! 1)
      then let ds = takeWhile is_digit (tl s); used = take 9 ds
           in (digits_value 0 used * 10 ^ (9 - length used), drop (length ds) (tl s))
      else (0, s))"

definition parse_zone :: "string \<Rightarrow> int option" where
  "parse_zone s =
     (if s = ''Z'' then Some 0
      else if length s = 6 \<and> (hd s = CHR ''-'' \<or> hd s = CHR ''+'') \<and> s ! 3 = CHR '':''
      then case (parse_uint (take 2 (drop 1 s)) 0 23, parse_uint (drop 4 s) 0 59) of
             (Some hr, Some mm) \<Rightarrow>
               let offset = (hr * 60 + mm) * 60 in Some (if hd s = CHR ''-'' then - offset else offset)
           | _ \<Rightarrow> None
      else None)"

definition time_of :: "int \<Rightarrow> int \<Rightarrow> int \<Rightarrow> int \<Rightarrow> int \<Rightarrow> int \<Rightarrow> int \<Rightarrow> time" where
  "time_of y m d h mi s ns =
     (((days_before_year y + days_before_month (isLeap y) m + d - 1 - unix_day) * 86400
       + h * 3600 + mi * 60 + s)) * Second + ns"

definition parse_time :: "string \<Rightarrow> time option" where
  "parse_time s =
     (if length s < 19 then None
      else
        Option.bind (parse_uint (take 4 s) 0 9999) (\<lambda>y.
        Option.bind (parse_uint (take 2 (drop 5 s)) 1 12) (\<lambda>m.
        Option.bind (parse_uint (take 2 (drop 8 s)) 1 (daysIn m y)) (\<lambda>d.
        Option.bind (parse_uint (take 2 (drop 11 s)) 0 23) (\<lambda>h.
        Option.bind (parse_uint (take 2 (drop 14 s)) 0 59) (\<lambda>mi.
        Option.bind (parse_uint (take 2 (drop 17 s)) 0 59) (\<lambda>sec.
        if s ! 4 = CHR ''-'' \<and> s ! 7 = CHR ''-'' \<and> s ! 10 = CHR ''T'' \<and> s ! 13 = CHR '':'' \<and> s ! 16 = CHR '':''
        then case parse_fraction (drop 19 s) of (ns, rest) \<Rightarrow>
               map_option (\<lambda>offset. time_of y m d h mi sec ns - offset * Second) (parse_zone rest)
        else None)))))))"

subsection \<open>The round trip\<close>

lemma length_digits [simp]: "length (digits k n) = k"
  by (induction k arbitrary: n) auto

lemma char_digit:
  assumes "0 \<le> n" "n < 10"
  shows "is_digit (char_of (48 + nat n))" "digit_value (char_of (48 + nat n)) = n"
proof -
  have "(of_char (char_of (48 + nat n) :: char) :: nat) = 48 + nat n"
    using assms by (subst of_char_of) simp
  then show "is_digit (char_of (48 + nat n))" "digit_value (char_of (48 + nat n)) = n"
    using assms of_nat_of_char [of "char_of (48 + nat n)", where 'a = int] by (auto simp: is_digit_def digit_value_def)
qed

lemma is_digit_digits [simp]: "list_all is_digit (digits k n)"
  by (induction k arbitrary: n) (auto simp: char_digit)

lemma digits_value_digits: "0 \<le> n \<Longrightarrow> n < 10 ^ k \<Longrightarrow> digits_value 0 (digits k n) = n"
proof (induction k arbitrary: n)
  case (Suc k)
  then have "digits_value 0 (digits k (n div 10)) = n div 10" by (intro Suc.IH) auto
  then show ?case using char_digit [of "n mod 10"] by (simp add: digits_value_append digits_value_Cons)
qed simp

lemma parse_uint_digits:
  "0 \<le> n \<Longrightarrow> n < 10 ^ k \<Longrightarrow> lo \<le> n \<Longrightarrow> n \<le> hi \<Longrightarrow> parse_uint (digits k n) lo hi = Some n"
  by (simp add: parse_uint_def digits_value_digits)

lemma parse_fraction_Z:
  assumes "0 \<le> ns" "ns < Second"
  shows "parse_fraction (fraction ns @ ''Z'') = (ns, ''Z'')"
proof -
  define all zs ds where "all = digits 9 ns" and "zs = takeWhile (\<lambda>c. c = CHR ''0'') (rev all)"
    and "ds = rev (dropWhile (\<lambda>c. c = CHR ''0'') (rev all))"
  have zs: "zs = replicate (length zs) CHR ''0''"
    by (rule replicate_length_same [symmetric]) (auto simp: zs_def dest: set_takeWhileD)
  have "rev all = zs @ rev ds" by (simp add: zs_def ds_def)
  then have all: "all = ds @ replicate (length zs) CHR ''0''" by (metis rev_append rev_replicate rev_rev_ident zs)
  have digit: "list_all is_digit ds" using is_digit_digits [of 9 ns] all by (simp add: all_def [symmetric])
  have len: "length ds + length zs = 9"
    using arg_cong [OF all, of length] by (simp add: all_def)
  have "digits_value 0 all = ns"
    unfolding all_def using assms by (intro digits_value_digits) (simp_all add: Second_def)
  then have ns: "ns = digits_value 0 ds * 10 ^ length zs"
    by (simp add: all digits_value_append)
  have frac: "fraction ns = (if ds = [] then [] else CHR ''.'' # ds)"
    by (simp only: fraction_def Let_def ds_def all_def)
  show ?thesis
  proof (cases ds)
    case Nil
    with ns frac have "ns = 0" "fraction ns = []" by simp_all
    then show ?thesis by (simp add: parse_fraction_def)
  next
    case (Cons d r)
    have "\<not> is_digit CHR ''Z''" by (simp add: is_digit_def)
    with digit have take: "takeWhile is_digit (ds @ ''Z'') = ds"
      by (simp add: list_all_iff)
    have len': "length zs = 9 - length ds" "length ds \<le> 9" using len by simp_all
    have "fraction ns = CHR ''.'' # ds" "is_digit d" using frac Cons digit by simp_all
    then have "parse_fraction (fraction ns @ ''Z'') = (digits_value 0 ds * 10 ^ (9 - length ds), ''Z'')"
      using take len'(2) Cons by (simp add: parse_fraction_def Let_def)
    with ns len'(1) show ?thesis by simp
  qed
qed

lemma digits_2: "digits 2 n = [char_of (48 + nat (n div 10 mod 10)), char_of (48 + nat (n mod 10))]"
  by (simp add: numeral_2_eq_2)

lemma digits_4:
  "digits 4 n = [char_of (48 + nat (n div 10 div 10 div 10 mod 10)), char_of (48 + nat (n div 10 div 10 mod 10)),
     char_of (48 + nat (n div 10 mod 10)), char_of (48 + nat (n mod 10))]"
proof -
  have "4 = Suc (Suc (Suc (Suc 0)))" by simp
  then show ?thesis by (simp only: digits.simps append.simps)
qed

lemma daysIn_le: "1 \<le> m \<Longrightarrow> m \<le> 12 \<Longrightarrow> daysIn m y \<le> 31"
proof -
  assume "1 \<le> m" "m \<le> 12"
  then have "m = 1 \<or> m = 2 \<or> m = 3 \<or> m = 4 \<or> m = 5 \<or> m = 6 \<or> m = 7 \<or> m = 8 \<or> m = 9 \<or> m = 10 \<or> m = 11 \<or> m = 12"
    by presburger
  then show ?thesis by (elim disjE) (simp_all add: daysIn_def days_before_month_def)
qed

lemma format_time_shape:
  assumes "format_time t = Some s"
  obtains y m d h mi sec ns where
    "0 \<le> y" "y \<le> 9999" "1 \<le> m" "m \<le> 12" "1 \<le> d" "d \<le> daysIn m y" "0 \<le> h" "h \<le> 23"
    "0 \<le> mi" "mi \<le> 59" "0 \<le> sec" "sec \<le> 59" "0 \<le> ns" "ns < Second" "t = time_of y m d h mi sec ns"
    "s = digits 4 y @ ''-'' @ digits 2 m @ ''-'' @ digits 2 d @ ''T'' @ digits 2 h @ '':'' @ digits 2 mi @ '':''
       @ digits 2 sec @ fraction ns @ ''Z''"
proof -
  define n where "n = t div Second div 86400 + unix_day"
  define r where "r = t div Second mod 86400"
  define y where "y = year_of n"
  define d where "d = n - days_before_year y"
  define m where "m = month_of (isLeap y) d"
  have y: "0 \<le> y" "y \<le> 9999" and s: "s = digits 4 y @ ''-'' @ digits 2 m @ ''-''
      @ digits 2 (d - days_before_month (isLeap y) m + 1) @ ''T'' @ digits 2 (r div 3600) @ '':''
      @ digits 2 (r div 60 mod 60) @ '':'' @ digits 2 (r mod 60) @ fraction (t mod Second) @ ''Z''"
    using assms unfolding format_time_def Let_def n_def [symmetric] r_def [symmetric]
    unfolding y_def [symmetric] unfolding d_def [symmetric] unfolding m_def [symmetric]
    by (auto split: if_splits)
  have d: "0 \<le> d" "d < 365 + (if isLeap y then 1 else 0)"
    using year_of_bounds [of n] days_before_Suc_year [of y] by (auto simp: d_def y_def [symmetric])
  note m = month_of_bounds [OF d, folded m_def]
  have r: "0 \<le> r" "r < 86400" by (simp_all add: r_def)
  define h mi sec where "h = r div 3600" and "mi = r div 60 mod 60" and "sec = r mod 60"
  have hms: "0 \<le> h" "h \<le> 23" "0 \<le> mi" "mi \<le> 59" "0 \<le> sec" "sec \<le> 59" "h * 3600 + mi * 60 + sec = r"
  proof -
    have "r div 60 div 60 = h" by (simp add: h_def zdiv_zmult2_eq [symmetric])
    then have "mi = r div 60 - 60 * h" by (simp add: mi_def minus_mult_div_eq_mod [symmetric])
    moreover have "sec = r - 60 * (r div 60)" by (simp add: sec_def minus_mult_div_eq_mod [symmetric])
    ultimately show "0 \<le> h" "h \<le> 23" "0 \<le> mi" "mi \<le> 59" "0 \<le> sec" "sec \<le> 59" "h * 3600 + mi * 60 + sec = r"
      using r div_bounds [of 3600 r] div_bounds [of 60 r] pos_mod_bound [of 60 "r div 60"]
        pos_mod_sign [of 60 "r div 60"] unfolding h_def [symmetric] mi_def [symmetric] by linarith+
  qed
  have "(n - unix_day) * 86400 + r = t div Second" by (simp add: n_def r_def)
  then have "t = ((n - unix_day) * 86400 + r) * Second + t mod Second" by simp
  moreover have "(n - unix_day) * 86400 + r = (days_before_year y + days_before_month (isLeap y) m
      + (d - days_before_month (isLeap y) m + 1) - 1 - unix_day) * 86400 + h * 3600 + mi * 60 + sec"
    using hms(7) by (simp add: d_def)
  ultimately have "t = time_of y m (d - days_before_month (isLeap y) m + 1) h mi sec (t mod Second)"
    unfolding time_of_def by (simp only:)
  with that [OF y, of m "d - days_before_month (isLeap y) m + 1" h mi sec "t mod Second"] m hms s
  show thesis by (simp add: h_def [symmetric] mi_def [symmetric] sec_def [symmetric] daysIn_def Second_def)
qed

lemma parse_format_time:
  assumes "format_time t = Some s"
  shows "parse_time s = Some t"
  using assms
proof (cases rule: format_time_shape)
  case (1 y m d h mi sec ns)
  have "daysIn m y \<le> 31" by (rule daysIn_le [OF 1(3,4)])
  then have *: "parse_uint (digits 4 y) 0 9999 = Some y" "parse_uint (digits 2 m) 1 12 = Some m"
    "parse_uint (digits 2 d) 1 (daysIn m y) = Some d" "parse_uint (digits 2 h) 0 23 = Some h"
    "parse_uint (digits 2 mi) 0 59 = Some mi" "parse_uint (digits 2 sec) 0 59 = Some sec"
    using 1 by (auto intro: parse_uint_digits)
  have frac: "parse_fraction (fraction ns @ ''Z'') = (ns, ''Z'')" by (rule parse_fraction_Z [OF 1(13,14)])
  have zone: "parse_zone ''Z'' = Some 0" by (simp add: parse_zone_def)
  show ?thesis
    using frac * unfolding 1(16) parse_time_def
    by (simp add: digits_2 digits_4 zone 1(15))
qed

end
