(* ===== verification/Go_Text.thy ===== *)
theory Go_Text
  imports Go_Std
begin

text \<open>
  The functions on text that the plugins and the token generators use: letter case, folding and
  splitting of package \<open>strings\<close>, decimal numbers, and the canonical header keys of
  \<open>net/textproto\<close>.
\<close>

subsection \<open>Letter case\<close>

text \<open>
  Case is mapped on ASCII letters and on the runes outside of ASCII that have an image in it, given
  by their UTF-8 encodings; any other byte stays. What the program compares the results with is
  ASCII, so that no other mapping can be observed there.
\<close>

definition ascii_lower :: "char \<Rightarrow> char" where
  "ascii_lower c = (let n = of_char c :: nat in if 65 \<le> n \<and> n \<le> 90 then char_of (n + 32) else c)"

definition ascii_upper :: "char \<Rightarrow> char" where
  "ascii_upper c = (let n = of_char c :: nat in if 97 \<le> n \<and> n \<le> 122 then char_of (n - 32) else c)"

function map_runes :: "(string \<times> char) list \<Rightarrow> (char \<Rightarrow> char) \<Rightarrow> string \<Rightarrow> string" where
  "map_runes table f [] = []"
| "map_runes table f (c # s) =
     (case find (\<lambda>(p, _). p \<noteq> [] \<and> prefix p (c # s)) table of
        None \<Rightarrow> f c # map_runes table f s
      | Some (p, d) \<Rightarrow> d # map_runes table f (drop (length p) (c # s)))"
  by pat_completeness auto
termination
proof (relation "measure (\<lambda>(table, f, s). length s)", goal_cases)
  case (3 table f c s x2 p d)
  then have "p \<noteq> []" by (auto simp: find_Some_iff)
  then show ?case by (cases p) auto
qed auto

definition ToLower :: "string \<Rightarrow> string" where
  "ToLower = map_runes [([CHR 0xE2, CHR 0x84, CHR 0xAA], CHR ''k''), ([CHR 0xC4, CHR 0xB0], CHR ''i'')] ascii_lower"

definition ToUpper :: "string \<Rightarrow> string" where
  "ToUpper = map_runes [([CHR 0xC5, CHR 0xBF], CHR ''S''), ([CHR 0xC4, CHR 0xB1], CHR ''I'')] ascii_upper"

text \<open>\<open>EqualFold\<close> goes by simple folding: the Kelvin sign is a k, the long s an s.\<close>

definition fold_case :: "string \<Rightarrow> string" where
  "fold_case = map_runes [([CHR 0xE2, CHR 0x84, CHR 0xAA], CHR ''k''), ([CHR 0xC5, CHR 0xBF], CHR ''s'')] ascii_lower"

definition EqualFold :: "string \<Rightarrow> string \<Rightarrow> bool" where
  "EqualFold s t \<longleftrightarrow> fold_case s = fold_case t"

lemma EqualFold_refl [simp]: "EqualFold s s"
  by (simp add: EqualFold_def)

subsection \<open>Decimal numbers\<close>

text \<open>The verb \<open>%d\<close>.\<close>

function decimal_nat :: "nat \<Rightarrow> string" where
  "decimal_nat n = (if n < 10 then [char_of (48 + n)] else decimal_nat (n div 10) @ [char_of (48 + n mod 10)])"
  by pat_completeness auto
termination by (relation "measure id") auto

declare decimal_nat.simps [simp del]

definition decimal :: "int \<Rightarrow> string" where
  "decimal n = (if n < 0 then ''-'' @ decimal_nat (nat (- n)) else decimal_nat (nat n))"

subsection \<open>Fields\<close>

definition starts_space :: "string \<Rightarrow> bool" where
  "starts_space s \<longleftrightarrow> list_ex (\<lambda>p. prefix p s) utf8_spaces"

fun take_word :: "string \<Rightarrow> string" where
  "take_word [] = []"
| "take_word (c # s) = (if starts_space (c # s) then [] else c # take_word s)"

lemma length_take_word: "length (take_word s) \<le> length s"
  by (induction s) auto

lemma starts_space_iff: "starts_space s \<longleftrightarrow> \<not> no_prefix utf8_spaces s"
proof -
  have "[] \<notin> set utf8_spaces" by (simp add: utf8_spaces_def)
  then have "p \<noteq> []" if "p \<in> set utf8_spaces" for p using that by auto
  then show ?thesis by (auto simp: starts_space_def no_prefix_def list_ex_iff)
qed

lemma trim_left_no_space: "\<not> starts_space (trim_left s)"
  by (simp add: starts_space_iff trim_left_def no_prefix_strip)

lemma take_word_ne: "s \<noteq> [] \<Longrightarrow> \<not> starts_space s \<Longrightarrow> take_word s \<noteq> []"
  by (cases s) auto

lemma length_trim_left: "length (trim_left s) \<le> length s"
  using suffix_strip [of utf8_spaces s] by (auto simp: trim_left_def dest: suffix_length_le)

function Fields :: "string \<Rightarrow> string list" where
  "Fields s =
     (let s = trim_left s; word = take_word s
      in if s = [] then [] else word # Fields (drop (length word) s))"
  by pat_completeness auto
termination
proof (relation "measure length", simp, unfold in_measure)
  fix s x xa assume "x = trim_left s" "xa = take_word x" "x \<noteq> []"
  then have "0 < length xa" "x \<noteq> []" "length x \<le> length s"
    using take_word_ne [of x] trim_left_no_space length_trim_left by auto
  then show "length (drop (length xa) x) < length s" by (cases x; cases xa) auto
qed

declare Fields.simps [simp del]

lemma trim_left_ne:
  assumes "s \<noteq> []" "graphic (hd s)" shows "trim_left s = s"
proof -
  have "no_prefix utf8_spaces s"
    using assms graphic_spaces by (auto simp: no_prefix_def prefix_def neq_Nil_conv) (metis list.sel(1))
  then show ?thesis by (simp add: trim_left_def strip_id)
qed

lemma starts_space_graphic: "graphic c \<Longrightarrow> \<not> starts_space (c # s)"
  using trim_left_ne [of "c # s"] trim_left_no_space [of "c # s"] by simp

lemma take_word_graphic:
  "\<forall>c \<in> set w. graphic c \<Longrightarrow> s = [] \<or> starts_space s \<Longrightarrow> take_word (w @ s) = w"
proof (induction w)
  case Nil
  then show ?case by (cases s) auto
next
  case (Cons c w)
  then show ?case by (simp add: starts_space_graphic)
qed

text \<open>A word of visible ASCII characters, followed by a blank.\<close>

definition word :: "string \<Rightarrow> bool" where
  "word w \<longleftrightarrow> w \<noteq> [] \<and> (\<forall>c \<in> set w. graphic c)"

lemma word_hd_last: "word w \<Longrightarrow> w \<noteq> [] \<and> graphic (hd w) \<and> graphic (last w)"
  by (simp add: word_def)

lemma TrimSpace_word [simp]: "word w \<Longrightarrow> TrimSpace w = w"
  using word_hd_last TrimSpace_graphic by blast

lemma starts_space_blank [simp]: "starts_space (CHR '' '' # s)"
proof -
  have "[CHR 0x20] \<in> set utf8_spaces" by (simp add: utf8_spaces_def)
  then show ?thesis by (auto simp: starts_space_def list_ex_iff intro!: bexI [of _ "[CHR 0x20]"])
qed

lemma Fields_Nil [simp]: "Fields [] = []"
proof -
  have "trim_left [] = []" using length_trim_left [of "[]"] by simp
  then show ?thesis by (subst Fields.simps) (simp add: Let_def)
qed

lemma Fields_word: "word w \<Longrightarrow> Fields w = [w]"
  using take_word_graphic [of w "[]"] trim_left_ne word_hd_last [of w]
  by (subst Fields.simps) (auto simp: Let_def word_def)

lemma Fields_word_blank:
  assumes "word w" shows "Fields (w @ CHR '' '' # s) = w # Fields (CHR '' '' # s)"
proof -
  have "trim_left (w @ CHR '' '' # s) = w @ CHR '' '' # s"
    using word_hd_last [OF assms] by (intro trim_left_ne) auto
  moreover have "take_word (w @ CHR '' '' # s) = w"
    using assms by (intro take_word_graphic) (auto simp: word_def)
  ultimately show ?thesis
    using assms by (subst Fields.simps) (simp add: Let_def word_def)
qed

end
