(* ===== verification/Go_Json.thy ===== *)
theory Go_Json
  imports Go_Time Go_Text
begin

text \<open>
  The text of JSON as \<open>encoding/json\<close> writes and reads it: the quoting of strings, the grammar of
  values, and the compact form of a raw message. A value keeps the text of its strings and numbers
  as it stands between the delimiters; reading back what was printed gives the value again.
\<close>

subsection \<open>Runes in UTF-8\<close>

text \<open>The number of bytes of the rune outside of ASCII at the start of a string, 0 when the bytes
  are no encoding of a rune.\<close>

definition continuation :: "char \<Rightarrow> bool" where
  "continuation c \<longleftrightarrow> 128 \<le> (of_char c :: nat) \<and> (of_char c :: nat) \<le> 191"

definition second_byte :: "char \<Rightarrow> char \<Rightarrow> bool" where
  "second_byte a b \<longleftrightarrow>
     (let n = of_char a :: nat; m = of_char b :: nat
      in (if n = 0xE0 then 0xA0 else if n = 0xF0 then 0x90 else 0x80) \<le> m
         \<and> m \<le> (if n = 0xED then 0x9F else if n = 0xF4 then 0x8F else 0xBF))"

fun utf8_width :: "string \<Rightarrow> nat" where
  "utf8_width (a # b # s) =
     (let n = of_char a :: nat
      in if \<not> second_byte a b then 0
         else if 0xC2 \<le> n \<and> n \<le> 0xDF then 2
         else (case s of
             [] \<Rightarrow> 0
           | c # s \<Rightarrow>
               if \<not> continuation c then 0
               else if 0xE0 \<le> n \<and> n \<le> 0xEF then 3
               else (case s of [] \<Rightarrow> 0 | d # s \<Rightarrow> if continuation d \<and> 0xF0 \<le> n \<and> n \<le> 0xF4 then 4 else 0)))"
| "utf8_width _ = 0"

lemma utf8_width_le: "utf8_width s \<le> length s"
  by (induction s rule: utf8_width.induct) (auto simp: Let_def split: list.split)

lemma utf8_width_take:
  assumes "0 < utf8_width s"
  shows "utf8_width (take (utf8_width s) s @ r) = utf8_width s"
  using assms by (induction s rule: utf8_width.induct) (auto simp: Let_def split: list.splits if_splits)

definition byte :: "nat \<Rightarrow> char" where
  "byte n = char_of n"

definition utf8_encode :: "nat \<Rightarrow> string" where
  "utf8_encode n =
     (if n < 0x80 then [byte n]
      else if n < 0x800 then [byte (0xC0 + n div 64), byte (0x80 + n mod 64)]
      else if n < 0x10000 then [byte (0xE0 + n div 4096), byte (0x80 + n div 64 mod 64), byte (0x80 + n mod 64)]
      else [byte (0xF0 + n div 262144), byte (0x80 + n div 4096 mod 64), byte (0x80 + n div 64 mod 64), byte (0x80 + n mod 64)])"

definition replacement :: string where
  "replacement = [CHR 0xEF, CHR 0xBF, CHR 0xBD]"

function valid_utf8 :: "string \<Rightarrow> bool" where
  "valid_utf8 [] = True"
| "valid_utf8 (c # s) =
     (if (of_char c :: nat) < 128 then valid_utf8 s
      else 0 < utf8_width (c # s) \<and> valid_utf8 (drop (utf8_width (c # s) - 1) s))"
  by pat_completeness auto
termination by (relation "measure length") auto

subsection \<open>Quoting\<close>

definition quote_char :: char where "quote_char = CHR 0x22"
definition backslash :: char where "backslash = CHR 0x5C"

definition low_hex :: "nat \<Rightarrow> char" where
  "low_hex n = ''0123456789abcdef'' ! n"

text \<open>A byte of ASCII between quotes, with the escapes of HTML.\<close>

definition quote_ascii :: "char \<Rightarrow> string" where
  "quote_ascii c =
     (let n = of_char c :: nat
      in if c = quote_char \<or> c = backslash then [backslash, c]
         else if n = 8 then [backslash, CHR ''b''] else if n = 12 then [backslash, CHR ''f'']
         else if n = 10 then [backslash, CHR ''n''] else if n = 13 then [backslash, CHR ''r'']
         else if n = 9 then [backslash, CHR ''t'']
         else if n < 32 \<or> c \<in> set ''<>&'' then backslash # ''u00'' @ [low_hex (n div 16), low_hex (n mod 16)]
         else [c])"

definition line_separator :: "string \<Rightarrow> bool" where
  "line_separator s \<longleftrightarrow> take 3 s = [CHR 0xE2, CHR 0x80, CHR 0xA8] \<or> take 3 s = [CHR 0xE2, CHR 0x80, CHR 0xA9]"

definition escape_separator :: "string \<Rightarrow> string" where
  "escape_separator s = backslash # ''u202'' @ [low_hex ((of_char (s ! 2) :: nat) mod 16)]"

function json_quote :: "string \<Rightarrow> string" where
  "json_quote [] = []"
| "json_quote (c # s) =
     (if (of_char c :: nat) < 128 then quote_ascii c @ json_quote s
      else let w = utf8_width (c # s)
           in if w = 0 then backslash # ''ufffd'' @ json_quote s
              else if line_separator (c # s) then escape_separator (c # s) @ json_quote (drop (w - 1) s)
              else take w (c # s) @ json_quote (drop (w - 1) s))"
  by pat_completeness auto
termination by (relation "measure length") auto

subsection \<open>Unquoting\<close>

definition hex_nat :: "char \<Rightarrow> nat" where
  "hex_nat c =
     (let n = of_char c :: nat in if n \<le> 57 then n - 48 else if n \<le> 70 then n - 55 else n - 87)"

definition getu4 :: "string \<Rightarrow> nat" where
  "getu4 s = fold (\<lambda>c n. 16 * n + hex_nat c) (take 4 s) 0"

definition unescape :: "char \<Rightarrow> char" where
  "unescape e =
     (if e = CHR ''b'' then CHR 0x08 else if e = CHR ''f'' then CHR 0x0C else if e = CHR ''n'' then CHR 0x0A
      else if e = CHR ''r'' then CHR 0x0D else if e = CHR ''t'' then CHR 0x09 else e)"

text \<open>The text between the quotes of a literal that the scanner has accepted.\<close>

function json_unquote :: "string \<Rightarrow> string" where
  "json_unquote [] = []"
| "json_unquote (c # s) =
     (if c = backslash then
        (case s of
           [] \<Rightarrow> []
         | e # s \<Rightarrow>
             if e \<noteq> CHR ''u'' then unescape e # json_unquote s
             else
               let n = getu4 s; s = drop 4 s; m = getu4 (drop 2 s)
               in if 0xD800 \<le> n \<and> n < 0xE000
                  then if n < 0xDC00 \<and> take 2 s = [backslash, CHR ''u''] \<and> 0xDC00 \<le> m \<and> m < 0xE000
                       then utf8_encode (0x10000 + (n - 0xD800) * 1024 + (m - 0xDC00)) @ json_unquote (drop 6 s)
                       else replacement @ json_unquote s
                  else utf8_encode n @ json_unquote s)
      else if (of_char c :: nat) < 128 then c # json_unquote s
      else let w = utf8_width (c # s)
           in if w = 0 then replacement @ json_unquote s
              else take w (c # s) @ json_unquote (drop (w - 1) s))"
  by pat_completeness auto
termination by (relation "measure length") auto

declare json_quote.simps(2) [simp del] json_unquote.simps(2) [simp del] valid_utf8.simps(2) [simp del]

lemma json_unquote_ascii:
  "c \<noteq> backslash \<Longrightarrow> (of_char c :: nat) < 128 \<Longrightarrow> json_unquote (c # s) = c # json_unquote s"
  by (simp add: json_unquote.simps(2))

lemma json_unquote_escape:
  "e \<noteq> CHR ''u'' \<Longrightarrow> json_unquote (backslash # e # s) = unescape e # json_unquote s"
  by (simp add: json_unquote.simps(2))

lemma json_unquote_u:
  "getu4 s < 0xD800 \<Longrightarrow> json_unquote (backslash # CHR ''u'' # s) = utf8_encode (getu4 s) @ json_unquote (drop 4 s)"
  by (simp add: json_unquote.simps(2) Let_def)
text \<open>What the quoting of an ASCII byte looks like: the byte itself, a short escape, or four
  hexadecimal digits. It holds of each of them by computation.\<close>

definition quoted_form :: "char \<Rightarrow> bool" where
  "quoted_form c \<longleftrightarrow>
     (case quote_ascii c of
        [e] \<Rightarrow> e = c \<and> c \<noteq> backslash \<and> c \<noteq> quote_char \<and> 32 \<le> (of_char c :: nat)
      | [b, e] \<Rightarrow> b = backslash \<and> e \<noteq> CHR ''u'' \<and> unescape e = c \<and> e \<in> set ''bfnrt'' \<union> {backslash, CHR ''/'', quote_char}
      | b # u # h \<Rightarrow> b = backslash \<and> u = CHR ''u'' \<and> length h = 4 \<and> list_all json_hex h \<and> getu4 h = of_char c
      | [] \<Rightarrow> False)"

lemma all_ascii: "list_all P (map char_of [0..<128]) \<Longrightarrow> (of_char c :: nat) < 128 \<Longrightarrow> P c"
proof -
  assume *: "list_all P (map char_of [0..<128])" and "(of_char c :: nat) < 128"
  then have "(of_char c :: nat) \<in> set [0..<128]" by simp
  with * have "P (char_of (of_char c :: nat))" unfolding list_all_iff set_map by (metis imageI)
  then show "P c" by simp
qed

lemma quoted_form: "(of_char c :: nat) < 128 \<Longrightarrow> quoted_form c"
  by (rule all_ascii) code_simp

lemma getu4_append: "length h = 4 \<Longrightarrow> getu4 (h @ s) = getu4 h"
  by (simp add: getu4_def)

lemma char_of_eq: "(of_char c :: nat) = n \<Longrightarrow> char_of n = c"
  by (metis char_of_char)

lemma utf8_encode_ascii: "n < 128 \<Longrightarrow> utf8_encode n = [char_of n]"
  by (simp add: utf8_encode_def byte_def)

lemma unquote_quote_ascii:
  assumes "(of_char c :: nat) < 128"
  shows "json_unquote (quote_ascii c @ s) = c # json_unquote s"
proof -
  consider "quote_ascii c = [c]" "c \<noteq> backslash"
    | e where "quote_ascii c = [backslash, e]" "e \<noteq> CHR ''u''" "unescape e = c"
    | h where "quote_ascii c = backslash # CHR ''u'' # h" "length h = 4" "getu4 h = of_char c"
    using quoted_form [OF assms] by (auto simp: quoted_form_def split: list.splits)
  then show ?thesis
  proof cases
    case (3 h)
    with assms show ?thesis by (simp add: json_unquote_u getu4_append utf8_encode_ascii)
  qed (simp_all add: json_unquote_ascii json_unquote_escape assms)
qed

lemma unquote_separator:
  assumes "line_separator s" shows "json_unquote (escape_separator s @ r) = take 3 s @ json_unquote r"
proof -
  have *: "s ! 2 = take 3 s ! 2" if "take 3 s = [a, b, c]" for a b c
    using that by (metis nth_take lessI numeral_2_eq_2 numeral_3_eq_3)
  have "getu4 (''202'' @ h # r) = 0x2020 + hex_nat h" for h
    by (simp add: getu4_def hex_nat_def)
  then have "json_unquote (backslash # ''u202'' @ h # r) = utf8_encode (0x2020 + hex_nat h) @ json_unquote r"
    if "hex_nat h < 16" for h using that by (simp add: json_unquote_u)
  moreover have "utf8_encode 0x2028 = [CHR 0xE2, CHR 0x80, CHR 0xA8]" "utf8_encode 0x2029 = [CHR 0xE2, CHR 0x80, CHR 0xA9]"
    "low_hex 8 = CHR ''8''" "low_hex 9 = CHR ''9''" "hex_nat CHR ''8'' = 8" "hex_nat CHR ''9'' = 9"
    by (simp_all add: utf8_encode_def byte_def low_hex_def hex_nat_def char_of_eq)
  ultimately show ?thesis
    using assms unfolding line_separator_def escape_separator_def by (elim disjE) (simp_all add: *)
qed

lemma unquote_rune:
  assumes "0 < utf8_width (c # s)" and "\<not> (of_char c :: nat) < 128"
  shows "json_unquote (take (utf8_width (c # s)) (c # s) @ r) = take (utf8_width (c # s)) (c # s) @ json_unquote r"
proof -
  let ?w = "utf8_width (c # s)"
  obtain k where k: "?w = Suc k" using assms(1) by (cases "?w") auto
  have "c \<noteq> backslash" using assms(2) by (auto simp: backslash_def)
  moreover have "utf8_width (c # take k s @ r) = Suc k"
    using utf8_width_take [OF assms(1), of r] k by simp
  moreover have "length (take k s) = k" using utf8_width_le [of "c # s"] k by simp
  ultimately show ?thesis using assms(2) k by (simp add: json_unquote.simps(2) [of c "take k s @ r"])
qed

lemma separator_width: "line_separator s \<Longrightarrow> utf8_width s = 3"
proof -
  have "utf8_width (CHR 0xE2 # CHR 0x80 # c # r) = 3" if "c = CHR 0xA8 \<or> c = CHR 0xA9" for c r
    using that by (auto simp: second_byte_def continuation_def Let_def)
  moreover assume "line_separator s"
  then have "\<exists>c r. s = CHR 0xE2 # CHR 0x80 # c # r \<and> (c = CHR 0xA8 \<or> c = CHR 0xA9)"
    unfolding line_separator_def by (metis append_take_drop_id append_Cons append_Nil)
  ultimately show ?thesis by blast
qed

lemma json_unquote_quote: "valid_utf8 s \<Longrightarrow> json_unquote (json_quote s) = s"
proof (induction s rule: json_quote.induct)
  case (2 c s)
  let ?w = "utf8_width (c # s)"
  show ?case
  proof (cases "(of_char c :: nat) < 128")
    case True
    with "2.IH"(1) "2.prems" show ?thesis by (simp add: json_quote.simps(2) unquote_quote_ascii valid_utf8.simps(2))
  next
    case False
    with "2.prems" have w: "0 < ?w" and v: "valid_utf8 (drop (?w - 1) s)" by (simp_all add: valid_utf8.simps(2))
    have s: "take ?w (c # s) @ drop (?w - 1) s = c # s"
      using w by (cases ?w) simp_all
    show ?thesis
    proof (cases "line_separator (c # s)")
      case True
      with "2.IH"(3) [OF False refl _ True v] w s separator_width [OF True] False show ?thesis
        by (simp add: json_quote.simps(2) Let_def unquote_separator)
    next
      case sep: False
      with "2.IH"(4) [OF False refl _ sep v] w s False show ?thesis
        by (simp add: json_quote.simps(2) Let_def unquote_rune)
    qed
  qed
qed simp

subsection \<open>The grammar\<close>

datatype json =
    JNull
  | JBool bool
  | JNumber string
  | JString string
  | JArray "json list"
  | JObject "(string \<times> json) list"

fun commas :: "string list \<Rightarrow> string" where
  "commas [] = []"
| "commas [x] = x"
| "commas (x # xs) = x @ CHR '','' # commas xs"

fun json_print :: "json \<Rightarrow> string" where
  "json_print JNull = ''null''"
| "json_print (JBool b) = (if b then ''true'' else ''false'')"
| "json_print (JNumber t) = t"
| "json_print (JString t) = quote_char # t @ [quote_char]"
| "json_print (JArray vs) = CHR ''['' # commas (map json_print vs) @ '']''"
| "json_print (JObject ms) =
     CHR ''{'' # commas (map (\<lambda>(k, v). quote_char # k @ quote_char # CHR '':'' # json_print v) ms) @ ''}''"

definition simple_escape :: "char \<Rightarrow> bool" where
  "simple_escape e \<longleftrightarrow> e \<in> set ''bfnrt'' \<union> {backslash, CHR ''/'', quote_char}"

text \<open>The contents of a string literal and what follows its closing quote.\<close>

definition consumed_prefix :: "string \<Rightarrow> (string \<times> string) option \<Rightarrow> (string \<times> string) option" where
  "consumed_prefix p = map_option (\<lambda>(t, r). (p @ t, r))"

fun scan_string :: "string \<Rightarrow> (string \<times> string) option" where
  "scan_string [] = None"
| "scan_string (c # s) =
     (if c = quote_char then Some ([], s)
      else if c = backslash then
        (case s of
           [] \<Rightarrow> None
         | e # s' \<Rightarrow>
             if simple_escape e then consumed_prefix [c, e] (scan_string s')
             else if e = CHR ''u'' \<and> 4 \<le> length s' \<and> list_all json_hex (take 4 s')
             then consumed_prefix (c # e # take 4 s') (scan_string (drop 4 s'))
             else None)
      else if (of_char c :: nat) < 32 then None
      else consumed_prefix [c] (scan_string s))"

text \<open>The longest number at the start of a text.\<close>

definition scan_fraction :: "string \<Rightarrow> (string \<times> string) option" where
  "scan_fraction s =
     (if s \<noteq> [] \<and> hd s = CHR ''.''
      then let ds = takeWhile is_digit (tl s)
           in if ds = [] then None else Some (hd s # ds, dropWhile is_digit (tl s))
      else Some ([], s))"

definition scan_exponent :: "string \<Rightarrow> (string \<times> string) option" where
  "scan_exponent s =
     (if s \<noteq> [] \<and> (hd s = CHR ''e'' \<or> hd s = CHR ''E'')
      then let signed = tl s \<noteq> [] \<and> (hd (tl s) = CHR ''+'' \<or> hd (tl s) = CHR ''-'');
               sign = (if signed then [hd (tl s)] else []); s' = (if signed then tl (tl s) else tl s);
               ds = takeWhile is_digit s'
           in if ds = [] then None else Some (hd s # sign @ ds, dropWhile is_digit s')
      else Some ([], s))"

definition scan_number :: "string \<Rightarrow> (string \<times> string) option" where
  "scan_number s =
     (let neg = (s \<noteq> [] \<and> hd s = CHR ''-''); sign = (if neg then ''-'' else []); s = (if neg then tl s else s);
          zero = (s \<noteq> [] \<and> hd s = CHR ''0'');
          ds = (if zero then ''0'' else takeWhile is_digit s); s = (if zero then tl s else dropWhile is_digit s)
      in if ds = [] then None
         else Option.bind (scan_fraction s) (\<lambda>(f, s).
              Option.bind (scan_exponent s) (\<lambda>(e, s).
              Some (sign @ ds @ f @ e, s))))"

definition skip_ws :: "string \<Rightarrow> string" where
  "skip_ws = dropWhile json_space"

text \<open>
  Descent into a value: \<open>d\<close> is the nesting that is still allowed, \<open>n\<close> bounds the number of calls; twice
  the length of the text is enough. A member of an object comes with the text of its value.
\<close>

fun parse_value :: "nat \<Rightarrow> nat \<Rightarrow> string \<Rightarrow> (json \<times> string) option"
  and parse_elements :: "nat \<Rightarrow> nat \<Rightarrow> string \<Rightarrow> (json list \<times> string) option"
  and parse_members :: "nat \<Rightarrow> nat \<Rightarrow> string \<Rightarrow> ((string \<times> string \<times> json) list \<times> string) option"
where
  "parse_value 0 d s = None"
| "parse_value (Suc n) d s =
     (case skip_ws s of
        [] \<Rightarrow> None
      | c # r \<Rightarrow>
          if c = quote_char then map_option (\<lambda>(t, r). (JString t, r)) (scan_string r)
          else if c = CHR ''['' then
            (if d = 0 then None
             else if skip_ws r \<noteq> [] \<and> hd (skip_ws r) = CHR '']'' then Some (JArray [], tl (skip_ws r))
             else map_option (\<lambda>(vs, r). (JArray vs, r)) (parse_elements n (d - 1) r))
          else if c = CHR ''{'' then
            (if d = 0 then None
             else if skip_ws r \<noteq> [] \<and> hd (skip_ws r) = CHR ''}'' then Some (JObject [], tl (skip_ws r))
             else map_option (\<lambda>(ms, r). (JObject (map (\<lambda>(k, _, v). (k, v)) ms), r)) (parse_members n (d - 1) r))
          else if c = CHR ''n'' then (if take 3 r = ''ull'' then Some (JNull, drop 3 r) else None)
          else if c = CHR ''t'' then (if take 3 r = ''rue'' then Some (JBool True, drop 3 r) else None)
          else if c = CHR ''f'' then (if take 4 r = ''alse'' then Some (JBool False, drop 4 r) else None)
          else map_option (\<lambda>(t, r). (JNumber t, r)) (scan_number (c # r)))"
| "parse_elements 0 d s = None"
| "parse_elements (Suc n) d s =
     (case parse_value n d s of
        None \<Rightarrow> None
      | Some (v, r) \<Rightarrow>
          (case skip_ws r of
             [] \<Rightarrow> None
           | c # r \<Rightarrow>
               if c = CHR '']'' then Some ([v], r)
               else if c = CHR '','' then map_option (\<lambda>(vs, r). (v # vs, r)) (parse_elements n d r)
               else None))"
| "parse_members 0 d s = None"
| "parse_members (Suc n) d s =
     (if skip_ws s = [] \<or> hd (skip_ws s) \<noteq> quote_char then None
      else
        (case scan_string (tl (skip_ws s)) of
           None \<Rightarrow> None
         | Some (k, r) \<Rightarrow>
             if skip_ws r = [] \<or> hd (skip_ws r) \<noteq> CHR '':'' then None
             else
               (let s = skip_ws (tl (skip_ws r))
                in case parse_value n d s of
                     None \<Rightarrow> None
                   | Some (v, r) \<Rightarrow>
                       let m = (k, take (length s - length r) s, v)
                       in (case skip_ws r of
                             [] \<Rightarrow> None
                           | c # r \<Rightarrow>
                               if c = CHR ''}'' then Some ([m], r)
                               else if c = CHR '','' then map_option (\<lambda>(ms, r). (m # ms, r)) (parse_members n d r)
                               else None))))"

definition json_fuel :: "string \<Rightarrow> nat" where
  "json_fuel s = 2 * length s + 2"

definition json_parse :: "string \<Rightarrow> json option" where
  "json_parse s =
     (case parse_value (json_fuel s) maxNestingDepth s of
        None \<Rightarrow> None
      | Some (v, r) \<Rightarrow> if skip_ws r = [] then Some v else None)"

text \<open>The members of an object at the top of a text, with the texts of their values.\<close>

definition json_members :: "string \<Rightarrow> (string \<times> string \<times> json) list" where
  "json_members s =
     (case skip_ws s of
        [] \<Rightarrow> []
      | c # r \<Rightarrow>
          (case parse_members (json_fuel s) (maxNestingDepth - 1) r of None \<Rightarrow> [] | Some (ms, _) \<Rightarrow> ms))"

subsection \<open>Printed text is read back\<close>

definition string_ok :: "string \<Rightarrow> bool" where
  "string_ok t \<longleftrightarrow> scan_string (t @ [quote_char]) = Some (t, [])"

definition number_ok :: "string \<Rightarrow> bool" where
  "number_ok t \<longleftrightarrow> scan_number t = Some (t, []) \<and> skip_ws t = t"

fun json_ok :: "nat \<Rightarrow> json \<Rightarrow> bool" where
  "json_ok d (JNumber t) = number_ok t"
| "json_ok d (JString t) = string_ok t"
| "json_ok d (JArray vs) = (0 < d \<and> list_all (json_ok (d - 1)) vs)"
| "json_ok d (JObject ms) = (0 < d \<and> list_all (\<lambda>(k, v). string_ok k \<and> json_ok (d - 1) v) ms)"
| "json_ok d _ = True"

text \<open>What may follow a value.\<close>

definition delimited :: "string \<Rightarrow> bool" where
  "delimited r \<longleftrightarrow> r = [] \<or> hd r \<in> {CHR '','', CHR '']'', CHR ''}''}"

lemma consumed_prefix_Some [simp]:
  "consumed_prefix p x = Some (t, r) \<longleftrightarrow> (\<exists>t'. x = Some (t', r) \<and> t = p @ t')"
  by (cases x) (auto simp: consumed_prefix_def)

lemma scan_string_append: "scan_string s = Some (t, q) \<Longrightarrow> scan_string (s @ r) = Some (t, q @ r)"
proof (induction s arbitrary: t q rule: scan_string.induct)
  case (2 c s)
  consider "c = quote_char" | "c = backslash" "c \<noteq> quote_char" | "c \<noteq> quote_char" "c \<noteq> backslash" by blast
  then show ?case
  proof cases
    case 1
    with "2.prems" show ?thesis by simp
  next
    case 2
    with "2.prems" obtain e s' where s: "s = e # s'" by (cases s) simp_all
    with 2 "2.prems" "2.IH"(1,2) show ?thesis by (cases "simple_escape e") (auto split: if_splits)
  next
    case 3
    with "2.prems" "2.IH"(3) show ?thesis by (auto split: if_splits)
  qed
qed simp

lemma scan_string_ok: "string_ok t \<Longrightarrow> scan_string (t @ quote_char # r) = Some (t, r)"
  using scan_string_append [of "t @ [quote_char]" t "[]" r] by (simp add: string_ok_def)

lemma scan_Cons_ok:
  "c \<noteq> quote_char \<Longrightarrow> c \<noteq> backslash \<Longrightarrow> 32 \<le> (of_char c :: nat) \<Longrightarrow> string_ok s \<Longrightarrow> string_ok (c # s)"
  by (simp add: string_ok_def)

lemma takeWhile_delimited:
  assumes "delimited r"
  shows "takeWhile is_digit (s @ r) = takeWhile is_digit s" and "dropWhile is_digit (s @ r) = dropWhile is_digit s @ r"
proof -
  have "r = [] \<or> \<not> is_digit (hd r)" using assms by (auto simp: delimited_def is_digit_def)
  then show "takeWhile is_digit (s @ r) = takeWhile is_digit s" "dropWhile is_digit (s @ r) = dropWhile is_digit s @ r"
    by (induction s) (cases r; auto)+
qed

lemma scan_fraction_append:
  assumes r: "delimited r" and s: "scan_fraction s = Some (f, s')"
  shows "scan_fraction (s @ r) = Some (f, s' @ r)"
proof (cases s)
  case Nil
  with assms show ?thesis by (auto simp: scan_fraction_def delimited_def)
next
  case (Cons c t)
  then show ?thesis
    using s by (auto simp: scan_fraction_def Let_def takeWhile_delimited [OF r] split: if_splits)
qed

lemma scan_exponent_append:
  assumes r: "delimited r" and s: "scan_exponent s = Some (e, s')"
  shows "scan_exponent (s @ r) = Some (e, s' @ r)"
proof (cases s)
  case Nil
  with assms show ?thesis by (auto simp: scan_exponent_def delimited_def)
next
  case (Cons c t)
  then show ?thesis
    using s by (cases t) (auto simp: scan_exponent_def Let_def takeWhile_delimited [OF r] split: if_splits)
qed

lemma scan_number_append:
  assumes r: "delimited r" and s: "scan_number s = Some (t, q)"
  shows "scan_number (s @ r) = Some (t, q @ r)"
proof -
  define neg where "neg \<longleftrightarrow> s \<noteq> [] \<and> hd s = CHR ''-''"
  define s1 where "s1 = (if neg then tl s else s)"
  define zero where "zero \<longleftrightarrow> s1 \<noteq> [] \<and> hd s1 = CHR ''0''"
  define ds where "ds = (if zero then ''0'' else takeWhile is_digit s1)"
  define s2 where "s2 = (if zero then tl s1 else dropWhile is_digit s1)"
  have "ds \<noteq> []" and
    bind: "Option.bind (scan_fraction s2) (\<lambda>(f, s). Option.bind (scan_exponent s) (\<lambda>(e, s).
        Some ((if neg then ''-'' else []) @ ds @ f @ e, s))) = Some (t, q)"
    using s unfolding scan_number_def Let_def neg_def [symmetric] s1_def [symmetric]
    unfolding zero_def [symmetric] unfolding ds_def [symmetric] s2_def [symmetric] by (auto split: if_splits)
  then have s1: "s1 \<noteq> []" by (auto simp: ds_def zero_def split: if_splits)
  then have s: "s \<noteq> []" by (auto simp: s1_def split: if_splits)
  obtain f s3 e where f: "scan_fraction s2 = Some (f, s3)" and e: "scan_exponent s3 = Some (e, q)"
    and t: "t = (if neg then ''-'' else []) @ ds @ f @ e"
    using bind by (auto simp: bind_eq_Some_conv)
  have "(s @ r \<noteq> [] \<and> hd (s @ r) = CHR ''-'') = neg" using s by (simp add: neg_def)
  moreover have "(if neg then tl (s @ r) else s @ r) = s1 @ r" using s by (simp add: s1_def)
  moreover have "(s1 @ r \<noteq> [] \<and> hd (s1 @ r) = CHR ''0'') = zero" using s1 by (simp add: zero_def)
  moreover have "(if zero then ''0'' else takeWhile is_digit (s1 @ r)) = ds"
    by (simp add: ds_def takeWhile_delimited [OF r])
  moreover have "(if zero then tl (s1 @ r) else dropWhile is_digit (s1 @ r)) = s2 @ r"
    using s1 by (simp add: s2_def takeWhile_delimited [OF r])
  ultimately show ?thesis
    unfolding scan_number_def Let_def
    by (simp only: scan_fraction_append [OF r f] scan_exponent_append [OF r e] \<open>ds \<noteq> []\<close> if_False
        Option.bind.bind_lunit prod.case t)
qed

lemma number_start: "number_ok t \<Longrightarrow> t \<noteq> [] \<and> (hd t = CHR ''-'' \<or> is_digit (hd t))"
  by (cases t) (auto simp: number_ok_def scan_number_def Let_def split: if_splits)

definition parses :: "json \<Rightarrow> bool" where
  "parses v \<longleftrightarrow> (\<forall>n d r. json_ok d v \<longrightarrow> delimited r \<longrightarrow> 2 * length (json_print v) \<le> n \<longrightarrow>
     parse_value n d (json_print v @ r) = Some (v, r))"

lemma parsesD:
  "parses v \<Longrightarrow> json_ok d v \<Longrightarrow> delimited r \<Longrightarrow> 2 * length (json_print v) \<le> n \<Longrightarrow>
   parse_value n d (json_print v @ r) = Some (v, r)"
  by (simp add: parses_def)

lemma delimited_simps [simp]:
  "delimited []" "delimited (CHR '','' # r)" "delimited (CHR '']'' # r)" "delimited (CHR ''}'' # r)"
  by (simp_all add: delimited_def)

lemma skip_ws_Nil [simp]: "skip_ws [] = []"
  by (simp add: skip_ws_def)

lemma skip_ws_Cons: "skip_ws (c # s) = (if json_space c then skip_ws s else c # s)"
  by (simp add: skip_ws_def)

lemma json_space_simps [simp]:
  "\<not> json_space CHR '',''" "\<not> json_space CHR '']''" "\<not> json_space CHR ''}''" "\<not> json_space CHR ''[''"
  "\<not> json_space CHR ''{''" "\<not> json_space CHR '':''" "\<not> json_space CHR ''n''" "\<not> json_space CHR ''t''"
  "\<not> json_space CHR ''f''" "\<not> json_space CHR ''-''" "\<not> json_space quote_char" "\<not> json_space backslash"
  by (simp_all add: json_space_def quote_char_def backslash_def)

lemma digit_start:
  assumes "is_digit c \<or> c = CHR ''-''"
  shows "\<not> json_space c" "c \<notin> {quote_char, CHR ''['', CHR ''{'', CHR ''n'', CHR ''t'', CHR ''f'', CHR '']'', CHR ''}''}"
  using assms by (auto simp: json_space_def is_digit_def quote_char_def)

lemma quote_char_simps [simp]:
  "quote_char \<noteq> CHR ''[''" "quote_char \<noteq> CHR ''{''" "quote_char \<noteq> CHR ''n''" "quote_char \<noteq> CHR ''t''"
  "quote_char \<noteq> CHR ''f''" "CHR ''['' \<noteq> quote_char" "CHR ''{'' \<noteq> quote_char" "CHR ''n'' \<noteq> quote_char"
  "CHR ''t'' \<noteq> quote_char" "CHR ''f'' \<noteq> quote_char" "quote_char \<noteq> CHR ''}''" "quote_char \<noteq> CHR '']''"
  by (simp_all add: quote_char_def)

lemma json_print_start:
  assumes "json_ok d v"
  obtains c s where "json_print v = c # s" "\<not> json_space c" "c \<noteq> CHR '']''" "c \<noteq> CHR ''}''"
proof (cases v)
  case (JNumber t)
  with assms have "t \<noteq> []" "is_digit (hd t) \<or> hd t = CHR ''-''" using number_start [of t] by auto
  with digit_start [OF this(2)] that [of "hd t" "tl t"] JNumber show thesis by simp
next
  case (JBool b)
  with that show thesis by (cases b) auto
qed (use that in auto)

lemma skip_ws_print: "json_ok d v \<Longrightarrow> skip_ws (json_print v @ r) = json_print v @ r"
  by (erule json_print_start) (simp add: skip_ws_Cons)

lemma json_print_ne: "json_ok d v \<Longrightarrow> 0 < length (json_print v)"
  by (erule json_print_start) simp

lemma commas_Cons: "xs \<noteq> [] \<Longrightarrow> commas (x # xs) = x @ CHR '','' # commas xs"
  by (cases xs) auto

lemma parse_elements_print:
  assumes "\<forall>v \<in> set vs. parses v" "list_all (json_ok d) vs" "vs \<noteq> []"
    and "2 * length (commas (map json_print vs)) + 1 \<le> n"
  shows "parse_elements n d (commas (map json_print vs) @ CHR '']'' # r) = Some (vs, r)"
  using assms
proof (induction vs arbitrary: n)
  case (Cons v vs)
  then obtain m where n: "n = Suc m" by (cases n) auto
  have v: "parses v" "json_ok d v" using Cons.prems by simp_all
  show ?case
  proof (cases "vs = []")
    case True
    with v Cons.prems(4) n show ?thesis
      by (simp add: parsesD skip_ws_Cons)
  next
    case False
    have "parse_elements m d (commas (map json_print vs) @ CHR '']'' # r) = Some (vs, r)"
      using Cons.prems False n by (intro Cons.IH) (auto simp: commas_Cons)
    with v False Cons.prems(4) n show ?thesis
      by (simp add: commas_Cons parsesD skip_ws_Cons)
  qed
qed simp

definition print_member :: "string \<times> json \<Rightarrow> string" where
  "print_member = (\<lambda>(k, v). quote_char # k @ quote_char # CHR '':'' # json_print v)"

lemma print_member_simp [simp]:
  "print_member (k, v) = quote_char # k @ quote_char # CHR '':'' # json_print v"
  by (simp add: print_member_def)

definition with_text :: "(string \<times> json) list \<Rightarrow> (string \<times> string \<times> json) list" where
  "with_text ms = map (\<lambda>(k, v). (k, json_print v, v)) ms"

lemma parse_members_print:
  assumes "\<forall>m \<in> set ms. parses (snd m)" "list_all (\<lambda>(k, v). string_ok k \<and> json_ok d v) ms" "ms \<noteq> []"
    and "2 * length (commas (map print_member ms)) + 1 \<le> n"
  shows "parse_members n d (commas (map print_member ms) @ CHR ''}'' # r) = Some (with_text ms, r)"
  using assms
proof (induction ms arbitrary: n)
  case (Cons kv ms)
  then obtain m where n: "n = Suc m" by (cases n) auto
  obtain k v where kv: "kv = (k, v)" by (cases kv)
  have v: "parses v" "json_ok d v" and k: "\<And>r. scan_string (k @ quote_char # r) = Some (k, r)"
    using Cons.prems kv by (simp_all add: scan_string_ok)
  show ?case
  proof (cases "ms = []")
    case True
    with v Cons.prems(4) n kv show ?thesis
      by (simp add: parsesD skip_ws_Cons skip_ws_print k with_text_def Let_def)
  next
    case False
    have "parse_members m d (commas (map print_member ms) @ CHR ''}'' # r) = Some (with_text ms, r)"
      using Cons.prems False n kv by (intro Cons.IH) (auto simp: commas_Cons)
    with v False Cons.prems(4) n kv show ?thesis
      by (simp add: commas_Cons parsesD skip_ws_Cons skip_ws_print k with_text_def Let_def)
  qed
qed simp

lemma parsesI:
  assumes "\<And>n d r. json_ok d v \<Longrightarrow> delimited r \<Longrightarrow> 2 * length (json_print v) \<le> Suc n \<Longrightarrow>
    parse_value (Suc n) d (json_print v @ r) = Some (v, r)"
  shows "parses v"
  unfolding parses_def
proof (intro allI impI)
  fix n d r assume *: "json_ok d v" "delimited r" "2 * length (json_print v) \<le> n"
  then obtain m where "n = Suc m" using json_print_ne [OF *(1)] by (cases n) auto
  with assms [OF *(1,2), of m] *(3) show "parse_value n d (json_print v @ r) = Some (v, r)" by simp
qed

lemma print_members: "(\<lambda>(k, v). quote_char # k @ quote_char # CHR '':'' # json_print v) = print_member"
  by (simp add: print_member_def)

lemma parses_all: "parses v"
proof (induction v)
  case (JNumber t)
  show ?case
  proof (rule parsesI)
    fix n d r assume ok: "json_ok d (JNumber t)" and r: "delimited r"
    then have t: "t \<noteq> []" "is_digit (hd t) \<or> hd t = CHR ''-''" and "scan_number t = Some (t, [])"
      using number_start [of t] by (auto simp: number_ok_def)
    with scan_number_append [OF r] have "scan_number (t @ r) = Some (t, r)" by fastforce
    with t(1) digit_start [OF t(2)] show "parse_value (Suc n) d (json_print (JNumber t) @ r) = Some (JNumber t, r)"
      by (cases t) (simp_all add: skip_ws_Cons)
  qed
next
  case (JArray vs)
  show ?case
  proof (rule parsesI)
    fix n d r assume ok: "json_ok d (JArray vs)" and n: "2 * length (json_print (JArray vs)) \<le> Suc n"
    show "parse_value (Suc n) d (json_print (JArray vs) @ r) = Some (JArray vs, r)"
    proof (cases "vs = []")
      case True
      with ok show ?thesis by (simp add: skip_ws_Cons)
    next
      case False
      then obtain v vs' where vs: "vs = v # vs'" by (cases vs) auto
      have p: "parse_elements n (d - 1) (commas (map json_print vs) @ CHR '']'' # r) = Some (vs, r)"
        by (rule parse_elements_print) (use JArray ok n False in auto)
      obtain c s where c: "json_print v = c # s" "\<not> json_space c" "c \<noteq> CHR '']''" 
        using ok vs by (auto elim: json_print_start)
      obtain s' where "commas (map json_print vs) = c # s'"
        using vs c(1) by (cases vs') auto
      with p ok c show ?thesis by (simp add: skip_ws_Cons)
    qed
  qed
next
  case (JObject ms)
  show ?case
  proof (rule parsesI)
    fix n d r assume ok: "json_ok d (JObject ms)" and n: "2 * length (json_print (JObject ms)) \<le> Suc n"
    show "parse_value (Suc n) d (json_print (JObject ms) @ r) = Some (JObject ms, r)"
    proof (cases "ms = []")
      case True
      with ok show ?thesis by (simp add: skip_ws_Cons)
    next
      case False
      have p: "parse_members n (d - 1) (commas (map print_member ms) @ CHR ''}'' # r) = Some (with_text ms, r)"
        by (rule parse_members_print) (use JObject ok n False in \<open>auto simp: print_members\<close>)
      obtain k v ms' where "ms = (k, v) # ms'" using False by (cases ms) auto
      then obtain s' where "commas (map print_member ms) = quote_char # s'" by (cases ms') auto
      moreover have "map (\<lambda>(k, _, v). (k, v)) (with_text ms) = ms" by (induction ms) (auto simp: with_text_def)
      ultimately show ?thesis using p ok by (simp add: skip_ws_Cons print_members)
    qed
  qed
next
  case (JBool b)
  show ?case by (rule parsesI) (cases b; simp add: skip_ws_Cons)
qed (rule parsesI; simp add: skip_ws_Cons scan_string_ok)+

lemma json_parse_print:
  assumes "json_ok maxNestingDepth v"
  shows "json_parse (json_print v) = Some v"
proof -
  have "parse_value (json_fuel (json_print v)) maxNestingDepth (json_print v @ []) = Some (v, [])"
    by (rule parsesD [OF parses_all assms]) (simp_all add: json_fuel_def)
  then show ?thesis by (simp add: json_parse_def)
qed

lemma json_members_print:
  assumes "json_ok maxNestingDepth (JObject ms)"
  shows "json_members (json_print (JObject ms)) = with_text ms"
proof (cases "ms = []")
  case True
  then show ?thesis
    by (simp add: json_members_def skip_ws_Cons with_text_def json_fuel_def eval_nat_numeral)
next
  case False
  have "parse_members (json_fuel (json_print (JObject ms))) (maxNestingDepth - 1)
      (commas (map print_member ms) @ CHR ''}'' # []) = Some (with_text ms, [])"
    by (rule parse_members_print) (use assms False in \<open>auto simp: parses_all json_fuel_def print_members\<close>)
  then show ?thesis by (simp add: json_members_def skip_ws_Cons print_members)
qed

subsection \<open>Quoted strings and raw messages\<close>

lemma string_ok_Nil [simp]: "string_ok []"
  by (simp add: string_ok_def)

lemma string_ok_escape: "simple_escape e \<Longrightarrow> string_ok s \<Longrightarrow> string_ok (backslash # e # s)"
  by (simp add: string_ok_def) (simp add: backslash_def quote_char_def)

lemma string_ok_u:
  "length h = 4 \<Longrightarrow> list_all json_hex h \<Longrightarrow> string_ok s \<Longrightarrow> string_ok (backslash # CHR ''u'' # h @ s)"
  by (simp add: string_ok_def) (simp add: backslash_def quote_char_def simple_escape_def)

lemma string_ok_bytes:
  "\<forall>c \<in> set b. 128 \<le> (of_char c :: nat) \<Longrightarrow> string_ok s \<Longrightarrow> string_ok (b @ s)"
proof (induction b)
  case (Cons c b)
  then have "c \<noteq> quote_char" "c \<noteq> backslash" "32 \<le> (of_char c :: nat)"
    by (auto simp: quote_char_def backslash_def)
  with Cons show ?case by (simp add: scan_Cons_ok)
qed simp

lemma string_ok_quote_ascii:
  assumes "(of_char c :: nat) < 128" and s: "string_ok s"
  shows "string_ok (quote_ascii c @ s)"
proof -
  consider "quote_ascii c = [c]" "c \<noteq> backslash" "c \<noteq> quote_char" "32 \<le> (of_char c :: nat)"
    | e where "quote_ascii c = [backslash, e]" "simple_escape e"
    | h where "quote_ascii c = backslash # CHR ''u'' # h" "length h = 4" "list_all json_hex h"
    using quoted_form [OF assms(1)] by (auto simp: quoted_form_def simple_escape_def split: list.splits)
  then show ?thesis by cases (simp_all add: scan_Cons_ok string_ok_escape string_ok_u s)
qed

lemma separator_hex: "line_separator s \<Longrightarrow> low_hex ((of_char (s ! 2) :: nat) mod 16) \<in> {CHR ''8'', CHR ''9''}"
proof -
  have *: "s ! 2 = take 3 s ! 2" if "take 3 s = [a, b, c]" for a b c
    using that by (metis nth_take lessI numeral_2_eq_2 numeral_3_eq_3)
  assume "line_separator s"
  then show ?thesis unfolding line_separator_def by (elim disjE) (simp_all add: * low_hex_def)
qed

lemma string_ok_separator: "line_separator s \<Longrightarrow> string_ok r \<Longrightarrow> string_ok (escape_separator s @ r)"
  unfolding escape_separator_def
  by (drule separator_hex) (auto intro!: string_ok_u [of "''202'' @ [h]" for h, simplified] simp: json_hex_def is_digit_def)

lemma utf8_width_cases:
  assumes "0 < utf8_width s"
  obtains a b r where "s = a # b # r" "utf8_width s = 2" "second_byte a b"
    | a b c r where "s = a # b # c # r" "utf8_width s = 3" "second_byte a b" "continuation c"
    | a b c d r where "s = a # b # c # d # r" "utf8_width s = 4" "second_byte a b" "continuation c" "continuation d"
proof -
  obtain a b t where s: "s = a # b # t"
    using assms by (cases s rule: utf8_width.cases) auto
  show thesis
  proof (cases t)
    case Nil
    with assms s that(1) [of a b t] show thesis by (simp add: Let_def split: if_splits)
  next
    case (Cons c u)
    with assms s that(1) [of a b t] that(2) [of a b c u] that(3) [of a b c "hd u" "tl u"] show thesis
      by (cases u) (simp_all add: Let_def split: if_splits)
  qed
qed

lemma second_byte_high: "second_byte a b \<Longrightarrow> 128 \<le> (of_char b :: nat)"
  by (auto simp: second_byte_def Let_def split: if_splits)

lemma continuation_high: "continuation c \<Longrightarrow> 128 \<le> (of_char c :: nat)"
  by (simp add: continuation_def)

lemma utf8_width_bytes:
  assumes "128 \<le> (of_char (hd s) :: nat)"
  shows "\<forall>c \<in> set (take (utf8_width s) s). 128 \<le> (of_char c :: nat)"
proof (cases "0 < utf8_width s")
  case True
  then show ?thesis
    by (cases rule: utf8_width_cases) (use assms in \<open>simp_all add: second_byte_high continuation_high\<close>)
qed simp

lemma string_ok_quote [simp]: "string_ok (json_quote s)"
proof (induction s rule: json_quote.induct)
  case (2 c s)
  let ?w = "utf8_width (c # s)"
  show ?case
  proof (cases "(of_char c :: nat) < 128")
    case True
    with "2.IH"(1) show ?thesis by (simp add: json_quote.simps(2) string_ok_quote_ascii)
  next
    case False
    have "\<forall>c \<in> set (take ?w (c # s)). 128 \<le> (of_char c :: nat)"
      using utf8_width_bytes [of "c # s"] False by simp
    moreover have "string_ok (backslash # CHR ''u'' # ''fffd'' @ json_quote s)" if "?w = 0"
      using "2.IH"(2) [OF False refl that] by (intro string_ok_u) (simp_all add: json_hex_def)
    ultimately show ?thesis
      using "2.IH"(3,4) [OF False refl] False
      by (simp add: json_quote.simps(2) Let_def string_ok_separator string_ok_bytes)
  qed
qed simp

text \<open>A raw message is checked, freed of white space and escaped for HTML when it is written.\<close>

function html_chars :: "string \<Rightarrow> string" where
  "html_chars [] = []"
| "html_chars (c # s) =
     (if c \<in> set ''<>&'' then quote_ascii c @ html_chars s
      else if line_separator (c # s) then escape_separator (c # s) @ html_chars (drop 2 s)
      else c # html_chars s)"
  by pat_completeness auto
termination by (relation "measure length") auto

fun json_html :: "json \<Rightarrow> json" where
  "json_html (JString t) = JString (html_chars t)"
| "json_html (JArray vs) = JArray (map json_html vs)"
| "json_html (JObject ms) = JObject (map (\<lambda>(k, v). (html_chars k, json_html v)) ms)"
| "json_html v = v"

text \<open>A raw message in the form in which it is written: printed text that needs no escape.\<close>

definition raw_ok :: "nat \<Rightarrow> string \<Rightarrow> bool" where
  "raw_ok d raw \<longleftrightarrow>
     (case json_parse raw of None \<Rightarrow> False | Some v \<Rightarrow> json_ok d v \<and> json_html v = v \<and> json_print v = raw)"

lemma raw_okE:
  assumes "raw_ok d raw"
  obtains v where "json_parse raw = Some v" "json_ok d v" "json_html v = v" "raw = json_print v"
  using assms by (auto simp: raw_ok_def split: option.splits)

subsection \<open>Fuel, depth, and what the parser gives\<close>

text \<open>A result, once found, is the same with more fuel and more depth.\<close>

definition le_opt :: "'a option \<Rightarrow> 'a option \<Rightarrow> bool" where
  "le_opt x y \<longleftrightarrow> x = None \<or> x = y"

lemma le_opt_intros:
  "le_opt x x"
  "le_opt None x"
  "(b \<Longrightarrow> le_opt x y) \<Longrightarrow> (\<not> b \<Longrightarrow> le_opt x' y') \<Longrightarrow> le_opt (if b then x else x') (if b then y else y')"
  "d \<le> e \<Longrightarrow> (d \<noteq> 0 \<Longrightarrow> le_opt x y) \<Longrightarrow> le_opt (if d = (0 :: nat) then None else x) (if e = 0 then None else y)"
  "(\<And>c r. le_opt (f c r) (g c r)) \<Longrightarrow> le_opt (case xs of [] \<Rightarrow> None | c # r \<Rightarrow> f c r) (case xs of [] \<Rightarrow> None | c # r \<Rightarrow> g c r)"
  "le_opt p q \<Longrightarrow> (\<And>v r. le_opt (f' v r) (g' v r)) \<Longrightarrow>
     le_opt (case p of None \<Rightarrow> None | Some (v, r) \<Rightarrow> f' v r) (case q of None \<Rightarrow> None | Some (v, r) \<Rightarrow> g' v r)"
  "le_opt x y \<Longrightarrow> le_opt (map_option h x) (map_option h y)"
  by (auto simp: le_opt_def split: list.split option.split)

lemma le_optD: "le_opt x y \<Longrightarrow> x = Some z \<Longrightarrow> y = Some z"
  by (auto simp: le_opt_def)

lemma parse_mono:
  "n \<le> m \<Longrightarrow> d \<le> e \<Longrightarrow> le_opt (parse_value n d s) (parse_value m e s)"
  "n \<le> m \<Longrightarrow> d \<le> e \<Longrightarrow> le_opt (parse_elements n d s) (parse_elements m e s)"
  "n \<le> m \<Longrightarrow> d \<le> e \<Longrightarrow> le_opt (parse_members n d s) (parse_members m e s)"
proof (induction n arbitrary: m d e s)
  case (Suc n)
  {
    case 1
    then obtain k where k: "m = Suc k" "n \<le> k" by (cases m) auto
    with 1(2) show ?case unfolding k(1) parse_value.simps(2)
      by (intro le_opt_intros Suc.IH diff_le_mono) auto
  next
    case 2
    then obtain k where k: "m = Suc k" "n \<le> k" by (cases m) auto
    with 2(2) show ?case unfolding k(1) parse_elements.simps(2)
      by (intro le_opt_intros Suc.IH) auto
  next
    case 3
    then obtain k where k: "m = Suc k" "n \<le> k" by (cases m) auto
    with 3(2) show ?case unfolding k(1) parse_members.simps(2) Let_def
      by (intro le_opt_intros Suc.IH) auto
  }
qed (simp_all add: le_opt_intros)

lemma string_ok_scan: "scan_string s = Some (t, r) \<Longrightarrow> string_ok t"
proof (induction s arbitrary: t rule: scan_string.induct)
  case (2 c s)
  consider "c = quote_char" | "c = backslash" "c \<noteq> quote_char" | "c \<noteq> quote_char" "c \<noteq> backslash" by blast
  then show ?case
  proof cases
    case 2
    with "2.prems" obtain e s' where s: "s = e # s'" by (cases s) simp_all
    show ?thesis
    proof (cases "simple_escape e")
      case True
      with 2 s "2.prems" obtain t' where "scan_string s' = Some (t', r)" "t = backslash # e # t'" by auto
      with True 2 s "2.IH"(1) string_ok_escape show ?thesis by auto
    next
      case False
      with 2 s "2.prems" obtain t' where t': "scan_string (drop 4 s') = Some (t', r)" "t = backslash # CHR ''u'' # take 4 s' @ t'"
        and u: "e = CHR ''u'' \<and> 4 \<le> length s' \<and> list_all json_hex (take 4 s')"
        by (auto split: if_splits)
      have "string_ok t'" by (rule "2.IH"(2)) (use 2 s u t'(1) False in auto)
      with t' u show ?thesis by (auto intro!: string_ok_u)
    qed
  next
    case 3
    with "2.prems" obtain t' where "scan_string s = Some (t', r)" "t = c # t'" "\<not> (of_char c :: nat) < 32"
      by (auto split: if_splits)
    with 3 "2.IH"(3) show ?thesis by (simp add: scan_Cons_ok)
  qed (use "2.prems" in simp)
qed simp

lemma takeWhile_out: "s = [] \<or> \<not> P (hd s) \<Longrightarrow> takeWhile P (takeWhile P xs @ s) = takeWhile P xs \<and> dropWhile P (takeWhile P xs @ s) = s"
  by (cases s) (auto simp: takeWhile_append dropWhile_append dest: set_takeWhileD)

lemma while_all: "\<forall>x \<in> set xs. P x \<Longrightarrow> takeWhile P xs = xs" "\<forall>x \<in> set xs. P x \<Longrightarrow> dropWhile P xs = []"
  by (induction xs) auto

lemma hd_takeWhile:
  "takeWhile P xs \<noteq> [] \<Longrightarrow> P (hd (takeWhile P xs))" "takeWhile P xs \<noteq> [] \<Longrightarrow> hd (takeWhile P xs) = hd xs"
  by (cases xs; simp split: if_splits)+

lemma scan_exponent_out:
  assumes "scan_exponent s = Some (e, r)"
  shows "scan_exponent e = Some (e, []) \<and> (e = [] \<or> \<not> is_digit (hd e) \<and> hd e \<noteq> CHR ''.'')"
proof (cases "s \<noteq> [] \<and> (hd s = CHR ''e'' \<or> hd s = CHR ''E'')")
  case False
  with assms show ?thesis by (auto simp: scan_exponent_def split: if_splits)
next
  case True
  then obtain x t where s: "s = x # t" "x = CHR ''e'' \<or> x = CHR ''E''" by (cases s) auto
  define signed where "signed \<longleftrightarrow> t \<noteq> [] \<and> (hd t = CHR ''+'' \<or> hd t = CHR ''-'')"
  define sign where "sign = (if signed then [hd t] else [])"
  define ds where "ds = takeWhile is_digit (if signed then tl t else t)"
  have e: "ds \<noteq> []" "e = x # sign @ ds"
    using assms s by (auto simp: scan_exponent_def Let_def signed_def sign_def ds_def split: if_splits)
  have ds: "\<forall>x \<in> set ds. is_digit x" by (auto simp: ds_def dest: set_takeWhileD)
  have "is_digit (hd ds)" using e(1) unfolding ds_def by (rule hd_takeWhile)
  then have "hd ds \<noteq> CHR ''+''" "hd ds \<noteq> CHR ''-''" by auto
  then have u: "(sign @ ds \<noteq> [] \<and> (hd (sign @ ds) = CHR ''+'' \<or> hd (sign @ ds) = CHR ''-'')) = signed"
    "(if signed then [hd (sign @ ds)] else []) = sign" "(if signed then tl (sign @ ds) else sign @ ds) = ds"
    using e(1) by (auto simp: sign_def signed_def)
  have "scan_exponent e = Some (e, [])"
    using s(2) e(1) unfolding scan_exponent_def Let_def e(2) list.sel u
    by (simp add: while_all [OF ds])
  then show ?thesis using e s(2) by auto
qed

lemma scan_fraction_out:
  assumes "scan_fraction s = Some (f, s')" and "e = [] \<or> \<not> is_digit (hd e) \<and> hd e \<noteq> CHR ''.''"
  shows "scan_fraction (f @ e) = Some (f, e) \<and> (f = [] \<or> hd f = CHR ''.'')"
proof (cases "f = []")
  case True
  with assms show ?thesis by (auto simp: scan_fraction_def Let_def split: if_splits)
next
  case False
  with assms(1) have f: "f = CHR ''.'' # takeWhile is_digit (tl s)" "takeWhile is_digit (tl s) \<noteq> []"
    by (auto simp: scan_fraction_def Let_def split: if_splits)
  with takeWhile_out [of e is_digit "tl s"] assms(2) show ?thesis by (auto simp: scan_fraction_def Let_def)
qed

lemma scan_number_ok:
  assumes "scan_number s = Some (t, r)"
  shows "number_ok t"
proof -
  define neg where "neg \<longleftrightarrow> s \<noteq> [] \<and> hd s = CHR ''-''"
  define sign where "sign = (if neg then ''-'' else [])"
  define s1 where "s1 = (if neg then tl s else s)"
  define zero where "zero \<longleftrightarrow> s1 \<noteq> [] \<and> hd s1 = CHR ''0''"
  define ds where "ds = (if zero then ''0'' else takeWhile is_digit s1)"
  define s2 where "s2 = (if zero then tl s1 else dropWhile is_digit s1)"
  have ne: "ds \<noteq> []" and
    bind: "Option.bind (scan_fraction s2) (\<lambda>(f, s). Option.bind (scan_exponent s) (\<lambda>(e, s).
        Some (sign @ ds @ f @ e, s))) = Some (t, r)"
    using assms unfolding scan_number_def Let_def neg_def [symmetric] sign_def [symmetric] s1_def [symmetric]
    unfolding zero_def [symmetric] unfolding ds_def [symmetric] s2_def [symmetric] by (auto split: if_splits)
  obtain f s3 e where f: "scan_fraction s2 = Some (f, s3)" and e: "scan_exponent s3 = Some (e, r)"
    and t: "t = sign @ ds @ f @ e"
    using bind by (auto simp: bind_eq_Some_conv)
  note e' = scan_exponent_out [OF e]
  note f' = scan_fraction_out [OF f conjunct2 [OF e']]
  have fe: "f @ e = [] \<or> \<not> is_digit (hd (f @ e))" using e' f' by (cases f) auto
  have digit: "is_digit (hd ds)" using ne hd_takeWhile(1) [of is_digit s1] by (auto simp: ds_def)
  then have head: "hd ds \<noteq> CHR ''-''" "(hd ds = CHR ''0'') = zero"
    using ne hd_takeWhile(2) [of is_digit s1] by (auto simp: ds_def zero_def split: if_splits)
  have split: "(if zero then ''0'' else takeWhile is_digit (ds @ f @ e)) = ds"
    "(if zero then tl (ds @ f @ e) else dropWhile is_digit (ds @ f @ e)) = f @ e"
    using takeWhile_out [of "f @ e" is_digit s1, OF fe] by (auto simp: ds_def)
  have u: "(t \<noteq> [] \<and> hd t = CHR ''-'') = neg" "(if neg then ''-'' else []) = sign" "(if neg then tl t else t) = ds @ f @ e"
    "(ds @ f @ e \<noteq> [] \<and> hd (ds @ f @ e) = CHR ''0'') = zero"
    using ne head by (auto simp: t sign_def)
  have "scan_number t = Some (sign @ ds @ f @ e, [])"
    unfolding scan_number_def Let_def u split
    using ne e' f' by simp
  moreover have "skip_ws t = t"
    using digit ne digit_start(1) [of "hd t"] unfolding skip_ws_def t sign_def by (cases ds) auto
  ultimately show ?thesis by (simp add: number_ok_def t)
qed

definition gives :: "('a \<Rightarrow> bool) \<Rightarrow> ('a \<times> string) option \<Rightarrow> bool" where
  "gives P x \<longleftrightarrow> (\<forall>y r. x = Some (y, r) \<longrightarrow> P y)"

lemma gives_intros:
  "gives P None"
  "P y \<Longrightarrow> gives P (Some (y, r))"
  "(b \<Longrightarrow> gives P x) \<Longrightarrow> (\<not> b \<Longrightarrow> gives P x') \<Longrightarrow> gives P (if b then x else x')"
  "(\<And>c r. gives P (f c r)) \<Longrightarrow> gives P (case xs of [] \<Rightarrow> None | c # r \<Rightarrow> f c r)"
  by (auto simp: gives_def split: list.split)

lemma gives_case:
  assumes "gives Q p" and "\<And>v r. Q v \<Longrightarrow> gives P (f v r)"
  shows "gives P (case p of None \<Rightarrow> None | Some (v, r) \<Rightarrow> f v r)"
proof (cases p)
  case (Some vr)
  with assms show ?thesis by (cases vr) (simp add: gives_def)
qed (simp add: gives_def)

lemma gives_map:
  assumes "gives Q p" and "\<And>v. Q v \<Longrightarrow> P (h v)"
  shows "gives P (map_option (\<lambda>(v, r). (h v, r)) p)"
  using assms by (auto simp: gives_def)

lemma gives_scan: "gives string_ok (scan_string s)" "gives number_ok (scan_number s)"
  by (auto simp: gives_def intro: string_ok_scan scan_number_ok)

lemma parse_gives:
  "gives (json_ok d) (parse_value n d s)"
  "gives (list_all (json_ok d)) (parse_elements n d s)"
  "gives (list_all (\<lambda>(k, _, v). string_ok k \<and> json_ok d v)) (parse_members n d s)"
proof (induction n arbitrary: d s)
  case (Suc n)
  {
    case 1
    show ?case unfolding parse_value.simps(2)
      by (intro gives_intros gives_map [OF gives_scan(1)] gives_map [OF gives_scan(2)]
          gives_map [OF Suc.IH(2)] gives_map [OF Suc.IH(3)])
        (auto simp: list_all_iff)
  next
    case 2
    show ?case unfolding parse_elements.simps(2)
      by (intro gives_intros gives_case [OF Suc.IH(1)] gives_map [OF Suc.IH(2)]) auto
  next
    case 3
    show ?case unfolding parse_members.simps(2) Let_def
      by (intro gives_intros gives_case [OF gives_scan(1)] gives_case [OF Suc.IH(1)]
          gives_map [OF Suc.IH(3)]) auto
  }
qed (simp_all add: gives_def)

lemma json_ok_mono: "json_ok d v \<Longrightarrow> d \<le> e \<Longrightarrow> json_ok e v"
proof (induction v arbitrary: d e)
  case (JArray vs)
  then show ?case by (auto simp: list_all_iff intro: diff_le_mono)
next
  case (JObject ms)
  then show ?case by (fastforce simp: list_all_iff intro: diff_le_mono)
qed auto

lemma parse_print_determined:
  assumes ok: "json_ok e v" and r: "delimited r" and p: "parse_value n d (json_print v @ r) = Some (x, q)"
  shows "x = v \<and> q = r \<and> json_ok d v"
proof -
  let ?n = "max n (2 * length (json_print v))" and ?d = "max d e"
  have "parse_value ?n ?d (json_print v @ r) = Some (v, r)"
    by (rule parsesD [OF parses_all json_ok_mono [OF ok] r]) simp_all
  moreover have "parse_value ?n ?d (json_print v @ r) = Some (x, q)"
    by (rule le_optD [OF parse_mono(1) p]) simp_all
  ultimately have "x = v" "q = r" by simp_all
  moreover have "json_ok d x" using parse_gives(1) [of d n "json_print v @ r"] p unfolding gives_def by blast
  ultimately show ?thesis by simp
qed

lemma json_parse_print_determined:
  assumes "json_ok e v" and "json_parse (json_print v) = Some x"
  shows "x = v" "json_ok maxNestingDepth v"
proof -
  obtain q where "parse_value (json_fuel (json_print v)) maxNestingDepth (json_print v) = Some (x, q)"
    using assms(2) by (auto simp: json_parse_def split: option.splits if_splits)
  from parse_print_determined [OF assms(1), of "[]"] this show "x = v" "json_ok maxNestingDepth v" by auto
qed

lemma json_parse_ok: "json_parse s = Some v \<Longrightarrow> json_ok maxNestingDepth v"
  using parse_gives(1) [of maxNestingDepth "json_fuel s" s]
  by (auto simp: json_parse_def gives_def split: option.splits if_splits)

text \<open>Escaping for HTML keeps a text well-formed.\<close>

lemma string_ok_cases:
  assumes "string_ok t"
  obtains "t = []"
    | c s where "t = c # s" "c \<noteq> quote_char" "c \<noteq> backslash" "32 \<le> (of_char c :: nat)" "string_ok s"
    | e s where "t = backslash # e # s" "simple_escape e" "string_ok s"
    | h s where "t = backslash # CHR ''u'' # h @ s" "length h = 4" "list_all json_hex h" "string_ok s"
proof (cases t)
  case (Cons c s)
  note t = this
  have scan: "scan_string ((c # s) @ [quote_char]) = Some (c # s, [])" using assms t by (simp add: string_ok_def)
  consider "c = quote_char" | "c = backslash" "c \<noteq> quote_char" | "c \<noteq> quote_char" "c \<noteq> backslash" by blast
  then show thesis
  proof cases
    case 2
    show thesis
    proof (cases s)
      case Nil
      with 2 scan show thesis by (simp add: simple_escape_def split: if_splits)
    next
      case (Cons e s')
      show thesis
      proof (cases "simple_escape e")
        case True
        with 2 scan Cons t that(3) [of e s'] show thesis by (auto simp: string_ok_def)
      next
        case False
        with 2 scan Cons have u: "e = CHR ''u''" "4 \<le> length (s' @ [quote_char])" "list_all json_hex (take 4 (s' @ [quote_char]))"
          and rest: "\<exists>t'. scan_string (drop 4 (s' @ [quote_char])) = Some (t', []) \<and> s' = take 4 (s' @ [quote_char]) @ t'"
          by (auto split: if_splits)
        from rest have len: "4 \<le> length s'" by (metis length_append length_take le_add1 min.absorb2 u(2))
        with rest have "string_ok (drop 4 s')"
          by (auto simp: string_ok_def) (metis append_eq_append_conv append_take_drop_id length_take)
        with that(4) [of "take 4 s'" "drop 4 s'"] u len t 2 Cons show thesis by simp
      qed
    qed
  next
    case 3
    with scan t that(2) [of c s] show thesis by (auto simp: string_ok_def split: if_splits)
  qed (use scan in simp)
qed (use that in simp)

lemma html_chars_plain: "c \<notin> set ''<>&'' \<Longrightarrow> c \<noteq> CHR 0xE2 \<Longrightarrow> html_chars (c # s) = c # html_chars s"
  by (simp add: line_separator_def)

lemma html_chars_append: "\<forall>c \<in> set h. c \<notin> set ''<>&'' \<and> c \<noteq> CHR 0xE2 \<Longrightarrow> html_chars (h @ s) = h @ html_chars s"
  by (induction h) (simp_all add: html_chars_plain del: html_chars.simps)

lemma json_hex_plain: "json_hex c \<Longrightarrow> c \<notin> set ''<>&'' \<and> c \<noteq> CHR 0xE2"
  by (auto simp: json_hex_def is_digit_def)

lemma simple_escape_plain: "simple_escape c \<Longrightarrow> c \<notin> set ''<>&'' \<and> c \<noteq> CHR 0xE2"
  by (auto simp: simple_escape_def backslash_def quote_char_def)

lemma string_ok_html: "string_ok t \<Longrightarrow> string_ok (html_chars t)"
proof (induction t rule: length_induct)
  case (1 t)
  note IH = "1.IH" [rule_format]
  from "1.prems" show ?case
  proof (cases rule: string_ok_cases)
    case (2 c s)
    show ?thesis
    proof (cases "c \<in> set ''<>&''")
      case True
      then have "(of_char c :: nat) < 128" by auto
      with True 2 IH [of s] show ?thesis by (simp add: string_ok_quote_ascii)
    next
      case plain: False
      show ?thesis
      proof (cases "line_separator t")
        case True
        then obtain a b r where s: "s = a # b # r" "(of_char a :: nat) = 128" "128 \<le> (of_char b :: nat)"
          unfolding line_separator_def 2(1) by (cases s; cases "tl s") auto
        from 2(5) s have "string_ok (b # r)" by (cases rule: string_ok_cases) (auto simp: backslash_def)
        then have "string_ok r" using s(3) by (cases rule: string_ok_cases) (auto simp: backslash_def)
        with IH [of r] True plain 2(1) s(1) show ?thesis by (simp add: string_ok_separator)
      next
        case False
        with IH [of s] plain 2 show ?thesis by (simp add: scan_Cons_ok)
      qed
    qed
  next
    case (3 e s)
    have "\<forall>c \<in> set [backslash, e]. c \<notin> set ''<>&'' \<and> c \<noteq> CHR 0xE2"
      using simple_escape_plain [OF 3(2)] by (simp add: backslash_def)
    from html_chars_append [OF this, of s] 3 IH [of s] show ?thesis
      by (simp add: string_ok_escape del: html_chars.simps)
  next
    case (4 h s)
    then have "\<forall>c \<in> set (backslash # CHR ''u'' # h). c \<notin> set ''<>&'' \<and> c \<noteq> CHR 0xE2"
      using json_hex_plain by (auto simp: backslash_def list_all_iff)
    from html_chars_append [OF this, of s] 4 IH [of s] show ?thesis
      by (simp add: string_ok_u del: html_chars.simps)
  qed simp
qed

lemma json_ok_html: "json_ok d v \<Longrightarrow> json_ok d (json_html v)"
proof (induction v arbitrary: d)
  case (JObject ms)
  then show ?case by (fastforce simp: list_all_iff string_ok_html)
qed (auto simp: list_all_iff string_ok_html)

end
