(* ===== verification/Token_State.thy ===== *)
theory Token_State
  imports Go_Std
begin

text \<open>
  The unified token state of \<open>core/token_state.go\<close> with its lifetime
  (\<open>core/state_lifetime.go\<close>), the login subject (\<open>core/login_subject.go\<close>) and the
  metadata copy (\<open>core/metadata.go\<close>). Pointers to structs become options of records: the
  program copies a state whenever it crosses an interface, so values are all there is to see.
\<close>

subsection \<open>Kinds and statuses\<close>

type_synonym TokenValue = string
type_synonym TokenKind = string
type_synonym TokenStatus = string

text \<open>A \<open>json.RawMessage\<close>; \<open>None\<close> is the nil slice.\<close>

type_synonym RawMessage = "string option"

definition TokenKindAccess :: TokenKind where "TokenKindAccess = ''access''"
definition TokenKindRefresh :: TokenKind where "TokenKindRefresh = ''refresh''"
definition TokenKindNonce :: TokenKind where "TokenKindNonce = ''nonce''"

definition TokenStatusActive :: TokenStatus where "TokenStatusActive = ''active''"
definition TokenStatusRevoked :: TokenStatus where "TokenStatusRevoked = ''revoked''"
definition TokenStatusConsumed :: TokenStatus where "TokenStatusConsumed = ''consumed''"

definition DefaultLoginType :: string where "DefaultLoginType = ''login''"

lemmas kind_defs = TokenKindAccess_def TokenKindRefresh_def TokenKindNonce_def
lemmas status_defs = TokenStatusActive_def TokenStatusRevoked_def TokenStatusConsumed_def

lemma kinds_distinct [simp]:
  "TokenKindAccess \<noteq> TokenKindRefresh" "TokenKindRefresh \<noteq> TokenKindAccess"
  "TokenKindAccess \<noteq> TokenKindNonce" "TokenKindNonce \<noteq> TokenKindAccess"
  "TokenKindRefresh \<noteq> TokenKindNonce" "TokenKindNonce \<noteq> TokenKindRefresh"
  "TokenKindAccess \<noteq> []" "TokenKindRefresh \<noteq> []" "TokenKindNonce \<noteq> []"
  by (simp_all add: kind_defs)

lemma statuses_distinct [simp]:
  "TokenStatusActive \<noteq> TokenStatusRevoked" "TokenStatusRevoked \<noteq> TokenStatusActive"
  "TokenStatusActive \<noteq> TokenStatusConsumed" "TokenStatusConsumed \<noteq> TokenStatusActive"
  "TokenStatusRevoked \<noteq> TokenStatusConsumed" "TokenStatusConsumed \<noteq> TokenStatusRevoked"
  "TokenStatusActive \<noteq> []" "TokenStatusRevoked \<noteq> []" "TokenStatusConsumed \<noteq> []"
  by (simp_all add: status_defs)

lemma DefaultLoginType_nonempty [simp]: "DefaultLoginType \<noteq> []"
  by (simp add: DefaultLoginType_def)

lemma TrimSpace_DefaultLoginType [simp]: "TrimSpace DefaultLoginType = DefaultLoginType"
  by (rule TrimSpace_graphic) (simp_all add: DefaultLoginType_def graphic_def)

subsection \<open>Login subjects\<close>

record LoginSubject =
  sub_LoginID :: string
  sub_LoginType :: string

definition LoginSubject_Normalize :: "LoginSubject \<Rightarrow> LoginSubject" where
  "LoginSubject_Normalize s =
     (let loginID = TrimSpace (sub_LoginID s);
          loginType = TrimSpace (sub_LoginType s)
      in s\<lparr>sub_LoginID := loginID,
           sub_LoginType := (if loginType = [] then DefaultLoginType else loginType)\<rparr>)"

definition LoginSubject_IsZero :: "LoginSubject \<Rightarrow> bool" where
  "LoginSubject_IsZero s \<longleftrightarrow> TrimSpace (sub_LoginID s) = []"

lemma LoginSubject_Normalize_idem [simp]:
  "LoginSubject_Normalize (LoginSubject_Normalize s) = LoginSubject_Normalize s"
  by (simp add: LoginSubject_Normalize_def Let_def)

lemma LoginSubject_IsZero_Normalize [simp]:
  "LoginSubject_IsZero (LoginSubject_Normalize s) = LoginSubject_IsZero s"
  by (simp add: LoginSubject_IsZero_def LoginSubject_Normalize_def Let_def)

subsection \<open>Lifetimes\<close>

definition utcTimePtr :: "time \<Rightarrow> time option" where
  "utcTimePtr t = Some t"

definition cloneTimePtrUTC :: "time option \<Rightarrow> time option" where
  "cloneTimePtrUTC t = (case t of None \<Rightarrow> None | Some x \<Rightarrow> utcTimePtr x)"

record stateLifetime =
  sl_expiresAt :: "time option"

definition lifetimeOf :: "time option \<Rightarrow> stateLifetime" where
  "lifetimeOf expiresAt = \<lparr>sl_expiresAt = expiresAt\<rparr>"

definition stateLifetime_IsExpired :: "stateLifetime \<Rightarrow> time \<Rightarrow> bool" where
  "stateLifetime_IsExpired l now \<longleftrightarrow>
     (case sl_expiresAt l of None \<Rightarrow> False | Some e \<Rightarrow> \<not> Before now e)"

definition stateLifetime_EffectiveExpiresAt ::
    "stateLifetime \<Rightarrow> time \<Rightarrow> duration \<Rightarrow> time option" where
  "stateLifetime_EffectiveExpiresAt l now ttl =
     (let effective = (if ttl > 0 then utcTimePtr (Time_Add now ttl) else None)
      in case cloneTimePtrUTC (sl_expiresAt l) of
           None \<Rightarrow> effective
         | Some candidate \<Rightarrow>
             (case effective of
                None \<Rightarrow> Some candidate
              | Some eff \<Rightarrow> if Before candidate eff then Some candidate else Some eff))"

lemma utcTimePtr_simp [simp]: "utcTimePtr t = Some t"
  by (simp add: utcTimePtr_def)

lemma cloneTimePtrUTC_simp [simp]: "cloneTimePtrUTC t = t"
  by (simp add: cloneTimePtrUTC_def split: option.split)

subsection \<open>The state of a token\<close>

definition cloneRawMessage :: "RawMessage \<Rightarrow> RawMessage" where
  "cloneRawMessage raw = (case raw of None \<Rightarrow> None | Some bs \<Rightarrow> if bs = [] then None else Some bs)"

record RefreshInfo =
  ri_AccessToken :: TokenValue
  ri_RotatedFrom :: TokenValue
  ri_RotatedTo :: TokenValue
  ri_LastUsedAt :: "time option"
  ri_RevokedAt :: "time option"

record NonceInfo =
  ni_Purpose :: string
  ni_ConsumedAt :: "time option"

record OnlineInfo =
  oi_OnlineAt :: "time option"
  oi_OfflineAt :: "time option"
  oi_ConnectionID :: string
  oi_UserAgent :: string
  oi_IP :: string

record TokenState =
  ts_Token :: TokenValue
  ts_Kind :: TokenKind
  ts_LoginID :: string
  ts_LoginType :: string
  ts_Device :: string
  ts_CreatedAt :: time
  ts_LastActiveAt :: time
  ts_ExpiresAt :: "time option"
  ts_Status :: TokenStatus
  ts_Metadata :: RawMessage
  ts_Refresh :: "RefreshInfo option"
  ts_Nonce :: "NonceInfo option"
  ts_Online :: "OnlineInfo option"

definition empty_RefreshInfo :: RefreshInfo where
  "empty_RefreshInfo = \<lparr>ri_AccessToken = [], ri_RotatedFrom = [], ri_RotatedTo = [],
     ri_LastUsedAt = None, ri_RevokedAt = None\<rparr>"

definition empty_OnlineInfo :: OnlineInfo where
  "empty_OnlineInfo = \<lparr>oi_OnlineAt = None, oi_OfflineAt = None, oi_ConnectionID = [],
     oi_UserAgent = [], oi_IP = []\<rparr>"

definition RefreshInfo_Clone :: "RefreshInfo option \<Rightarrow> RefreshInfo option" where
  "RefreshInfo_Clone i = map_option (\<lambda>r. r\<lparr>ri_LastUsedAt := cloneTimePtrUTC (ri_LastUsedAt r),
     ri_RevokedAt := cloneTimePtrUTC (ri_RevokedAt r)\<rparr>) i"

definition NonceInfo_Clone :: "NonceInfo option \<Rightarrow> NonceInfo option" where
  "NonceInfo_Clone i = map_option (\<lambda>n. n\<lparr>ni_ConsumedAt := cloneTimePtrUTC (ni_ConsumedAt n)\<rparr>) i"

definition OnlineInfo_Clone :: "OnlineInfo option \<Rightarrow> OnlineInfo option" where
  "OnlineInfo_Clone i = map_option (\<lambda>n. n\<lparr>oi_OnlineAt := cloneTimePtrUTC (oi_OnlineAt n),
     oi_OfflineAt := cloneTimePtrUTC (oi_OfflineAt n)\<rparr>) i"

definition TokenState_Clone :: "TokenState \<Rightarrow> TokenState" where
  "TokenState_Clone s = s\<lparr>
     ts_Metadata := cloneRawMessage (ts_Metadata s),
     ts_ExpiresAt := cloneTimePtrUTC (ts_ExpiresAt s),
     ts_Refresh := RefreshInfo_Clone (ts_Refresh s),
     ts_Nonce := NonceInfo_Clone (ts_Nonce s),
     ts_Online := OnlineInfo_Clone (ts_Online s)\<rparr>"

definition TokenState_Normalize :: "TokenState \<Rightarrow> TokenState" where
  "TokenState_Normalize s =
     (let s = (if ts_Kind s = [] then s\<lparr>ts_Kind := TokenKindAccess\<rparr> else s);
          s = (if ts_Status s = [] then s\<lparr>ts_Status := TokenStatusActive\<rparr> else s)
      in if ts_LoginType s = [] then s\<lparr>ts_LoginType := DefaultLoginType\<rparr> else s)"

definition IsExpired :: "TokenState \<Rightarrow> time \<Rightarrow> bool" where
  "IsExpired s now = stateLifetime_IsExpired (lifetimeOf (ts_ExpiresAt s)) now"

definition IsRevoked :: "TokenState \<Rightarrow> bool" where
  "IsRevoked s \<longleftrightarrow> ts_Status s = TokenStatusRevoked"

definition IsConsumed :: "TokenState \<Rightarrow> bool" where
  "IsConsumed s \<longleftrightarrow> ts_Status s = TokenStatusConsumed"

definition IsActive :: "TokenState \<Rightarrow> time \<Rightarrow> bool" where
  "IsActive s now \<longleftrightarrow>
     \<not> IsExpired s now \<and> (ts_Status s = [] \<or> ts_Status s = TokenStatusActive)"

definition TokenState_Subject :: "TokenState \<Rightarrow> LoginSubject" where
  "TokenState_Subject s = \<lparr>sub_LoginID = ts_LoginID s, sub_LoginType = ts_LoginType s\<rparr>"

definition Touch :: "TokenState \<Rightarrow> time \<Rightarrow> TokenState" where
  "Touch s now = s\<lparr>ts_LastActiveAt := now\<rparr>"

definition MarkRevoked :: "TokenState \<Rightarrow> time \<Rightarrow> TokenState" where
  "MarkRevoked s now =
     (let s = s\<lparr>ts_Status := TokenStatusRevoked\<rparr>
      in case ts_Refresh s of
           None \<Rightarrow> s
         | Some r \<Rightarrow> s\<lparr>ts_Refresh := Some (r\<lparr>ri_RevokedAt := utcTimePtr now\<rparr>)\<rparr>)"

definition MarkConsumed :: "TokenState \<Rightarrow> time \<Rightarrow> TokenState" where
  "MarkConsumed s now =
     (let s = s\<lparr>ts_Status := TokenStatusConsumed\<rparr>
      in case ts_Nonce s of
           None \<Rightarrow> s
         | Some n \<Rightarrow> s\<lparr>ts_Nonce := Some (n\<lparr>ni_ConsumedAt := utcTimePtr now\<rparr>)\<rparr>)"

definition TokenState_MarkOnline :: "TokenState \<Rightarrow> time \<Rightarrow> OnlineInfo \<Rightarrow> TokenState" where
  "TokenState_MarkOnline s now info =
     (let info = info\<lparr>oi_OnlineAt := utcTimePtr now\<rparr>;
          info = (case (oi_OfflineAt info, ts_Online s) of
              (None, Some online) \<Rightarrow> info\<lparr>oi_OfflineAt := cloneTimePtrUTC (oi_OfflineAt online)\<rparr>
            | _ \<Rightarrow> info)
      in s\<lparr>ts_Online := OnlineInfo_Clone (Some info),
           ts_Status := TokenStatusActive,
           ts_LastActiveAt := now\<rparr>)"

definition TokenState_MarkOffline :: "TokenState \<Rightarrow> time \<Rightarrow> TokenState" where
  "TokenState_MarkOffline s now =
     (let online = (case ts_Online s of None \<Rightarrow> empty_OnlineInfo | Some online \<Rightarrow> online)
      in s\<lparr>ts_Online := Some (online\<lparr>oi_OfflineAt := utcTimePtr now\<rparr>),
           ts_LastActiveAt := now\<rparr>)"

definition EffectiveExpiresAt :: "TokenState \<Rightarrow> time \<Rightarrow> duration \<Rightarrow> time option" where
  "EffectiveExpiresAt s now ttl =
     stateLifetime_EffectiveExpiresAt (lifetimeOf (ts_ExpiresAt s)) now ttl"

subsection \<open>Copies and normal forms\<close>

lemma cloneRawMessage_idem [simp]: "cloneRawMessage (cloneRawMessage r) = cloneRawMessage r"
  by (auto simp: cloneRawMessage_def split: option.split)

lemma info_Clone_simps [simp]:
  "RefreshInfo_Clone i = i" "NonceInfo_Clone n = n" "OnlineInfo_Clone k = k"
  by (simp_all add: RefreshInfo_Clone_def NonceInfo_Clone_def OnlineInfo_Clone_def
      option.map_ident)

text \<open>A deep copy differs from the original in one way: empty metadata becomes nil.\<close>

lemma TokenState_Clone_eq:
  "TokenState_Clone s = s\<lparr>ts_Metadata := cloneRawMessage (ts_Metadata s)\<rparr>"
  by (simp add: TokenState_Clone_def)

lemma TokenState_Clone_sel [simp]:
  "ts_Token (TokenState_Clone s) = ts_Token s" "ts_Kind (TokenState_Clone s) = ts_Kind s"
  "ts_LoginID (TokenState_Clone s) = ts_LoginID s"
  "ts_LoginType (TokenState_Clone s) = ts_LoginType s"
  "ts_Device (TokenState_Clone s) = ts_Device s"
  "ts_CreatedAt (TokenState_Clone s) = ts_CreatedAt s"
  "ts_LastActiveAt (TokenState_Clone s) = ts_LastActiveAt s"
  "ts_ExpiresAt (TokenState_Clone s) = ts_ExpiresAt s"
  "ts_Status (TokenState_Clone s) = ts_Status s"
  "ts_Metadata (TokenState_Clone s) = cloneRawMessage (ts_Metadata s)"
  "ts_Refresh (TokenState_Clone s) = ts_Refresh s" "ts_Nonce (TokenState_Clone s) = ts_Nonce s"
  "ts_Online (TokenState_Clone s) = ts_Online s"
  by (simp_all add: TokenState_Clone_eq)

lemma TokenState_Clone_idem [simp]: "TokenState_Clone (TokenState_Clone s) = TokenState_Clone s"
  by (simp add: TokenState_Clone_eq)

lemma TokenState_Subject_Clone [simp]:
  "TokenState_Subject (TokenState_Clone s) = TokenState_Subject s"
  by (simp add: TokenState_Subject_def)

lemma IsExpired_Clone [simp]: "IsExpired (TokenState_Clone s) = IsExpired s"
  by (rule ext) (simp add: IsExpired_def)

lemma IsActive_Clone [simp]: "IsActive (TokenState_Clone s) = IsActive s"
  by (rule ext) (simp add: IsActive_def)

lemma IsConsumed_Clone [simp]: "IsConsumed (TokenState_Clone s) = IsConsumed s"
  by (simp add: IsConsumed_def)

definition cloned :: "TokenState \<Rightarrow> bool" where
  "cloned s \<longleftrightarrow> cloneRawMessage (ts_Metadata s) = ts_Metadata s"

lemma TokenState_Clone_id: "cloned s \<Longrightarrow> TokenState_Clone s = s"
  by (simp add: TokenState_Clone_eq cloned_def)

lemma cloned_Clone [simp]: "cloned (TokenState_Clone s)"
  by (simp add: cloned_def)

text \<open>A state is normal when \<open>Normalize\<close> has nothing to fill in.\<close>

definition normal_state :: "TokenState \<Rightarrow> bool" where
  "normal_state s \<longleftrightarrow> ts_Kind s \<noteq> [] \<and> ts_Status s \<noteq> [] \<and> ts_LoginType s \<noteq> []"

lemma TokenState_Normalize_id [simp]: "normal_state s \<Longrightarrow> TokenState_Normalize s = s"
  by (simp add: normal_state_def TokenState_Normalize_def)

lemma normal_state_Normalize [simp]: "normal_state (TokenState_Normalize s)"
  by (simp add: normal_state_def TokenState_Normalize_def Let_def)

lemma normal_state_Clone [simp]: "normal_state (TokenState_Clone s) = normal_state s"
  by (simp add: normal_state_def)

lemma TokenState_Normalize_sel [simp]:
  "ts_Token (TokenState_Normalize s) = ts_Token s"
  "ts_LoginID (TokenState_Normalize s) = ts_LoginID s"
  "ts_ExpiresAt (TokenState_Normalize s) = ts_ExpiresAt s"
  "ts_Refresh (TokenState_Normalize s) = ts_Refresh s"
  "ts_Nonce (TokenState_Normalize s) = ts_Nonce s"
  "ts_Metadata (TokenState_Normalize s) = ts_Metadata s"
  by (simp_all add: TokenState_Normalize_def Let_def)

lemma cloned_Normalize [simp]: "cloned (TokenState_Normalize s) = cloned s"
  by (simp add: cloned_def)

lemma IsExpired_Normalize [simp]: "IsExpired (TokenState_Normalize s) = IsExpired s"
  by (rule ext) (simp add: IsExpired_def)

lemma Normalize_Subject_Normalize [simp]:
  "LoginSubject_Normalize (TokenState_Subject (TokenState_Normalize s)) =
   LoginSubject_Normalize (TokenState_Subject s)"
  by (simp add: LoginSubject_Normalize_def TokenState_Subject_def TokenState_Normalize_def Let_def)

subsection \<open>Status transitions\<close>

lemma IsExpired_iff:
  "IsExpired s now \<longleftrightarrow> (\<exists>e. ts_ExpiresAt s = Some e \<and> e \<le> now)"
  by (auto simp: IsExpired_def stateLifetime_IsExpired_def lifetimeOf_def Before_def
      split: option.split)

lemma IsExpired_mono: "IsExpired s t \<Longrightarrow> t \<le> u \<Longrightarrow> IsExpired s u"
  by (auto simp: IsExpired_iff)

lemma MarkConsumed_sel [simp]:
  "ts_Token (MarkConsumed s t) = ts_Token s" "ts_Kind (MarkConsumed s t) = ts_Kind s"
  "ts_LoginID (MarkConsumed s t) = ts_LoginID s" "ts_LoginType (MarkConsumed s t) = ts_LoginType s"
  "ts_ExpiresAt (MarkConsumed s t) = ts_ExpiresAt s" "ts_Refresh (MarkConsumed s t) = ts_Refresh s"
  "ts_Status (MarkConsumed s t) = TokenStatusConsumed" "ts_Metadata (MarkConsumed s t) = ts_Metadata s"
  "ts_Device (MarkConsumed s t) = ts_Device s" "ts_CreatedAt (MarkConsumed s t) = ts_CreatedAt s"
  by (simp_all add: MarkConsumed_def Let_def split: option.split)

lemma MarkRevoked_sel [simp]:
  "ts_Token (MarkRevoked s t) = ts_Token s" "ts_Kind (MarkRevoked s t) = ts_Kind s"
  "ts_LoginID (MarkRevoked s t) = ts_LoginID s" "ts_LoginType (MarkRevoked s t) = ts_LoginType s"
  "ts_ExpiresAt (MarkRevoked s t) = ts_ExpiresAt s" "ts_Nonce (MarkRevoked s t) = ts_Nonce s"
  "ts_Status (MarkRevoked s t) = TokenStatusRevoked" "ts_Metadata (MarkRevoked s t) = ts_Metadata s"
  by (simp_all add: MarkRevoked_def Let_def split: option.split)

lemma not_IsActive_MarkConsumed [simp]: "\<not> IsActive (MarkConsumed s t) u"
  by (simp add: IsActive_def)

lemma not_IsActive_MarkRevoked [simp]: "\<not> IsActive (MarkRevoked s t) u"
  by (simp add: IsActive_def)

lemma IsConsumed_MarkConsumed [simp]: "IsConsumed (MarkConsumed s t)"
  by (simp add: IsConsumed_def)

text \<open>The two sources of an expiry, the state's own instant and the \<open>ttl\<close> of the write, combine
  to the earlier one.\<close>

lemma EffectiveExpiresAt_expired_iff:
  "(\<exists>e. EffectiveExpiresAt s now ttl = Some e \<and> e \<le> t) \<longleftrightarrow>
   IsExpired s t \<or> (0 < ttl \<and> Time_Add now ttl \<le> t)"
  by (auto simp: EffectiveExpiresAt_def stateLifetime_EffectiveExpiresAt_def lifetimeOf_def
      IsExpired_iff Before_def Let_def split: option.splits if_splits)

end
