(* ===== verification/Core_Env.thy ===== *)
theory Core_Env
  imports Token_State
begin

text \<open>
  What every operation of \<open>core\<close> shares: the errors of \<open>core/errors.go\<close>, the authorities of
  \<open>core/authorizer.go\<close>, contexts and the authentication they carry (\<open>core/context.go\<close>), the
  events of \<open>core/event.go\<close>, and the environment an operation observes: the clock
  (\<open>core/runtime.go\<close>), the cancellation of its context, the iteration order of Go maps and the
  entropy source.
\<close>

subsection \<open>Authorities and errors\<close>

type_synonym AuthorityType = string

definition AuthorityPermission :: AuthorityType where "AuthorityPermission = ''permission''"
definition AuthorityRole :: AuthorityType where "AuthorityRole = ''role''"

record Authority =
  au_Type :: AuthorityType
  au_Value :: string

definition Permission :: "string \<Rightarrow> Authority" where
  "Permission value = \<lparr>au_Type = AuthorityPermission, au_Value = TrimSpace value\<rparr>"

definition Role :: "string \<Rightarrow> Authority" where
  "Role value = \<lparr>au_Type = AuthorityRole, au_Value = TrimSpace value\<rparr>"

datatype ctx_error = Canceled | DeadlineExceeded

text \<open>
  The sentinel errors, the error of a cancelled context, the failure of the entropy source, an
  error of a library (the driver of a database, a codec),
  \<open>fmt.Errorf("...: %w", err)\<close> as \<open>ErrWrap\<close> and \<open>errors.Join\<close> as \<open>ErrJoin\<close>.
\<close>

datatype error =
    ErrEmptyLoginID | ErrEmptyToken | ErrTokenNotFound | ErrTokenInvalid | ErrUnsupportedKind
  | ErrNotLogin | ErrAuthorityDenied | ErrEmptySessionID | ErrSessionNotFound
  | ErrEmptyAuthority | ErrEmptyDevice
  | ErrEmptyRefreshToken | ErrRefreshTokenNotFound | ErrRefreshTokenExpired
  | ErrRefreshTokenRevoked | ErrNextRefreshTokenRequired | ErrNextRefreshTokenReuse
  | ErrNextAccessTokenReuse
  | ErrEmptyNonce | ErrNonceNotFound | ErrNonceExpired | ErrNonceReplayed
  | ErrEventListenerPanic
  | AuthorityDeniedError Authority
  | ErrContext ctx_error
  | ErrEntropy
  | ErrLibrary string
  | ErrWrap string error
  | ErrJoin error error

text \<open>\<open>errors.Is\<close>: the error itself or one of those it unwraps to.\<close>

fun errors_Is :: "error \<Rightarrow> error \<Rightarrow> bool" where
  "errors_Is (ErrWrap m e) target \<longleftrightarrow> ErrWrap m e = target \<or> errors_Is e target"
| "errors_Is (ErrJoin a b) target \<longleftrightarrow>
     ErrJoin a b = target \<or> errors_Is a target \<or> errors_Is b target"
| "errors_Is (AuthorityDeniedError a) target \<longleftrightarrow>
     AuthorityDeniedError a = target \<or> ErrAuthorityDenied = target"
| "errors_Is e target \<longleftrightarrow> e = target"

definition AuthorityDeniedError_Error :: "Authority \<Rightarrow> string" where
  "AuthorityDeniedError_Error a =
     (let kind = TrimSpace (au_Type a); value = TrimSpace (au_Value a)
      in if kind = [] \<and> value = [] then ''authority denied''
         else if kind = [] then ''authority denied'' @ '': '' @ value
         else if value = [] then ''authority denied'' @ '': '' @ kind
         else ''authority denied'' @ '': '' @ kind @ '':'' @ value)"

subsection \<open>Contexts\<close>

record AuthContext =
  ac_Token :: TokenValue
  ac_Kind :: TokenKind
  ac_LoginID :: string
  ac_LoginType :: string
  ac_Device :: string
  ac_ExpiresAt :: "time option"
  ac_Metadata :: RawMessage

text \<open>
  A context: whether it is done when the environment is observed for the \<open>n\<close>-th time, whether the
  five-second context that outlives its cancellation (\<open>WithTimeout (WithoutCancel ctx)\<close>) is
  done, and the authentication stored under the private key. The nil context is \<open>None\<close>.
\<close>

record go_context =
  gc_done :: "nat \<Rightarrow> ctx_error option"
  gc_cleanup :: "nat \<Rightarrow> ctx_error option"
  gc_auth :: "AuthContext option"

type_synonym ctx = "go_context option"

definition Background :: go_context where
  "Background = \<lparr>gc_done = (\<lambda>_. None), gc_cleanup = (\<lambda>_. None), gc_auth = None\<rparr>"

definition normalizeContext :: "ctx \<Rightarrow> ctx" where
  "normalizeContext c = (case c of None \<Rightarrow> Some Background | Some x \<Rightarrow> Some x)"

definition cleanup_context :: "ctx \<Rightarrow> ctx" where
  "cleanup_context c = map_option (\<lambda>x. x\<lparr>gc_done := gc_cleanup x\<rparr>) c"

definition NewAuthContext :: "TokenState option \<Rightarrow> AuthContext option" where
  "NewAuthContext state =
     (case state of
        None \<Rightarrow> None
      | Some s \<Rightarrow> Some \<lparr>ac_Token = ts_Token s, ac_Kind = ts_Kind s, ac_LoginID = ts_LoginID s,
          ac_LoginType = ts_LoginType s, ac_Device = ts_Device s,
          ac_ExpiresAt = (case ts_ExpiresAt s of None \<Rightarrow> None | Some e \<Rightarrow> Some e),
          ac_Metadata = cloneRawMessage (ts_Metadata s)\<rparr>)"

definition WithAuth :: "ctx \<Rightarrow> AuthContext option \<Rightarrow> ctx" where
  "WithAuth c auth =
     (let c = (case c of None \<Rightarrow> Background | Some x \<Rightarrow> x)
      in case auth of None \<Rightarrow> Some c | Some a \<Rightarrow> Some (c\<lparr>gc_auth := Some a\<rparr>))"

definition AuthFromContext :: "ctx \<Rightarrow> AuthContext option" where
  "AuthFromContext c = (case c of None \<Rightarrow> None | Some x \<Rightarrow> gc_auth x)"

definition RequireAuth :: "ctx \<Rightarrow> error + AuthContext" where
  "RequireAuth c =
     (case AuthFromContext c of
        None \<Rightarrow> Inl ErrNotLogin
      | Some auth \<Rightarrow> if ac_LoginID auth = [] then Inl ErrNotLogin else Inr auth)"

definition LoginIDFromContext :: "ctx \<Rightarrow> string option" where
  "LoginIDFromContext c =
     (case AuthFromContext c of
        None \<Rightarrow> None
      | Some auth \<Rightarrow> if ac_LoginID auth = [] then None else Some (ac_LoginID auth))"

definition RequireLoginID :: "ctx \<Rightarrow> error + string" where
  "RequireLoginID c = (case LoginIDFromContext c of None \<Rightarrow> Inl ErrNotLogin | Some i \<Rightarrow> Inr i)"

definition TokenFromContext :: "ctx \<Rightarrow> TokenValue option" where
  "TokenFromContext c =
     (case AuthFromContext c of
        None \<Rightarrow> None
      | Some auth \<Rightarrow> if ac_Token auth = [] then None else Some (ac_Token auth))"

definition IsAuthenticated :: "ctx \<Rightarrow> bool" where
  "IsAuthenticated c \<longleftrightarrow> LoginIDFromContext c \<noteq> None"

lemma normalizeContext_Some [simp]: "normalizeContext (Some x) = Some x"
  by (simp add: normalizeContext_def)

lemma normalizeContext_idem [simp]: "normalizeContext (normalizeContext c) = normalizeContext c"
  by (simp add: normalizeContext_def split: option.split)

lemma AuthFromContext_WithAuth: "AuthFromContext (WithAuth c (Some a)) = Some a"
  by (simp add: AuthFromContext_def WithAuth_def Let_def)

subsection \<open>Events\<close>

type_synonym EventType = string

definition EventLogin :: EventType where "EventLogin = ''login''"
definition EventLogout :: EventType where "EventLogout = ''logout''"
definition EventKickOut :: EventType where "EventKickOut = ''kick_out''"
definition EventRenewTimeout :: EventType where "EventRenewTimeout = ''renew_timeout''"
definition EventReplaced :: EventType where "EventReplaced = ''replaced''"
definition EventRefreshIssued :: EventType where "EventRefreshIssued = ''refresh_issued''"
definition EventRefresh :: EventType where "EventRefresh = ''refresh''"
definition EventRefreshRevoked :: EventType where "EventRefreshRevoked = ''refresh_revoked''"
definition EventNonceConsumed :: EventType where "EventNonceConsumed = ''nonce_consumed''"
definition EventOnline :: EventType where "EventOnline = ''online''"
definition EventOffline :: EventType where "EventOffline = ''offline''"

lemmas event_type_defs = EventLogin_def EventLogout_def EventKickOut_def EventRenewTimeout_def
  EventReplaced_def EventRefreshIssued_def EventRefresh_def EventRefreshRevoked_def
  EventNonceConsumed_def EventOnline_def EventOffline_def

record Event =
  ev_Type :: EventType
  ev_LoginID :: string
  ev_LoginType :: string
  ev_Token :: TokenValue
  ev_Time :: time
  ev_Metadata :: "(string \<times> go_any) list option"

text \<open>The composite literal \<open>Event{Type: t, LoginID: i, LoginType: l, Token: k}\<close>.\<close>

definition new_Event :: "EventType \<Rightarrow> string \<Rightarrow> string \<Rightarrow> TokenValue \<Rightarrow> Event" where
  "new_Event t i l k = \<lparr>ev_Type = t, ev_LoginID = i, ev_LoginType = l, ev_Token = k,
     ev_Time = zero_time, ev_Metadata = None\<rparr>"

subsection \<open>The environment\<close>

text \<open>
  Each observation of the environment (a clock reading, a look at the context, the start of a map
  iteration, a read of entropy) advances \<open>env_tick\<close>: two observations may differ in any way, so
  a theorem about all environments covers a clock that moves, and a cancellation that arrives,
  between any two steps of an operation. \<open>env_published\<close> records the calls of the event bus.
  A store extends the record with its own state.
\<close>

record env =
  env_clock :: "nat \<Rightarrow> time"
  env_order :: "nat \<Rightarrow> nat \<Rightarrow> nat"
  env_rand :: "nat \<Rightarrow> (nat \<Rightarrow> char) option"
  env_tick :: nat
  env_published :: "Event list"

type_synonym ('x, 'a) eop = "('x env_scheme, error, 'a) op"

definition tick :: "'x env_scheme \<Rightarrow> 'x env_scheme" where
  "tick w = w\<lparr>env_tick := Suc (env_tick w)\<rparr>"

definition read_now :: "('x, time) eop" where
  "read_now = (\<lambda>w. (Inr (env_clock w (env_tick w)), tick w))"

definition ctxErr :: "ctx \<Rightarrow> ('x, unit) eop" where
  "ctxErr c =
     (case c of
        None \<Rightarrow> ret ()
      | Some x \<Rightarrow> (\<lambda>w. case gc_done x (env_tick w) of
            None \<Rightarrow> (Inr (), tick w)
          | Some e \<Rightarrow> (Inl (ErrContext e), tick w)))"

definition range_keys :: "'k list \<Rightarrow> ('x, 'k list) eop" where
  "range_keys ks = (\<lambda>w. (Inr (map_order (env_order w (env_tick w)) ks), tick w))"

definition rand_Read :: "nat \<Rightarrow> ('x, string) eop" where
  "rand_Read n = (\<lambda>w. case env_rand w (env_tick w) of
       None \<Rightarrow> (Inl ErrEntropy, tick w)
     | Some f \<Rightarrow> (Inr (map f [0..<n]), tick w))"

lemma tick_sel [simp]:
  "env_clock (tick w) = env_clock w" "env_order (tick w) = env_order w"
  "env_rand (tick w) = env_rand w" "env_tick (tick w) = Suc (env_tick w)"
  "env_published (tick w) = env_published w" "env.more (tick w) = env.more w"
  by (simp_all add: tick_def)

lemma read_now_apply [op_simps]: "read_now w = (Inr (env_clock w (env_tick w)), tick w)"
  by (simp add: read_now_def)

lemma ctxErr_None [simp]: "ctxErr None = ret ()"
  by (simp add: ctxErr_def)

lemma ctxErr_Some_apply [op_simps]:
  "ctxErr (Some x) w = (case gc_done x (env_tick w) of
     None \<Rightarrow> (Inr (), tick w) | Some e \<Rightarrow> (Inl (ErrContext e), tick w))"
  by (simp add: ctxErr_def)

lemma wp_read_now [wp_simps]: "wp read_now Q E w = Q (env_clock w (env_tick w)) (tick w)"
  by (simp add: wp_def read_now_def)

lemma wp_range_keys [wp_simps]:
  "wp (range_keys ks) Q E w = Q (map_order (env_order w (env_tick w)) ks) (tick w)"
  by (simp add: wp_def range_keys_def)

text \<open>The observations keep every property that ignores the tick.\<close>

definition tick_stable :: "('x env_scheme \<Rightarrow> bool) \<Rightarrow> bool" where
  "tick_stable I \<longleftrightarrow> (\<forall>w. I w \<longrightarrow> I (tick w))"

lemma keeps_read_now: "tick_stable I \<Longrightarrow> keeps I read_now (\<lambda>_. True)"
  by (simp add: keeps_def read_now_def tick_stable_def)

lemma keeps_ctxErr: "tick_stable I \<Longrightarrow> keeps I (ctxErr c) (\<lambda>_. True)"
  by (auto simp: keeps_def ctxErr_def tick_stable_def ret_def split: option.splits)

lemma keeps_range_keys:
  "tick_stable I \<Longrightarrow> keeps I (range_keys ks) (\<lambda>xs. mset xs = mset ks)"
  by (simp add: keeps_def range_keys_def tick_stable_def)

lemma keeps_rand_Read: "tick_stable I \<Longrightarrow> keeps I (rand_Read n) (\<lambda>s. length s = n)"
  by (simp add: keeps_def rand_Read_def tick_stable_def split: option.split)

subsection \<open>Healthy environments\<close>

text \<open>A context that is not done at any observation.\<close>

definition healthy :: "ctx \<Rightarrow> bool" where
  "healthy c \<longleftrightarrow> (case c of None \<Rightarrow> True | Some x \<Rightarrow> \<forall>n. gc_done x n = None)"

lemma healthy_Background [simp]: "healthy (Some Background)" "healthy None"
  by (simp_all add: healthy_def Background_def)

lemma healthy_normalizeContext [simp]: "healthy (normalizeContext c) = healthy c"
  by (simp add: healthy_def normalizeContext_def Background_def split: option.split)

lemma ctxErr_healthy:
  "healthy c \<Longrightarrow> ctxErr c w = (Inr (), (case c of None \<Rightarrow> w | Some _ \<Rightarrow> tick w))"
  by (auto simp: healthy_def ctxErr_def ret_def split: option.split)

lemma wp_ctxErr_healthy:
  "healthy c \<Longrightarrow> Q () w \<Longrightarrow> Q () (tick w) \<Longrightarrow> wp (ctxErr c) Q E w"
  by (simp add: wp_def ctxErr_healthy split: option.split)

lemma normalizeContext_cases: obtains x where "normalizeContext c = Some x"
  by (cases c) (auto simp: normalizeContext_def)

end
