(* ===== verification/Session.thy ===== *)
theory Session
  imports Core_Env "HOL-Library.AList"
begin

text \<open>
  The session container of \<open>core/session.go\<close>: the data methods, the deep copy and the typed
  getters other than the numeric ones. A \<open>*Session\<close> is an option, \<open>None\<close> the nil receiver
  that every method accepts; the map is an association list without repeated keys, \<open>None\<close> the
  nil map. Each method holds the session's lock from start to end, so it is one step.
\<close>

type_synonym go_map = "(string \<times> go_any) list"

record Session =
  se_Subject :: LoginSubject
  se_Data :: "go_map option"

definition data_of :: "Session \<Rightarrow> go_map" where
  "data_of s = (case se_Data s of None \<Rightarrow> [] | Some d \<Rightarrow> d)"

definition NewSessionForSubject :: "LoginSubject \<Rightarrow> Session" where
  "NewSessionForSubject subject = \<lparr>se_Subject = LoginSubject_Normalize subject, se_Data = Some []\<rparr>"

definition NewSession :: "string \<Rightarrow> Session" where
  "NewSession loginID = NewSessionForSubject \<lparr>sub_LoginID = loginID, sub_LoginType = []\<rparr>"

definition Session_Set :: "Session option \<Rightarrow> string \<Rightarrow> go_any \<Rightarrow> Session option" where
  "Session_Set s key value =
     (case s of
        None \<Rightarrow> None
      | Some s \<Rightarrow>
          let data = (case se_Data s of None \<Rightarrow> [] | Some d \<Rightarrow> d)
          in Some (s\<lparr>se_Data := Some (AList.update key value data)\<rparr>))"

definition Session_Get :: "Session option \<Rightarrow> string \<Rightarrow> go_any option" where
  "Session_Get s key = (case s of None \<Rightarrow> None | Some s \<Rightarrow> map_of (data_of s) key)"

definition Session_Remove :: "Session option \<Rightarrow> string \<Rightarrow> Session option" where
  "Session_Remove s key =
     map_option (\<lambda>s. s\<lparr>se_Data := map_option (AList.delete key) (se_Data s)\<rparr>) s"

definition Session_Clear :: "Session option \<Rightarrow> Session option" where
  "Session_Clear s = map_option (\<lambda>s. s\<lparr>se_Data := Some []\<rparr>) s"

definition Session_Has :: "Session option \<Rightarrow> string \<Rightarrow> bool" where
  "Session_Has s key \<longleftrightarrow> Session_Get s key \<noteq> None"

text \<open>\<open>SetMulti\<close> stores the entries of a map, in the order its iteration gives them.\<close>

definition Session_SetMulti :: "Session option \<Rightarrow> go_map \<Rightarrow> Session option" where
  "Session_SetMulti s values =
     (case s of
        None \<Rightarrow> None
      | Some s \<Rightarrow>
          if values = [] then Some s
          else
            let data = (case se_Data s of None \<Rightarrow> [] | Some d \<Rightarrow> d)
            in Some (s\<lparr>se_Data := Some (fold (\<lambda>(k, v). AList.update k v) values data)\<rparr>))"

definition Session_GetString :: "Session option \<Rightarrow> string \<Rightarrow> string" where
  "Session_GetString s key = (case Session_Get s key of Some (AnyString t) \<Rightarrow> t | _ \<Rightarrow> [])"

definition Session_GetBool :: "Session option \<Rightarrow> string \<Rightarrow> bool" where
  "Session_GetBool s key = (case Session_Get s key of Some (AnyBool b) \<Rightarrow> b | _ \<Rightarrow> False)"

definition Session_Keys :: "Session option \<Rightarrow> (nat \<Rightarrow> nat) \<Rightarrow> string list" where
  "Session_Keys s order = (case s of None \<Rightarrow> [] | Some s \<Rightarrow> map_order order (map fst (data_of s)))"

definition Session_Size :: "Session option \<Rightarrow> nat" where
  "Session_Size s = (case s of None \<Rightarrow> 0 | Some s \<Rightarrow> length (data_of s))"

definition Session_IsEmpty :: "Session option \<Rightarrow> bool" where
  "Session_IsEmpty s \<longleftrightarrow> Session_Size s = 0"

subsection \<open>The deep copy\<close>

fun cloneSessionValue :: "go_any \<Rightarrow> go_any" where
  "cloneSessionValue (AnyMap es) = AnyMap (map (\<lambda>(k, v). (k, cloneSessionValue v)) es)"
| "cloneSessionValue (AnySlice vs) = AnySlice (map cloneSessionValue vs)"
| "cloneSessionValue v = v"

definition Session_Clone :: "Session \<Rightarrow> Session" where
  "Session_Clone s =
     \<lparr>se_Subject = se_Subject s,
      se_Data = Some (case se_Data s of
          None \<Rightarrow> []
        | Some d \<Rightarrow> map (\<lambda>(k, v). (k, cloneSessionValue v)) d)\<rparr>"

lemma cloneSessionValue_id [simp]: "cloneSessionValue v = v"
  by (induction v rule: cloneSessionValue.induct) (auto intro!: map_idI)

lemma Session_Clone_eq: "Session_Clone s = s\<lparr>se_Data := Some (data_of s)\<rparr>"
  by (simp add: Session_Clone_def data_of_def split: option.split)

lemma Session_Clone_idem [simp]: "Session_Clone (Session_Clone s) = Session_Clone s"
  by (simp add: Session_Clone_eq data_of_def)

lemma se_Subject_Clone [simp]: "se_Subject (Session_Clone s) = se_Subject s"
  by (simp add: Session_Clone_eq)

lemma Session_Get_Clone [simp]: "Session_Get (Some (Session_Clone s)) key = Session_Get (Some s) key"
  by (simp add: Session_Get_def Session_Clone_eq data_of_def)

lemma Session_Clone_NewSession [simp]:
  "Session_Clone (NewSessionForSubject subject) = NewSessionForSubject subject"
  by (simp add: Session_Clone_def NewSessionForSubject_def)

subsection \<open>A session is a finite map\<close>

definition session_ok :: "Session \<Rightarrow> bool" where
  "session_ok s \<longleftrightarrow> distinct (map fst (data_of s))"

definition session_map :: "Session option \<Rightarrow> string \<Rightarrow> go_any option" where
  "session_map s = (case s of None \<Rightarrow> (\<lambda>_. None) | Some s \<Rightarrow> map_of (data_of s))"

lemma Session_Get_map: "Session_Get s = session_map s"
  by (rule ext) (simp add: Session_Get_def session_map_def split: option.split)

lemma session_map_Set:
  "session_map (Session_Set (Some s) k v) = (session_map (Some s))(k \<mapsto> v)"
  by (simp add: session_map_def Session_Set_def data_of_def update_conv' split: option.split)

lemma session_map_Remove:
  "session_map (Session_Remove (Some s) k) = (session_map (Some s))(k := None)"
  by (auto simp: session_map_def Session_Remove_def data_of_def delete_conv' split: option.split)

lemma session_map_Clear: "session_map (Session_Clear (Some s)) = (\<lambda>_. None)"
  by (simp add: session_map_def Session_Clear_def data_of_def)

lemma map_of_fold_update:
  "map_of (fold (\<lambda>(k, v). AList.update k v) es d) = map_of d ++ map_of (rev es)"
  by (induction es arbitrary: d) (auto simp: update_conv' fun_eq_iff map_add_def split: option.split)

lemma session_map_SetMulti:
  "session_map (Session_SetMulti (Some s) es) = session_map (Some s) ++ map_of (rev es)"
  by (auto simp: session_map_def Session_SetMulti_def data_of_def map_of_fold_update
      split: option.split)

lemma distinct_fold_update:
  "distinct (map fst d) \<Longrightarrow> distinct (map fst (fold (\<lambda>(k, v). AList.update k v) es d))"
  by (induction es arbitrary: d) (auto simp: distinct_update)

lemma session_ok_ops:
  "session_ok s \<Longrightarrow> Session_Set (Some s) k v = Some s' \<Longrightarrow> session_ok s'"
  "session_ok s \<Longrightarrow> Session_Remove (Some s) k = Some s' \<Longrightarrow> session_ok s'"
  "session_ok s \<Longrightarrow> Session_Clear (Some s) = Some s' \<Longrightarrow> session_ok s'"
  "session_ok s \<Longrightarrow> Session_SetMulti (Some s) es = Some s' \<Longrightarrow> session_ok s'"
  "session_ok s \<Longrightarrow> session_ok (Session_Clone s)"
  "session_ok (NewSessionForSubject subject)"
  by (auto simp: session_ok_def Session_Set_def Session_Remove_def Session_Clear_def
      Session_SetMulti_def data_of_def Session_Clone_eq NewSessionForSubject_def distinct_update
      distinct_fold_update distinct_delete split: option.splits if_splits)

lemma Session_Size_card:
  "session_ok s \<Longrightarrow> Session_Size (Some s) = card (dom (session_map (Some s)))"
  unfolding session_ok_def Session_Size_def session_map_def option.case dom_map_of_conv_image_fst
  by (metis distinct_card length_map list.set_map)

end
