(* ===== verification/Sha256.thy ===== *)
theory Sha256
  imports Main
begin

text \<open>
  The hash of Go's \<open>crypto/sha256\<close> (FIPS 180-4) and the lower-case hexadecimal encoding of
  \<open>encoding/hex\<close>, on strings of bytes. A 32-bit word is the list of its bits, least
  significant first, so that rotations are list rotations and the kernel evaluates a digest by
  rewriting.
\<close>

type_synonym bits = "bool list"

subsection \<open>Words of bits\<close>

fun bxor :: "bits \<Rightarrow> bits \<Rightarrow> bits" where
  "bxor (a # as) (b # bs) = (a \<noteq> b) # bxor as bs"
| "bxor _ _ = []"

text \<open>\<open>bch\<close> and \<open>bmaj\<close> are the bitwise choice and majority of the standard.\<close>

fun bch :: "bits \<Rightarrow> bits \<Rightarrow> bits \<Rightarrow> bits" where
  "bch (x # xs) (y # ys) (z # zs) = (if x then y else z) # bch xs ys zs"
| "bch _ _ _ = []"

fun bmaj :: "bits \<Rightarrow> bits \<Rightarrow> bits \<Rightarrow> bits" where
  "bmaj (x # xs) (y # ys) (z # zs) = (if x then y \<or> z else y \<and> z) # bmaj xs ys zs"
| "bmaj _ _ _ = []"

text \<open>Addition modulo \<open>2 ^ 32\<close>: a ripple carry that drops the last carry.\<close>

fun badd_carry :: "bool \<Rightarrow> bits \<Rightarrow> bits \<Rightarrow> bits" where
  "badd_carry c (a # as) (b # bs) =
     ((a \<noteq> b) \<noteq> c) # badd_carry (if c then a \<or> b else a \<and> b) as bs"
| "badd_carry c _ _ = []"

definition badd :: "bits \<Rightarrow> bits \<Rightarrow> bits" where
  "badd = badd_carry False"

definition rotr :: "nat \<Rightarrow> bits \<Rightarrow> bits" where
  "rotr n x = drop n x @ take n x"

definition shr :: "nat \<Rightarrow> bits \<Rightarrow> bits" where
  "shr n x = drop n x @ replicate n False"

definition big_sigma0 :: "bits \<Rightarrow> bits" where
  "big_sigma0 x = bxor (bxor (rotr 2 x) (rotr 13 x)) (rotr 22 x)"

definition big_sigma1 :: "bits \<Rightarrow> bits" where
  "big_sigma1 x = bxor (bxor (rotr 6 x) (rotr 11 x)) (rotr 25 x)"

definition small_sigma0 :: "bits \<Rightarrow> bits" where
  "small_sigma0 x = bxor (bxor (rotr 7 x) (rotr 18 x)) (shr 3 x)"

definition small_sigma1 :: "bits \<Rightarrow> bits" where
  "small_sigma1 x = bxor (bxor (rotr 17 x) (rotr 19 x)) (shr 10 x)"


subsection \<open>Bytes, hexadecimal digits and words\<close>

fun char_bits :: "char \<Rightarrow> bits" where
  "char_bits (Char b0 b1 b2 b3 b4 b5 b6 b7) = [b0, b1, b2, b3, b4, b5, b6, b7]"

text \<open>The value of a lower-case hexadecimal digit: \<open>0x30\<close> to \<open>0x39\<close>, \<open>0x61\<close> to \<open>0x66\<close>.\<close>

fun hex_value :: "char \<Rightarrow> bits" where
  "hex_value (Char b0 b1 b2 b3 b4 b5 b6 b7) =
     (if b6 then [\<not> b0, b0 \<noteq> b1, b2 \<noteq> (b0 \<and> b1), True] else [b0, b1, b2, b3])"

definition hex_word :: "string \<Rightarrow> bits" where
  "hex_word s = concat (rev (map hex_value s))"

definition hex_table :: string where
  "hex_table = ''0123456789abcdef''"

definition hex_digit :: "bool \<Rightarrow> bool \<Rightarrow> bool \<Rightarrow> bool \<Rightarrow> char" where
  "hex_digit b0 b1 b2 b3 =
     hex_table ! (of_bool b0 + 2 * of_bool b1 + 4 * of_bool b2 + 8 * of_bool b3)"

fun hex_byte :: "char \<Rightarrow> string" where
  "hex_byte (Char b0 b1 b2 b3 b4 b5 b6 b7) = [hex_digit b4 b5 b6 b7, hex_digit b0 b1 b2 b3]"

definition hex_EncodeToString :: "string \<Rightarrow> string" where
  "hex_EncodeToString bs = concat (map hex_byte bs)"

fun word_bytes :: "bits \<Rightarrow> string" where
  "word_bytes (b0 # b1 # b2 # b3 # b4 # b5 # b6 # b7 # bs) =
     word_bytes bs @ [Char b0 b1 b2 b3 b4 b5 b6 b7]"
| "word_bytes _ = []"

fun be_words :: "string \<Rightarrow> bits list" where
  "be_words (a # b # c # d # cs) =
     (char_bits d @ char_bits c @ char_bits b @ char_bits a) # be_words cs"
| "be_words _ = []"

fun be_bytes :: "nat \<Rightarrow> nat \<Rightarrow> string" where
  "be_bytes 0 x = []"
| "be_bytes (Suc n) x = be_bytes n (x div 256) @
     [Char (odd x) (odd (x div 2)) (odd (x div 4)) (odd (x div 8))
        (odd (x div 16)) (odd (x div 32)) (odd (x div 64)) (odd (x div 128))]"

subsection \<open>The compression function\<close>

definition sha_k :: "string list" where
  "sha_k =
    [''428a2f98'', ''71374491'', ''b5c0fbcf'', ''e9b5dba5'', ''3956c25b'', ''59f111f1'',
     ''923f82a4'', ''ab1c5ed5'', ''d807aa98'', ''12835b01'', ''243185be'', ''550c7dc3'',
     ''72be5d74'', ''80deb1fe'', ''9bdc06a7'', ''c19bf174'', ''e49b69c1'', ''efbe4786'',
     ''0fc19dc6'', ''240ca1cc'', ''2de92c6f'', ''4a7484aa'', ''5cb0a9dc'', ''76f988da'',
     ''983e5152'', ''a831c66d'', ''b00327c8'', ''bf597fc7'', ''c6e00bf3'', ''d5a79147'',
     ''06ca6351'', ''14292967'', ''27b70a85'', ''2e1b2138'', ''4d2c6dfc'', ''53380d13'',
     ''650a7354'', ''766a0abb'', ''81c2c92e'', ''92722c85'', ''a2bfe8a1'', ''a81a664b'',
     ''c24b8b70'', ''c76c51a3'', ''d192e819'', ''d6990624'', ''f40e3585'', ''106aa070'',
     ''19a4c116'', ''1e376c08'', ''2748774c'', ''34b0bcb5'', ''391c0cb3'', ''4ed8aa4a'',
     ''5b9cca4f'', ''682e6ff3'', ''748f82ee'', ''78a5636f'', ''84c87814'', ''8cc70208'',
     ''90befffa'', ''a4506ceb'', ''bef9a3f7'', ''c67178f2'']"

type_synonym sha_state = "bits \<times> bits \<times> bits \<times> bits \<times> bits \<times> bits \<times> bits \<times> bits"

definition sha_iv :: sha_state where
  "sha_iv =
    (hex_word ''6a09e667'', hex_word ''bb67ae85'', hex_word ''3c6ef372'',
     hex_word ''a54ff53a'', hex_word ''510e527f'', hex_word ''9b05688c'',
     hex_word ''1f83d9ab'', hex_word ''5be0cd19'')"

text \<open>One round, from its two temporaries; the rounds keep the last sixteen words of the message
  schedule as a sliding window.\<close>

definition sha_step :: "bits \<Rightarrow> bits \<Rightarrow> sha_state \<Rightarrow> sha_state" where
  "sha_step t1 t2 = (\<lambda>(a, b, c, d, e, f, g, h). (badd t1 t2, a, b, c, badd d t1, e, f, g))"

fun sha_round :: "bits \<Rightarrow> bits \<Rightarrow> sha_state \<Rightarrow> sha_state" where
  "sha_round k w (a, b, c, d, e, f, g, h) =
     sha_step (badd (badd (badd (badd h (big_sigma1 e)) (bch e f g)) k) w)
       (badd (big_sigma0 a) (bmaj a b c)) (a, b, c, d, e, f, g, h)"

definition sha_schedule :: "bits list \<Rightarrow> bits" where
  "sha_schedule ws =
     badd (badd (badd (small_sigma1 (ws ! 14)) (ws ! 9)) (small_sigma0 (ws ! 1))) (ws ! 0)"

fun sha_rounds :: "string list \<Rightarrow> bits list \<Rightarrow> sha_state \<Rightarrow> sha_state" where
  "sha_rounds [] ws s = s"
| "sha_rounds (k # ks) ws s =
     sha_rounds ks (tl ws @ [sha_schedule ws]) (sha_round (hex_word k) (hd ws) s)"

fun sha_add :: "sha_state \<Rightarrow> sha_state \<Rightarrow> sha_state" where
  "sha_add (a0, b0, c0, d0, e0, f0, g0, h0) (a, b, c, d, e, f, g, h) =
     (badd a0 a, badd b0 b, badd c0 c, badd d0 d, badd e0 e, badd f0 f, badd g0 g, badd h0 h)"

definition sha_block :: "sha_state \<Rightarrow> bits list \<Rightarrow> sha_state" where
  "sha_block s ws = sha_add s (sha_rounds sha_k ws s)"

fun sha_blocks :: "nat \<Rightarrow> bits list \<Rightarrow> sha_state \<Rightarrow> sha_state" where
  "sha_blocks 0 ws s = s"
| "sha_blocks (Suc n) ws s = sha_blocks n (drop 16 ws) (sha_block s (take 16 ws))"

fun sha_digest :: "sha_state \<Rightarrow> string" where
  "sha_digest (a, b, c, d, e, f, g, h) =
     word_bytes a @ word_bytes b @ word_bytes c @ word_bytes d @
     word_bytes e @ word_bytes f @ word_bytes g @ word_bytes h"

definition sha_pad :: "string \<Rightarrow> string" where
  "sha_pad msg =
     msg @ CHR 0x80 # replicate ((119 - length msg mod 64) mod 64) CHR 0x00 @
     be_bytes 8 (8 * length msg)"

definition Sum256 :: "string \<Rightarrow> string" where
  "Sum256 msg =
     (let ws = be_words (sha_pad msg) in sha_digest (sha_blocks (length ws div 16) ws sha_iv))"


subsection \<open>The digest has 32 bytes, its hexadecimal form 64 digits\<close>

lemma length_bxor [simp]: "length (bxor x y) = min (length x) (length y)"
  by (induction x y rule: bxor.induct) auto

lemma length_bch [simp]: "length (bch x y z) = min (length x) (min (length y) (length z))"
  by (induction x y z rule: bch.induct) auto

lemma length_bmaj [simp]: "length (bmaj x y z) = min (length x) (min (length y) (length z))"
  by (induction x y z rule: bmaj.induct) auto

lemma length_badd_carry: "length (badd_carry c x y) = min (length x) (length y)"
  by (induction c x y rule: badd_carry.induct) auto

lemma length_badd [simp]: "length (badd x y) = min (length x) (length y)"
  by (simp add: badd_def length_badd_carry)

lemma length_rotr [simp]: "length (rotr n x) = length x"
  by (simp add: rotr_def)

lemma length_shr [simp]: "length (shr n x) = max n (length x)"
  by (simp add: shr_def)

lemma length_hex_value [simp]: "length (hex_value c) = 4"
  by (cases c) simp

lemma length_hex_word [simp]: "length (hex_word s) = 4 * length s"
  by (induction s) (auto simp: hex_word_def)

lemma length_char_bits [simp]: "length (char_bits c) = 8"
  by (cases c) simp

lemma be_words_32: "\<forall>w \<in> set (be_words s). length w = 32"
  by (induction s rule: be_words.induct) auto

fun state_32 :: "sha_state \<Rightarrow> bool" where
  "state_32 (a, b, c, d, e, f, g, h) \<longleftrightarrow>
     length a = 32 \<and> length b = 32 \<and> length c = 32 \<and> length d = 32 \<and>
     length e = 32 \<and> length f = 32 \<and> length g = 32 \<and> length h = 32"

lemma sha_schedule_32:
  "length ws = 16 \<Longrightarrow> \<forall>w \<in> set ws. length w = 32 \<Longrightarrow> length (sha_schedule ws) = 32"
  by (simp add: sha_schedule_def small_sigma0_def small_sigma1_def)

lemma sha_round_32:
  "length k = 32 \<Longrightarrow> length w = 32 \<Longrightarrow> state_32 s \<Longrightarrow> state_32 (sha_round k w s)"
  by (cases s rule: state_32.cases) (simp add: sha_step_def big_sigma0_def big_sigma1_def)

lemma sha_rounds_32:
  assumes "\<forall>k \<in> set ks. length k = 8" and "length ws = 16" and "\<forall>w \<in> set ws. length w = 32"
    and "state_32 s"
  shows "state_32 (sha_rounds ks ws s)"
  using assms
proof (induction ks arbitrary: ws s)
  case (Cons k ks)
  from Cons.prems have ne: "ws \<noteq> []" by auto
  have "length (sha_schedule ws) = 32"
    using Cons.prems by (simp add: sha_schedule_32)
  with Cons.prems ne have
    "length (tl ws @ [sha_schedule ws]) = 16"
    "\<forall>w \<in> set (tl ws @ [sha_schedule ws]). length w = 32"
    by (auto dest: list.set_sel(2))
  moreover have "state_32 (sha_round (hex_word k) (hd ws) s)"
    using Cons.prems ne by (intro sha_round_32) auto
  ultimately show ?case using Cons.prems(1) Cons.IH by simp
qed simp

lemma sha_k_8: "\<forall>k \<in> set sha_k. length k = 8"
  by (simp add: sha_k_def)

lemma sha_add_32: "state_32 s \<Longrightarrow> state_32 t \<Longrightarrow> state_32 (sha_add s t)"
  by (cases s rule: state_32.cases; cases t rule: state_32.cases) simp

lemma sha_blocks_32:
  assumes "16 * n \<le> length ws" and "\<forall>w \<in> set ws. length w = 32" and "state_32 s"
  shows "state_32 (sha_blocks n ws s)"
  using assms
proof (induction n arbitrary: ws s)
  case (Suc n)
  have "state_32 (sha_block s (take 16 ws))"
    unfolding sha_block_def using Suc.prems
    by (intro sha_add_32 sha_rounds_32 sha_k_8) (auto dest: in_set_takeD)
  moreover have "\<forall>w \<in> set (drop 16 ws). length w = 32"
    using Suc.prems by (auto dest: in_set_dropD)
  ultimately show ?case using Suc by simp
qed simp

lemma length_word_bytes: "length b = 32 \<Longrightarrow> length (word_bytes b) = 4"
  by (simp add: length_Suc_conv numeral_eq_Suc) auto

theorem length_Sum256 [simp]: "length (Sum256 msg) = 32"
proof -
  let ?ws = "be_words (sha_pad msg)"
  have "state_32 sha_iv" by (simp add: sha_iv_def)
  then have "state_32 (sha_blocks (length ?ws div 16) ?ws sha_iv)"
    using be_words_32 by (intro sha_blocks_32) auto
  then show ?thesis
    unfolding Sum256_def Let_def
    by (cases "sha_blocks (length ?ws div 16) ?ws sha_iv" rule: state_32.cases)
      (simp add: length_word_bytes)
qed

lemma length_hex_EncodeToString [simp]: "length (hex_EncodeToString bs) = 2 * length bs"
proof (induction bs)
  case (Cons b bs)
  then show ?case by (cases b) (simp add: hex_EncodeToString_def)
qed (simp add: hex_EncodeToString_def)

lemma hex_digit_in_table: "hex_digit b0 b1 b2 b3 \<in> set hex_table"
  by (simp add: hex_digit_def hex_table_def)

lemma set_hex_EncodeToString: "set (hex_EncodeToString bs) \<subseteq> set hex_table"
proof (induction bs)
  case (Cons b bs)
  then show ?case
    by (cases b) (simp add: hex_EncodeToString_def hex_digit_in_table)
qed (simp add: hex_EncodeToString_def)

subsection \<open>Evaluation\<close>

text \<open>
  Ground equations with which the simplifier computes a digest in a few seconds. They are used
  with \<open>simp only\<close>, one block at a time.
\<close>

lemma take_drop_numeral:
  "drop (numeral k) (x # xs) = drop (pred_numeral k) xs"
  "take (numeral k) (x # xs) = x # take (pred_numeral k) xs"
  "replicate (numeral k) y = y # replicate (pred_numeral k) y"
  by (simp_all only: numeral_eq_Suc drop_Suc_Cons take_Suc_Cons replicate_Suc)

lemma be_bytes_numeral:
  "be_bytes (numeral k) x = be_bytes (pred_numeral k) (x div 256) @
     [Char (odd x) (odd (x div 2)) (odd (x div 4)) (odd (x div 8))
        (odd (x div 16)) (odd (x div 32)) (odd (x div 64)) (odd (x div 128))]"
  by (simp only: numeral_eq_Suc be_bytes.simps)

lemma bxor_eval:
  "bxor (True # as) (True # bs) = False # bxor as bs"
  "bxor (True # as) (False # bs) = True # bxor as bs"
  "bxor (False # as) (True # bs) = True # bxor as bs"
  "bxor (False # as) (False # bs) = False # bxor as bs"
  "bxor [] [] = []"
  by simp_all

lemma badd_eval:
  "badd_carry False (False # as) (False # bs) = False # badd_carry False as bs"
  "badd_carry False (False # as) (True # bs) = True # badd_carry False as bs"
  "badd_carry False (True # as) (False # bs) = True # badd_carry False as bs"
  "badd_carry False (True # as) (True # bs) = False # badd_carry True as bs"
  "badd_carry True (False # as) (False # bs) = True # badd_carry False as bs"
  "badd_carry True (False # as) (True # bs) = False # badd_carry True as bs"
  "badd_carry True (True # as) (False # bs) = False # badd_carry True as bs"
  "badd_carry True (True # as) (True # bs) = True # badd_carry True as bs"
  "badd_carry c [] [] = []"
  by simp_all

lemma bch_eval:
  "bch (True # xs) (y # ys) (z # zs) = y # bch xs ys zs"
  "bch (False # xs) (y # ys) (z # zs) = z # bch xs ys zs"
  "bch [] [] [] = []"
  by simp_all

lemma bmaj_eval:
  "bmaj (True # xs) (True # ys) (z # zs) = True # bmaj xs ys zs"
  "bmaj (True # xs) (False # ys) (z # zs) = z # bmaj xs ys zs"
  "bmaj (False # xs) (True # ys) (z # zs) = z # bmaj xs ys zs"
  "bmaj (False # xs) (False # ys) (z # zs) = False # bmaj xs ys zs"
  "bmaj [] [] [] = []"
  by simp_all

lemma sha_step_eval:
  "sha_step t1 t2 (a, b, c, d, e, f, g, h) =
     (badd_carry False t1 t2, a, b, c, badd_carry False d t1, e, f, g)"
  by (simp add: sha_step_def badd_def)

lemma sha_schedule_eval:
  "sha_schedule (w0 # w1 # w2 # w3 # w4 # w5 # w6 # w7 # w8 # w9 # w10 # w11 # w12 # w13 # w14 # ws) =
   badd_carry False
     (badd_carry False (badd_carry False (small_sigma1 w14) w9) (small_sigma0 w1)) w0"
  by (simp add: sha_schedule_def badd_def)

lemma hex_value_eval:
  "hex_value (CHR ''0'') = [False, False, False, False]"
  "hex_value (CHR ''1'') = [True, False, False, False]"
  "hex_value (CHR ''2'') = [False, True, False, False]"
  "hex_value (CHR ''3'') = [True, True, False, False]"
  "hex_value (CHR ''4'') = [False, False, True, False]"
  "hex_value (CHR ''5'') = [True, False, True, False]"
  "hex_value (CHR ''6'') = [False, True, True, False]"
  "hex_value (CHR ''7'') = [True, True, True, False]"
  "hex_value (CHR ''8'') = [False, False, False, True]"
  "hex_value (CHR ''9'') = [True, False, False, True]"
  "hex_value (CHR ''a'') = [False, True, False, True]"
  "hex_value (CHR ''b'') = [True, True, False, True]"
  "hex_value (CHR ''c'') = [False, False, True, True]"
  "hex_value (CHR ''d'') = [True, False, True, True]"
  "hex_value (CHR ''e'') = [False, True, True, True]"
  "hex_value (CHR ''f'') = [True, True, True, True]"
  by simp_all

lemma hex_word_eval:
  "hex_word [a, b, c, d, e, f, g, h] =
     hex_value h @ hex_value g @ hex_value f @ hex_value e @
     hex_value d @ hex_value c @ hex_value b @ hex_value a"
  by (simp add: hex_word_def)

lemmas sha_eval =
  sha_block_def take_drop_numeral drop_Suc_Cons take_Suc_Cons drop_0 take_0 replicate_0
  replicate_Suc bxor_eval badd_eval bch_eval bmaj_eval sha_step_eval sha_schedule_eval
  hex_value_eval hex_word_eval rotr_def shr_def small_sigma0_def small_sigma1_def
  big_sigma0_def big_sigma1_def badd_def sha_round.simps sha_rounds.simps sha_k_def sha_iv_def
  list.sel append_Cons append_Nil pred_numeral_simps sha_add.simps BitM.simps

lemmas sha_pad_eval = sha_pad_def be_bytes_numeral take_drop_numeral hex_word_eval

lemmas hex_eval = hex_word_eval hex_EncodeToString_def hex_digit_def hex_table_def

text \<open>The message of one block: its sixteen words and their digest.\<close>

lemma Sum256_one_block:
  assumes "be_words (sha_pad msg) = ws" and "length ws = 16"
    and "sha_block sha_iv ws = (a, b, c, d, e, f, g, h)"
  shows "Sum256 msg = sha_digest (a, b, c, d, e, f, g, h)"
  using assms by (simp add: Sum256_def)

text \<open>The test vector of FIPS 180-4.\<close>

lemma Sum256_abc:
  "hex_EncodeToString (Sum256 ''abc'') =
   ''ba7816bf8f01cfea414140de5dae2223b00361a396177a9cb410ff61f20015ad''"
proof -
  let ?z = "hex_word ''00000000''"
  let ?ws = "[hex_word ''61626380'', ?z, ?z, ?z, ?z, ?z, ?z, ?z, ?z, ?z, ?z, ?z, ?z, ?z, ?z,
    hex_word ''00000018'']"
  have "be_words (sha_pad ''abc'') = ?ws"
    by (simp add: sha_pad_eval)
  moreover have "sha_block sha_iv ?ws =
    (hex_word ''ba7816bf'', hex_word ''8f01cfea'', hex_word ''414140de'', hex_word ''5dae2223'',
     hex_word ''b00361a3'', hex_word ''96177a9c'', hex_word ''b410ff61'', hex_word ''f20015ad'')"
    by (simp only: sha_eval)
  ultimately have "Sum256 ''abc'' = sha_digest
    (hex_word ''ba7816bf'', hex_word ''8f01cfea'', hex_word ''414140de'', hex_word ''5dae2223'',
     hex_word ''b00361a3'', hex_word ''96177a9c'', hex_word ''b410ff61'', hex_word ''f20015ad'')"
    by (intro Sum256_one_block) simp_all
  then show ?thesis by (simp add: hex_eval)
qed

end
