(* ===== verification/Store_Port.thy ===== *)
theory Store_Port
  imports Session Sha256
begin

text \<open>
  The ports through which the Manager reaches a store (\<open>core/store.go\<close>), the derivation of store
  keys (\<open>storeKey\<close> and \<open>withPlaintextToken\<close> of \<open>core/manager.go\<close>), and the contracts that
  a store owes to its client: each operation keeps an invariant and hands out only states whose
  token fields are hashes.
\<close>

subsection \<open>Store keys\<close>

definition storeKey :: "TokenValue \<Rightarrow> TokenValue" where
  "storeKey token =
     (let trimmed = TrimSpace token
      in if trimmed = [] then [] else hex_EncodeToString (Sum256 trimmed))"

definition withPlaintextToken :: "TokenState option \<Rightarrow> TokenValue \<Rightarrow> TokenState option" where
  "withPlaintextToken state plaintext =
     map_option (\<lambda>s. (TokenState_Clone s)\<lparr>ts_Token := TrimSpace plaintext\<rparr>) state"

text \<open>A key in the range of \<open>storeKey\<close>, and the empty string where no key is recorded.\<close>

definition is_store_key :: "TokenValue \<Rightarrow> bool" where
  "is_store_key k \<longleftrightarrow> (\<exists>t. TrimSpace t \<noteq> [] \<and> k = storeKey t)"

definition key_or_empty :: "TokenValue \<Rightarrow> bool" where
  "key_or_empty k \<longleftrightarrow> k = [] \<or> is_store_key k"

definition hashed_refresh :: "RefreshInfo \<Rightarrow> bool" where
  "hashed_refresh r \<longleftrightarrow>
     key_or_empty (ri_AccessToken r) \<and> key_or_empty (ri_RotatedFrom r) \<and> key_or_empty (ri_RotatedTo r)"

definition hashed_state :: "TokenState \<Rightarrow> bool" where
  "hashed_state s \<longleftrightarrow> is_store_key (ts_Token s) \<and>
     (case ts_Refresh s of None \<Rightarrow> True | Some r \<Rightarrow> hashed_refresh r)"

lemma storeKey_Nil [simp]: "storeKey [] = []"
  by (simp add: storeKey_def)

lemma storeKey_TrimSpace [simp]: "storeKey (TrimSpace t) = storeKey t"
  by (simp add: storeKey_def)

lemma storeKey_eq_Nil_iff [simp]: "storeKey t = [] \<longleftrightarrow> TrimSpace t = []"
proof -
  have "hex_EncodeToString (Sum256 u) \<noteq> []" for u
    by (metis length_Sum256 length_hex_EncodeToString list.size(3) mult_eq_0_iff zero_neq_numeral)
  then show ?thesis by (simp add: storeKey_def Let_def)
qed

lemma is_store_key_storeKey [simp]: "TrimSpace t \<noteq> [] \<Longrightarrow> is_store_key (storeKey t)"
  by (auto simp: is_store_key_def)

lemma key_or_empty_storeKey [simp]: "key_or_empty (storeKey t)"
  by (cases "TrimSpace t = []") (simp_all add: key_or_empty_def)

lemma key_or_empty_Nil [simp]: "key_or_empty []"
  by (simp add: key_or_empty_def)

lemma is_store_key_or_empty [simp]: "is_store_key k \<Longrightarrow> key_or_empty k"
  by (simp add: key_or_empty_def)

lemma is_store_key_nonempty: "is_store_key k \<Longrightarrow> k \<noteq> []"
  by (auto simp: is_store_key_def)

text \<open>A store key has the fixed shape of a SHA-256 digest in hexadecimal.\<close>

lemma is_store_key_shape: "is_store_key k \<Longrightarrow> length k = 64 \<and> set k \<subseteq> set hex_table"
  by (auto simp: is_store_key_def storeKey_def Let_def dest: subsetD [OF set_hex_EncodeToString])

lemma hashed_state_simps [simp]:
  "hashed_state (TokenState_Clone s) = hashed_state s"
  "hashed_state (TokenState_Normalize s) = hashed_state s"
  "hashed_state (MarkConsumed s t) = hashed_state s"
  "hashed_state (Touch s t) = hashed_state s"
  "hashed_state (s\<lparr>ts_ExpiresAt := e\<rparr>) = hashed_state s"
  "hashed_state (s\<lparr>ts_Device := d\<rparr>) = hashed_state s"
  "hashed_state (s\<lparr>ts_Metadata := md\<rparr>) = hashed_state s"
  "hashed_state (TokenState_MarkOffline s t) = hashed_state s"
  "hashed_state (TokenState_MarkOnline s t info) = hashed_state s"
  by (simp_all add: hashed_state_def Touch_def TokenState_MarkOffline_def TokenState_MarkOnline_def
      Let_def)

lemma hashed_state_MarkRevoked [simp]: "hashed_state (MarkRevoked s t) = hashed_state s"
  by (simp add: hashed_state_def hashed_refresh_def MarkRevoked_def Let_def split: option.split)

lemma hashed_state_Token: "hashed_state s \<Longrightarrow> is_store_key (ts_Token s)"
  by (simp add: hashed_state_def)

subsection \<open>The ports\<close>

text \<open>
  The methods of \<open>Store\<close> and \<open>AtomicStore\<close>. A result \<open>(state, found)\<close> is \<open>Some state\<close>
  when it was found with a non-nil state and \<open>None\<close> otherwise; every caller treats the two
  negative answers alike.
\<close>

record 'w store_ops =
  st_SaveTokenState :: "ctx \<Rightarrow> TokenState option \<Rightarrow> duration \<Rightarrow> ('w, error, unit) op"
  st_GetTokenState :: "ctx \<Rightarrow> TokenValue \<Rightarrow> ('w, error, TokenState option) op"
  st_ConsumeTokenState :: "ctx \<Rightarrow> TokenValue \<Rightarrow> ('w, error, TokenState option) op"
  st_DeleteTokenState :: "ctx \<Rightarrow> TokenValue \<Rightarrow> ('w, error, unit) op"
  st_FindTokenStates ::
    "ctx \<Rightarrow> LoginSubject \<Rightarrow> TokenKind list \<Rightarrow> ('w, error, TokenState option list) op"
  st_DeleteTokenStates :: "ctx \<Rightarrow> LoginSubject \<Rightarrow> TokenKind list \<Rightarrow> ('w, error, unit) op"
  st_SaveSession :: "ctx \<Rightarrow> Session option \<Rightarrow> duration \<Rightarrow> ('w, error, unit) op"
  st_GetSession :: "ctx \<Rightarrow> LoginSubject \<Rightarrow> ('w, error, Session option) op"
  st_DeleteSession :: "ctx \<Rightarrow> LoginSubject \<Rightarrow> ('w, error, unit) op"

record 'w atomic_ops =
  at_CompareAndSwapTokenState ::
    "ctx \<Rightarrow> TokenState option \<Rightarrow> TokenState option \<Rightarrow> duration \<Rightarrow> ('w, error, bool) op"
  at_ConsumeTokenStateOfKind ::
    "ctx \<Rightarrow> TokenValue \<Rightarrow> TokenKind \<Rightarrow> ('w, error, TokenState option) op"
  at_EnsureSession :: "ctx \<Rightarrow> LoginSubject \<Rightarrow> duration \<Rightarrow> ('w, error, unit) op"

fun matches_any :: "TokenKind \<Rightarrow> TokenKind list \<Rightarrow> bool" where
  "matches_any kind [] = False"
| "matches_any kind (k # ks) = (if k = kind then True else matches_any kind ks)"

definition MatchKind :: "TokenKind \<Rightarrow> TokenKind list \<Rightarrow> bool" where
  "MatchKind kind kinds = (if kinds = [] then True else matches_any kind kinds)"

lemma matches_any_iff [simp]: "matches_any kind ks \<longleftrightarrow> kind \<in> set ks"
  by (induction ks) auto

lemma MatchKind_iff: "MatchKind kind kinds \<longleftrightarrow> kinds = [] \<or> kind \<in> set kinds"
  by (simp add: MatchKind_def)

subsection \<open>The contracts\<close>

text \<open>What a state handed out by a store is worth to the Manager.\<close>

definition hashed_opt :: "TokenState option \<Rightarrow> bool" where
  "hashed_opt r \<longleftrightarrow> (\<forall>s. r = Some s \<longrightarrow> hashed_state s)"

definition hashed_list :: "TokenState option list \<Rightarrow> bool" where
  "hashed_list rs \<longleftrightarrow> (\<forall>s. Some s \<in> set rs \<longrightarrow> hashed_state s)"

lemma hashed_opt_simps [simp]: "hashed_opt None" "hashed_opt (Some s) = hashed_state s"
  by (simp_all add: hashed_opt_def)

text \<open>
  A world whose observation and event log may change without touching the invariant, and a store
  over it that keeps the invariant as long as it is given hashed states, and gives out such.
\<close>

locale observed_world =
  fixes I :: "'x env_scheme \<Rightarrow> bool"
  assumes I_tick: "tick_stable I"
    and I_publish: "I w \<Longrightarrow> I (w\<lparr>env_published := evs\<rparr>)"

locale token_store = observed_world I
  for I :: "'x env_scheme \<Rightarrow> bool" +
  fixes S :: "'x env_scheme store_ops"
  assumes save: "hashed_state s \<Longrightarrow> keeps I (st_SaveTokenState S c (Some s) ttl) (\<lambda>_. True)"
    and get: "keeps I (st_GetTokenState S c k) hashed_opt"
    and consume: "keeps I (st_ConsumeTokenState S c k) hashed_opt"
    and delete: "keeps I (st_DeleteTokenState S c k) (\<lambda>_. True)"
    and find: "keeps I (st_FindTokenStates S c subject kinds) hashed_list"
    and delete_all: "keeps I (st_DeleteTokenStates S c subject kinds) (\<lambda>_. True)"
    and save_session: "keeps I (st_SaveSession S c session ttl) (\<lambda>_. True)"
    and get_session: "keeps I (st_GetSession S c subject) (\<lambda>_. True)"
    and delete_session: "keeps I (st_DeleteSession S c subject) (\<lambda>_. True)"

locale atomic_store = observed_world I
  for I :: "'x env_scheme \<Rightarrow> bool" +
  fixes A :: "'x env_scheme atomic_ops"
  assumes cas: "hashed_state n \<Longrightarrow>
      keeps I (at_CompareAndSwapTokenState A c (Some e) (Some n) ttl) (\<lambda>_. True)"
    and consume_kind: "keeps I (at_ConsumeTokenStateOfKind A c k kind) hashed_opt"
    and ensure: "keeps I (at_EnsureSession A c subject ttl) (\<lambda>_. True)"

text \<open>A pure step that may fail, such as a conversion, among the steps with effects.\<close>

definition from_sum :: "error + 'a \<Rightarrow> ('w, error, 'a) op" where
  "from_sum r = (case r of Inl e \<Rightarrow> throw e | Inr x \<Rightarrow> ret x)"

end
