(* ===== verification/State_Json.thy ===== *)
theory State_Json
  imports Go_Json Store_Port
begin

text \<open>
  The JSON of a token state, as the struct tags of \<open>core/token_state.go\<close> give it to
  \<open>encoding/json\<close>: the members that are written, those left out when empty, and how the members of
  a text are read into the fields. The message of a JSON error is not modelled.
\<close>

definition json_error :: error where
  "json_error = ErrLibrary ''json''"

subsection \<open>Writing\<close>

type_synonym members = "(string \<times> json) list"

definition string_value :: "string \<Rightarrow> json" where
  "string_value s = JString (json_quote s)"

definition time_value :: "time \<Rightarrow> json option" where
  "time_value t = map_option JString (format_time t)"

text \<open>\<open>omitempty\<close> on a string and on a pointer.\<close>

definition omit_string :: "string \<Rightarrow> string \<Rightarrow> members" where
  "omit_string name s = (if s = [] then [] else [(name, string_value s)])"

definition omit_nil :: "string \<Rightarrow> ('a \<Rightarrow> json option) \<Rightarrow> 'a option \<Rightarrow> members option" where
  "omit_nil name enc p = (case p of None \<Rightarrow> Some [] | Some x \<Rightarrow> map_option (\<lambda>v. [(name, v)]) (enc x))"

definition RefreshInfo_json :: "RefreshInfo \<Rightarrow> json option" where
  "RefreshInfo_json i =
     Option.bind (omit_nil ''last_used_at'' time_value (ri_LastUsedAt i)) (\<lambda>used.
     Option.bind (omit_nil ''revoked_at'' time_value (ri_RevokedAt i)) (\<lambda>revoked.
     Some (JObject (omit_string ''access_token'' (ri_AccessToken i) @ omit_string ''rotated_from'' (ri_RotatedFrom i)
       @ omit_string ''rotated_to'' (ri_RotatedTo i) @ used @ revoked))))"

definition NonceInfo_json :: "NonceInfo \<Rightarrow> json option" where
  "NonceInfo_json i =
     Option.bind (omit_nil ''consumed_at'' time_value (ni_ConsumedAt i)) (\<lambda>consumed.
     Some (JObject (omit_string ''purpose'' (ni_Purpose i) @ consumed)))"

definition OnlineInfo_json :: "OnlineInfo \<Rightarrow> json option" where
  "OnlineInfo_json i =
     Option.bind (omit_nil ''online_at'' time_value (oi_OnlineAt i)) (\<lambda>online.
     Option.bind (omit_nil ''offline_at'' time_value (oi_OfflineAt i)) (\<lambda>offline.
     Some (JObject (online @ offline @ omit_string ''connection_id'' (oi_ConnectionID i)
       @ omit_string ''user_agent'' (oi_UserAgent i) @ omit_string ''ip'' (oi_IP i)))))"

definition metadata_json :: "RawMessage \<Rightarrow> members option" where
  "metadata_json raw =
     (case raw of
        None \<Rightarrow> Some []
      | Some m \<Rightarrow> if m = [] then Some [] else map_option (\<lambda>v. [(''metadata'', json_html v)]) (json_parse m))"

definition TokenState_json :: "TokenState \<Rightarrow> json option" where
  "TokenState_json s =
     Option.bind (time_value (ts_CreatedAt s)) (\<lambda>created.
     Option.bind (time_value (ts_LastActiveAt s)) (\<lambda>active.
     Option.bind (omit_nil ''expires_at'' time_value (ts_ExpiresAt s)) (\<lambda>expires.
     Option.bind (metadata_json (ts_Metadata s)) (\<lambda>metadata.
     Option.bind (omit_nil ''refresh'' RefreshInfo_json (ts_Refresh s)) (\<lambda>refresh.
     Option.bind (omit_nil ''nonce'' NonceInfo_json (ts_Nonce s)) (\<lambda>nonce.
     Option.bind (omit_nil ''online'' OnlineInfo_json (ts_Online s)) (\<lambda>online.
     Some (JObject
       ([(''token'', string_value (ts_Token s)), (''kind'', string_value (ts_Kind s)),
         (''login_id'', string_value (ts_LoginID s)), (''login_type'', string_value (ts_LoginType s))]
        @ omit_string ''device'' (ts_Device s)
        @ [(''created_at'', created), (''last_active_at'', active)] @ expires
        @ [(''status'', string_value (ts_Status s))]
        @ metadata @ refresh @ nonce @ online)))))))))"

definition TokenState_Marshal :: "TokenState \<Rightarrow> error + string" where
  "TokenState_Marshal s =
     (case TokenState_json s of None \<Rightarrow> Inl json_error | Some v \<Rightarrow> Inr (json_print v))"

subsection \<open>Reading\<close>

text \<open>The field of a key: by exact name, else by a name that differs in case only.\<close>

definition field_name :: "string list \<Rightarrow> string \<Rightarrow> string option" where
  "field_name names k = (if k \<in> set names then Some k else find (\<lambda>n. EqualFold n k) names)"

definition decode_string :: "json \<Rightarrow> string \<Rightarrow> string option" where
  "decode_string v old =
     (case v of JString t \<Rightarrow> Some (json_unquote t) | JNull \<Rightarrow> Some old | _ \<Rightarrow> None)"

definition decode_time :: "json \<Rightarrow> time \<Rightarrow> time option" where
  "decode_time v old = (case v of JString t \<Rightarrow> parse_time t | JNull \<Rightarrow> Some old | _ \<Rightarrow> None)"

definition decode_time_ptr :: "json \<Rightarrow> time option option" where
  "decode_time_ptr v =
     (case v of JString t \<Rightarrow> map_option Some (parse_time t) | JNull \<Rightarrow> Some None | _ \<Rightarrow> None)"

text \<open>The members are read in their order; a later one overwrites. An error of any member is an
  error of the whole.\<close>

fun foldO :: "('m \<Rightarrow> 'r \<Rightarrow> 'r option) \<Rightarrow> 'm list \<Rightarrow> 'r \<Rightarrow> 'r option" where
  "foldO f [] r = Some r"
| "foldO f (m # ms) r = Option.bind (f m r) (foldO f ms)"

definition decode_ptr :: "(string \<times> json \<Rightarrow> 'r \<Rightarrow> 'r option) \<Rightarrow> 'r \<Rightarrow> json \<Rightarrow> 'r option \<Rightarrow> 'r option option" where
  "decode_ptr member zero v old =
     (case v of
        JNull \<Rightarrow> Some None
      | JObject ms \<Rightarrow> map_option Some (foldO member ms (case old of None \<Rightarrow> zero | Some x \<Rightarrow> x))
      | _ \<Rightarrow> None)"

definition refresh_fields :: "string list" where
  "refresh_fields = [''access_token'', ''rotated_from'', ''rotated_to'', ''last_used_at'', ''revoked_at'']"

definition RefreshInfo_member :: "string \<times> json \<Rightarrow> RefreshInfo \<Rightarrow> RefreshInfo option" where
  "RefreshInfo_member = (\<lambda>(k, v) i.
     let f = field_name refresh_fields (json_unquote k)
     in if f = Some ''access_token''
        then map_option (\<lambda>x. i\<lparr>ri_AccessToken := x\<rparr>) (decode_string v (ri_AccessToken i))
        else if f = Some ''rotated_from''
        then map_option (\<lambda>x. i\<lparr>ri_RotatedFrom := x\<rparr>) (decode_string v (ri_RotatedFrom i))
        else if f = Some ''rotated_to''
        then map_option (\<lambda>x. i\<lparr>ri_RotatedTo := x\<rparr>) (decode_string v (ri_RotatedTo i))
        else if f = Some ''last_used_at'' then map_option (\<lambda>x. i\<lparr>ri_LastUsedAt := x\<rparr>) (decode_time_ptr v)
        else if f = Some ''revoked_at'' then map_option (\<lambda>x. i\<lparr>ri_RevokedAt := x\<rparr>) (decode_time_ptr v)
        else Some i)"

definition nonce_fields :: "string list" where
  "nonce_fields = [''purpose'', ''consumed_at'']"

definition NonceInfo_member :: "string \<times> json \<Rightarrow> NonceInfo \<Rightarrow> NonceInfo option" where
  "NonceInfo_member = (\<lambda>(k, v) i.
     let f = field_name nonce_fields (json_unquote k)
     in if f = Some ''purpose'' then map_option (\<lambda>x. i\<lparr>ni_Purpose := x\<rparr>) (decode_string v (ni_Purpose i))
        else if f = Some ''consumed_at'' then map_option (\<lambda>x. i\<lparr>ni_ConsumedAt := x\<rparr>) (decode_time_ptr v)
        else Some i)"

definition online_fields :: "string list" where
  "online_fields = [''online_at'', ''offline_at'', ''connection_id'', ''user_agent'', ''ip'']"

definition OnlineInfo_member :: "string \<times> json \<Rightarrow> OnlineInfo \<Rightarrow> OnlineInfo option" where
  "OnlineInfo_member = (\<lambda>(k, v) i.
     let f = field_name online_fields (json_unquote k)
     in if f = Some ''online_at'' then map_option (\<lambda>x. i\<lparr>oi_OnlineAt := x\<rparr>) (decode_time_ptr v)
        else if f = Some ''offline_at'' then map_option (\<lambda>x. i\<lparr>oi_OfflineAt := x\<rparr>) (decode_time_ptr v)
        else if f = Some ''connection_id''
        then map_option (\<lambda>x. i\<lparr>oi_ConnectionID := x\<rparr>) (decode_string v (oi_ConnectionID i))
        else if f = Some ''user_agent''
        then map_option (\<lambda>x. i\<lparr>oi_UserAgent := x\<rparr>) (decode_string v (oi_UserAgent i))
        else if f = Some ''ip'' then map_option (\<lambda>x. i\<lparr>oi_IP := x\<rparr>) (decode_string v (oi_IP i))
        else Some i)"

definition empty_NonceInfo :: NonceInfo where
  "empty_NonceInfo = \<lparr>ni_Purpose = [], ni_ConsumedAt = None\<rparr>"

definition zero_TokenState :: TokenState where
  "zero_TokenState = \<lparr>ts_Token = [], ts_Kind = [], ts_LoginID = [], ts_LoginType = [], ts_Device = [],
     ts_CreatedAt = zero_time, ts_LastActiveAt = zero_time, ts_ExpiresAt = None, ts_Status = [],
     ts_Metadata = None, ts_Refresh = None, ts_Nonce = None, ts_Online = None\<rparr>"

definition state_fields :: "string list" where
  "state_fields = [''token'', ''kind'', ''login_id'', ''login_type'', ''device'', ''created_at'',
     ''last_active_at'', ''expires_at'', ''status'', ''metadata'', ''refresh'', ''nonce'', ''online'']"

text \<open>A raw message keeps the text of its value, \<open>null\<close> included.\<close>

definition TokenState_member :: "string \<times> string \<times> json \<Rightarrow> TokenState \<Rightarrow> TokenState option" where
  "TokenState_member = (\<lambda>(k, raw, v) s.
     let f = field_name state_fields (json_unquote k)
     in if f = Some ''token'' then map_option (\<lambda>x. s\<lparr>ts_Token := x\<rparr>) (decode_string v (ts_Token s))
        else if f = Some ''kind'' then map_option (\<lambda>x. s\<lparr>ts_Kind := x\<rparr>) (decode_string v (ts_Kind s))
        else if f = Some ''login_id'' then map_option (\<lambda>x. s\<lparr>ts_LoginID := x\<rparr>) (decode_string v (ts_LoginID s))
        else if f = Some ''login_type''
        then map_option (\<lambda>x. s\<lparr>ts_LoginType := x\<rparr>) (decode_string v (ts_LoginType s))
        else if f = Some ''device'' then map_option (\<lambda>x. s\<lparr>ts_Device := x\<rparr>) (decode_string v (ts_Device s))
        else if f = Some ''created_at''
        then map_option (\<lambda>x. s\<lparr>ts_CreatedAt := x\<rparr>) (decode_time v (ts_CreatedAt s))
        else if f = Some ''last_active_at''
        then map_option (\<lambda>x. s\<lparr>ts_LastActiveAt := x\<rparr>) (decode_time v (ts_LastActiveAt s))
        else if f = Some ''expires_at'' then map_option (\<lambda>x. s\<lparr>ts_ExpiresAt := x\<rparr>) (decode_time_ptr v)
        else if f = Some ''status'' then map_option (\<lambda>x. s\<lparr>ts_Status := x\<rparr>) (decode_string v (ts_Status s))
        else if f = Some ''metadata'' then Some (s\<lparr>ts_Metadata := Some raw\<rparr>)
        else if f = Some ''refresh''
        then map_option (\<lambda>x. s\<lparr>ts_Refresh := x\<rparr>) (decode_ptr RefreshInfo_member empty_RefreshInfo v (ts_Refresh s))
        else if f = Some ''nonce''
        then map_option (\<lambda>x. s\<lparr>ts_Nonce := x\<rparr>) (decode_ptr NonceInfo_member empty_NonceInfo v (ts_Nonce s))
        else if f = Some ''online''
        then map_option (\<lambda>x. s\<lparr>ts_Online := x\<rparr>) (decode_ptr OnlineInfo_member empty_OnlineInfo v (ts_Online s))
        else Some s)"

definition TokenState_Unmarshal :: "string \<Rightarrow> error + TokenState" where
  "TokenState_Unmarshal data =
     (case json_parse data of
        Some JNull \<Rightarrow> Inr zero_TokenState
      | Some (JObject _) \<Rightarrow>
          (case foldO TokenState_member (json_members data) zero_TokenState of
             None \<Rightarrow> Inl json_error | Some s \<Rightarrow> Inr s)
      | _ \<Rightarrow> Inl json_error)"
subsection \<open>What the journey makes of a state\<close>

text \<open>
  Bytes that are not UTF-8 become the replacement rune, and metadata is written compactly and
  escaped for HTML; nothing else changes.
\<close>

definition stored_string :: "string \<Rightarrow> string" where
  "stored_string s = json_unquote (json_quote s)"

definition RefreshInfo_image :: "RefreshInfo \<Rightarrow> RefreshInfo" where
  "RefreshInfo_image i = i\<lparr>ri_AccessToken := stored_string (ri_AccessToken i),
     ri_RotatedFrom := stored_string (ri_RotatedFrom i), ri_RotatedTo := stored_string (ri_RotatedTo i)\<rparr>"

definition NonceInfo_image :: "NonceInfo \<Rightarrow> NonceInfo" where
  "NonceInfo_image i = i\<lparr>ni_Purpose := stored_string (ni_Purpose i)\<rparr>"

definition OnlineInfo_image :: "OnlineInfo \<Rightarrow> OnlineInfo" where
  "OnlineInfo_image i = i\<lparr>oi_ConnectionID := stored_string (oi_ConnectionID i),
     oi_UserAgent := stored_string (oi_UserAgent i), oi_IP := stored_string (oi_IP i)\<rparr>"

definition metadata_image :: "RawMessage \<Rightarrow> RawMessage" where
  "metadata_image raw =
     Option.bind raw (\<lambda>m. if m = [] then None else map_option (\<lambda>v. json_print (json_html v)) (json_parse m))"

definition state_image :: "TokenState \<Rightarrow> TokenState" where
  "state_image s = s\<lparr>ts_Token := stored_string (ts_Token s), ts_Kind := stored_string (ts_Kind s),
     ts_LoginID := stored_string (ts_LoginID s), ts_LoginType := stored_string (ts_LoginType s),
     ts_Device := stored_string (ts_Device s), ts_Status := stored_string (ts_Status s),
     ts_Metadata := metadata_image (ts_Metadata s),
     ts_Refresh := map_option RefreshInfo_image (ts_Refresh s),
     ts_Nonce := map_option NonceInfo_image (ts_Nonce s),
     ts_Online := map_option OnlineInfo_image (ts_Online s)\<rparr>"

lemma stored_string_utf8 [simp]: "valid_utf8 s \<Longrightarrow> stored_string s = s"
  by (simp add: stored_string_def json_unquote_quote)

lemma stored_string_Nil [simp]: "stored_string [] = []"
  by simp

lemma json_unquote_plain:
  "list_all (\<lambda>c. c \<noteq> backslash \<and> (of_char c :: nat) < 128) s \<Longrightarrow> json_unquote s = s"
  by (induction s) (auto simp: json_unquote_ascii)

lemma string_ok_plain:
  "list_all (\<lambda>c. c \<noteq> backslash \<and> c \<noteq> quote_char \<and> 32 \<le> (of_char c :: nat)) s \<Longrightarrow> string_ok s"
  by (induction s) (auto simp: scan_Cons_ok)

lemma refresh_names [simp]:
  "field_name refresh_fields (json_unquote ''access_token'') = Some ''access_token''"
  "field_name refresh_fields (json_unquote ''rotated_from'') = Some ''rotated_from''"
  "field_name refresh_fields (json_unquote ''rotated_to'') = Some ''rotated_to''"
  "field_name refresh_fields (json_unquote ''last_used_at'') = Some ''last_used_at''"
  "field_name refresh_fields (json_unquote ''revoked_at'') = Some ''revoked_at''"
  "string_ok ''access_token''" "string_ok ''rotated_from''" "string_ok ''rotated_to''"
  "string_ok ''last_used_at''" "string_ok ''revoked_at''"
  by (simp_all add: json_unquote_plain string_ok_plain backslash_def quote_char_def field_name_def refresh_fields_def)

lemma nonce_names [simp]:
  "field_name nonce_fields (json_unquote ''purpose'') = Some ''purpose''"
  "field_name nonce_fields (json_unquote ''consumed_at'') = Some ''consumed_at''"
  "string_ok ''purpose''" "string_ok ''consumed_at''"
  by (simp_all add: json_unquote_plain string_ok_plain backslash_def quote_char_def field_name_def nonce_fields_def)

lemma online_names [simp]:
  "field_name online_fields (json_unquote ''online_at'') = Some ''online_at''"
  "field_name online_fields (json_unquote ''offline_at'') = Some ''offline_at''"
  "field_name online_fields (json_unquote ''connection_id'') = Some ''connection_id''"
  "field_name online_fields (json_unquote ''user_agent'') = Some ''user_agent''"
  "field_name online_fields (json_unquote ''ip'') = Some ''ip''"
  "string_ok ''online_at''" "string_ok ''offline_at''" "string_ok ''connection_id''"
  "string_ok ''user_agent''" "string_ok ''ip''"
  by (simp_all add: json_unquote_plain string_ok_plain backslash_def quote_char_def field_name_def online_fields_def)

lemma state_names [simp]:
  "field_name state_fields (json_unquote ''token'') = Some ''token''"
  "field_name state_fields (json_unquote ''kind'') = Some ''kind''"
  "field_name state_fields (json_unquote ''login_id'') = Some ''login_id''"
  "field_name state_fields (json_unquote ''login_type'') = Some ''login_type''"
  "field_name state_fields (json_unquote ''device'') = Some ''device''"
  "field_name state_fields (json_unquote ''created_at'') = Some ''created_at''"
  "field_name state_fields (json_unquote ''last_active_at'') = Some ''last_active_at''"
  "field_name state_fields (json_unquote ''expires_at'') = Some ''expires_at''"
  "field_name state_fields (json_unquote ''status'') = Some ''status''"
  "field_name state_fields (json_unquote ''metadata'') = Some ''metadata''"
  "field_name state_fields (json_unquote ''refresh'') = Some ''refresh''"
  "field_name state_fields (json_unquote ''nonce'') = Some ''nonce''"
  "field_name state_fields (json_unquote ''online'') = Some ''online''"
  "string_ok ''token''" "string_ok ''kind''" "string_ok ''login_id''" "string_ok ''login_type''"
  "string_ok ''device''" "string_ok ''created_at''" "string_ok ''last_active_at''" "string_ok ''expires_at''"
  "string_ok ''status''" "string_ok ''metadata''" "string_ok ''refresh''" "string_ok ''nonce''"
  "string_ok ''online''"
  by (simp_all add: json_unquote_plain string_ok_plain backslash_def quote_char_def field_name_def state_fields_def)

lemma foldO_append: "foldO f (xs @ ys) r = Option.bind (foldO f xs r) (foldO f ys)"
  by (induction xs arbitrary: r) (auto split: bind_splits)

lemma decode_string_value [simp]: "decode_string (string_value s) old = Some (stored_string s)"
  by (simp add: decode_string_def string_value_def stored_string_def)

lemma json_ok_string_value [simp]: "json_ok d (string_value s)"
  by (simp add: string_value_def)

text \<open>The text of an instant consists of digits and a few separators.\<close>

lemma format_time_string_ok: "format_time t = Some s \<Longrightarrow> string_ok s"
proof -
  have digit: "list_all (\<lambda>c. c \<noteq> backslash \<and> c \<noteq> quote_char \<and> 32 \<le> (of_char c :: nat)) ds"
    if "list_all is_digit ds" for ds
    using that by (auto simp: list_all_iff is_digit_def backslash_def quote_char_def)
  have fraction: "list_all (\<lambda>c. c \<noteq> backslash \<and> c \<noteq> quote_char \<and> 32 \<le> (of_char c :: nat)) (fraction ns)" for ns
  proof -
    define ds where "ds = rev (dropWhile (\<lambda>c. c = CHR ''0'') (rev (digits 9 ns)))"
    have "is_digit c" if "c \<in> set ds" for c
      using is_digit_digits [of 9 ns] that set_dropWhileD [of c "\<lambda>c. c = CHR ''0''" "rev (digits 9 ns)"]
      unfolding ds_def set_rev list_all_iff by blast
    then have "list_all is_digit ds" by (simp add: list_all_iff)
    moreover have "fraction ns = (if ds = [] then [] else CHR ''.'' # ds)"
      by (simp only: fraction_def Let_def ds_def)
    ultimately show ?thesis using digit [of ds] by (simp add: backslash_def quote_char_def)
  qed
  assume "format_time t = Some s"
  then show ?thesis
  proof (cases rule: format_time_shape)
    case (1 y m d h mi sec ns)
    note parts = digit [OF is_digit_digits] fraction
    show ?thesis unfolding 1(16)
      by (rule string_ok_plain, unfold list_all_append list.pred_inject)
        (simp only: parts simp_thms, simp add: backslash_def quote_char_def)
  qed
qed

lemma time_value_decode:
  assumes "time_value t = Some v"
  shows "json_ok d v" "decode_time v old = Some t" "decode_time_ptr v = Some (Some t)"
  using assms by (auto simp: time_value_def decode_time_def decode_time_ptr_def parse_format_time
      format_time_string_ok)

text \<open>Optional members: what is written is \<open>json_ok\<close>, and reading it sets the field.\<close>

definition members_ok :: "nat \<Rightarrow> members \<Rightarrow> bool" where
  "members_ok d ms \<longleftrightarrow> list_all (\<lambda>(k, v). string_ok k \<and> json_ok d v) ms"

lemma members_ok_simps [simp]:
  "members_ok d []" "members_ok d ((k, v) # ms) \<longleftrightarrow> string_ok k \<and> json_ok d v \<and> members_ok d ms"
  "members_ok d (xs @ ys) \<longleftrightarrow> members_ok d xs \<and> members_ok d ys"
  by (simp_all add: members_ok_def)

lemma json_ok_JObject: "json_ok d (JObject ms) \<longleftrightarrow> 0 < d \<and> members_ok (d - 1) ms"
  by (simp add: members_ok_def)

lemma omit_string_ok [simp]: "string_ok k \<Longrightarrow> members_ok d (omit_string k s)"
  by (simp add: omit_string_def)

text \<open>An optional member, written with an encoder and read with a decoder that match.\<close>

lemma omit_nil_part:
  assumes "omit_nil k enc p = Some ms" and "string_ok k"
    and "\<And>x v. enc x = Some v \<Longrightarrow> json_ok d v \<and> dec v = Some (Some (img x))"
  shows "members_ok d ms \<and> (p = None \<and> ms = [] \<or> (\<exists>v. ms = [(k, v)] \<and> dec v = Some (map_option img p)))"
  using assms by (cases p) (auto simp: omit_nil_def)

lemma omit_nil_time:
  assumes "omit_nil k time_value p = Some ms" and "string_ok k"
  shows "members_ok d ms \<and> (p = None \<and> ms = [] \<or> (\<exists>v. ms = [(k, v)] \<and> decode_time_ptr v = Some p))"
  using omit_nil_part [OF assms, of d decode_time_ptr "\<lambda>x. x"] time_value_decode by (simp add: option.map_ident)

lemma RefreshInfo_json_decode:
  assumes "RefreshInfo_json i = Some v" and "0 < d"
  shows "json_ok d v \<and> decode_ptr RefreshInfo_member empty_RefreshInfo v None = Some (Some (RefreshInfo_image i))"
proof -
  let ?strings = "omit_string ''access_token'' (ri_AccessToken i) @ omit_string ''rotated_from'' (ri_RotatedFrom i)
    @ omit_string ''rotated_to'' (ri_RotatedTo i)"
  obtain us rs where us: "omit_nil ''last_used_at'' time_value (ri_LastUsedAt i) = Some us"
    and rs: "omit_nil ''revoked_at'' time_value (ri_RevokedAt i) = Some rs" and v: "v = JObject (?strings @ us @ rs)"
    using assms(1) by (auto simp: RefreshInfo_json_def bind_eq_Some_conv)
  note us = omit_nil_time [OF us refresh_names(9), of "d - 1"] and rs = omit_nil_time [OF rs refresh_names(10), of "d - 1"]
  have strings: "foldO RefreshInfo_member ?strings empty_RefreshInfo = Some (empty_RefreshInfo\<lparr>
      ri_AccessToken := stored_string (ri_AccessToken i), ri_RotatedFrom := stored_string (ri_RotatedFrom i),
      ri_RotatedTo := stored_string (ri_RotatedTo i)\<rparr>)"
    by (simp add: omit_string_def RefreshInfo_member_def empty_RefreshInfo_def)
  have used: "foldO RefreshInfo_member us r = Some (r\<lparr>ri_LastUsedAt := ri_LastUsedAt i\<rparr>)" if "ri_LastUsedAt r = None" for r
    using that us by (auto simp: RefreshInfo_member_def)
  have revoked: "foldO RefreshInfo_member rs r = Some (r\<lparr>ri_RevokedAt := ri_RevokedAt i\<rparr>)" if "ri_RevokedAt r = None" for r
    using that rs by (auto simp: RefreshInfo_member_def)
  have "foldO RefreshInfo_member (?strings @ us @ rs) empty_RefreshInfo = Some (RefreshInfo_image i)"
    unfolding foldO_append [of _ ?strings] strings
    by (simp add: foldO_append used revoked empty_RefreshInfo_def RefreshInfo_image_def)
  then show ?thesis
    using us rs assms(2) by (simp add: v json_ok_JObject decode_ptr_def del: json_ok.simps)
qed

lemma NonceInfo_json_decode:
  assumes "NonceInfo_json i = Some v" and "0 < d"
  shows "json_ok d v \<and> decode_ptr NonceInfo_member empty_NonceInfo v None = Some (Some (NonceInfo_image i))"
proof -
  let ?string = "omit_string ''purpose'' (ni_Purpose i)"
  obtain cs where cs: "omit_nil ''consumed_at'' time_value (ni_ConsumedAt i) = Some cs" and v: "v = JObject (?string @ cs)"
    using assms(1) by (auto simp: NonceInfo_json_def bind_eq_Some_conv)
  note cs = omit_nil_time [OF cs nonce_names(4), of "d - 1"]
  have string: "foldO NonceInfo_member ?string empty_NonceInfo = Some (empty_NonceInfo\<lparr>ni_Purpose := stored_string (ni_Purpose i)\<rparr>)"
    by (simp add: omit_string_def NonceInfo_member_def empty_NonceInfo_def)
  have consumed: "foldO NonceInfo_member cs r = Some (r\<lparr>ni_ConsumedAt := ni_ConsumedAt i\<rparr>)" if "ni_ConsumedAt r = None" for r
    using that cs by (auto simp: NonceInfo_member_def)
  have "foldO NonceInfo_member (?string @ cs) empty_NonceInfo = Some (NonceInfo_image i)"
    unfolding foldO_append string by (simp add: consumed empty_NonceInfo_def NonceInfo_image_def)
  then show ?thesis
    using cs assms(2) by (simp add: v json_ok_JObject decode_ptr_def del: json_ok.simps)
qed

lemma OnlineInfo_json_decode:
  assumes "OnlineInfo_json i = Some v" and "0 < d"
  shows "json_ok d v \<and> decode_ptr OnlineInfo_member empty_OnlineInfo v None = Some (Some (OnlineInfo_image i))"
proof -
  let ?strings = "omit_string ''connection_id'' (oi_ConnectionID i) @ omit_string ''user_agent'' (oi_UserAgent i)
    @ omit_string ''ip'' (oi_IP i)"
  obtain us rs where us: "omit_nil ''online_at'' time_value (oi_OnlineAt i) = Some us"
    and rs: "omit_nil ''offline_at'' time_value (oi_OfflineAt i) = Some rs" and v: "v = JObject (us @ rs @ ?strings)"
    using assms(1) by (auto simp: OnlineInfo_json_def bind_eq_Some_conv)
  note us = omit_nil_time [OF us online_names(6), of "d - 1"] and rs = omit_nil_time [OF rs online_names(7), of "d - 1"]
  have online: "foldO OnlineInfo_member us r = Some (r\<lparr>oi_OnlineAt := oi_OnlineAt i\<rparr>)" if "oi_OnlineAt r = None" for r
    using that us by (auto simp: OnlineInfo_member_def)
  have offline: "foldO OnlineInfo_member rs r = Some (r\<lparr>oi_OfflineAt := oi_OfflineAt i\<rparr>)" if "oi_OfflineAt r = None" for r
    using that rs by (auto simp: OnlineInfo_member_def)
  have strings: "foldO OnlineInfo_member ?strings r = Some (r\<lparr>oi_ConnectionID := stored_string (oi_ConnectionID i),
      oi_UserAgent := stored_string (oi_UserAgent i), oi_IP := stored_string (oi_IP i)\<rparr>)"
    if "oi_ConnectionID r = []" "oi_UserAgent r = []" "oi_IP r = []" for r
    using that by (simp add: omit_string_def OnlineInfo_member_def)
  have "foldO OnlineInfo_member (us @ rs @ ?strings) empty_OnlineInfo = Some (OnlineInfo_image i)"
    unfolding foldO_append [of _ us] foldO_append [of _ rs]
    by (simp add: online offline strings empty_OnlineInfo_def OnlineInfo_image_def)
  then show ?thesis
    using us rs assms(2) by (simp add: v json_ok_JObject decode_ptr_def del: json_ok.simps)
qed

lemma with_text_simps [simp]:
  "with_text [] = []" "with_text ((k, v) # ms) = (k, json_print v, v) # with_text ms"
  "with_text (xs @ ys) = with_text xs @ with_text ys"
  by (simp_all add: with_text_def)

lemma maxNestingDepth_pos: "0 < maxNestingDepth" "0 < maxNestingDepth - 1" "Suc (maxNestingDepth - 1) = maxNestingDepth"
  by (simp_all add: maxNestingDepth_def)

lemma metadata_part:
  assumes "metadata_json raw = Some ms" and "\<And>m v. raw = Some m \<Longrightarrow> json_parse m = Some v \<Longrightarrow> json_ok d v"
  shows "members_ok d ms
    \<and> (metadata_image raw = None \<and> ms = [] \<or> (\<exists>v. ms = [(''metadata'', v)] \<and> metadata_image raw = Some (json_print v)))"
  using assms by (auto simp: metadata_json_def metadata_image_def json_ok_html
      split: option.splits if_splits)

lemma TokenState_json_decode:
  assumes "TokenState_json s = Some v" and d: "0 < d"
    and depth: "\<And>m v. ts_Metadata s = Some m \<Longrightarrow> json_parse m = Some v \<Longrightarrow> json_ok d v"
  obtains ms where "v = JObject ms" "json_ok (Suc d) v"
    "foldO TokenState_member (with_text ms) zero_TokenState = Some (state_image s)"
proof -
  let ?names = "[(''token'', string_value (ts_Token s)), (''kind'', string_value (ts_Kind s)),
      (''login_id'', string_value (ts_LoginID s)), (''login_type'', string_value (ts_LoginType s))]
      @ omit_string ''device'' (ts_Device s)"
  obtain ca la es ms rs ns os where ca: "time_value (ts_CreatedAt s) = Some ca" and la: "time_value (ts_LastActiveAt s) = Some la"
    and es: "omit_nil ''expires_at'' time_value (ts_ExpiresAt s) = Some es" and ms: "metadata_json (ts_Metadata s) = Some ms"
    and rs: "omit_nil ''refresh'' RefreshInfo_json (ts_Refresh s) = Some rs"
    and ns: "omit_nil ''nonce'' NonceInfo_json (ts_Nonce s) = Some ns"
    and os: "omit_nil ''online'' OnlineInfo_json (ts_Online s) = Some os"
    and v: "v = JObject (?names @ [(''created_at'', ca), (''last_active_at'', la)] @ es
        @ [(''status'', string_value (ts_Status s))] @ ms @ rs @ ns @ os)"
    using assms(1) unfolding TokenState_json_def bind_eq_Some_conv append_assoc by blast
  have ca: "json_ok d ca" "decode_time ca zero_time = Some (ts_CreatedAt s)"
    and la: "json_ok d la" "decode_time la zero_time = Some (ts_LastActiveAt s)"
    using time_value_decode [OF ca] time_value_decode [OF la] by simp_all
  note es = omit_nil_time [OF es state_names(21), of d]
  have ms: "members_ok d ms \<and> (metadata_image (ts_Metadata s) = None \<and> ms = []
      \<or> (\<exists>v. ms = [(''metadata'', v)] \<and> metadata_image (ts_Metadata s) = Some (json_print v)))"
    by (rule metadata_part [OF ms depth])
  have rs: "members_ok d rs \<and> (ts_Refresh s = None \<and> rs = [] \<or> (\<exists>v. rs = [(''refresh'', v)] \<and>
      decode_ptr RefreshInfo_member empty_RefreshInfo v None = Some (map_option RefreshInfo_image (ts_Refresh s))))"
    by (rule omit_nil_part [OF rs state_names(24) RefreshInfo_json_decode [OF _ d]])
  have ns: "members_ok d ns \<and> (ts_Nonce s = None \<and> ns = [] \<or> (\<exists>v. ns = [(''nonce'', v)] \<and>
      decode_ptr NonceInfo_member empty_NonceInfo v None = Some (map_option NonceInfo_image (ts_Nonce s))))"
    by (rule omit_nil_part [OF ns state_names(25) NonceInfo_json_decode [OF _ d]])
  have os: "members_ok d os \<and> (ts_Online s = None \<and> os = [] \<or> (\<exists>v. os = [(''online'', v)] \<and>
      decode_ptr OnlineInfo_member empty_OnlineInfo v None = Some (map_option OnlineInfo_image (ts_Online s))))"
    by (rule omit_nil_part [OF os state_names(26) OnlineInfo_json_decode [OF _ d]])
  have names: "foldO TokenState_member (with_text ?names) zero_TokenState = Some (zero_TokenState\<lparr>
      ts_Token := stored_string (ts_Token s), ts_Kind := stored_string (ts_Kind s),
      ts_LoginID := stored_string (ts_LoginID s), ts_LoginType := stored_string (ts_LoginType s),
      ts_Device := stored_string (ts_Device s)\<rparr>)"
    by (simp add: omit_string_def TokenState_member_def zero_TokenState_def)
  have created: "TokenState_member (''created_at'', raw, ca) r = Some (r\<lparr>ts_CreatedAt := ts_CreatedAt s\<rparr>)"
    if "ts_CreatedAt r = zero_time" for raw r using that ca(2) by (simp add: TokenState_member_def)
  have active: "TokenState_member (''last_active_at'', raw, la) r = Some (r\<lparr>ts_LastActiveAt := ts_LastActiveAt s\<rparr>)"
    if "ts_LastActiveAt r = zero_time" for raw r using that la(2) by (simp add: TokenState_member_def)
  have status: "TokenState_member (''status'', raw, string_value (ts_Status s)) r = Some (r\<lparr>ts_Status := stored_string (ts_Status s)\<rparr>)"
    for raw r by (simp add: TokenState_member_def)
  have expires: "foldO TokenState_member (with_text es) r = Some (r\<lparr>ts_ExpiresAt := ts_ExpiresAt s\<rparr>)" if "ts_ExpiresAt r = None" for r
    using that es by (auto simp: TokenState_member_def)
  have meta: "foldO TokenState_member (with_text ms) r = Some (r\<lparr>ts_Metadata := metadata_image (ts_Metadata s)\<rparr>)" if "ts_Metadata r = None" for r
    using that ms by (auto simp: TokenState_member_def)
  have refresh: "foldO TokenState_member (with_text rs) r = Some (r\<lparr>ts_Refresh := map_option RefreshInfo_image (ts_Refresh s)\<rparr>)"
    if "ts_Refresh r = None" for r using that rs by (auto simp: TokenState_member_def)
  have nonce: "foldO TokenState_member (with_text ns) r = Some (r\<lparr>ts_Nonce := map_option NonceInfo_image (ts_Nonce s)\<rparr>)"
    if "ts_Nonce r = None" for r using that ns by (auto simp: TokenState_member_def)
  have online: "foldO TokenState_member (with_text os) r = Some (r\<lparr>ts_Online := map_option OnlineInfo_image (ts_Online s)\<rparr>)"
    if "ts_Online r = None" for r using that os by (auto simp: TokenState_member_def)
  let ?all = "?names @ [(''created_at'', ca), (''last_active_at'', la)] @ es
        @ [(''status'', string_value (ts_Status s))] @ ms @ rs @ ns @ os"
  have "foldO TokenState_member (with_text ?all) zero_TokenState = Some (state_image s)"
    unfolding with_text_simps(3) [of ?names] foldO_append [of _ "with_text ?names"] names
    by (simp add: created active zero_TokenState_def foldO_append expires meta refresh nonce online status state_image_def)
  moreover have "json_ok (Suc d) v"
    using ca(1) la(1) es ms rs ns os by (simp add: v json_ok_JObject del: json_ok.simps)
  ultimately show thesis using that v by blast
qed

text \<open>Whatever is read back from what was written is the image of the state.\<close>

lemma Unmarshal_Marshal_image:
  assumes "TokenState_Marshal s = Inr d" and "TokenState_Unmarshal d = Inr s'"
  shows "s' = state_image s"
proof -
  from assms(1) obtain v where v: "TokenState_json s = Some v" and d: "d = json_print v"
    by (auto simp: TokenState_Marshal_def split: option.splits)
  obtain ms where ms: "v = JObject ms" "json_ok (Suc maxNestingDepth) v"
    and image: "foldO TokenState_member (with_text ms) zero_TokenState = Some (state_image s)"
    by (rule TokenState_json_decode [OF v maxNestingDepth_pos(1) json_parse_ok])
  from assms(2) obtain x where x: "json_parse d = Some x" by (auto simp: TokenState_Unmarshal_def split: option.splits)
  from json_parse_print_determined [OF ms(2)] x d have "x = v" "json_ok maxNestingDepth v" by simp_all
  with json_members_print [of ms] ms(1) d x image assms(2) show ?thesis
    by (simp add: TokenState_Unmarshal_def del: json_print.simps)
qed

subsection \<open>States that survive\<close>

text \<open>
  A state whose strings are UTF-8, whose years have four digits, and whose metadata is JSON in the
  form in which it is written.
\<close>

definition time_ok :: "time \<Rightarrow> bool" where
  "time_ok t \<longleftrightarrow> format_time t \<noteq> None"

definition option_all :: "('a \<Rightarrow> bool) \<Rightarrow> 'a option \<Rightarrow> bool" where
  "option_all P x = (case x of None \<Rightarrow> True | Some y \<Rightarrow> P y)"

definition refresh_plain :: "RefreshInfo \<Rightarrow> bool" where
  "refresh_plain i \<longleftrightarrow> valid_utf8 (ri_AccessToken i) \<and> valid_utf8 (ri_RotatedFrom i) \<and> valid_utf8 (ri_RotatedTo i)
     \<and> option_all time_ok (ri_LastUsedAt i) \<and> option_all time_ok (ri_RevokedAt i)"

definition nonce_plain :: "NonceInfo \<Rightarrow> bool" where
  "nonce_plain i \<longleftrightarrow> valid_utf8 (ni_Purpose i) \<and> option_all time_ok (ni_ConsumedAt i)"

definition online_plain :: "OnlineInfo \<Rightarrow> bool" where
  "online_plain i \<longleftrightarrow> valid_utf8 (oi_ConnectionID i) \<and> valid_utf8 (oi_UserAgent i) \<and> valid_utf8 (oi_IP i)
     \<and> option_all time_ok (oi_OnlineAt i) \<and> option_all time_ok (oi_OfflineAt i)"

definition state_plain :: "TokenState \<Rightarrow> bool" where
  "state_plain s \<longleftrightarrow> valid_utf8 (ts_Token s) \<and> valid_utf8 (ts_Kind s) \<and> valid_utf8 (ts_LoginID s)
     \<and> valid_utf8 (ts_LoginType s) \<and> valid_utf8 (ts_Device s) \<and> valid_utf8 (ts_Status s)
     \<and> time_ok (ts_CreatedAt s) \<and> time_ok (ts_LastActiveAt s) \<and> option_all time_ok (ts_ExpiresAt s)
     \<and> option_all (raw_ok (maxNestingDepth - 1)) (ts_Metadata s) \<and> option_all refresh_plain (ts_Refresh s)
     \<and> option_all nonce_plain (ts_Nonce s) \<and> option_all online_plain (ts_Online s)"

lemma option_all_simps [simp]: "option_all P None" "option_all P (Some x) = P x"
  by (simp_all add: option_all_def)

lemma omit_nil_succeeds:
  "option_all P p \<Longrightarrow> (\<And>x. P x \<Longrightarrow> \<exists>v. enc x = Some v) \<Longrightarrow> \<exists>ms. omit_nil k enc p = Some ms"
  by (cases p) (auto simp: omit_nil_def)

lemma time_succeeds: "time_ok t \<Longrightarrow> \<exists>v. time_value t = Some v"
  by (auto simp: time_ok_def time_value_def)

lemma omit_time_succeeds: "option_all time_ok p \<Longrightarrow> \<exists>ms. omit_nil k time_value p = Some ms"
  using omit_nil_succeeds time_succeeds by blast

lemma refresh_plain_json: "refresh_plain i \<Longrightarrow> \<exists>v. RefreshInfo_json i = Some v"
  using omit_time_succeeds [of "ri_LastUsedAt i" "''last_used_at''"] omit_time_succeeds [of "ri_RevokedAt i" "''revoked_at''"]
  by (auto simp: refresh_plain_def RefreshInfo_json_def)

lemma nonce_plain_json: "nonce_plain i \<Longrightarrow> \<exists>v. NonceInfo_json i = Some v"
  using omit_time_succeeds [of "ni_ConsumedAt i" "''consumed_at''"] by (auto simp: nonce_plain_def NonceInfo_json_def)

lemma online_plain_json: "online_plain i \<Longrightarrow> \<exists>v. OnlineInfo_json i = Some v"
  using omit_time_succeeds [of "oi_OnlineAt i" "''online_at''"] omit_time_succeeds [of "oi_OfflineAt i" "''offline_at''"]
  by (auto simp: online_plain_def OnlineInfo_json_def)

lemma raw_ok_metadata:
  assumes "option_all (raw_ok d) raw"
  shows "metadata_json raw \<noteq> None" "metadata_image raw = raw"
    "raw = Some m \<Longrightarrow> json_parse m = Some v \<Longrightarrow> json_ok d v"
proof -
  have "m \<noteq> []" if "raw_ok d m" for m using that json_print_ne by (elim raw_okE) fastforce
  then show "metadata_json raw \<noteq> None" "metadata_image raw = raw"
    using assms by (auto simp: metadata_json_def metadata_image_def option_all_def raw_ok_def split: option.splits)
  show "raw = Some m \<Longrightarrow> json_parse m = Some v \<Longrightarrow> json_ok d v"
    using assms by (auto simp: raw_ok_def split: option.splits)
qed

lemma state_plain_image: "state_plain s \<Longrightarrow> state_image s = s"
proof -
  assume s: "state_plain s"
  have "map_option RefreshInfo_image (ts_Refresh s) = ts_Refresh s"
    using s by (cases "ts_Refresh s") (simp_all add: state_plain_def refresh_plain_def RefreshInfo_image_def)
  moreover have "map_option NonceInfo_image (ts_Nonce s) = ts_Nonce s"
    using s by (cases "ts_Nonce s") (simp_all add: state_plain_def nonce_plain_def NonceInfo_image_def)
  moreover have "map_option OnlineInfo_image (ts_Online s) = ts_Online s"
    using s by (cases "ts_Online s") (simp_all add: state_plain_def online_plain_def OnlineInfo_image_def)
  moreover have "metadata_image (ts_Metadata s) = ts_Metadata s"
    using s raw_ok_metadata(2) [of "maxNestingDepth - 1" "ts_Metadata s"] by (simp add: state_plain_def)
  ultimately show ?thesis using s by (simp add: state_plain_def state_image_def)
qed

lemma state_roundtrip:
  assumes s: "state_plain s"
  obtains d where "TokenState_Marshal s = Inr d" "TokenState_Unmarshal d = Inr s"
proof -
  note p = s [unfolded state_plain_def]
  have meta: "option_all (raw_ok (maxNestingDepth - 1)) (ts_Metadata s)" using p by simp
  obtain v where v: "TokenState_json s = Some v"
    using p raw_ok_metadata(1) [OF meta] time_succeeds [of "ts_CreatedAt s"] time_succeeds [of "ts_LastActiveAt s"]
      omit_time_succeeds [of "ts_ExpiresAt s" "''expires_at''"]
      omit_nil_succeeds [of refresh_plain "ts_Refresh s" RefreshInfo_json "''refresh''", OF _ refresh_plain_json]
      omit_nil_succeeds [of nonce_plain "ts_Nonce s" NonceInfo_json "''nonce''", OF _ nonce_plain_json]
      omit_nil_succeeds [of online_plain "ts_Online s" OnlineInfo_json "''online''", OF _ online_plain_json]
    by (auto simp: TokenState_json_def)
  obtain ms where ms: "v = JObject ms" "json_ok (Suc (maxNestingDepth - 1)) v"
    and image: "foldO TokenState_member (with_text ms) zero_TokenState = Some (state_image s)"
    by (rule TokenState_json_decode [OF v maxNestingDepth_pos(2) raw_ok_metadata(3) [OF meta]])
  have ok: "json_ok maxNestingDepth (JObject ms)" using ms by (simp only: maxNestingDepth_pos(3))
  show thesis
    by (rule that [of "json_print v"])
      (use v ms(1) image json_parse_print [OF ok] json_members_print [OF ok] state_plain_image [OF s]
        in \<open>simp_all add: TokenState_Marshal_def TokenState_Unmarshal_def del: json_print.simps\<close>)
qed


subsection \<open>What survives in every case\<close>

text \<open>A hash is ASCII, so that the token fields of a hashed state stay as they are.\<close>

lemma ascii_utf8: "\<forall>c \<in> set s. (of_char c :: nat) < 128 \<Longrightarrow> valid_utf8 s"
  by (induction s) (auto simp: valid_utf8.simps(2))

lemma stored_key [simp]: "key_or_empty k \<Longrightarrow> stored_string k = k"
proof -
  have "\<forall>c \<in> set hex_table. (of_char c :: nat) < 128" by (simp add: hex_table_def)
  then have "valid_utf8 k" if "is_store_key k" for k
    using is_store_key_shape [OF that] by (intro ascii_utf8) blast
  then show "key_or_empty k \<Longrightarrow> stored_string k = k" by (auto simp: key_or_empty_def)
qed

lemma hashed_state_image: "hashed_state s \<Longrightarrow> hashed_state (state_image s)"
  by (auto simp: hashed_state_def hashed_refresh_def state_image_def RefreshInfo_image_def
      split: option.split)

lemma hashed_Unmarshal:
  "TokenState_Marshal s = Inr d \<Longrightarrow> hashed_state s \<Longrightarrow> TokenState_Unmarshal d = Inr s' \<Longrightarrow> hashed_state s'"
  using Unmarshal_Marshal_image hashed_state_image by blast

end
