(* ===== verification/Session_Numbers.thy ===== *)
theory Session_Numbers
  imports Session Go_Numbers
begin

text \<open>
  The numeric getters of \<open>core/session.go\<close>: \<open>GetInt64\<close> with its normalisation of decimal and
  exponent notation by digits, and \<open>GetInt\<close>. They are exact: the result is the number that was
  stored when it is an integer in the range of the result, and zero otherwise.
\<close>

subsection \<open>The getters\<close>

fun index_char :: "(char \<Rightarrow> bool) \<Rightarrow> string \<Rightarrow> nat option" where
  "index_char P [] = None"
| "index_char P (c # cs) = (if P c then Some 0 else map_option Suc (index_char P cs))"

definition trim_zeros_left :: "string \<Rightarrow> string" where
  "trim_zeros_left s = dropWhile (\<lambda>c. c = CHR ''0'') s"

definition trim_zeros :: "string \<Rightarrow> string" where
  "trim_zeros s = rev (trim_zeros_left (rev (trim_zeros_left s)))"

text \<open>The coefficient without leading zeros, times a power of ten. The quantities of the code are
  64-bit integers no larger than the length of the text and nineteen.\<close>

definition coefficient_Int64 :: "bool \<Rightarrow> int \<Rightarrow> string \<Rightarrow> int" where
  "coefficient_Int64 negative exponent text =
     (case (if exponent < 0
            then let remove = - exponent
                 in if remove > int (length text) then None
                    else let split = length text - nat remove
                         in if trim_zeros (drop split text) \<noteq> [] then None
                            else Some (0, take split text)
            else Some (exponent, text)) of
        None \<Rightarrow> 0
      | Some (exponent, text) \<Rightarrow>
          if int (length text) + exponent > 19 then 0
          else
            let text = text @ replicate (nat exponent) CHR ''0'';
                text = (if negative then ''-'' @ text else text)
            in case ParseInt text of None \<Rightarrow> 0 | Some result \<Rightarrow> result)"

text \<open>The text without its sign, after the exponent is cut off.\<close>

definition mantissa_Int64 :: "bool \<Rightarrow> int \<Rightarrow> string \<Rightarrow> int" where
  "mantissa_Int64 negative exponent text =
     (if exponent > int (length text) + 19 \<or> exponent < - int (length text) then 0
      else
        let (exponent, text) =
              (case index_char (\<lambda>c. c = CHR ''.'') text of
                 None \<Rightarrow> (exponent, text)
               | Some dot \<Rightarrow> (exponent - (int (length text) - int dot - 1),
                   take dot text @ drop (dot + 1) text));
            text = trim_zeros_left text
        in if text = [] then 0
           else coefficient_Int64 negative exponent text)"

definition number_Int64 :: "string \<Rightarrow> int" where
  "number_Int64 number =
     (case ParseInt number of
        Some result \<Rightarrow> result
      | None \<Rightarrow>
          let text = number
          in if length text = 0 \<or> \<not> json_Valid text then 0
             else
               let negative = HasPrefix text ''-'';
                   text = (if negative then drop 1 text else text)
               in case index_char (\<lambda>c. c = CHR ''e'' \<or> c = CHR ''E'') text of
                    None \<Rightarrow> mantissa_Int64 negative 0 text
                  | Some index \<Rightarrow>
                      (case ParseInt (drop (index + 1) text) of
                         None \<Rightarrow> 0
                       | Some parsed \<Rightarrow> mantissa_Int64 negative parsed (take index text)))"

definition math_Trunc :: "rat \<Rightarrow> int" where
  "math_Trunc q = (if 0 \<le> q then \<lfloor>q\<rfloor> else \<lceil>q\<rceil>)"

definition float_Int64 :: "go_float \<Rightarrow> int" where
  "float_Int64 f =
     (case f of
        FloatNaN \<Rightarrow> 0
      | FloatInf _ \<Rightarrow> 0
      | FloatVal result \<Rightarrow>
          if of_int (math_Trunc result) \<noteq> result \<or> result < - (2 ^ 63) \<or> result \<ge> 2 ^ 63 then 0
          else math_Trunc result)"

definition Session_GetInt64 :: "Session option \<Rightarrow> string \<Rightarrow> int" where
  "Session_GetInt64 s key =
     (case Session_Get s key of
        Some (AnyNumber number) \<Rightarrow> number_Int64 number
      | Some (AnyInt n) \<Rightarrow> n
      | Some (AnyUint result) \<Rightarrow> if result > 2 ^ 63 - 1 then 0 else result
      | Some (AnyFloat f) \<Rightarrow> float_Int64 f
      | _ \<Rightarrow> 0)"

text \<open>\<open>bits\<close> is the width of \<open>int\<close> on the platform.\<close>

definition Session_GetInt :: "nat \<Rightarrow> Session option \<Rightarrow> string \<Rightarrow> int" where
  "Session_GetInt bits s key =
     (let v = Session_GetInt64 s key; result = to_int bits v
      in if result \<noteq> v then 0 else result)"

subsection \<open>The reference: exact decimal arithmetic\<close>

definition number_value :: "bool \<Rightarrow> string \<Rightarrow> string \<Rightarrow> int \<Rightarrow> rat" where
  "number_value neg i f e = (if neg then - 1 else 1) * of_int (digits_value 0 (i @ f)) * 10 powi (e - int (length f))"

definition exact_int :: "rat \<Rightarrow> int" where
  "exact_int q = (if of_int \<lfloor>q\<rfloor> = q \<and> int64_range \<lfloor>q\<rfloor> then \<lfloor>q\<rfloor> else 0)"

definition signed_of :: "bool \<Rightarrow> int \<Rightarrow> int" where
  "signed_of neg n = (if neg then - n else n)"

definition clip :: "int \<Rightarrow> int" where
  "clip n = (if int64_range n then n else 0)"

definition scaled_int :: "bool \<Rightarrow> int \<Rightarrow> int \<Rightarrow> int" where
  "scaled_int neg m k =
     (if 0 \<le> k then clip (signed_of neg (m * 10 ^ nat k))
      else if 10 ^ nat (- k) dvd m then clip (signed_of neg (m div 10 ^ nat (- k))) else 0)"

lemma exact_int_of_int [simp]: "exact_int (of_int n) = clip n"
  by (simp add: exact_int_def clip_def)

lemma exact_int_scaled: "exact_int ((if neg then - 1 else 1) * of_int m * 10 powi k) = scaled_int neg m k"
proof (cases "0 \<le> k")
  case True
  then have "(if neg then - 1 else 1) * of_int m * (10::rat) powi k = of_int (signed_of neg (m * 10 ^ nat k))"
    by (simp add: signed_of_def power_int_def)
  then show ?thesis using True by (simp only: exact_int_of_int scaled_int_def if_True)
next
  case False
  let ?q = "(if neg then - 1 else 1) * of_int m * (10::rat) powi k" and ?p = "10 ^ nat (- k) :: int"
  have q: "?q = of_int (signed_of neg m) / of_int ?p"
    using False by (simp add: signed_of_def power_int_def field_simps)
  have p: "0 < ?p" by simp
  show ?thesis
  proof (cases "?p dvd m")
    case True
    then obtain d where d: "m = ?p * d" by (rule dvdE)
    then have "m div ?p = d" and "?q = of_int (signed_of neg d)"
      unfolding q using p by (simp_all add: signed_of_def)
    then show ?thesis using False True by (simp only: exact_int_of_int scaled_int_def if_True if_False)
  next
    case nd: False
    have "of_int \<lfloor>?q\<rfloor> \<noteq> ?q"
    proof
      assume "of_int \<lfloor>?q\<rfloor> = ?q"
      then obtain z where z: "of_int z = of_int (signed_of neg m) / (of_int ?p :: rat)" unfolding q by blast
      have "of_int (z * ?p) = (of_int (signed_of neg m) :: rat)"
        unfolding of_int_mult z using p by simp
      then have "z * ?p = signed_of neg m" by (simp only: of_int_eq_iff)
      then have "?p dvd signed_of neg m" by (metis dvd_triv_right)
      with nd show False by (simp add: signed_of_def split: if_splits)
    qed
    then show ?thesis using False nd by (simp add: exact_int_def scaled_int_def)
  qed
qed

subsection \<open>The digits decide\<close>

lemma trim_zeros_left_Nil_iff: "trim_zeros_left s = [] \<longleftrightarrow> list_all (\<lambda>c. c = CHR ''0'') s"
  by (simp add: trim_zeros_left_def list_all_iff)

lemma trim_zeros_left_zeros: "trim_zeros_left (replicate n CHR ''0'') = []"
  by (simp add: trim_zeros_left_Nil_iff list_all_iff)

lemma trim_zeros_left_hd: "trim_zeros_left s = c # cs \<Longrightarrow> c \<noteq> CHR ''0''"
  by (induction s) (auto simp: trim_zeros_left_def split: if_splits)

lemma trim_zeros_Nil_iff: "trim_zeros s = [] \<longleftrightarrow> list_all (\<lambda>c. c = CHR ''0'') s"
proof -
  have "list_all (\<lambda>c. c = CHR ''0'') (trim_zeros_left s) \<longleftrightarrow> trim_zeros_left s = []"
    using trim_zeros_left_hd [of s] by (cases "trim_zeros_left s") auto
  then show ?thesis
    unfolding trim_zeros_def rev_is_Nil_conv trim_zeros_left_Nil_iff [of "rev _"]
    by (simp add: trim_zeros_left_Nil_iff)
qed

lemma ParseInt_signed:
  assumes "ds \<noteq> []" and "list_all is_digit ds"
  shows "(case ParseInt (if neg then ''-'' @ ds else ds) of None \<Rightarrow> 0 | Some r \<Rightarrow> r) = clip (signed_of neg (digits_value 0 ds))"
  using ParseInt_digits [OF assms] by (simp add: clip_def signed_of_def)

lemma coefficient_whole:
  assumes t: "text \<noteq> []" "list_all is_digit text" "hd text \<noteq> CHR ''0''" and "0 \<le> k"
  shows "coefficient_Int64 neg k text = scaled_int neg (digits_value 0 text) k"
proof (cases "int (length text) + k > 19")
  case True
  obtain c cs where c: "text = c # cs" using t(1) by (cases "text") auto
  have "10 ^ 19 \<le> (10::int) ^ (length cs + nat k)" using True c \<open>0 \<le> k\<close> by (intro power_increasing) auto
  also have "\<dots> \<le> digits_value 0 text * 10 ^ nat k"
    using digits_value_lead [of c cs] t c by (simp add: power_add)
  finally have "clip (signed_of neg (digits_value 0 text * 10 ^ nat k)) = 0"
    by (simp add: clip_def int64_range_def signed_of_def)
  with True \<open>0 \<le> k\<close> show ?thesis by (simp add: coefficient_Int64_def scaled_int_def)
next
  case False
  let ?t = "text @ replicate (nat k) CHR ''0''"
  have "digits_value 0 ?t = digits_value 0 text * 10 ^ nat k" by (simp add: digits_value_append)
  moreover have "?t \<noteq> []" "list_all is_digit ?t" using t by (auto simp: list_all_iff)
  ultimately show ?thesis
    using False \<open>0 \<le> k\<close> ParseInt_signed [of ?t neg]
    by (simp add: coefficient_Int64_def scaled_int_def Let_def)
qed

lemma coefficient_Int64_scaled:
  assumes t: "text \<noteq> []" "list_all is_digit text" "hd text \<noteq> CHR ''0''"
  shows "coefficient_Int64 neg k text = scaled_int neg (digits_value 0 text) k"
proof (cases "0 \<le> k")
  case True
  then show ?thesis by (rule coefficient_whole [OF t])
next
  case k: False
  let ?n = "nat (- k)" and ?m = "digits_value 0 text"
  have pos: "0 < ?m"
    using digits_value_0_iff [OF t(2)] digits_value_bounds [OF t(2)] t(1,3)
    by (cases "text") auto
  show ?thesis
  proof (cases "?n \<le> length text")
    case False
    then have "?m < 10 ^ ?n"
      using digits_value_bounds [OF t(2)] power_strict_increasing [of "length text" ?n "10::int"] by linarith
    then have "\<not> 10 ^ ?n dvd ?m" using pos zdvd_imp_le by force
    with False k show ?thesis by (auto simp: coefficient_Int64_def scaled_int_def Let_def)
  next
    case True
    let ?s = "length text - ?n"
    let ?a = "take ?s text" and ?b = "drop ?s text"
    have ab: "list_all is_digit ?a" "list_all is_digit ?b" "length ?b = ?n"
      using t(2) True by (auto simp: list_all_iff dest: in_set_takeD in_set_dropD)
    have m: "?m = digits_value 0 ?a * 10 ^ ?n + digits_value 0 ?b"
      using digits_value_append [of ?a ?b] ab(3) by simp
    have b: "0 \<le> digits_value 0 ?b" "digits_value 0 ?b < 10 ^ ?n" using digits_value_bounds [OF ab(2)] ab(3) by simp_all
    have dvd: "10 ^ ?n dvd ?m \<longleftrightarrow> digits_value 0 ?b = 0"
    proof -
      have "10 ^ ?n dvd ?m \<longleftrightarrow> 10 ^ ?n dvd digits_value 0 ?b" unfolding m by (rule dvd_add_right_iff) simp
      moreover have "\<not> 10 ^ ?n dvd digits_value 0 ?b" if "digits_value 0 ?b \<noteq> 0"
        by (rule zdvd_not_zless) (use b that in linarith)+
      ultimately show ?thesis by (metis dvd_0_right)
    qed
    have zeros: "trim_zeros ?b = [] \<longleftrightarrow> digits_value 0 ?b = 0"
      by (simp only: trim_zeros_Nil_iff digits_value_0_iff [OF ab(2)])
    show ?thesis
    proof (cases "trim_zeros ?b = []")
      case False
      then have "\<not> 10 ^ ?n dvd ?m" unfolding dvd zeros .
      then have "scaled_int neg ?m k = 0" using k by (simp add: scaled_int_def)
      moreover have "coefficient_Int64 neg k text = 0"
        using False k True by (simp add: coefficient_Int64_def Let_def)
      ultimately show ?thesis by simp
    next
      case z: True
      have a: "?a \<noteq> []"
      proof
        assume "?a = []"
        then have "digits_value 0 ?a = 0" by (metis digits_value.simps(1))
        with m z zeros pos show False by simp
      qed
      then have hd: "hd ?a \<noteq> CHR ''0''" using t(1,3) by (metis hd_append2 append_take_drop_id)
      have "coefficient_Int64 neg k text = coefficient_Int64 neg 0 ?a"
      proof -
        have "\<not> int (length text) < - k" using True k by linarith
        then show ?thesis using k z by (simp add: coefficient_Int64_def Let_def)
      qed
      also have "\<dots> = scaled_int neg (digits_value 0 ?a) 0" by (rule coefficient_whole [OF a ab(1) hd]) simp
      also have "\<dots> = scaled_int neg ?m k"
      proof -
        have "?m = digits_value 0 ?a * 10 ^ ?n" using m z zeros by simp
        then show ?thesis using k by (simp add: scaled_int_def)
      qed
      finally show ?thesis .
    qed
  qed
qed

subsection \<open>Every text\<close>

lemma index_char_append:
  "list_all (\<lambda>c. \<not> P c) xs \<Longrightarrow> index_char P (xs @ ys) = map_option (\<lambda>n. length xs + n) (index_char P ys)"
  by (cases "index_char P ys"; induction xs) simp_all

lemma index_char_None: "list_all (\<lambda>c. \<not> P c) xs \<Longrightarrow> index_char P xs = None"
  using index_char_append [of P xs "[]"] by simp

lemma index_char_pos: "\<not> P c \<Longrightarrow> index_char P (c # cs) = Some n \<Longrightarrow> 0 < n"
  by (auto split: option.splits)

lemma scaled_int_0 [simp]: "scaled_int neg 0 k = 0"
  by (simp add: scaled_int_def clip_def signed_of_def int64_range_def)

lemma scaled_int_high:
  assumes "0 \<le> m" and "19 \<le> k"
  shows "scaled_int neg m k = 0"
proof (cases "m = 0")
  case False
  have "(10::int) ^ 19 \<le> 10 ^ nat k" using assms(2) by (intro power_increasing) auto
  moreover have "1 * 10 ^ nat k \<le> m * 10 ^ nat k" using False assms(1) by (intro mult_right_mono) simp_all
  ultimately have "10 ^ 19 \<le> m * 10 ^ nat k" by linarith
  then show ?thesis using assms(2) by (simp add: scaled_int_def clip_def signed_of_def int64_range_def)
qed simp

lemma scaled_int_low:
  assumes "0 \<le> m" and "m < 10 ^ n" and "k < 0" and "k \<le> - int n"
  shows "scaled_int neg m k = 0"
proof (cases "m = 0")
  case False
  have "(10::int) ^ n \<le> 10 ^ nat (- k)" using assms(4) by (intro power_increasing) auto
  then have "\<not> 10 ^ nat (- k) dvd m" using assms False by (intro zdvd_not_zless) linarith+
  with assms(3) show ?thesis by (simp add: scaled_int_def)
qed simp

lemma not_e_digits: "list_all is_digit i \<Longrightarrow> list_all (\<lambda>c. \<not> (c = CHR ''e'' \<or> c = CHR ''E'')) i"
  and not_dot_digits: "list_all is_digit i \<Longrightarrow> list_all (\<lambda>c. c \<noteq> CHR ''.'') i"
  by (auto simp: list_all_iff)

lemma not_e_fraction: "json_fraction p f \<Longrightarrow> list_all (\<lambda>c. \<not> (c = CHR ''e'' \<or> c = CHR ''E'')) p"
  using not_e_digits [of f] by (auto simp: json_fraction_def)

lemma number_Int64_eq:
  assumes "ParseInt number = None" and "json_Valid number"
  shows "number_Int64 number =
    (let negative = HasPrefix number ''-''; u = (if negative then drop 1 number else number)
     in case index_char (\<lambda>c. c = CHR ''e'' \<or> c = CHR ''E'') u of
          None \<Rightarrow> mantissa_Int64 negative 0 u
        | Some index \<Rightarrow> (case ParseInt (drop (index + 1) u) of
             None \<Rightarrow> 0 | Some parsed \<Rightarrow> mantissa_Int64 negative parsed (take index u)))"
proof -
  have "length number \<noteq> 0" using assms(2) json_Valid_start [of number] by blast
  with assms show ?thesis unfolding number_Int64_def Let_def by (simp only: option.case simp_thms if_False)
qed

lemma mantissa_digits:
  assumes i: "list_all is_digit i" and pf: "json_fraction p f"
  shows "mantissa_Int64 neg e (i @ p) = scaled_int neg (digits_value 0 (i @ f)) (e - int (length f))"
proof -
  let ?m = "digits_value 0 (i @ f)" and ?k = "e - int (length f)"
  have f: "list_all is_digit f" and p: "p = (if f = [] then [] else CHR ''.'' # f)"
    using pf by (simp_all add: json_fraction_def)
  have digits: "list_all is_digit (i @ f)" using i f by simp
  note m = digits_value_bounds [OF digits]
  have len: "length (i @ f) \<le> length (i @ p)" by (simp add: p)
  show ?thesis
  proof (cases "e > int (length (i @ p)) + 19 \<or> e < - int (length (i @ p))")
    case True
    have "scaled_int neg ?m ?k = 0"
    proof (cases "e < 0")
      case False
      with True len show ?thesis using m by (intro scaled_int_high) (auto simp: p split: if_splits)
    next
      case neg: True
      with True have "?k < 0" "?k \<le> - int (length (i @ f))" by (auto simp: p split: if_splits)
      with m show ?thesis by (intro scaled_int_low [of _ "length (i @ f)"]) simp_all
    qed
    with True show ?thesis by (simp add: mantissa_Int64_def)
  next
    case False
    have dot: "(case index_char (\<lambda>c. c = CHR ''.'') (i @ p) of
                 None \<Rightarrow> (e, i @ p)
               | Some dot \<Rightarrow> (e - (int (length (i @ p)) - int dot - 1),
                   take dot (i @ p) @ drop (dot + 1) (i @ p))) = (?k, i @ f)"
      using index_char_append [OF not_dot_digits [OF i], of p] by (simp add: p)
    have "mantissa_Int64 neg e (i @ p) =
       (if trim_zeros_left (i @ f) = [] then 0 else coefficient_Int64 neg ?k (trim_zeros_left (i @ f)))"
      using False unfolding mantissa_Int64_def dot by simp
    also have "\<dots> = scaled_int neg ?m ?k"
    proof (cases "trim_zeros_left (i @ f)")
      case Nil
      then have "?m = 0" using digits_value_0_iff [OF digits] by (simp add: trim_zeros_left_Nil_iff)
      with Nil show ?thesis by simp
    next
      case (Cons c cs)
      then have "c \<noteq> CHR ''0''" by (rule trim_zeros_left_hd)
      moreover have "list_all is_digit (trim_zeros_left (i @ f))"
        using digits by (auto simp: list_all_iff trim_zeros_left_def dest: set_dropWhileD)
      ultimately have "coefficient_Int64 neg ?k (trim_zeros_left (i @ f)) = scaled_int neg (digits_value 0 (trim_zeros_left (i @ f))) ?k"
        using Cons by (intro coefficient_Int64_scaled) simp_all
      then show ?thesis using Cons by (simp add: trim_zeros_left_def)
    qed
    finally show ?thesis .
  qed
qed

lemma json_fraction_no_e: "json_fraction p f \<Longrightarrow> list_all is_digit i \<Longrightarrow>
    list_all (\<lambda>c. \<not> (c = CHR ''e'' \<or> c = CHR ''E'')) (i @ p)"
  using not_e_fraction not_e_digits by simp

lemma HasPrefix_minus: "HasPrefix ((if neg then ''-'' else []) @ i @ r) ''-'' \<longleftrightarrow> neg"
  if "i \<noteq> []" "list_all is_digit i" for neg
  using that by (cases i) (auto simp: HasPrefix_def)

text \<open>A number in JSON syntax. The bound on its length is that of every string in memory.\<close>

lemma number_Int64_number:
  assumes num: "json_number neg i f e s" and short: "int (length s) < 2 ^ 62"
  shows "number_Int64 s = scaled_int neg (digits_value 0 (i @ f)) (e - int (length f))"
proof -
  from num obtain p t where i: "i \<noteq> []" "list_all is_digit i"
    and pf: "json_fraction p f" and te: "json_exponent t e" and s: "s = (if neg then ''-'' else []) @ i @ p @ t"
    unfolding json_number_def by blast
  let ?k = "e - int (length f)"
  show ?thesis
  proof (cases "ParseInt s")
    case (Some r)
    have "CHR ''.'' \<notin> set s" "CHR ''e'' \<notin> set s" "CHR ''E'' \<notin> set s"
      using Some ParseInt_not_digit [of _ s] by force+
    then have "f = []" "p = []" "t = []"
    proof -
      show f: "f = []" using \<open>CHR ''.'' \<notin> set s\<close> pf by (auto simp: s json_fraction_def split: if_splits)
      then show "p = []" using pf by (simp add: json_fraction_def)
      show "t = []" by (rule json_exponent_cases [OF te]) (use \<open>CHR ''e'' \<notin> set s\<close> \<open>CHR ''E'' \<notin> set s\<close> s in auto)
    qed
    moreover from this te have "e = 0" by (auto simp: json_exponent_def)
    ultimately show ?thesis
      using Some ParseInt_digits(1,2) [OF i]
      by (cases neg) (simp_all add: number_Int64_def s scaled_int_def clip_def signed_of_def split: if_splits)
  next
    case None
    have prefix: "HasPrefix s ''-'' = neg" unfolding s by (rule HasPrefix_minus [OF i])
    have u: "(if neg then drop 1 s else s) = i @ p @ t" by (simp add: s)
    have eq: "number_Int64 s = (case index_char (\<lambda>c. c = CHR ''e'' \<or> c = CHR ''E'') (i @ p @ t) of
          None \<Rightarrow> mantissa_Int64 neg 0 (i @ p @ t)
        | Some index \<Rightarrow> (case ParseInt (drop (index + 1) (i @ p @ t)) of
             None \<Rightarrow> 0 | Some parsed \<Rightarrow> mantissa_Int64 neg parsed (take index (i @ p @ t))))"
      using number_Int64_eq [OF None json_Valid_number [OF num]] unfolding Let_def prefix u .
    note no_e = json_fraction_no_e [OF pf i(2)]
    show ?thesis
    proof (rule json_exponent_cases [OF te])
      assume "t = []" "e = 0"
      with eq index_char_None [OF no_e] show ?thesis by (simp add: mantissa_digits [OF i(2) pf])
    next
      fix x r assume t: "t = x # r" "x \<in> {CHR ''e'', CHR ''E''}"
      then obtain sgn ds where r: "r = sgn @ ds" "sgn \<in> {[], ''+'', ''-''}" "ds \<noteq> []" "list_all is_digit ds"
        and e: "e = (if sgn = ''-'' then - digits_value 0 ds else digits_value 0 ds)"
        using te by (auto simp: json_exponent_def)
      have parse: "ParseInt r = (if int64_range e then Some e else None)"
        using r e ParseInt_digits [of ds] by auto
      have idx: "index_char (\<lambda>c. c = CHR ''e'' \<or> c = CHR ''E'') (i @ p @ t) = Some (length (i @ p))"
        using index_char_append [OF no_e, of t] t by auto
      have "number_Int64 s = (case ParseInt r of None \<Rightarrow> 0 | Some parsed \<Rightarrow> mantissa_Int64 neg parsed (i @ p))"
      proof -
        have "take (length (i @ p)) (i @ p @ t) = i @ p" "drop (length (i @ p) + 1) (i @ p @ t) = r"
          using append_eq_conv_conj [of "i @ p" t "i @ p @ t"] by (simp_all add: t)
        then show ?thesis unfolding eq idx option.case by (simp only:)
      qed
      also have "\<dots> = scaled_int neg (digits_value 0 (i @ f)) ?k"
      proof (cases "int64_range e")
        case True
        then show ?thesis by (simp add: parse mantissa_digits [OF i(2) pf])
      next
        case False
        have digits: "list_all is_digit (i @ f)" using i pf by (simp add: json_fraction_def)
        have len: "int (length (i @ f)) \<le> int (length s)" using pf by (simp add: s json_fraction_def)
        have "scaled_int neg (digits_value 0 (i @ f)) ?k = 0"
        proof (cases "e < 0")
          case True
          with False len short have "?k < 0" "?k \<le> - int (length (i @ f))" by (simp_all add: int64_range_def)
          then show ?thesis using digits_value_bounds [OF digits] by (intro scaled_int_low [of _ "length (i @ f)"]) simp_all
        next
          case pos: False
          with False len short have "19 \<le> ?k" by (simp add: int64_range_def)
          then show ?thesis using digits_value_bounds [OF digits] by (intro scaled_int_high) simp_all
        qed
        with False show ?thesis by (simp add: parse)
      qed
      finally show ?thesis .
    qed
  qed
qed

text \<open>Everything else that is valid JSON keeps a foreign character to the end.\<close>

lemma coefficient_junk_start:
  assumes "\<not> is_digit c" and "c \<notin> {CHR ''+'', CHR ''-''}"
  shows "coefficient_Int64 neg k (c # r) = 0"
proof -
  have none: "ParseInt (if neg then ''-'' @ c # q else c # q) = None" for q
    using assms by (intro ParseInt_not_digit [of c]) auto
  have c0: "c \<noteq> CHR ''0''" using assms by auto
  show ?thesis
  proof (cases "k < 0")
    case False
    then show ?thesis using none [of "r @ replicate (nat k) CHR ''0''"] by (simp add: coefficient_Int64_def Let_def)
  next
    case True
    let ?split = "length (c # r) - nat (- k)"
    show ?thesis
    proof (cases ?split)
      case 0
      then show ?thesis
        using True c0 by (simp add: coefficient_Int64_def Let_def trim_zeros_Nil_iff)
    next
      case (Suc n)
      then show ?thesis
        using True none [of "take n r"] by (auto simp: coefficient_Int64_def Let_def)
    qed
  qed
qed

lemma coefficient_junk_end:
  assumes "r \<noteq> []" and "json_space (last r)" and "k \<le> 0"
  shows "coefficient_Int64 neg k r = 0"
proof -
  have junk: "\<not> is_digit (last r)" "last r \<notin> {CHR ''+'', CHR ''-''}" "last r \<noteq> CHR ''0''"
    using assms(2) is_digit_not_space by (auto simp: json_space_def)
  have none: "ParseInt (if neg then ''-'' @ r else r) = None"
    using junk assms(1) by (intro ParseInt_not_digit [of "last r"]) auto
  show ?thesis
  proof (cases "k = 0")
    case True
    then show ?thesis using none by (simp add: coefficient_Int64_def Let_def)
  next
    case False
    then have split: "length r - nat (- k) < length r" using assms(1,3) by simp
    then have "last r \<in> set (drop (length r - nat (- k)) r)"
      by (metis last_drop last_in_set drop_eq_Nil2 not_le)
    then have "trim_zeros (drop (length r - nat (- k)) r) \<noteq> []"
      using junk by (auto simp: trim_zeros_Nil_iff list_all_iff)
    then show ?thesis using False assms(3) by (simp add: coefficient_Int64_def Let_def)
  qed
qed

lemma mantissa_junk_start:
  assumes "\<not> is_digit c" and "c \<notin> {CHR ''+'', CHR ''-'', CHR ''.''}"
  shows "mantissa_Int64 neg k (c # r) = 0"
proof -
  have trim: "trim_zeros_left (c # q) = c # q" for q using assms by (auto simp: trim_zeros_left_def)
  have junk: "coefficient_Int64 neg e (c # q) = 0" for e q
    using assms by (intro coefficient_junk_start) auto
  show ?thesis
  proof (cases "index_char (\<lambda>c. c = CHR ''.'') (c # r)")
    case None
    then show ?thesis using trim junk by (simp add: mantissa_Int64_def Let_def del: index_char.simps)
  next
    case (Some n)
    then obtain m where "n = Suc m" using index_char_pos [of "\<lambda>c. c = CHR ''.''" c r n] assms by (cases n) auto
    then show ?thesis using Some trim junk by (simp add: mantissa_Int64_def Let_def del: index_char.simps)
  qed
qed

lemma mantissa_junk_end:
  assumes i: "list_all is_digit i" and pf: "json_fraction p f" and ws: "list_all json_space ws" "ws \<noteq> []"
  shows "mantissa_Int64 neg 0 (i @ p @ ws) = 0"
proof -
  have no_dot: "list_all (\<lambda>c. c \<noteq> CHR ''.'') ws" using ws by (auto simp: list_all_iff)
  have dot: "\<exists>k \<le> 0. (case index_char (\<lambda>c. c = CHR ''.'') (i @ p @ ws) of
        None \<Rightarrow> (0, i @ p @ ws)
      | Some dot \<Rightarrow> (0 - (int (length (i @ p @ ws)) - int dot - 1),
          take dot (i @ p @ ws) @ drop (dot + 1) (i @ p @ ws))) = (k, (i @ f) @ ws)"
  proof (cases "f = []")
    case True
    then have "p = []" using pf by (simp add: json_fraction_def)
    with True show ?thesis
      using index_char_append [OF not_dot_digits [OF i], of ws] index_char_None [OF no_dot]
      by (intro exI [of _ 0]) simp
  next
    case False
    then have "p = CHR ''.'' # f" using pf by (simp add: json_fraction_def)
    then show ?thesis
      using index_char_append [OF not_dot_digits [OF i], of "p @ ws"]
      by (intro exI [of _ "- int (length f + length ws)"]) simp
  qed
  then obtain k where k: "k \<le> 0" and split: "(case index_char (\<lambda>c. c = CHR ''.'') (i @ p @ ws) of
        None \<Rightarrow> (0, i @ p @ ws)
      | Some dot \<Rightarrow> (0 - (int (length (i @ p @ ws)) - int dot - 1),
          take dot (i @ p @ ws) @ drop (dot + 1) (i @ p @ ws))) = (k, (i @ f) @ ws)" by blast
  have space: "json_space (last ws)" using ws by (simp add: list_all_iff)
  then have l0: "last ws \<noteq> CHR ''0''" by (auto simp: json_space_def)
  let ?t = "trim_zeros_left ((i @ f) @ ws)"
  have ne: "?t \<noteq> []" 
  proof
    assume "?t = []"
    then have "last ws = CHR ''0''" using ws(2) by (simp add: trim_zeros_left_Nil_iff list_all_iff)
    with l0 show False by simp
  qed
  moreover have "last ?t = last ws"
  proof -
    have "suffix ?t ((i @ f) @ ws)" unfolding trim_zeros_left_def by (rule suffix_dropWhile)
    then obtain zs where "(i @ f) @ ws = zs @ ?t" unfolding suffix_def by blast
    with ne have "last ?t = last ((i @ f) @ ws)" by (metis last_appendR)
    with ws(2) show ?thesis by simp
  qed
  ultimately have "coefficient_Int64 neg k ?t = 0" using space k by (intro coefficient_junk_end) simp_all
  then show ?thesis unfolding mantissa_Int64_def split by (simp add: Let_def)
qed

lemma number_Int64_other:
  assumes other: "\<nexists>neg i f e. json_number neg i f e s" and none: "ParseInt s = None"
  shows "number_Int64 s = 0"
proof (cases "json_Valid s")
  case False
  then show ?thesis by (simp add: number_Int64_def none)
next
  case valid: True
  then obtain c r where s: "s = c # r" "c \<notin> {CHR ''+'', CHR ''.'', CHR ''e'', CHR ''E''}" by (rule json_Valid_start)
  note eq = number_Int64_eq [OF none valid]
  show ?thesis
  proof (cases "c = CHR ''-'' \<or> is_digit c")
    case True
    from json_Valid_number_start [OF valid [unfolded s(1)] True] obtain neg i f e u ws
      where u: "s = u @ ws" "json_number neg i f e u" and ws: "list_all json_space ws" unfolding s(1) by blast
    have ws_ne: "ws \<noteq> []" using u other by (cases ws) auto
    from u(2) obtain p t where i: "i \<noteq> []" "list_all is_digit i"
      and pf: "json_fraction p f" and te: "json_exponent t e" and ut: "u = (if neg then ''-'' else []) @ i @ p @ t"
      unfolding json_number_def by blast
    have st: "s = (if neg then ''-'' else []) @ i @ p @ t @ ws" using u(1) ut by simp
    have prefix: "HasPrefix s ''-'' = neg" unfolding st by (rule HasPrefix_minus [OF i])
    have body: "(if neg then drop 1 s else s) = i @ p @ t @ ws" by (simp add: st)
    note no_e = json_fraction_no_e [OF pf i(2)]
    show ?thesis
    proof (rule json_exponent_cases [OF te])
      assume t: "t = []"
      have "list_all (\<lambda>c. \<not> (c = CHR ''e'' \<or> c = CHR ''E'')) ws"
        using ws by (rule list.pred_mono_strong) auto
      with no_e have "list_all (\<lambda>c. \<not> (c = CHR ''e'' \<or> c = CHR ''E'')) (i @ p @ ws)" by simp
      then have "index_char (\<lambda>c. c = CHR ''e'' \<or> c = CHR ''E'') (i @ p @ ws) = None" by (rule index_char_None)
      then show ?thesis
        using eq mantissa_junk_end [OF i(2) pf ws ws_ne] unfolding Let_def prefix body by (simp add: t)
    next
      fix x q assume t: "t = x # q" "x \<in> {CHR ''e'', CHR ''E''}"
      have idx: "index_char (\<lambda>c. c = CHR ''e'' \<or> c = CHR ''E'') (i @ p @ t @ ws) = Some (length (i @ p))"
        using index_char_append [OF no_e, of "t @ ws"] t by auto
      have space: "json_space (last ws)" using ws ws_ne by (simp add: list_all_iff)
      have "ParseInt (q @ ws) = None"
      proof (rule ParseInt_not_digit)
        show "last ws \<in> set (q @ ws)" using ws_ne by simp
        show "\<not> is_digit (last ws)" using space is_digit_not_space by blast
        show "last ws \<notin> {CHR ''+'', CHR ''-''}" using space by (auto simp: json_space_def)
      qed
      moreover have "drop (length (i @ p) + 1) (i @ p @ t @ ws) = q @ ws" by (simp add: t)
      ultimately show ?thesis using eq unfolding Let_def prefix body idx option.case by (simp only: option.case)
    qed
  next
    case False
    then have c: "\<not> is_digit c" "c \<notin> {CHR ''+'', CHR ''-'', CHR ''.''}" using s(2) by auto
    have prefix: "HasPrefix (c # r) ''-'' = False" using False by (auto simp: HasPrefix_def)
    show ?thesis
    proof (cases "index_char (\<lambda>c. c = CHR ''e'' \<or> c = CHR ''E'') (c # r)")
      case None
      then show ?thesis using eq mantissa_junk_start [OF c] unfolding Let_def s(1) prefix
        by (simp del: index_char.simps)
    next
      case (Some n)
      then obtain m where n: "n = Suc m"
        using index_char_pos [of "\<lambda>c. c = CHR ''e'' \<or> c = CHR ''E''" c r n] s(2) by (cases n) auto
      show ?thesis using eq mantissa_junk_start [OF c] unfolding Let_def s(1) prefix if_False Some n
        by (simp del: index_char.simps split: option.split)
    qed
  qed
qed

subsection \<open>The getters are exact\<close>

text \<open>The number that a stored value denotes. A \<open>json.Number\<close> that \<open>ParseInt\<close> reads is that integer,
  even when it is no JSON number, like \<open>+5\<close> or \<open>007\<close>.\<close>

inductive denotes :: "go_any \<Rightarrow> rat \<Rightarrow> bool" where
  signed: "denotes (AnyInt n) (of_int n)"
| unsigned: "denotes (AnyUint n) (of_int n)"
| float: "denotes (AnyFloat (FloatVal q)) q"
| number: "json_number neg i f e s \<Longrightarrow> denotes (AnyNumber s) (number_value neg i f e)"
| parsed: "ParseInt s = Some n \<Longrightarrow> denotes (AnyNumber s) (of_int n)"

inductive_simps denotes_simps [simp]:
  "denotes AnyNil q" "denotes (AnyBool b) q" "denotes (AnyString s) q" "denotes (AnyInt n) q"
  "denotes (AnyUint n) q" "denotes (AnyFloat f) q" "denotes (AnyMap m) q" "denotes (AnySlice vs) q"
  "denotes (AnyOpaque a) q"

inductive_cases denotes_numberE: "denotes (AnyNumber s) q"

text \<open>What the dynamic types of Go guarantee, and the length of a text in memory.\<close>

definition go_value_ok :: "go_any \<Rightarrow> bool" where
  "go_value_ok v \<longleftrightarrow> (\<forall>n. v = AnyInt n \<longrightarrow> int64_range n) \<and> (\<forall>n. v = AnyUint n \<longrightarrow> 0 \<le> n \<and> n < 2 ^ 64)
     \<and> (\<forall>s. v = AnyNumber s \<longrightarrow> int (length s) < 2 ^ 62)"

definition value_Int64 :: "go_any \<Rightarrow> int" where
  "value_Int64 v = (case v of
       AnyNumber number \<Rightarrow> number_Int64 number
     | AnyInt n \<Rightarrow> n
     | AnyUint result \<Rightarrow> if result > 2 ^ 63 - 1 then 0 else result
     | AnyFloat f \<Rightarrow> float_Int64 f
     | _ \<Rightarrow> 0)"

lemma GetInt64_value:
  "Session_GetInt64 ses key = (case Session_Get ses key of None \<Rightarrow> 0 | Some v \<Rightarrow> value_Int64 v)"
  by (simp add: Session_GetInt64_def value_Int64_def split: option.split go_any.split)

lemma float_Int64_exact: "float_Int64 (FloatVal q) = exact_int q"
proof (cases "of_int \<lfloor>q\<rfloor> = q")
  case True
  then obtain n where q: "q = of_int n" by metis
  then have "math_Trunc q = n" by (simp add: math_Trunc_def)
  moreover have "(of_int n :: rat) < - (2 ^ 63) \<longleftrightarrow> n < - (2 ^ 63)" "(2 ^ 63 :: rat) \<le> of_int n \<longleftrightarrow> 2 ^ 63 \<le> n"
    using of_int_less_iff [of n "- (2 ^ 63)", where 'a = rat] of_int_le_iff [of "2 ^ 63" n, where 'a = rat] by simp_all
  ultimately show ?thesis by (simp add: float_Int64_def q clip_def int64_range_def)
next
  case False
  then have "of_int (math_Trunc q) \<noteq> q" by (metis floor_of_int)
  with False show ?thesis by (simp add: float_Int64_def exact_int_def)
qed

lemma number_Int64_exact:
  assumes "int (length s) < 2 ^ 62" and "denotes (AnyNumber s) q"
  shows "number_Int64 s = exact_int q"
  using assms(2)
proof (rule denotes_numberE)
  fix neg i f e assume "q = number_value neg i f e" "json_number neg i f e s"
  with number_Int64_number [OF _ assms(1)] show ?thesis
    by (simp only: number_value_def exact_int_scaled)
next
  fix n assume q: "q = of_int n" and n: "ParseInt s = Some n"
  with ParseInt_SomeD [OF n] show ?thesis by (simp add: number_Int64_def clip_def)
qed

lemma int64_range_0 [simp]: "int64_range 0"
  by (simp add: int64_range_def)

lemma exact_int_range: "int64_range (exact_int q)"
  by (simp add: exact_int_def)

lemma value_Int64_exact:
  assumes "go_value_ok v"
  shows "denotes v q \<Longrightarrow> value_Int64 v = exact_int q" and "\<nexists>q. denotes v q \<Longrightarrow> value_Int64 v = 0"
proof -
  show "value_Int64 v = exact_int q" if "denotes v q"
  proof (cases v)
    case (AnyUint n)
    then show ?thesis using that assms
      by (auto simp: value_Int64_def go_value_ok_def clip_def int64_range_def)
  next
    case (AnyNumber s)
    then show ?thesis using that assms number_Int64_exact [of s q] by (simp add: value_Int64_def go_value_ok_def)
  qed (use that assms in \<open>auto simp: value_Int64_def go_value_ok_def clip_def float_Int64_exact\<close>)
  show "value_Int64 v = 0" if none: "\<nexists>q. denotes v q"
  proof (cases v)
    case (AnyFloat f)
    then show ?thesis using none by (cases f) (simp_all add: value_Int64_def float_Int64_def)
  next
    case (AnyNumber s)
    have "\<nexists>neg i f e. json_number neg i f e s" using none number AnyNumber by blast
    moreover have "ParseInt s = None" using none parsed AnyNumber by (cases "ParseInt s") blast+
    ultimately show ?thesis using AnyNumber by (simp add: value_Int64_def number_Int64_other)
  qed (use none in \<open>auto simp: value_Int64_def\<close>)
qed

text \<open>C39: the numeric getters of a session are exact, though they work on digits alone. For every
  stored value, \<open>GetInt64\<close> returns the number that the value denotes when that is an integer of 64
  bits: an integer, a float without fraction, or a JSON number in any decimal or exponent
  notation, read without rounding. It returns zero for everything else, and \<open>GetInt\<close> narrows the
  result to the width of \<open>int\<close> or returns zero.\<close>

theorem session_integers_exact:
  assumes "Session_Get ses key = Some v" and "go_value_ok v" and "0 < bits" and "bits \<le> 64"
  shows "(\<forall>q. denotes v q \<longrightarrow> Session_GetInt64 ses key = exact_int q)
    \<and> ((\<nexists>q. denotes v q) \<longrightarrow> Session_GetInt64 ses key = 0)
    \<and> int64_range (Session_GetInt64 ses key)
    \<and> Session_GetInt bits ses key =
        (if - (2 ^ (bits - 1)) \<le> Session_GetInt64 ses key \<and> Session_GetInt64 ses key < 2 ^ (bits - 1)
         then Session_GetInt64 ses key else 0)"
proof -
  have v: "Session_GetInt64 ses key = value_Int64 v" by (simp add: GetInt64_value assms(1))
  have "int64_range (value_Int64 v)"
    using value_Int64_exact [OF assms(2)] exact_int_range by (cases "\<exists>q. denotes v q") auto
  moreover have "Session_GetInt bits ses key = (if to_int bits (value_Int64 v) = value_Int64 v then value_Int64 v else 0)"
    by (simp add: Session_GetInt_def Let_def v)
  ultimately show ?thesis
    using value_Int64_exact [OF assms(2)] assms(3) unfolding v by (simp add: to_int_eq_iff)
qed

definition numbers_session :: "Session option" where
  "numbers_session = Session_SetMulti (Some (NewSession ''u''))
     [(''big'', AnyNumber ''9007199254740993''), (''exp'', AnyNumber ''-12.50e3''), (''half'', AnyNumber ''0.5''),
      (''over'', AnyUint (2 ^ 63))]"

theorem session_integers_exact_witness:
  "Session_GetInt64 numbers_session ''exp'' = -12500 \<and> Session_GetInt 8 numbers_session ''exp'' = 0
   \<and> Session_GetInt64 numbers_session ''half'' = 0"
proof -
  have exp: "Session_Get numbers_session ''exp'' = Some (AnyNumber ''-12.50e3'')"
    and half: "Session_Get numbers_session ''half'' = Some (AnyNumber ''0.5'')" by code_simp+
  have "json_exponent ''e3'' 3"
    unfolding json_exponent_def
    by (intro disjI2 exI [of _ "CHR ''e''"] exI [of _ "[]"] exI [of _ "''3''"]) (simp add: is_digit_def digits_value_Cons digit_value_def)
  then have n1: "json_number True ''12'' ''50'' 3 ''-12.50e3''"
    unfolding json_number_def json_fraction_def
    by (intro conjI exI [of _ "''.50''"] exI [of _ "''e3''"]) (simp_all add: is_digit_def)
  have n2: "json_number False ''0'' ''5'' 0 ''0.5''"
    unfolding json_number_def json_fraction_def json_exponent_def
    by (intro conjI exI [of _ "''.5''"] exI [of _ "[]"]) (simp_all add: is_digit_def)
  have v1: "exact_int (number_value True ''12'' ''50'' 3) = -12500"
    and v2: "exact_int (number_value False ''0'' ''5'' 0) = 0" by code_simp+
  have "Session_GetInt64 numbers_session ''exp'' = -12500"
    using session_integers_exact [OF exp, of 8] denotes.number [OF n1] v1 by (simp add: go_value_ok_def)
  moreover have "Session_GetInt64 numbers_session ''half'' = 0"
    using session_integers_exact [OF half, of 8] denotes.number [OF n2] v2 by (simp add: go_value_ok_def)
  ultimately show ?thesis
    using session_integers_exact [OF exp, of 8] by (simp add: go_value_ok_def)
qed

end
