(* ===== verification/Session_Json.thy ===== *)
theory Session_Json
  imports State_Json Session_Numbers "HOL-Library.Char_ord" "HOL-Library.List_Lexorder"
begin

text \<open>
  The JSON of a session: \<open>MarshalJSON\<close> and \<open>UnmarshalJSON\<close> of \<open>core/session.go\<close> for data that is a
  tree. Numbers are read as \<open>json.Number\<close>, so that integers survive a store. How the other dynamic
  types are written (floats, pointers, structs with their own methods) is a parameter; a cycle
  needs a pointer, so that the check for cycles passes on a tree.
\<close>

subsection \<open>Writing\<close>

type_synonym other_json = "go_any \<Rightarrow> json option"

definition isValidNumber :: "string \<Rightarrow> bool" where
  "isValidNumber t \<longleftrightarrow> scan_number t = Some (t, [])"

fun all_some :: "'a option list \<Rightarrow> 'a list option" where
  "all_some [] = Some []"
| "all_some (x # xs) = Option.bind x (\<lambda>y. map_option (Cons y) (all_some xs))"

text \<open>The keys of a map are written in the order of their bytes.\<close>

definition object_of :: "(string \<times> json) list \<Rightarrow> json" where
  "object_of ms = JObject (map (\<lambda>(k, v). (json_quote k, v)) (sort_key fst ms))"

fun any_json :: "other_json \<Rightarrow> go_any \<Rightarrow> json option" where
  "any_json other AnyNil = Some JNull"
| "any_json other (AnyBool b) = Some (JBool b)"
| "any_json other (AnyString s) = Some (string_value s)"
| "any_json other (AnyInt n) = Some (JNumber (decimal n))"
| "any_json other (AnyUint n) = Some (JNumber (decimal n))"
| "any_json other (AnyNumber t) =
     (let t = (if t = [] then ''0'' else t) in if isValidNumber t then Some (JNumber t) else None)"
| "any_json other (AnyMap es) =
     map_option object_of (all_some (map (\<lambda>(k, v). map_option (Pair k) (any_json other v)) es))"
| "any_json other (AnySlice vs) = map_option JArray (all_some (map (any_json other) vs))"
| "any_json other v = other v"

definition LoginSubject_json :: "LoginSubject \<Rightarrow> json" where
  "LoginSubject_json s = JObject [(''login_id'', string_value (sub_LoginID s)), (''login_type'', string_value (sub_LoginType s))]"

text \<open>\<open>MarshalJSON\<close> works on a deep copy of the data, taken under the lock.\<close>

definition Session_MarshalJSON :: "other_json \<Rightarrow> Session option \<Rightarrow> error + string" where
  "Session_MarshalJSON other s =
     (case s of
        None \<Rightarrow> Inr ''null''
      | Some s \<Rightarrow>
          let data = map_option (map (\<lambda>(k, v). (k, cloneSessionValue v))) (se_Data s)
          in (case (case data of None \<Rightarrow> Some JNull | Some d \<Rightarrow> any_json other (AnyMap d)) of
                None \<Rightarrow> Inl json_error
              | Some d \<Rightarrow> Inr (json_print (JObject [(''subject'', LoginSubject_json (se_Subject s)), (''data'', d)]))))"

subsection \<open>Reading\<close>

fun decode_any :: "json \<Rightarrow> go_any" where
  "decode_any JNull = AnyNil"
| "decode_any (JBool b) = AnyBool b"
| "decode_any (JNumber t) = AnyNumber t"
| "decode_any (JString t) = AnyString (json_unquote t)"
| "decode_any (JArray vs) = AnySlice (map decode_any vs)"
| "decode_any (JObject ms) =
     AnyMap (fold (\<lambda>(k, v). AList.update k v) (map (\<lambda>(k, v). (json_unquote k, decode_any v)) ms) [])"

definition subject_fields :: "string list" where
  "subject_fields = [''login_id'', ''login_type'']"

definition LoginSubject_member :: "string \<times> json \<Rightarrow> LoginSubject \<Rightarrow> LoginSubject option" where
  "LoginSubject_member = (\<lambda>(k, v) s.
     let f = field_name subject_fields (json_unquote k)
     in if f = Some ''login_id'' then map_option (\<lambda>x. s\<lparr>sub_LoginID := x\<rparr>) (decode_string v (sub_LoginID s))
        else if f = Some ''login_type''
        then map_option (\<lambda>x. s\<lparr>sub_LoginType := x\<rparr>) (decode_string v (sub_LoginType s))
        else Some s)"

definition Unmarshal_subject :: "string \<Rightarrow> LoginSubject \<Rightarrow> LoginSubject option" where
  "Unmarshal_subject raw s =
     (case json_parse raw of
        Some JNull \<Rightarrow> Some s | Some (JObject ms) \<Rightarrow> foldO LoginSubject_member ms s | _ \<Rightarrow> None)"

text \<open>Decoding into a map keeps its other entries; \<open>null\<close> makes it nil.\<close>

definition Decode_data :: "string \<Rightarrow> go_map option \<Rightarrow> go_map option option" where
  "Decode_data raw values =
     (case json_parse raw of
        Some JNull \<Rightarrow> Some None
      | Some (JObject ms) \<Rightarrow>
          Some (Some (fold (\<lambda>(k, v). AList.update (json_unquote k) (decode_any v)) ms
            (case values of None \<Rightarrow> [] | Some d \<Rightarrow> d)))
      | _ \<Rightarrow> None)"

record session_wire =
  wire_Subject :: RawMessage
  wire_Data :: RawMessage

definition wire_fields :: "string list" where
  "wire_fields = [''subject'', ''data'']"

definition wire_member :: "string \<times> string \<times> json \<Rightarrow> session_wire \<Rightarrow> session_wire option" where
  "wire_member = (\<lambda>(k, raw, v) w.
     let f = field_name wire_fields (json_unquote k)
     in if f = Some ''subject'' then Some (w\<lparr>wire_Subject := Some raw\<rparr>)
        else if f = Some ''data'' then Some (w\<lparr>wire_Data := Some raw\<rparr>)
        else Some w)"

definition Unmarshal_wire :: "string \<Rightarrow> session_wire option" where
  "Unmarshal_wire data =
     (case json_parse data of
        Some JNull \<Rightarrow> Some \<lparr>wire_Subject = None, wire_Data = None\<rparr>
      | Some (JObject _) \<Rightarrow> foldO wire_member (json_members data) \<lparr>wire_Subject = None, wire_Data = None\<rparr>
      | _ \<Rightarrow> None)"

definition raw_length :: "RawMessage \<Rightarrow> nat" where
  "raw_length raw = (case raw of None \<Rightarrow> 0 | Some m \<Rightarrow> length m)"

definition Session_UnmarshalJSON :: "Session option \<Rightarrow> string \<Rightarrow> error + Session option" where
  "Session_UnmarshalJSON s data =
     (case s of
        None \<Rightarrow> Inl ErrEmptySessionID
      | Some s \<Rightarrow>
          if TrimSpace data = ''null'' then Inr (Some s)
          else
            (case Unmarshal_wire data of
               None \<Rightarrow> Inl json_error
             | Some wire \<Rightarrow>
                 (case (if 0 < raw_length (wire_Subject wire)
                        then Unmarshal_subject (the (wire_Subject wire)) (se_Subject s) else Some (se_Subject s)) of
                    None \<Rightarrow> Inl json_error
                  | Some subject \<Rightarrow>
                      (case (if 0 < raw_length (wire_Data wire)
                             then Decode_data (the (wire_Data wire)) (se_Data s) else Some (se_Data s)) of
                         None \<Rightarrow> Inl json_error
                       | Some values \<Rightarrow> Inr (Some \<lparr>se_Subject = subject, se_Data = values\<rparr>)))))"

text \<open>\<open>json.Marshal(session)\<close> checks and compacts what \<open>MarshalJSON\<close> gives, which it already is;
  \<open>json.Unmarshal(data, new(Session))\<close> checks the text and hands it to \<open>UnmarshalJSON\<close>.\<close>

definition Session_Marshal :: "other_json \<Rightarrow> Session \<Rightarrow> error + string" where
  "Session_Marshal other s =
     (case Session_MarshalJSON other (Some s) of
        Inl e \<Rightarrow> Inl e
      | Inr d \<Rightarrow> (case json_parse d of None \<Rightarrow> Inl json_error | Some v \<Rightarrow> Inr (json_print (json_html v))))"

definition new_Session :: Session where
  "new_Session = \<lparr>se_Subject = \<lparr>sub_LoginID = [], sub_LoginType = []\<rparr>, se_Data = None\<rparr>"

definition Session_Unmarshal :: "string \<Rightarrow> error + Session" where
  "Session_Unmarshal data =
     (if json_parse data = None then Inl json_error
      else
        (case Session_UnmarshalJSON (Some new_Session) data of
           Inl e \<Rightarrow> Inl e
         | Inr None \<Rightarrow> Inl json_error
         | Inr (Some s) \<Rightarrow> Inr s))"
subsection \<open>Decimal numbers\<close>

lemma char_zero: "k < 10 \<Longrightarrow> char_of (48 + k) = CHR ''0'' \<longleftrightarrow> k = (0::nat)"
proof -
  assume "k < 10"
  then have of: "of_char (char_of (48 + k) :: char) = 48 + k" by simp
  show ?thesis
  proof
    assume "char_of (48 + k) = CHR ''0''"
    with of have "of_char (CHR ''0'') = 48 + k" by metis
    then show "k = 0" by simp
  next
    assume "k = 0"
    moreover have "char_of (48 :: nat) = CHR ''0''" by code_simp
    ultimately show "char_of (48 + k) = CHR ''0''" by simp
  qed
qed

lemma decimal_nat_small: "n < 10 \<Longrightarrow> decimal_nat n = [char_of (48 + n)]"
  by (subst decimal_nat.simps) simp

lemma decimal_nat_step: "\<not> n < 10 \<Longrightarrow> decimal_nat n = decimal_nat (n div 10) @ [char_of (48 + n mod 10)]"
  by (subst decimal_nat.simps) simp

lemma decimal_nat_0: "decimal_nat 0 = ''0''"
  using char_zero [of 0] by (simp add: decimal_nat_small)

lemma decimal_nat_digits:
  "list_all is_digit (decimal_nat n)" "decimal_nat n \<noteq> []" "digits_value 0 (decimal_nat n) = int n"
  "hd (decimal_nat n) = CHR ''0'' \<longleftrightarrow> n = 0"
proof (induction n rule: less_induct)
  case (less n)
  have all: "list_all is_digit (decimal_nat n) \<and> decimal_nat n \<noteq> [] \<and> digits_value 0 (decimal_nat n) = int n
      \<and> (hd (decimal_nat n) = CHR ''0'' \<longleftrightarrow> n = 0)"
  proof (cases "n < 10")
    case True
    with char_digit [of "int n"] show ?thesis
      by (simp add: decimal_nat_small char_zero digits_value_Cons)
  next
    case False
    then have "n div 10 < n" "n div 10 \<noteq> 0" by simp_all
    moreover have "int (n div 10) * 10 + int (n mod 10) = int n" by presburger
    moreover have "digits_value 0 [char_of (48 + n mod 10)] = int (n mod 10)"
      using char_digit(2) [of "int (n mod 10)"] by (simp add: digits_value_Cons)
    ultimately show ?thesis
      using False less(1,2,3,4) [of "n div 10"] char_digit(1) [of "int (n mod 10)"]
      by (simp add: decimal_nat_step digits_value_append)
  qed
  { case 1 then show ?case using all by simp next
    case 2 then show ?case using all by simp next
    case 3 then show ?case using all by simp next
    case 4 then show ?case using all by simp }
qed

lemma ParseInt_decimal: "int64_range n \<Longrightarrow> ParseInt (decimal n) = Some n"
  using ParseInt_digits [OF decimal_nat_digits(2,1)] by (simp add: decimal_def decimal_nat_digits(3))

lemma scan_end: "scan_fraction [] = Some ([], [])" "scan_exponent [] = Some ([], [])"
  by (simp_all add: scan_fraction_def scan_exponent_def)

lemma scan_digits:
  assumes "list_all is_digit ds" "ds \<noteq> []" "hd ds = CHR ''0'' \<longrightarrow> ds = ''0''"
  shows "scan_number ds = Some (ds, [])" "scan_number (CHR ''-'' # ds) = Some (CHR ''-'' # ds, [])"
proof -
  have all: "\<forall>x \<in> set ds. is_digit x" using assms(1) by (simp add: list_all_iff)
  obtain c cs where ds: "ds = c # cs" using assms(2) by (cases ds) auto
  have c: "is_digit c" using all ds by simp
  have minus: "(c = CHR ''-'') = False" using c by auto
  have w: "takeWhile is_digit (c # cs) = c # cs" "dropWhile is_digit (c # cs) = []"
    using while_all [OF all] ds by (simp_all del: takeWhile.simps dropWhile.simps)
  show "scan_number ds = Some (ds, [])"
  proof (cases "c = CHR ''0''")
    case True
    then show ?thesis using assms(3) ds by (simp add: scan_number_def Let_def scan_end)
  next
    case False
    then show ?thesis unfolding ds scan_number_def Let_def list.sel minus
      by (simp add: scan_end w del: takeWhile.simps dropWhile.simps)
  qed
  show "scan_number (CHR ''-'' # ds) = Some (CHR ''-'' # ds, [])"
  proof (cases "c = CHR ''0''")
    case True
    then show ?thesis using assms(3) ds by (simp add: scan_number_def Let_def scan_end)
  next
    case False
    then show ?thesis unfolding ds scan_number_def Let_def list.sel
      by (simp add: scan_end w del: takeWhile.simps dropWhile.simps)
  qed
qed

lemma decimal_number_ok: "number_ok (decimal n)"
proof -
  have "hd (decimal_nat k) = CHR ''0'' \<longrightarrow> decimal_nat k = ''0''" for k
    using decimal_nat_digits(4) [of k] decimal_nat_0 by auto
  then have "scan_number (decimal n) = Some (decimal n, [])"
    using scan_digits [OF decimal_nat_digits(1,2)] by (simp add: decimal_def)
  then show ?thesis by (rule scan_number_ok)
qed

text \<open>The number read is the number written, whatever its size.\<close>

lemma json_number_decimal: "0 \<le> n \<Longrightarrow> json_number False (decimal n) [] 0 (decimal n)"
proof -
  assume "0 \<le> n"
  then have d: "decimal n = decimal_nat (nat n)" by (simp add: decimal_def)
  have "hd (decimal_nat k) = CHR ''0'' \<longrightarrow> tl (decimal_nat k) = []" for k
    using decimal_nat_digits(4) [of k] decimal_nat_0 by auto
  then show ?thesis
    unfolding d json_number_def json_fraction_def json_exponent_def
    using decimal_nat_digits(1,2) [of "nat n"] by (intro conjI exI [of _ "[]"]) simp_all
qed

lemma denotes_decimal: "0 \<le> n \<Longrightarrow> denotes (AnyNumber (decimal n)) (of_int n)"
  using denotes.number [OF json_number_decimal [of n]] decimal_nat_digits(3) [of "nat n"]
  by (simp add: number_value_def decimal_def)

end
