(* ===== verification/Database_Store.thy ===== *)
theory Database_Store
  imports Session_Json Store_Port
begin

text \<open>
  The database store of \<open>storage/database/store.go\<close>. What GORM and the database do is a parameter:
  a record of the statements that the store builds, where a condition of SQL is a predicate on the
  rows and an assignment a function from the old row to the new one. A column that is NULL reads as
  the zero value of its field.
\<close>

subsection \<open>Rows\<close>

record tokenStateRecord =
  tr_Token :: string
  tr_Kind :: string
  tr_LoginID :: string
  tr_LoginType :: string
  tr_Status :: string
  tr_Device :: string
  tr_StateJSON :: string
  tr_ExpiresAt :: "time option"
  tr_LastActiveAt :: time
  tr_CreatedAt :: time

record sessionRecord =
  sr_LoginID :: string
  sr_LoginType :: string
  sr_DataJSON :: string
  sr_ExpiresAt :: "time option"
  sr_CreatedAt :: time

subsection \<open>The libraries\<close>

text \<open>
  The statements of a GORM session: \<open>First\<close> with and without a row lock, \<open>Find\<close>, \<open>Updates\<close> with the
  number of rows it hit, the upsert by primary key, and \<open>Delete\<close>. The upsert of a session is given
  the assignments to make when the row exists.
\<close>

record 'w gorm =
  g_First :: "(tokenStateRecord \<Rightarrow> bool) \<Rightarrow> ('w, error, tokenStateRecord) op"
  g_FirstForUpdate :: "(tokenStateRecord \<Rightarrow> bool) \<Rightarrow> ('w, error, tokenStateRecord) op"
  g_Find :: "(tokenStateRecord \<Rightarrow> bool) \<Rightarrow> ('w, error, tokenStateRecord list) op"
  g_Updates :: "(tokenStateRecord \<Rightarrow> bool) \<Rightarrow> (tokenStateRecord \<Rightarrow> tokenStateRecord) \<Rightarrow> ('w, error, nat) op"
  g_Upsert :: "tokenStateRecord \<Rightarrow> ('w, error, unit) op"
  g_Delete :: "(tokenStateRecord \<Rightarrow> bool) \<Rightarrow> ('w, error, unit) op"
  g_FirstSession :: "(sessionRecord \<Rightarrow> bool) \<Rightarrow> ('w, error, sessionRecord) op"
  g_UpsertSession :: "(sessionRecord \<Rightarrow> sessionRecord) \<Rightarrow> sessionRecord \<Rightarrow> ('w, error, unit) op"
  g_DeleteSession :: "(sessionRecord \<Rightarrow> bool) \<Rightarrow> ('w, error, unit) op"

text \<open>The handle: a session with transactions, whose body gets a session of its own.\<close>

record 'w gorm_db = "'w gorm" +
  g_Transaction :: "('w gorm \<Rightarrow> ('w, error, TokenState option) op) \<Rightarrow> ('w, error, TokenState option) op"
  g_AutoMigrate :: "('w, error, unit) op"

definition gorm_ErrRecordNotFound :: error where
  "gorm_ErrRecordNotFound = ErrLibrary ''record not found''"

text \<open>\<open>db.Provider\<close> gives the handle that is bound to a context.\<close>

type_synonym 'w db_Provider = "ctx \<Rightarrow> 'w gorm_db"

record 'w db_Store =
  ds_db :: "'w db_Provider"

definition db_NewStore :: "'w db_Provider option \<Rightarrow> 'w db_Store go_option list \<Rightarrow> 'w db_Store option" where
  "db_NewStore provider opts =
     (case provider of None \<Rightarrow> None | Some p \<Rightarrow> Some (option_Apply \<lparr>ds_db = p\<rparr> opts))"

definition Migrate :: "'w db_Store \<Rightarrow> ctx \<Rightarrow> ('w, error, unit) op" where
  "Migrate s c = g_AutoMigrate (ds_db s c)"

definition contextErr :: "ctx \<Rightarrow> ('x, unit) eop" where
  "contextErr c = (case c of None \<Rightarrow> ret () | Some _ \<Rightarrow> ctxErr c)"

definition decodeTokenState :: "string \<Rightarrow> error + TokenState" where
  "decodeTokenState data =
     (case TokenState_Unmarshal data of Inl e \<Rightarrow> Inl e | Inr state \<Rightarrow> Inr (TokenState_Normalize state))"

definition kindsToStrings :: "TokenKind list \<Rightarrow> string list option" where
  "kindsToStrings kinds = (if kinds = [] then None else Some (map (\<lambda>k. k) kinds))"

text \<open>\<open>expires_at IS NULL OR expires_at > now\<close> and \<open>expires_at <= now\<close>, which is not true of NULL.\<close>

definition sql_live :: "time option \<Rightarrow> time \<Rightarrow> bool" where
  "sql_live expires now \<longleftrightarrow> (case expires of None \<Rightarrow> True | Some e \<Rightarrow> e > now)"

definition sql_expired :: "time option \<Rightarrow> time \<Rightarrow> bool" where
  "sql_expired expires now \<longleftrightarrow> (case expires of None \<Rightarrow> False | Some e \<Rightarrow> e \<le> now)"

subsection \<open>Tokens\<close>

definition state_record :: "TokenState \<Rightarrow> string \<Rightarrow> time \<Rightarrow> duration \<Rightarrow> tokenStateRecord" where
  "state_record clone data now ttl =
     \<lparr>tr_Token = ts_Token clone, tr_Kind = ts_Kind clone, tr_LoginID = ts_LoginID clone,
      tr_LoginType = ts_LoginType clone, tr_Status = ts_Status clone, tr_Device = ts_Device clone,
      tr_StateJSON = data, tr_ExpiresAt = EffectiveExpiresAt clone now ttl,
      tr_LastActiveAt = ts_LastActiveAt clone, tr_CreatedAt = ts_CreatedAt clone\<rparr>"

text \<open>The guarded update: every selected column but the key is overwritten.\<close>

definition db_swap ::
    "'x env_scheme gorm_db \<Rightarrow> tokenStateRecord \<Rightarrow> TokenState \<Rightarrow> ('x, unit) eop" where
  "db_swap db record expected =
     bindE (attempt (g_First db (\<lambda>r. tr_Token r = tr_Token record))) (\<lambda>found.
     case found of
       Inl err \<Rightarrow> if errors_Is err gorm_ErrRecordNotFound then throw ErrTokenInvalid else throw err
     | Inr old \<Rightarrow>
         bindE (from_sum (decodeTokenState (tr_StateJSON old))) (\<lambda>previous.
         if previous \<noteq> expected then throw ErrTokenInvalid
         else
           bindE read_now (\<lambda>now.
           bindE (g_Updates db
             (\<lambda>r. tr_Token r = tr_Token record \<and> tr_StateJSON r = tr_StateJSON old \<and> sql_live (tr_ExpiresAt r) now)
             (\<lambda>r. record\<lparr>tr_Token := tr_Token r\<rparr>)) (\<lambda>rowsAffected.
           if rowsAffected \<noteq> 1 then throw ErrTokenInvalid else ret ()))))"

definition db_saveTokenState ::
    "'x env_scheme db_Store \<Rightarrow> ctx \<Rightarrow> TokenState option \<Rightarrow> TokenState option \<Rightarrow> duration \<Rightarrow>
     ('x, unit) eop" where
  "db_saveTokenState s c expected state ttl =
     bindE (contextErr c) (\<lambda>_.
     case state of
       None \<Rightarrow> throw ErrEmptyToken
     | Some state \<Rightarrow>
         let clone = TokenState_Clone state
         in if ts_Token clone = [] then throw ErrEmptyToken
            else
              let clone = TokenState_Normalize clone
              in if ts_LoginID clone = [] \<and> ts_Kind clone \<noteq> TokenKindNonce then throw ErrEmptyLoginID
                 else
                   bindE (from_sum (TokenState_Marshal clone)) (\<lambda>data.
                   bindE read_now (\<lambda>now.
                   let record = state_record clone data now ttl
                   in case expected of
                        Some e \<Rightarrow> db_swap (ds_db s c) record e
                      | None \<Rightarrow> g_Upsert (ds_db s c) record)))"

definition db_SaveTokenState ::
    "'x env_scheme db_Store \<Rightarrow> ctx \<Rightarrow> TokenState option \<Rightarrow> duration \<Rightarrow> ('x, unit) eop" where
  "db_SaveTokenState s c state ttl = db_saveTokenState s c None state ttl"

definition db_CompareAndSwapTokenState ::
    "'x env_scheme db_Store \<Rightarrow> ctx \<Rightarrow> TokenState option \<Rightarrow> TokenState option \<Rightarrow> duration \<Rightarrow>
     ('x, bool) eop" where
  "db_CompareAndSwapTokenState s c expected next ttl =
     (case (expected, next) of
        (Some e, Some n) \<Rightarrow>
          if ts_Token e \<noteq> ts_Token n then throw ErrTokenInvalid
          else
            bindE (attempt (db_saveTokenState s c expected next ttl)) (\<lambda>err.
            case err of
              Inl e \<Rightarrow> if e = ErrTokenInvalid then ret False else throw e
            | Inr _ \<Rightarrow> ret True)
      | _ \<Rightarrow> throw ErrTokenInvalid)"

definition db_GetTokenState ::
    "'x env_scheme db_Store \<Rightarrow> ctx \<Rightarrow> TokenValue \<Rightarrow> ('x, TokenState option) eop" where
  "db_GetTokenState s c token =
     bindE (contextErr c) (\<lambda>_.
     bindE (attempt (g_First (ds_db s c) (\<lambda>r. tr_Token r = token))) (\<lambda>found.
     case found of
       Inl err \<Rightarrow> if errors_Is err gorm_ErrRecordNotFound then ret None else throw err
     | Inr record \<Rightarrow>
         bindE (from_sum (decodeTokenState (tr_StateJSON record))) (\<lambda>state.
         case tr_ExpiresAt record of
           None \<Rightarrow> ret (Some state)
         | Some e \<Rightarrow>
             bindE read_now (\<lambda>now.
             if Before now e then ret (Some state)
             else
               bindE read_now (\<lambda>now.
               bindE (g_Delete (ds_db s c)
                 (\<lambda>r. tr_Token r = token \<and> tr_StateJSON r = tr_StateJSON record \<and> sql_expired (tr_ExpiresAt r) now)) (\<lambda>_.
               ret None))))))"

text \<open>The body of the transaction; \<open>state\<close> and \<open>found\<close> are its result. When the update hits no
  row, another transaction has won: the current row is read again.\<close>

definition db_consume_lost ::
    "'x env_scheme gorm \<Rightarrow> TokenValue \<Rightarrow> TokenKind \<Rightarrow> time \<Rightarrow> ('x, TokenState option) eop" where
  "db_consume_lost tx token kind now =
     bindE (attempt (g_First tx (\<lambda>r. tr_Token r = token))) (\<lambda>found.
     case found of
       Inl err \<Rightarrow> if errors_Is err gorm_ErrRecordNotFound then ret None else throw err
     | Inr current \<Rightarrow>
         bindE (from_sum (decodeTokenState (tr_StateJSON current))) (\<lambda>reloaded.
         if IsActive reloaded now \<and> (kind = [] \<or> ts_Kind reloaded = kind) then throw ErrTokenInvalid
         else ret (Some (TokenState_Clone reloaded))))"

definition db_consume_tx ::
    "TokenValue \<Rightarrow> TokenKind \<Rightarrow> 'x env_scheme gorm \<Rightarrow> ('x, TokenState option) eop" where
  "db_consume_tx token kind tx =
     bindE (attempt (g_FirstForUpdate tx (\<lambda>r. tr_Token r = token))) (\<lambda>found.
     case found of
       Inl err \<Rightarrow> if errors_Is err gorm_ErrRecordNotFound then ret None else throw err
     | Inr record \<Rightarrow>
         bindE (from_sum (decodeTokenState (tr_StateJSON record))) (\<lambda>decoded.
         bindE read_now (\<lambda>now.
         let expired = (case tr_ExpiresAt record of None \<Rightarrow> False | Some e \<Rightarrow> \<not> Before now e)
         in if expired then bindE (g_Delete tx (\<lambda>r. tr_Token r = token)) (\<lambda>_. ret None)
            else
              let state = TokenState_Clone decoded
              in if \<not> IsActive decoded now \<or> kind \<noteq> [] \<and> ts_Kind decoded \<noteq> kind then ret (Some state)
                 else
                   let consumed = MarkConsumed (TokenState_Clone decoded) now
                   in bindE (from_sum (TokenState_Marshal consumed)) (\<lambda>data.
                      bindE (g_Updates tx
                        (\<lambda>r. tr_Token r = token \<and> (tr_Status r = TokenStatusActive \<or> tr_Status r = [])
                             \<and> tr_StateJSON r = tr_StateJSON record \<and> sql_live (tr_ExpiresAt r) now)
                        (\<lambda>r. r\<lparr>tr_Status := TokenStatusConsumed, tr_StateJSON := data\<rparr>)) (\<lambda>rowsAffected.
                      if rowsAffected = 0 then db_consume_lost tx token kind now
                      else ret (Some state))))))"

definition db_consumeTokenState ::
    "'x env_scheme db_Store \<Rightarrow> ctx \<Rightarrow> TokenValue \<Rightarrow> TokenKind \<Rightarrow> ('x, TokenState option) eop" where
  "db_consumeTokenState s c token kind =
     bindE (contextErr c) (\<lambda>_. g_Transaction (ds_db s c) (db_consume_tx token kind))"

definition db_ConsumeTokenState ::
    "'x env_scheme db_Store \<Rightarrow> ctx \<Rightarrow> TokenValue \<Rightarrow> ('x, TokenState option) eop" where
  "db_ConsumeTokenState s c token = db_consumeTokenState s c token []"

definition db_ConsumeTokenStateOfKind ::
    "'x env_scheme db_Store \<Rightarrow> ctx \<Rightarrow> TokenValue \<Rightarrow> TokenKind \<Rightarrow> ('x, TokenState option) eop" where
  "db_ConsumeTokenStateOfKind s c token kind =
     (if kind = [] then throw ErrUnsupportedKind else db_consumeTokenState s c token kind)"

definition db_DeleteTokenState :: "'x env_scheme db_Store \<Rightarrow> ctx \<Rightarrow> TokenValue \<Rightarrow> ('x, unit) eop" where
  "db_DeleteTokenState s c token =
     bindE (contextErr c) (\<lambda>_. g_Delete (ds_db s c) (\<lambda>r. tr_Token r = token))"

fun decode_records :: "tokenStateRecord list \<Rightarrow> error + TokenState list" where
  "decode_records [] = Inr []"
| "decode_records (r # rs) =
     (case decodeTokenState (tr_StateJSON r) of
        Inl e \<Rightarrow> Inl e
      | Inr state \<Rightarrow> (case decode_records rs of Inl e \<Rightarrow> Inl e | Inr states \<Rightarrow> Inr (state # states)))"

text \<open>The rows of a login, restricted to kinds when some are asked for.\<close>

definition owner_query :: "LoginSubject \<Rightarrow> TokenKind list \<Rightarrow> tokenStateRecord \<Rightarrow> bool" where
  "owner_query key kinds r \<longleftrightarrow> tr_LoginID r = sub_LoginID key \<and> tr_LoginType r = sub_LoginType key
     \<and> (case kindsToStrings kinds of None \<Rightarrow> True | Some kindStrings \<Rightarrow> tr_Kind r \<in> set kindStrings)"

definition db_FindTokenStates ::
    "'x env_scheme db_Store \<Rightarrow> ctx \<Rightarrow> LoginSubject \<Rightarrow> TokenKind list \<Rightarrow>
     ('x, TokenState option list) eop" where
  "db_FindTokenStates s c subject kinds =
     bindE (contextErr c) (\<lambda>_.
     let key = LoginSubject_Normalize subject
     in bindE read_now (\<lambda>now.
        bindE (g_Delete (ds_db s c)
          (\<lambda>r. tr_LoginID r = sub_LoginID key \<and> tr_LoginType r = sub_LoginType key \<and> sql_expired (tr_ExpiresAt r) now)) (\<lambda>_.
        bindE (g_Find (ds_db s c) (owner_query key kinds)) (\<lambda>records.
        bindE (from_sum (decode_records records)) (\<lambda>states.
        ret (map Some states))))))"

definition db_DeleteTokenStates ::
    "'x env_scheme db_Store \<Rightarrow> ctx \<Rightarrow> LoginSubject \<Rightarrow> TokenKind list \<Rightarrow> ('x, unit) eop" where
  "db_DeleteTokenStates s c subject kinds =
     bindE (contextErr c) (\<lambda>_.
     let key = LoginSubject_Normalize subject
     in g_Delete (ds_db s c) (owner_query key kinds))"

subsection \<open>Sessions\<close>

definition db_SaveSession ::
    "other_json \<Rightarrow> 'x env_scheme db_Store \<Rightarrow> ctx \<Rightarrow> Session option \<Rightarrow> duration \<Rightarrow> ('x, unit) eop" where
  "db_SaveSession other s c session ttl =
     bindE (contextErr c) (\<lambda>_.
     case session of
       None \<Rightarrow> throw ErrEmptySessionID
     | Some session \<Rightarrow>
         let key = LoginSubject_Normalize (se_Subject session)
         in if LoginSubject_IsZero key then throw ErrEmptySessionID
            else
              bindE (from_sum (Session_Marshal other (Session_Clone session))) (\<lambda>data.
              bindE (if ttl > 0 then bindE read_now (\<lambda>now. ret (Some (Time_Add now ttl))) else ret None) (\<lambda>expiresAt.
              bindE read_now (\<lambda>now.
              let record = \<lparr>sr_LoginID = sub_LoginID key, sr_LoginType = sub_LoginType key, sr_DataJSON = data,
                            sr_ExpiresAt = expiresAt, sr_CreatedAt = now\<rparr>
              in g_UpsertSession (ds_db s c)
                   (\<lambda>old. old\<lparr>sr_DataJSON := sr_DataJSON record, sr_ExpiresAt := sr_ExpiresAt record\<rparr>) record))))"

text \<open>The assignments of the upsert read the old row: an expired one is reset.\<close>

definition ensure_assignments :: "time \<Rightarrow> string \<Rightarrow> time option \<Rightarrow> sessionRecord \<Rightarrow> sessionRecord" where
  "ensure_assignments now data expires old =
     old\<lparr>sr_DataJSON := (if sql_expired (sr_ExpiresAt old) now then data else sr_DataJSON old),
         sr_CreatedAt := (if sql_expired (sr_ExpiresAt old) now then now else sr_CreatedAt old),
         sr_ExpiresAt := expires\<rparr>"

definition db_EnsureSession ::
    "other_json \<Rightarrow> 'x env_scheme db_Store \<Rightarrow> ctx \<Rightarrow> LoginSubject \<Rightarrow> duration \<Rightarrow> ('x, unit) eop" where
  "db_EnsureSession other s c subject ttl =
     bindE (contextErr c) (\<lambda>_.
     let subject = LoginSubject_Normalize subject
     in if LoginSubject_IsZero subject then throw ErrEmptySessionID
        else
          bindE read_now (\<lambda>now.
          let expires = (if ttl > 0 then Some (Time_Add now ttl) else None)
          in bindE (from_sum (Session_Marshal other (NewSessionForSubject subject))) (\<lambda>data.
             let record = \<lparr>sr_LoginID = sub_LoginID subject, sr_LoginType = sub_LoginType subject,
                           sr_DataJSON = data, sr_ExpiresAt = expires, sr_CreatedAt = now\<rparr>
             in g_UpsertSession (ds_db s c) (ensure_assignments now data expires) record)))"

definition session_query :: "LoginSubject \<Rightarrow> sessionRecord \<Rightarrow> bool" where
  "session_query key r \<longleftrightarrow> sr_LoginID r = sub_LoginID key \<and> sr_LoginType r = sub_LoginType key"

definition db_GetSession ::
    "'x env_scheme db_Store \<Rightarrow> ctx \<Rightarrow> LoginSubject \<Rightarrow> ('x, Session option) eop" where
  "db_GetSession s c subject =
     bindE (contextErr c) (\<lambda>_.
     let key = LoginSubject_Normalize subject
     in bindE (attempt (g_FirstSession (ds_db s c) (session_query key))) (\<lambda>found.
        case found of
          Inl err \<Rightarrow> if errors_Is err gorm_ErrRecordNotFound then ret None else throw err
        | Inr record \<Rightarrow>
            bindE (case sr_ExpiresAt record of
                     None \<Rightarrow> ret False
                   | Some e \<Rightarrow> bindE read_now (\<lambda>now. ret (\<not> Before now e))) (\<lambda>expired.
            if expired
            then
              bindE read_now (\<lambda>now.
              bindE (g_DeleteSession (ds_db s c) (\<lambda>r. session_query key r \<and> sql_expired (sr_ExpiresAt r) now)) (\<lambda>_.
              ret None))
            else bindE (from_sum (Session_Unmarshal (sr_DataJSON record))) (\<lambda>session. ret (Some session)))))"

definition db_DeleteSession :: "'x env_scheme db_Store \<Rightarrow> ctx \<Rightarrow> LoginSubject \<Rightarrow> ('x, unit) eop" where
  "db_DeleteSession s c subject =
     bindE (contextErr c) (\<lambda>_. g_DeleteSession (ds_db s c) (session_query (LoginSubject_Normalize subject)))"

subsection \<open>The ports it provides\<close>

definition db_store_ops :: "other_json \<Rightarrow> 'x env_scheme db_Store \<Rightarrow> 'x env_scheme store_ops" where
  "db_store_ops other s = \<lparr>
     st_SaveTokenState = db_SaveTokenState s, st_GetTokenState = db_GetTokenState s,
     st_ConsumeTokenState = db_ConsumeTokenState s, st_DeleteTokenState = db_DeleteTokenState s,
     st_FindTokenStates = db_FindTokenStates s, st_DeleteTokenStates = db_DeleteTokenStates s,
     st_SaveSession = db_SaveSession other s, st_GetSession = db_GetSession s,
     st_DeleteSession = db_DeleteSession s\<rparr>"

definition db_atomic_ops :: "other_json \<Rightarrow> 'x env_scheme db_Store \<Rightarrow> 'x env_scheme atomic_ops" where
  "db_atomic_ops other s = \<lparr>
     at_CompareAndSwapTokenState = db_CompareAndSwapTokenState s,
     at_ConsumeTokenStateOfKind = db_ConsumeTokenStateOfKind s,
     at_EnsureSession = db_EnsureSession other s\<rparr>"

end
