(* ===== verification/Token_Table.thy ===== *)
theory Token_Table
  imports Store_Port
begin

text \<open>
  What every store promises, as one abstract machine: a table of the live token states. The calls of
  \<open>Store\<close> and \<open>AtomicStore\<close> on tokens are steps of the table, and a store implements it when
  each of its methods simulates the step, for a clock that stands still, contexts that are not done and
  states that the store can hold.
\<close>

subsection \<open>The table\<close>

type_synonym token_table = "TokenValue \<Rightarrow> TokenState option"

datatype table_call =
    TSave TokenState duration
  | TSwap TokenState TokenState duration
  | TGet TokenValue
  | TConsume TokenValue
  | TConsumeKind TokenValue TokenKind
  | TDelete TokenValue
  | TFind LoginSubject "TokenKind list"
  | TDeleteAll LoginSubject "TokenKind list"

text \<open>The states found for a subject come in some order, without repetition.\<close>

datatype table_answer =
    ADone | ABool bool | AState "TokenState option" | AStates "TokenState set" bool

definition saved_state :: "TokenState \<Rightarrow> TokenState" where
  "saved_state s = TokenState_Normalize (TokenState_Clone s)"

definition put_live :: "time \<Rightarrow> TokenState \<Rightarrow> token_table \<Rightarrow> token_table" where
  "put_live now s T = T(ts_Token s := (if IsExpired (saved_state s) now then None else Some (saved_state s)))"

definition spend :: "time \<Rightarrow> TokenKind \<Rightarrow> TokenValue \<Rightarrow> token_table \<Rightarrow> token_table" where
  "spend now kind k T =
     (case T k of
        None \<Rightarrow> T
      | Some s \<Rightarrow> if IsActive s now \<and> (kind = [] \<or> ts_Kind s = kind) then T(k \<mapsto> MarkConsumed s now) else T)"

definition owned_by :: "LoginSubject \<Rightarrow> TokenKind list \<Rightarrow> TokenState \<Rightarrow> bool" where
  "owned_by subject kinds s \<longleftrightarrow>
     LoginSubject_Normalize (TokenState_Subject s) = LoginSubject_Normalize subject \<and> MatchKind (ts_Kind s) kinds"

definition owned :: "LoginSubject \<Rightarrow> TokenKind list \<Rightarrow> token_table \<Rightarrow> TokenState set" where
  "owned subject kinds T = {s. (\<exists>k. T k = Some s) \<and> owned_by subject kinds s}"

definition without_owned :: "LoginSubject \<Rightarrow> TokenKind list \<Rightarrow> token_table \<Rightarrow> token_table" where
  "without_owned subject kinds T = (\<lambda>k. case T k of None \<Rightarrow> None
     | Some s \<Rightarrow> if owned_by subject kinds s then None else Some s)"

fun table_step :: "time \<Rightarrow> table_call \<Rightarrow> token_table \<Rightarrow> table_answer \<times> token_table" where
  "table_step now (TSave s ttl) T = (ADone, put_live now s T)"
| "table_step now (TSwap e s ttl) T =
     (if T (ts_Token s) = Some e then (ABool True, put_live now s T) else (ABool False, T))"
| "table_step now (TGet k) T = (AState (T k), T)"
| "table_step now (TConsume k) T = (AState (T k), spend now [] k T)"
| "table_step now (TConsumeKind k kind) T = (AState (T k), spend now kind k T)"
| "table_step now (TDelete k) T = (ADone, T(k := None))"
| "table_step now (TFind subject kinds) T = (AStates (owned subject kinds T) True, T)"
| "table_step now (TDeleteAll subject kinds) T = (ADone, without_owned subject kinds T)"

fun table_run :: "time \<Rightarrow> table_call list \<Rightarrow> token_table \<Rightarrow> table_answer list" where
  "table_run now [] T = []"
| "table_run now (call # calls) T =
     (case table_step now call T of (a, T') \<Rightarrow> a # table_run now calls T')"

subsection \<open>The calls on a store\<close>

definition answerE :: "('a \<Rightarrow> table_answer) \<Rightarrow> ('w, error, 'a) op \<Rightarrow> ('w, error, table_answer) op" where
  "answerE f m = bindE m (\<lambda>x. ret (f x))"

definition found_states :: "TokenState option list \<Rightarrow> table_answer" where
  "found_states rs = AStates {s. Some s \<in> set rs} (distinct rs \<and> None \<notin> set rs)"

fun table_exec :: "'w store_ops \<Rightarrow> 'w atomic_ops \<Rightarrow> ctx \<Rightarrow> table_call \<Rightarrow> ('w, error, table_answer) op" where
  "table_exec S A c (TSave s ttl) = answerE (\<lambda>_. ADone) (st_SaveTokenState S c (Some s) ttl)"
| "table_exec S A c (TSwap e s ttl) = answerE ABool (at_CompareAndSwapTokenState A c (Some e) (Some s) ttl)"
| "table_exec S A c (TGet k) = answerE AState (st_GetTokenState S c k)"
| "table_exec S A c (TConsume k) = answerE AState (st_ConsumeTokenState S c k)"
| "table_exec S A c (TConsumeKind k kind) = answerE AState (at_ConsumeTokenStateOfKind A c k kind)"
| "table_exec S A c (TDelete k) = answerE (\<lambda>_. ADone) (st_DeleteTokenState S c k)"
| "table_exec S A c (TFind subject kinds) = answerE found_states (st_FindTokenStates S c subject kinds)"
| "table_exec S A c (TDeleteAll subject kinds) = answerE (\<lambda>_. ADone) (st_DeleteTokenStates S c subject kinds)"

fun store_answers ::
    "'w store_ops \<Rightarrow> 'w atomic_ops \<Rightarrow> (ctx \<times> table_call) list \<Rightarrow> 'w \<Rightarrow> (error + table_answer) list" where
  "store_answers S A [] w = []"
| "store_answers S A ((c, call) # calls) w =
     (case table_exec S A c call w of (r, w') \<Rightarrow> r # store_answers S A calls w')"

text \<open>The calls that the refinement is about: \<open>holds s\<close> says that the store can hold the state.\<close>

definition saveable :: "TokenState \<Rightarrow> bool" where
  "saveable s \<longleftrightarrow> ts_Token s \<noteq> [] \<and> (ts_LoginID s \<noteq> [] \<or> ts_Kind s = TokenKindNonce)"

fun call_held :: "(TokenState \<Rightarrow> bool) \<Rightarrow> table_call \<Rightarrow> bool" where
  "call_held holds (TSave s ttl) = (saveable s \<and> holds s)"
| "call_held holds (TSwap e s ttl) = (saveable s \<and> holds s \<and> ts_Token e = ts_Token s)"
| "call_held holds (TConsumeKind k kind) = (kind \<noteq> [])"
| "call_held holds call = True"

subsection \<open>The contract\<close>

abbreviation succeeds :: "('w, error, 'a) op \<Rightarrow> ('a \<Rightarrow> 'w \<Rightarrow> bool) \<Rightarrow> 'w \<Rightarrow> bool" where
  "succeeds m Q w \<equiv> wp m Q (\<lambda>_ _. False) w"

locale table_store =
  fixes rel :: "'x env_scheme \<Rightarrow> token_table \<Rightarrow> bool"
    and S :: "'x env_scheme store_ops" and A :: "'x env_scheme atomic_ops"
    and now :: time and holds :: "TokenState \<Rightarrow> bool"
  assumes save: "rel w T \<Longrightarrow> healthy c \<Longrightarrow> saveable s \<Longrightarrow> holds s \<Longrightarrow>
      succeeds (st_SaveTokenState S c (Some s) ttl) (\<lambda>_ w'. rel w' (put_live now s T)) w"
    and swap: "rel w T \<Longrightarrow> healthy c \<Longrightarrow> saveable s \<Longrightarrow> holds s \<Longrightarrow> ts_Token e = ts_Token s \<Longrightarrow>
      succeeds (at_CompareAndSwapTokenState A c (Some e) (Some s) ttl)
        (\<lambda>b w'. b = (T (ts_Token s) = Some e) \<and> rel w' (if b then put_live now s T else T)) w"
    and get: "rel w T \<Longrightarrow> healthy c \<Longrightarrow> succeeds (st_GetTokenState S c k) (\<lambda>r w'. r = T k \<and> rel w' T) w"
    and consume: "rel w T \<Longrightarrow> healthy c \<Longrightarrow>
      succeeds (st_ConsumeTokenState S c k) (\<lambda>r w'. r = T k \<and> rel w' (spend now [] k T)) w"
    and consume_kind: "rel w T \<Longrightarrow> healthy c \<Longrightarrow> kind \<noteq> [] \<Longrightarrow>
      succeeds (at_ConsumeTokenStateOfKind A c k kind) (\<lambda>r w'. r = T k \<and> rel w' (spend now kind k T)) w"
    and delete: "rel w T \<Longrightarrow> healthy c \<Longrightarrow> succeeds (st_DeleteTokenState S c k) (\<lambda>_ w'. rel w' (T(k := None))) w"
    and find: "rel w T \<Longrightarrow> healthy c \<Longrightarrow> succeeds (st_FindTokenStates S c subject kinds)
      (\<lambda>rs w'. distinct rs \<and> set rs = Some ` owned subject kinds T \<and> rel w' T) w"
    and delete_all: "rel w T \<Longrightarrow> healthy c \<Longrightarrow>
      succeeds (st_DeleteTokenStates S c subject kinds) (\<lambda>_ w'. rel w' (without_owned subject kinds T)) w"
begin

lemma exec_simulates:
  assumes "rel w T" "healthy c" "call_held holds call"
  shows "\<exists>w'. table_exec S A c call w = (Inr (fst (table_step now call T)), w') \<and> rel w' (snd (table_step now call T))"
proof (cases call)
  case (TSave s ttl)
  with assms save [of w T c s ttl] show ?thesis
    by (auto simp: wp_succeeds answerE_def bindE_def ret_def)
next
  case (TSwap e s ttl)
  with assms swap [of w T c s e ttl] show ?thesis
    by (auto simp: wp_succeeds answerE_def bindE_def ret_def)
next
  case (TGet k)
  with assms get [of w T c k] show ?thesis
    by (auto simp: wp_succeeds answerE_def bindE_def ret_def)
next
  case (TConsume k)
  with assms consume [of w T c k] show ?thesis
    by (auto simp: wp_succeeds answerE_def bindE_def ret_def)
next
  case (TConsumeKind k kind)
  with assms consume_kind [of w T c kind k] show ?thesis
    by (auto simp: wp_succeeds answerE_def bindE_def ret_def)
next
  case (TDelete k)
  with assms delete [of w T c k] show ?thesis
    by (auto simp: wp_succeeds answerE_def bindE_def ret_def)
next
  case (TFind subject kinds)
  from find [OF assms(1,2), of subject kinds] obtain rs w' where
    "st_FindTokenStates S c subject kinds w = (Inr rs, w')" "distinct rs"
    "set rs = Some ` owned subject kinds T" "rel w' T" by (auto simp: wp_succeeds)
  moreover from this(3) have "found_states rs = AStates (owned subject kinds T) (distinct rs)"
    by (auto simp: found_states_def)
  ultimately show ?thesis using TFind by (simp add: answerE_def bindE_def ret_def)
next
  case (TDeleteAll subject kinds)
  with assms delete_all [of w T c subject kinds] show ?thesis
    by (auto simp: wp_succeeds answerE_def bindE_def ret_def)
qed

lemma answers_refine:
  "rel w T \<Longrightarrow> \<forall>(c, call) \<in> set calls. healthy c \<and> call_held holds call \<Longrightarrow>
   store_answers S A calls w = map Inr (table_run now (map snd calls) T)"
proof (induction calls arbitrary: w T)
  case (Cons x calls)
  obtain c call where x: "x = (c, call)" by (cases x)
  with Cons.prems exec_simulates [of w T c call] obtain w' where
    "table_exec S A c call w = (Inr (fst (table_step now call T)), w')" "rel w' (snd (table_step now call T))"
    by auto
  with x Cons show ?case by (simp add: case_prod_unfold)
qed simp

end

end
