(* ===== verification/Stored_States.thy ===== *)
theory Stored_States
  imports Token_Table State_Json
begin

text \<open>
  What the stores that keep JSON on a server share: runs of steps that succeed, the live part of the
  stored states, and the states that their JSON gives back.
\<close>

subsection \<open>Runs that succeed\<close>

lemma succeeds_bind:
  "succeeds m P w \<Longrightarrow> (\<And>x w'. P x w' \<Longrightarrow> succeeds (f x) Q w') \<Longrightarrow> succeeds (bindE m f) Q w"
  unfolding wp_bindE by (erule wp_mono) simp_all

lemma wp_step:
  "succeeds m P w \<Longrightarrow> (\<And>x w'. P x w' \<Longrightarrow> wp (f x) Q E w') \<Longrightarrow> wp (bindE m f) Q E w"
  unfolding wp_bindE by (erule wp_mono) simp_all

lemma succeeds_ret: "Q x w \<Longrightarrow> succeeds (ret x) Q w"
  by (simp add: wp_ret)

subsection \<open>Stored and live states\<close>

text \<open>Of all stored states, the table knows those that have not expired.\<close>

definition live_part :: "time \<Rightarrow> token_table \<Rightarrow> token_table" where
  "live_part now U = (\<lambda>k. case U k of None \<Rightarrow> None | Some st \<Rightarrow> if IsExpired st now then None else Some st)"

lemma live_part_Some: "live_part now U m = Some st \<longleftrightarrow> U m = Some st \<and> \<not> IsExpired st now"
  by (auto simp: live_part_def split: option.split)

lemma live_part_at:
  "live_part now U k = (case U k of None \<Rightarrow> None | Some st \<Rightarrow> if IsExpired st now then None else Some st)"
  by (simp add: live_part_def)

lemma saveable_saved:
  "saveable st \<Longrightarrow> \<not> (ts_LoginID (saved_state st) = [] \<and> ts_Kind (saved_state st) \<noteq> TokenKindNonce)"
  by (auto simp: saveable_def saved_state_def TokenState_Normalize_def Let_def)

lemma saved_Token [simp]: "ts_Token (saved_state st) = ts_Token st"
  by (simp add: saved_state_def)

lemma live_part_put: "live_part now (U(ts_Token st \<mapsto> saved_state st)) = put_live now st (live_part now U)"
  by (auto simp: live_part_def put_live_def fun_eq_iff)

lemma live_part_drop: "live_part now (U(k := None)) = (live_part now U)(k := None)"
  by (auto simp: live_part_def fun_eq_iff)

lemma plain_MarkConsumed: "state_plain st \<Longrightarrow> time_ok t \<Longrightarrow> state_plain (MarkConsumed st t)"
  by (auto simp: state_plain_def MarkConsumed_def nonce_plain_def TokenStatusConsumed_def valid_utf8.simps(2) Let_def
      split: option.split)

lemma live_part_spent:
  assumes "U t = Some st" "\<not> IsExpired st now"
  shows "spend now kind t (live_part now U) =
    (if IsActive st now \<and> (kind = [] \<or> ts_Kind st = kind) then live_part now (U(t \<mapsto> MarkConsumed st now)) else live_part now U)"
  using assms by (auto simp: spend_def live_part_def fun_eq_iff IsExpired_def)

subsection \<open>JSON\<close>

lemma Unmarshal_nonempty: "TokenState_Unmarshal d = Inr st \<Longrightarrow> d \<noteq> []"
proof
  assume "TokenState_Unmarshal d = Inr st" "d = []"
  moreover have "isl (TokenState_Unmarshal [])" by code_simp
  ultimately show False by simp
qed

lemma plain_Marshal:
  assumes "state_plain st"
  obtains d where "TokenState_Marshal st = Inr d" "TokenState_Unmarshal d = Inr st" "d \<noteq> []"
  using state_roundtrip [OF assms] Unmarshal_nonempty by metis

end
