(* ===== verification/Database_Table.thy ===== *)
theory Database_Table
  imports Database_Store Stored_States
begin

text \<open>
  The database store implements the table of live states over any database that does what its
  statements promise: each row holds the JSON of the state under its primary key, and its columns repeat
  the fields of the state that the queries look at.
\<close>

subsection \<open>What the statements promise\<close>

type_synonym token_rows = "TokenValue \<Rightarrow> tokenStateRecord option"

text \<open>The outcome of reading the row under a key.\<close>

definition row_found :: "token_rows \<Rightarrow> TokenValue \<Rightarrow> error + tokenStateRecord \<Rightarrow> bool" where
  "row_found R k found \<longleftrightarrow> (case R k of
     None \<Rightarrow> (\<exists>e. found = Inl e \<and> errors_Is e gorm_ErrRecordNotFound) | Some r \<Rightarrow> found = Inr r)"

text \<open>
  \<open>ready w R\<close>: the database answers and \<open>R\<close> are its rows by primary key. \<open>First\<close> gives a row that
  meets the condition or \<open>ErrRecordNotFound\<close>, \<open>Find\<close> all of them, and an update or deletion changes
  those that meet its condition.
\<close>

locale sql_session =
  fixes ready :: "'x env_scheme \<Rightarrow> token_rows \<Rightarrow> bool"
    and g :: "('x env_scheme, 'z) gorm_scheme"
  assumes key: "ready w R \<Longrightarrow> R k = Some r \<Longrightarrow> tr_Token r = k"
    and First: "ready w R \<Longrightarrow> wp (g_First g P) (\<lambda>r w'. R (tr_Token r) = Some r \<and> P r \<and> ready w' R)
      (\<lambda>e w'. errors_Is e gorm_ErrRecordNotFound \<and> (\<forall>k r. R k = Some r \<longrightarrow> \<not> P r) \<and> ready w' R) w"
    and FirstForUpdate: "ready w R \<Longrightarrow> wp (g_FirstForUpdate g P) (\<lambda>r w'. R (tr_Token r) = Some r \<and> P r \<and> ready w' R)
      (\<lambda>e w'. errors_Is e gorm_ErrRecordNotFound \<and> (\<forall>k r. R k = Some r \<longrightarrow> \<not> P r) \<and> ready w' R) w"
    and Find: "ready w R \<Longrightarrow> succeeds (g_Find g P)
      (\<lambda>rs w'. distinct rs \<and> set rs = {r. R (tr_Token r) = Some r \<and> P r} \<and> ready w' R) w"
    and Updates: "ready w R \<Longrightarrow> \<forall>r. tr_Token (f r) = tr_Token r \<Longrightarrow> succeeds (g_Updates g P f)
      (\<lambda>n w'. n = card {k. \<exists>r. R k = Some r \<and> P r}
         \<and> ready w' (\<lambda>k. case R k of None \<Rightarrow> None | Some r \<Rightarrow> Some (if P r then f r else r))) w"
    and Upsert: "ready w R \<Longrightarrow> succeeds (g_Upsert g r) (\<lambda>_ w'. ready w' (R(tr_Token r \<mapsto> r))) w"
    and Delete: "ready w R \<Longrightarrow> succeeds (g_Delete g P)
      (\<lambda>_ w'. ready w' (\<lambda>k. case R k of None \<Rightarrow> None | Some r \<Rightarrow> if P r then None else Some r)) w"
begin

lemma First_key:
  assumes "ready w R"
  shows "wp (attempt (g_First g (\<lambda>r. tr_Token r = k))) (\<lambda>found w'. row_found R k found \<and> ready w' R) E w"
    and "wp (attempt (g_FirstForUpdate g (\<lambda>r. tr_Token r = k))) (\<lambda>found w'. row_found R k found \<and> ready w' R) E w"
proof -
  have none: "R k = None" if "\<forall>j r. R j = Some r \<longrightarrow> tr_Token r \<noteq> k"
    using that key [OF assms, of k] by (cases "R k") auto
  show "wp (attempt (g_First g (\<lambda>r. tr_Token r = k))) (\<lambda>found w'. row_found R k found \<and> ready w' R) E w"
    unfolding wp_attempt by (rule wp_mono [OF First [OF assms]]) (auto simp: row_found_def none)
  show "wp (attempt (g_FirstForUpdate g (\<lambda>r. tr_Token r = k))) (\<lambda>found w'. row_found R k found \<and> ready w' R) E w"
    unfolding wp_attempt by (rule wp_mono [OF FirstForUpdate [OF assms]]) (auto simp: row_found_def none)
qed

lemma Delete_key: "ready w R \<Longrightarrow> succeeds (g_Delete g (\<lambda>r. tr_Token r = k)) (\<lambda>_ w'. ready w' (R(k := None))) w"
proof (rule wp_mono [OF Delete], assumption)
  fix x w'
  assume "ready w R" and r: "ready w' (\<lambda>j. case R j of None \<Rightarrow> None | Some r \<Rightarrow> if tr_Token r = k then None else Some r)"
  have "(\<lambda>j. case R j of None \<Rightarrow> None | Some r \<Rightarrow> if tr_Token r = k then None else Some r) = R(k := None)"
    using key [OF \<open>ready w R\<close>] by (auto simp: fun_eq_iff split: option.split)
  with r show "ready w' (R(k := None))" by simp
qed simp

text \<open>An update of the row under a key, provided that it meets the rest of the condition.\<close>

lemma Updates_key:
  assumes "ready w R" "R k = Some r" "P r" "\<forall>r. tr_Token (f r) = tr_Token r"
    and "\<And>r. P r \<Longrightarrow> tr_Token r = k"
  shows "succeeds (g_Updates g P f) (\<lambda>n w'. n = 1 \<and> ready w' (R(k \<mapsto> f r))) w"
proof (rule wp_mono [OF Updates [OF assms(1,4)]], elim conjE)
  fix n w'
  assume n: "n = card {j. \<exists>r. R j = Some r \<and> P r}"
    and r: "ready w' (\<lambda>j. case R j of None \<Rightarrow> None | Some r \<Rightarrow> Some (if P r then f r else r))"
  have "{j. \<exists>r. R j = Some r \<and> P r} = {k}" using assms(2,3,5) key [OF assms(1)] by auto
  moreover have "(\<lambda>j. case R j of None \<Rightarrow> None | Some r \<Rightarrow> Some (if P r then f r else r)) = R(k \<mapsto> f r)"
    using assms(2,3,5) key [OF assms(1)] by (auto simp: fun_eq_iff split: option.split)
  ultimately show "n = 1 \<and> ready w' (R(k \<mapsto> f r))" using n r by simp
qed simp

lemma Updates_none:
  assumes "ready w R" "\<forall>k r. R k = Some r \<longrightarrow> \<not> P r" "\<forall>r. tr_Token (f r) = tr_Token r"
  shows "succeeds (g_Updates g P f) (\<lambda>n w'. n = 0 \<and> ready w' R) w"
proof (rule wp_mono [OF Updates [OF assms(1,3)]], elim conjE)
  fix n w'
  assume n: "n = card {j. \<exists>r. R j = Some r \<and> P r}"
    and r: "ready w' (\<lambda>j. case R j of None \<Rightarrow> None | Some r \<Rightarrow> Some (if P r then f r else r))"
  have "{j. \<exists>r. R j = Some r \<and> P r} = {}" using assms(2) by auto
  then have "n = 0" unfolding n by (simp only: card.empty)
  moreover have "(\<lambda>j. case R j of None \<Rightarrow> None | Some r \<Rightarrow> Some (if P r then f r else r)) = R"
    using assms(2) by (auto simp: fun_eq_iff split: option.split)
  ultimately show "n = 0 \<and> ready w' R" using r by simp
qed simp

end

text \<open>The handle of every context is such a session, and so is that of a transaction, which runs
  its body once. The clock stands at \<open>now\<close>.\<close>

locale sql_database =
  fixes ready :: "'x env_scheme \<Rightarrow> token_rows \<Rightarrow> bool"
    and s :: "'x env_scheme db_Store"
    and now :: time
  assumes clock: "ready w R \<Longrightarrow> env_clock w n = now"
    and ready_tick: "ready w R \<Longrightarrow> ready (tick w) R"
    and handle: "sql_session ready (ds_db s c)"
    and Transaction: "ready w R \<Longrightarrow> (\<And>tx. sql_session ready tx \<Longrightarrow> succeeds (body tx) Q w) \<Longrightarrow>
      succeeds (g_Transaction (ds_db s c) body) Q w"

subsection \<open>What the rows hold\<close>

text \<open>The states that the store can hold: those that JSON gives back and whose login has no
  blanks around it, because the rows are looked up by the trimmed login.\<close>

definition db_holds :: "TokenState \<Rightarrow> bool" where
  "db_holds st \<longleftrightarrow> state_plain (saved_state st)
     \<and> LoginSubject_Normalize (TokenState_Subject (saved_state st)) = TokenState_Subject (saved_state st)"

definition state_held :: "TokenValue \<Rightarrow> TokenState \<Rightarrow> bool" where
  "state_held k st \<longleftrightarrow> ts_Token st = k \<and> normal_state st \<and> cloned st \<and> state_plain st
     \<and> LoginSubject_Normalize (TokenState_Subject st) = TokenState_Subject st"

definition row_holds :: "time \<Rightarrow> TokenState \<Rightarrow> tokenStateRecord \<Rightarrow> bool" where
  "row_holds now st r \<longleftrightarrow> tr_Token r = ts_Token st \<and> TokenState_Unmarshal (tr_StateJSON r) = Inr st
     \<and> tr_Kind r = ts_Kind st \<and> tr_LoginID r = ts_LoginID st \<and> tr_LoginType r = ts_LoginType st
     \<and> tr_Status r = ts_Status st \<and> (sql_expired (tr_ExpiresAt r) now \<longleftrightarrow> IsExpired st now)"

definition entry_holds :: "time \<Rightarrow> TokenValue \<Rightarrow> TokenState option \<Rightarrow> tokenStateRecord option \<Rightarrow> bool" where
  "entry_holds now k u x \<longleftrightarrow> (case (u, x) of
     (None, None) \<Rightarrow> True | (Some st, Some r) \<Rightarrow> state_held k st \<and> row_holds now st r | _ \<Rightarrow> False)"

definition db_content :: "time \<Rightarrow> token_rows \<Rightarrow> token_table \<Rightarrow> bool" where
  "db_content now R U \<longleftrightarrow> (\<forall>k. entry_holds now k (U k) (R k))"

lemma entry_holds_simps [simp]:
  "entry_holds now k None x \<longleftrightarrow> x = None"
  "entry_holds now k u None \<longleftrightarrow> u = None"
  "entry_holds now k (Some st) (Some r) \<longleftrightarrow> state_held k st \<and> row_holds now st r"
  by (simp_all add: entry_holds_def split: option.split)

lemma db_contentD: "db_content now R U \<Longrightarrow> entry_holds now k (U k) (R k)"
  by (simp add: db_content_def)

lemma db_content_None: "db_content now R U \<Longrightarrow> U k = None \<longleftrightarrow> R k = None"
  using db_contentD [of now R U k] by (cases "U k"; cases "R k") simp_all

lemma db_content_Some:
  assumes "db_content now R U" "U k = Some st"
  obtains r where "R k = Some r" "row_holds now st r" "state_held k st"
  using db_contentD [OF assms(1), of k] assms(2) by (cases "R k") simp_all

lemma db_content_put:
  "db_content now R U \<Longrightarrow> state_held k st \<Longrightarrow> row_holds now st r \<Longrightarrow> db_content now (R(k \<mapsto> r)) (U(k \<mapsto> st))"
  unfolding db_content_def by (auto simp del: fun_upd_apply simp: fun_upd_def)

lemma db_content_drop: "db_content now R U \<Longrightarrow> db_content now (R(k := None)) (U(k := None))"
  unfolding db_content_def by (auto simp del: fun_upd_apply simp: fun_upd_def)

lemma sql_live_iff: "sql_live e now \<longleftrightarrow> \<not> sql_expired e now"
  by (auto simp: sql_live_def sql_expired_def split: option.split)

lemma sql_expired_Effective: "sql_expired (EffectiveExpiresAt st now ttl) now \<longleftrightarrow> IsExpired st now"
  using EffectiveExpiresAt_expired_iff [of st now ttl now]
  by (auto simp: sql_expired_def Time_Add_def split: option.split)

lemma decode_row: "row_holds now st r \<Longrightarrow> state_held k st \<Longrightarrow> decodeTokenState (tr_StateJSON r) = Inr st"
  by (simp add: row_holds_def state_held_def decodeTokenState_def)

lemma state_held_saved: "db_holds st \<Longrightarrow> state_held (ts_Token st) (saved_state st)"
  by (simp add: db_holds_def state_held_def) (simp add: saved_state_def)

lemma state_record_holds:
  "TokenState_Unmarshal d = Inr st \<Longrightarrow> row_holds now st (state_record st d now ttl)"
  by (simp add: row_holds_def state_record_def sql_expired_Effective)

lemma IsExpired_MarkConsumed [simp]: "IsExpired (MarkConsumed st t) now = IsExpired st now"
  by (simp add: IsExpired_def)

lemma state_held_consumed: "state_held k st \<Longrightarrow> time_ok t \<Longrightarrow> state_held k (MarkConsumed st t)"
  by (auto simp: state_held_def plain_MarkConsumed normal_state_def cloned_def TokenState_Subject_def)

definition db_rel :: "('w \<Rightarrow> token_rows \<Rightarrow> bool) \<Rightarrow> time \<Rightarrow> 'w \<Rightarrow> token_table \<Rightarrow> bool" where
  "db_rel ready now w T \<longleftrightarrow> (\<exists>R U. ready w R \<and> db_content now R U \<and> T = live_part now U)"

lemma db_relI: "ready w R \<Longrightarrow> db_content now R U \<Longrightarrow> live_part now U = T \<Longrightarrow> db_rel ready now w T"
  by (auto simp: db_rel_def)


context sql_database begin

lemma relI: "ready w R \<Longrightarrow> db_content now R U \<Longrightarrow> live_part now U = T \<Longrightarrow> db_rel ready now w T"
  by (rule db_relI)

lemma ctx_ok: "healthy c \<Longrightarrow> ready w R \<Longrightarrow> succeeds (contextErr c) (\<lambda>_ w'. ready w' R) w"
  unfolding contextErr_def
  by (auto simp: wp_ret ready_tick intro!: wp_ctxErr_healthy split: option.split)

lemma now_ok: "ready w R \<Longrightarrow> succeeds read_now (\<lambda>t w'. t = now \<and> ready w' R) w"
  by (simp add: wp_read_now clock ready_tick)

lemmas First_key = sql_session.First_key [OF handle]
  and Updates_key = sql_session.Updates_key [OF handle]
  and Updates_none = sql_session.Updates_none [OF handle]

subsection \<open>Saving\<close>

lemma swap_ok:
  assumes r: "ready w R" and C: "db_content now R U" and st: "state_held k st" and k: "ts_Token st = k"
    and d: "TokenState_Unmarshal d = Inr st"
  shows "wp (db_swap (ds_db s c) (state_record st d now ttl) e)
    (\<lambda>_ w'. (\<exists>R. ready w' R \<and> db_content now R (U(k \<mapsto> st))) \<and> live_part now U k = Some e)
    (\<lambda>x w'. x = ErrTokenInvalid \<and> ready w' R \<and> live_part now U k \<noteq> Some e) w"
proof -
  let ?rec = "state_record st d now ttl"
  have tok: "tr_Token ?rec = k" using k by (simp add: state_record_def)
  show ?thesis
    unfolding db_swap_def tok
  proof (rule wp_step [OF First_key(1) [OF r]], goal_cases)
    case (1 found v)
    then have r1: "ready v R" by simp
    show ?case
    proof (cases "U k")
      case None
      then have "R k = None" using db_content_None [OF C] by simp
      with 1 None show ?thesis by (auto simp: row_found_def wp_throw live_part_def)
    next
      case (Some u)
      then obtain old where old: "R k = Some old" "row_holds now u old" "state_held k u"
        using db_content_Some [OF C] by metis
      then have found: "found = Inr old" using 1 by (simp add: row_found_def)
      show ?thesis
      proof (cases "u = e")
        case False
        then show ?thesis
          using found r1 Some decode_row [OF old(2,3)] by (simp add: from_sum_def wp_ret wp_bindE wp_throw live_part_def)
      next
        case True
        let ?P = "\<lambda>r. tr_Token r = k \<and> tr_StateJSON r = tr_StateJSON old \<and> sql_live (tr_ExpiresAt r) now"
        let ?f = "\<lambda>r. ?rec\<lparr>tr_Token := tr_Token r\<rparr>"
        have old': "row_holds now st (?f old)"
          using state_record_holds [OF d, of now ttl] old(2,3) tok k by (simp add: row_holds_def state_held_def)
        have upd: "wp (g_Updates (ds_db s c) ?P ?f)
          (\<lambda>n w'. if IsExpired u now then n = 0 \<and> ready w' R else n = 1 \<and> ready w' (R(k \<mapsto> ?f old))) (\<lambda>_ _. False) (tick v)"
        proof (cases "IsExpired u now")
          case True
          have "\<forall>j r. R j = Some r \<longrightarrow> \<not> ?P r"
            using True old sql_session.key [OF handle r] by (auto simp: sql_live_iff row_holds_def)
          from Updates_none [OF ready_tick [OF r1] this, of ?f] True show ?thesis by simp
        next
          case False
          then have "?P old" using old sql_session.key [OF handle r] by (auto simp: sql_live_iff row_holds_def)
          with Updates_key [of "tick v" R k old ?P ?f c] False ready_tick [OF r1] old(1) show ?thesis by simp
        qed
        show ?thesis
          using found Some True decode_row [OF old(2,3)] clock [OF r1]
          by (simp add: from_sum_def wp_ret wp_bindE wp_read_now)
            (rule wp_mono [OF upd]; auto simp: wp_ret wp_throw live_part_def split: if_splits
              intro: db_content_put [OF C st old'])
      qed
    qed
  qed
qed

lemma saveTokenState_ok:
  assumes r: "ready w R" and C: "db_content now R U" and c: "healthy c" and st: "saveable st" "db_holds st"
  shows "wp (db_saveTokenState s c expected (Some st) ttl)
    (\<lambda>_ w'. (\<exists>R. ready w' R \<and> db_content now R (U(ts_Token st \<mapsto> saved_state st)))
       \<and> (\<forall>e. expected = Some e \<longrightarrow> live_part now U (ts_Token st) = Some e))
    (\<lambda>x w'. x = ErrTokenInvalid \<and> ready w' R \<and> (\<exists>e. expected = Some e \<and> live_part now U (ts_Token st) \<noteq> Some e)) w"
    (is "wp _ ?Q ?E w")
proof -
  obtain d where d: "TokenState_Marshal (saved_state st) = Inr d" "TokenState_Unmarshal d = Inr (saved_state st)"
    using plain_Marshal [of "saved_state st"] st(2) by (auto simp: db_holds_def)
  let ?rec = "state_record (saved_state st) d now ttl"
  note held = state_held_saved [OF st(2)]
  have ne: "ts_Token (TokenState_Clone st) \<noteq> []" using st(1) by (simp add: saveable_def)
  have id: "\<not> (ts_LoginID (saved_state st) = [] \<and> ts_Kind (saved_state st) \<noteq> TokenKindNonce)"
    by (rule saveable_saved [OF st(1)])
  have save: "wp (case expected of Some e \<Rightarrow> db_swap (ds_db s c) ?rec e | None \<Rightarrow> g_Upsert (ds_db s c) ?rec) ?Q ?E v"
    if v: "ready v R" for v
  proof (cases expected)
    case None
    have "tr_Token ?rec = ts_Token st" by (simp add: state_record_def)
    with None show ?thesis
      using db_content_put [OF C held state_record_holds [OF d(2)], of ttl]
      by simp (rule wp_mono [OF sql_session.Upsert [OF handle v]], simp add: exI del: fun_upd_apply, simp)
  next
    case (Some e)
    then show ?thesis
      by simp (rule wp_mono [OF swap_ok [OF v C held _ d(2)]]; auto)
  qed
  show ?thesis
    unfolding db_saveTokenState_def
  proof (rule wp_step [OF ctx_ok [OF c r]], goal_cases)
    case (1 x v)
    then have v: "ready v R" by simp
    then show ?case
      using ne id d(1) save [OF ready_tick [OF v]]
      by (simp add: Let_def saved_state_def [symmetric] from_sum_def wp_ret wp_bindE wp_read_now clock [OF v] cong: option.case_cong)
        (use id in blast)
  qed
qed

lemma SaveTokenState_ok:
  assumes "db_rel ready now w T" "healthy c" "saveable st" "db_holds st"
  shows "succeeds (db_SaveTokenState s c (Some st) ttl) (\<lambda>_ w'. db_rel ready now w' (put_live now st T)) w"
proof -
  from assms(1) obtain R U where r: "ready w R" "db_content now R U" and T: "T = live_part now U" by (auto simp: db_rel_def)
  show ?thesis
    unfolding db_SaveTokenState_def
    by (rule wp_mono [OF saveTokenState_ok [OF r assms(2-4)]]) (auto simp: T live_part_put [symmetric] intro: relI)
qed

lemma CompareAndSwap_ok:
  assumes "db_rel ready now w T" "healthy c" "saveable st" "db_holds st" "ts_Token e = ts_Token st"
  shows "succeeds (db_CompareAndSwapTokenState s c (Some e) (Some st) ttl)
    (\<lambda>b w'. b = (T (ts_Token st) = Some e) \<and> db_rel ready now w' (if b then put_live now st T else T)) w"
proof -
  from assms(1) obtain R U where r: "ready w R" "db_content now R U" and T: "T = live_part now U" by (auto simp: db_rel_def)
  show ?thesis
    unfolding db_CompareAndSwapTokenState_def prod.case option.case T
    using assms(5) by (simp add: wp_bindE wp_attempt)
      (rule wp_mono [OF saveTokenState_ok [OF r assms(2-4), of "Some e"]];
        auto simp: wp_ret live_part_put [symmetric] intro: relI [OF _ r(2)] relI)
qed

subsection \<open>Reading, consuming and deleting\<close>

lemma GetTokenState_ok:
  assumes w: "db_rel ready now w T" and c: "healthy c"
  shows "succeeds (db_GetTokenState s c k) (\<lambda>x w'. x = T k \<and> db_rel ready now w' T) w"
proof -
  from w obtain R U where r: "ready w R" and C: "db_content now R U" and T: "T = live_part now U" by (auto simp: db_rel_def)
  show ?thesis
    unfolding db_GetTokenState_def
  proof (rule wp_step [OF ctx_ok [OF c r]], rule wp_step [OF First_key(1)], simp, goal_cases)
    case (1 _ _ found v)
    then have r1: "ready v R" and found: "row_found R k found" by simp_all
    show ?case
    proof (cases "U k")
      case None
      then have "R k = None" using db_content_None [OF C] by simp
      with found None show ?thesis by (auto simp: row_found_def wp_ret T live_part_at intro: relI [OF r1 C])
    next
      case (Some st)
      then obtain old where old: "R k = Some old" "row_holds now st old" "state_held k st"
        using db_content_Some [OF C] by metis
      then have found: "found = Inr old" using found by (simp add: row_found_def)
      note dec = decode_row [OF old(2,3)]
      show ?thesis
      proof (cases "tr_ExpiresAt old")
        case None
        then have "\<not> IsExpired st now" using old(2) by (simp add: row_holds_def sql_expired_def)
        then show ?thesis
          using found dec None Some by (simp add: from_sum_def wp_ret wp_bindE T live_part_at relI [OF r1 C])
      next
        case (Some e)
        then have exp: "IsExpired st now \<longleftrightarrow> \<not> Before now e"
          using old(2) by (auto simp: row_holds_def sql_expired_def Before_def)
        show ?thesis
        proof (cases "Before now e")
          case True
          then show ?thesis
            using found dec Some \<open>U k = Some st\<close> exp
            by (simp add: from_sum_def wp_ret wp_bindE wp_read_now clock [OF r1] T live_part_at relI [OF ready_tick [OF r1] C])
        next
          case False
          let ?P = "\<lambda>r. tr_Token r = k \<and> tr_StateJSON r = tr_StateJSON old \<and> sql_expired (tr_ExpiresAt r) now"
          have "(\<lambda>j. case R j of None \<Rightarrow> None | Some r \<Rightarrow> if ?P r then None else Some r) = R(k := None)"
            using old(1) False Some sql_session.key [OF handle r]
            by (auto simp: fun_eq_iff sql_expired_def Before_def split: option.split)
          then have "succeeds (g_Delete (ds_db s c) ?P) (\<lambda>_ w'. ready w' (R(k := None))) (tick (tick v))"
            using sql_session.Delete [OF handle ready_tick [OF ready_tick [OF r1]], where P = ?P] by simp
          moreover have "live_part now (U(k := None)) = live_part now U"
            using \<open>U k = Some st\<close> exp False by (auto simp: live_part_def fun_eq_iff)
          ultimately show ?thesis
            using found dec Some \<open>U k = Some st\<close> exp False
            by (simp add: from_sum_def wp_ret wp_bindE wp_read_now clock [OF r1] clock [OF ready_tick [OF r1]])
              (erule wp_mono, auto simp: wp_ret T live_part_at intro: relI [OF _ db_content_drop [OF C, of k]])
        qed
      qed
    qed
  qed
qed

lemma lost_never: "n = 1 \<Longrightarrow> (if n = 0 then m else m') = m'" for n :: nat
  by simp

lemma consume_tx_ok:
  assumes tx: "sql_session ready tx" and r: "ready w R" and C: "db_content now R U" and T: "T = live_part now U"
    and now: "time_ok now"
  shows "succeeds (db_consume_tx k kind tx) (\<lambda>x w'. x = T k \<and> db_rel ready now w' (spend now kind k T)) w"
  unfolding db_consume_tx_def
proof (rule wp_step [OF sql_session.First_key(2) [OF tx r]], goal_cases)
  case (1 found v)
  then have r1: "ready v R" and found: "row_found R k found" by simp_all
  note r2 = ready_tick [OF r1]
  show ?case
  proof (cases "U k")
    case None
    then have "R k = None" using db_content_None [OF C] by simp
    with found None show ?thesis
      by (auto simp: row_found_def wp_ret T live_part_at spend_def intro: relI [OF r1 C])
  next
    case (Some st)
    then obtain old where old: "R k = Some old" "row_holds now st old" "state_held k st"
      using db_content_Some [OF C] by metis
    then have found: "found = Inr old" using found by (simp add: row_found_def)
    note dec = decode_row [OF old(2,3)]
    have exp: "(case tr_ExpiresAt old of None \<Rightarrow> False | Some e \<Rightarrow> \<not> Before (env_clock v n) e) \<longleftrightarrow> IsExpired st now" for n
      using old(2) by (auto simp: row_holds_def sql_expired_def Before_def clock [OF r1] split: option.splits)
    note start = found dec Some exp from_sum_def wp_ret wp_bindE wp_read_now clock [OF r1] Let_def T live_part_at
    have cl: "TokenState_Clone st = st" using old(3) by (simp add: state_held_def TokenState_Clone_id)
    consider "IsExpired st now" | "\<not> IsExpired st now" "\<not> IsActive st now \<or> kind \<noteq> [] \<and> ts_Kind st \<noteq> kind"
      | "\<not> IsExpired st now" "IsActive st now" "kind = [] \<or> ts_Kind st = kind" by blast
    then show ?thesis
    proof cases
      case 1
      then have "spend now kind k (live_part now U) = live_part now U" "live_part now (U(k := None)) = live_part now U"
        using Some by (auto simp: spend_def live_part_def fun_eq_iff)
      with 1 show ?thesis
        by (simp add: start) (rule wp_mono [OF sql_session.Delete_key [OF tx r2]];
            simp add: wp_ret relI [OF _ db_content_drop [OF C, of k]] del: fun_upd_apply)
    next
      case 2
      then have "spend now kind k (live_part now U) = live_part now U"
        using Some by (auto simp: spend_def live_part_at)
      with 2 show ?thesis by (auto simp: start cl intro: relI [OF r2 C])
    next
      case 3
      let ?c = "MarkConsumed st now"
      have held: "state_held k ?c" by (rule state_held_consumed [OF old(3) now])
      then have "state_plain ?c" by (simp add: state_held_def)
      then obtain d where d: "TokenState_Marshal ?c = Inr d" "TokenState_Unmarshal d = Inr ?c"
        by (rule plain_Marshal)
      let ?P = "\<lambda>r. tr_Token r = k \<and> (tr_Status r = TokenStatusActive \<or> tr_Status r = [])
          \<and> tr_StateJSON r = tr_StateJSON old \<and> sql_live (tr_ExpiresAt r) now"
      let ?f = "\<lambda>r. r\<lparr>tr_Status := TokenStatusConsumed, tr_StateJSON := d\<rparr>"
      have P: "?P old"
        using old(2,3) 3(1,2) by (auto simp: row_holds_def state_held_def sql_live_iff IsActive_def)
      have "row_holds now ?c (?f old)" using old(2) d(2) by (simp add: row_holds_def)
      then have C': "db_content now (R(k \<mapsto> ?f old)) (U(k \<mapsto> ?c))" by (rule db_content_put [OF C held])
      have "succeeds (g_Updates tx ?P ?f) (\<lambda>n w'. n = 1 \<and> ready w' (R(k \<mapsto> ?f old))) (tick v)"
        using sql_session.Updates_key [OF tx, of "tick v" R k old ?P ?f] r2 old(1) P by simp
      then show ?thesis
        using 3 live_part_spent [of U k st now kind] Some d(1)
        by (simp add: start cl) (rule conjI, blast, erule wp_mono; simp add: wp_ret relI [OF _ C'] del: fun_upd_apply)
    qed
  qed
qed

lemma consume_ok:
  assumes w: "db_rel ready now w T" and c: "healthy c" and now: "time_ok now"
  shows "succeeds (db_consumeTokenState s c k kind) (\<lambda>x w'. x = T k \<and> db_rel ready now w' (spend now kind k T)) w"
proof -
  from w obtain R U where r: "ready w R" and C: "db_content now R U" and T: "T = live_part now U" by (auto simp: db_rel_def)
  show ?thesis
    unfolding db_consumeTokenState_def
    by (rule wp_step [OF ctx_ok [OF c r]], rule Transaction, assumption, rule consume_tx_ok [OF _ _ C T now])
qed

lemma DeleteTokenState_ok:
  assumes w: "db_rel ready now w T" and c: "healthy c"
  shows "succeeds (db_DeleteTokenState s c k) (\<lambda>_ w'. db_rel ready now w' (T(k := None))) w"
proof -
  from w obtain R U where r: "ready w R" and C: "db_content now R U" and T: "T = live_part now U" by (auto simp: db_rel_def)
  show ?thesis
    unfolding db_DeleteTokenState_def
    by (rule wp_step [OF ctx_ok [OF c r]], rule wp_mono [OF sql_session.Delete_key [OF handle]], assumption)
      (simp_all add: T live_part_drop [symmetric] relI [OF _ db_content_drop [OF C, of k]] del: fun_upd_apply)
qed

subsection \<open>The tokens of a login\<close>

lemma owner_query_iff:
  assumes "row_holds now st r" "state_held k st"
  shows "owner_query (LoginSubject_Normalize subject) kinds r \<longleftrightarrow> owned_by subject kinds st"
proof -
  have "LoginSubject_Normalize (TokenState_Subject st) = TokenState_Subject st" using assms(2) by (simp add: state_held_def)
  moreover have "TokenState_Subject st = LoginSubject_Normalize subject \<longleftrightarrow>
      ts_LoginID st = sub_LoginID (LoginSubject_Normalize subject) \<and> ts_LoginType st = sub_LoginType (LoginSubject_Normalize subject)"
    by (cases "LoginSubject_Normalize subject") (auto simp: TokenState_Subject_def)
  ultimately show ?thesis
    using assms(1) by (auto simp: owner_query_def owned_by_def row_holds_def kindsToStrings_def MatchKind_iff)
qed

lemma decode_records_ok:
  "(\<And>r. r \<in> set rs \<Longrightarrow> decodeTokenState (tr_StateJSON r) = Inr (f r)) \<Longrightarrow> decode_records rs = Inr (map f rs)"
  by (induction rs) simp_all

text \<open>A deletion whose condition the rows of the states decide.\<close>

lemma delete_where:
  assumes r: "ready w R" and C: "db_content now R U"
    and P: "\<And>k st r. R k = Some r \<Longrightarrow> row_holds now st r \<Longrightarrow> state_held k st \<Longrightarrow> P r \<longleftrightarrow> Q st"
  shows "succeeds (g_Delete (ds_db s c) P)
    (\<lambda>_ w'. \<exists>R. ready w' R \<and> db_content now R (\<lambda>k. case U k of None \<Rightarrow> None | Some st \<Rightarrow> if Q st then None else Some st)) w"
proof (rule wp_mono [OF sql_session.Delete [OF handle r]])
  fix x w'
  let ?R = "\<lambda>k. case R k of None \<Rightarrow> None | Some r \<Rightarrow> if P r then None else Some r"
  let ?U = "\<lambda>k. case U k of None \<Rightarrow> None | Some st \<Rightarrow> if Q st then None else Some st"
  assume "ready w' ?R"
  moreover have "entry_holds now k (?U k) (?R k)" for k
    using db_contentD [OF C, of k] P [of k] by (cases "U k"; cases "R k") auto
  then have "db_content now ?R ?U" by (simp add: db_content_def)
  ultimately show "\<exists>R. ready w' R \<and> db_content now R ?U" by blast
qed simp

lemma find_ok:
  assumes w: "db_rel ready now w T" and c: "healthy c"
  shows "succeeds (db_FindTokenStates s c subject kinds)
    (\<lambda>rs w'. distinct rs \<and> set rs = Some ` owned subject kinds T \<and> db_rel ready now w' T) w"
proof -
  from w obtain R U where r: "ready w R" and C: "db_content now R U" and T: "T = live_part now U" by (auto simp: db_rel_def)
  let ?key = "LoginSubject_Normalize subject"
  let ?gone = "\<lambda>st. owned_by subject [] st \<and> IsExpired st now"
  let ?U = "\<lambda>k. case U k of None \<Rightarrow> None | Some st \<Rightarrow> if ?gone st then None else Some st"
  have T': "live_part now ?U = T" by (auto simp: T live_part_def fun_eq_iff split: option.split)
  have prune: "(tr_LoginID r = sub_LoginID ?key \<and> tr_LoginType r = sub_LoginType ?key \<and> sql_expired (tr_ExpiresAt r) now)
      \<longleftrightarrow> ?gone st" if "row_holds now st r" "state_held k st" for k st r
    using owner_query_iff [OF that, of subject "[]"] that(1) by (auto simp: owner_query_def kindsToStrings_def row_holds_def)
  show ?thesis
    unfolding db_FindTokenStates_def Let_def
  proof (rule wp_step [OF ctx_ok [OF c r]], rule wp_step [OF now_ok], assumption, elim conjE, simp only:, goal_cases)
    case (1 _ _ t v)
    show ?case
    proof (rule wp_step [OF delete_where [OF 1(3) C, where Q = ?gone]], rule prune, assumption, assumption, goal_cases)
      case (1 x v)
      then obtain R' where r: "ready v R'" and C: "db_content now R' ?U" by blast
      have rel: "db_rel ready now v' T" if "ready v' R'" for v' by (rule relI [OF that C T'])
      show ?case
      proof (rule wp_step [OF sql_session.Find [OF handle r]], goal_cases)
        case (1 rs v)
        define f where "f = (\<lambda>r :: tokenStateRecord. the (?U (tr_Token r)))"
        have set: "set rs = {r. R' (tr_Token r) = Some r \<and> owner_query ?key kinds r}" and rs: "distinct rs" "db_rel ready now v T"
          using 1 rel by simp_all
        have held: "?U (tr_Token r) = Some (f r) \<and> row_holds now (f r) r \<and> state_held (tr_Token r) (f r)" if "r \<in> set rs" for r
          using db_contentD [OF C, of "tr_Token r"] that set unfolding f_def by (cases "?U (tr_Token r)") auto
        have decode: "decode_records rs = Inr (map f rs)"
          by (rule decode_records_ok) (use held decode_row in blast)
        have tok: "ts_Token (f r) = tr_Token r" if "r \<in> set rs" for r
          using held [OF that] by (simp add: state_held_def)
        have "inj_on f (set rs)"
        proof (rule inj_onI)
          fix r r' assume *: "r \<in> set rs" "r' \<in> set rs" "f r = f r'"
          then have "tr_Token r = tr_Token r'" using tok [of r] tok [of r'] by simp
          with * set show "r = r'" by auto
        qed
        with rs(1) have distinct: "distinct (map Some (map f rs))" by (simp add: distinct_map comp_inj_on)
        have "f ` set rs = owned subject kinds T"
        proof (intro set_eqI iffI)
          fix st assume "st \<in> f ` set rs"
          then obtain r where st: "r \<in> set rs" "st = f r" by blast
          then have "owned_by subject kinds st"
            using set held [of r] owner_query_iff [of st r "tr_Token r" subject kinds] by auto
          moreover from this have "T (tr_Token r) = Some st"
            using held [OF st(1)] st(2) by (auto simp: T live_part_at owned_by_def MatchKind_iff split: option.splits if_splits)
          ultimately show "st \<in> owned subject kinds T" by (auto simp: owned_def)
        next
          fix st assume "st \<in> owned subject kinds T"
          then obtain k where k: "T k = Some st" "owned_by subject kinds st" by (auto simp: owned_def)
          then have U: "?U k = Some st" by (auto simp: T live_part_at split: option.splits if_splits)
          from C this obtain r where r: "R' k = Some r" "row_holds now st r" "state_held k st" by (rule db_content_Some)
          then have "tr_Token r = k" by (simp add: row_holds_def state_held_def)
          moreover from this have "r \<in> set rs" using r k(2) owner_query_iff [OF r(2,3)] by (simp add: set)
          ultimately show "st \<in> f ` set rs" using U by (auto simp: f_def image_iff intro!: bexI [of _ r])
        qed
        then have "set (map Some (map f rs)) = Some ` owned subject kinds T" by (simp add: image_image [symmetric])
        with decode distinct rs(2) show ?case
          by (simp only: decode from_sum_def sum.case wp_ret wp_bindE simp_thms)
      qed
    qed
  qed
qed

lemma delete_all_ok:
  assumes w: "db_rel ready now w T" and c: "healthy c"
  shows "succeeds (db_DeleteTokenStates s c subject kinds) (\<lambda>_ w'. db_rel ready now w' (without_owned subject kinds T)) w"
proof -
  from w obtain R U where r: "ready w R" and C: "db_content now R U" and T: "T = live_part now U" by (auto simp: db_rel_def)
  have T': "live_part now (\<lambda>k. case U k of None \<Rightarrow> None | Some st \<Rightarrow> if owned_by subject kinds st then None else Some st)
      = without_owned subject kinds T"
    by (auto simp: T live_part_def without_owned_def fun_eq_iff split: option.split)
  show ?thesis
    unfolding db_DeleteTokenStates_def Let_def
  proof (rule wp_step [OF ctx_ok [OF c r]], rule wp_mono [OF delete_where [OF _ C, where Q = "owned_by subject kinds"]], goal_cases)
    case (2 x v k st r)
    then show ?case by (intro owner_query_iff)
  next
    case (3 x v y v')
    then show ?case by (auto intro: relI [OF _ _ T'])
  qed simp_all
qed

text \<open>So the store implements the table.\<close>

lemma implements_table:
  assumes now: "time_ok now"
  shows "table_store (db_rel ready now) (db_store_ops other s) (db_atomic_ops other s) now db_holds"
  unfolding table_store_def db_store_ops_def db_atomic_ops_def store_ops.simps atomic_ops.simps
    db_ConsumeTokenState_def db_ConsumeTokenStateOfKind_def
  by (auto intro: SaveTokenState_ok CompareAndSwap_ok GetTokenState_ok consume_ok [OF _ _ now]
      DeleteTokenState_ok find_ok delete_all_ok simp del: fun_upd_apply)

end

end
