(* ===== verification/Memory_Store.thy ===== *)
theory Memory_Store
  imports Store_Port
begin

text \<open>
  The in-memory store of \<open>storage/memory/store.go\<close>. Its state extends the environment by the
  three Go maps. The inner map of an index is a list without repetition; its iteration order is
  the environment's choice. Each method holds the store's mutex while it works, so it is one
  atomic step; \<open>GetTokenState\<close> and \<open>GetSession\<close> look again after they have exchanged the
  read lock for the write lock, as the code does.
\<close>

record tokenItem =
  ti_state :: TokenState
  ti_expiresAt :: "time option"

record sessionItem =
  si_session :: Session
  si_expiresAt :: "time option"

record mem = env +
  mem_tokens :: "TokenValue \<Rightarrow> tokenItem option"
  mem_indexes :: "LoginSubject \<Rightarrow> TokenValue list option"
  mem_sessions :: "LoginSubject \<Rightarrow> sessionItem option"

type_synonym ('x, 'a) mop = "('x mem_scheme, error, 'a) op"

definition mem_NewStore :: "env \<Rightarrow> mem" where
  "mem_NewStore e = env.extend e (mem.fields (\<lambda>_. None) (\<lambda>_. None) (\<lambda>_. None))"

definition tokenItem_isExpired :: "tokenItem \<Rightarrow> time \<Rightarrow> bool" where
  "tokenItem_isExpired i now \<longleftrightarrow>
     (case ti_expiresAt i of None \<Rightarrow> False | Some e \<Rightarrow> \<not> Before now e) \<or> IsExpired (ti_state i) now"

definition sessionItem_isExpired :: "sessionItem \<Rightarrow> time \<Rightarrow> bool" where
  "sessionItem_isExpired i now \<longleftrightarrow>
     (case si_expiresAt i of None \<Rightarrow> False | Some e \<Rightarrow> \<not> Before now e)"

definition expirationFromState :: "time \<Rightarrow> TokenState \<Rightarrow> duration \<Rightarrow> time option" where
  "expirationFromState now state ttl = EffectiveExpiresAt state now ttl"

subsection \<open>Index maintenance\<close>

definition addIndexLocked :: "LoginSubject \<Rightarrow> TokenValue \<Rightarrow> 'x mem_scheme \<Rightarrow> 'x mem_scheme" where
  "addIndexLocked subject token w =
     (let key = LoginSubject_Normalize subject;
          tokens = (case mem_indexes w key of None \<Rightarrow> [] | Some ts \<Rightarrow> ts)
      in w\<lparr>mem_indexes := (mem_indexes w)(key \<mapsto> List.insert token tokens)\<rparr>)"

definition removeIndexLocked :: "LoginSubject \<Rightarrow> TokenValue \<Rightarrow> 'x mem_scheme \<Rightarrow> 'x mem_scheme" where
  "removeIndexLocked subject token w =
     (let key = LoginSubject_Normalize subject
      in case mem_indexes w key of
           None \<Rightarrow> w
         | Some tokens \<Rightarrow>
             let tokens = removeAll token tokens
             in w\<lparr>mem_indexes :=
                    (mem_indexes w)(key := (if tokens = [] then None else Some tokens))\<rparr>)"

definition deleteTokenLocked :: "TokenValue \<Rightarrow> 'x mem_scheme \<Rightarrow> 'x mem_scheme" where
  "deleteTokenLocked token w =
     (case mem_tokens w token of
        None \<Rightarrow> w
      | Some item \<Rightarrow>
          let w = removeIndexLocked (TokenState_Subject (ti_state item)) token w
          in w\<lparr>mem_tokens := (mem_tokens w)(token := None)\<rparr>)"

subsection \<open>Tokens\<close>

definition mem_put :: "TokenState \<Rightarrow> time option \<Rightarrow> 'x mem_scheme \<Rightarrow> 'x mem_scheme" where
  "mem_put clone expiresAt w =
     (let w = (case mem_tokens w (ts_Token clone) of
                 None \<Rightarrow> w
               | Some old \<Rightarrow>
                   removeIndexLocked (TokenState_Subject (ti_state old)) (ts_Token clone) w);
          w = w\<lparr>mem_tokens := (mem_tokens w)(ts_Token clone \<mapsto>
                   \<lparr>ti_state = clone, ti_expiresAt = expiresAt\<rparr>)\<rparr>
      in addIndexLocked (TokenState_Subject clone) (ts_Token clone) w)"

definition mem_expect :: "TokenValue \<Rightarrow> TokenState option \<Rightarrow> ('x, unit) mop" where
  "mem_expect token expected =
     (case expected of
        None \<Rightarrow> ret ()
      | Some e \<Rightarrow>
          bindE (gets mem_tokens) (\<lambda>tokens.
          case tokens token of
            None \<Rightarrow> throw ErrTokenInvalid
          | Some old \<Rightarrow>
              bindE read_now (\<lambda>now.
              if tokenItem_isExpired old now \<or> ti_state old \<noteq> e then throw ErrTokenInvalid
              else ret ())))"

definition mem_saveTokenState ::
    "ctx \<Rightarrow> TokenState option \<Rightarrow> TokenState option \<Rightarrow> duration \<Rightarrow> ('x, unit) mop" where
  "mem_saveTokenState c expected state ttl =
     bindE (ctxErr c) (\<lambda>_.
     case state of
       None \<Rightarrow> throw ErrEmptyToken
     | Some state \<Rightarrow>
         let clone = TokenState_Clone state
         in if ts_Token clone = [] then throw ErrEmptyToken
            else
              let clone = TokenState_Normalize clone
              in if ts_LoginID clone = [] \<and> ts_Kind clone \<noteq> TokenKindNonce
                 then throw ErrEmptyLoginID
                 else
                   bindE read_now (\<lambda>now.
                   let expiresAt = expirationFromState now clone ttl
                   in bindE (mem_expect (ts_Token clone) expected) (\<lambda>_.
                      modify (mem_put clone expiresAt))))"

definition mem_SaveTokenState :: "ctx \<Rightarrow> TokenState option \<Rightarrow> duration \<Rightarrow> ('x, unit) mop" where
  "mem_SaveTokenState c state ttl = mem_saveTokenState c None state ttl"

definition mem_CompareAndSwapTokenState ::
    "ctx \<Rightarrow> TokenState option \<Rightarrow> TokenState option \<Rightarrow> duration \<Rightarrow> ('x, bool) mop" where
  "mem_CompareAndSwapTokenState c expected next ttl =
     (case (expected, next) of
        (Some e, Some n) \<Rightarrow>
          if ts_Token e \<noteq> ts_Token n then throw ErrTokenInvalid
          else
            bindE (attempt (mem_saveTokenState c expected next ttl)) (\<lambda>err.
            case err of
              Inl e \<Rightarrow> if e = ErrTokenInvalid then ret False else throw e
            | Inr _ \<Rightarrow> ret True)
      | _ \<Rightarrow> throw ErrTokenInvalid)"

definition mem_GetTokenState :: "ctx \<Rightarrow> TokenValue \<Rightarrow> ('x, TokenState option) mop" where
  "mem_GetTokenState c token =
     bindE (ctxErr c) (\<lambda>_.
     bindE read_now (\<lambda>now.
     bindE (gets mem_tokens) (\<lambda>tokens.
     case tokens token of
       None \<Rightarrow> ret None
     | Some item \<Rightarrow>
         if \<not> tokenItem_isExpired item now then ret (Some (TokenState_Clone (ti_state item)))
         else
           bindE (gets mem_tokens) (\<lambda>tokens.
           case tokens token of
             None \<Rightarrow> ret None
           | Some item \<Rightarrow>
               if tokenItem_isExpired item now
               then bindE (modify (deleteTokenLocked token)) (\<lambda>_. ret None)
               else ret (Some (TokenState_Clone (ti_state item)))))))"

definition mem_consumeTokenState ::
    "ctx \<Rightarrow> TokenValue \<Rightarrow> TokenKind \<Rightarrow> ('x, TokenState option) mop" where
  "mem_consumeTokenState c token kind =
     bindE (ctxErr c) (\<lambda>_.
     bindE read_now (\<lambda>now.
     bindE (gets mem_tokens) (\<lambda>tokens.
     case tokens token of
       None \<Rightarrow> ret None
     | Some item \<Rightarrow>
         if tokenItem_isExpired item now
         then bindE (modify (deleteTokenLocked token)) (\<lambda>_. ret None)
         else
           let snapshot = TokenState_Clone (ti_state item)
           in bindE (whenE (IsActive (ti_state item) now
                            \<and> (kind = [] \<or> ts_Kind (ti_state item) = kind))
                      (modify (\<lambda>w. w\<lparr>mem_tokens := (mem_tokens w)(token \<mapsto>
                         item\<lparr>ti_state := MarkConsumed (ti_state item) now\<rparr>)\<rparr>))) (\<lambda>_.
              ret (Some snapshot)))))"

definition mem_ConsumeTokenState :: "ctx \<Rightarrow> TokenValue \<Rightarrow> ('x, TokenState option) mop" where
  "mem_ConsumeTokenState c token = mem_consumeTokenState c token []"

definition mem_ConsumeTokenStateOfKind ::
    "ctx \<Rightarrow> TokenValue \<Rightarrow> TokenKind \<Rightarrow> ('x, TokenState option) mop" where
  "mem_ConsumeTokenStateOfKind c token kind =
     (if kind = [] then throw ErrUnsupportedKind else mem_consumeTokenState c token kind)"

definition mem_DeleteTokenState :: "ctx \<Rightarrow> TokenValue \<Rightarrow> ('x, unit) mop" where
  "mem_DeleteTokenState c token = bindE (ctxErr c) (\<lambda>_. modify (deleteTokenLocked token))"

text \<open>The body of the loop of \<open>FindTokenStates\<close>; the accumulator is the result slice.\<close>

definition unlink_member :: "LoginSubject \<Rightarrow> TokenValue \<Rightarrow> 'x mem_scheme \<Rightarrow> 'x mem_scheme" where
  "unlink_member key token w =
     w\<lparr>mem_indexes := (mem_indexes w)(key := map_option (removeAll token) (mem_indexes w key))\<rparr>"

fun mem_find_loop ::
    "time \<Rightarrow> LoginSubject \<Rightarrow> TokenKind list \<Rightarrow> TokenValue list \<Rightarrow> 'x mem_scheme \<Rightarrow>
     TokenState option list \<times> 'x mem_scheme" where
  "mem_find_loop now key kinds [] w = ([], w)"
| "mem_find_loop now key kinds (token # tokens) w =
     (case mem_tokens w token of
        None \<Rightarrow> mem_find_loop now key kinds tokens (unlink_member key token w)
      | Some item \<Rightarrow>
          if tokenItem_isExpired item now
          then mem_find_loop now key kinds tokens (deleteTokenLocked token w)
          else if \<not> MatchKind (ts_Kind (ti_state item)) kinds
          then mem_find_loop now key kinds tokens w
          else case mem_find_loop now key kinds tokens w of
                 (result, w') \<Rightarrow> (Some (TokenState_Clone (ti_state item)) # result, w'))"

definition index_members :: "LoginSubject \<Rightarrow> 'x mem_scheme \<Rightarrow> TokenValue list" where
  "index_members key w = (case mem_indexes w key of None \<Rightarrow> [] | Some ts \<Rightarrow> ts)"

definition drop_empty_index :: "LoginSubject \<Rightarrow> 'x mem_scheme \<Rightarrow> 'x mem_scheme" where
  "drop_empty_index key w =
     (if index_members key w = [] then w\<lparr>mem_indexes := (mem_indexes w)(key := None)\<rparr> else w)"

definition mem_FindTokenStates ::
    "ctx \<Rightarrow> LoginSubject \<Rightarrow> TokenKind list \<Rightarrow> ('x, TokenState option list) mop" where
  "mem_FindTokenStates c subject kinds =
     bindE (ctxErr c) (\<lambda>_.
     let key = LoginSubject_Normalize subject
     in bindE read_now (\<lambda>now.
        bindE (gets (index_members key)) (\<lambda>members.
        bindE (range_keys members) (\<lambda>tokens.
        bindE (gets (mem_find_loop now key kinds tokens)) (\<lambda>(result, w').
        bindE (modify (\<lambda>_. drop_empty_index key w')) (\<lambda>_.
        ret result))))))"

fun mem_delete_loop :: "TokenKind list \<Rightarrow> TokenValue list \<Rightarrow> 'x mem_scheme \<Rightarrow> 'x mem_scheme" where
  "mem_delete_loop kinds [] w = w"
| "mem_delete_loop kinds (token # tokens) w =
     (case mem_tokens w token of
        None \<Rightarrow> mem_delete_loop kinds tokens w
      | Some item \<Rightarrow>
          if \<not> MatchKind (ts_Kind (ti_state item)) kinds then mem_delete_loop kinds tokens w
          else mem_delete_loop kinds tokens (deleteTokenLocked token w))"

definition mem_DeleteTokenStates :: "ctx \<Rightarrow> LoginSubject \<Rightarrow> TokenKind list \<Rightarrow> ('x, unit) mop" where
  "mem_DeleteTokenStates c subject kinds =
     bindE (ctxErr c) (\<lambda>_.
     let key = LoginSubject_Normalize subject
     in bindE (gets (index_members key)) (\<lambda>members.
        bindE (range_keys members) (\<lambda>tokens.
        modify (mem_delete_loop kinds tokens))))"

subsection \<open>Sessions\<close>

definition mem_SaveSession :: "ctx \<Rightarrow> Session option \<Rightarrow> duration \<Rightarrow> ('x, unit) mop" where
  "mem_SaveSession c session ttl =
     bindE (ctxErr c) (\<lambda>_.
     case session of
       None \<Rightarrow> throw ErrEmptySessionID
     | Some session \<Rightarrow>
         let key = LoginSubject_Normalize (se_Subject session)
         in if LoginSubject_IsZero key then throw ErrEmptySessionID
            else
              bindE (if ttl > 0 then bindE read_now (\<lambda>now. ret (Some (Time_Add now ttl)))
                     else ret None) (\<lambda>expiresAt.
              modify (\<lambda>w. w\<lparr>mem_sessions := (mem_sessions w)(key \<mapsto>
                \<lparr>si_session = Session_Clone session, si_expiresAt = expiresAt\<rparr>)\<rparr>)))"

definition mem_EnsureSession :: "ctx \<Rightarrow> LoginSubject \<Rightarrow> duration \<Rightarrow> ('x, unit) mop" where
  "mem_EnsureSession c subject ttl =
     bindE (ctxErr c) (\<lambda>_.
     let subject = LoginSubject_Normalize subject
     in if LoginSubject_IsZero subject then throw ErrEmptySessionID
        else
          bindE read_now (\<lambda>now.
          bindE (gets mem_sessions) (\<lambda>sessions.
          let fresh = \<lparr>si_session = NewSessionForSubject subject, si_expiresAt = None\<rparr>;
              item = (case sessions subject of
                        None \<Rightarrow> fresh
                      | Some item \<Rightarrow> if sessionItem_isExpired item now then fresh else item);
              expires = (if ttl > 0 then Some (Time_Add now ttl) else None)
          in modify (\<lambda>w. w\<lparr>mem_sessions :=
               (mem_sessions w)(subject \<mapsto> item\<lparr>si_expiresAt := expires\<rparr>)\<rparr>))))"

definition mem_GetSession :: "ctx \<Rightarrow> LoginSubject \<Rightarrow> ('x, Session option) mop" where
  "mem_GetSession c subject =
     bindE (ctxErr c) (\<lambda>_.
     let key = LoginSubject_Normalize subject
     in bindE read_now (\<lambda>now.
        bindE (gets mem_sessions) (\<lambda>sessions.
        case sessions key of
          None \<Rightarrow> ret None
        | Some item \<Rightarrow>
            if \<not> sessionItem_isExpired item now
            then ret (Some (Session_Clone (si_session item)))
            else
              bindE (gets mem_sessions) (\<lambda>sessions.
              case sessions key of
                None \<Rightarrow> ret None
              | Some item \<Rightarrow>
                  if sessionItem_isExpired item now
                  then bindE (modify (\<lambda>w. w\<lparr>mem_sessions := (mem_sessions w)(key := None)\<rparr>))
                         (\<lambda>_. ret None)
                  else ret (Some (Session_Clone (si_session item)))))))"

definition mem_DeleteSession :: "ctx \<Rightarrow> LoginSubject \<Rightarrow> ('x, unit) mop" where
  "mem_DeleteSession c subject =
     bindE (ctxErr c) (\<lambda>_.
     modify (\<lambda>w. w\<lparr>mem_sessions := (mem_sessions w)(LoginSubject_Normalize subject := None)\<rparr>))"

subsection \<open>The ports it provides\<close>

definition mem_store_ops :: "'x mem_scheme store_ops" where
  "mem_store_ops = \<lparr>
     st_SaveTokenState = mem_SaveTokenState, st_GetTokenState = mem_GetTokenState,
     st_ConsumeTokenState = mem_ConsumeTokenState, st_DeleteTokenState = mem_DeleteTokenState,
     st_FindTokenStates = mem_FindTokenStates, st_DeleteTokenStates = mem_DeleteTokenStates,
     st_SaveSession = mem_SaveSession, st_GetSession = mem_GetSession,
     st_DeleteSession = mem_DeleteSession\<rparr>"

definition mem_atomic_ops :: "'x mem_scheme atomic_ops" where
  "mem_atomic_ops = \<lparr>
     at_CompareAndSwapTokenState = mem_CompareAndSwapTokenState,
     at_ConsumeTokenStateOfKind = mem_ConsumeTokenStateOfKind,
     at_EnsureSession = mem_EnsureSession\<rparr>"

end
