(* ===== verification/Memory_Correct.thy ===== *)
theory Memory_Correct
  imports Memory_Store
begin

text \<open>
  The in-memory store is correct: the indexes always agree with the token map (an invariant of
  every method), each method has the effect of an index-free table on tokens and sessions (its
  weakest precondition, for a context that is not done), and the store meets the contracts of
  \<open>Store_Port\<close>.
\<close>

subsection \<open>The invariant\<close>

definition subject_key :: "tokenItem \<Rightarrow> LoginSubject" where
  "subject_key it = LoginSubject_Normalize (TokenState_Subject (ti_state it))"

definition state_ok :: "TokenState \<Rightarrow> bool" where
  "state_ok s \<longleftrightarrow> ts_Token s \<noteq> [] \<and> normal_state s \<and> cloned s
     \<and> (ts_LoginID s \<noteq> [] \<or> ts_Kind s = TokenKindNonce)"

definition item_ok :: "TokenValue \<Rightarrow> tokenItem \<Rightarrow> bool" where
  "item_ok k it \<longleftrightarrow> ts_Token (ti_state it) = k \<and> state_ok (ti_state it)
     \<and> (\<forall>t. IsExpired (ti_state it) t \<longrightarrow> (\<exists>e. ti_expiresAt it = Some e \<and> e \<le> t))"

definition tokens_ok :: "'x mem_scheme \<Rightarrow> bool" where
  "tokens_ok w \<longleftrightarrow> (\<forall>k it. mem_tokens w k = Some it \<longrightarrow> item_ok k it)"

definition index_ok :: "'x mem_scheme \<Rightarrow> bool" where
  "index_ok w \<longleftrightarrow> (\<forall>key. mem_indexes w key \<noteq> Some [] \<and> distinct (index_members key w)
     \<and> (\<forall>k. k \<in> set (index_members key w) \<longleftrightarrow>
          (\<exists>it. mem_tokens w k = Some it \<and> subject_key it = key)))"

definition sessions_ok :: "'x mem_scheme \<Rightarrow> bool" where
  "sessions_ok w \<longleftrightarrow> (\<forall>key si. mem_sessions w key = Some si \<longrightarrow>
     LoginSubject_Normalize (se_Subject (si_session si)) = key \<and> \<not> LoginSubject_IsZero key)"

definition mem_inv :: "'x mem_scheme \<Rightarrow> bool" where
  "mem_inv w \<longleftrightarrow> tokens_ok w \<and> index_ok w \<and> sessions_ok w"

lemma mem_invI: "tokens_ok w \<Longrightarrow> index_ok w \<Longrightarrow> sessions_ok w \<Longrightarrow> mem_inv w"
  by (simp add: mem_inv_def)

lemma mem_inv_item: "mem_inv w \<Longrightarrow> mem_tokens w k = Some it \<Longrightarrow> item_ok k it"
  by (simp add: mem_inv_def tokens_ok_def)

lemma mem_inv_members:
  "mem_inv w \<Longrightarrow> k \<in> set (index_members key w) \<longleftrightarrow>
     (\<exists>it. mem_tokens w k = Some it \<and> subject_key it = key)"
  by (simp add: mem_inv_def index_ok_def)

lemma mem_inv_distinct: "mem_inv w \<Longrightarrow> distinct (index_members key w)"
  by (simp add: mem_inv_def index_ok_def)

lemma mem_inv_no_empty_index: "mem_inv w \<Longrightarrow> mem_indexes w key \<noteq> Some []"
  by (simp add: mem_inv_def index_ok_def)

lemma index_members_Nil_iff:
  "mem_inv w \<Longrightarrow> index_members key w = [] \<longleftrightarrow> mem_indexes w key = None"
  using mem_inv_no_empty_index [of w key] by (auto simp: index_members_def split: option.splits)

lemma item_ok_sel:
  "item_ok k it \<Longrightarrow> ts_Token (ti_state it) = k"
  "item_ok k it \<Longrightarrow> state_ok (ti_state it)"
  by (simp_all add: item_ok_def)

lemma state_ok_Clone: "state_ok s \<Longrightarrow> TokenState_Clone s = s"
  by (simp add: state_ok_def TokenState_Clone_id)

lemma state_ok_Normalize: "state_ok s \<Longrightarrow> TokenState_Normalize s = s"
  by (simp add: state_ok_def)

lemma mem_inv_tick [simp]: "mem_inv (tick w) = mem_inv w"
  by (simp add: mem_inv_def tokens_ok_def index_ok_def sessions_ok_def index_members_def tick_def)

lemma mem_inv_publish [simp]: "mem_inv (w\<lparr>env_published := evs\<rparr>) = mem_inv w"
  by (simp add: mem_inv_def tokens_ok_def index_ok_def sessions_ok_def index_members_def)

lemma mem_inv_NewStore: "mem_inv (mem_NewStore e)"
  by (simp add: mem_inv_def tokens_ok_def index_ok_def sessions_ok_def index_members_def
      mem_NewStore_def env.defs mem.defs)

subsection \<open>Frames\<close>

text \<open>What no store method changes: the clock, the choices, the entropy, the published events.\<close>

definition same_env :: "'x env_scheme \<Rightarrow> 'x env_scheme \<Rightarrow> bool" where
  "same_env w w' \<longleftrightarrow> env_clock w' = env_clock w \<and> env_order w' = env_order w
     \<and> env_rand w' = env_rand w \<and> env_published w' = env_published w"

lemma same_env_refl [simp]: "same_env w w"
  by (simp add: same_env_def)

lemma same_env_trans: "same_env u v \<Longrightarrow> same_env v w \<Longrightarrow> same_env u w"
  by (simp add: same_env_def)

lemma same_env_tick [simp]: "same_env w (tick w)"
  by (simp add: same_env_def)

lemma tick_mem_sel [simp]:
  "mem_tokens (tick w) = mem_tokens w" "mem_indexes (tick w) = mem_indexes w"
  "mem_sessions (tick w) = mem_sessions w" "index_members key (tick w) = index_members key w"
  by (simp_all add: tick_def index_members_def)

lemma removeIndexLocked_sel [simp]:
  "mem_tokens (removeIndexLocked s t w) = mem_tokens w"
  "mem_sessions (removeIndexLocked s t w) = mem_sessions w"
  "env_clock (removeIndexLocked s t w) = env_clock w"
  "env_order (removeIndexLocked s t w) = env_order w"
  "env_rand (removeIndexLocked s t w) = env_rand w"
  "env_published (removeIndexLocked s t w) = env_published w"
  "env_tick (removeIndexLocked s t w) = env_tick w"
  by (simp_all add: removeIndexLocked_def Let_def split: option.split)

lemma addIndexLocked_sel [simp]:
  "mem_tokens (addIndexLocked s t w) = mem_tokens w"
  "mem_sessions (addIndexLocked s t w) = mem_sessions w"
  "env_clock (addIndexLocked s t w) = env_clock w"
  "env_order (addIndexLocked s t w) = env_order w"
  "env_rand (addIndexLocked s t w) = env_rand w"
  "env_published (addIndexLocked s t w) = env_published w"
  "env_tick (addIndexLocked s t w) = env_tick w"
  by (simp_all add: addIndexLocked_def Let_def)

lemma deleteTokenLocked_sel [simp]:
  "mem_tokens (deleteTokenLocked t w) = (mem_tokens w)(t := None)"
  "mem_sessions (deleteTokenLocked t w) = mem_sessions w"
  "env_clock (deleteTokenLocked t w) = env_clock w"
  "env_order (deleteTokenLocked t w) = env_order w"
  "env_rand (deleteTokenLocked t w) = env_rand w"
  "env_published (deleteTokenLocked t w) = env_published w"
  "env_tick (deleteTokenLocked t w) = env_tick w"
  by (auto simp: deleteTokenLocked_def Let_def split: option.split)

lemma same_env_deleteTokenLocked [simp]: "same_env w (deleteTokenLocked t w)"
  by (simp add: same_env_def)

lemma index_members_removeIndexLocked [simp]:
  "index_members key (removeIndexLocked s t w) =
     (if key = LoginSubject_Normalize s then removeAll t (index_members key w)
      else index_members key w)"
  by (auto simp: index_members_def removeIndexLocked_def Let_def split: option.split)

lemma index_members_addIndexLocked [simp]:
  "index_members key (addIndexLocked s t w) =
     (if key = LoginSubject_Normalize s then List.insert t (index_members key w)
      else index_members key w)"
  by (auto simp: index_members_def addIndexLocked_def Let_def split: option.split)

lemma removeIndexLocked_no_empty:
  "\<forall>key. mem_indexes w key \<noteq> Some [] \<Longrightarrow> mem_indexes (removeIndexLocked s t w) key \<noteq> Some []"
  by (auto simp: removeIndexLocked_def Let_def split: option.split)

lemma addIndexLocked_no_empty:
  "\<forall>key. mem_indexes w key \<noteq> Some [] \<Longrightarrow> mem_indexes (addIndexLocked s t w) key \<noteq> Some []"
  by (auto simp: addIndexLocked_def Let_def List.insert_def split: option.split)

lemma index_members_fun_upd [simp]:
  "index_members key (w\<lparr>mem_tokens := ts\<rparr>) = index_members key w"
  "index_members key (w\<lparr>mem_sessions := ss\<rparr>) = index_members key w"
  by (simp_all add: index_members_def)

lemma index_members_deleteTokenLocked:
  "index_members key (deleteTokenLocked t w) =
     (case mem_tokens w t of None \<Rightarrow> index_members key w
      | Some it \<Rightarrow> if key = subject_key it then removeAll t (index_members key w)
                  else index_members key w)"
  by (simp add: deleteTokenLocked_def subject_key_def Let_def split: option.split)

subsection \<open>The invariant is kept by the locked steps\<close>

lemma mem_inv_deleteTokenLocked: "mem_inv w \<Longrightarrow> mem_inv (deleteTokenLocked t w)"
proof (cases "mem_tokens w t")
  case None
  moreover assume "mem_inv w"
  ultimately show ?thesis by (simp add: deleteTokenLocked_def)
next
  case (Some it)
  assume inv: "mem_inv w"
  have "\<forall>key. mem_indexes w key \<noteq> Some []"
    using inv by (simp add: mem_inv_def index_ok_def)
  then have "\<forall>key. mem_indexes (deleteTokenLocked t w) key \<noteq> Some []"
    using Some by (simp add: deleteTokenLocked_def Let_def removeIndexLocked_no_empty)
  moreover have "distinct (index_members key (deleteTokenLocked t w))" for key
    using mem_inv_distinct [OF inv] Some
    by (simp add: index_members_deleteTokenLocked distinct_removeAll)
  moreover have "k \<in> set (index_members key (deleteTokenLocked t w)) \<longleftrightarrow>
      (\<exists>it. mem_tokens (deleteTokenLocked t w) k = Some it \<and> subject_key it = key)" for k key
    using mem_inv_members [OF inv, of k key] Some
    by (auto simp: index_members_deleteTokenLocked)
  ultimately have "index_ok (deleteTokenLocked t w)"
    unfolding index_ok_def by blast
  with inv show ?thesis
    by (auto simp: mem_inv_def tokens_ok_def sessions_ok_def)
qed

lemma mem_put_sel [simp]:
  "mem_tokens (mem_put s e w) = (mem_tokens w)(ts_Token s \<mapsto> \<lparr>ti_state = s, ti_expiresAt = e\<rparr>)"
  "mem_sessions (mem_put s e w) = mem_sessions w"
  "env_clock (mem_put s e w) = env_clock w" "env_order (mem_put s e w) = env_order w"
  "env_rand (mem_put s e w) = env_rand w" "env_published (mem_put s e w) = env_published w"
  "env_tick (mem_put s e w) = env_tick w"
  by (simp_all add: mem_put_def Let_def split: option.split)

lemma same_env_mem_put [simp]: "same_env w (mem_put s e w)"
  by (simp add: same_env_def)

lemma index_members_mem_put:
  "index_members key (mem_put s e w) =
     (let ms = (case mem_tokens w (ts_Token s) of
                  None \<Rightarrow> index_members key w
                | Some it \<Rightarrow> if key = subject_key it then removeAll (ts_Token s) (index_members key w)
                            else index_members key w)
      in if key = LoginSubject_Normalize (TokenState_Subject s) then List.insert (ts_Token s) ms else ms)"
  by (simp add: mem_put_def subject_key_def Let_def split: option.split)

lemma mem_inv_mem_put:
  assumes inv: "mem_inv w" and ok: "item_ok (ts_Token s) \<lparr>ti_state = s, ti_expiresAt = e\<rparr>"
  shows "mem_inv (mem_put s e w)"
proof -
  have ne: "\<forall>key. mem_indexes w key \<noteq> Some []"
    using inv by (simp add: mem_inv_def index_ok_def)
  have "mem_indexes (mem_put s e w) key \<noteq> Some []" for key
    using ne by (auto simp: mem_put_def Let_def removeIndexLocked_no_empty
        intro!: addIndexLocked_no_empty split: option.split)
  moreover have "distinct (index_members key (mem_put s e w))" for key
    using mem_inv_distinct [OF inv, of key]
    by (auto simp: index_members_mem_put Let_def distinct_removeAll split: option.split)
  moreover have "k \<in> set (index_members key (mem_put s e w)) \<longleftrightarrow>
      (\<exists>it. mem_tokens (mem_put s e w) k = Some it \<and> subject_key it = key)" for k key
    using mem_inv_members [OF inv, of k key]
    by (auto simp: index_members_mem_put Let_def subject_key_def split: option.split if_splits)
  ultimately have "index_ok (mem_put s e w)"
    unfolding index_ok_def by blast
  with inv ok show ?thesis
    by (auto simp: mem_inv_def tokens_ok_def sessions_ok_def)
qed

text \<open>An update of a stored state that moves neither its key nor its owner.\<close>

lemma mem_inv_update_state:
  assumes inv: "mem_inv w" and it: "mem_tokens w k = Some it"
    and same: "subject_key it' = subject_key it" and ok: "item_ok k it'"
  shows "mem_inv (w\<lparr>mem_tokens := (mem_tokens w)(k \<mapsto> it')\<rparr>)"
proof -
  have "k' \<in> set (index_members key w) \<longleftrightarrow>
      (\<exists>i. ((mem_tokens w)(k \<mapsto> it')) k' = Some i \<and> subject_key i = key)" for k' key
    using mem_inv_members [OF inv, of k' key] it same by auto
  moreover have "index_ok w" using inv by (simp add: mem_inv_def)
  ultimately have "index_ok (w\<lparr>mem_tokens := (mem_tokens w)(k \<mapsto> it')\<rparr>)"
    by (simp add: index_ok_def)
  with inv ok show ?thesis
    by (auto simp: mem_inv_def tokens_ok_def sessions_ok_def)
qed

lemma item_ok_MarkConsumed:
  "item_ok k it \<Longrightarrow> item_ok k (it\<lparr>ti_state := MarkConsumed (ti_state it) t\<rparr>)"
  by (auto simp: item_ok_def state_ok_def normal_state_def cloned_def IsExpired_iff)

lemma subject_key_MarkConsumed [simp]:
  "subject_key (it\<lparr>ti_state := MarkConsumed (ti_state it) t\<rparr>) = subject_key it"
  by (simp add: subject_key_def TokenState_Subject_def)

lemma item_ok_new:
  assumes "state_ok s"
  shows "item_ok (ts_Token s) \<lparr>ti_state = s, ti_expiresAt = EffectiveExpiresAt s now ttl\<rparr>"
  using assms EffectiveExpiresAt_expired_iff [of s now ttl]
  by (auto simp: item_ok_def)

lemma mem_inv_sessions:
  "mem_inv w \<Longrightarrow> (\<And>key si. ss key = Some si \<Longrightarrow>
      LoginSubject_Normalize (se_Subject (si_session si)) = key \<and> \<not> LoginSubject_IsZero key) \<Longrightarrow>
   mem_inv (w\<lparr>mem_sessions := ss\<rparr>)"
  by (simp add: mem_inv_def tokens_ok_def index_ok_def sessions_ok_def index_members_def)

text \<open>The expiry of an item is that of its write; the state's own instant never comes first.\<close>

lemma item_expired_iff:
  assumes "item_ok k it"
  shows "tokenItem_isExpired it t \<longleftrightarrow> (\<exists>e. ti_expiresAt it = Some e \<and> e \<le> t)"
  using assms by (auto simp: tokenItem_isExpired_def Before_def item_ok_def split: option.split)

subsection \<open>Effects on tokens and sessions\<close>

text \<open>
  Each method, seen without the indexes. \<open>leaves w ts ss w'\<close>: the method went from \<open>w\<close> to a
  good state \<open>w'\<close> with the token table \<open>ts\<close> and the session table \<open>ss\<close>.
\<close>

definition leaves ::
    "'x mem_scheme \<Rightarrow> (TokenValue \<Rightarrow> tokenItem option) \<Rightarrow> (LoginSubject \<Rightarrow> sessionItem option) \<Rightarrow>
     'x mem_scheme \<Rightarrow> bool" where
  "leaves w ts ss w' \<longleftrightarrow>
     mem_inv w' \<and> same_env w w' \<and> mem_tokens w' = ts \<and> mem_sessions w' = ss"

lemma leavesD:
  assumes "leaves w ts ss w'"
  shows "mem_inv w'" "same_env w w'" "mem_tokens w' = ts" "mem_sessions w' = ss"
  using assms by (simp_all add: leaves_def)

lemma leaves_clock: "leaves w ts ss w' \<Longrightarrow> env_clock w' = env_clock w"
  by (simp add: leaves_def same_env_def)

lemma leaves_published: "leaves w ts ss w' \<Longrightarrow> env_published w' = env_published w"
  by (simp add: leaves_def same_env_def)

lemma leaves_trans:
  "leaves w ts ss v \<Longrightarrow> leaves v ts' ss' w' \<Longrightarrow> leaves w ts' ss' w'"
  by (auto simp: leaves_def intro: same_env_trans)

lemma leaves_refl: "mem_inv w \<Longrightarrow> leaves w (mem_tokens w) (mem_sessions w) w"
  by (simp add: leaves_def)

lemma leaves_tick: "mem_inv w \<Longrightarrow> leaves w (mem_tokens w) (mem_sessions w) (tick w)"
  by (simp add: leaves_def)

lemma leaves_from_tick [simp]: "leaves (tick w) = leaves w"
  by (intro ext) (simp add: leaves_def same_env_def)

text \<open>The token that a read at instant \<open>t\<close> finds, and the table after the eviction it may do.\<close>

definition live_item :: "time \<Rightarrow> (TokenValue \<Rightarrow> tokenItem option) \<Rightarrow> TokenValue \<Rightarrow> tokenItem option" where
  "live_item t ts k =
     (case ts k of None \<Rightarrow> None | Some it \<Rightarrow> if tokenItem_isExpired it t then None else Some it)"

definition live_state :: "time \<Rightarrow> (TokenValue \<Rightarrow> tokenItem option) \<Rightarrow> TokenValue \<Rightarrow> TokenState option" where
  "live_state t ts k = map_option ti_state (live_item t ts k)"

definition evicted :: "time \<Rightarrow> TokenValue \<Rightarrow> (TokenValue \<Rightarrow> tokenItem option) \<Rightarrow>
    TokenValue \<Rightarrow> tokenItem option" where
  "evicted t k ts = ts(k := live_item t ts k)"

lemma evicted_live: "live_item t ts k = Some it \<Longrightarrow> evicted t k ts = ts"
  by (auto simp: evicted_def live_item_def split: option.splits if_splits)

lemma evicted_absent: "ts k = None \<Longrightarrow> evicted t k ts = ts"
  by (auto simp: evicted_def live_item_def)

lemma live_item_SomeD:
  "live_item t ts k = Some it \<Longrightarrow> ts k = Some it \<and> \<not> tokenItem_isExpired it t"
  by (auto simp: live_item_def split: option.splits if_splits)

lemma wp_ctxErr:
  "(\<And>e. \<not> healthy c \<Longrightarrow> E (ErrContext e) (tick w)) \<Longrightarrow> Q () w \<Longrightarrow> Q () (tick w) \<Longrightarrow>
   wp (ctxErr c) Q E w"
proof (cases c)
  case (Some x)
  assume "\<And>e. \<not> healthy c \<Longrightarrow> E (ErrContext e) (tick w)" and "Q () (tick w)"
  moreover have "gc_done x (env_tick w) = Some e \<Longrightarrow> \<not> healthy c" for e
    using Some by (auto simp: healthy_def)
  ultimately show ?thesis
    using Some by (auto simp: wp_def ctxErr_def split: option.split)
qed (simp add: wp_ret)

text \<open>Every method starts by looking at the context; \<open>P\<close> is what it does from either world.\<close>

text \<open>
  Every method starts by looking at the context. \<open>on_cancel c w E\<close> is what the caller owes for
  the case that the context is done by then: nothing was changed.
\<close>

definition on_cancel :: "ctx \<Rightarrow> 'x mem_scheme \<Rightarrow> (error \<Rightarrow> 'x mem_scheme \<Rightarrow> bool) \<Rightarrow> bool" where
  "on_cancel c w E \<longleftrightarrow> (\<forall>e w'. \<not> healthy c \<longrightarrow> leaves w (mem_tokens w) (mem_sessions w) w' \<longrightarrow>
     E (ErrContext e) w')"

lemma on_cancel_healthy [simp]: "healthy c \<Longrightarrow> on_cancel c w E"
  by (simp add: on_cancel_def)

lemma wp_guarded:
  assumes inv: "mem_inv w" and err: "on_cancel c w E"
    and body: "\<And>v. leaves w (mem_tokens w) (mem_sessions w) v \<Longrightarrow> wp (f ()) Q E v"
  shows "wp (bindE (ctxErr c) f) Q E w"
  unfolding wp_bindE
proof (rule wp_ctxErr)
  show "E (ErrContext e) (tick w)" if "\<not> healthy c" for e
    using err that leaves_tick [OF inv] unfolding on_cancel_def by blast
qed (rule body, rule leaves_refl [OF inv], rule body, rule leaves_tick [OF inv])

lemma leaves_evict:
  assumes v: "leaves w ts ss v"
    and some: "ts k = Some it" and expired: "tokenItem_isExpired it t"
  shows "leaves w (evicted t k ts) ss (deleteTokenLocked k (tick v))"
  using assms by (auto simp: leaves_def evicted_def live_item_def same_env_def
      mem_inv_deleteTokenLocked)

lemma leaves_advance: "leaves w ts ss v \<Longrightarrow> leaves w ts ss (tick v)"
  by (simp add: leaves_def same_env_def)

lemma leaves_item_Clone:
  "leaves w ts ss v \<Longrightarrow> ts k = Some it \<Longrightarrow> TokenState_Clone (ti_state it) = ti_state it"
  by (auto simp: leaves_def intro!: state_ok_Clone item_ok_sel(2) mem_inv_item)

lemma wp_mem_GetTokenState:
  assumes inv: "mem_inv w" and err: "on_cancel c w E"
    and ok: "\<And>n w'. leaves w (evicted (env_clock w n) k (mem_tokens w)) (mem_sessions w) w' \<Longrightarrow>
               Q (live_state (env_clock w n) (mem_tokens w) k) w'"
  shows "wp (mem_GetTokenState c k) Q E w"
  unfolding mem_GetTokenState_def
proof (rule wp_guarded [OF inv err], goal_cases)
  case (1 v)
  note v = leavesD(3) [OF 1] leaves_clock [OF 1]
  note ok' = ok [of "env_tick v"]
  show ?case
  proof (cases "mem_tokens w k")
    case None
    with ok' leaves_advance [OF 1] show ?thesis
      by (simp add: wp_simps v live_state_def live_item_def evicted_def fun_upd_idem)
  next
    case (Some it)
    show ?thesis
    proof (cases "tokenItem_isExpired it (env_clock w (env_tick v))")
      case True
      with Some ok' leaves_evict [OF 1 Some True] show ?thesis
        by (simp add: wp_simps v live_state_def live_item_def)
    next
      case False
      with Some ok' leaves_advance [OF 1] leaves_item_Clone [OF 1 Some] show ?thesis
        by (simp add: wp_simps v live_state_def live_item_def evicted_def fun_upd_idem)
    qed
  qed
qed

lemma wp_mem_DeleteTokenState:
  assumes inv: "mem_inv w" and err: "on_cancel c w E"
    and ok: "\<And>w'. leaves w ((mem_tokens w)(k := None)) (mem_sessions w) w' \<Longrightarrow> Q () w'"
  shows "wp (mem_DeleteTokenState c k) Q E w"
  unfolding mem_DeleteTokenState_def
proof (rule wp_guarded [OF inv err], goal_cases)
  case (1 v)
  then show ?case
    by (auto simp: wp_simps leaves_def same_env_def mem_inv_deleteTokenLocked intro!: ok)
qed

text \<open>What a write stores, and when it is refused.\<close>

definition stored_state :: "TokenState \<Rightarrow> TokenState" where
  "stored_state s = TokenState_Normalize (TokenState_Clone s)"

definition storable :: "TokenState \<Rightarrow> bool" where
  "storable s \<longleftrightarrow>
     ts_Token s \<noteq> [] \<and> (ts_LoginID s \<noteq> [] \<or> ts_Kind s = TokenKindNonce)"

lemma storable_ok: "storable s \<Longrightarrow> state_ok (stored_state s)"
  by (auto simp: storable_def state_ok_def stored_state_def)
     (simp add: TokenState_Normalize_def Let_def)

lemma stored_state_id: "state_ok s \<Longrightarrow> stored_state s = s"
  by (simp add: stored_state_def state_ok_Clone state_ok_Normalize)

lemma stored_state_Token [simp]: "ts_Token (stored_state s) = ts_Token s"
  by (simp add: stored_state_def)

definition stored_item :: "TokenState \<Rightarrow> time \<Rightarrow> duration \<Rightarrow> tokenItem" where
  "stored_item s now ttl = \<lparr>ti_state = stored_state s,
     ti_expiresAt = EffectiveExpiresAt (stored_state s) now ttl\<rparr>"

lemma leaves_put:
  assumes v: "leaves w ts ss v" and ok: "storable s"
  shows "leaves w (ts(ts_Token s \<mapsto> stored_item s now ttl)) ss
    (mem_put (stored_state s) (EffectiveExpiresAt (stored_state s) now ttl) v)"
  using v storable_ok [OF ok] item_ok_new [OF storable_ok [OF ok], of now ttl]
  by (auto simp: leaves_def same_env_def stored_item_def intro!: mem_inv_mem_put)

lemma wp_mem_SaveTokenState:
  assumes inv: "mem_inv w" and err: "on_cancel c w E" and st: "storable s"
    and ok: "\<And>n w'. leaves w ((mem_tokens w)(ts_Token s \<mapsto> stored_item s (env_clock w n) ttl))
               (mem_sessions w) w' \<Longrightarrow> Q () w'"
  shows "wp (mem_SaveTokenState c (Some s) ttl) Q E w"
  unfolding mem_SaveTokenState_def mem_saveTokenState_def
proof (rule wp_guarded [OF inv err], goal_cases)
  case (1 v)
  have "Q () (mem_put (stored_state s)
      (EffectiveExpiresAt (stored_state s) (env_clock v (env_tick v)) ttl) (tick v))"
    using leaves_put [OF leaves_advance [OF 1] st] leaves_clock [OF 1] leavesD(3) [OF 1]
    by (intro ok [of "env_tick v"]) simp
  moreover have "ts_Token s \<noteq> []"
    and "\<not> (ts_LoginID (stored_state s) = [] \<and> ts_Kind (stored_state s) \<noteq> TokenKindNonce)"
    using storable_ok [OF st] by (auto simp: state_ok_def)
  ultimately show ?case
    by (auto simp: wp_simps Let_def mem_expect_def expirationFromState_def
        simp flip: stored_state_def)
qed

lemma wp_mem_CompareAndSwapTokenState:
  assumes inv: "mem_inv w" and err: "on_cancel c w E" and st: "storable s"
    and same: "ts_Token e = ts_Token s"
    and ok: "\<And>n n' w'.
      leaves w ((mem_tokens w)(ts_Token s \<mapsto> stored_item s (env_clock w n) ttl)) (mem_sessions w) w' \<Longrightarrow>
      live_state (env_clock w n') (mem_tokens w) (ts_Token s) = Some e \<Longrightarrow> Q True w'"
    and lost: "\<And>n' w'. leaves w (mem_tokens w) (mem_sessions w) w' \<Longrightarrow>
      live_state (env_clock w n') (mem_tokens w) (ts_Token s) \<noteq> Some e \<Longrightarrow> Q False w'"
  shows "wp (mem_CompareAndSwapTokenState c (Some e) (Some s) ttl) Q E w"
proof -
  let ?k = "ts_Token s"
  have ne: "?k \<noteq> []"
    "\<not> (ts_LoginID (stored_state s) = [] \<and> ts_Kind (stored_state s) \<noteq> TokenKindNonce)"
    using storable_ok [OF st] by (auto simp: state_ok_def)
  have "wp (mem_saveTokenState c (Some e) (Some s) ttl) (\<lambda>_. Q True)
      (\<lambda>x w'. if x = ErrTokenInvalid then Q False w' else E x w') w"
    unfolding mem_saveTokenState_def
  proof (rule wp_guarded [OF inv], goal_cases)
    case 1
    with err show ?case by (simp add: on_cancel_def)
  next
    case (2 v)
    note v = leavesD(3) [OF 2] leaves_clock [OF 2]
    let ?put = "mem_put (stored_state s)
      (EffectiveExpiresAt (stored_state s) (env_clock v (env_tick v)) ttl) (tick (tick v))"
    note tt = leaves_advance [OF leaves_advance [OF 2]]
    have q: "Q True ?put" if "live_state (env_clock w (Suc (env_tick v))) (mem_tokens w) ?k = Some e"
      using leaves_put [OF tt st] v that
      by (intro ok [of "env_tick v"]) simp_all
    have l: "Q False (tick v)" "Q False (tick (tick v))"
      if "live_state (env_clock w (Suc (env_tick v))) (mem_tokens w) ?k \<noteq> Some e"
      using tt leaves_advance [OF 2] v that by (auto intro!: lost)
    show ?case
      using ne q l
      by (auto simp: wp_simps Let_def mem_expect_def expirationFromState_def v live_state_def
          live_item_def simp flip: stored_state_def
          split: option.splits if_splits)
  qed
  then have "wp (attempt (mem_saveTokenState c (Some e) (Some s) ttl))
     (\<lambda>r. wp (case r of Inl x \<Rightarrow> if x = ErrTokenInvalid then ret False else throw x
                      | Inr _ \<Rightarrow> ret True) Q E) E w"
    unfolding wp_attempt by (rule wp_mono) (auto simp: wp_simps)
  with same show ?thesis
    by (simp add: mem_CompareAndSwapTokenState_def wp_bindE)
qed


text \<open>Consumption: the snapshot is the state before, and only a live, active state of the
  requested kind is marked.\<close>

definition consumed_table :: "time \<Rightarrow> TokenValue \<Rightarrow> TokenKind \<Rightarrow> (TokenValue \<Rightarrow> tokenItem option) \<Rightarrow>
    TokenValue \<Rightarrow> tokenItem option" where
  "consumed_table now k kind ts =
     (case live_item now ts k of
        None \<Rightarrow> ts(k := None)
      | Some it \<Rightarrow>
          if IsActive (ti_state it) now \<and> (kind = [] \<or> ts_Kind (ti_state it) = kind)
          then ts(k \<mapsto> it\<lparr>ti_state := MarkConsumed (ti_state it) now\<rparr>)
          else ts)"

lemma leaves_consume:
  assumes v: "leaves w ts ss v" and some: "ts k = Some it"
  shows "leaves w (ts(k \<mapsto> it\<lparr>ti_state := MarkConsumed (ti_state it) t\<rparr>)) ss
    (v\<lparr>mem_tokens := ts(k \<mapsto> it\<lparr>ti_state := MarkConsumed (ti_state it) t\<rparr>)\<rparr>)"
proof -
  have inv: "mem_inv v" and k: "mem_tokens v k = Some it" and ts: "mem_tokens v = ts"
    using v some by (auto simp: leaves_def)
  have "item_ok k (it\<lparr>ti_state := MarkConsumed (ti_state it) t\<rparr>)"
    using mem_inv_item [OF inv k] by (rule item_ok_MarkConsumed)
  from mem_inv_update_state [OF inv k _ this, unfolded ts] v show ?thesis
    by (simp add: leaves_def same_env_def)
qed

lemma wp_mem_consumeTokenState:
  assumes inv: "mem_inv w" and err: "on_cancel c w E"
    and ok: "\<And>n w'. leaves w (consumed_table (env_clock w n) k kind (mem_tokens w)) (mem_sessions w) w' \<Longrightarrow>
               Q (live_state (env_clock w n) (mem_tokens w) k) w'"
  shows "wp (mem_consumeTokenState c k kind) Q E w"
  unfolding mem_consumeTokenState_def
proof (rule wp_guarded [OF inv err], goal_cases)
  case (1 v)
  note v = leavesD(3) [OF 1] leaves_clock [OF 1]
  note ok' = ok [of "env_tick v"]
  show ?case
  proof (cases "mem_tokens w k")
    case None
    with ok' leaves_advance [OF 1] show ?thesis
      by (simp add: wp_simps v live_state_def live_item_def consumed_table_def fun_upd_idem)
  next
    case (Some it)
    show ?thesis
    proof (cases "tokenItem_isExpired it (env_clock w (env_tick v))")
      case True
      with Some ok' leaves_evict [OF 1 Some True] show ?thesis
        by (simp add: wp_simps v live_state_def live_item_def evicted_def consumed_table_def)
    next
      case False
      with Some ok' leaves_advance [OF 1] leaves_item_Clone [OF 1 Some]
        leaves_consume [OF leaves_advance [OF 1] Some, of "env_clock w (env_tick v)"]
      show ?thesis
        by (auto simp: wp_simps v live_state_def live_item_def consumed_table_def Let_def)
    qed
  qed
qed

lemmas wp_mem_ConsumeTokenState =
  wp_mem_consumeTokenState [where kind = "[]", folded mem_ConsumeTokenState_def]

lemma mem_ConsumeTokenStateOfKind_nonempty:
  "kind \<noteq> [] \<Longrightarrow> mem_ConsumeTokenStateOfKind c k kind = mem_consumeTokenState c k kind"
  by (simp add: mem_ConsumeTokenStateOfKind_def)

subsection \<open>Queries by owner\<close>

definition drop_where :: "(tokenItem \<Rightarrow> bool) \<Rightarrow> (TokenValue \<Rightarrow> tokenItem option) \<Rightarrow>
    TokenValue \<Rightarrow> tokenItem option" where
  "drop_where P ts = (\<lambda>k. case ts k of None \<Rightarrow> None | Some it \<Rightarrow> if P it then None else Some it)"

definition owned_states :: "time \<Rightarrow> LoginSubject \<Rightarrow> TokenKind list \<Rightarrow>
    (TokenValue \<Rightarrow> tokenItem option) \<Rightarrow> TokenState set" where
  "owned_states t key kinds ts = {s. \<exists>k it. live_item t ts k = Some it \<and> s = ti_state it
     \<and> subject_key it = key \<and> MatchKind (ts_Kind s) kinds}"

definition live_match :: "time \<Rightarrow> TokenKind list \<Rightarrow> (TokenValue \<Rightarrow> tokenItem option) \<Rightarrow>
    TokenValue \<Rightarrow> TokenState option" where
  "live_match t kinds ts k =
     (case live_item t ts k of None \<Rightarrow> None
      | Some it \<Rightarrow> if MatchKind (ts_Kind (ti_state it)) kinds then Some (ti_state it) else None)"

lemma set_map_filter: "set (List.map_filter f xs) = {y. \<exists>x\<in>set xs. f x = Some y}"
  by (induction xs) (auto split: option.split)

lemma live_match_iff: "live_match t kinds ts k = Some s \<longleftrightarrow>
    (\<exists>it. live_item t ts k = Some it \<and> s = ti_state it \<and> MatchKind (ts_Kind s) kinds)"
  by (auto simp: live_match_def split: option.split)

lemma leaves_delete: "leaves w ts ss v \<Longrightarrow> leaves w (ts(k := None)) ss (deleteTokenLocked k v)"
  by (auto simp: leaves_def same_env_def mem_inv_deleteTokenLocked)

lemma mem_find_loop_spec:
  assumes "leaves w ts ss v" and "distinct tokens" and "set tokens \<subseteq> dom ts"
  shows "\<exists>v'. mem_find_loop now key kinds tokens v
      = (map Some (List.map_filter (live_match now kinds ts) tokens), v')
    \<and> leaves w (\<lambda>k. if k \<in> set tokens then live_item now ts k else ts k) ss v'"
  using assms
proof (induction tokens arbitrary: v ts)
  case Nil
  then show ?case by (simp)
next
  case (Cons k ks)
  note v = leavesD(3) [OF Cons.prems(1)]
  from Cons.prems(3) obtain it where it: "ts k = Some it" by auto
  show ?case
  proof (cases "tokenItem_isExpired it now")
    case True
    have "leaves w (ts(k := None)) ss (deleteTokenLocked k v)" "set ks \<subseteq> dom (ts(k := None))"
      using Cons.prems by (auto intro: leaves_delete)
    moreover have "distinct ks" using Cons.prems(2) by simp
    ultimately obtain v' where
      v': "mem_find_loop now key kinds ks (deleteTokenLocked k v)
        = (map Some (List.map_filter (live_match now kinds (ts(k := None))) ks), v')"
      "leaves w (\<lambda>j. if j \<in> set ks then live_item now (ts(k := None)) j else (ts(k := None)) j) ss v'"
      using Cons.IH by blast
    have "List.map_filter (live_match now kinds (ts(k := None))) ks
        = List.map_filter (live_match now kinds ts) (k # ks)"
      using it True Cons.prems(2)
      by (auto simp: live_match_def live_item_def List.map_filter_def
          intro!: map_cong filter_cong)
    moreover have "(\<lambda>j. if j \<in> set ks then live_item now (ts(k := None)) j else (ts(k := None)) j)
        = (\<lambda>j. if j \<in> set (k # ks) then live_item now ts j else ts j)"
      using it True Cons.prems(2) by (auto simp: live_item_def fun_eq_iff)
    ultimately show ?thesis using v' it True v by simp
  next
    case False
    from Cons.IH [OF Cons.prems(1)] Cons.prems(2,3) obtain v' where
      v': "mem_find_loop now key kinds ks v
        = (map Some (List.map_filter (live_match now kinds ts) ks), v')"
      "leaves w (\<lambda>j. if j \<in> set ks then live_item now ts j else ts j) ss v'"
      by auto
    have "(\<lambda>j. if j \<in> set ks then live_item now ts j else ts j)
        = (\<lambda>j. if j \<in> set (k # ks) then live_item now ts j else ts j)"
      using it False by (auto simp: live_item_def fun_eq_iff)
    moreover have "live_match now kinds ts k
        = (if MatchKind (ts_Kind (ti_state it)) kinds then Some (ti_state it) else None)"
      using it False by (simp add: live_match_def live_item_def)
    ultimately show ?thesis
      using v' it False v leaves_item_Clone [OF Cons.prems(1) it] by simp
  qed
qed

lemma drop_empty_index_id: "mem_inv w \<Longrightarrow> drop_empty_index key w = w"
  by (simp add: drop_empty_index_def index_members_Nil_iff fun_upd_idem)

lemma wp_mem_FindTokenStates:
  assumes inv: "mem_inv w" and err: "on_cancel c w E"
    and ok: "\<And>n ss w'. leaves w
        (drop_where (\<lambda>it. subject_key it = LoginSubject_Normalize subject
                          \<and> tokenItem_isExpired it (env_clock w n)) (mem_tokens w))
        (mem_sessions w) w' \<Longrightarrow>
      distinct (map ts_Token ss) \<Longrightarrow>
      set ss = owned_states (env_clock w n) (LoginSubject_Normalize subject) kinds (mem_tokens w) \<Longrightarrow>
      Q (map Some ss) w'"
  shows "wp (mem_FindTokenStates c subject kinds) Q E w"
  unfolding mem_FindTokenStates_def
proof (rule wp_guarded [OF inv err], goal_cases)
  case (1 v)
  let ?key = "LoginSubject_Normalize subject" and ?now = "env_clock w (env_tick v)"
  let ?ts = "mem_tokens w"
  let ?ks = "map_order (env_order w (Suc (env_tick v))) (index_members ?key v)"
  have inv_v: "mem_inv v" and ts: "mem_tokens v = ?ts"
    using 1 by (simp_all add: leaves_def)
  have ks: "k \<in> set ?ks \<longleftrightarrow> (\<exists>it. ?ts k = Some it \<and> subject_key it = ?key)" for k
    using mem_inv_members [OF inv_v] ts by simp
  have ks_live: "k \<in> set ?ks \<longleftrightarrow> subject_key it = ?key" if "live_item ?now ?ts k = Some it" for k it
    using live_item_SomeD [OF that] ks by simp
  have dist: "distinct ?ks" using mem_inv_distinct [OF inv_v] by simp
  have "set ?ks \<subseteq> dom ?ts" using ks by auto
  from mem_find_loop_spec [OF leaves_advance [OF leaves_advance [OF 1]] dist this]
  obtain v' where v': "mem_find_loop ?now ?key kinds ?ks (tick (tick v))
      = (map Some (List.map_filter (live_match ?now kinds ?ts) ?ks), v')"
    "leaves w (\<lambda>k. if k \<in> set ?ks then live_item ?now ?ts k else ?ts k) (mem_sessions w) v'"
    by blast
  have tab: "(\<lambda>k. if k \<in> set ?ks then live_item ?now ?ts k else ?ts k)
     = drop_where (\<lambda>it. subject_key it = ?key \<and> tokenItem_isExpired it ?now) ?ts"
    using ks by (auto simp: fun_eq_iff drop_where_def live_item_def split: option.split)
  have tok: "ts_Token s = k" if "live_match ?now kinds ?ts k = Some s" for k s
    using that mem_inv_item [OF inv, of k]
    by (auto simp: live_match_def live_item_def item_ok_def split: option.splits if_splits)
  have "map ts_Token (List.map_filter (live_match ?now kinds ?ts) ks)
      = filter (\<lambda>k. live_match ?now kinds ?ts k \<noteq> None) ks" for ks
    using tok by (induction ks) (auto)
  then have "distinct (map ts_Token (List.map_filter (live_match ?now kinds ?ts) ?ks))"
    using dist by simp
  moreover have "set (List.map_filter (live_match ?now kinds ?ts) ?ks)
      = owned_states ?now ?key kinds ?ts"
    using ks_live unfolding set_map_filter owned_states_def live_match_iff by blast
  ultimately have "Q (map Some (List.map_filter (live_match ?now kinds ?ts) ?ks)) v'"
    using v'(2) unfolding tab by (intro ok)
  moreover have "env_clock v = env_clock w" "env_order v = env_order w"
    using 1 by (simp_all add: leaves_def same_env_def)
  ultimately show ?case
    using v'(1) drop_empty_index_id [OF leavesD(1) [OF v'(2)]]
    by (simp add: wp_simps Let_def)
qed


lemma mem_delete_loop_spec:
  assumes "leaves w ts ss v"
  shows "leaves w (\<lambda>k. if k \<in> set tokens
      then drop_where (\<lambda>it. MatchKind (ts_Kind (ti_state it)) kinds) ts k else ts k) ss
    (mem_delete_loop kinds tokens v)"
  using assms
proof (induction tokens arbitrary: v ts)
  case (Cons k ks)
  let ?P = "\<lambda>it. MatchKind (ts_Kind (ti_state it)) kinds"
  note v = leavesD(3) [OF Cons.prems]
  show ?case
  proof (cases "\<exists>it. ts k = Some it \<and> ?P it")
    case True
    have "(\<lambda>j. if j \<in> set ks then drop_where ?P (ts(k := None)) j else (ts(k := None)) j)
        = (\<lambda>j. if j \<in> set (k # ks) then drop_where ?P ts j else ts j)"
      using True by (auto simp: fun_eq_iff drop_where_def)
    with Cons.IH [OF leaves_delete [OF Cons.prems, of k]] True v show ?thesis by auto
  next
    case False
    have "(\<lambda>j. if j \<in> set ks then drop_where ?P ts j else ts j)
        = (\<lambda>j. if j \<in> set (k # ks) then drop_where ?P ts j else ts j)"
      using False by (auto simp: fun_eq_iff drop_where_def split: option.split)
    with Cons.IH [OF Cons.prems] False v show ?thesis by (auto split: option.split)
  qed
qed simp

lemma wp_mem_DeleteTokenStates:
  assumes inv: "mem_inv w" and err: "on_cancel c w E"
    and ok: "\<And>w'. leaves w
        (drop_where (\<lambda>it. subject_key it = LoginSubject_Normalize subject
                          \<and> MatchKind (ts_Kind (ti_state it)) kinds) (mem_tokens w))
        (mem_sessions w) w' \<Longrightarrow> Q () w'"
  shows "wp (mem_DeleteTokenStates c subject kinds) Q E w"
  unfolding mem_DeleteTokenStates_def
proof (rule wp_guarded [OF inv err], goal_cases)
  case (1 v)
  let ?key = "LoginSubject_Normalize subject" and ?ts = "mem_tokens w"
  let ?ks = "map_order (env_order v (env_tick v)) (index_members ?key v)"
  have ks: "k \<in> set ?ks \<longleftrightarrow> (\<exists>it. ?ts k = Some it \<and> subject_key it = ?key)" for k
    using mem_inv_members [OF leavesD(1) [OF 1]] leavesD(3) [OF 1] by simp
  have "(\<lambda>k. if k \<in> set ?ks
      then drop_where (\<lambda>it. MatchKind (ts_Kind (ti_state it)) kinds) ?ts k else ?ts k)
    = drop_where (\<lambda>it. subject_key it = ?key \<and> MatchKind (ts_Kind (ti_state it)) kinds) ?ts"
    using ks by (auto simp: fun_eq_iff drop_where_def split: option.split)
  with mem_delete_loop_spec [OF leaves_advance [OF 1], of ?ks kinds] show ?case
    by (simp add: wp_simps Let_def ok)
qed

subsection \<open>Sessions\<close>

definition session_expiry :: "time \<Rightarrow> duration \<Rightarrow> time option" where
  "session_expiry now ttl = (if ttl > 0 then Some (Time_Add now ttl) else None)"

definition live_session :: "time \<Rightarrow> (LoginSubject \<Rightarrow> sessionItem option) \<Rightarrow> LoginSubject \<Rightarrow>
    sessionItem option" where
  "live_session t ss key =
     (case ss key of None \<Rightarrow> None | Some si \<Rightarrow> if sessionItem_isExpired si t then None else Some si)"

definition ensured_session :: "time \<Rightarrow> LoginSubject \<Rightarrow> duration \<Rightarrow>
    (LoginSubject \<Rightarrow> sessionItem option) \<Rightarrow> sessionItem" where
  "ensured_session now key ttl ss =
     \<lparr>si_session = (case live_session now ss key of
                      None \<Rightarrow> NewSessionForSubject key | Some si \<Rightarrow> si_session si),
      si_expiresAt = session_expiry now ttl\<rparr>"

lemma leaves_sessions:
  assumes v: "leaves w ts ss v"
    and "\<And>si. si' = Some si \<Longrightarrow>
      LoginSubject_Normalize (se_Subject (si_session si)) = key \<and> \<not> LoginSubject_IsZero key"
  shows "leaves w ts (ss(key := si')) (v\<lparr>mem_sessions := ss(key := si')\<rparr>)"
proof -
  have "mem_inv (v\<lparr>mem_sessions := ss(key := si')\<rparr>)"
    using v assms(2) by (intro mem_inv_sessions)
      (auto simp: leaves_def mem_inv_def sessions_ok_def split: if_splits)
  with v show ?thesis by (simp add: leaves_def same_env_def)
qed

lemma sessionItem_with_expiry:
  "(si::sessionItem)\<lparr>si_expiresAt := e\<rparr> = \<lparr>si_session = si_session si, si_expiresAt = e\<rparr>"
  by (cases si) simp

lemma wp_mem_SaveSession:
  assumes inv: "mem_inv w" and err: "on_cancel c w E" and nz: "\<not> LoginSubject_IsZero (se_Subject s)"
    and ok: "\<And>n w'. leaves w (mem_tokens w) ((mem_sessions w)(LoginSubject_Normalize (se_Subject s) \<mapsto>
        \<lparr>si_session = Session_Clone s, si_expiresAt = session_expiry (env_clock w n) ttl\<rparr>)) w' \<Longrightarrow>
      Q () w'"
  shows "wp (mem_SaveSession c (Some s) ttl) Q E w"
  unfolding mem_SaveSession_def
proof (rule wp_guarded [OF inv err], goal_cases)
  case (1 v)
  let ?key = "LoginSubject_Normalize (se_Subject s)"
  have "leaves w (mem_tokens w) ((mem_sessions w)(?key \<mapsto> si))
      (u\<lparr>mem_sessions := (mem_sessions w)(?key \<mapsto> si)\<rparr>)"
    if "si_session si = Session_Clone s" "leaves w (mem_tokens w) (mem_sessions w) u" for si u
    using that nz by (intro leaves_sessions) auto
  note this [OF _ leaves_advance [OF 1]] this [OF _ 1]
  with nz leavesD(4) [OF 1] leaves_clock [OF 1] ok [of "env_tick v"] show ?case
    by (simp add: wp_simps Let_def session_expiry_def)
qed

lemma wp_mem_EnsureSession:
  assumes inv: "mem_inv w" and err: "on_cancel c w E" and nz: "\<not> LoginSubject_IsZero subject"
    and ok: "\<And>n w'. leaves w (mem_tokens w) ((mem_sessions w)(LoginSubject_Normalize subject \<mapsto>
        ensured_session (env_clock w n) (LoginSubject_Normalize subject) ttl (mem_sessions w))) w' \<Longrightarrow>
      Q () w'"
  shows "wp (mem_EnsureSession c subject ttl) Q E w"
  unfolding mem_EnsureSession_def
proof (rule wp_guarded [OF inv err], goal_cases)
  case (1 v)
  let ?key = "LoginSubject_Normalize subject"
  let ?si = "ensured_session (env_clock w (env_tick v)) ?key ttl (mem_sessions w)"
  have "LoginSubject_Normalize (se_Subject (si_session ?si)) = ?key"
    using inv by (auto simp: ensured_session_def live_session_def NewSessionForSubject_def mem_inv_def
        sessions_ok_def split: option.split)
  then have "leaves w (mem_tokens w) ((mem_sessions w)(?key \<mapsto> ?si))
      ((tick v)\<lparr>mem_sessions := (mem_sessions w)(?key \<mapsto> ?si)\<rparr>)"
    using nz by (intro leaves_sessions leaves_advance [OF 1]) auto
  from ok [OF this] nz leavesD(4) [OF 1] leaves_clock [OF 1] show ?case
    by (auto simp: wp_simps Let_def session_expiry_def ensured_session_def live_session_def
        sessionItem_with_expiry split: option.splits)
qed

lemma wp_mem_GetSession:
  assumes inv: "mem_inv w" and err: "on_cancel c w E"
    and ok: "\<And>n w'. leaves w (mem_tokens w) ((mem_sessions w)(LoginSubject_Normalize subject :=
        live_session (env_clock w n) (mem_sessions w) (LoginSubject_Normalize subject))) w' \<Longrightarrow>
      Q (map_option (\<lambda>si. Session_Clone (si_session si))
        (live_session (env_clock w n) (mem_sessions w) (LoginSubject_Normalize subject))) w'"
  shows "wp (mem_GetSession c subject) Q E w"
  unfolding mem_GetSession_def
proof (rule wp_guarded [OF inv err], goal_cases)
  case (1 v)
  let ?key = "LoginSubject_Normalize subject"
  have gone: "leaves w (mem_tokens w) ((mem_sessions w)(?key := None))
      ((tick v)\<lparr>mem_sessions := (mem_sessions w)(?key := None)\<rparr>)"
    by (intro leaves_sessions leaves_advance [OF 1]) simp
  note facts = gone leaves_advance [OF 1] leavesD(4) [OF 1] leaves_clock [OF 1] ok [of "env_tick v"]
  show ?case
    using facts by (auto simp: wp_simps Let_def live_session_def fun_upd_idem split: option.splits)
qed

lemma wp_mem_DeleteSession:
  assumes inv: "mem_inv w" and err: "on_cancel c w E"
    and ok: "\<And>w'. leaves w (mem_tokens w)
        ((mem_sessions w)(LoginSubject_Normalize subject := None)) w' \<Longrightarrow> Q () w'"
  shows "wp (mem_DeleteSession c subject) Q E w"
  unfolding mem_DeleteSession_def
proof (rule wp_guarded [OF inv err], goal_cases)
  case (1 v)
  from leaves_sessions [OF 1, of None "LoginSubject_Normalize subject"] leavesD(4) [OF 1] ok
  show ?case by (simp add: wp_simps)
qed

end
