(* ===== verification/Memory_Table.thy ===== *)
theory Memory_Table
  imports Token_Table Memory_Correct
begin

text \<open>The in-memory store implements the table of live states; it can hold every state.\<close>

definition mem_rel :: "time \<Rightarrow> 'x mem_scheme \<Rightarrow> token_table \<Rightarrow> bool" where
  "mem_rel now w T \<longleftrightarrow> mem_inv w \<and> env_clock w = (\<lambda>_. now) \<and> T = live_state now (mem_tokens w)"

lemma saved_state_stored: "saved_state s = stored_state s"
  by (simp add: saved_state_def stored_state_def)

lemma saveable_storable: "saveable s = storable s"
  by (simp add: saveable_def storable_def)

lemma mem_relD:
  assumes "mem_rel now w T"
  shows "mem_inv w" "env_clock w n = now" "T = live_state now (mem_tokens w)"
  using assms by (simp_all add: mem_rel_def)

lemma mem_rel_leaves:
  assumes "mem_rel now w T" and "leaves w ts ss w'" and "live_state now ts = T'"
  shows "mem_rel now w' T'"
  using assms by (simp add: mem_rel_def leaves_def same_env_def)

lemma live_stored_item:
  assumes "storable s"
  shows "live_state now (ts(ts_Token s \<mapsto> stored_item s now ttl)) = put_live now s (live_state now ts)"
proof -
  have "item_ok (ts_Token (stored_state s)) \<lparr>ti_state = stored_state s, ti_expiresAt = EffectiveExpiresAt (stored_state s) now ttl\<rparr>"
    by (rule item_ok_new [OF storable_ok [OF assms]])
  then have "tokenItem_isExpired (stored_item s now ttl) now \<longleftrightarrow> IsExpired (stored_state s) now"
    using EffectiveExpiresAt_expired_iff [of "stored_state s" now ttl]
    by (auto simp: item_expired_iff stored_item_def Time_Add_def)
  then show ?thesis
    by (auto simp: live_state_def live_item_def put_live_def saved_state_stored stored_item_def fun_eq_iff)
qed

lemma live_evicted: "live_state now (evicted now k ts) = live_state now ts"
  by (auto simp: live_state_def evicted_def live_item_def fun_eq_iff split: option.split)

lemma live_consumed:
  assumes "\<And>it. ts k = Some it \<Longrightarrow> item_ok k it"
  shows "live_state now (consumed_table now k kind ts) = spend now kind k (live_state now ts)"
  using item_expired_iff [OF item_ok_MarkConsumed [OF assms]] item_expired_iff [OF assms]
  by (auto simp: live_state_def consumed_table_def spend_def live_item_def fun_eq_iff split: option.split)

lemma live_removed: "live_state now (ts(k := None)) = (live_state now ts)(k := None)"
  by (auto simp: live_state_def live_item_def fun_eq_iff)

lemma live_drop_expired:
  "live_state now (drop_where (\<lambda>it. P it \<and> tokenItem_isExpired it now) ts) = live_state now ts"
  by (auto simp: live_state_def live_item_def drop_where_def fun_eq_iff split: option.split)

lemma live_drop_owned:
  "live_state now (drop_where (\<lambda>it. subject_key it = LoginSubject_Normalize subject
      \<and> MatchKind (ts_Kind (ti_state it)) kinds) ts) = without_owned subject kinds (live_state now ts)"
  by (auto simp: live_state_def live_item_def drop_where_def without_owned_def owned_by_def subject_key_def fun_eq_iff
      split: option.split)

lemma owned_states_owned:
  "owned_states now (LoginSubject_Normalize subject) kinds ts = owned subject kinds (live_state now ts)"
  by (auto simp: owned_states_def owned_def owned_by_def live_state_def subject_key_def)

interpretation mem_table: table_store "mem_rel now" mem_store_ops mem_atomic_ops now "\<lambda>_. True" for now
proof (unfold_locales, goal_cases)
  case (1 w T c s ttl)
  note D = mem_relD [OF 1(1)]
  from 1 show ?case
    unfolding mem_store_ops_def store_ops.simps
    by (intro wp_mem_SaveTokenState [OF D(1)])
      (auto simp: saveable_storable D(2,3) live_stored_item elim!: mem_rel_leaves [OF 1(1)])
next
  case (2 w T c s e ttl)
  note D = mem_relD [OF 2(1)]
  from 2 show ?case
    unfolding mem_atomic_ops_def atomic_ops.simps
    by (intro wp_mem_CompareAndSwapTokenState [OF D(1)])
      (auto simp: saveable_storable D(2,3) live_stored_item elim!: mem_rel_leaves [OF 2(1)])
next
  case (3 w T c k)
  note D = mem_relD [OF 3(1)]
  from 3 show ?case
    unfolding mem_store_ops_def store_ops.simps
    by (intro wp_mem_GetTokenState [OF D(1)]) (auto simp: D(2,3) live_evicted elim!: mem_rel_leaves [OF 3(1)])
next
  case (4 w T c k)
  note D = mem_relD [OF 4(1)]
  from 4 show ?case
    unfolding mem_store_ops_def store_ops.simps mem_ConsumeTokenState_def
    by (intro wp_mem_consumeTokenState [OF D(1)])
      (auto simp: D(2,3) live_consumed [OF mem_inv_item [OF D(1)]] elim!: mem_rel_leaves [OF 4(1)])
next
  case (5 w T c kind k)
  note D = mem_relD [OF 5(1)]
  from 5 show ?case
    unfolding mem_atomic_ops_def atomic_ops.simps mem_ConsumeTokenStateOfKind_def
    by (simp, intro wp_mem_consumeTokenState [OF D(1)])
      (auto simp: D(2,3) live_consumed [OF mem_inv_item [OF D(1)]] elim!: mem_rel_leaves [OF 5(1)])
next
  case (6 w T c k)
  note D = mem_relD [OF 6(1)]
  from 6 show ?case
    unfolding mem_store_ops_def store_ops.simps
    by (intro wp_mem_DeleteTokenState [OF D(1)]) (auto simp: D(3) live_removed elim!: mem_rel_leaves [OF 6(1)])
next
  case (7 w T c subject kinds)
  note D = mem_relD [OF 7(1)]
  from 7 show ?case
    unfolding mem_store_ops_def store_ops.simps
    by (intro wp_mem_FindTokenStates [OF D(1)])
      (auto simp: D(2,3) live_drop_expired owned_states_owned distinct_map elim!: mem_rel_leaves [OF 7(1)])
next
  case (8 w T c subject kinds)
  note D = mem_relD [OF 8(1)]
  from 8 show ?case
    unfolding mem_store_ops_def store_ops.simps
    by (intro wp_mem_DeleteTokenStates [OF D(1)])
      (auto simp: D(2,3) live_drop_owned elim!: mem_rel_leaves [OF 8(1)])
qed

lemma mem_rel_empty:
  assumes "env_clock e = (\<lambda>_. now)"
  shows "mem_rel now (mem_NewStore e) (\<lambda>_. None)"
  using assms by (simp add: mem_rel_def mem_inv_NewStore)
    (simp add: mem_NewStore_def env.defs mem.defs live_state_def live_item_def fun_eq_iff)

end
