(* ===== verification/Json_Properties.thy ===== *)
theory Json_Properties
  imports Session_Json
begin

text \<open>
  What a store that keeps JSON gives back: the round trips of token states and of sessions.
\<close>

subsection \<open>Token states\<close>

text \<open>C40: a token state survives its JSON. A state with valid UTF-8 strings, times of the years 0 to
  9999 and metadata in compact form is written without error and read back as the same state, every
  nested part and every nanosecond included. And any state that can be written and read back
  differs from the original only in bytes that are not UTF-8 and in the layout of its metadata.\<close>

theorem state_json_roundtrip:
  "(state_plain s \<longrightarrow> (\<exists>d. TokenState_Marshal s = Inr d \<and> TokenState_Unmarshal d = Inr s))
   \<and> (\<forall>d s'. TokenState_Marshal s = Inr d \<and> TokenState_Unmarshal d = Inr s' \<longrightarrow> s' = state_image s)"
  using state_roundtrip [of s] Unmarshal_Marshal_image [of s] by blast

definition sample_refresh_state :: TokenState where
  "sample_refresh_state = \<lparr>ts_Token = ''abc'', ts_Kind = TokenKindRefresh, ts_LoginID = ''u\"1'', ts_LoginType = ''web'',
     ts_Device = [], ts_CreatedAt = 1700000000123456789, ts_LastActiveAt = 1700000000000000000,
     ts_ExpiresAt = Some 1800000000000000000, ts_Status = TokenStatusActive, ts_Metadata = None,
     ts_Refresh = Some \<lparr>ri_AccessToken = ''def'', ri_RotatedFrom = [], ri_RotatedTo = [],
       ri_LastUsedAt = Some 1700000000000000001, ri_RevokedAt = None\<rparr>,
     ts_Nonce = None, ts_Online = None\<rparr>"

theorem state_json_roundtrip_witness:
  "\<exists>d. TokenState_Marshal sample_refresh_state = Inr d \<and> TokenState_Unmarshal d = Inr sample_refresh_state"
proof -
  have "state_plain sample_refresh_state" by code_simp
  then show ?thesis using state_json_roundtrip [of sample_refresh_state] by simp
qed

end
