(* ===== verification/Rand.thy ===== *)
theory Rand
  imports Core_Env
begin

text \<open>
  The random strings of \<open>pkg/rand/rand.go\<close>, with the URL-safe base64 encoding of
  \<open>encoding/base64\<close> they are built from. The entropy source is an observation of the
  environment that may fail.
\<close>

subsection \<open>base64.URLEncoding\<close>

definition url_alphabet :: string where
  "url_alphabet = ''ABCDEFGHIJKLMNOPQRSTUVWXYZabcdefghijklmnopqrstuvwxyz0123456789-_''"

definition url_digit :: "nat \<Rightarrow> char" where
  "url_digit n = url_alphabet ! (n mod 64)"

definition base64_pad :: char where "base64_pad = CHR ''=''"

fun base64_EncodeToString :: "string \<Rightarrow> string" where
  "base64_EncodeToString [] = []"
| "base64_EncodeToString [a] =
     (let n = of_char a * 2 ^ 16
      in [url_digit (n div 2 ^ 18), url_digit (n div 2 ^ 12), base64_pad, base64_pad])"
| "base64_EncodeToString [a, b] =
     (let n = of_char a * 2 ^ 16 + of_char b * 2 ^ 8
      in [url_digit (n div 2 ^ 18), url_digit (n div 2 ^ 12), url_digit (n div 2 ^ 6), base64_pad])"
| "base64_EncodeToString (a # b # c # rest) =
     (let n = of_char a * 2 ^ 16 + of_char b * 2 ^ 8 + of_char c
      in url_digit (n div 2 ^ 18) # url_digit (n div 2 ^ 12) # url_digit (n div 2 ^ 6)
         # url_digit n # base64_EncodeToString rest)"

text \<open>\<open>strings.TrimRight(s, "=")\<close>.\<close>

definition TrimRight_pad :: "string \<Rightarrow> string" where
  "TrimRight_pad s = rev (dropWhile (\<lambda>c. c = base64_pad) (rev s))"

subsection \<open>Random strings\<close>

definition RandomString :: "int \<Rightarrow> ('x, string) eop" where
  "RandomString n =
     (if n \<le> 0 then ret []
      else
        let byteLen = (n * 3) div 4;
            byteLen = (if byteLen < n then n else byteLen)
        in bindE (attempt (rand_Read (nat byteLen))) (\<lambda>r.
           case r of
             Inl err \<Rightarrow> throw (ErrWrap ''random: read entropy'' err)
           | Inr bytes \<Rightarrow>
               let encoded = TrimRight_pad (base64_EncodeToString bytes)
               in if int (length encoded) > n then ret (take (nat n) encoded) else ret encoded))"

text \<open>\<open>rand.Int(rand.Reader, max)\<close>: one observation of the source, a number below the bound.\<close>

definition rand_Int :: "nat \<Rightarrow> ('x, nat) eop" where
  "rand_Int bound = bindE (rand_Read 1) (\<lambda>bytes. ret (of_char (hd bytes) mod bound))"

fun random_chars :: "string \<Rightarrow> nat \<Rightarrow> ('x, string) eop" where
  "random_chars chars 0 = ret []"
| "random_chars chars (Suc k) =
     bindE (attempt (rand_Int (length chars))) (\<lambda>r.
     case r of
       Inl err \<Rightarrow> throw (ErrWrap ''random: read entropy'' err)
     | Inr n \<Rightarrow> bindE (random_chars chars k) (\<lambda>rest. ret (chars ! n # rest)))"

definition RandomNumericString :: "int \<Rightarrow> ('x, string) eop" where
  "RandomNumericString n = (if n \<le> 0 then ret [] else random_chars ''0123456789'' (nat n))"

definition RandomAlphanumeric :: "int \<Rightarrow> ('x, string) eop" where
  "RandomAlphanumeric n =
     (if n \<le> 0 then ret []
      else random_chars
        ''ABCDEFGHIJKLMNOPQRSTUVWXYZabcdefghijklmnopqrstuvwxyz0123456789'' (nat n))"

subsection \<open>Length and alphabet\<close>

lemma url_digit_in [simp]: "url_digit n \<in> set url_alphabet"
  unfolding url_digit_def by (rule nth_mem) (simp add: url_alphabet_def)

lemma url_digit_not_pad [simp]: "url_digit n \<noteq> base64_pad"
proof -
  have "base64_pad \<notin> set url_alphabet" by (simp add: url_alphabet_def base64_pad_def)
  then show ?thesis using url_digit_in by metis
qed

text \<open>Without its padding, the encoding is a string of digits at least as long as the input.\<close>

lemma base64_shape:
  "\<exists>body p. base64_EncodeToString s = body @ replicate p base64_pad
     \<and> set body \<subseteq> set url_alphabet \<and> base64_pad \<notin> set body \<and> length s \<le> length body"
proof (induction s rule: base64_EncodeToString.induct)
  case 1
  show ?case by (rule exI [of _ "[]"], rule exI [of _ 0]) simp
next
  case (2 a)
  let ?n = "of_char a * 2 ^ 16 :: nat"
  show ?case
    by (rule exI [of _ "[url_digit (?n div 2 ^ 18), url_digit (?n div 2 ^ 12)]"],
        rule exI [of _ 2])
      (simp add: Let_def numeral_2_eq_2 url_digit_not_pad [symmetric] del: url_digit_not_pad)
next
  case (3 a b)
  let ?n = "of_char a * 2 ^ 16 + of_char b * 2 ^ 8 :: nat"
  show ?case
    by (rule exI [of _ "[url_digit (?n div 2 ^ 18), url_digit (?n div 2 ^ 12), url_digit (?n div 2 ^ 6)]"],
        rule exI [of _ 1])
      (simp add: Let_def url_digit_not_pad [symmetric] del: url_digit_not_pad)
next
  case (4 a b c rest)
  let ?n = "of_char a * 2 ^ 16 + of_char b * 2 ^ 8 + of_char c :: nat"
  from 4 obtain body p where *: "base64_EncodeToString rest = body @ replicate p base64_pad"
    "set body \<subseteq> set url_alphabet" "base64_pad \<notin> set body" "length rest \<le> length body"
    by (auto simp: Let_def)
  show ?case
    by (rule exI [of _ "url_digit (?n div 2 ^ 18) # url_digit (?n div 2 ^ 12)
          # url_digit (?n div 2 ^ 6) # url_digit ?n # body"], rule exI [of _ p])
      (use * in \<open>simp add: Let_def url_digit_not_pad [symmetric] del: url_digit_not_pad\<close>)
qed

lemma TrimRight_pad_encoding:
  "set (TrimRight_pad (base64_EncodeToString s)) \<subseteq> set url_alphabet
   \<and> length s \<le> length (TrimRight_pad (base64_EncodeToString s))"
proof -
  obtain body p where *: "base64_EncodeToString s = body @ replicate p base64_pad"
    "set body \<subseteq> set url_alphabet" "base64_pad \<notin> set body" "length s \<le> length body"
    using base64_shape by blast
  have "dropWhile (\<lambda>c. c = base64_pad) (replicate p base64_pad @ rev body) = rev body"
    using *(3) by (simp add: dropWhile_append dropWhile_eq_self_iff)
      (metis hd_in_set set_rev rev_is_Nil_conv)
  with * show ?thesis by (simp add: TrimRight_pad_def)
qed

lemma keeps_RandomString:
  assumes "tick_stable I"
  shows "keeps I (RandomString n)
    (\<lambda>s. length s = nat n \<and> set s \<subseteq> set url_alphabet)"
proof (cases "n \<le> 0")
  case True
  then show ?thesis by (simp add: RandomString_def keeps_ret)
next
  case False
  define byteLen where "byteLen = (let b = (n * 3) div 4 in if b < n then n else b)"
  have len: "n \<le> byteLen" by (simp add: byteLen_def Let_def)
  have "keeps I (attempt (rand_Read (nat byteLen)))
      (\<lambda>r. \<forall>s. r = Inr s \<longrightarrow> length s = nat byteLen)"
    by (intro keeps_attempt_value keeps_rand_Read assms)
  then have "keeps I (bindE (attempt (rand_Read (nat byteLen))) (\<lambda>r.
      case r of Inl err \<Rightarrow> throw (ErrWrap ''random: read entropy'' err)
      | Inr bytes \<Rightarrow>
          let encoded = TrimRight_pad (base64_EncodeToString bytes)
          in if int (length encoded) > n then ret (take (nat n) encoded) else ret encoded))
      (\<lambda>s. length s = nat n \<and> set s \<subseteq> set url_alphabet)"
  proof (rule keeps_bindE, goal_cases)
    case (1 r)
    show ?case
    proof (cases r)
      case (Inr bytes)
      with 1 len TrimRight_pad_encoding [of bytes] False show ?thesis
        by (auto simp: Let_def intro!: keeps_ret dest: in_set_takeD)
    qed (simp add: keeps_throw)
  qed
  with False show ?thesis
    by (simp only: RandomString_def byteLen_def Let_def if_False)
qed

end
