(* ===== verification/Redis_Store.thy ===== *)
theory Redis_Store
  imports Session_Json Rand
begin

text \<open>
  The Redis store of \<open>storage/redis/store.go\<close> and \<open>storage/redis/session.go\<close>: the methods in Go and
  the scripts in Lua that they send to the server. The server and its client library are
  parameters: a record of the commands that a method issues, and one of the commands that a script
  calls. States and sessions are stored as their JSON.
\<close>

subsection \<open>The client and the server\<close>

text \<open>The options of \<open>SET\<close>: none, \<open>"PX", millis\<close> and \<open>"KEEPTTL"\<close>.\<close>

datatype set_option = SetPlain | SetPX string | SetKeepTTL

text \<open>\<open>redis.call\<close> inside a script. A missing value is \<open>None\<close> (\<open>false\<close> in Lua); an error of a call
  ends the script.\<close>

record 'w redis_calls =
  call_GET :: "string \<Rightarrow> ('w, error, string option) op"
  call_SET :: "string \<Rightarrow> string \<Rightarrow> set_option \<Rightarrow> ('w, error, unit) op"
  call_DEL :: "string list \<Rightarrow> ('w, error, int) op"
  call_SREM :: "string \<Rightarrow> string \<Rightarrow> ('w, error, int) op"
  call_SADD :: "string \<Rightarrow> string \<Rightarrow> ('w, error, int) op"
  call_PEXPIRE :: "string \<Rightarrow> string \<Rightarrow> ('w, error, int) op"
  call_PERSIST :: "string \<Rightarrow> ('w, error, int) op"

text \<open>A script has the arrays \<open>KEYS\<close> and \<open>ARGV\<close>, counted from one, and returns an integer.\<close>

type_synonym 'w lua_script =
  "'w redis_calls \<Rightarrow> (nat \<Rightarrow> string) \<Rightarrow> (nat \<Rightarrow> string) \<Rightarrow> ('w, error, int) op"

text \<open>The commands of the client; \<open>Get\<close> answers \<open>None\<close> where the library has its nil error.\<close>

record 'w redis_client =
  cl_MGet :: "string list \<Rightarrow> ('w, error, string option list) op"
  cl_Get :: "string \<Rightarrow> ('w, error, string option) op"
  cl_SMembers :: "string \<Rightarrow> ('w, error, string list) op"
  cl_Eval :: "'w lua_script \<Rightarrow> string list \<Rightarrow> string list \<Rightarrow> ('w, error, int) op"

type_synonym 'w rdb_Provider = "ctx \<Rightarrow> 'w redis_client"

definition lua_array :: "string list \<Rightarrow> nat \<Rightarrow> string" where
  "lua_array xs i = xs ! (i - 1)"

definition or_empty :: "string option \<Rightarrow> string" where
  "or_empty v = (case v of None \<Rightarrow> [] | Some s \<Rightarrow> s)"

text \<open>\<open>tonumber\<close> of a decimal integer; comparing \<open>nil\<close> with a number is an error of the script.\<close>

definition lua_positive :: "string \<Rightarrow> ('w, error, bool) op" where
  "lua_positive s =
     (case ParseInt s of None \<Rightarrow> throw (ErrLibrary ''lua'') | Some n \<Rightarrow> ret (n > 0))"

subsection \<open>Scripts\<close>

definition pruneIndexScript :: "'w lua_script" where
  "pruneIndexScript rc KEYS ARGV =
     bindE (call_GET rc (KEYS 1)) (\<lambda>v.
     if v = None then call_SREM rc (KEYS 2) (ARGV 1) else ret 0)"

definition saveScript :: "'w lua_script" where
  "saveScript rc KEYS ARGV =
     bindE (call_GET rc (KEYS 1)) (\<lambda>v.
     bindE (if or_empty v \<noteq> ARGV 1 then ret True
            else bindE (call_GET rc (KEYS 2)) (\<lambda>m. ret (or_empty m \<noteq> ARGV 2))) (\<lambda>changed.
     if changed then ret 0
     else
       bindE (lua_positive (ARGV 4)) (\<lambda>positive.
       bindE (if positive then call_SET rc (KEYS 1) (ARGV 3) (SetPX (ARGV 4))
              else call_SET rc (KEYS 1) (ARGV 3) SetPlain) (\<lambda>_.
       bindE (call_DEL rc [KEYS 2]) (\<lambda>_.
       bindE (call_SREM rc (KEYS 3) (ARGV 5)) (\<lambda>_.
       bindE (call_SREM rc (KEYS 5) (ARGV 5)) (\<lambda>_.
       bindE (call_SADD rc (KEYS 4) (ARGV 5)) (\<lambda>_.
       ret 1))))))))"

text \<open>The guard of the two scripts that change a token which must exist.\<close>

definition snapshot_changed :: "'w redis_calls \<Rightarrow> (nat \<Rightarrow> string) \<Rightarrow> (nat \<Rightarrow> string) \<Rightarrow> ('w, error, bool) op" where
  "snapshot_changed rc KEYS ARGV =
     bindE (call_GET rc (KEYS 1)) (\<lambda>v.
     if v \<noteq> Some (ARGV 1) then ret True
     else bindE (call_GET rc (KEYS 2)) (\<lambda>m. ret (or_empty m \<noteq> ARGV 2)))"

definition consumeScript :: "'w lua_script" where
  "consumeScript rc KEYS ARGV =
     bindE (snapshot_changed rc KEYS ARGV) (\<lambda>changed.
     if changed then ret 0
     else
       bindE (call_SET rc (KEYS 1) (ARGV 3) SetKeepTTL) (\<lambda>_.
       bindE (call_DEL rc [KEYS 2]) (\<lambda>_.
       ret 1)))"

definition deleteScript :: "'w lua_script" where
  "deleteScript rc KEYS ARGV =
     bindE (snapshot_changed rc KEYS ARGV) (\<lambda>changed.
     if changed then ret 0
     else
       bindE (call_DEL rc [KEYS 1, KEYS 2]) (\<lambda>_.
       bindE (call_SREM rc (KEYS 3) (ARGV 3)) (\<lambda>_.
       bindE (call_SREM rc (KEYS 4) (ARGV 3)) (\<lambda>_.
       ret 1))))"

definition sessionWriteScript :: "'w lua_script" where
  "sessionWriteScript rc KEYS ARGV =
     bindE (call_GET rc (KEYS 2)) (\<lambda>legacy.
     if or_empty legacy \<noteq> ARGV 1 then ret 0
     else
       bindE (if ARGV 5 = ''save'' then ret True
              else bindE (call_GET rc (KEYS 1)) (\<lambda>v. ret (v = None))) (\<lambda>write.
       bindE (whenE write (call_SET rc (KEYS 1) (ARGV 2) SetPlain)) (\<lambda>_.
       bindE (lua_positive (ARGV 3)) (\<lambda>positive.
       bindE (if positive then call_PEXPIRE rc (KEYS 1) (ARGV 3) else call_PERSIST rc (KEYS 1)) (\<lambda>_.
       bindE (whenE (ARGV 4 = ''1'') (bindE (call_DEL rc [KEYS 2]) (\<lambda>_. ret ()))) (\<lambda>_.
       ret 1))))))"

definition sessionDeleteScript :: "'w lua_script" where
  "sessionDeleteScript rc KEYS ARGV =
     bindE (call_GET rc (KEYS 1)) (\<lambda>v.
     if v = Some (ARGV 1) then call_DEL rc [KEYS 1] else ret 0)"

subsection \<open>The store and its keys\<close>

definition DefaultKeyPrefix :: string where
  "DefaultKeyPrefix = ''bt''"

record 'w redis_Store =
  rs_rdb :: "'w rdb_Provider"
  rs_prefix :: string

definition WithKeyPrefix :: "string \<Rightarrow> 'w redis_Store go_option" where
  "WithKeyPrefix key_prefix = Some (\<lambda>s. if key_prefix \<noteq> [] then s\<lparr>rs_prefix := key_prefix\<rparr> else s)"

definition redis_NewStore :: "'w rdb_Provider option \<Rightarrow> 'w redis_Store go_option list \<Rightarrow> 'w redis_Store option" where
  "redis_NewStore provider opts =
     (case provider of
        None \<Rightarrow> None
      | Some p \<Rightarrow> Some (option_Apply \<lparr>rs_rdb = p, rs_prefix = DefaultKeyPrefix\<rparr> opts))"

text \<open>\<open>base64.RawURLEncoding\<close> is the URL encoding without its padding.\<close>

definition encodeSubjectPart :: "string \<Rightarrow> string" where
  "encodeSubjectPart value = TrimRight_pad (base64_EncodeToString value)"

definition legacySubjectKey :: "'w redis_Store \<Rightarrow> string \<Rightarrow> LoginSubject \<Rightarrow> string" where
  "legacySubjectKey s kind subject =
     (let n = LoginSubject_Normalize subject
      in rs_prefix s @ '':'' @ kind @ '':'' @ sub_LoginType n @ '':'' @ sub_LoginID n)"

definition tokenKey :: "'w redis_Store \<Rightarrow> TokenValue \<Rightarrow> string" where
  "tokenKey s token = rs_prefix s @ '':token:'' @ token"

definition consumedMarkerKey :: "'w redis_Store \<Rightarrow> TokenValue \<Rightarrow> string" where
  "consumedMarkerKey s token = rs_prefix s @ '':token:'' @ token @ '':consumed''"

definition indexKey :: "'w redis_Store \<Rightarrow> LoginSubject \<Rightarrow> string" where
  "indexKey s subject =
     (let n = LoginSubject_Normalize subject
      in rs_prefix s @ '':v2:index:'' @ encodeSubjectPart (sub_LoginType n) @ '':'' @ encodeSubjectPart (sub_LoginID n))"

definition redis_sessionKey :: "'w redis_Store \<Rightarrow> LoginSubject \<Rightarrow> string" where
  "redis_sessionKey s subject =
     (let n = LoginSubject_Normalize subject
      in rs_prefix s @ '':v2:session:'' @ encodeSubjectPart (sub_LoginType n) @ '':'' @ encodeSubjectPart (sub_LoginID n))"

definition redis_contextErr :: "ctx \<Rightarrow> ('x, unit) eop" where
  "redis_contextErr c = (case c of None \<Rightarrow> ret () | Some _ \<Rightarrow> ctxErr c)"

definition redisExpiresTTL :: "time \<Rightarrow> time option \<Rightarrow> duration" where
  "redisExpiresTTL now expiresAt =
     (case expiresAt of
        None \<Rightarrow> 0
      | Some e \<Rightarrow> let d = Time_Sub e now in if d \<le> 0 then Millisecond else d)"

definition redisTTL :: "time \<Rightarrow> TokenState \<Rightarrow> duration \<Rightarrow> duration" where
  "redisTTL now state ttl = redisExpiresTTL now (EffectiveExpiresAt state now ttl)"

text \<open>\<open>Duration.Milliseconds\<close> rounds toward zero.\<close>

definition Milliseconds :: "duration \<Rightarrow> int" where
  "Milliseconds d = (if d < 0 then - (- d div Millisecond) else d div Millisecond)"

subsection \<open>Tokens\<close>

text \<open>A token as it was read: the state, \<open>None\<close> when there is none, with the raw text and marker.\<close>

type_synonym token_snapshot = "TokenState option \<times> string \<times> string"

definition decodeToken :: "string option \<Rightarrow> string option \<Rightarrow> error + token_snapshot" where
  "decodeToken value consumed =
     (let raw = or_empty value; marker = or_empty consumed
      in if raw = [] then Inr (None, raw, marker)
         else
           (case TokenState_Unmarshal raw of
              Inl e \<Rightarrow> Inl e
            | Inr state \<Rightarrow>
                let state = TokenState_Normalize state;
                    state = (if marker \<noteq> [] \<and> ts_Status state = TokenStatusActive
                             then state\<lparr>ts_Status := TokenStatusConsumed\<rparr> else state)
                in Inr (Some state, raw, marker)))"

definition readToken :: "'x env_scheme redis_Store \<Rightarrow> ctx \<Rightarrow> TokenValue \<Rightarrow> ('x, token_snapshot) eop" where
  "readToken s c token =
     bindE (cl_MGet (rs_rdb s c) [tokenKey s token, consumedMarkerKey s token]) (\<lambda>values.
     from_sum (decodeToken (values ! 0) (values ! 1)))"

definition deleteSnapshot ::
    "'x env_scheme redis_Store \<Rightarrow> ctx \<Rightarrow> TokenValue \<Rightarrow> LoginSubject \<Rightarrow> string \<Rightarrow> string \<Rightarrow> ('x, bool) eop" where
  "deleteSnapshot s c token subject raw marker =
     bindE (cl_Eval (rs_rdb s c) deleteScript
       [tokenKey s token, consumedMarkerKey s token, indexKey s subject, legacySubjectKey s ''index'' subject]
       [raw, marker, token]) (\<lambda>n.
     ret (n = 1))"

definition redis_expect :: "TokenState option \<Rightarrow> TokenState option \<Rightarrow> ('x, unit) eop" where
  "redis_expect expected old =
     (case expected of
        None \<Rightarrow> ret ()
      | Some e \<Rightarrow>
          (case old of
             None \<Rightarrow> throw ErrTokenInvalid
           | Some previous \<Rightarrow>
               bindE read_now (\<lambda>now.
               if IsExpired previous now \<or> previous \<noteq> e then throw ErrTokenInvalid else ret ())))"

definition redis_saveTokenState ::
    "'x env_scheme redis_Store \<Rightarrow> ctx \<Rightarrow> TokenState option \<Rightarrow> TokenState option \<Rightarrow> duration \<Rightarrow> ('x, unit) eop" where
  "redis_saveTokenState s c expected state ttl =
     bindE (redis_contextErr c) (\<lambda>_.
     case state of
       None \<Rightarrow> throw ErrEmptyToken
     | Some state \<Rightarrow>
         if ts_Token state = [] then throw ErrEmptyToken
         else
           let clone = TokenState_Normalize (TokenState_Clone state)
           in if ts_LoginID clone = [] \<and> ts_Kind clone \<noteq> TokenKindNonce then throw ErrEmptyLoginID
              else
                bindE (from_sum (TokenState_Marshal clone)) (\<lambda>data.
                bindE (readToken s c (ts_Token clone)) (\<lambda>(old, raw, marker).
                bindE (redis_expect expected old) (\<lambda>_.
                let oldSubject = (case old of None \<Rightarrow> TokenState_Subject clone | Some previous \<Rightarrow> TokenState_Subject previous)
                in bindE read_now (\<lambda>now.
                   let expiration = redisTTL now clone ttl;
                       millis = Milliseconds expiration;
                       millis = (if expiration > 0 \<and> millis < 1 then 1 else millis)
                   in bindE (cl_Eval (rs_rdb s c) saveScript
                        [tokenKey s (ts_Token clone), consumedMarkerKey s (ts_Token clone), indexKey s oldSubject,
                         indexKey s (TokenState_Subject clone), legacySubjectKey s ''index'' oldSubject]
                        [raw, marker, data, decimal millis, ts_Token clone]) (\<lambda>result.
                      if result \<noteq> 1 then throw ErrTokenInvalid else ret ()))))))"

text \<open>The loop over attempts: an attempt that lost a race answers \<open>None\<close>, and \<open>n\<close> more are made.\<close>

fun retry :: "nat \<Rightarrow> ('w, error, 'a option) op \<Rightarrow> ('w, error, 'a) op" where
  "retry 0 m = throw ErrTokenInvalid"
| "retry (Suc n) m = bindE m (\<lambda>r. case r of Some x \<Rightarrow> ret x | None \<Rightarrow> retry n m)"

definition save_once ::
    "'x env_scheme redis_Store \<Rightarrow> ctx \<Rightarrow> TokenState option \<Rightarrow> duration \<Rightarrow> ('x, unit option) eop" where
  "save_once s c state ttl =
     bindE (attempt (redis_saveTokenState s c None state ttl)) (\<lambda>err.
     case err of
       Inl e \<Rightarrow> if e \<noteq> ErrTokenInvalid then throw e else ret None
     | Inr _ \<Rightarrow> ret (Some ()))"

definition redis_SaveTokenState ::
    "'x env_scheme redis_Store \<Rightarrow> ctx \<Rightarrow> TokenState option \<Rightarrow> duration \<Rightarrow> ('x, unit) eop" where
  "redis_SaveTokenState s c state ttl = retry 32 (save_once s c state ttl)"

definition redis_CompareAndSwapTokenState ::
    "'x env_scheme redis_Store \<Rightarrow> ctx \<Rightarrow> TokenState option \<Rightarrow> TokenState option \<Rightarrow> duration \<Rightarrow> ('x, bool) eop" where
  "redis_CompareAndSwapTokenState s c expected next ttl =
     (case (expected, next) of
        (Some e, Some n) \<Rightarrow>
          if ts_Token e \<noteq> ts_Token n then throw ErrTokenInvalid
          else
            bindE (attempt (redis_saveTokenState s c expected next ttl)) (\<lambda>err.
            case err of
              Inl e \<Rightarrow> if e = ErrTokenInvalid then ret False else throw e
            | Inr _ \<Rightarrow> ret True)
      | _ \<Rightarrow> throw ErrTokenInvalid)"

definition redis_GetTokenState ::
    "'x env_scheme redis_Store \<Rightarrow> ctx \<Rightarrow> TokenValue \<Rightarrow> ('x, TokenState option) eop" where
  "redis_GetTokenState s c token =
     bindE (redis_contextErr c) (\<lambda>_.
     bindE (readToken s c token) (\<lambda>(state, raw, marker).
     case state of
       None \<Rightarrow> ret None
     | Some state \<Rightarrow>
         bindE read_now (\<lambda>now.
         if IsExpired state now
         then bindE (deleteSnapshot s c token (TokenState_Subject state) raw marker) (\<lambda>_. ret None)
         else ret (Some state))))"

text \<open>One attempt: what is read decides, and the script takes the token if nothing has changed.\<close>

definition consume_decide ::
    "'x env_scheme redis_Store \<Rightarrow> ctx \<Rightarrow> TokenValue \<Rightarrow> TokenKind \<Rightarrow> token_snapshot \<Rightarrow> ('x, TokenState option option) eop" where
  "consume_decide s c token kind = (\<lambda>(state, raw, marker).
     case state of
       None \<Rightarrow> ret (Some None)
     | Some state \<Rightarrow>
         bindE read_now (\<lambda>now.
         if IsExpired state now then ret (Some None)
         else
           bindE read_now (\<lambda>now.
           if \<not> IsActive state now \<or> kind \<noteq> [] \<and> ts_Kind state \<noteq> kind then ret (Some (Some state))
           else
             bindE read_now (\<lambda>now.
             let consumed = MarkConsumed (TokenState_Clone state) now
             in bindE (from_sum (TokenState_Marshal consumed)) (\<lambda>data.
                bindE (cl_Eval (rs_rdb s c) consumeScript [tokenKey s token, consumedMarkerKey s token]
                  [raw, marker, data]) (\<lambda>result.
                if result = 1 then ret (Some (Some state)) else ret None))))))"

definition consume_once ::
    "'x env_scheme redis_Store \<Rightarrow> ctx \<Rightarrow> TokenValue \<Rightarrow> TokenKind \<Rightarrow> ('x, TokenState option option) eop" where
  "consume_once s c token kind = bindE (readToken s c token) (consume_decide s c token kind)"

definition redis_consumeTokenState ::
    "'x env_scheme redis_Store \<Rightarrow> ctx \<Rightarrow> TokenValue \<Rightarrow> TokenKind \<Rightarrow> ('x, TokenState option) eop" where
  "redis_consumeTokenState s c token kind =
     bindE (redis_contextErr c) (\<lambda>_. retry 32 (consume_once s c token kind))"

definition redis_ConsumeTokenState ::
    "'x env_scheme redis_Store \<Rightarrow> ctx \<Rightarrow> TokenValue \<Rightarrow> ('x, TokenState option) eop" where
  "redis_ConsumeTokenState s c token = redis_consumeTokenState s c token []"

definition redis_ConsumeTokenStateOfKind ::
    "'x env_scheme redis_Store \<Rightarrow> ctx \<Rightarrow> TokenValue \<Rightarrow> TokenKind \<Rightarrow> ('x, TokenState option) eop" where
  "redis_ConsumeTokenStateOfKind s c token kind =
     (if kind = [] then throw ErrUnsupportedKind else redis_consumeTokenState s c token kind)"

definition redis_DeleteTokenState :: "'x env_scheme redis_Store \<Rightarrow> ctx \<Rightarrow> TokenValue \<Rightarrow> ('x, unit) eop" where
  "redis_DeleteTokenState s c token =
     bindE (redis_contextErr c) (\<lambda>_.
     bindE (readToken s c token) (\<lambda>(state, raw, marker).
     case state of
       None \<Rightarrow> ret ()
     | Some state \<Rightarrow>
         bindE (deleteSnapshot s c token (TokenState_Subject state) raw marker) (\<lambda>deleted.
         if \<not> deleted then throw ErrTokenInvalid else ret ())))"

text \<open>
  The two loops of \<open>FindTokenStates\<close>: over the members of one index, with the values that were read
  for them, and over the two indexes; \<open>seen\<close> are the members looked at so far.
\<close>

fun find_members ::
    "'x env_scheme redis_Store \<Rightarrow> ctx \<Rightarrow> LoginSubject \<Rightarrow> TokenKind list \<Rightarrow> string \<Rightarrow> string option list \<Rightarrow> nat \<Rightarrow>
     string list \<Rightarrow> string set \<Rightarrow> TokenState option list \<Rightarrow> ('x, string set \<times> TokenState option list) eop" where
  "find_members s c subject kinds index values i [] seen result = ret (seen, result)"
| "find_members s c subject kinds index values i (member # members) seen result =
     (if member \<in> seen then find_members s c subject kinds index values (Suc i) members seen result
      else
        let seen = insert member seen
        in bindE (from_sum (decodeToken (values ! (2 * i)) (values ! (2 * i + 1)))) (\<lambda>(state, raw, marker).
           case state of
             None \<Rightarrow>
               bindE (cl_Eval (rs_rdb s c) pruneIndexScript [tokenKey s member, index] [member]) (\<lambda>_.
               find_members s c subject kinds index values (Suc i) members seen result)
           | Some state \<Rightarrow>
               bindE read_now (\<lambda>now.
               if IsExpired state now
               then bindE (deleteSnapshot s c member (TokenState_Subject state) raw marker) (\<lambda>_.
                    find_members s c subject kinds index values (Suc i) members seen result)
               else if LoginSubject_Normalize (TokenState_Subject state) \<noteq> subject \<or> \<not> MatchKind (ts_Kind state) kinds
               then find_members s c subject kinds index values (Suc i) members seen result
               else find_members s c subject kinds index values (Suc i) members seen (result @ [Some state]))))"

definition find_keys :: "'x env_scheme redis_Store \<Rightarrow> string list \<Rightarrow> string list" where
  "find_keys s members = concat (map (\<lambda>member. [tokenKey s member, consumedMarkerKey s member]) members)"

fun find_indexes ::
    "'x env_scheme redis_Store \<Rightarrow> ctx \<Rightarrow> LoginSubject \<Rightarrow> TokenKind list \<Rightarrow> string list \<Rightarrow> string set \<Rightarrow>
     TokenState option list \<Rightarrow> ('x, TokenState option list) eop" where
  "find_indexes s c subject kinds [] seen result = ret result"
| "find_indexes s c subject kinds (index # indexes) seen result =
     bindE (cl_SMembers (rs_rdb s c) index) (\<lambda>members.
     if members = [] then find_indexes s c subject kinds indexes seen result
     else
       bindE (cl_MGet (rs_rdb s c) (find_keys s members)) (\<lambda>values.
       bindE (find_members s c subject kinds index values 0 members seen result) (\<lambda>(seen, result).
       find_indexes s c subject kinds indexes seen result)))"

definition redis_FindTokenStates ::
    "'x env_scheme redis_Store \<Rightarrow> ctx \<Rightarrow> LoginSubject \<Rightarrow> TokenKind list \<Rightarrow> ('x, TokenState option list) eop" where
  "redis_FindTokenStates s c subject kinds =
     bindE (redis_contextErr c) (\<lambda>_.
     let subject = LoginSubject_Normalize subject
     in find_indexes s c subject kinds [indexKey s subject, legacySubjectKey s ''index'' subject] {} [])"

fun delete_states ::
    "'x env_scheme redis_Store \<Rightarrow> ctx \<Rightarrow> LoginSubject \<Rightarrow> TokenKind list \<Rightarrow> TokenState option list \<Rightarrow> ('x, unit) eop" where
  "delete_states s c subject kinds [] = ret ()"
| "delete_states s c subject kinds (state # states) =
     (case state of
        None \<Rightarrow> delete_states s c subject kinds states
      | Some state \<Rightarrow>
          bindE (readToken s c (ts_Token state)) (\<lambda>(current, raw, marker).
          case current of
            None \<Rightarrow> delete_states s c subject kinds states
          | Some current \<Rightarrow>
              if LoginSubject_Normalize (TokenState_Subject current) \<noteq> LoginSubject_Normalize subject
                 \<or> \<not> MatchKind (ts_Kind current) kinds
              then delete_states s c subject kinds states
              else
                bindE (deleteSnapshot s c (ts_Token state) (TokenState_Subject current) raw marker) (\<lambda>deleted.
                if \<not> deleted then throw ErrTokenInvalid else delete_states s c subject kinds states)))"

definition redis_DeleteTokenStates ::
    "'x env_scheme redis_Store \<Rightarrow> ctx \<Rightarrow> LoginSubject \<Rightarrow> TokenKind list \<Rightarrow> ('x, unit) eop" where
  "redis_DeleteTokenStates s c subject kinds =
     bindE (redis_FindTokenStates s c subject kinds) (delete_states s c subject kinds)"

subsection \<open>Sessions\<close>

definition legacySession ::
    "'x env_scheme redis_Store \<Rightarrow> ctx \<Rightarrow> LoginSubject \<Rightarrow> ('x, string \<times> bool) eop" where
  "legacySession s c subject =
     bindE (cl_Get (rs_rdb s c) (legacySubjectKey s ''session'' subject)) (\<lambda>raw.
     case raw of
       None \<Rightarrow> ret ([], False)
     | Some raw \<Rightarrow>
         bindE (from_sum (Session_Unmarshal raw)) (\<lambda>session.
         ret (raw, LoginSubject_Normalize (se_Subject session) = LoginSubject_Normalize subject)))"

definition write_once ::
    "'x env_scheme redis_Store \<Rightarrow> ctx \<Rightarrow> LoginSubject \<Rightarrow> string \<Rightarrow> int \<Rightarrow> bool \<Rightarrow> ('x, unit option) eop" where
  "write_once s c subject data millis ensure =
     bindE (legacySession s c subject) (\<lambda>(legacy, owned).
     bindE (cl_Eval (rs_rdb s c) sessionWriteScript
       [redis_sessionKey s subject, legacySubjectKey s ''session'' subject]
       [legacy, if ensure \<and> owned then legacy else data, decimal millis, if owned then ''1'' else ''0'',
        if ensure then ''ensure'' else ''save'']) (\<lambda>updated.
     if updated = 1 then ret (Some ()) else ret None))"

definition writeSession ::
    "other_json \<Rightarrow> 'x env_scheme redis_Store \<Rightarrow> ctx \<Rightarrow> Session \<Rightarrow> duration \<Rightarrow> bool \<Rightarrow> ('x, unit) eop" where
  "writeSession other s c session ttl ensure =
     bindE (redis_contextErr c) (\<lambda>_.
     let subject = LoginSubject_Normalize (se_Subject session)
     in if LoginSubject_IsZero subject then throw ErrEmptySessionID
        else
          let clone = (Session_Clone session)\<lparr>se_Subject := subject\<rparr>
          in bindE (from_sum (Session_Marshal other clone)) (\<lambda>data.
             let millis = Milliseconds ttl;
                 millis = (if ttl > 0 \<and> millis < 1 then 1 else millis)
             in retry 32 (write_once s c subject data millis ensure)))"

definition redis_SaveSession ::
    "other_json \<Rightarrow> 'x env_scheme redis_Store \<Rightarrow> ctx \<Rightarrow> Session option \<Rightarrow> duration \<Rightarrow> ('x, unit) eop" where
  "redis_SaveSession other s c session ttl =
     (case session of None \<Rightarrow> throw ErrEmptySessionID | Some session \<Rightarrow> writeSession other s c session ttl False)"

definition redis_EnsureSession ::
    "other_json \<Rightarrow> 'x env_scheme redis_Store \<Rightarrow> ctx \<Rightarrow> LoginSubject \<Rightarrow> duration \<Rightarrow> ('x, unit) eop" where
  "redis_EnsureSession other s c subject ttl = writeSession other s c (NewSessionForSubject subject) ttl True"

fun get_session_loop ::
    "'x env_scheme redis_Store \<Rightarrow> ctx \<Rightarrow> LoginSubject \<Rightarrow> string list \<Rightarrow> ('x, Session option) eop" where
  "get_session_loop s c subject [] = ret None"
| "get_session_loop s c subject (key # keys) =
     bindE (cl_Get (rs_rdb s c) key) (\<lambda>raw.
     case raw of
       None \<Rightarrow> get_session_loop s c subject keys
     | Some raw \<Rightarrow>
         bindE (from_sum (Session_Unmarshal raw)) (\<lambda>session.
         if LoginSubject_Normalize (se_Subject session) = subject then ret (Some session)
         else get_session_loop s c subject keys))"

definition redis_GetSession ::
    "'x env_scheme redis_Store \<Rightarrow> ctx \<Rightarrow> LoginSubject \<Rightarrow> ('x, Session option) eop" where
  "redis_GetSession s c subject =
     bindE (redis_contextErr c) (\<lambda>_.
     let subject = LoginSubject_Normalize subject
     in get_session_loop s c subject [redis_sessionKey s subject, legacySubjectKey s ''session'' subject])"

fun delete_session_loop ::
    "'x env_scheme redis_Store \<Rightarrow> ctx \<Rightarrow> LoginSubject \<Rightarrow> string list \<Rightarrow> ('x, unit) eop" where
  "delete_session_loop s c subject [] = ret ()"
| "delete_session_loop s c subject (key # keys) =
     bindE (cl_Get (rs_rdb s c) key) (\<lambda>raw.
     case raw of
       None \<Rightarrow> delete_session_loop s c subject keys
     | Some raw \<Rightarrow>
         bindE (from_sum (Session_Unmarshal raw)) (\<lambda>session.
         if LoginSubject_Normalize (se_Subject session) \<noteq> subject then delete_session_loop s c subject keys
         else
           bindE (cl_Eval (rs_rdb s c) sessionDeleteScript [key] [raw]) (\<lambda>_.
           delete_session_loop s c subject keys)))"

definition redis_DeleteSession :: "'x env_scheme redis_Store \<Rightarrow> ctx \<Rightarrow> LoginSubject \<Rightarrow> ('x, unit) eop" where
  "redis_DeleteSession s c subject =
     bindE (redis_contextErr c) (\<lambda>_.
     let subject = LoginSubject_Normalize subject
     in delete_session_loop s c subject [redis_sessionKey s subject, legacySubjectKey s ''session'' subject])"

subsection \<open>The ports it provides\<close>

definition redis_store_ops :: "other_json \<Rightarrow> 'x env_scheme redis_Store \<Rightarrow> 'x env_scheme store_ops" where
  "redis_store_ops other s = \<lparr>
     st_SaveTokenState = redis_SaveTokenState s, st_GetTokenState = redis_GetTokenState s,
     st_ConsumeTokenState = redis_ConsumeTokenState s, st_DeleteTokenState = redis_DeleteTokenState s,
     st_FindTokenStates = redis_FindTokenStates s, st_DeleteTokenStates = redis_DeleteTokenStates s,
     st_SaveSession = redis_SaveSession other s, st_GetSession = redis_GetSession s,
     st_DeleteSession = redis_DeleteSession s\<rparr>"

definition redis_atomic_ops :: "other_json \<Rightarrow> 'x env_scheme redis_Store \<Rightarrow> 'x env_scheme atomic_ops" where
  "redis_atomic_ops other s = \<lparr>
     at_CompareAndSwapTokenState = redis_CompareAndSwapTokenState s,
     at_ConsumeTokenStateOfKind = redis_ConsumeTokenStateOfKind s,
     at_EnsureSession = redis_EnsureSession other s\<rparr>"

end
