(* ===== verification/Redis_Safe.thy ===== *)
theory Redis_Safe
  imports Redis_Store
begin

text \<open>
  The Redis store meets the contracts of its clients over any server that gives back only what was
  set: under a token key lies only the JSON of hashed states, whose \<open>Token\<close> field is the name of
  the key. The laws of the server are a locale, whose client is every method of the store.
\<close>

subsection \<open>What the server owes\<close>

definition all_values :: "('w \<Rightarrow> (string \<times> string) set) \<Rightarrow> (string \<Rightarrow> string \<Rightarrow> bool) \<Rightarrow> 'w \<Rightarrow> bool" where
  "all_values held P w \<longleftrightarrow> (\<forall>(k, v) \<in> held w. P k v)"

text \<open>
  \<open>held w\<close> are the string values of the server. Reading gives a value that is held under the key;
  only \<open>SET\<close> adds one; a script runs its calls. Expiry may drop any value at any time.
\<close>

locale faithful_redis =
  fixes held :: "'x env_scheme \<Rightarrow> (string \<times> string) set"
    and calls :: "'x env_scheme redis_calls"
    and s :: "'x env_scheme redis_Store"
    and other :: other_json
  assumes held_tick: "held (tick w) \<subseteq> held w"
    and held_publish: "held (w\<lparr>env_published := evs\<rparr>) \<subseteq> held w"
    and MGet: "keeps (all_values held P) (cl_MGet (rs_rdb s c) ks)
      (\<lambda>vs. length vs = length ks \<and> (\<forall>i < length ks. \<forall>v. vs ! i = Some v \<longrightarrow> P (ks ! i) v))"
    and Get: "keeps (all_values held P) (cl_Get (rs_rdb s c) k) (\<lambda>r. \<forall>v. r = Some v \<longrightarrow> P k v)"
    and SMembers: "keeps (all_values held P) (cl_SMembers (rs_rdb s c) k) (\<lambda>_. True)"
    and Eval: "keeps (all_values held P) (script calls (lua_array ks) (lua_array args)) (\<lambda>_. True) \<Longrightarrow>
      keeps (all_values held P) (cl_Eval (rs_rdb s c) script ks args) (\<lambda>_. True)"
    and GET: "keeps (all_values held P) (call_GET calls k) (\<lambda>r. \<forall>v. r = Some v \<longrightarrow> P k v)"
    and SET: "P k v \<Longrightarrow> keeps (all_values held P) (call_SET calls k v opt) (\<lambda>_. True)"
    and DEL: "keeps (all_values held P) (call_DEL calls ks) (\<lambda>_. True)"
    and SREM: "keeps (all_values held P) (call_SREM calls k m) (\<lambda>_. True)"
    and SADD: "keeps (all_values held P) (call_SADD calls k m) (\<lambda>_. True)"
    and PEXPIRE: "keeps (all_values held P) (call_PEXPIRE calls k m) (\<lambda>_. True)"
    and PERSIST: "keeps (all_values held P) (call_PERSIST calls k) (\<lambda>_. True)"

subsection \<open>Keys\<close>

lemma tokenKey_inject [simp]: "tokenKey s t = tokenKey s u \<longleftrightarrow> t = u"
  by (simp add: tokenKey_def)

lemma sessionKey_not_tokenKey [simp]: "redis_sessionKey s subject \<noteq> tokenKey s t"
  by (simp add: redis_sessionKey_def tokenKey_def Let_def)

text \<open>What may lie under a key: under a token key, the JSON of a hashed state of that token.\<close>

definition token_value_ok :: "TokenValue \<Rightarrow> string \<Rightarrow> bool" where
  "token_value_ok t v \<longleftrightarrow> is_store_key t \<and>
     (\<forall>state. TokenState_Unmarshal v = Inr state \<longrightarrow> hashed_state state \<and> ts_Token state = t)"

definition redis_value_ok :: "'w redis_Store \<Rightarrow> string \<Rightarrow> string \<Rightarrow> bool" where
  "redis_value_ok s k v \<longleftrightarrow> (\<forall>t. k = tokenKey s t \<longrightarrow> token_value_ok t v)"

lemma redis_value_ok_simps [simp]:
  "redis_value_ok s (tokenKey s t) v = token_value_ok t v"
  "redis_value_ok s (redis_sessionKey s subject) v"
  by (simp_all add: redis_value_ok_def)

text \<open>A snapshot that was read: its state is the one of the token.\<close>

definition snapshot_ok :: "TokenValue \<Rightarrow> token_snapshot \<Rightarrow> bool" where
  "snapshot_ok t = (\<lambda>(state, raw, marker). \<forall>st. state = Some st \<longrightarrow>
     is_store_key t \<and> hashed_state st \<and> ts_Token st = t)"

lemma hashed_state_Status [simp]: "hashed_state (st\<lparr>ts_Status := x\<rparr>) = hashed_state st"
  by (simp add: hashed_state_def)

lemma snapshot_ok_decode:
  assumes "\<forall>v. value = Some v \<longrightarrow> token_value_ok t v" and "decodeToken value consumed = Inr snap"
  shows "snapshot_ok t snap"
proof (cases "or_empty value = []")
  case True
  with assms(2) show ?thesis by (auto simp: decodeToken_def snapshot_ok_def)
next
  case False
  then obtain raw where v: "value = Some raw" "raw \<noteq> []" by (auto simp: or_empty_def split: option.splits)
  with assms(2) obtain st where "TokenState_Unmarshal raw = Inr st"
    by (auto simp: decodeToken_def or_empty_def Let_def split: sum.splits)
  with assms v show ?thesis
    by (auto simp: decodeToken_def or_empty_def snapshot_ok_def token_value_ok_def Let_def)
qed

lemma token_value_ok_Marshal:
  assumes "TokenState_Marshal st = Inr d" "hashed_state st"
  shows "token_value_ok (ts_Token st) d"
  unfolding token_value_ok_def
proof (intro conjI allI impI)
  show "is_store_key (ts_Token st)" using assms(2) by (rule hashed_state_Token)
  fix st' assume u: "TokenState_Unmarshal d = Inr st'"
  show "hashed_state st'" by (rule hashed_Unmarshal [OF assms u])
  have "ts_Token st' = stored_string (ts_Token st)"
    using Unmarshal_Marshal_image [OF assms(1) u] by (simp add: state_image_def)
  then show "ts_Token st' = ts_Token st"
    using hashed_state_Token [OF assms(2)] by simp
qed


subsection \<open>Every method keeps the contract\<close>

lemma keeps_from_sum: "keeps I (from_sum r) (\<lambda>x. r = Inr x)"
  by (cases r) (simp_all add: from_sum_def keeps_ret keeps_throw)

lemma keeps_lua_positive: "keeps I (lua_positive n) (\<lambda>_. True)"
  by (simp add: lua_positive_def keeps_ret keeps_throw split: option.split)

lemma keeps_retry: "keeps I m (\<lambda>r. \<forall>x. r = Some x \<longrightarrow> Q x) \<Longrightarrow> keeps I (retry n m) Q"
  by (induction n) (auto intro!: keeps_throw keeps_case_option keeps_ret elim!: keeps_bindE)

lemma keeps_True: "keeps I m Q \<Longrightarrow> keeps I m (\<lambda>_. True)"
  by (rule keeps_weaken) simp_all

definition redis_safe :: "('w \<Rightarrow> (string \<times> string) set) \<Rightarrow> 'w redis_Store \<Rightarrow> 'w \<Rightarrow> bool" where
  "redis_safe held s = all_values held (redis_value_ok s)"

context faithful_redis begin

lemma safe_tick: "tick_stable (redis_safe held s)"
  using held_tick by (fastforce simp: redis_safe_def all_values_def tick_stable_def)

lemma safe_publish: "redis_safe held s w \<Longrightarrow> redis_safe held s (w\<lparr>env_published := evs\<rparr>)"
  using held_publish by (fastforce simp: redis_safe_def all_values_def)

lemmas safe_calls = keeps_lua_positive keeps_True [OF GET [where P = "redis_value_ok s", folded redis_safe_def]]
  DEL [where P = "redis_value_ok s", folded redis_safe_def] SREM [where P = "redis_value_ok s", folded redis_safe_def]
  SADD [where P = "redis_value_ok s", folded redis_safe_def] PEXPIRE [where P = "redis_value_ok s", folded redis_safe_def]
  PERSIST [where P = "redis_value_ok s", folded redis_safe_def]
lemmas safe_SET = SET [where P = "redis_value_ok s", folded redis_safe_def]
lemmas safe_Eval = Eval [where P = "redis_value_ok s", folded redis_safe_def]
lemmas safe_MGet = MGet [where P = "redis_value_ok s", folded redis_safe_def]
lemmas safe_Get = Get [where P = "redis_value_ok s", folded redis_safe_def]
lemmas safe_SMembers = SMembers [where P = "redis_value_ok s", folded redis_safe_def]
lemmas safe_env = keeps_read_now [OF safe_tick] keeps_ctxErr [OF safe_tick]

lemma ctx_k: "keeps (redis_safe held s) (redis_contextErr c) (\<lambda>_. True)"
  by (auto simp: redis_contextErr_def intro: safe_env keeps_ret split: option.split)

lemma prune_k: "keeps (redis_safe held s) (pruneIndexScript calls KEYS ARGV) (\<lambda>_. True)"
  unfolding pruneIndexScript_def by (intro keeps_intros safe_calls) simp_all

lemma delete_script_k: "keeps (redis_safe held s) (deleteScript calls KEYS ARGV) (\<lambda>_. True)"
  unfolding deleteScript_def snapshot_changed_def by (intro keeps_intros safe_calls) simp_all

lemma session_delete_script_k: "keeps (redis_safe held s) (sessionDeleteScript calls KEYS ARGV) (\<lambda>_. True)"
  unfolding sessionDeleteScript_def by (intro keeps_intros safe_calls) simp_all

lemma save_script_k: "redis_value_ok s (KEYS 1) (ARGV 3) \<Longrightarrow> keeps (redis_safe held s) (saveScript calls KEYS ARGV) (\<lambda>_. True)"
  unfolding saveScript_def by (intro keeps_intros safe_calls safe_SET) simp_all

lemma consume_script_k: "redis_value_ok s (KEYS 1) (ARGV 3) \<Longrightarrow> keeps (redis_safe held s) (consumeScript calls KEYS ARGV) (\<lambda>_. True)"
  unfolding consumeScript_def snapshot_changed_def by (intro keeps_intros safe_calls safe_SET) simp_all

lemma session_write_script_k:
  "redis_value_ok s (KEYS 1) (ARGV 2) \<Longrightarrow> keeps (redis_safe held s) (sessionWriteScript calls KEYS ARGV) (\<lambda>_. True)"
  unfolding sessionWriteScript_def by (intro keeps_intros safe_calls safe_SET) simp_all

text \<open>The scripts as the client runs them.\<close>

lemma eval_k:
  "keeps (redis_safe held s) (cl_Eval (rs_rdb s c) pruneIndexScript ks args) (\<lambda>_. True)"
  "keeps (redis_safe held s) (cl_Eval (rs_rdb s c) deleteScript ks args) (\<lambda>_. True)"
  "keeps (redis_safe held s) (cl_Eval (rs_rdb s c) sessionDeleteScript ks args) (\<lambda>_. True)"
  by (rule safe_Eval, rule prune_k delete_script_k session_delete_script_k)+

lemma eval_save_k:
  "redis_value_ok s (ks ! 0) (args ! 2) \<Longrightarrow>
     keeps (redis_safe held s) (cl_Eval (rs_rdb s c) saveScript ks args) (\<lambda>_. True)"
  by (rule safe_Eval, rule save_script_k) (simp add: lua_array_def)

lemma eval_consume_k:
  "redis_value_ok s (ks ! 0) (args ! 2) \<Longrightarrow>
     keeps (redis_safe held s) (cl_Eval (rs_rdb s c) consumeScript ks args) (\<lambda>_. True)"
  by (rule safe_Eval, rule consume_script_k) (simp add: lua_array_def)

lemma eval_session_k:
  "redis_value_ok s (ks ! 0) (args ! 1) \<Longrightarrow>
     keeps (redis_safe held s) (cl_Eval (rs_rdb s c) sessionWriteScript ks args) (\<lambda>_. True)"
  by (rule safe_Eval, rule session_write_script_k) (simp add: lua_array_def)

lemma read_k: "keeps (redis_safe held s) (readToken s c t) (snapshot_ok t)"
  unfolding readToken_def
proof (rule keeps_bindE [OF safe_MGet], goal_cases)
  case (1 vs)
  then have "\<forall>v. vs ! 0 = Some v \<longrightarrow> token_value_ok t v" by auto
  then show ?case by (auto intro: keeps_weaken [OF keeps_from_sum] snapshot_ok_decode)
qed

lemma deleteSnapshot_k: "keeps (redis_safe held s) (deleteSnapshot s c t subject raw marker) (\<lambda>_. True)"
  unfolding deleteSnapshot_def by (intro keeps_bindE_True [OF eval_k(2)] keeps_ret) simp

lemma expect_k: "keeps (redis_safe held s) (redis_expect expected old) (\<lambda>_. True)"
  unfolding redis_expect_def by (intro keeps_intros safe_env) simp_all

lemma saveTokenState_k:
  assumes "hashed_state st"
  shows "keeps (redis_safe held s) (redis_saveTokenState s c expected (Some st) ttl) (\<lambda>_. True)"
proof -
  let ?clone = "TokenState_Normalize (TokenState_Clone st)"
  have "hashed_state ?clone" using assms by simp
  then show ?thesis
    unfolding redis_saveTokenState_def Let_def option.case
    by (intro keeps_bindE_True [OF ctx_k] keeps_if keeps_throw keeps_bindE [OF keeps_from_sum]
        keeps_bindE [OF read_k])
      (auto intro!: keeps_bindE_True [OF expect_k] keeps_bindE_True safe_env eval_save_k
        keeps_if keeps_throw keeps_ret token_value_ok_Marshal [of ?clone, simplified] split: prod.split)
qed

lemma save_k: "hashed_state st \<Longrightarrow> keeps (redis_safe held s) (redis_SaveTokenState s c (Some st) ttl) (\<lambda>_. True)"
  unfolding redis_SaveTokenState_def save_once_def
  by (intro keeps_True [OF keeps_retry])
    (auto intro!: keeps_bindE_True keeps_attempt keeps_case_sum keeps_if keeps_throw keeps_ret saveTokenState_k)

lemma get_k: "keeps (redis_safe held s) (redis_GetTokenState s c t) hashed_opt"
  unfolding redis_GetTokenState_def
  by (intro keeps_bindE_True [OF ctx_k] keeps_bindE [OF read_k])
    (auto simp: snapshot_ok_def split: prod.split
      intro!: keeps_intros safe_env deleteSnapshot_k)

lemma consume_once_k: "keeps (redis_safe held s) (consume_once s c t kind) (\<lambda>r. \<forall>x. r = Some x \<longrightarrow> hashed_opt x)"
proof -
  have ok: "token_value_ok t d"
    if "snapshot_ok t (Some st, raw, marker)" "TokenState_Marshal (MarkConsumed (TokenState_Clone st) now) = Inr d"
    for st raw marker now d
    using token_value_ok_Marshal [OF that(2)] that(1) by (simp add: snapshot_ok_def)
  have hashed: "hashed_state st" if "snapshot_ok t (Some st, raw, marker)" for st raw marker
    using that by (simp add: snapshot_ok_def)
  show ?thesis
    unfolding consume_once_def consume_decide_def Let_def
    by (rule keeps_bindE [OF read_k])
      (auto split: prod.split intro!: keeps_case_option keeps_if keeps_ret keeps_bindE_True [OF safe_env(1)]
        keeps_bindE [OF keeps_from_sum] keeps_bindE_True [OF eval_consume_k] simp: ok hashed)
qed

end


lemma length_find_keys [simp]: "length (find_keys s members) = 2 * length members"
  by (induction members) (simp_all add: find_keys_def)

lemma nth_find_keys: "j < length members \<Longrightarrow> find_keys s members ! (2 * j) = tokenKey s (members ! j)"
proof (induction members arbitrary: j)
  case (Cons m ms)
  then show ?case by (cases j) (simp_all add: find_keys_def)
qed simp

lemma hashed_list_simps [simp]:
  "hashed_list []" "hashed_list (x # xs) \<longleftrightarrow> hashed_opt x \<and> hashed_list xs"
  "hashed_list (xs @ ys) \<longleftrightarrow> hashed_list xs \<and> hashed_list ys"
  by (auto simp: hashed_list_def hashed_opt_def)

context faithful_redis begin

lemma delete_k: "keeps (redis_safe held s) (redis_DeleteTokenState s c t) (\<lambda>_. True)"
  unfolding redis_DeleteTokenState_def
  by (intro keeps_bindE_True [OF ctx_k] keeps_bindE_True [OF keeps_True [OF read_k]])
    (auto split: prod.split intro!: keeps_intros deleteSnapshot_k)

lemma find_members_k:
  assumes "\<forall>j < length members. \<forall>v. values ! (2 * (i + j)) = Some v \<longrightarrow> token_value_ok (members ! j) v"
    and "hashed_list result"
  shows "keeps (redis_safe held s) (find_members s c subject kinds index values i members seen result)
    (\<lambda>(seen, result). hashed_list result)"
  using assms
proof (induction members arbitrary: i seen result)
  case (Cons m ms)
  have here: "\<forall>v. values ! (2 * i) = Some v \<longrightarrow> token_value_ok m v"
    using Cons.prems(1) by (metis add_0_right length_greater_0_conv list.distinct(1) nth_Cons_0)
  have rest: "\<forall>j < length ms. \<forall>v. values ! (2 * (Suc i + j)) = Some v \<longrightarrow> token_value_ok (ms ! j) v"
  proof (intro allI impI)
    fix j v assume "j < length ms" "values ! (2 * (Suc i + j)) = Some v"
    with Cons.prems(1) [rule_format, of "Suc j" v] show "token_value_ok (ms ! j) v" by simp
  qed
  have go: "keeps (redis_safe held s) (find_members s c subject kinds index values (Suc i) ms seen' r')
      (\<lambda>(seen, result). hashed_list result)" if "hashed_list r'" for seen' r'
    by (rule Cons.IH [OF rest that])
  have dec: "hashed_state st"
    if "decodeToken (values ! (2 * i)) (values ! (2 * i + 1)) = Inr (Some st, raw, marker)" for st raw marker
    using snapshot_ok_decode [OF here that] by (simp add: snapshot_ok_def)
  show ?case
    unfolding find_members.simps Let_def
    by (rule keeps_if [OF go [OF Cons.prems(2)]], rule keeps_bindE [OF keeps_from_sum])
      (use Cons.prems(2) in \<open>auto split: prod.split intro!: keeps_case_option keeps_if go
        keeps_bindE_True [OF safe_env(1)] keeps_bindE_True [OF deleteSnapshot_k] keeps_bindE_True [OF eval_k(1)] dec\<close>)
qed (simp add: keeps_ret)

lemma find_indexes_k:
  "hashed_list result \<Longrightarrow> keeps (redis_safe held s) (find_indexes s c subject kinds indexes seen result) hashed_list"
proof (induction indexes arbitrary: seen result)
  case (Cons index indexes)
  have go: "keeps (redis_safe held s) (find_members s c subject kinds index vs 0 members seen result)
      (\<lambda>(seen, result). hashed_list result)"
    if "length vs = length (find_keys s members)"
      "\<forall>i < length (find_keys s members). \<forall>v. vs ! i = Some v \<longrightarrow> redis_value_ok s (find_keys s members ! i) v"
    for vs members
  proof (rule find_members_k [OF _ Cons.prems], intro allI impI)
    fix j v assume j: "j < length members" and v: "vs ! (2 * (0 + j)) = Some v"
    with that(2) [rule_format, of "2 * j" v] show "token_value_ok (members ! j) v"
      by (simp add: nth_find_keys)
  qed
  show ?case
    unfolding find_indexes.simps
    by (intro keeps_bindE_True [OF safe_SMembers] keeps_if Cons.IH Cons.prems keeps_bindE [OF safe_MGet])
      (auto intro!: keeps_bindE [OF go] Cons.IH split: prod.split)
qed (simp add: keeps_ret)

lemma find_k: "keeps (redis_safe held s) (redis_FindTokenStates s c subject kinds) hashed_list"
  unfolding redis_FindTokenStates_def Let_def
  by (intro keeps_bindE_True [OF ctx_k] find_indexes_k) simp

lemma delete_states_k: "keeps (redis_safe held s) (delete_states s c subject kinds states) (\<lambda>_. True)"
proof (induction states)
  case (Cons state states)
  show ?case
    by (cases state)
      (auto split: prod.split intro!: Cons.IH keeps_bindE_True [OF keeps_True [OF read_k]] keeps_case_option
        keeps_if keeps_throw keeps_bindE_True [OF deleteSnapshot_k])
qed (simp add: keeps_ret)

lemma delete_all_k: "keeps (redis_safe held s) (redis_DeleteTokenStates s c subject kinds) (\<lambda>_. True)"
  unfolding redis_DeleteTokenStates_def
  by (intro keeps_bindE_True [OF keeps_True [OF find_k]] delete_states_k)

lemma cas_k:
  "hashed_state n \<Longrightarrow> keeps (redis_safe held s) (redis_CompareAndSwapTokenState s c (Some e) (Some n) ttl) (\<lambda>_. True)"
  unfolding redis_CompareAndSwapTokenState_def
  by (auto intro!: keeps_if keeps_throw keeps_bindE_True keeps_attempt saveTokenState_k keeps_case_sum keeps_ret)

lemma consume_k:
  "keeps (redis_safe held s) (redis_consumeTokenState s c t kind) hashed_opt"
  unfolding redis_consumeTokenState_def by (intro keeps_bindE_True [OF ctx_k] keeps_retry consume_once_k)

subsection \<open>Sessions leave the tokens alone\<close>

lemma legacySession_k: "keeps (redis_safe held s) (legacySession s c subject) (\<lambda>_. True)"
  unfolding legacySession_def
  by (intro keeps_bindE_True [OF keeps_True [OF safe_Get]] keeps_case_option keeps_ret
      keeps_bindE_True [OF keeps_True [OF keeps_from_sum]]) simp_all

lemma write_once_k: "keeps (redis_safe held s) (write_once s c subject data millis ensure) (\<lambda>_. True)"
  unfolding write_once_def
  by (auto intro!: keeps_bindE_True [OF legacySession_k] keeps_bindE_True [OF eval_session_k]
      keeps_if keeps_ret split: prod.split)

lemma writeSession_k: "keeps (redis_safe held s) (writeSession other s c session ttl ensure) (\<lambda>_. True)"
  unfolding writeSession_def Let_def
  by (intro keeps_bindE_True [OF ctx_k] keeps_if keeps_throw keeps_bindE_True [OF keeps_True [OF keeps_from_sum]]
      keeps_retry) (simp add: write_once_k)

lemma get_session_loop_k: "keeps (redis_safe held s) (get_session_loop s c subject keys) (\<lambda>_. True)"
  by (induction keys)
    (auto intro!: keeps_ret keeps_bindE_True [OF keeps_True [OF safe_Get]] keeps_case_option keeps_if
      keeps_bindE_True [OF keeps_True [OF keeps_from_sum]])

lemma delete_session_loop_k: "keeps (redis_safe held s) (delete_session_loop s c subject keys) (\<lambda>_. True)"
  by (induction keys)
    (auto intro!: keeps_ret keeps_bindE_True [OF keeps_True [OF safe_Get]] keeps_case_option keeps_if
      keeps_bindE_True [OF keeps_True [OF keeps_from_sum]] keeps_bindE_True [OF eval_k(3)])

lemma get_session_k: "keeps (redis_safe held s) (redis_GetSession s c subject) (\<lambda>_. True)"
  unfolding redis_GetSession_def Let_def by (intro keeps_bindE_True [OF ctx_k] get_session_loop_k)

lemma delete_session_k: "keeps (redis_safe held s) (redis_DeleteSession s c subject) (\<lambda>_. True)"
  unfolding redis_DeleteSession_def Let_def by (intro keeps_bindE_True [OF ctx_k] delete_session_loop_k)

lemma redis_observed: "observed_world (redis_safe held s)"
  by unfold_locales (rule safe_tick safe_publish, assumption?)+

text \<open>The laws of the server give those of the ports.\<close>

lemma redis_token_store: "token_store (redis_safe held s) (redis_store_ops other s)"
  by (intro token_store.intro redis_observed token_store_axioms.intro)
    (auto simp: redis_store_ops_def redis_ConsumeTokenState_def redis_SaveSession_def
      split: option.split
      intro: save_k get_k consume_k delete_k find_k delete_all_k writeSession_k keeps_throw
        get_session_k delete_session_k)

lemma redis_atomic_store: "atomic_store (redis_safe held s) (redis_atomic_ops other s)"
  by (intro atomic_store.intro redis_observed atomic_store_axioms.intro)
    (auto simp: redis_atomic_ops_def redis_ConsumeTokenStateOfKind_def redis_EnsureSession_def
      intro: cas_k consume_k writeSession_k keeps_throw)

end

sublocale faithful_redis \<subseteq> redis_token: token_store "redis_safe held s" "redis_store_ops other s"
  by (rule redis_token_store)

sublocale faithful_redis \<subseteq> redis_atomic: atomic_store "redis_safe held s" "redis_atomic_ops other s"
  by (rule redis_atomic_store)

end
