(* ===== verification/Redis_Keys.thy ===== *)
theory Redis_Keys
  imports Redis_Safe
begin

text \<open>
  The keys of the Redis store do not collide: base64 without padding is injective and has no colon,
  so that an index key determines its subject. Token keys and consumption markers are the exception:
  the marker of a token is the key of another token.
\<close>

subsection \<open>Raw URL encoding is injective\<close>

fun raw64 :: "string \<Rightarrow> string" where
  "raw64 [] = []"
| "raw64 [a] = (let n = of_char a * 2 ^ 16 in [url_digit (n div 2 ^ 18), url_digit (n div 2 ^ 12)])"
| "raw64 [a, b] =
     (let n = of_char a * 2 ^ 16 + of_char b * 2 ^ 8
      in [url_digit (n div 2 ^ 18), url_digit (n div 2 ^ 12), url_digit (n div 2 ^ 6)])"
| "raw64 (a # b # c # rest) =
     (let n = of_char a * 2 ^ 16 + of_char b * 2 ^ 8 + of_char c
      in url_digit (n div 2 ^ 18) # url_digit (n div 2 ^ 12) # url_digit (n div 2 ^ 6)
         # url_digit n # raw64 rest)"

lemma set_raw64: "set (raw64 s) \<subseteq> set url_alphabet"
  by (induction s rule: raw64.induct) (auto simp: Let_def)

lemma base64_raw: "\<exists>p. base64_EncodeToString s = raw64 s @ replicate p base64_pad"
proof (induction s rule: raw64.induct)
  case (1)
  show ?case by (rule exI [of _ 0]) simp
next
  case (2 a)
  show ?case by (rule exI [of _ 2]) (simp add: Let_def numeral_2_eq_2)
next
  case (3 a b)
  show ?case by (rule exI [of _ 1]) (simp add: Let_def)
next
  case (4 a b c rest)
  then show ?case by (auto simp: Let_def)
qed

lemma encodeSubjectPart_raw: "encodeSubjectPart s = raw64 s"
proof -
  obtain p where p: "base64_EncodeToString s = raw64 s @ replicate p base64_pad" using base64_raw by blast
  have "base64_pad \<notin> set (raw64 s)" using set_raw64 [of s] by (auto simp: url_alphabet_def base64_pad_def)
  then have "dropWhile (\<lambda>c. c = base64_pad) (replicate p base64_pad @ rev (raw64 s)) = rev (raw64 s)"
    by (simp add: dropWhile_append dropWhile_eq_self_iff) (metis hd_in_set set_rev rev_is_Nil_conv)
  with p show ?thesis by (simp add: encodeSubjectPart_def TrimRight_pad_def)
qed

lemma url_digit_inject: "url_digit m = url_digit n \<longleftrightarrow> m mod 64 = n mod 64"
proof -
  have "distinct url_alphabet" "length url_alphabet = 64" by (simp_all add: url_alphabet_def)
  then show ?thesis by (simp add: url_digit_def nth_eq_iff_index_eq)
qed

lemma digit_step: "m div 64 = n div 64 \<Longrightarrow> m mod 64 = n mod 64 \<Longrightarrow> m = n" for m n :: nat
  by (metis div_mult_mod_eq)

lemma four_digits:
  fixes m n :: nat
  assumes "m < 2 ^ 24" "n < 2 ^ 24"
    and "m div 2 ^ 18 mod 64 = n div 2 ^ 18 mod 64" "m div 2 ^ 12 mod 64 = n div 2 ^ 12 mod 64"
    and "m div 2 ^ 6 mod 64 = n div 2 ^ 6 mod 64" "m mod 64 = n mod 64"
  shows "m = n"
proof -
  have "m div 2 ^ 18 = n div 2 ^ 18" using assms(1-3) by (simp add: div_less_iff_less_mult)
  then have "m div 2 ^ 12 = n div 2 ^ 12"
    by (intro digit_step [OF _ assms(4)]) (simp add: div_mult2_eq [symmetric])
  then have "m div 2 ^ 6 = n div 2 ^ 6"
    by (intro digit_step [OF _ assms(5)]) (simp add: div_mult2_eq [symmetric])
  then show ?thesis by (intro digit_step [OF _ assms(6)]) simp
qed

lemma low_digits:
  "x * 2 ^ 16 div 2 ^ 6 mod 64 = (0 :: nat)" "x * 2 ^ 16 mod 64 = (0 :: nat)" "(x * 2 ^ 16 + y * 2 ^ 8) mod 64 = (0 :: nat)"
proof -
  have a: "x * 2 ^ 16 = 64 * (64 * (x * 16))" and b: "x * 2 ^ 16 + y * 2 ^ 8 = 64 * (x * 1024 + y * 4)" by simp_all
  show "x * 2 ^ 16 div 2 ^ 6 mod 64 = 0" "x * 2 ^ 16 mod 64 = 0" unfolding a by simp_all
  show "(x * 2 ^ 16 + y * 2 ^ 8) mod 64 = 0" unfolding b by (rule mod_mult_self1_is_0)
qed

lemma split_byte:
  fixes x y x' y' :: nat
  assumes "x * 256 + y = x' * 256 + y'" "y < 256" "y' < 256"
  shows "x = x' \<and> y = y'"
proof -
  have "(x * 256 + y) div 256 = x" "(x' * 256 + y') div 256 = x'" using assms(2,3) by simp_all
  with assms(1) have "x = x'" by metis
  with assms(1) show ?thesis by simp
qed

lemma bytes_inject:
  fixes x y z x' y' z' :: nat
  assumes "x * 2 ^ 16 + y * 2 ^ 8 + z = x' * 2 ^ 16 + y' * 2 ^ 8 + z'" "y < 256" "z < 256" "y' < 256" "z' < 256"
  shows "x = x' \<and> y = y' \<and> z = z'"
proof -
  have "(x * 256 + y) * 256 + z = (x' * 256 + y') * 256 + z'" using assms(1) by simp
  from split_byte [OF this assms(3,5)] split_byte [of x y x' y'] assms(2,4) show ?thesis by blast
qed

lemma bytes_bound:
  fixes x y z :: nat
  assumes "x < 256" "y < 256" "z < 256"
  shows "x * 2 ^ 16 + y * 2 ^ 8 + z < 2 ^ 24"
  using assms by simp

lemma of_char_inject: "(of_char c :: nat) = of_char d \<longleftrightarrow> c = d"
  by simp

lemma one_byte:
  fixes x x' :: nat
  assumes "x < 256" "x' < 256" "x * 2 ^ 16 div 2 ^ 18 mod 64 = x' * 2 ^ 16 div 2 ^ 18 mod 64"
    "x * 2 ^ 16 div 2 ^ 12 mod 64 = x' * 2 ^ 16 div 2 ^ 12 mod 64"
  shows "x = x'"
proof -
  have "x * 2 ^ 16 < 2 ^ 24" "x' * 2 ^ 16 < 2 ^ 24" using assms(1,2) by simp_all
  then have "x * 2 ^ 16 = x' * 2 ^ 16" by (rule four_digits [OF _ _ assms(3,4)]) (simp_all only: low_digits)
  then show ?thesis by simp
qed

lemma two_bytes:
  fixes x y x' y' :: nat
  assumes "x < 256" "x' < 256" "y < 256" "y' < 256"
    "(x * 2 ^ 16 + y * 2 ^ 8) div 2 ^ 18 mod 64 = (x' * 2 ^ 16 + y' * 2 ^ 8) div 2 ^ 18 mod 64"
    "(x * 2 ^ 16 + y * 2 ^ 8) div 2 ^ 12 mod 64 = (x' * 2 ^ 16 + y' * 2 ^ 8) div 2 ^ 12 mod 64"
    "(x * 2 ^ 16 + y * 2 ^ 8) div 2 ^ 6 mod 64 = (x' * 2 ^ 16 + y' * 2 ^ 8) div 2 ^ 6 mod 64"
  shows "x = x' \<and> y = y'"
proof -
  have "x * 2 ^ 16 + y * 2 ^ 8 < 2 ^ 24" "x' * 2 ^ 16 + y' * 2 ^ 8 < 2 ^ 24" using assms(1-4) by simp_all
  then have "x * 2 ^ 16 + y * 2 ^ 8 = x' * 2 ^ 16 + y' * 2 ^ 8"
    by (rule four_digits [OF _ _ assms(5-7)]) (simp_all only: low_digits)
  then show ?thesis using bytes_inject [of x y 0 x' y' 0] assms(3,4) by simp
qed

lemma of_char_less: "(of_char c :: nat) < 256"
  by simp

lemma three_bytes:
  fixes x y z x' y' z' :: nat
  assumes "x < 256" "x' < 256" "y < 256" "y' < 256" "z < 256" "z' < 256"
    "(x * 2 ^ 16 + y * 2 ^ 8 + z) div 2 ^ 18 mod 64 = (x' * 2 ^ 16 + y' * 2 ^ 8 + z') div 2 ^ 18 mod 64"
    "(x * 2 ^ 16 + y * 2 ^ 8 + z) div 2 ^ 12 mod 64 = (x' * 2 ^ 16 + y' * 2 ^ 8 + z') div 2 ^ 12 mod 64"
    "(x * 2 ^ 16 + y * 2 ^ 8 + z) div 2 ^ 6 mod 64 = (x' * 2 ^ 16 + y' * 2 ^ 8 + z') div 2 ^ 6 mod 64"
    "(x * 2 ^ 16 + y * 2 ^ 8 + z) mod 64 = (x' * 2 ^ 16 + y' * 2 ^ 8 + z') mod 64"
  shows "x = x' \<and> y = y' \<and> z = z'"
  by (rule bytes_inject [OF four_digits [OF bytes_bound bytes_bound assms(7-10)]]) (rule assms)+

lemma raw64_inject: "raw64 s = raw64 t \<Longrightarrow> s = t"
proof (induction s arbitrary: t rule: raw64.induct)
  case 1
  then show ?case by (cases t rule: raw64.cases) (auto simp: Let_def)
next
  case (2 a)
  show ?case
  proof (cases t rule: raw64.cases)
    case (2 a')
    then show ?thesis
      using one_byte [OF of_char_less [of a] of_char_less [of a']]
        "2.prems" [unfolded 2 raw64.simps Let_def list.inject url_digit_inject] by (simp only: of_char_inject)
  qed (use "2.prems" in \<open>auto simp: Let_def\<close>)
next
  case (3 a b)
  show ?case
  proof (cases t rule: raw64.cases)
    case (3 a' b')
    then show ?thesis
      using two_bytes [OF of_char_less [of a] of_char_less [of a'] of_char_less [of b] of_char_less [of b']]
        "3.prems" [unfolded 3 raw64.simps Let_def list.inject url_digit_inject] by (simp only: of_char_inject)
  qed (use "3.prems" in \<open>auto simp: Let_def\<close>)
next
  case (4 a b c rest)
  show ?case
  proof (cases t rule: raw64.cases)
    case (4 a' b' c' rest')
    note eq = "4.prems" [unfolded 4 raw64.simps Let_def list.inject url_digit_inject]
    have "raw64 rest = raw64 rest'" using eq by (elim conjE)
    then have "rest = rest'" by (intro "4.IH") simp_all
    with 4 show ?thesis
      using three_bytes [OF of_char_less [of a] of_char_less [of a'] of_char_less [of b] of_char_less [of b']
        of_char_less [of c] of_char_less [of c']] eq by (simp only: of_char_inject)
  qed (use "4.prems" in \<open>auto simp: Let_def\<close>)
qed

subsection \<open>Index keys\<close>

lemma split_at_colon:
  assumes "a @ '':'' @ b = a' @ '':'' @ b'" "CHR '':'' \<notin> set a" "CHR '':'' \<notin> set a'"
  shows "a = a' \<and> b = b'"
proof -
  have "takeWhile (\<lambda>c. c \<noteq> CHR '':'') (x @ '':'' @ y) = x" if "CHR '':'' \<notin> set x" for x y
    using that by (induction x) auto
  with assms have "a = a'" by metis
  with assms(1) show ?thesis by simp
qed

lemma no_colon: "CHR '':'' \<notin> set (encodeSubjectPart s)"
  using set_raw64 [of s] by (auto simp: encodeSubjectPart_raw url_alphabet_def)

lemma LoginSubject_eqI: "sub_LoginID a = sub_LoginID b \<Longrightarrow> sub_LoginType a = sub_LoginType b \<Longrightarrow> a = (b :: LoginSubject)"
  by simp

lemma indexKey_inject: "indexKey s a = indexKey s b \<longleftrightarrow> LoginSubject_Normalize a = LoginSubject_Normalize b"
proof
  assume "indexKey s a = indexKey s b"
  then have "encodeSubjectPart (sub_LoginType (LoginSubject_Normalize a)) @ '':'' @ encodeSubjectPart (sub_LoginID (LoginSubject_Normalize a))
      = encodeSubjectPart (sub_LoginType (LoginSubject_Normalize b)) @ '':'' @ encodeSubjectPart (sub_LoginID (LoginSubject_Normalize b))"
    by (simp add: indexKey_def Let_def)
  from split_at_colon [OF this no_colon no_colon] show "LoginSubject_Normalize a = LoginSubject_Normalize b"
    by (intro LoginSubject_eqI) (auto simp: encodeSubjectPart_raw dest: raw64_inject)
qed (simp add: indexKey_def)

lemma key_families [simp]:
  "indexKey s a \<noteq> tokenKey s t" "tokenKey s t \<noteq> indexKey s a"
  "indexKey s a \<noteq> legacySubjectKey s ''index'' b" "legacySubjectKey s ''index'' b \<noteq> indexKey s a"
  "legacySubjectKey s ''index'' a \<noteq> tokenKey s t" "tokenKey s t \<noteq> legacySubjectKey s ''index'' a"
  by (auto simp: indexKey_def tokenKey_def legacySubjectKey_def Let_def)

lemma marker_is_token_key: "consumedMarkerKey s t = tokenKey s (t @ '':consumed'')"
  by (simp add: consumedMarkerKey_def tokenKey_def)

end
