(* ===== verification/Redis_Table.thy ===== *)
theory Redis_Table
  imports Redis_Keys Stored_States
begin

text \<open>
  The Redis store implements the table of live states over any server that does what the commands
  promise: the raw texts under the token keys are the JSON of the states, the sets under the index keys
  are the tokens of their subjects, and the scripts change both together.
\<close>

subsection \<open>What the commands promise\<close>

text \<open>A millisecond count that \<open>PX\<close> accepts.\<close>

definition px_ok :: "string \<Rightarrow> bool" where
  "px_ok m \<longleftrightarrow> (\<exists>n. ParseInt m = Some n \<and> 0 < n \<and> n \<le> max_duration div Millisecond)"

definition set_option_ok :: "set_option \<Rightarrow> bool" where
  "set_option_ok opt \<longleftrightarrow> (case opt of SetPX m \<Rightarrow> px_ok m | _ \<Rightarrow> True)"

text \<open>
  \<open>ready w V M\<close>: the server answers, its clock and that of the process stand at \<open>now\<close>, the keys with a
  string hold \<open>V\<close> and those with a set hold \<open>M\<close>. A key that holds a set is not read as a string, nor the
  other way round.
\<close>

locale redis_server =
  fixes ready :: "'x env_scheme \<Rightarrow> (string \<Rightarrow> string option) \<Rightarrow> (string \<Rightarrow> string set) \<Rightarrow> bool"
    and calls :: "'x env_scheme redis_calls"
    and s :: "'x env_scheme redis_Store"
    and now :: time
  assumes clock: "ready w V M \<Longrightarrow> env_clock w n = now"
    and ready_tick: "ready w V M \<Longrightarrow> ready (tick w) V M"
    and MGet: "ready w V M \<Longrightarrow> \<forall>k \<in> set ks. M k = {} \<Longrightarrow>
      succeeds (cl_MGet (rs_rdb s c) ks) (\<lambda>vs w'. vs = map V ks \<and> ready w' V M) w"
    and SMembers: "ready w V M \<Longrightarrow> V k = None \<Longrightarrow>
      succeeds (cl_SMembers (rs_rdb s c) k) (\<lambda>ms w'. distinct ms \<and> set ms = M k \<and> ready w' V M) w"
    and Eval: "ready w V M \<Longrightarrow> succeeds (script calls (lua_array ks) (lua_array args)) Q w \<Longrightarrow>
      succeeds (cl_Eval (rs_rdb s c) script ks args) Q w"
    and GET: "ready w V M \<Longrightarrow> M k = {} \<Longrightarrow>
      succeeds (call_GET calls k) (\<lambda>r w'. r = V k \<and> ready w' V M) w"
    and SET: "ready w V M \<Longrightarrow> M k = {} \<Longrightarrow> set_option_ok opt \<Longrightarrow>
      succeeds (call_SET calls k v opt) (\<lambda>_ w'. ready w' (V(k \<mapsto> v)) M) w"
    and DEL: "ready w V M \<Longrightarrow> \<forall>k \<in> set ks. M k = {} \<Longrightarrow>
      succeeds (call_DEL calls ks) (\<lambda>_ w'. ready w' (\<lambda>k. if k \<in> set ks then None else V k) M) w"
    and SREM: "ready w V M \<Longrightarrow> V k = None \<Longrightarrow>
      succeeds (call_SREM calls k m) (\<lambda>_ w'. ready w' V (M(k := M k - {m}))) w"
    and SADD: "ready w V M \<Longrightarrow> V k = None \<Longrightarrow>
      succeeds (call_SADD calls k m) (\<lambda>_ w'. ready w' V (M(k := insert m (M k)))) w"

subsection \<open>What the store keeps on the server\<close>

text \<open>The states that the store can hold: those that JSON gives back, under a token that is not
  the consumption marker of another.\<close>

definition redis_holds :: "TokenState \<Rightarrow> bool" where
  "redis_holds s \<longleftrightarrow> state_plain (saved_state s) \<and> \<not> (\<exists>t. ts_Token s = t @ '':consumed'')"

definition entry_ok :: "TokenValue \<Rightarrow> TokenState \<Rightarrow> bool" where
  "entry_ok k st \<longleftrightarrow> ts_Token st = k \<and> k \<noteq> [] \<and> \<not> (\<exists>t. k = t @ '':consumed'') \<and> state_plain st \<and> normal_state st \<and> cloned st"

definition raw_entry :: "TokenState option \<Rightarrow> string option \<Rightarrow> bool" where
  "raw_entry u v \<longleftrightarrow> (case u of None \<Rightarrow> v = None
     | Some st \<Rightarrow> (\<exists>d. v = Some d \<and> d \<noteq> [] \<and> TokenState_Unmarshal d = Inr st))"

text \<open>\<open>U\<close> are all stored states, the expired ones included.\<close>

definition redis_content ::
    "'w redis_Store \<Rightarrow> (string \<Rightarrow> string option) \<Rightarrow> (string \<Rightarrow> string set) \<Rightarrow> token_table \<Rightarrow> bool" where
  "redis_content s V M U \<longleftrightarrow>
     (\<forall>k. raw_entry (U k) (V (tokenKey s k))) \<and> (\<forall>k st. U k = Some st \<longrightarrow> entry_ok k st)
     \<and> (\<forall>k. M (tokenKey s k) = {})
     \<and> (\<forall>a. V (indexKey s a) = None) \<and> (\<forall>a. V (legacySubjectKey s ''index'' a) = None)
     \<and> (\<forall>a. M (legacySubjectKey s ''index'' a) = {})
     \<and> (\<forall>a. M (indexKey s a) = {k. \<exists>st. U k = Some st
          \<and> LoginSubject_Normalize (TokenState_Subject st) = LoginSubject_Normalize a})"

lemma redis_contentD:
  assumes "redis_content s V M U"
  shows "raw_entry (U k) (V (tokenKey s k))" "U k = Some st \<Longrightarrow> entry_ok k st" "M (tokenKey s k) = {}"
    "V (indexKey s a) = None" "V (legacySubjectKey s ''index'' a) = None" "M (legacySubjectKey s ''index'' a) = {}"
    "M (indexKey s a) = {k. \<exists>st. U k = Some st
          \<and> LoginSubject_Normalize (TokenState_Subject st) = LoginSubject_Normalize a}"
    "V (consumedMarkerKey s k) = None" "M (consumedMarkerKey s k) = {}"
proof -
  note C = assms [unfolded redis_content_def]
  show "raw_entry (U k) (V (tokenKey s k))" "U k = Some st \<Longrightarrow> entry_ok k st" "M (tokenKey s k) = {}"
    "V (indexKey s a) = None" "V (legacySubjectKey s ''index'' a) = None" "M (legacySubjectKey s ''index'' a) = {}"
    "M (indexKey s a) = {k. \<exists>st. U k = Some st
          \<and> LoginSubject_Normalize (TokenState_Subject st) = LoginSubject_Normalize a}"
    "M (consumedMarkerKey s k) = {}"
    using C by (simp_all add: marker_is_token_key)
  have "U (k @ '':consumed'') = None"
    using C by (cases "U (k @ '':consumed'')") (auto simp: entry_ok_def)
  moreover have "raw_entry (U (k @ '':consumed'')) (V (tokenKey s (k @ '':consumed'')))" using C by blast
  ultimately show "V (consumedMarkerKey s k) = None" by (simp add: raw_entry_def marker_is_token_key)
qed

text \<open>A state enters, replaces its older version or leaves; the index follows.\<close>

lemma redis_content_put:
  assumes C: "redis_content s V M U" and st: "entry_ok k st" and d: "TokenState_Unmarshal d = Inr st" "d \<noteq> []"
    and old: "case U k of None \<Rightarrow> a = TokenState_Subject st | Some o' \<Rightarrow> a = TokenState_Subject o'"
    and M': "M' = (\<lambda>i. if i = indexKey s (TokenState_Subject st) then insert k (if i = indexKey s a then M i - {k} else M i)
                       else if i = indexKey s a then M i - {k} else M i)"
  shows "redis_content s (V(tokenKey s k \<mapsto> d)) M' (U(k \<mapsto> st))"
proof -
  note D = redis_contentD [OF C]
  have "M' (indexKey s b) = {j. \<exists>st'. (U(k \<mapsto> st)) j = Some st'
      \<and> LoginSubject_Normalize (TokenState_Subject st') = LoginSubject_Normalize b}" for b
  proof (cases "U k")
    case None
    with old D(7) [of b] D(7) [of "TokenState_Subject st"] show ?thesis unfolding M' by (auto simp: indexKey_inject)
  next
    case (Some u)
    with old D(7) [of b] D(7) [of "TokenState_Subject st"] D(7) [of a] show ?thesis
      unfolding M' by (auto simp: indexKey_inject)
  qed
  moreover have "raw_entry ((U(k \<mapsto> st)) j) ((V(tokenKey s k \<mapsto> d)) (tokenKey s j))" for j
    using D(1) [of j] d by (auto simp: raw_entry_def)
  moreover have "M' (tokenKey s j) = {}" "M' (legacySubjectKey s ''index'' b) = {}" for j b
    using D(3,6) unfolding M' by simp_all
  ultimately show ?thesis
    using D(2,4,5) st unfolding redis_content_def by auto
qed

lemma redis_content_drop:
  assumes C: "redis_content s V M U" and u: "U k = Some st"
  shows "redis_content s (V(tokenKey s k := None))
    (M(indexKey s (TokenState_Subject st) := M (indexKey s (TokenState_Subject st)) - {k})) (U(k := None))"
proof -
  note D = redis_contentD [OF C]
  let ?M = "M(indexKey s (TokenState_Subject st) := M (indexKey s (TokenState_Subject st)) - {k})"
  have "?M (indexKey s b) = {j. \<exists>st'. (U(k := None)) j = Some st'
      \<and> LoginSubject_Normalize (TokenState_Subject st') = LoginSubject_Normalize b}" for b
    using D(7) [of b] D(7) [of "TokenState_Subject st"] u by (auto simp: indexKey_inject)
  moreover have "raw_entry ((U(k := None)) j) ((V(tokenKey s k := None)) (tokenKey s j))" for j
    using D(1) [of j] by (auto simp: raw_entry_def)
  ultimately show ?thesis
    using D(2-6) unfolding redis_content_def by auto
qed


lemma succeedsE:
  assumes "succeeds m Q w"
  obtains x w' where "m w = (Inr x, w')" "Q x w'"
  using assms by (auto simp: wp_succeeds)

context redis_server begin

subsection \<open>The scripts\<close>

lemma GET_step: "ready w V M \<Longrightarrow> M k = {} \<Longrightarrow> \<exists>w'. call_GET calls k w = (Inr (V k), w') \<and> ready w' V M"
  by (drule (1) GET) (auto simp: wp_succeeds)

lemma SET_step: "ready w V M \<Longrightarrow> M k = {} \<Longrightarrow> set_option_ok opt \<Longrightarrow>
    \<exists>w'. call_SET calls k v opt w = (Inr (), w') \<and> ready w' (V(k \<mapsto> v)) M"
  using SET [of w V M k opt v] by (auto simp: wp_succeeds)

lemma DEL_step: "ready w V M \<Longrightarrow> \<forall>k \<in> set ks. M k = {} \<Longrightarrow> (\<lambda>k. if k \<in> set ks then None else V k) = V' \<Longrightarrow>
    \<exists>i w'. call_DEL calls ks w = (Inr i, w') \<and> ready w' V' M"
  by (drule (1) DEL) (auto simp: wp_succeeds)

lemma DEL_none: "ready w V M \<Longrightarrow> M k = {} \<Longrightarrow> V k = None \<Longrightarrow>
    \<exists>i w'. call_DEL calls [k] w = (Inr i, w') \<and> ready w' V M"
  by (rule DEL_step) auto

lemma SREM_step: "ready w V M \<Longrightarrow> V k = None \<Longrightarrow>
    \<exists>i w'. call_SREM calls k m w = (Inr i, w') \<and> ready w' V (M(k := M k - {m}))"
  using SREM [of w V M k m] by (auto simp: wp_succeeds)

lemma SREM_none: "ready w V M \<Longrightarrow> V k = None \<Longrightarrow> M k = {} \<Longrightarrow>
    \<exists>i w'. call_SREM calls k m w = (Inr i, w') \<and> ready w' V M"
  using SREM_step [of w V M k m] by (metis Diff_empty Diff_eq_empty_iff empty_subsetI fun_upd_triv)

lemma SADD_step: "ready w V M \<Longrightarrow> V k = None \<Longrightarrow>
    \<exists>i w'. call_SADD calls k m w = (Inr i, w') \<and> ready w' V (M(k := insert m (M k)))"
  using SADD [of w V M k m] by (auto simp: wp_succeeds)

lemma snapshot_same:
  assumes r: "ready w V M" and C: "redis_content s V M U" and k: "KEYS 1 = tokenKey s t" "KEYS 2 = consumedMarkerKey s t"
    and v: "V (tokenKey s t) = Some (ARGV 1)" "ARGV 2 = []"
  obtains w' where "snapshot_changed calls KEYS ARGV w = (Inr False, w')" "ready w' V M"
proof -
  note D = redis_contentD [OF C]
  obtain w1 where 1: "call_GET calls (tokenKey s t) w = (Inr (Some (ARGV 1)), w1)" and r1: "ready w1 V M"
    using GET_step [OF r D(3)] v by metis
  obtain w2 where 2: "call_GET calls (consumedMarkerKey s t) w1 = (Inr None, w2)" and r2: "ready w2 V M"
    using GET_step [OF r1 D(9)] D(8) by metis
  show thesis
    by (rule that [OF _ r2]) (simp add: snapshot_changed_def op_simps k 1 2 v or_empty_def del: One_nat_def)
qed

lemma not_marker [simp]: "tokenKey s t \<noteq> consumedMarkerKey s t"
  by (simp add: marker_is_token_key)

lemma eval_save:
  assumes r: "ready w V M" and C: "redis_content s V M U" and raw: "raw = or_empty (V (tokenKey s t))"
    and n: "ParseInt m = Some n" "0 < n \<longrightarrow> px_ok m" and st: "entry_ok t st" and d: "TokenState_Unmarshal d = Inr st"
    and old: "case U t of None \<Rightarrow> a = TokenState_Subject st | Some o' \<Rightarrow> a = TokenState_Subject o'"
  shows "succeeds (cl_Eval (rs_rdb s c) saveScript
      [tokenKey s t, consumedMarkerKey s t, indexKey s a, indexKey s (TokenState_Subject st), legacySubjectKey s ''index'' a]
      [raw, [], d, m, t])
    (\<lambda>x w'. x = 1 \<and> (\<exists>V M. ready w' V M \<and> redis_content s V M (U(t \<mapsto> st)))) w"
proof (rule Eval [OF r])
  note D = redis_contentD [OF C]
  let ?V = "V(tokenKey s t \<mapsto> d)" and ?i = "indexKey s a" and ?j = "indexKey s (TokenState_Subject st)"
  let ?M = "M(?i := M ?i - {t})"
  obtain w1 where 1: "call_GET calls (tokenKey s t) w = (Inr (V (tokenKey s t)), w1)" and r1: "ready w1 V M"
    using GET_step [OF r D(3)] by blast
  obtain w2 where 2: "call_GET calls (consumedMarkerKey s t) w1 = (Inr None, w2)" and r2: "ready w2 V M"
    using GET_step [OF r1 D(9)] D(8) by metis
  define opt where "opt = (if 0 < n then SetPX m else SetPlain)"
  have "set_option_ok opt" using n(2) by (auto simp: opt_def set_option_ok_def)
  then obtain w3 where 3: "call_SET calls (tokenKey s t) d opt w2 = (Inr (), w3)" and r3: "ready w3 ?V M"
    using SET_step [OF r2 D(3)] by blast
  obtain i4 w4 where 4: "call_DEL calls [consumedMarkerKey s t] w3 = (Inr i4, w4)" and r4: "ready w4 ?V M"
    using DEL_none [OF r3 D(9)] D(8) by (metis fun_upd_other not_marker)
  obtain i5 w5 where 5: "call_SREM calls ?i t w4 = (Inr i5, w5)" and r5: "ready w5 ?V ?M"
    using SREM_step [OF r4, of ?i t] D(4) by auto
  obtain i6 w6 where 6: "call_SREM calls (legacySubjectKey s ''index'' a) t w5 = (Inr i6, w6)" and r6: "ready w6 ?V ?M"
    using SREM_none [OF r5, of "legacySubjectKey s ''index'' a" t] D(5,6) by auto
  obtain i7 w7 where 7: "call_SADD calls ?j t w6 = (Inr i7, w7)" and r7: "ready w7 ?V (?M(?j := insert t (?M ?j)))"
    using SADD_step [OF r6, of ?j t] D(4) by auto
  have "saveScript calls (lua_array [tokenKey s t, consumedMarkerKey s t, ?i, ?j, legacySubjectKey s ''index'' a])
      (lua_array [raw, [], d, m, t]) w = (Inr 1, w7)"
    using 3 by (simp add: saveScript_def lua_array_def op_simps 1 2 4 5 6 7 raw lua_positive_def n(1) opt_def or_empty_def
        split: if_splits)
  moreover have "redis_content s ?V (?M(?j := insert t (?M ?j))) (U(t \<mapsto> st))"
    by (rule redis_content_put [OF C st d Unmarshal_nonempty [OF d] old]) (auto simp: fun_eq_iff)
  ultimately show "succeeds (saveScript calls (lua_array [tokenKey s t, consumedMarkerKey s t, ?i, ?j, legacySubjectKey s ''index'' a])
      (lua_array [raw, [], d, m, t])) (\<lambda>x w'. x = 1 \<and> (\<exists>V M. ready w' V M \<and> redis_content s V M (U(t \<mapsto> st)))) w"
    using r7 by (auto simp: wp_succeeds)
qed

lemma eval_consume:
  assumes r: "ready w V M" and C: "redis_content s V M U" and u: "U t = Some u" and raw: "V (tokenKey s t) = Some raw"
    and st: "entry_ok t st" and d: "TokenState_Unmarshal d = Inr st" and same: "TokenState_Subject st = TokenState_Subject u"
  shows "succeeds (cl_Eval (rs_rdb s c) consumeScript [tokenKey s t, consumedMarkerKey s t] [raw, [], d])
    (\<lambda>x w'. x = 1 \<and> (\<exists>V M. ready w' V M \<and> redis_content s V M (U(t \<mapsto> st)))) w"
proof (rule Eval [OF r])
  note D = redis_contentD [OF C]
  let ?V = "V(tokenKey s t \<mapsto> d)" and ?K = "lua_array [tokenKey s t, consumedMarkerKey s t]" and ?A = "lua_array [raw, [], d]"
  obtain w1 where 1: "snapshot_changed calls ?K ?A w = (Inr False, w1)" and r1: "ready w1 V M"
    by (rule snapshot_same [OF r C, of ?K t ?A]) (simp_all add: lua_array_def raw)
  obtain w2 where 2: "call_SET calls (tokenKey s t) d SetKeepTTL w1 = (Inr (), w2)" and r2: "ready w2 ?V M"
    using SET_step [OF r1 D(3), of SetKeepTTL] by (auto simp: set_option_ok_def)
  obtain i3 w3 where 3: "call_DEL calls [consumedMarkerKey s t] w2 = (Inr i3, w3)" and r3: "ready w3 ?V M"
    using DEL_none [OF r2 D(9)] D(8) by (metis fun_upd_other not_marker)
  have "consumeScript calls ?K ?A w = (Inr 1, w3)"
    by (simp add: consumeScript_def op_simps 1) (simp add: lua_array_def op_simps 2 3)
  moreover have "M (indexKey s (TokenState_Subject u)) = insert t (M (indexKey s (TokenState_Subject u)))"
    using D(7) u by blast
  then have "redis_content s ?V M (U(t \<mapsto> st))"
    using same u by (intro redis_content_put [OF C st d Unmarshal_nonempty [OF d], of "TokenState_Subject u"]) (auto simp: fun_eq_iff)
  ultimately show "succeeds (consumeScript calls ?K ?A)
      (\<lambda>x w'. x = 1 \<and> (\<exists>V M. ready w' V M \<and> redis_content s V M (U(t \<mapsto> st)))) w"
    using r3 by (auto simp: wp_succeeds)
qed

text \<open>A deletion also tells which values it leaves.\<close>

lemma snapshot_deleted:
  assumes r: "ready w V M" and C: "redis_content s V M U" and u: "U t = Some u" and raw: "V (tokenKey s t) = Some raw"
  shows "succeeds (deleteSnapshot s c t (TokenState_Subject u) raw [])
    (\<lambda>x w'. x \<and> (\<exists>M. ready w' (V(tokenKey s t := None)) M \<and> redis_content s (V(tokenKey s t := None)) M (U(t := None)))) w"
proof -
  note D = redis_contentD [OF C]
  let ?a = "TokenState_Subject u"
  let ?V = "V(tokenKey s t := None)" and ?A = "lua_array [raw, [], t]"
  let ?ks = "[tokenKey s t, consumedMarkerKey s t, indexKey s ?a, legacySubjectKey s ''index'' ?a]"
  let ?K = "lua_array ?ks" and ?M = "M(indexKey s ?a := M (indexKey s ?a) - {t})"
  obtain w1 where 1: "snapshot_changed calls ?K ?A w = (Inr False, w1)" and r1: "ready w1 V M"
    by (rule snapshot_same [OF r C, of ?K t ?A]) (simp_all add: lua_array_def raw)
  have V: "(\<lambda>k. if k \<in> set [tokenKey s t, consumedMarkerKey s t] then None else V k) = ?V"
    using D(8) by auto
  obtain i2 w2 where 2: "call_DEL calls [tokenKey s t, consumedMarkerKey s t] w1 = (Inr i2, w2)" and r2: "ready w2 ?V M"
    using DEL_step [OF r1 _ V] D(3,9) by auto
  obtain i3 w3 where 3: "call_SREM calls (indexKey s ?a) t w2 = (Inr i3, w3)" and r3: "ready w3 ?V ?M"
    using SREM_step [OF r2, of "indexKey s ?a" t] D(4) by auto
  obtain i4 w4 where 4: "call_SREM calls (legacySubjectKey s ''index'' ?a) t w3 = (Inr i4, w4)" and r4: "ready w4 ?V ?M"
    using SREM_none [OF r3, of "legacySubjectKey s ''index'' ?a" t] D(5,6) by auto
  have "deleteScript calls ?K ?A w = (Inr 1, w4)"
    by (simp add: deleteScript_def op_simps 1) (simp add: lua_array_def op_simps 2 3 4)
  then have "succeeds (cl_Eval (rs_rdb s c) deleteScript ?ks [raw, [], t]) (\<lambda>x w'. x = 1 \<and> w' = w4) w"
    by (intro Eval [OF r]) (simp add: wp_succeeds)
  then show ?thesis
    unfolding deleteSnapshot_def
    by (rule succeeds_bind) (use r4 redis_content_drop [OF C u] in \<open>auto simp: wp_ret\<close>)
qed

end


subsection \<open>Milliseconds\<close>

text \<open>What \<open>SaveTokenState\<close> passes to the script: zero for no expiry, else a count that \<open>PX\<close> accepts.\<close>

definition save_millis :: "time \<Rightarrow> TokenState \<Rightarrow> duration \<Rightarrow> int" where
  "save_millis now st ttl =
     (let expiration = redisTTL now st ttl; millis = Milliseconds expiration
      in if expiration > 0 \<and> millis < 1 then 1 else millis)"

lemma redisTTL_bounds: "0 \<le> redisTTL now st ttl \<and> redisTTL now st ttl \<le> max_duration"
  by (auto simp: redisTTL_def redisExpiresTTL_def Let_def Time_Sub_def max_duration_def min_duration_def Millisecond_def
      split: option.split)

lemma save_millis_ok:
  "ParseInt (decimal (save_millis now st ttl)) = Some (save_millis now st ttl)"
  "0 < save_millis now st ttl \<longrightarrow> px_ok (decimal (save_millis now st ttl))"
proof -
  note B = redisTTL_bounds [of now st ttl]
  have "Milliseconds (redisTTL now st ttl) \<le> max_duration div Millisecond"
    using B by (simp add: Milliseconds_def Millisecond_def zdiv_mono1)
  moreover have "0 \<le> Milliseconds (redisTTL now st ttl)"
    using B by (simp add: Milliseconds_def Millisecond_def pos_imp_zdiv_nonneg_iff)
  ultimately have m: "0 \<le> save_millis now st ttl" "save_millis now st ttl \<le> max_duration div Millisecond"
    by (auto simp: save_millis_def Let_def max_duration_def Millisecond_def)
  then show p: "ParseInt (decimal (save_millis now st ttl)) = Some (save_millis now st ttl)"
    by (intro ParseInt_decimal) (simp add: int64_range_def max_duration_def Millisecond_def)
  show "0 < save_millis now st ttl \<longrightarrow> px_ok (decimal (save_millis now st ttl))"
    using p m by (simp add: px_ok_def)
qed

lemma TokenState_Clone_entry: "entry_ok k st \<Longrightarrow> TokenState_Clone st = st"
  by (simp add: entry_ok_def TokenState_Clone_id)

lemma entry_ok_saved: "saveable st \<Longrightarrow> redis_holds st \<Longrightarrow> entry_ok (ts_Token st) (saved_state st)"
  by (auto simp: entry_ok_def redis_holds_def saveable_def saved_state_def)

definition redis_rel ::
    "('w \<Rightarrow> (string \<Rightarrow> string option) \<Rightarrow> (string \<Rightarrow> string set) \<Rightarrow> bool) \<Rightarrow> 'w redis_Store \<Rightarrow> time \<Rightarrow> 'w \<Rightarrow> token_table \<Rightarrow> bool" where
  "redis_rel ready s now w T \<longleftrightarrow> (\<exists>V M U. ready w V M \<and> redis_content s V M U \<and> T = live_part now U)"

text \<open>The snapshot of a token that the server holds.\<close>

definition snapshot_of :: "token_table \<Rightarrow> (string \<Rightarrow> string option) \<Rightarrow> 'w redis_Store \<Rightarrow> TokenValue \<Rightarrow> token_snapshot" where
  "snapshot_of U V s t = (U t, or_empty (V (tokenKey s t)), [])"

context redis_server begin

subsection \<open>Reading\<close>

lemma ctx_ok: "healthy c \<Longrightarrow> ready w V M \<Longrightarrow> succeeds (redis_contextErr c) (\<lambda>_ w'. ready w' V M) w"
  unfolding redis_contextErr_def
  by (auto simp: wp_ret ready_tick intro!: wp_ctxErr_healthy split: option.split)

lemma now_ok: "ready w V M \<Longrightarrow> succeeds read_now (\<lambda>t w'. t = now \<and> ready w' V M) w"
  by (simp add: wp_read_now clock ready_tick)

lemma decode_ok:
  assumes "redis_content s V M U"
  shows "decodeToken (V (tokenKey s t)) None = Inr (snapshot_of U V s t)"
proof (cases "U t")
  case None
  with redis_contentD(1) [OF assms, of t] show ?thesis
    by (simp add: raw_entry_def decodeToken_def snapshot_of_def or_empty_def)
next
  case (Some st)
  with redis_contentD(1,2) [OF assms, of t] show ?thesis
    by (auto simp: raw_entry_def decodeToken_def snapshot_of_def or_empty_def entry_ok_def Let_def)
qed

lemma read_ok:
  assumes "ready w V M" "redis_content s V M U"
  shows "succeeds (readToken s c t) (\<lambda>r w'. r = snapshot_of U V s t \<and> ready w' V M) w"
proof -
  have "\<forall>k \<in> set [tokenKey s t, consumedMarkerKey s t]. M k = {}"
    using redis_contentD(3,9) [OF assms(2)] by simp
  then show ?thesis
    unfolding readToken_def
    by (rule succeeds_bind [OF MGet [OF assms(1)]])
      (use decode_ok [OF assms(2)] redis_contentD(8) [OF assms(2)] in \<open>auto simp: from_sum_def wp_ret\<close>)
qed

end


text \<open>What a method leaves behind, when it has turned the stored states into \<open>U\<close>.\<close>

definition redis_holding ::
    "('w \<Rightarrow> (string \<Rightarrow> string option) \<Rightarrow> (string \<Rightarrow> string set) \<Rightarrow> bool) \<Rightarrow> 'w redis_Store \<Rightarrow> token_table \<Rightarrow> 'w \<Rightarrow> bool" where
  "redis_holding ready s U w \<longleftrightarrow> (\<exists>V M. ready w V M \<and> redis_content s V M U)"

lemma redis_rel_holding:
  "redis_rel ready s now w T \<longleftrightarrow> (\<exists>U. redis_holding ready s U w \<and> T = live_part now U)"
  by (auto simp: redis_rel_def redis_holding_def)

context redis_server begin

subsection \<open>Writing\<close>

lemma holdingI: "ready w V M \<Longrightarrow> redis_content s V M U \<Longrightarrow> redis_holding ready s U w"
  by (auto simp: redis_holding_def)

lemma expect_ok:
  assumes "ready w V M"
  shows "wp (redis_expect expected old)
    (\<lambda>_ w'. ready w' V M \<and> (\<forall>e. expected = Some e \<longrightarrow> old = Some e \<and> \<not> IsExpired e now))
    (\<lambda>x w'. x = ErrTokenInvalid \<and> ready w' V M \<and> (\<exists>e. expected = Some e \<and> \<not> (old = Some e \<and> \<not> IsExpired e now))) w"
  using assms
  by (auto simp: redis_expect_def wp_ret wp_throw wp_bindE wp_read_now wp_if clock ready_tick split: option.split)

text \<open>The save up to its script, whatever is said of the world that the script leaves.\<close>

lemma saveTokenState_runs:
  assumes w: "redis_holding ready s U w" and c: "healthy c" and st: "saveable st" "redis_holds st"
    and script: "\<And>V M d a v. ready v V M \<Longrightarrow> redis_content s V M U \<Longrightarrow> TokenState_Unmarshal d = Inr (saved_state st) \<Longrightarrow>
      a = (case U (ts_Token st) of None \<Rightarrow> TokenState_Subject (saved_state st) | Some u \<Rightarrow> TokenState_Subject u) \<Longrightarrow>
      succeeds (cl_Eval (rs_rdb s c) saveScript
        [tokenKey s (ts_Token st), consumedMarkerKey s (ts_Token st), indexKey s a,
         indexKey s (TokenState_Subject (saved_state st)), legacySubjectKey s ''index'' a]
        [or_empty (V (tokenKey s (ts_Token st))), [], d, decimal (save_millis now (saved_state st) ttl), ts_Token st])
      (\<lambda>x w'. x = 1 \<and> P w') v"
  shows "wp (redis_saveTokenState s c expected (Some st) ttl)
    (\<lambda>_ w'. P w' \<and> (\<forall>e. expected = Some e \<longrightarrow> live_part now U (ts_Token st) = Some e))
    (\<lambda>x w'. x = ErrTokenInvalid \<and> redis_holding ready s U w'
       \<and> (\<exists>e. expected = Some e \<and> live_part now U (ts_Token st) \<noteq> Some e)) w"
proof -
  from w obtain V M where r: "ready w V M" and C: "redis_content s V M U" by (auto simp: redis_holding_def)
  obtain d where d: "TokenState_Marshal (saved_state st) = Inr d" "TokenState_Unmarshal d = Inr (saved_state st)"
    using plain_Marshal [of "saved_state st"] st(2) by (auto simp: redis_holds_def)
  have ne: "ts_Token st \<noteq> []" using st(1) by (simp add: saveable_def)
  have id: "\<not> (ts_LoginID (saved_state st) = [] \<and> ts_Kind (saved_state st) \<noteq> TokenKindNonce)"
    by (rule saveable_saved [OF st(1)])
  let ?t = "ts_Token st"
  let ?a = "case U ?t of None \<Rightarrow> TokenState_Subject (saved_state st) | Some u \<Rightarrow> TokenState_Subject u"
  have live: "live_part now U ?t = Some e \<longleftrightarrow> U ?t = Some e \<and> \<not> IsExpired e now" for e
    by (auto simp: live_part_def split: option.split)
  have eval: "succeeds (cl_Eval (rs_rdb s c) saveScript
      [tokenKey s ?t, consumedMarkerKey s ?t, indexKey s ?a, indexKey s (TokenState_Subject (saved_state st)),
       legacySubjectKey s ''index'' ?a]
      [or_empty (V (tokenKey s ?t)), [], d, decimal (save_millis now (saved_state st) ttl), ?t])
    (\<lambda>x w'. x = 1 \<and> P w') v" if "ready v V M" for v
    by (rule script [OF that C d(2) refl])
  show ?thesis
    unfolding redis_saveTokenState_def
  proof (rule wp_step [OF ctx_ok [OF c r]], goal_cases)
    case (1 x v)
    then have r1: "ready v V M" .
    show ?case
      unfolding option.case saved_state_def [symmetric] Let_def if_not_P [OF ne] if_not_P [OF id] saved_Token
        save_millis_def [unfolded Let_def, symmetric]
    proof (rule wp_step [where P = "\<lambda>data w'. data = d \<and> ready w' V M"], goal_cases)
      case 1
      show ?case using r1 d(1) by (simp add: from_sum_def wp_ret)
    next
      case (2 data v)
      then have data: "data = d" and r2: "ready v V M" by simp_all
      show ?case
      proof (rule wp_step [OF read_ok [OF r2 C]], goal_cases)
        case (1 snap v)
        then have snap: "snap = (U ?t, or_empty (V (tokenKey s ?t)), [])" and r3: "ready v V M"
          by (simp_all add: snapshot_of_def)
        have "wp (redis_expect expected (U ?t))
          (\<lambda>_ w'. wp (bindE read_now (\<lambda>now'.
              bindE (cl_Eval (rs_rdb s c) saveScript
                [tokenKey s ?t, consumedMarkerKey s ?t, indexKey s ?a, indexKey s (TokenState_Subject (saved_state st)),
                 legacySubjectKey s ''index'' ?a]
                [or_empty (V (tokenKey s ?t)), [], d, decimal (save_millis now' (saved_state st) ttl), ?t])
               (\<lambda>result. if result \<noteq> 1 then throw ErrTokenInvalid else ret ())))
            (\<lambda>_ w'. P w'
               \<and> (\<forall>e. expected = Some e \<longrightarrow> live_part now U ?t = Some e))
            (\<lambda>x w'. x = ErrTokenInvalid \<and> redis_holding ready s U w'
               \<and> (\<exists>e. expected = Some e \<and> live_part now U ?t \<noteq> Some e)) w')
          (\<lambda>x w'. x = ErrTokenInvalid \<and> redis_holding ready s U w'
               \<and> (\<exists>e. expected = Some e \<and> live_part now U ?t \<noteq> Some e)) v"
        proof (rule wp_mono [OF expect_ok [OF r3]], goal_cases)
          case (1 x v)
          then have r4: "ready v V M" and match: "\<forall>e. expected = Some e \<longrightarrow> live_part now U ?t = Some e"
            by (auto simp: live)
          show ?case
          proof (rule wp_step [OF now_ok [OF r4]], goal_cases)
            case (1 t v)
            then have "t = now" "ready v V M" by simp_all
            then show ?case
              by (simp, intro wp_step [OF eval]) (use match in \<open>auto simp: wp_ret\<close>)
          qed
        next
          case (2 x v)
          then show ?case using holdingI [OF _ C] by (auto simp: live)
        qed
        then show ?case unfolding snap data prod.case by (subst wp_bindE)
      qed
    qed
  qed
qed

lemma saveTokenState_ok:
  assumes w: "redis_holding ready s U w" and c: "healthy c" and st: "saveable st" "redis_holds st"
  shows "wp (redis_saveTokenState s c expected (Some st) ttl)
    (\<lambda>_ w'. redis_holding ready s (U(ts_Token st \<mapsto> saved_state st)) w'
       \<and> (\<forall>e. expected = Some e \<longrightarrow> live_part now U (ts_Token st) = Some e))
    (\<lambda>x w'. x = ErrTokenInvalid \<and> redis_holding ready s U w'
       \<and> (\<exists>e. expected = Some e \<and> live_part now U (ts_Token st) \<noteq> Some e)) w"
proof (rule saveTokenState_runs [OF assms])
  fix V M d a v
  assume r: "ready v V M" and C: "redis_content s V M U" and d: "TokenState_Unmarshal d = Inr (saved_state st)"
    and a: "a = (case U (ts_Token st) of None \<Rightarrow> TokenState_Subject (saved_state st) | Some u \<Rightarrow> TokenState_Subject u)"
  show "succeeds (cl_Eval (rs_rdb s c) saveScript
        [tokenKey s (ts_Token st), consumedMarkerKey s (ts_Token st), indexKey s a,
         indexKey s (TokenState_Subject (saved_state st)), legacySubjectKey s ''index'' a]
        [or_empty (V (tokenKey s (ts_Token st))), [], d, decimal (save_millis now (saved_state st) ttl), ts_Token st])
      (\<lambda>x w'. x = 1 \<and> redis_holding ready s (U(ts_Token st \<mapsto> saved_state st)) w') v"
    unfolding redis_holding_def
    by (rule eval_save [OF r C refl save_millis_ok entry_ok_saved [OF st] d]) (simp add: a split: option.split)
qed

end


context redis_server begin

lemma retry_first: "succeeds m (\<lambda>r w'. \<exists>x. r = Some x \<and> Q x w') w \<Longrightarrow> succeeds (retry (Suc n) m) Q w"
  unfolding retry.simps by (erule wp_step) (auto simp: wp_ret)

lemma SaveTokenState_ok:
  assumes "redis_holding ready s U w" "healthy c" "saveable st" "redis_holds st"
  shows "succeeds (redis_SaveTokenState s c (Some st) ttl) (\<lambda>_. redis_holding ready s (U(ts_Token st \<mapsto> saved_state st))) w"
proof -
  have "succeeds (save_once s c (Some st) ttl)
      (\<lambda>r w'. \<exists>x. r = Some x \<and> redis_holding ready s (U(ts_Token st \<mapsto> saved_state st)) w') w"
    unfolding save_once_def wp_bindE wp_attempt
    by (rule wp_mono [OF saveTokenState_ok [OF assms, of None]]) (auto simp: wp_ret)
  then have "succeeds (retry (Suc 31) (save_once s c (Some st) ttl))
      (\<lambda>_. redis_holding ready s (U(ts_Token st \<mapsto> saved_state st))) w"
    by (rule retry_first)
  then show ?thesis by (simp add: redis_SaveTokenState_def)
qed

lemma CompareAndSwap_ok:
  assumes "redis_holding ready s U w" "healthy c" "saveable st" "redis_holds st" "ts_Token e = ts_Token st"
  shows "succeeds (redis_CompareAndSwapTokenState s c (Some e) (Some st) ttl)
    (\<lambda>b w'. b = (live_part now U (ts_Token st) = Some e)
       \<and> redis_holding ready s (if b then U(ts_Token st \<mapsto> saved_state st) else U) w') w"
  unfolding redis_CompareAndSwapTokenState_def prod.case option.case
  using assms(5) by (simp add: wp_bindE wp_attempt)
    (rule wp_mono [OF saveTokenState_ok [OF assms(1-4), of "Some e"]]; auto simp: wp_ret)

lemma holding_tick: "redis_holding ready s U w \<Longrightarrow> redis_holding ready s U (tick w)"
  by (auto simp: redis_holding_def intro: ready_tick)

lemma GetTokenState_ok:
  assumes w: "redis_holding ready s U w" and c: "healthy c"
  shows "succeeds (redis_GetTokenState s c t) (\<lambda>r w'. r = live_part now U t \<and> redis_rel ready s now w' (live_part now U)) w"
proof -
  from w obtain V M where r: "ready w V M" and C: "redis_content s V M U" by (auto simp: redis_holding_def)
  show ?thesis
    unfolding redis_GetTokenState_def
  proof (rule wp_step [OF ctx_ok [OF c r]], rule wp_step [OF read_ok [OF _ C]], assumption, goal_cases)
    case (1 x v' snap v)
    then have snap: "snap = snapshot_of U V s t" and r1: "ready v V M" by simp_all
    show ?case
    proof (cases "U t")
      case None
      then show ?thesis
        using holdingI [OF r1 C] by (auto simp: snap snapshot_of_def wp_ret redis_rel_holding live_part_def)
    next
      case (Some st)
      obtain raw where raw: "V (tokenKey s t) = Some raw"
        using redis_contentD(1) [OF C, of t] Some by (auto simp: raw_entry_def)
      show ?thesis
      proof (cases "IsExpired st now")
        case True
        have drop: "live_part now (U(t := None)) = live_part now U" "live_part now U t = None"
          using Some True by (auto simp: live_part_def fun_eq_iff)
        show ?thesis
          using Some True snapshot_deleted [OF ready_tick [OF r1] C Some raw, of c]
          by (simp add: snap snapshot_of_def raw or_empty_def wp_bindE wp_read_now clock [OF r1])
            (erule wp_mono; auto simp: wp_ret redis_rel_holding drop intro: holdingI intro!: exI [of _ "U(t := None)"])
      next
        case False
        then show ?thesis
          using Some holdingI [OF ready_tick [OF r1] C]
          by (auto simp: snap snapshot_of_def wp_bindE wp_read_now clock [OF r1] wp_ret redis_rel_holding live_part_def)
      qed
    qed
  qed
qed

lemma decide_stops:
  assumes "ready w V M" and "\<not> (IsActive st now \<and> (kind = [] \<or> ts_Kind st = kind))"
  shows "succeeds (consume_decide s c t kind (Some st, raw, marker))
    (\<lambda>x w'. x = Some (if IsExpired st now then None else Some st) \<and> ready w' V M) w"
  using assms by (auto simp: consume_decide_def wp_bindE wp_read_now clock [OF assms(1)] wp_ret ready_tick)

lemma decide_takes:
  assumes r: "ready w V M" and C: "redis_content s V M U" and Some: "U t = Some st" and raw: "V (tokenKey s t) = Some raw"
    and active: "IsActive st now" "kind = [] \<or> ts_Kind st = kind" and now: "time_ok now"
  shows "succeeds (consume_decide s c t kind (Some st, raw, []))
    (\<lambda>x w'. x = Some (Some st) \<and> redis_holding ready s (U(t \<mapsto> MarkConsumed st now)) w') w"
proof -
  let ?consumed = "MarkConsumed st now"
  have ok: "entry_ok t st" by (rule redis_contentD(2) [OF C Some])
  have plain: "state_plain ?consumed" using ok now by (simp add: entry_ok_def plain_MarkConsumed)
  then obtain d where d: "TokenState_Marshal ?consumed = Inr d" "TokenState_Unmarshal d = Inr ?consumed"
    by (rule plain_Marshal)
  have ok': "entry_ok t ?consumed" using ok plain by (auto simp: entry_ok_def normal_state_def cloned_def)
  have "succeeds (cl_Eval (rs_rdb s c) consumeScript [tokenKey s t, consumedMarkerKey s t] [raw, [], d])
      (\<lambda>x w'. x = 1 \<and> (\<exists>V M. ready w' V M \<and> redis_content s V M (U(t \<mapsto> ?consumed)))) v'" if "ready v' V M" for v'
    by (rule eval_consume [OF that C Some raw ok' d(2)]) (simp add: TokenState_Subject_def)
  from this [OF ready_tick [OF ready_tick [OF ready_tick [OF r]]]]
  show ?thesis
    using active d(1)
    by (simp add: consume_decide_def wp_bindE wp_read_now clock [OF r] Let_def from_sum_def wp_ret
        TokenState_Clone_entry [OF ok] IsActive_def)
      (rule conjI, blast, erule wp_mono; auto simp: wp_ret redis_holding_def)
qed

lemma consume_ok:
  assumes w: "redis_holding ready s U w" and c: "healthy c" and now: "time_ok now"
  shows "succeeds (redis_consumeTokenState s c t kind)
    (\<lambda>r w'. r = live_part now U t \<and> redis_rel ready s now w' (spend now kind t (live_part now U))) w"
proof -
  from w obtain V M where r: "ready w V M" and C: "redis_content s V M U" by (auto simp: redis_holding_def)
  let ?Q = "\<lambda>r w'. r = live_part now U t \<and> redis_rel ready s now w' (spend now kind t (live_part now U))"
  have once: "succeeds (consume_once s c t kind) (\<lambda>r w'. \<exists>x. r = Some x \<and> ?Q x w') v" if "ready v V M" for v
    unfolding consume_once_def
  proof (rule wp_step [OF read_ok [OF that C]], goal_cases)
    case (1 snap v)
    then have snap: "snap = (U t, or_empty (V (tokenKey s t)), [])" and r1: "ready v V M"
      by (simp_all add: snapshot_of_def)
    show ?case
    proof (cases "U t")
      case None
      then show ?thesis
        using holdingI [OF r1 C]
        by (auto simp: snap consume_decide_def wp_ret redis_rel_holding spend_def live_part_at)
    next
      case (Some st)
      obtain raw where raw: "V (tokenKey s t) = Some raw"
        using redis_contentD(1) [OF C, of t] Some by (auto simp: raw_entry_def)
      show ?thesis
      proof (cases "IsActive st now \<and> (kind = [] \<or> ts_Kind st = kind)")
        case True
        then have "live_part now U t = Some st" "\<not> IsExpired st now" using Some by (auto simp: live_part_at IsActive_def)
        then show ?thesis
          using True live_part_spent [of U t st now kind] Some unfolding snap raw
          by (simp add: or_empty_def)
            (rule wp_mono [OF decide_takes [OF r1 C Some raw _ _ now]]; auto simp: redis_rel_holding)
      next
        case False
        then have "spend now kind t (live_part now U) = live_part now U"
          using Some by (auto simp: spend_def live_part_at)
        then show ?thesis
          unfolding snap Some
          by (intro wp_mono [OF decide_stops [OF r1 False]])
            (auto simp: redis_rel_holding live_part_at Some intro: holdingI [OF _ C])
      qed
    qed
  qed
  show ?thesis
    unfolding redis_consumeTokenState_def
  proof (rule wp_step [OF ctx_ok [OF c r]], goal_cases)
    case (1 x v)
    then have "succeeds (retry (Suc 31) (consume_once s c t kind)) ?Q v" by (intro retry_first once)
    then show ?case by simp
  qed
qed

lemma DeleteTokenState_ok:
  assumes w: "redis_holding ready s U w" and c: "healthy c"
  shows "succeeds (redis_DeleteTokenState s c t) (\<lambda>_. redis_holding ready s (U(t := None))) w"
proof -
  from w obtain V M where r: "ready w V M" and C: "redis_content s V M U" by (auto simp: redis_holding_def)
  show ?thesis
    unfolding redis_DeleteTokenState_def
  proof (rule wp_step [OF ctx_ok [OF c r]], rule wp_step [OF read_ok [OF _ C]], assumption, goal_cases)
    case (1 x v' snap v)
    then have snap: "snap = snapshot_of U V s t" and r1: "ready v V M" by simp_all
    show ?case
    proof (cases "U t")
      case None
      then have "U(t := None) = U" by auto
      with None show ?thesis using holdingI [OF r1 C] by (simp add: snap snapshot_of_def wp_ret)
    next
      case (Some st)
      obtain raw where raw: "V (tokenKey s t) = Some raw"
        using redis_contentD(1) [OF C, of t] Some by (auto simp: raw_entry_def)
      show ?thesis
        using Some snapshot_deleted [OF r1 C Some raw, of c]
        by (simp add: snap snapshot_of_def raw or_empty_def wp_bindE) (erule wp_mono; auto simp: wp_ret intro: holdingI)
    qed
  qed
qed

end


subsection \<open>Finding and deleting the tokens of a subject\<close>

definition match_state :: "LoginSubject \<Rightarrow> TokenKind list \<Rightarrow> token_table \<Rightarrow> TokenValue \<Rightarrow> TokenState option" where
  "match_state subject kinds T m = (case T m of None \<Rightarrow> None | Some st \<Rightarrow> if owned_by subject kinds st then Some st else None)"

lemma match_state_Some: "match_state subject kinds T m = Some st \<longleftrightarrow> T m = Some st \<and> owned_by subject kinds st"
  by (auto simp: match_state_def split: option.splits if_splits)

lemma set_map_filter_match:
  "set (List.map_filter f xs) = {y. \<exists>x \<in> set xs. f x = Some y}"
  by (induction xs) (auto split: option.split)

lemma distinct_matches:
  assumes "distinct ms" "\<And>m st. T m = Some st \<Longrightarrow> ts_Token st = m"
  shows "distinct (map ts_Token (List.map_filter (match_state subject kinds T) ms))"
  using assms(1)
proof (induction ms)
  case (Cons m ms)
  have "m \<notin> ts_Token ` set (List.map_filter (match_state subject kinds T) ms)"
    using Cons.prems assms(2) by (auto simp: set_map_filter_match match_state_Some)
  with Cons assms(2) show ?case by (auto simp: match_state_Some split: option.split)
qed simp

context redis_server begin

lemma find_members_ok:
  assumes "ready w V M" "redis_content s V M U" "live_part now U = T"
    and "distinct ms" "set ms \<inter> seen = {}"
    and "\<And>m. m \<in> set ms \<Longrightarrow> U m = U0 m \<and> V (tokenKey s m) = V0 (tokenKey s m) \<and> U0 m \<noteq> None"
    and "\<And>j. j < length ms \<Longrightarrow> vs ! (2 * (i + j)) = V0 (tokenKey s (ms ! j)) \<and> vs ! (2 * (i + j) + 1) = None"
  shows "succeeds (find_members s c (LoginSubject_Normalize subject) kinds index vs i ms seen result)
    (\<lambda>r w'. r = (seen \<union> set ms, result @ map Some (List.map_filter (match_state subject kinds T) ms))
       \<and> redis_rel ready s now w' T) w"
  using assms
proof (induction ms arbitrary: w V M U i seen result)
  case Nil
  then show ?case by (auto simp: wp_ret redis_rel_def)
next
  case (Cons m ms)
  note r = Cons.prems(1) and C = Cons.prems(2) and T = Cons.prems(3)
  obtain st where st: "U m = Some st" using Cons.prems(6) [of m] by auto
  obtain raw where raw: "V (tokenKey s m) = Some raw"
    using redis_contentD(1) [OF C, of m] st by (auto simp: raw_entry_def)
  have ok: "entry_ok m st" by (rule redis_contentD(2) [OF C st])
  have vs: "vs ! (2 * i) = V (tokenKey s m)" "vs ! (2 * i + 1) = None"
    using Cons.prems(7) [of 0] Cons.prems(6) [of m] by simp_all
  have dec: "decodeToken (vs ! (2 * i)) (vs ! (2 * i + 1)) = Inr (Some st, raw, [])"
    using decode_ok [OF C, of m] st raw unfolding vs by (simp add: snapshot_of_def or_empty_def)
  have rest: "vs ! (2 * (Suc i + j)) = V0 (tokenKey s (ms ! j)) \<and> vs ! (2 * (Suc i + j) + 1) = None" if "j < length ms" for j
    using Cons.prems(7) [of "Suc j"] that by simp
  have go: "succeeds (find_members s c (LoginSubject_Normalize subject) kinds index vs (Suc i) ms (insert m seen) result')
      (\<lambda>r w'. r = (insert m seen \<union> set ms, result' @ map Some (List.map_filter (match_state subject kinds T) ms))
         \<and> redis_rel ready s now w' T) w'"
    if "ready w' V' M'" "redis_content s V' M' U'" "live_part now U' = T"
      "\<And>k. k \<noteq> m \<Longrightarrow> U' k = U k \<and> V' (tokenKey s k) = V (tokenKey s k)" for w' V' M' U' result'
  proof (rule Cons.IH [OF that(1-3) _ _ _ rest])
    show "distinct ms" "set ms \<inter> insert m seen = {}" using Cons.prems(4,5) by auto
    fix k assume k: "k \<in> set ms"
    then have "k \<noteq> m" using Cons.prems(4) by auto
    with that(4) [of k] Cons.prems(6) [of k] k
    show "U' k = U0 k \<and> V' (tokenKey s k) = V0 (tokenKey s k) \<and> U0 k \<noteq> None" by simp
  qed
  have skip: "m \<notin> seen" using Cons.prems(5) by simp
  show ?case
  proof (cases "IsExpired st now")
    case True
    have drop: "live_part now (U(m := None)) = T"
      using st True unfolding T [symmetric] by (auto simp: live_part_def fun_eq_iff)
    have no: "match_state subject kinds T m = None"
      using st True unfolding T [symmetric] by (auto simp: match_state_def live_part_def)
    have "succeeds (deleteSnapshot s c m (TokenState_Subject st) raw [])
        (\<lambda>x. succeeds (find_members s c (LoginSubject_Normalize subject) kinds index vs (Suc i) ms (insert m seen) result)
          (\<lambda>r w'. r = (insert m seen \<union> set ms, result @ map Some (List.map_filter (match_state subject kinds T) ms))
             \<and> redis_rel ready s now w' T)) (tick w)"
      by (rule wp_mono [OF snapshot_deleted [OF ready_tick [OF r] C st raw]], elim conjE exE)
        (rule go [OF _ _ drop], (assumption | simp)+)
    then show ?thesis
      using skip dec True no by (simp add: Let_def from_sum_def wp_ret wp_bindE wp_read_now clock [OF r])
  next
    case False
    have live: "T m = Some st" using T st False by (auto simp: live_part_Some)
    note go' = go [OF ready_tick [OF r] C T]
    show ?thesis
    proof (cases "owned_by subject kinds st")
      case True
      then have "match_state subject kinds T m = Some st" using live by (simp add: match_state_Some)
      then show ?thesis
        using skip dec False True go' [of "result @ [Some st]"]
        by (simp add: Let_def from_sum_def wp_ret wp_bindE wp_read_now clock [OF r] owned_by_def)
    next
      case False': False
      then have "match_state subject kinds T m = None" using live by (simp add: match_state_def)
      then show ?thesis
        using skip dec False False' go' [of result]
        by (auto simp add: Let_def from_sum_def wp_ret wp_bindE wp_read_now clock [OF r] owned_by_def)
    qed
  qed
qed

lemma nth_find_keys_marker: "j < length members \<Longrightarrow> find_keys s members ! (2 * j + 1) = consumedMarkerKey s (members ! j)"
proof (induction members arbitrary: j)
  case (Cons m ms)
  then show ?case by (cases j) (simp_all add: find_keys_def)
qed simp

lemma find_ok:
  assumes w: "redis_rel ready s now w T" and c: "healthy c"
  shows "succeeds (redis_FindTokenStates s c subject kinds)
    (\<lambda>r w'. (\<exists>sts. r = map Some sts \<and> distinct (map ts_Token sts) \<and> set sts = owned subject kinds T)
       \<and> redis_rel ready s now w' T) w"
proof -
  from w obtain V M U where r: "ready w V M" and C: "redis_content s V M U" and T: "live_part now U = T"
    by (auto simp: redis_rel_def)
  note D = redis_contentD [OF C]
  let ?key = "LoginSubject_Normalize subject"
  let ?found = "\<lambda>r w'. (\<exists>sts. r = map Some sts \<and> distinct (map ts_Token sts) \<and> set sts = owned subject kinds T)
       \<and> redis_rel ready s now w' T"
  have tok: "ts_Token st = m" if "T m = Some st" for m st
    using that T D(2) [of m st] by (auto simp: live_part_Some entry_ok_def)
  have legacy: "succeeds (find_indexes s c ?key kinds [legacySubjectKey s ''index'' ?key] seen result) ?found v"
    if "redis_rel ready s now v T" "\<exists>sts. result = map Some sts \<and> distinct (map ts_Token sts) \<and> set sts = owned subject kinds T"
    for v seen result
  proof -
    from that(1) obtain V M U where r: "ready v V M" and C: "redis_content s V M U" and T: "live_part now U = T"
      by (auto simp: redis_rel_def)
    show ?thesis
      unfolding find_indexes.simps
      by (rule wp_step [OF SMembers [OF r redis_contentD(5) [OF C]]])
        (use redis_contentD(6) [OF C] that(2) C T in \<open>auto simp: wp_ret redis_rel_def\<close>)
  qed
  have "succeeds (find_indexes s c ?key kinds [indexKey s ?key, legacySubjectKey s ''index'' ?key] {} []) ?found v"
    if r: "ready v V M" for v
  proof (subst find_indexes.simps(2), rule wp_step [OF SMembers [OF r D(4)]], goal_cases)
    case (1 ms v)
    then have ms: "distinct ms" "set ms = M (indexKey s ?key)" and r1: "ready v V M" by simp_all
    have owned: "set (List.map_filter (match_state subject kinds T) ms) = owned subject kinds T"
    proof -
      have "k \<in> set ms" if "T k = Some st" "owned_by subject kinds st" for k st
        using D(7) [of ?key] ms(2) that T by (auto simp: live_part_Some owned_by_def)
      then show ?thesis by (auto simp: set_map_filter_match match_state_Some owned_def)
    qed
    show ?case
    proof (cases "ms = []")
      case True
      have "succeeds (find_indexes s c ?key kinds [legacySubjectKey s ''index'' ?key] {} []) ?found v"
        by (rule legacy) (use r1 C T owned True in \<open>auto simp: redis_rel_def\<close>)
      with True show ?thesis by simp
    next
      case False
      have "\<forall>k \<in> set (find_keys s ms). M k = {}" using D(3,9) by (auto simp: find_keys_def)
      then show ?thesis
        unfolding if_not_P [OF False]
      proof (rule wp_step [OF MGet [OF r1]], goal_cases)
        case (1 vs v)
        then have vs: "vs = map V (find_keys s ms)" and r2: "ready v V M" by simp_all
        have nth: "vs ! (2 * (0 + j)) = V (tokenKey s (ms ! j)) \<and> vs ! (2 * (0 + j) + 1) = None" if "j < length ms" for j
          using that D(8) by (simp add: vs nth_find_keys nth_find_keys_marker [unfolded Suc_eq_plus1 [symmetric]])
        have here: "U m = U m \<and> V (tokenKey s m) = V (tokenKey s m) \<and> U m \<noteq> None" if "m \<in> set ms" for m
          using that ms(2) D(7) [of ?key] by auto
        show ?case
          by (rule wp_step [OF find_members_ok [OF r2 C T ms(1) _ here nth]])
            (use ms(1) owned distinct_matches [OF ms(1) tok] in \<open>auto simp del: find_indexes.simps intro!: legacy\<close>)
      qed
    qed
  qed
  then show ?thesis
    unfolding redis_FindTokenStates_def Let_def by (rule wp_step [OF ctx_ok [OF c r]])
qed

lemma delete_states_ok:
  assumes "redis_holding ready s U w" "distinct (map ts_Token sts)"
    and "\<And>st. st \<in> set sts \<Longrightarrow> U (ts_Token st) = Some st \<and> owned_by subject kinds st"
  shows "succeeds (delete_states s c subject kinds (map Some sts))
    (\<lambda>_. redis_holding ready s (\<lambda>k. if k \<in> ts_Token ` set sts then None else U k)) w"
  using assms
proof (induction sts arbitrary: w U)
  case Nil
  then show ?case by (simp add: wp_ret)
next
  case (Cons st sts)
  from Cons.prems(1) obtain V M where r: "ready w V M" and C: "redis_content s V M U" by (auto simp: redis_holding_def)
  have st: "U (ts_Token st) = Some st" "owned_by subject kinds st" using Cons.prems(3) by simp_all
  obtain raw where raw: "V (tokenKey s (ts_Token st)) = Some raw"
    using redis_contentD(1) [OF C, of "ts_Token st"] st by (auto simp: raw_entry_def)
  have own: "(LoginSubject_Normalize (TokenState_Subject st) \<noteq> LoginSubject_Normalize subject \<or> \<not> MatchKind (ts_Kind st) kinds) = False"
    using st(2) by (simp add: owned_by_def)
  have go: "succeeds (delete_states s c subject kinds (map Some sts))
      (\<lambda>_. redis_holding ready s (\<lambda>k. if k \<in> ts_Token ` set (st # sts) then None else U k)) v"
    if "redis_holding ready s (U(ts_Token st := None)) v" for v
  proof -
    have "(\<lambda>k. if k \<in> ts_Token ` set sts then None else (U(ts_Token st := None)) k)
        = (\<lambda>k. if k \<in> ts_Token ` set (st # sts) then None else U k)" by auto
    moreover have "(U(ts_Token st := None)) (ts_Token u) = Some u \<and> owned_by subject kinds u" if "u \<in> set sts" for u
    proof -
      have "ts_Token u \<noteq> ts_Token st" using Cons.prems(2) that by (auto simp: image_iff)
      with Cons.prems(3) [of u] that show ?thesis by simp
    qed
    ultimately show ?thesis using Cons.IH [OF that] Cons.prems(2) by (simp add: fun_upd_def)
  qed
  show ?case
    unfolding list.map delete_states.simps option.case
  proof (rule wp_step [OF read_ok [OF r C]], goal_cases)
    case (1 snap v)
    then have snap: "snap = (Some st, raw, [])" and r1: "ready v V M"
      by (simp_all add: snapshot_of_def st raw or_empty_def)
    show ?case
      unfolding snap prod.case option.case own if_False
      by (rule wp_step [OF snapshot_deleted [OF r1 C st(1) raw]])
        (elim conjE exE, simp only: not_True_eq_False if_False, erule (1) go [OF holdingI])
  qed
qed

lemma delete_all_ok:
  assumes w: "redis_rel ready s now w T" and c: "healthy c"
  shows "succeeds (redis_DeleteTokenStates s c subject kinds)
    (\<lambda>_ w'. redis_rel ready s now w' (without_owned subject kinds T)) w"
  unfolding redis_DeleteTokenStates_def
proof (rule wp_step [OF find_ok [OF w c]], goal_cases)
  case (1 r v)
  then obtain sts U where sts: "r = map Some sts" "distinct (map ts_Token sts)" "set sts = owned subject kinds T"
    and U: "redis_holding ready s U v" "T = live_part now U" by (auto simp: redis_rel_holding)
  have tok: "ts_Token st = k" if "U k = Some st" for k st
    using U(1) redis_contentD(2) [of s _ _ U k st] that by (auto simp: redis_holding_def entry_ok_def)
  have own: "U (ts_Token st) = Some st \<and> owned_by subject kinds st" if "st \<in> set sts" for st
    using that sts(3) U(2) tok by (auto simp: owned_def live_part_Some)
  have "live_part now (\<lambda>k. if k \<in> ts_Token ` set sts then None else U k) = without_owned subject kinds T"
  proof
    fix k
    show "live_part now (\<lambda>k. if k \<in> ts_Token ` set sts then None else U k) k = without_owned subject kinds T k"
    proof (cases "T k")
      case None
      then show ?thesis using U(2) by (auto simp: live_part_def without_owned_def split: option.splits if_splits)
    next
      case (Some st)
      then have k: "U k = Some st" "ts_Token st = k" using U(2) tok by (auto simp: live_part_Some)
      have "k \<in> ts_Token ` set sts \<longleftrightarrow> owned_by subject kinds st"
      proof
        assume "k \<in> ts_Token ` set sts"
        then obtain st' where "st' \<in> set sts" "ts_Token st' = k" by auto
        with own [of st'] k show "owned_by subject kinds st" by auto
      next
        assume "owned_by subject kinds st"
        with Some sts(3) k show "k \<in> ts_Token ` set sts" by (force simp: owned_def)
      qed
      with Some U(2) k show ?thesis by (auto simp: live_part_def without_owned_def)
    qed
  qed
  then show ?case
    unfolding sts(1) by (intro wp_mono [OF delete_states_ok [OF U(1) sts(2) own]]) (auto simp: redis_rel_holding)
qed

end

end
