(* ===== verification/Redis_Server.thy ===== *)
theory Redis_Server
  imports Redis_Safe
begin

text \<open>
  A server on which the laws of Redis hold: one keyspace of strings, which may have an expiry, and of
  sets, with the answers that the documentation of the commands gives. It shows that the laws can be
  met; the store itself is modelled over any server.
\<close>

datatype redis_value = RString string "time option" | RSet "string list"

record redis_world = env +
  rw_keys :: "string \<Rightarrow> redis_value option"

type_synonym ('x, 'a) rop = "('x redis_world_scheme, error, 'a) op"

definition new_redis_world :: "env \<Rightarrow> redis_world" where
  "new_redis_world e = env.extend e (redis_world.fields (\<lambda>_. None))"

definition WRONGTYPE :: error where
  "WRONGTYPE = ErrLibrary ''WRONGTYPE''"

definition server_now :: "'x redis_world_scheme \<Rightarrow> time" where
  "server_now w = env_clock w (env_tick w)"

text \<open>The value of a key; one whose expiry has passed is gone.\<close>

definition visible :: "'x redis_world_scheme \<Rightarrow> string \<Rightarrow> redis_value option" where
  "visible w k =
     (case rw_keys w k of
        Some (RString v (Some t)) \<Rightarrow> if server_now w < t then Some (RString v (Some t)) else None
      | x \<Rightarrow> x)"

definition set_key :: "string \<Rightarrow> redis_value option \<Rightarrow> 'x redis_world_scheme \<Rightarrow> 'x redis_world_scheme" where
  "set_key k v w = w\<lparr>rw_keys := (rw_keys w)(k := v)\<rparr>"

definition server_GET :: "string \<Rightarrow> ('x, string option) rop" where
  "server_GET k = (\<lambda>w. case visible w k of
     None \<Rightarrow> (Inr None, w) | Some (RString v e) \<Rightarrow> (Inr (Some v), w) | Some (RSet ms) \<Rightarrow> (Inl WRONGTYPE, w))"

definition server_SET :: "string \<Rightarrow> string \<Rightarrow> set_option \<Rightarrow> ('x, unit) rop" where
  "server_SET k v opt = (\<lambda>w. case opt of
     SetPlain \<Rightarrow> (Inr (), set_key k (Some (RString v None)) w)
   | SetKeepTTL \<Rightarrow>
       (Inr (), set_key k (Some (RString v (case visible w k of Some (RString u e) \<Rightarrow> e | _ \<Rightarrow> None))) w)
   | SetPX m \<Rightarrow>
       (case ParseInt m of
          Some n \<Rightarrow>
            if n > 0 then (Inr (), set_key k (Some (RString v (Some (server_now w + n * Millisecond)))) w)
            else (Inl (ErrLibrary ''invalid expire time''), w)
        | None \<Rightarrow> (Inl (ErrLibrary ''value is not an integer or out of range''), w)))"

definition server_DEL :: "string list \<Rightarrow> ('x, int) rop" where
  "server_DEL ks = (\<lambda>w.
     (Inr (int (card {k \<in> set ks. visible w k \<noteq> None})), w\<lparr>rw_keys := (\<lambda>k. if k \<in> set ks then None else rw_keys w k)\<rparr>))"

definition server_SREM :: "string \<Rightarrow> string \<Rightarrow> ('x, int) rop" where
  "server_SREM k m = (\<lambda>w. case visible w k of
     None \<Rightarrow> (Inr 0, w)
   | Some (RString v e) \<Rightarrow> (Inl WRONGTYPE, w)
   | Some (RSet ms) \<Rightarrow>
       let ms' = removeAll m ms
       in (Inr (if m \<in> set ms then 1 else 0), set_key k (if ms' = [] then None else Some (RSet ms')) w))"

definition server_SADD :: "string \<Rightarrow> string \<Rightarrow> ('x, int) rop" where
  "server_SADD k m = (\<lambda>w. case visible w k of
     None \<Rightarrow> (Inr 1, set_key k (Some (RSet [m])) w)
   | Some (RString v e) \<Rightarrow> (Inl WRONGTYPE, w)
   | Some (RSet ms) \<Rightarrow> (Inr (if m \<in> set ms then 0 else 1), set_key k (Some (RSet (List.insert m ms))) w))"

text \<open>Only strings are given an expiry here.\<close>

definition server_expire :: "string \<Rightarrow> time option \<Rightarrow> ('x, int) rop" where
  "server_expire k e = (\<lambda>w. case visible w k of
     Some (RString v _) \<Rightarrow> (Inr 1, set_key k (Some (RString v e)) w) | _ \<Rightarrow> (Inr 0, w))"

definition server_PEXPIRE :: "string \<Rightarrow> string \<Rightarrow> ('x, int) rop" where
  "server_PEXPIRE k m = (\<lambda>w. case ParseInt m of
     Some n \<Rightarrow> server_expire k (Some (server_now w + n * Millisecond)) w
   | None \<Rightarrow> (Inl (ErrLibrary ''value is not an integer or out of range''), w))"

definition server_calls :: "'x redis_world_scheme redis_calls" where
  "server_calls = \<lparr>call_GET = server_GET, call_SET = server_SET, call_DEL = server_DEL, call_SREM = server_SREM,
     call_SADD = server_SADD, call_PEXPIRE = server_PEXPIRE, call_PERSIST = (\<lambda>k. server_expire k None)\<rparr>"

definition server_MGet :: "string list \<Rightarrow> ('x, string option list) rop" where
  "server_MGet ks = (\<lambda>w. (Inr (map (\<lambda>k. case visible w k of Some (RString v e) \<Rightarrow> Some v | _ \<Rightarrow> None) ks), w))"

definition server_SMembers :: "string \<Rightarrow> ('x, string list) rop" where
  "server_SMembers k = (\<lambda>w. case visible w k of
     None \<Rightarrow> (Inr [], w) | Some (RSet ms) \<Rightarrow> (Inr ms, w) | Some (RString v e) \<Rightarrow> (Inl WRONGTYPE, w))"

definition server_client :: "'x redis_world_scheme redis_client" where
  "server_client = \<lparr>cl_MGet = server_MGet, cl_Get = server_GET, cl_SMembers = server_SMembers,
     cl_Eval = (\<lambda>script ks args. script server_calls (lua_array ks) (lua_array args))\<rparr>"

definition server_store :: "string \<Rightarrow> 'x redis_world_scheme redis_Store" where
  "server_store key_prefix = \<lparr>rs_rdb = (\<lambda>_. server_client), rs_prefix = key_prefix\<rparr>"

definition server_values :: "'x redis_world_scheme \<Rightarrow> (string \<times> string) set" where
  "server_values w = {(k, v). \<exists>e. rw_keys w k = Some (RString v e)}"

subsection \<open>It is faithful\<close>

lemma visible_held: "visible w k = Some (RString v e) \<Longrightarrow> rw_keys w k = Some (RString v e)"
  by (auto simp: visible_def split: option.splits redis_value.splits if_splits)

lemma all_values_server:
  "all_values server_values P w \<longleftrightarrow> (\<forall>k v e. rw_keys w k = Some (RString v e) \<longrightarrow> P k v)"
  by (auto simp: all_values_def server_values_def)

lemma all_values_set_key:
  "all_values server_values P w \<Longrightarrow> (\<And>v e. x = Some (RString v e) \<Longrightarrow> P k v) \<Longrightarrow>
   all_values server_values P (set_key k x w)"
  by (auto simp: all_values_server set_key_def)

lemma visible_value: "all_values server_values P w \<Longrightarrow> visible w k = Some (RString v e) \<Longrightarrow> P k v"
  by (auto simp: all_values_server dest: visible_held)

lemmas server_defs = server_GET_def server_SET_def server_DEL_def server_SREM_def server_SADD_def
  server_expire_def server_PEXPIRE_def server_MGet_def server_SMembers_def

interpretation server: faithful_redis server_values server_calls "server_store key_prefix" other for key_prefix other
proof (unfold_locales, goal_cases)
  case 1 show ?case by (simp add: server_values_def tick_def)
next
  case 2 show ?case by (simp add: server_values_def)
next
  case (3 P c ks) show ?case
    by (rule keepsI) (auto simp: server_store_def server_client_def server_defs visible_value
        split: option.splits redis_value.splits)
next
  case (4 P c k) show ?case
    by (rule keepsI) (auto simp: server_store_def server_client_def server_defs visible_value
        split: option.splits redis_value.splits)
next
  case (5 P c k) show ?case
    by (rule keepsI) (auto simp: server_store_def server_client_def server_defs
        split: option.splits redis_value.splits)
next
  case (6 P script ks args c) then show ?case by (simp add: server_store_def server_client_def)
next
  case (7 P k) show ?case
    by (rule keepsI) (auto simp: server_calls_def server_defs visible_value split: option.splits redis_value.splits)
next
  case (8 P k v opt) then show ?case
    by (intro keepsI) (auto simp: server_calls_def server_defs intro!: all_values_set_key
        split: option.splits redis_value.splits set_option.splits)
next
  case (9 P ks) show ?case
    by (rule keepsI) (auto simp: server_calls_def server_defs all_values_server split: if_splits)
next
  case (10 P k m) show ?case
    by (rule keepsI) (auto simp: server_calls_def server_defs Let_def intro!: all_values_set_key
        split: option.splits redis_value.splits)
next
  case (11 P k m) show ?case
    by (rule keepsI) (auto simp: server_calls_def server_defs intro!: all_values_set_key
        split: option.splits redis_value.splits)
next
  case (12 P k m) show ?case
    by (rule keepsI) (auto simp: server_calls_def server_defs visible_value intro!: all_values_set_key
        split: option.splits redis_value.splits)
next
  case (13 P k) show ?case
    by (rule keepsI) (auto simp: server_calls_def server_defs visible_value intro!: all_values_set_key
        split: option.splits redis_value.splits)
qed

end
