(* ===== verification/Config.thy ===== *)
theory Config
  imports Core_Env
begin

text \<open>
  The configuration of a Manager (\<open>core/config.go\<close>, and the groups of \<open>core/refresh.go\<close> and
  \<open>core/nonce.go\<close>) and the functional options of its methods (\<open>core/option.go\<close>,
  \<open>core/nonce.go\<close>, \<open>core/online.go\<close>, \<open>core/refresh.go\<close>).
\<close>

subsection \<open>Configuration\<close>

definition DefaultTokenName :: string where "DefaultTokenName = ''token''"
definition DefaultRefreshTimeout :: duration where "DefaultRefreshTimeout = 7 * 24 * Hour"
definition DefaultNonceTimeout :: duration where "DefaultNonceTimeout = 5 * Minute"
definition DefaultNonceLength :: int where "DefaultNonceLength = 32"

record RefreshConfig =
  rc_Timeout :: duration
  rc_RotateRefreshToken :: bool
  rc_RevokeAccessTokenOnRefresh :: bool
  rc_RevokeRefreshOnLogout :: bool

definition DefaultRefreshConfig :: RefreshConfig where
  "DefaultRefreshConfig = \<lparr>rc_Timeout = DefaultRefreshTimeout, rc_RotateRefreshToken = True,
     rc_RevokeAccessTokenOnRefresh = True, rc_RevokeRefreshOnLogout = True\<rparr>"

definition RefreshConfig_withDefaults :: "RefreshConfig \<Rightarrow> RefreshConfig" where
  "RefreshConfig_withDefaults c =
     (let defaults = DefaultRefreshConfig;
          c = (if rc_Timeout c = 0 then c\<lparr>rc_Timeout := rc_Timeout defaults\<rparr> else c)
      in if \<not> rc_RotateRefreshToken c \<and> \<not> rc_RevokeAccessTokenOnRefresh c
            \<and> \<not> rc_RevokeRefreshOnLogout c
         then c\<lparr>rc_RotateRefreshToken := rc_RotateRefreshToken defaults,
                rc_RevokeAccessTokenOnRefresh := rc_RevokeAccessTokenOnRefresh defaults,
                rc_RevokeRefreshOnLogout := rc_RevokeRefreshOnLogout defaults\<rparr>
         else c)"

record NonceConfig =
  nc_Timeout :: duration
  nc_Length :: int

definition DefaultNonceConfig :: NonceConfig where
  "DefaultNonceConfig = \<lparr>nc_Timeout = DefaultNonceTimeout, nc_Length = DefaultNonceLength\<rparr>"

definition NonceConfig_withDefaults :: "NonceConfig \<Rightarrow> NonceConfig" where
  "NonceConfig_withDefaults c =
     (let c = (if nc_Timeout c \<le> 0 then c\<lparr>nc_Timeout := DefaultNonceTimeout\<rparr> else c)
      in if nc_Length c \<le> 0 then c\<lparr>nc_Length := DefaultNonceLength\<rparr> else c)"

record Config =
  cf_TokenName :: string
  cf_TokenPrefix :: string
  cf_Timeout :: duration
  cf_ActiveTimeout :: duration
  cf_AutoRenew :: bool
  cf_Concurrent :: bool
  cf_RequireNonce :: bool
  cf_Refresh :: RefreshConfig
  cf_Nonce :: NonceConfig

definition DefaultConfig :: Config where
  "DefaultConfig = \<lparr>cf_TokenName = DefaultTokenName, cf_TokenPrefix = [],
     cf_Timeout = 30 * 24 * Hour, cf_ActiveTimeout = 0, cf_AutoRenew = False,
     cf_Concurrent = True, cf_RequireNonce = False,
     cf_Refresh = DefaultRefreshConfig, cf_Nonce = DefaultNonceConfig\<rparr>"

lemma RefreshConfig_withDefaults_idem [simp]:
  "RefreshConfig_withDefaults (RefreshConfig_withDefaults c) = RefreshConfig_withDefaults c"
  by (simp add: RefreshConfig_withDefaults_def DefaultRefreshConfig_def Let_def
      DefaultRefreshTimeout_def Hour_def Minute_def Second_def)

lemma NonceConfig_withDefaults_idem [simp]:
  "NonceConfig_withDefaults (NonceConfig_withDefaults c) = NonceConfig_withDefaults c"
  by (simp add: NonceConfig_withDefaults_def Let_def DefaultNonceTimeout_def DefaultNonceLength_def
      Minute_def Second_def)

text \<open>After the defaults, a nonce has a positive lifetime and length, and some refresh flag is set.\<close>

lemma NonceConfig_withDefaults_pos:
  "0 < nc_Timeout (NonceConfig_withDefaults c)" "0 < nc_Length (NonceConfig_withDefaults c)"
  by (auto simp: NonceConfig_withDefaults_def Let_def DefaultNonceTimeout_def
      DefaultNonceLength_def Minute_def Second_def)

lemma RefreshConfig_withDefaults_flags:
  "rc_RotateRefreshToken (RefreshConfig_withDefaults c)
   \<or> rc_RevokeAccessTokenOnRefresh (RefreshConfig_withDefaults c)
   \<or> rc_RevokeRefreshOnLogout (RefreshConfig_withDefaults c)"
  by (auto simp: RefreshConfig_withDefaults_def DefaultRefreshConfig_def Let_def)

subsection \<open>Options of the methods\<close>

record loginOptions =
  lo_loginType :: string
  lo_device :: string
  lo_metadata :: RawMessage
  lo_nonce :: TokenValue
  lo_preserveRefresh :: TokenValue

definition default_loginOptions :: loginOptions where
  "default_loginOptions = \<lparr>lo_loginType = DefaultLoginType, lo_device = [], lo_metadata = None,
     lo_nonce = [], lo_preserveRefresh = []\<rparr>"

definition WithLoginType :: "string \<Rightarrow> loginOptions go_option" where
  "WithLoginType loginType = Some (\<lambda>opts.
     let value = TrimSpace loginType in if value \<noteq> [] then opts\<lparr>lo_loginType := value\<rparr> else opts)"

definition WithDevice :: "string \<Rightarrow> loginOptions go_option" where
  "WithDevice device = Some (\<lambda>opts. opts\<lparr>lo_device := TrimSpace device\<rparr>)"

definition WithMetadata :: "RawMessage \<Rightarrow> loginOptions go_option" where
  "WithMetadata metadata = Some (\<lambda>opts. opts\<lparr>lo_metadata := cloneRawMessage metadata\<rparr>)"

definition WithNonce :: "TokenValue \<Rightarrow> loginOptions go_option" where
  "WithNonce nonce = Some (\<lambda>opts. opts\<lparr>lo_nonce := TrimSpace nonce\<rparr>)"

record logoutOptions =
  go_loginType :: string
  go_deleteSession :: bool

definition default_logoutOptions :: logoutOptions where
  "default_logoutOptions = \<lparr>go_loginType = DefaultLoginType, go_deleteSession = False\<rparr>"

definition WithLogoutLoginType :: "string \<Rightarrow> logoutOptions go_option" where
  "WithLogoutLoginType loginType = Some (\<lambda>opts.
     let value = TrimSpace loginType in if value \<noteq> [] then opts\<lparr>go_loginType := value\<rparr> else opts)"

definition WithDeleteSession :: "bool \<Rightarrow> logoutOptions go_option" where
  "WithDeleteSession deleteSession = Some (\<lambda>opts. opts\<lparr>go_deleteSession := deleteSession\<rparr>)"

record sessionOptions =
  so_loginType :: string

definition default_sessionOptions :: sessionOptions where
  "default_sessionOptions = \<lparr>so_loginType = DefaultLoginType\<rparr>"

definition WithSessionLoginType :: "string \<Rightarrow> sessionOptions go_option" where
  "WithSessionLoginType loginType = Some (\<lambda>opts.
     let value = TrimSpace loginType in if value \<noteq> [] then opts\<lparr>so_loginType := value\<rparr> else opts)"

record listTokenOptions =
  lt_loginType :: string

definition default_listTokenOptions :: listTokenOptions where
  "default_listTokenOptions = \<lparr>lt_loginType = DefaultLoginType\<rparr>"

definition WithListLoginType :: "string \<Rightarrow> listTokenOptions go_option" where
  "WithListLoginType loginType = Some (\<lambda>opts.
     let value = TrimSpace loginType in if value \<noteq> [] then opts\<lparr>lt_loginType := value\<rparr> else opts)"

record refreshFlowOptions =
  rf_nextRefreshToken :: TokenValue
  rf_device :: string
  rf_metadata :: RawMessage

definition default_refreshFlowOptions :: refreshFlowOptions where
  "default_refreshFlowOptions = \<lparr>rf_nextRefreshToken = [], rf_device = [], rf_metadata = None\<rparr>"

definition WithNextRefreshToken :: "TokenValue \<Rightarrow> refreshFlowOptions go_option" where
  "WithNextRefreshToken token = Some (\<lambda>opts. opts\<lparr>rf_nextRefreshToken := TrimSpace token\<rparr>)"

definition WithRefreshDevice :: "string \<Rightarrow> refreshFlowOptions go_option" where
  "WithRefreshDevice device = Some (\<lambda>opts. opts\<lparr>rf_device := TrimSpace device\<rparr>)"

definition WithRefreshMetadata :: "RawMessage \<Rightarrow> refreshFlowOptions go_option" where
  "WithRefreshMetadata metadata = Some (\<lambda>opts. opts\<lparr>rf_metadata := cloneRawMessage metadata\<rparr>)"

text \<open>The option type is closed: a caller outside the package has these constructors and nil.\<close>

definition refresh_options :: "refreshFlowOptions go_option list \<Rightarrow> bool" where
  "refresh_options opts \<longleftrightarrow> (\<forall>opt \<in> set opts. opt = None \<or> opt \<in> range WithNextRefreshToken
     \<or> opt \<in> range WithRefreshDevice \<or> opt \<in> range WithRefreshMetadata)"

lemma next_token_trimmed:
  assumes "refresh_options opts"
  shows "TrimSpace (rf_nextRefreshToken (option_Apply default_refreshFlowOptions opts))
    = rf_nextRefreshToken (option_Apply default_refreshFlowOptions opts)"
proof (rule option_Apply_inv)
  show "TrimSpace (rf_nextRefreshToken (f t)) = rf_nextRefreshToken (f t)"
    if "Some f \<in> set opts" "TrimSpace (rf_nextRefreshToken t) = rf_nextRefreshToken t" for f t
    using assms that by (auto simp: refresh_options_def WithNextRefreshToken_def
        WithRefreshDevice_def WithRefreshMetadata_def)
qed (simp add: default_refreshFlowOptions_def)

record generateNonceOptions =
  gn_subject :: LoginSubject
  gn_purpose :: string
  gn_metadata :: RawMessage

definition default_generateNonceOptions :: generateNonceOptions where
  "default_generateNonceOptions = \<lparr>gn_subject = \<lparr>sub_LoginID = [], sub_LoginType = []\<rparr>,
     gn_purpose = [], gn_metadata = None\<rparr>"

definition WithNonceSubject :: "LoginSubject \<Rightarrow> generateNonceOptions go_option" where
  "WithNonceSubject subject = Some (\<lambda>opts. opts\<lparr>gn_subject := LoginSubject_Normalize subject\<rparr>)"

definition WithNoncePurpose :: "string \<Rightarrow> generateNonceOptions go_option" where
  "WithNoncePurpose purpose = Some (\<lambda>opts. opts\<lparr>gn_purpose := TrimSpace purpose\<rparr>)"

definition WithNonceMetadata :: "RawMessage \<Rightarrow> generateNonceOptions go_option" where
  "WithNonceMetadata metadata = Some (\<lambda>opts. opts\<lparr>gn_metadata := cloneRawMessage metadata\<rparr>)"

end
