(* ===== verification/Authorizer.thy ===== *)
theory Authorizer
  imports Core_Env "HOL-Library.AList"
begin

text \<open>
  The authorizers: the port of \<open>core/authorizer.go\<close> with its no-op and in-memory
  implementations, and the role-based one of \<open>rbac/authorizer.go\<close>. Their state is a value of
  its own, changed by the administrator's operations only; each method holds the mutex.
\<close>

subsection \<open>The port and the no-op implementation\<close>

record 'w authorizer_ops =
  az_HasAuthority :: "ctx \<Rightarrow> string \<Rightarrow> Authority \<Rightarrow> ('w, error, bool) op"
  az_GetAuthorities :: "ctx \<Rightarrow> string \<Rightarrow> ('w, error, Authority list) op"

definition NoopAuthorizer :: "'w authorizer_ops" where
  "NoopAuthorizer =
     \<lparr>az_HasAuthority = (\<lambda>_ _ _. ret False), az_GetAuthorities = (\<lambda>_ _. ret [])\<rparr>"

subsection \<open>Matching\<close>

definition star :: string where "star = ''*''"

definition authorityValueMatches :: "string \<Rightarrow> string \<Rightarrow> bool" where
  "authorityValueMatches candidate requested =
     (let candidate = TrimSpace candidate; requested = TrimSpace requested
      in if candidate = requested then True
         else if HasSuffix candidate star then HasPrefix requested (TrimSuffix candidate star)
         else False)"

definition authorityMatches :: "Authority \<Rightarrow> Authority \<Rightarrow> bool" where
  "authorityMatches candidate requested =
     (if au_Type candidate \<noteq> au_Type requested then False
      else
        let candidate = candidate\<lparr>au_Value := TrimSpace (au_Value candidate)\<rparr>;
            requested = requested\<lparr>au_Value := TrimSpace (au_Value requested)\<rparr>
        in if au_Value candidate = au_Value requested then True
           else if HasSuffix (au_Value candidate) star
           then HasPrefix (au_Value requested) (TrimSuffix (au_Value candidate) star)
           else False)"

text \<open>Both routines decide the same relation: equality up to trimming, or a prefix and a star.\<close>

definition covers :: "string \<Rightarrow> string \<Rightarrow> bool" where
  "covers pattern value \<longleftrightarrow> pattern = value \<or> (\<exists>p. pattern = p @ star \<and> prefix p value)"

lemma authorityValueMatches_iff:
  "authorityValueMatches c r \<longleftrightarrow> covers (TrimSpace c) (TrimSpace r)"
  by (auto simp: authorityValueMatches_def covers_def HasSuffix_def HasPrefix_def TrimSuffix_def
      suffix_def Let_def)

lemma authorityMatches_iff:
  "authorityMatches c r \<longleftrightarrow>
     au_Type c = au_Type r \<and> authorityValueMatches (au_Value c) (au_Value r)"
  by (simp add: authorityMatches_def authorityValueMatches_def Let_def)

subsection \<open>The in-memory authorizer\<close>

type_synonym memory_authorizer = "string \<Rightarrow> Authority list option"

definition NewMemoryAuthorizer :: memory_authorizer where
  "NewMemoryAuthorizer = (\<lambda>_. None)"

definition authorities_of :: "memory_authorizer \<Rightarrow> string \<Rightarrow> Authority list" where
  "authorities_of a loginID = (case a loginID of None \<Rightarrow> [] | Some as \<Rightarrow> as)"

fun copied_authorities :: "Authority list \<Rightarrow> Authority list" where
  "copied_authorities [] = []"
| "copied_authorities (authority # rest) =
     (let authority = authority\<lparr>au_Value := TrimSpace (au_Value authority)\<rparr>
      in if au_Value authority = [] then copied_authorities rest
         else authority # copied_authorities rest)"

definition SetAuthorities ::
    "memory_authorizer \<Rightarrow> string \<Rightarrow> Authority list \<Rightarrow> memory_authorizer" where
  "SetAuthorities a loginID authorities =
     a(TrimSpace loginID \<mapsto> copied_authorities authorities)"

definition mergeAuthorities ::
    "memory_authorizer \<Rightarrow> string \<Rightarrow> AuthorityType \<Rightarrow> Authority list \<Rightarrow> memory_authorizer" where
  "mergeAuthorities a loginID authorityType authorities =
     (let loginID = TrimSpace loginID
      in a(loginID \<mapsto>
           filter (\<lambda>authority. au_Type authority \<noteq> authorityType) (authorities_of a loginID)
           @ authorities))"

definition SetRoles :: "memory_authorizer \<Rightarrow> string \<Rightarrow> string list \<Rightarrow> memory_authorizer" where
  "SetRoles a loginID roles = mergeAuthorities a loginID AuthorityRole (map Role roles)"

definition SetPermissions :: "memory_authorizer \<Rightarrow> string \<Rightarrow> string list \<Rightarrow> memory_authorizer" where
  "SetPermissions a loginID permissions =
     mergeAuthorities a loginID AuthorityPermission (map Permission permissions)"

definition memory_HasAuthority ::
    "memory_authorizer \<Rightarrow> ctx \<Rightarrow> string \<Rightarrow> Authority \<Rightarrow> ('x, bool) eop" where
  "memory_HasAuthority a c loginID authority =
     bindE (ctxErr c) (\<lambda>_.
     let authority = authority\<lparr>au_Value := TrimSpace (au_Value authority)\<rparr>
     in if au_Value authority = [] then ret False
        else ret (list_ex (\<lambda>candidate. authorityMatches candidate authority)
                    (authorities_of a (TrimSpace loginID))))"

definition memory_GetAuthorities ::
    "memory_authorizer \<Rightarrow> ctx \<Rightarrow> string \<Rightarrow> ('x, Authority list) eop" where
  "memory_GetAuthorities a c loginID =
     bindE (ctxErr c) (\<lambda>_. ret (authorities_of a (TrimSpace loginID)))"

definition memory_authorizer_ops :: "memory_authorizer \<Rightarrow> 'x env_scheme authorizer_ops" where
  "memory_authorizer_ops a =
     \<lparr>az_HasAuthority = memory_HasAuthority a, az_GetAuthorities = memory_GetAuthorities a\<rparr>"

subsection \<open>The role-based authorizer\<close>

text \<open>A set of strings as a Go map is a list without repetition; an entry of the outer map may
  be missing (\<open>None\<close>).\<close>

record rbac =
  rb_userRoles :: "string \<Rightarrow> string list option"
  rb_rolePermissions :: "string \<Rightarrow> string list option"
  rb_directPermissions :: "string \<Rightarrow> string list option"

definition NewAuthorizer :: "rbac go_option list \<Rightarrow> rbac" where
  "NewAuthorizer opts = option_Apply
     \<lparr>rb_userRoles = (\<lambda>_. None), rb_rolePermissions = (\<lambda>_. None),
      rb_directPermissions = (\<lambda>_. None)\<rparr> opts"

definition set_of :: "(string \<Rightarrow> string list option) \<Rightarrow> string \<Rightarrow> string list" where
  "set_of m k = (case m k of None \<Rightarrow> [] | Some xs \<Rightarrow> xs)"

definition AssignRole :: "rbac \<Rightarrow> string \<Rightarrow> string \<Rightarrow> rbac" where
  "AssignRole a loginID role =
     (let loginID = TrimSpace loginID; role = TrimSpace role
      in if loginID = [] \<or> role = [] then a
         else a\<lparr>rb_userRoles := (rb_userRoles a)(loginID \<mapsto>
                List.insert role (set_of (rb_userRoles a) loginID))\<rparr>)"

definition RevokeRole :: "rbac \<Rightarrow> string \<Rightarrow> string \<Rightarrow> rbac" where
  "RevokeRole a loginID role =
     (let loginID = TrimSpace loginID; role = TrimSpace role
      in if loginID = [] \<or> role = [] then a
         else
           let roles = removeAll role (set_of (rb_userRoles a) loginID)
           in a\<lparr>rb_userRoles := (rb_userRoles a)(loginID :=
                  (if roles = [] then None else Some roles))\<rparr>)"

definition GrantPermission :: "rbac \<Rightarrow> string \<Rightarrow> string \<Rightarrow> rbac" where
  "GrantPermission a role permission =
     (let role = TrimSpace role; permission = TrimSpace permission
      in if role = [] \<or> permission = [] then a
         else a\<lparr>rb_rolePermissions := (rb_rolePermissions a)(role \<mapsto>
                List.insert permission (set_of (rb_rolePermissions a) role))\<rparr>)"

definition RevokePermission :: "rbac \<Rightarrow> string \<Rightarrow> string \<Rightarrow> rbac" where
  "RevokePermission a role permission =
     (let role = TrimSpace role; permission = TrimSpace permission
      in if role = [] \<or> permission = [] then a
         else
           let permissions = removeAll permission (set_of (rb_rolePermissions a) role)
           in a\<lparr>rb_rolePermissions := (rb_rolePermissions a)(role :=
                  (if permissions = [] then None else Some permissions))\<rparr>)"

fun permission_values :: "string list \<Rightarrow> string list \<Rightarrow> string list" where
  "permission_values [] acc = acc"
| "permission_values (permission # rest) acc =
     (let permission = TrimSpace permission
      in if permission = [] then permission_values rest acc
         else permission_values rest (List.insert permission acc))"

definition SetDirectPermissions :: "rbac \<Rightarrow> string \<Rightarrow> string list \<Rightarrow> rbac" where
  "SetDirectPermissions a loginID permissions =
     (let loginID = TrimSpace loginID
      in if loginID = [] then a
         else a\<lparr>rb_directPermissions :=
                  (rb_directPermissions a)(loginID \<mapsto> permission_values permissions [])\<rparr>)"

text \<open>The loops below stop at the first match, whatever the order: a disjunction.\<close>

definition permissionSetMatches :: "string list \<Rightarrow> string \<Rightarrow> bool" where
  "permissionSetMatches values requested =
     list_ex (\<lambda>candidate. authorityValueMatches candidate requested) values"

definition rbac_HasAuthority :: "rbac \<Rightarrow> ctx \<Rightarrow> string \<Rightarrow> Authority \<Rightarrow> ('x, bool) eop" where
  "rbac_HasAuthority a c loginID authority =
     bindE (ctxErr c) (\<lambda>_.
     let loginID = TrimSpace loginID; value = TrimSpace (au_Value authority)
     in if loginID = [] \<or> value = [] then ret False
        else if au_Type authority = AuthorityRole
        then ret (value \<in> set (set_of (rb_userRoles a) loginID))
        else if au_Type authority = AuthorityPermission
        then
          if permissionSetMatches (set_of (rb_directPermissions a) loginID) value then ret True
          else ret (list_ex (\<lambda>role. permissionSetMatches (set_of (rb_rolePermissions a) role) value)
                      (set_of (rb_userRoles a) loginID))
        else ret False)"

definition add_authority :: "Authority \<Rightarrow> Authority list \<Rightarrow> Authority list" where
  "add_authority authority result =
     (if au_Value authority = [] then result
      else if authority \<in> set result then result
      else result @ [authority])"

text \<open>\<open>GetAuthorities\<close> ranges over the roles, over the permissions of each, and over the direct
  permissions, each in an order of the runtime's choice.\<close>

fun collect_roles :: "rbac \<Rightarrow> string list \<Rightarrow> Authority list \<Rightarrow> ('x, Authority list) eop" where
  "collect_roles a [] result = ret result"
| "collect_roles a (role # roles) result =
     bindE (range_keys (set_of (rb_rolePermissions a) role)) (\<lambda>permissions.
     collect_roles a roles
       (fold (\<lambda>p. add_authority (Permission p)) permissions (add_authority (Role role) result)))"

definition rbac_GetAuthorities :: "rbac \<Rightarrow> ctx \<Rightarrow> string \<Rightarrow> ('x, Authority list) eop" where
  "rbac_GetAuthorities a c loginID =
     bindE (ctxErr c) (\<lambda>_.
     let loginID = TrimSpace loginID
     in if loginID = [] then ret []
        else
          bindE (range_keys (set_of (rb_userRoles a) loginID)) (\<lambda>roles.
          bindE (collect_roles a roles []) (\<lambda>result.
          bindE (range_keys (set_of (rb_directPermissions a) loginID)) (\<lambda>permissions.
          ret (fold (\<lambda>p. add_authority (Permission p)) permissions result)))))"

definition rbac_ops :: "rbac \<Rightarrow> 'x env_scheme authorizer_ops" where
  "rbac_ops a = \<lparr>az_HasAuthority = rbac_HasAuthority a, az_GetAuthorities = rbac_GetAuthorities a\<rparr>"

end
