(* ===== verification/Event_Bus.thy ===== *)
theory Event_Bus
  imports Core_Env
begin

text \<open>
  The synchronous event bus of \<open>core/event.go\<close>. A listener is a function on the world that
  returns, reports an error or panics; the bus recovers from the panic and drops the error. The
  nil listener is \<open>None\<close>.
\<close>

datatype listener_outcome = HandleOk | HandleError error | HandlePanic

type_synonym 'w listener = "ctx \<Rightarrow> Event \<Rightarrow> 'w \<Rightarrow> listener_outcome \<times> 'w"

text \<open>The port: what a publication does to the world.\<close>

type_synonym 'w event_bus = "ctx \<Rightarrow> Event \<Rightarrow> 'w \<Rightarrow> 'w"

definition NoopEventBus_Publish :: "'w event_bus" where
  "NoopEventBus_Publish c ev w = w"

type_synonym 'w SyncEventBus = "'w listener list"

definition NewEventBus :: "'w SyncEventBus" where
  "NewEventBus = []"

definition SyncEventBus_Register :: "'w SyncEventBus \<Rightarrow> 'w listener option \<Rightarrow> 'w SyncEventBus" where
  "SyncEventBus_Register b listener = (case listener of None \<Rightarrow> b | Some l \<Rightarrow> b @ [l])"

fun SyncEventBus_Publish :: "'w SyncEventBus \<Rightarrow> 'w event_bus" where
  "SyncEventBus_Publish [] c ev w = w"
| "SyncEventBus_Publish (listener # listeners) c ev w =
     (case listener c ev w of (_, w') \<Rightarrow> SyncEventBus_Publish listeners c ev w')"

definition SyncEventBus_Clear :: "'w SyncEventBus \<Rightarrow> 'w SyncEventBus" where
  "SyncEventBus_Clear b = []"

definition SyncEventBus_ListenerCount :: "'w SyncEventBus \<Rightarrow> nat" where
  "SyncEventBus_ListenerCount b = length b"

text \<open>A listener that notes the event in the world's log, and the bus it alone listens to.\<close>

definition recording_listener :: "'x env_scheme listener" where
  "recording_listener c ev w = (HandleOk, w\<lparr>env_published := env_published w @ [ev]\<rparr>)"

definition recording_bus :: "'x env_scheme event_bus" where
  "recording_bus = SyncEventBus_Publish [recording_listener]"

lemma recording_bus_apply [simp]:
  "recording_bus c ev w = w\<lparr>env_published := env_published w @ [ev]\<rparr>"
  by (simp add: recording_bus_def recording_listener_def)

lemma SyncEventBus_Publish_append:
  "SyncEventBus_Publish (xs @ ys) c ev w = SyncEventBus_Publish ys c ev (SyncEventBus_Publish xs c ev w)"
  by (induction xs arbitrary: w) (auto split: prod.split)

text \<open>The contract of a bus towards the Manager: listeners keep the world's invariant.\<close>

locale event_sink =
  fixes I :: "'w \<Rightarrow> bool" and Publish :: "'w event_bus"
  assumes publish_keeps: "I w \<Longrightarrow> I (Publish c ev w)"

lemma SyncEventBus_sink:
  assumes "\<And>l c ev w. l \<in> set b \<Longrightarrow> I w \<Longrightarrow> I (snd (l c ev w))"
  shows "event_sink I (SyncEventBus_Publish b)"
proof
  show "I (SyncEventBus_Publish b c ev w)" if "I w" for w c ev
    using assms that
  proof (induction b arbitrary: w)
    case (Cons l b)
    have "I (snd (l c ev w))" using Cons.prems by simp
    with Cons show ?case by (simp add: case_prod_unfold)
  qed simp
qed

interpretation noop_sink: event_sink I NoopEventBus_Publish for I
  by unfold_locales (simp add: NoopEventBus_Publish_def)

end
