(* ===== verification/Manager_Core.thy ===== *)
theory Manager_Core
  imports Config Store_Port Authorizer Event_Bus
begin

text \<open>
  The Manager of \<open>core/manager.go\<close>: its fields, its construction (\<open>NewManager\<close> and the options
  of \<open>core/option.go\<close>) and the steps that its operations share: the clock, the publication of
  events, the guarded update, the consumption, and the lifetime of a session. The injected clock
  of \<open>core/runtime.go\<close> is the clock of the environment.
\<close>

subsection \<open>Construction\<close>

text \<open>A store with the capability that the type assertion to \<open>AtomicStore\<close> may find.\<close>

record 'w store_value =
  sv_ops :: "'w store_ops"
  sv_atomic :: "'w atomic_ops option"

record 'w manager =
  m_config :: Config
  m_store :: "'w store_ops"
  m_atomicStore :: "'w atomic_ops option"
  m_authorizer :: "'w authorizer_ops"
  m_eventBus :: "'w event_bus option"

text \<open>\<open>None\<close> is the panic on a nil store.\<close>

definition NewManager ::
    "'w store_value option \<Rightarrow> 'w manager go_option list \<Rightarrow> 'w manager option" where
  "NewManager store opts =
     (case store of
        None \<Rightarrow> None
      | Some s \<Rightarrow>
          let m = \<lparr>m_config = DefaultConfig, m_store = sv_ops s, m_atomicStore = None,
                   m_authorizer = NoopAuthorizer,
                   m_eventBus = Some (SyncEventBus_Publish NewEventBus)\<rparr>;
              m = option_Apply m opts;
              m = m\<lparr>m_atomicStore := sv_atomic s\<rparr>;
              m = m\<lparr>m_config := (m_config m)\<lparr>cf_Refresh :=
                     RefreshConfig_withDefaults (cf_Refresh (m_config m))\<rparr>\<rparr>
          in Some (m\<lparr>m_config := (m_config m)\<lparr>cf_Nonce :=
                     NonceConfig_withDefaults (cf_Nonce (m_config m))\<rparr>\<rparr>))"

definition WithConfig :: "Config \<Rightarrow> 'w manager go_option" where
  "WithConfig config = Some (\<lambda>m. m\<lparr>m_config := config\<rparr>)"

definition WithAuthorizer :: "'w authorizer_ops option \<Rightarrow> 'w manager go_option" where
  "WithAuthorizer authorizer = Some (\<lambda>m.
     case authorizer of None \<Rightarrow> m | Some a \<Rightarrow> m\<lparr>m_authorizer := a\<rparr>)"

definition WithEventBus :: "'w event_bus option \<Rightarrow> 'w manager go_option" where
  "WithEventBus eventBus = Some (\<lambda>m.
     case eventBus of None \<Rightarrow> m | Some b \<Rightarrow> m\<lparr>m_eventBus := Some b\<rparr>)"

definition WithNonceConfig :: "NonceConfig \<Rightarrow> 'w manager go_option" where
  "WithNonceConfig config = Some (\<lambda>m.
     m\<lparr>m_config := (m_config m)\<lparr>cf_Nonce := NonceConfig_withDefaults config\<rparr>\<rparr>)"

definition WithRefreshConfig :: "RefreshConfig \<Rightarrow> 'w manager go_option" where
  "WithRefreshConfig config = Some (\<lambda>m.
     m\<lparr>m_config := (m_config m)\<lparr>cf_Refresh := RefreshConfig_withDefaults config\<rparr>\<rparr>)"

definition Manager_Config :: "'w manager \<Rightarrow> Config" where
  "Manager_Config m = m_config m"

subsection \<open>Shared steps\<close>

definition m_now :: "'x env_scheme manager \<Rightarrow> ('x, time) eop" where
  "m_now m = read_now"

definition publish :: "'x env_scheme manager \<Rightarrow> ctx \<Rightarrow> Event \<Rightarrow> ('x, unit) eop" where
  "publish m c event =
     (case m_eventBus m of
        None \<Rightarrow> ret ()
      | Some bus \<Rightarrow>
          bindE (if ev_Time event = zero_time
                 then bindE (m_now m) (\<lambda>now. ret (event\<lparr>ev_Time := now\<rparr>))
                 else ret event) (\<lambda>event.
          modify (bus c event)))"

definition updateTokenState ::
    "'x env_scheme manager \<Rightarrow> ctx \<Rightarrow> TokenState \<Rightarrow> TokenState \<Rightarrow> duration \<Rightarrow> ('x, unit) eop" where
  "updateTokenState m c expected next ttl =
     (case m_atomicStore m of
        Some a \<Rightarrow>
          bindE (at_CompareAndSwapTokenState a c (Some expected) (Some next) ttl) (\<lambda>updated.
          if \<not> updated then throw ErrTokenInvalid else ret ())
      | None \<Rightarrow> st_SaveTokenState (m_store m) c (Some next) ttl)"

definition consumeTokenState ::
    "'x env_scheme manager \<Rightarrow> ctx \<Rightarrow> TokenValue \<Rightarrow> TokenKind \<Rightarrow> ('x, TokenState option) eop" where
  "consumeTokenState m c token kind =
     (case m_atomicStore m of
        Some a \<Rightarrow> at_ConsumeTokenStateOfKind a c token kind
      | None \<Rightarrow>
          bindE (st_GetTokenState (m_store m) c token) (\<lambda>found.
          case found of
            None \<Rightarrow> ret None
          | Some state \<Rightarrow>
              let state = TokenState_Normalize state
              in if ts_Kind state \<noteq> kind then ret (Some state)
                 else
                   bindE (m_now m) (\<lambda>now.
                   if \<not> IsActive state now then ret (Some state)
                   else st_ConsumeTokenState (m_store m) c token)))"

definition remainingTTL :: "time \<Rightarrow> TokenState \<Rightarrow> duration" where
  "remainingTTL now state =
     (case ts_ExpiresAt state of
        None \<Rightarrow> 0
      | Some e \<Rightarrow> let ttl = Time_Sub e now in if ttl \<le> 0 then 0 else ttl)"

definition syncSessionTTL ::
    "'x env_scheme manager \<Rightarrow> ctx \<Rightarrow> LoginSubject \<Rightarrow> duration \<Rightarrow> ('x, unit) eop" where
  "syncSessionTTL m c subject ttl =
     (let subject = LoginSubject_Normalize subject
      in case m_atomicStore m of
           Some a \<Rightarrow> at_EnsureSession a c subject ttl
         | None \<Rightarrow>
             bindE (st_GetSession (m_store m) c subject) (\<lambda>found.
             let session = (case found of None \<Rightarrow> NewSessionForSubject subject | Some s \<Rightarrow> s)
             in st_SaveSession (m_store m) c (Some session) ttl))"

subsection \<open>Facts about the construction\<close>

text \<open>Whatever the options, a constructed Manager has a complete configuration and the
  capability of its store.\<close>

definition config_complete :: "Config \<Rightarrow> bool" where
  "config_complete cf \<longleftrightarrow> RefreshConfig_withDefaults (cf_Refresh cf) = cf_Refresh cf
     \<and> NonceConfig_withDefaults (cf_Nonce cf) = cf_Nonce cf"

lemma NewManager_complete: "NewManager (Some s) opts = Some m \<Longrightarrow>
    config_complete (m_config m) \<and> m_atomicStore m = sv_atomic s"
  by (auto simp: NewManager_def config_complete_def Let_def)

lemma config_complete_nonce: "config_complete cf \<Longrightarrow>
    0 < nc_Timeout (cf_Nonce cf) \<and> 0 < nc_Length (cf_Nonce cf)"
  using NonceConfig_withDefaults_pos [of "cf_Nonce cf"] by (simp add: config_complete_def)

lemma remainingTTL_nonneg: "0 \<le> remainingTTL now s"
  by (simp add: remainingTTL_def Let_def split: option.split)

lemma remainingTTL_pos_iff:
  "0 < remainingTTL now s \<longleftrightarrow> (\<exists>e. ts_ExpiresAt s = Some e \<and> now < e)"
  by (auto simp: remainingTTL_def Let_def Time_Sub_pos_iff Time_Sub_le_0_iff not_less split: option.split)

end
