(* ===== verification/Manager_Access.thy ===== *)
theory Manager_Access
  imports Manager_Core Rand
begin

text \<open>
  The operations of the Manager on access tokens, nonces, sessions and authorities
  (\<open>core/manager.go\<close> and \<open>core/nonce.go\<close>), each a whole method with its guards, its store
  calls and its events in the order of the code.
\<close>

subsection \<open>Nonces\<close>

definition GenerateNonce ::
    "'x env_scheme manager \<Rightarrow> ctx \<Rightarrow> generateNonceOptions go_option list \<Rightarrow> ('x, TokenValue) eop" where
  "GenerateNonce m c opts =
     (let c = normalizeContext c
      in bindE (ctxErr c) (\<lambda>_.
         bindE (attempt (RandomString (nc_Length (cf_Nonce (m_config m))))) (\<lambda>r.
         case r of
           Inl err \<Rightarrow> throw (ErrWrap ''generate nonce'' err)
         | Inr nonce \<Rightarrow>
             if nonce = [] then throw ErrEmptyNonce
             else
               let generateOpts = option_Apply default_generateNonceOptions opts
               in bindE (m_now m) (\<lambda>now.
                  let expiresAt = Time_Add now (nc_Timeout (cf_Nonce (m_config m)));
                      subject = gn_subject generateOpts;
                      state = \<lparr>ts_Token = storeKey nonce, ts_Kind = TokenKindNonce,
                        ts_LoginID = sub_LoginID subject, ts_LoginType = sub_LoginType subject,
                        ts_Device = [], ts_CreatedAt = now, ts_LastActiveAt = now,
                        ts_ExpiresAt = Some expiresAt, ts_Status = TokenStatusActive,
                        ts_Metadata = cloneRawMessage (gn_metadata generateOpts),
                        ts_Refresh = None,
                        ts_Nonce = Some \<lparr>ni_Purpose = gn_purpose generateOpts, ni_ConsumedAt = None\<rparr>,
                        ts_Online = None\<rparr>
                  in bindE (st_SaveTokenState (m_store m) c (Some state)
                              (nc_Timeout (cf_Nonce (m_config m)))) (\<lambda>_.
                     ret nonce)))))"

definition ConsumeNonce ::
    "'x env_scheme manager \<Rightarrow> ctx \<Rightarrow> TokenValue \<Rightarrow> ('x, TokenState) eop" where
  "ConsumeNonce m c nonce =
     (let c = normalizeContext c; nonce = TrimSpace nonce
      in if nonce = [] then throw ErrEmptyNonce
         else
           bindE (consumeTokenState m c (storeKey nonce) TokenKindNonce) (\<lambda>found.
           case found of
             None \<Rightarrow> throw ErrNonceNotFound
           | Some state \<Rightarrow>
               let state = TokenState_Normalize state
               in if ts_Kind state \<noteq> TokenKindNonce then throw ErrUnsupportedKind
                  else if IsConsumed state then throw ErrNonceReplayed
                  else if ts_Status state \<noteq> TokenStatusActive then throw ErrTokenInvalid
                  else
                    bindE (m_now m) (\<lambda>now.
                    if IsExpired state now then throw ErrNonceExpired
                    else
                      bindE (m_now m) (\<lambda>now.
                      let state = MarkConsumed state now
                      in bindE (publish m c (new_Event EventNonceConsumed (ts_LoginID state)
                                   (ts_LoginType state) (ts_Token state))) (\<lambda>_.
                         ret (the (withPlaintextToken (Some state) nonce)))))))"

subsection \<open>Revocation of refresh tokens\<close>

fun delete_linked ::
    "'x env_scheme manager \<Rightarrow> ctx \<Rightarrow> TokenValue \<Rightarrow> TokenState option list \<Rightarrow> ('x, unit) eop" where
  "delete_linked m c access [] = ret ()"
| "delete_linked m c access (rs # states) =
     (case rs of
        None \<Rightarrow> delete_linked m c access states
      | Some s \<Rightarrow>
          (case ts_Refresh s of
             None \<Rightarrow> delete_linked m c access states
           | Some r \<Rightarrow>
               if ri_AccessToken r \<noteq> access then delete_linked m c access states
               else bindE (st_DeleteTokenState (m_store m) c (ts_Token s)) (\<lambda>_.
                    delete_linked m c access states)))"

definition revokeRefreshForAccessToken ::
    "'x env_scheme manager \<Rightarrow> ctx \<Rightarrow> TokenState \<Rightarrow> ('x, unit) eop" where
  "revokeRefreshForAccessToken m c state =
     (if \<not> rc_RevokeRefreshOnLogout (cf_Refresh (m_config m)) \<or> ts_Token state = [] then ret ()
      else
        bindE (st_FindTokenStates (m_store m) c (TokenState_Subject state) [TokenKindRefresh])
          (\<lambda>states. delete_linked m c (ts_Token state) states))"

fun delete_except ::
    "'x env_scheme manager \<Rightarrow> ctx \<Rightarrow> TokenValue \<Rightarrow> TokenState option list \<Rightarrow> ('x, unit) eop" where
  "delete_except m c keep [] = ret ()"
| "delete_except m c keep (rs # states) =
     (case rs of
        None \<Rightarrow> delete_except m c keep states
      | Some s \<Rightarrow>
          if ts_Token s \<noteq> keep
          then bindE (st_DeleteTokenState (m_store m) c (ts_Token s)) (\<lambda>_.
               delete_except m c keep states)
          else delete_except m c keep states)"

definition revokeRefreshExcept ::
    "'x env_scheme manager \<Rightarrow> ctx \<Rightarrow> LoginSubject \<Rightarrow> TokenValue \<Rightarrow> ('x, unit) eop" where
  "revokeRefreshExcept m c subject keep =
     (if \<not> rc_RevokeRefreshOnLogout (cf_Refresh (m_config m)) then ret ()
      else if keep = []
      then st_DeleteTokenStates (m_store m) c (LoginSubject_Normalize subject) [TokenKindRefresh]
      else
        bindE (st_FindTokenStates (m_store m) c (LoginSubject_Normalize subject) [TokenKindRefresh])
          (\<lambda>states. delete_except m c keep states))"

definition revokeRefreshForSubject ::
    "'x env_scheme manager \<Rightarrow> ctx \<Rightarrow> LoginSubject \<Rightarrow> ('x, unit) eop" where
  "revokeRefreshForSubject m c subject = revokeRefreshExcept m c subject []"

subsection \<open>Login\<close>

definition access_state ::
    "Config \<Rightarrow> LoginSubject \<Rightarrow> loginOptions \<Rightarrow> TokenValue \<Rightarrow> time \<Rightarrow> TokenState" where
  "access_state cf subject loginOpts token now =
     \<lparr>ts_Token = storeKey token, ts_Kind = TokenKindAccess, ts_LoginID = sub_LoginID subject,
      ts_LoginType = sub_LoginType subject, ts_Device = lo_device loginOpts,
      ts_CreatedAt = now, ts_LastActiveAt = now,
      ts_ExpiresAt = (if cf_Timeout cf > 0 then Some (Time_Add now (cf_Timeout cf)) else None),
      ts_Status = TokenStatusActive, ts_Metadata = cloneRawMessage (lo_metadata loginOpts),
      ts_Refresh = None, ts_Nonce = None, ts_Online = None\<rparr>"

definition replace_others ::
    "'x env_scheme manager \<Rightarrow> ctx \<Rightarrow> LoginSubject \<Rightarrow> TokenValue \<Rightarrow> ('x, unit) eop" where
  "replace_others m c subject preserveRefresh =
     bindE (st_DeleteTokenStates (m_store m) c subject [TokenKindAccess]) (\<lambda>_.
     bindE (revokeRefreshExcept m c subject preserveRefresh) (\<lambda>_.
     publish m c (new_Event EventReplaced (sub_LoginID subject) (sub_LoginType subject) [])))"

definition login ::
    "'x env_scheme manager \<Rightarrow> ctx \<Rightarrow> string \<Rightarrow> TokenValue \<Rightarrow> loginOptions \<Rightarrow> bool \<Rightarrow>
     ('x, TokenState) eop" where
  "login m c loginID token loginOpts enforceNonce =
     (let c = normalizeContext c; loginID = TrimSpace loginID; token = TrimSpace token;
          cf = m_config m
      in if loginID = [] then throw ErrEmptyLoginID
         else if token = [] then throw ErrEmptyToken
         else
           bindE (whenE (enforceNonce \<and> cf_RequireNonce cf)
                    (if lo_nonce loginOpts = [] then throw ErrEmptyNonce
                     else bindE (ConsumeNonce m c (lo_nonce loginOpts)) (\<lambda>_. ret ()))) (\<lambda>_.
           bindE (m_now m) (\<lambda>now.
           let subject = LoginSubject_Normalize
                 \<lparr>sub_LoginID = loginID, sub_LoginType = lo_loginType loginOpts\<rparr>
           in bindE (whenE (\<not> cf_Concurrent cf)
                       (replace_others m c subject (lo_preserveRefresh loginOpts))) (\<lambda>_.
              let ttl = (if cf_Timeout cf > 0 then cf_Timeout cf else 0);
                  state = access_state cf subject loginOpts token now
              in bindE (st_SaveTokenState (m_store m) c (Some state) ttl) (\<lambda>_.
                 bindE (syncSessionTTL m c subject ttl) (\<lambda>_.
                 bindE (publish m c (new_Event EventLogin (sub_LoginID subject)
                          (sub_LoginType subject) token)) (\<lambda>_.
                 ret (TokenState_Clone state))))))))"

definition Login ::
    "'x env_scheme manager \<Rightarrow> ctx \<Rightarrow> string \<Rightarrow> TokenValue \<Rightarrow> loginOptions go_option list \<Rightarrow>
     ('x, TokenState) eop" where
  "Login m c loginID token opts =
     bindE (login m c loginID token (option_Apply default_loginOptions opts) True) (\<lambda>state.
     ret (the (withPlaintextToken (Some state) token)))"

subsection \<open>Reading, renewal and logout\<close>

definition autoRenewed :: "Config \<Rightarrow> TokenState \<Rightarrow> time \<Rightarrow> TokenState \<times> duration" where
  "autoRenewed cf state now =
     (let state = Touch state now;
          state = (if cf_ActiveTimeout cf > 0
                   then state\<lparr>ts_ExpiresAt := Some (Time_Add now (cf_ActiveTimeout cf))\<rparr> else state)
      in (state, remainingTTL now state))"

definition getTokenState ::
    "'x env_scheme manager \<Rightarrow> ctx \<Rightarrow> TokenValue \<Rightarrow> bool \<Rightarrow> ('x, TokenState) eop" where
  "getTokenState m c token allowAutoRenew =
     (let c = normalizeContext c; token = TrimSpace token; cf = m_config m
      in if token = [] then throw ErrEmptyToken
         else
           let key = storeKey token
           in bindE (st_GetTokenState (m_store m) c key) (\<lambda>found.
              case found of
                None \<Rightarrow> throw ErrTokenNotFound
              | Some state \<Rightarrow>
                  let state = TokenState_Normalize state
                  in if ts_Status state \<noteq> TokenStatusActive then throw ErrTokenInvalid
                     else
                       bindE (m_now m) (\<lambda>now.
                       if IsExpired state now
                       then bindE (attempt (st_DeleteTokenState (m_store m) c key)) (\<lambda>_.
                            throw ErrTokenNotFound)
                       else if allowAutoRenew \<and> cf_AutoRenew cf \<and> ts_Kind state = TokenKindAccess
                       then
                         let expected = TokenState_Clone state;
                             (state, ttl) = autoRenewed cf state now
                         in bindE (updateTokenState m c expected state ttl) (\<lambda>_.
                            bindE (syncSessionTTL m c (TokenState_Subject state) ttl) (\<lambda>_.
                            bindE (publish m c (new_Event EventRenewTimeout (ts_LoginID state)
                                     (ts_LoginType state) (ts_Token state))) (\<lambda>_.
                            ret (TokenState_Clone state))))
                       else ret (TokenState_Clone state))))"

definition GetTokenState ::
    "'x env_scheme manager \<Rightarrow> ctx \<Rightarrow> TokenValue \<Rightarrow> ('x, TokenState) eop" where
  "GetTokenState m c token =
     bindE (getTokenState m c token True) (\<lambda>state.
     ret (the (withPlaintextToken (Some state) token)))"

definition IsValid :: "'x env_scheme manager \<Rightarrow> ctx \<Rightarrow> TokenValue \<Rightarrow> ('x, bool) eop" where
  "IsValid m c token =
     bindE (attempt (GetTokenState m c token)) (\<lambda>r.
     ret (case r of Inl _ \<Rightarrow> False | Inr _ \<Rightarrow> True))"

definition renewed_state :: "TokenState \<Rightarrow> time \<Rightarrow> duration \<Rightarrow> TokenState" where
  "renewed_state state now ttl =
     (let state = Touch state now
      in if ttl > 0 then state\<lparr>ts_ExpiresAt := Some (Time_Add now ttl)\<rparr>
         else state\<lparr>ts_ExpiresAt := None\<rparr>)"

definition Renew ::
    "'x env_scheme manager \<Rightarrow> ctx \<Rightarrow> TokenValue \<Rightarrow> duration \<Rightarrow> ('x, unit) eop" where
  "Renew m c token ttl =
     (let c = normalizeContext c
      in bindE (getTokenState m c token False) (\<lambda>state.
         let expected = TokenState_Clone state
         in bindE (m_now m) (\<lambda>now.
            let state = renewed_state state now ttl
            in bindE (updateTokenState m c expected state ttl) (\<lambda>_.
               bindE (syncSessionTTL m c (TokenState_Subject state) ttl) (\<lambda>_.
               publish m c (new_Event EventRenewTimeout (ts_LoginID state) (ts_LoginType state)
                 (ts_Token state)))))))"

definition Logout :: "'x env_scheme manager \<Rightarrow> ctx \<Rightarrow> TokenValue \<Rightarrow> ('x, unit) eop" where
  "Logout m c token =
     (let c = normalizeContext c
      in bindE (getTokenState m c token False) (\<lambda>state.
         bindE (st_DeleteTokenState (m_store m) c (ts_Token state)) (\<lambda>_.
         bindE (revokeRefreshForAccessToken m c state) (\<lambda>_.
         publish m c (new_Event EventLogout (ts_LoginID state) (ts_LoginType state) token)))))"

definition LogoutByLoginID ::
    "'x env_scheme manager \<Rightarrow> ctx \<Rightarrow> string \<Rightarrow> logoutOptions go_option list \<Rightarrow> ('x, unit) eop" where
  "LogoutByLoginID m c loginID opts =
     (let c = normalizeContext c; loginID = TrimSpace loginID
      in if loginID = [] then throw ErrEmptyLoginID
         else
           let logoutOpts = option_Apply default_logoutOptions opts;
               subject = LoginSubject_Normalize
                 \<lparr>sub_LoginID = loginID, sub_LoginType = go_loginType logoutOpts\<rparr>
           in bindE (st_DeleteTokenStates (m_store m) c subject [TokenKindAccess]) (\<lambda>_.
              bindE (revokeRefreshForSubject m c subject) (\<lambda>_.
              bindE (whenE (go_deleteSession logoutOpts)
                       (st_DeleteSession (m_store m) c subject)) (\<lambda>_.
              publish m c (new_Event EventKickOut (sub_LoginID subject)
                (sub_LoginType subject) [])))))"

subsection \<open>Sessions\<close>

definition sessionSubject :: "string \<Rightarrow> sessionOptions go_option list \<Rightarrow> LoginSubject" where
  "sessionSubject loginID opts =
     (let sessionOpts = option_Apply default_sessionOptions opts
      in LoginSubject_Normalize \<lparr>sub_LoginID = loginID, sub_LoginType = so_loginType sessionOpts\<rparr>)"

definition GetSession ::
    "'x env_scheme manager \<Rightarrow> ctx \<Rightarrow> string \<Rightarrow> sessionOptions go_option list \<Rightarrow> ('x, Session) eop" where
  "GetSession m c loginID opts =
     (let c = normalizeContext c; loginID = TrimSpace loginID
      in if loginID = [] then throw ErrEmptySessionID
         else
           bindE (st_GetSession (m_store m) c (sessionSubject loginID opts)) (\<lambda>found.
           case found of
             None \<Rightarrow> throw ErrSessionNotFound
           | Some session \<Rightarrow> ret (Session_Clone session)))"

definition SaveSession ::
    "'x env_scheme manager \<Rightarrow> ctx \<Rightarrow> Session option \<Rightarrow> ('x, unit) eop" where
  "SaveSession m c session =
     (let c = normalizeContext c
      in case session of
           None \<Rightarrow> throw ErrEmptySessionID
         | Some session \<Rightarrow>
             let session = Session_Clone session;
                 session = session\<lparr>se_Subject := LoginSubject_Normalize (se_Subject session)\<rparr>
             in if LoginSubject_IsZero (se_Subject session) then throw ErrEmptySessionID
                else
                  let session = (case se_Data session of
                                   None \<Rightarrow> session\<lparr>se_Data := Some []\<rparr> | Some _ \<Rightarrow> session)
                  in st_SaveSession (m_store m) c (Some session) (cf_Timeout (m_config m)))"

definition DeleteSession ::
    "'x env_scheme manager \<Rightarrow> ctx \<Rightarrow> string \<Rightarrow> sessionOptions go_option list \<Rightarrow> ('x, unit) eop" where
  "DeleteSession m c loginID opts =
     (let c = normalizeContext c; loginID = TrimSpace loginID
      in if loginID = [] then throw ErrEmptySessionID
         else st_DeleteSession (m_store m) c (sessionSubject loginID opts))"

subsection \<open>Authorities\<close>

definition CheckAuthority ::
    "'x env_scheme manager \<Rightarrow> ctx \<Rightarrow> Authority \<Rightarrow> ('x, unit) eop" where
  "CheckAuthority m c authority =
     (let c = normalizeContext c
      in case RequireAuth c of
           Inl err \<Rightarrow> throw err
         | Inr auth \<Rightarrow>
             let authority = authority\<lparr>au_Value := TrimSpace (au_Value authority)\<rparr>
             in if au_Value authority = [] then throw ErrEmptyAuthority
                else
                  bindE (az_HasAuthority (m_authorizer m) c (ac_LoginID auth) authority) (\<lambda>ok.
                  if \<not> ok then throw (AuthorityDeniedError authority) else ret ()))"

definition CheckPermission :: "'x env_scheme manager \<Rightarrow> ctx \<Rightarrow> string \<Rightarrow> ('x, unit) eop" where
  "CheckPermission m c permission = CheckAuthority m c (Permission permission)"

definition CheckRole :: "'x env_scheme manager \<Rightarrow> ctx \<Rightarrow> string \<Rightarrow> ('x, unit) eop" where
  "CheckRole m c role = CheckAuthority m c (Role role)"

fun CheckAll :: "'x env_scheme manager \<Rightarrow> ctx \<Rightarrow> Authority list \<Rightarrow> ('x, unit) eop" where
  "CheckAll m c [] = ret ()"
| "CheckAll m c (authority # authorities) =
     bindE (CheckAuthority m c authority) (\<lambda>_. CheckAll m c authorities)"

fun check_any_loop ::
    "'x env_scheme manager \<Rightarrow> ctx \<Rightarrow> error option \<Rightarrow> Authority list \<Rightarrow> ('x, unit) eop" where
  "check_any_loop m c denied [] =
     (case denied of Some err \<Rightarrow> throw err | None \<Rightarrow> throw ErrAuthorityDenied)"
| "check_any_loop m c denied (authority # authorities) =
     bindE (attempt (CheckAuthority m c authority)) (\<lambda>r.
     case r of
       Inr _ \<Rightarrow> ret ()
     | Inl err \<Rightarrow>
         if errors_Is err ErrAuthorityDenied then check_any_loop m c (Some err) authorities
         else throw err)"

definition CheckAny :: "'x env_scheme manager \<Rightarrow> ctx \<Rightarrow> Authority list \<Rightarrow> ('x, unit) eop" where
  "CheckAny m c authorities = check_any_loop m c None authorities"

end
