(* ===== verification/Manager_Refresh.thy ===== *)
theory Manager_Refresh
  imports Manager_Access
begin

text \<open>
  The refresh flow of \<open>core/refresh.go\<close> and the online operations of \<open>core/online.go\<close>. The
  deferred restoration of \<open>Refresh\<close> runs on every exit after the claim; the flag it consults is
  cleared only when the result is decided, so it is the error path of the protected body.
\<close>

subsection \<open>Login with a refresh token\<close>

record LoginResult =
  lr_TokenState :: TokenState
  lr_RefreshState :: TokenState

definition newRefreshState ::
    "'x env_scheme manager \<Rightarrow> TokenValue \<Rightarrow> TokenState \<Rightarrow> ('x, TokenState) eop" where
  "newRefreshState m refreshToken access =
     bindE (m_now m) (\<lambda>now.
     let timeout = rc_Timeout (cf_Refresh (m_config m));
         expiresAt = (if timeout > 0 then Some (Time_Add now timeout) else None)
     in ret \<lparr>ts_Token = storeKey refreshToken, ts_Kind = TokenKindRefresh,
          ts_LoginID = ts_LoginID access, ts_LoginType = ts_LoginType access,
          ts_Device = ts_Device access, ts_CreatedAt = now, ts_LastActiveAt = now,
          ts_ExpiresAt = expiresAt, ts_Status = TokenStatusActive,
          ts_Metadata = cloneRawMessage (ts_Metadata access),
          ts_Refresh = Some (empty_RefreshInfo\<lparr>ri_AccessToken := ts_Token access\<rparr>),
          ts_Nonce = None, ts_Online = None\<rparr>)"

definition LoginWithRefresh ::
    "'x env_scheme manager \<Rightarrow> ctx \<Rightarrow> string \<Rightarrow> TokenValue \<Rightarrow> TokenValue \<Rightarrow>
     loginOptions go_option list \<Rightarrow> ('x, LoginResult) eop" where
  "LoginWithRefresh m c loginID accessToken refreshToken opts =
     (let c = normalizeContext c; refreshToken = TrimSpace refreshToken
      in if refreshToken = [] then throw ErrEmptyRefreshToken
         else if storeKey accessToken = storeKey refreshToken then throw ErrNextRefreshTokenReuse
         else
           let loginOpts = option_Apply default_loginOptions opts
           in bindE (login m c loginID accessToken loginOpts True) (\<lambda>accessState.
              bindE (newRefreshState m refreshToken accessState) (\<lambda>refreshState.
              bindE (m_now m) (\<lambda>now.
              bindE (attempt (st_SaveTokenState (m_store m) c (Some refreshState)
                       (remainingTTL now refreshState))) (\<lambda>saved.
              case saved of
                Inl err \<Rightarrow>
                  bindE (attempt (st_DeleteTokenState (m_store m) c (ts_Token accessState))) (\<lambda>_.
                  throw err)
              | Inr _ \<Rightarrow>
                  bindE (publish m c (new_Event EventRefreshIssued (ts_LoginID accessState)
                           (ts_LoginType accessState) (ts_Token accessState))) (\<lambda>_.
                  ret \<lparr>lr_TokenState = the (withPlaintextToken (Some accessState) accessToken),
                       lr_RefreshState =
                         the (withPlaintextToken (Some refreshState) refreshToken)\<rparr>))))))"

subsection \<open>Claiming a refresh token\<close>

definition validateNextAccessToken ::
    "'x env_scheme manager \<Rightarrow> TokenState \<Rightarrow> TokenValue \<Rightarrow> TokenValue \<Rightarrow> ('x, unit) eop" where
  "validateNextAccessToken m state nextAccessToken nextRefreshToken =
     (let rc = cf_Refresh (m_config m)
      in if rc_RotateRefreshToken rc
            \<and> (case ts_Refresh state of None \<Rightarrow> False
               | Some r \<Rightarrow> storeKey nextRefreshToken = ri_AccessToken r)
         then throw ErrNextRefreshTokenReuse
         else
           case ts_Refresh state of
             None \<Rightarrow> ret ()
           | Some r \<Rightarrow>
               if \<not> rc_RevokeAccessTokenOnRefresh rc \<or> ri_AccessToken r = [] then ret ()
               else if storeKey nextAccessToken = ri_AccessToken r
               then throw ErrNextAccessTokenReuse
               else ret ())"

definition loadUsableRefreshToken ::
    "'x env_scheme manager \<Rightarrow> ctx \<Rightarrow> TokenValue \<Rightarrow> ('x, TokenState) eop" where
  "loadUsableRefreshToken m c refreshToken =
     (let key = storeKey refreshToken
      in bindE (st_GetTokenState (m_store m) c key) (\<lambda>found.
         case found of
           None \<Rightarrow> throw ErrRefreshTokenNotFound
         | Some state \<Rightarrow>
             let state = TokenState_Normalize state
             in if ts_Kind state \<noteq> TokenKindRefresh then throw ErrUnsupportedKind
                else if ts_Status state \<noteq> TokenStatusActive then throw ErrRefreshTokenRevoked
                else
                  bindE (m_now m) (\<lambda>now.
                  if IsExpired state now
                  then bindE (attempt (st_DeleteTokenState (m_store m) c key)) (\<lambda>_.
                       throw ErrRefreshTokenExpired)
                  else ret state)))"

definition consumeUsableRefreshToken ::
    "'x env_scheme manager \<Rightarrow> ctx \<Rightarrow> TokenValue \<Rightarrow> ('x, TokenState) eop" where
  "consumeUsableRefreshToken m c refreshToken =
     bindE (consumeTokenState m c (storeKey refreshToken) TokenKindRefresh) (\<lambda>found.
     case found of
       None \<Rightarrow> throw ErrRefreshTokenNotFound
     | Some state \<Rightarrow>
         let state = TokenState_Normalize state
         in if ts_Kind state \<noteq> TokenKindRefresh then throw ErrUnsupportedKind
            else if ts_Status state \<noteq> TokenStatusActive then throw ErrRefreshTokenRevoked
            else
              bindE (m_now m) (\<lambda>now.
              if IsExpired state now then throw ErrRefreshTokenExpired else ret state))"

subsection \<open>Refresh\<close>

text \<open>From the second validation to the new access token: revoke the old one, log in again.\<close>

definition next_access ::
    "'x env_scheme manager \<Rightarrow> ctx \<Rightarrow> TokenState \<Rightarrow> TokenValue \<Rightarrow> refreshFlowOptions \<Rightarrow>
     ('x, TokenState) eop" where
  "next_access m c state nextAccessToken flowOpts =
     (let rc = cf_Refresh (m_config m)
      in bindE (validateNextAccessToken m state nextAccessToken (rf_nextRefreshToken flowOpts)) (\<lambda>_.
         bindE (case ts_Refresh state of
                  None \<Rightarrow> ret ()
                | Some r \<Rightarrow>
                    whenE (rc_RevokeAccessTokenOnRefresh rc \<and> ri_AccessToken r \<noteq> [])
                      (bindE (st_DeleteTokenState (m_store m) c (ri_AccessToken r)) (\<lambda>_.
                       publish m c (new_Event EventLogout (ts_LoginID state)
                         (ts_LoginType state) [])))) (\<lambda>_.
         let device = (if rf_device flowOpts \<noteq> [] then rf_device flowOpts else ts_Device state);
             metadata = (if rf_metadata flowOpts \<noteq> None \<and> rf_metadata flowOpts \<noteq> Some []
                         then cloneRawMessage (rf_metadata flowOpts)
                         else cloneRawMessage (ts_Metadata state));
             keepRefresh = (if \<not> rc_RotateRefreshToken rc then ts_Token state else [])
         in login m c (ts_LoginID state) nextAccessToken
              \<lparr>lo_loginType = ts_LoginType state, lo_device = device, lo_metadata = metadata,
               lo_nonce = [], lo_preserveRefresh = keepRefresh\<rparr> False)))"

text \<open>The refresh state that follows the claimed one, and its write.\<close>

definition next_refresh ::
    "'x env_scheme manager \<Rightarrow> TokenValue \<Rightarrow> TokenValue \<Rightarrow> TokenState \<Rightarrow> TokenState \<Rightarrow> time \<Rightarrow>
     ('x, TokenState) eop" where
  "next_refresh m refreshToken nextRefreshToken state tokenState now =
     (if rc_RotateRefreshToken (cf_Refresh (m_config m))
      then
        bindE (newRefreshState m nextRefreshToken tokenState) (\<lambda>fresh.
        ret (fresh\<lparr>ts_Refresh := map_option (\<lambda>r. r\<lparr>ri_RotatedFrom := storeKey refreshToken,
               ri_LastUsedAt := utcTimePtr now\<rparr>) (ts_Refresh fresh)\<rparr>))
      else
        let info = (case ts_Refresh state of None \<Rightarrow> empty_RefreshInfo | Some r \<Rightarrow> r);
            info = info\<lparr>ri_AccessToken := ts_Token tokenState, ri_LastUsedAt := utcTimePtr now\<rparr>;
            state = state\<lparr>ts_Refresh := Some info, ts_Device := ts_Device tokenState,
                      ts_Metadata := cloneRawMessage (ts_Metadata tokenState)\<rparr>
        in ret (Touch state now))"

definition refresh_body ::
    "'x env_scheme manager \<Rightarrow> ctx \<Rightarrow> TokenValue \<Rightarrow> TokenValue \<Rightarrow> refreshFlowOptions \<Rightarrow>
     TokenState \<Rightarrow> TokenState \<Rightarrow> ('x, LoginResult) eop" where
  "refresh_body m c refreshToken nextAccessToken flowOpts state expected =
     (let rotate = rc_RotateRefreshToken (cf_Refresh (m_config m))
      in bindE (next_access m c state nextAccessToken flowOpts) (\<lambda>tokenState.
         bindE (m_now m) (\<lambda>now.
         bindE (next_refresh m refreshToken (rf_nextRefreshToken flowOpts) state tokenState now)
           (\<lambda>nextRefreshState.
         bindE (attempt
                  (if rotate
                   then st_SaveTokenState (m_store m) c (Some nextRefreshState)
                          (remainingTTL now nextRefreshState)
                   else updateTokenState m c expected nextRefreshState
                          (remainingTTL now nextRefreshState))) (\<lambda>saved.
         case saved of
           Inl err \<Rightarrow>
             bindE (attempt (st_DeleteTokenState (m_store m) c (ts_Token tokenState))) (\<lambda>_.
             throw err)
         | Inr _ \<Rightarrow>
             bindE (publish m c (new_Event EventRefresh (ts_LoginID tokenState)
                      (ts_LoginType tokenState) (ts_Token tokenState))) (\<lambda>_.
             let plaintextRefresh = (if rotate then rf_nextRefreshToken flowOpts else refreshToken)
             in ret \<lparr>lr_TokenState = the (withPlaintextToken (Some tokenState) nextAccessToken),
                     lr_RefreshState =
                       the (withPlaintextToken (Some nextRefreshState) plaintextRefresh)\<rparr>))))))"

text \<open>The deferred function: on an error, put the claimed state back under a context that
  outlives the caller's.\<close>

definition restoring ::
    "'x env_scheme manager \<Rightarrow> ctx \<Rightarrow> TokenState \<Rightarrow> TokenState \<Rightarrow> ('x, 'a) eop \<Rightarrow> ('x, 'a) eop" where
  "restoring m c expected original body =
     bindE (attempt body) (\<lambda>r.
     case r of
       Inr result \<Rightarrow> ret result
     | Inl err \<Rightarrow>
         bindE (m_now m) (\<lambda>now.
         bindE (attempt (updateTokenState m (cleanup_context c) expected original
                           (remainingTTL now original))) (\<lambda>cleanup.
         case cleanup of
           Inr _ \<Rightarrow> throw err
         | Inl cleanupErr \<Rightarrow> throw (ErrJoin err (ErrWrap ''restore refresh token'' cleanupErr)))))"

definition Refresh ::
    "'x env_scheme manager \<Rightarrow> ctx \<Rightarrow> TokenValue \<Rightarrow> TokenValue \<Rightarrow>
     refreshFlowOptions go_option list \<Rightarrow> ('x, LoginResult) eop" where
  "Refresh m c refreshToken nextAccessToken opts =
     (let c = normalizeContext c; refreshToken = TrimSpace refreshToken;
          nextAccessToken = TrimSpace nextAccessToken;
          rotate = rc_RotateRefreshToken (cf_Refresh (m_config m));
          flowOpts = option_Apply default_refreshFlowOptions opts
      in if refreshToken = [] then throw ErrEmptyRefreshToken
         else if nextAccessToken = [] then throw ErrEmptyToken
         else if rotate \<and> rf_nextRefreshToken flowOpts = [] then throw ErrNextRefreshTokenRequired
         else if rotate \<and> rf_nextRefreshToken flowOpts = refreshToken
         then throw ErrNextRefreshTokenReuse
         else if nextAccessToken = refreshToken then throw ErrNextAccessTokenReuse
         else if rotate \<and> nextAccessToken = rf_nextRefreshToken flowOpts
         then throw ErrNextRefreshTokenReuse
         else
           bindE (loadUsableRefreshToken m c refreshToken) (\<lambda>state.
           bindE (validateNextAccessToken m state nextAccessToken (rf_nextRefreshToken flowOpts)) (\<lambda>_.
           bindE (consumeUsableRefreshToken m c refreshToken) (\<lambda>state.
           bindE (m_now m) (\<lambda>now.
           let expected = MarkConsumed (TokenState_Clone state) now;
               body = refresh_body m c refreshToken nextAccessToken flowOpts state expected
           in if rotate then body
              else restoring m c expected (TokenState_Clone state) body)))))"

subsection \<open>Revocation\<close>

definition RevokeRefreshToken ::
    "'x env_scheme manager \<Rightarrow> ctx \<Rightarrow> TokenValue \<Rightarrow> ('x, unit) eop" where
  "RevokeRefreshToken m c refreshToken =
     (let c = normalizeContext c; refreshToken = TrimSpace refreshToken
      in if refreshToken = [] then throw ErrEmptyRefreshToken
         else
           bindE (st_GetTokenState (m_store m) c (storeKey refreshToken)) (\<lambda>found.
           case found of
             None \<Rightarrow> throw ErrRefreshTokenNotFound
           | Some state \<Rightarrow>
               let state = TokenState_Normalize state
               in if ts_Kind state \<noteq> TokenKindRefresh then throw ErrUnsupportedKind
                  else
                    let accessToken = (case ts_Refresh state of
                          None \<Rightarrow> [] | Some r \<Rightarrow> ri_AccessToken r);
                        expected = TokenState_Clone state
                    in bindE (m_now m) (\<lambda>revokedAt.
                       let state = MarkRevoked state revokedAt
                       in bindE (m_now m) (\<lambda>now.
                          bindE (updateTokenState m c expected state (remainingTTL now state)) (\<lambda>_.
                          publish m c (new_Event EventRefreshRevoked (ts_LoginID state)
                            (ts_LoginType state) accessToken))))))"

definition RevokeRefreshByLoginID ::
    "'x env_scheme manager \<Rightarrow> ctx \<Rightarrow> string \<Rightarrow> logoutOptions go_option list \<Rightarrow> ('x, unit) eop" where
  "RevokeRefreshByLoginID m c loginID opts =
     (let c = normalizeContext c; loginID = TrimSpace loginID
      in if loginID = [] then throw ErrEmptyLoginID
         else
           let logoutOpts = option_Apply default_logoutOptions opts;
               subject = LoginSubject_Normalize
                 \<lparr>sub_LoginID = loginID, sub_LoginType = go_loginType logoutOpts\<rparr>
           in bindE (st_DeleteTokenStates (m_store m) c subject [TokenKindRefresh]) (\<lambda>_.
              publish m c (new_Event EventRefreshRevoked (sub_LoginID subject)
                (sub_LoginType subject) [])))"

subsection \<open>Online\<close>

fun unexpired_states :: "time \<Rightarrow> TokenState option list \<Rightarrow> TokenState list" where
  "unexpired_states now [] = []"
| "unexpired_states now (rs # states) =
     (case rs of
        None \<Rightarrow> unexpired_states now states
      | Some s \<Rightarrow> if IsExpired s now then unexpired_states now states
                  else TokenState_Clone s # unexpired_states now states)"

definition ListTokenStates ::
    "'x env_scheme manager \<Rightarrow> ctx \<Rightarrow> string \<Rightarrow> listTokenOptions go_option list \<Rightarrow>
     ('x, TokenState list) eop" where
  "ListTokenStates m c loginID opts =
     (let c = normalizeContext c; loginID = TrimSpace loginID
      in if loginID = [] then throw ErrEmptyLoginID
         else
           let listOpts = option_Apply default_listTokenOptions opts;
               subject = LoginSubject_Normalize
                 \<lparr>sub_LoginID = loginID, sub_LoginType = lt_loginType listOpts\<rparr>
           in bindE (st_FindTokenStates (m_store m) c subject [TokenKindAccess]) (\<lambda>states.
              bindE (m_now m) (\<lambda>now.
              ret (unexpired_states now states))))"

fun logout_device_loop ::
    "'x env_scheme manager \<Rightarrow> ctx \<Rightarrow> string \<Rightarrow> nat \<Rightarrow> TokenState option list \<Rightarrow> ('x, nat) eop" where
  "logout_device_loop m c device deleted [] = ret deleted"
| "logout_device_loop m c device deleted (rs # states) =
     (case rs of
        None \<Rightarrow> logout_device_loop m c device deleted states
      | Some s \<Rightarrow>
          if TrimSpace (ts_Device s) \<noteq> device then logout_device_loop m c device deleted states
          else
            bindE (st_DeleteTokenState (m_store m) c (ts_Token s)) (\<lambda>_.
            bindE (revokeRefreshForAccessToken m c s) (\<lambda>_.
            logout_device_loop m c device (Suc deleted) states)))"

definition LogoutByDevice ::
    "'x env_scheme manager \<Rightarrow> ctx \<Rightarrow> string \<Rightarrow> string \<Rightarrow> logoutOptions go_option list \<Rightarrow>
     ('x, unit) eop" where
  "LogoutByDevice m c loginID device opts =
     (let c = normalizeContext c; loginID = TrimSpace loginID; device = TrimSpace device
      in if loginID = [] then throw ErrEmptyLoginID
         else if device = [] then throw ErrEmptyDevice
         else
           let logoutOpts = option_Apply default_logoutOptions opts;
               subject = LoginSubject_Normalize
                 \<lparr>sub_LoginID = loginID, sub_LoginType = go_loginType logoutOpts\<rparr>
           in bindE (st_FindTokenStates (m_store m) c subject [TokenKindAccess]) (\<lambda>states.
              bindE (logout_device_loop m c device 0 states) (\<lambda>deleted.
              whenE (deleted > 0)
                (publish m c ((new_Event EventKickOut (sub_LoginID subject)
                   (sub_LoginType subject) [])
                     \<lparr>ev_Metadata := Some [(''device'', AnyString device)]\<rparr>)))))"

definition MarkOnline ::
    "'x env_scheme manager \<Rightarrow> ctx \<Rightarrow> TokenValue \<Rightarrow> OnlineInfo \<Rightarrow> ('x, unit) eop" where
  "MarkOnline m c token info =
     (let c = normalizeContext c
      in bindE (getTokenState m c token False) (\<lambda>state.
         if ts_Kind state \<noteq> TokenKindAccess then throw ErrUnsupportedKind
         else
           let expected = TokenState_Clone state
           in bindE (m_now m) (\<lambda>now.
              let state = TokenState_MarkOnline state now info
              in bindE (updateTokenState m c expected state (remainingTTL now state)) (\<lambda>_.
                 publish m c (new_Event EventOnline (ts_LoginID state) (ts_LoginType state)
                   (ts_Token state))))))"

definition MarkOffline ::
    "'x env_scheme manager \<Rightarrow> ctx \<Rightarrow> TokenValue \<Rightarrow> ('x, unit) eop" where
  "MarkOffline m c token =
     (let c = normalizeContext c
      in bindE (getTokenState m c token False) (\<lambda>state.
         if ts_Kind state \<noteq> TokenKindAccess then throw ErrUnsupportedKind
         else
           let expected = TokenState_Clone state
           in bindE (m_now m) (\<lambda>now.
              let state = TokenState_MarkOffline state now
              in bindE (updateTokenState m c expected state (remainingTTL now state)) (\<lambda>_.
                 publish m c (new_Event EventOffline (ts_LoginID state) (ts_LoginType state)
                   (ts_Token state))))))"

end
