(* ===== verification/Memory_Safe.thy ===== *)
theory Memory_Safe
  imports Memory_Correct
begin

text \<open>
  The in-memory store meets the contracts of its clients: with its invariant it keeps the table
  free of plaintext (every stored state is hashed) and hands out hashed states only. This
  discharges the laws of \<open>token_store\<close> and \<open>atomic_store\<close> for the code of the store.
\<close>

definition hashed_table :: "(TokenValue \<Rightarrow> tokenItem option) \<Rightarrow> bool" where
  "hashed_table ts \<longleftrightarrow> (\<forall>k it. ts k = Some it \<longrightarrow> hashed_state (ti_state it))"

definition mem_safe :: "'x mem_scheme \<Rightarrow> bool" where
  "mem_safe w \<longleftrightarrow> mem_inv w \<and> hashed_table (mem_tokens w)"

lemma mem_safe_inv: "mem_safe w \<Longrightarrow> mem_inv w"
  by (simp add: mem_safe_def)

lemma mem_safe_hashed: "mem_safe w \<Longrightarrow> hashed_table (mem_tokens w)"
  by (simp add: mem_safe_def)

lemma mem_safe_leaves: "leaves w ts ss w' \<Longrightarrow> hashed_table ts \<Longrightarrow> mem_safe w'"
  by (auto simp: leaves_def mem_safe_def)

lemma mem_safe_tick [simp]: "mem_safe (tick w) = mem_safe w"
  by (simp add: mem_safe_def)

lemma mem_safe_publish [simp]: "mem_safe (w\<lparr>env_published := evs\<rparr>) = mem_safe w"
  by (simp add: mem_safe_def)

lemma mem_safe_NewStore: "mem_safe (mem_NewStore e)"
  using mem_inv_NewStore [of e]
  by (simp add: mem_safe_def hashed_table_def mem_NewStore_def mem.defs env.defs)

subsection \<open>The effects keep the table hashed\<close>

lemma hashed_live_item: "hashed_table ts \<Longrightarrow> live_item t ts k = Some it \<Longrightarrow> hashed_state (ti_state it)"
  by (auto simp: hashed_table_def dest: live_item_SomeD)

lemma hashed_live_state: "hashed_table ts \<Longrightarrow> hashed_opt (live_state t ts k)"
  by (auto simp: hashed_opt_def live_state_def intro: hashed_live_item)

lemma hashed_evicted: "hashed_table ts \<Longrightarrow> hashed_table (evicted t k ts)"
  by (auto simp: evicted_def hashed_table_def live_item_def split: option.splits if_splits)

lemma hashed_drop_where: "hashed_table ts \<Longrightarrow> hashed_table (drop_where P ts)"
  by (auto simp: drop_where_def hashed_table_def split: option.splits if_splits)

lemma hashed_consumed: "hashed_table ts \<Longrightarrow> hashed_table (consumed_table t k kind ts)"
  by (auto simp: consumed_table_def hashed_table_def dest: live_item_SomeD split: option.splits if_splits)

lemma hashed_stored: "hashed_table ts \<Longrightarrow> hashed_state s \<Longrightarrow> hashed_table (ts(k \<mapsto> stored_item s t ttl))"
  by (auto simp: hashed_table_def stored_item_def stored_state_def)

lemma hashed_removed: "hashed_table ts \<Longrightarrow> hashed_table (ts(k := None))"
  by (auto simp: hashed_table_def)

lemma hashed_owned: "hashed_table ts \<Longrightarrow> s \<in> owned_states t key kinds ts \<Longrightarrow> hashed_state s"
  by (auto simp: owned_states_def intro: hashed_live_item)

subsection \<open>Refused writes\<close>

lemma wp_mem_saveTokenState_refused:
  assumes inv: "mem_inv w" and bad: "\<not> storable s"
    and err: "\<And>e w'. leaves w (mem_tokens w) (mem_sessions w) w' \<Longrightarrow> E e w'"
  shows "wp (mem_saveTokenState c expected (Some s) ttl) Q E w"
  unfolding mem_saveTokenState_def
proof (rule wp_guarded [OF inv], goal_cases)
  case 1
  show ?case by (simp add: on_cancel_def err)
next
  case (2 v)
  have "ts_Token s = [] \<or> (ts_LoginID (stored_state s) = [] \<and> ts_Kind (stored_state s) \<noteq> TokenKindNonce)"
    using bad by (auto simp: storable_def stored_state_def TokenState_Normalize_def Let_def)
  then show ?case
    using err [OF 2] by (auto simp: Let_def wp_simps simp flip: stored_state_def)
qed

subsection \<open>The contracts\<close>

lemma on_cancel_safe: "mem_safe w \<Longrightarrow> on_cancel c w (\<lambda>_. mem_safe)"
  by (auto simp: on_cancel_def mem_safe_def leaves_def)

lemma mem_safe_unchanged:
  "mem_safe w \<Longrightarrow> leaves w (mem_tokens w) (mem_sessions w) w' \<Longrightarrow> mem_safe w'"
  by (simp add: mem_safe_leaves mem_safe_hashed)

lemmas safe_intros = on_cancel_safe mem_safe_inv mem_safe_hashed mem_safe_leaves hashed_stored
  hashed_evicted hashed_live_state hashed_consumed hashed_removed hashed_drop_where

lemma keeps_mem_Save:
  assumes "hashed_state s"
  shows "keeps mem_safe (mem_SaveTokenState c (Some s) ttl) (\<lambda>_. True)"
proof (cases "storable s")
  case True
  with assms show ?thesis
    by (intro keeps_wp wp_mem_SaveTokenState)
      (auto intro: safe_intros)
next
  case False
  then show ?thesis
    unfolding mem_SaveTokenState_def
    by (intro keeps_wp wp_mem_saveTokenState_refused) (auto intro: safe_intros)
qed

lemma keeps_mem_Get: "keeps mem_safe (mem_GetTokenState c k) hashed_opt"
  by (intro keeps_wp wp_mem_GetTokenState)
    (auto intro: safe_intros)

lemma keeps_mem_consume: "keeps mem_safe (mem_consumeTokenState c k kind) hashed_opt"
  by (intro keeps_wp wp_mem_consumeTokenState)
    (auto intro: safe_intros)

lemma keeps_mem_Delete: "keeps mem_safe (mem_DeleteTokenState c k) (\<lambda>_. True)"
  by (intro keeps_wp wp_mem_DeleteTokenState)
    (auto intro: safe_intros)

lemma keeps_mem_Find: "keeps mem_safe (mem_FindTokenStates c subject kinds) hashed_list"
  by (intro keeps_wp wp_mem_FindTokenStates)
    (auto intro: safe_intros hashed_owned simp: hashed_list_def)

lemma keeps_mem_DeleteAll: "keeps mem_safe (mem_DeleteTokenStates c subject kinds) (\<lambda>_. True)"
  by (intro keeps_wp wp_mem_DeleteTokenStates)
    (auto intro: safe_intros)

lemma keeps_mem_CAS:
  assumes "hashed_state n"
  shows "keeps mem_safe (mem_CompareAndSwapTokenState c (Some e) (Some n) ttl) (\<lambda>_. True)"
proof -
  consider "ts_Token e \<noteq> ts_Token n" | "ts_Token e = ts_Token n" "storable n"
    | "ts_Token e = ts_Token n" "\<not> storable n" by blast
  then show ?thesis
  proof cases
    case 1
    then show ?thesis by (simp add: mem_CompareAndSwapTokenState_def keeps_throw)
  next
    case 2
    with assms show ?thesis
      by (intro keeps_wp wp_mem_CompareAndSwapTokenState)
        (auto intro: safe_intros)
  next
    case 3
    then have "keeps mem_safe (mem_saveTokenState c (Some e) (Some n) ttl) (\<lambda>_. True)"
      by (intro keeps_wp wp_mem_saveTokenState_refused) (auto intro: safe_intros)
    with 3 show ?thesis
      by (auto simp: mem_CompareAndSwapTokenState_def intro!: keeps_intros)
  qed
qed

lemma keeps_mem_ConsumeOfKind: "keeps mem_safe (mem_ConsumeTokenStateOfKind c k kind) hashed_opt"
  by (simp add: mem_ConsumeTokenStateOfKind_def keeps_intros keeps_mem_consume)

lemma keeps_mem_SaveSession: "keeps mem_safe (mem_SaveSession c session ttl) (\<lambda>_. True)"
proof (cases "\<exists>s. session = Some s \<and> \<not> LoginSubject_IsZero (se_Subject s)")
  case True
  then show ?thesis
    by (auto intro!: keeps_wp wp_mem_SaveSession intro: safe_intros)
next
  case False
  have "tick_stable (mem_safe :: 'x mem_scheme \<Rightarrow> bool)" by (simp add: tick_stable_def)
  with False show ?thesis
    by (cases session) (auto simp: mem_SaveSession_def Let_def intro!: keeps_intros keeps_ctxErr)
qed

lemma keeps_mem_EnsureSession: "keeps mem_safe (mem_EnsureSession c subject ttl) (\<lambda>_. True)"
proof (cases "LoginSubject_IsZero subject")
  case False
  then show ?thesis
    by (auto intro!: keeps_wp wp_mem_EnsureSession intro: safe_intros)
next
  case True
  have "tick_stable (mem_safe :: 'x mem_scheme \<Rightarrow> bool)" by (simp add: tick_stable_def)
  with True show ?thesis
    by (auto simp: mem_EnsureSession_def Let_def intro!: keeps_intros keeps_ctxErr)
qed

lemma keeps_mem_GetSession: "keeps mem_safe (mem_GetSession c subject) (\<lambda>_. True)"
  by (intro keeps_wp wp_mem_GetSession) (auto intro: safe_intros)

lemma keeps_mem_DeleteSession: "keeps mem_safe (mem_DeleteSession c subject) (\<lambda>_. True)"
  by (intro keeps_wp wp_mem_DeleteSession) (auto intro: safe_intros)

lemma mem_observed: "observed_world (mem_safe :: 'x mem_scheme \<Rightarrow> bool)"
  by unfold_locales (simp_all add: tick_stable_def)

interpretation mem_token: token_store mem_safe mem_store_ops
  by (intro token_store.intro mem_observed token_store_axioms.intro)
    (simp_all add: mem_store_ops_def keeps_mem_Save keeps_mem_Get keeps_mem_consume
      mem_ConsumeTokenState_def keeps_mem_Delete keeps_mem_Find keeps_mem_DeleteAll
      keeps_mem_SaveSession keeps_mem_GetSession keeps_mem_DeleteSession)

interpretation mem_atomic: atomic_store mem_safe mem_atomic_ops
  by (intro atomic_store.intro mem_observed atomic_store_axioms.intro)
    (simp_all add: mem_atomic_ops_def keeps_mem_CAS keeps_mem_ConsumeOfKind keeps_mem_EnsureSession)

end
