(* ===== verification/Manager_Safe.thy ===== *)
theory Manager_Safe
  imports Manager_Refresh Memory_Safe
begin

text \<open>
  Every operation of the Manager keeps the invariant of its store, on every path, errors and
  cancellations included, and writes hashed states only. The proofs are done once in a locale for
  any store, authorizer and bus that meet their contracts, with or without the optional atomic
  capability, and are then interpreted on Managers over the in-memory store.
\<close>

locale managed = token_store I "m_store m"
  for I :: "'x env_scheme \<Rightarrow> bool" and m :: "'x env_scheme manager" +
  assumes atomic: "m_atomicStore m = Some A \<Longrightarrow> atomic_store I A"
    and authorizer: "keeps I (az_HasAuthority (m_authorizer m) c i x) (\<lambda>_. True)"
    and sink: "m_eventBus m = Some b \<Longrightarrow> event_sink I b"
begin

subsection \<open>Shared steps\<close>

lemma now_k: "keeps I (m_now m) (\<lambda>_. True)"
  unfolding m_now_def by (rule keeps_read_now [OF I_tick])

lemma ctx_k: "keeps I (ctxErr c) (\<lambda>_. True)"
  by (rule keeps_ctxErr [OF I_tick])

lemma publish_k: "keeps I (publish m c ev) (\<lambda>_. True)"
proof (cases "m_eventBus m")
  case (Some b)
  have "keeps I (modify (b c e)) (\<lambda>_. True)" for e
    using event_sink.publish_keeps [OF sink [OF Some]] by (rule keeps_modify)
  with Some show ?thesis
    by (auto simp: publish_def intro!: keeps_intros now_k)
qed (simp add: publish_def keeps_ret)

lemma update_k:
  assumes "hashed_state n"
  shows "keeps I (updateTokenState m c e n ttl) (\<lambda>_. True)"
  using atomic_store.cas [OF atomic assms] save [OF assms]
  by (auto simp: updateTokenState_def split: option.split intro!: keeps_intros)

lemma consume_k: "keeps I (consumeTokenState m c k kind) hashed_opt"
proof (cases "m_atomicStore m")
  case (Some A)
  then show ?thesis
    using atomic_store.consume_kind [OF atomic] by (simp add: consumeTokenState_def)
next
  case None
  then show ?thesis
    unfolding consumeTokenState_def
    by (auto intro!: keeps_bindE [OF get] keeps_case_option keeps_if keeps_bindE [OF now_k]
        keeps_ret consume simp: Let_def)
qed

lemma sync_k: "keeps I (syncSessionTTL m c subject ttl) (\<lambda>_. True)"
  using atomic_store.ensure [OF atomic]
  by (auto simp: syncSessionTTL_def Let_def split: option.split
      intro!: keeps_bindE [OF get_session] save_session)

lemmas step_k = delete delete_all delete_session save_session now_k ctx_k publish_k sync_k

lemmas bind_k = keeps_bindE [OF get] keeps_bindE [OF consume_k] keeps_bindE [OF find]

lemma hashed_listD: "hashed_list (Some s # ss) \<Longrightarrow> hashed_state s \<and> hashed_list ss"
  by (simp add: hashed_list_def)

subsection \<open>Nonces\<close>

lemma random_k:
  "keeps I (RandomString n) (\<lambda>s. length s = nat n \<and> set s \<subseteq> set url_alphabet)"
  by (rule keeps_RandomString [OF I_tick])

lemma random_nonce_trimmed:
  assumes "s \<noteq> []" and "set s \<subseteq> set url_alphabet"
  shows "TrimSpace s = s"
proof (rule TrimSpace_graphic [OF assms(1)])
  have "\<forall>x \<in> set url_alphabet. graphic x"
    by (simp add: url_alphabet_def graphic_def)
  with assms show "graphic (hd s)" "graphic (last s)"
    using hd_in_set [OF assms(1)] last_in_set [OF assms(1)] by blast+
qed

lemma GenerateNonce_k: "keeps I (GenerateNonce m c opts) (\<lambda>_. True)"
proof -
  have st: "hashed_state s" if "ts_Token s = storeKey n" "TrimSpace n = n" "n \<noteq> []" "ts_Refresh s = None"
    for s n using that by (simp add: hashed_state_def)
  show ?thesis
    unfolding GenerateNonce_def Let_def
    apply (rule keeps_bindE_True [OF ctx_k])
    apply (rule keeps_bindE [OF keeps_attempt_value [OF random_k]])
    apply (rule keeps_case_sum keeps_throw keeps_if)+
    apply (rule keeps_bindE_True [OF now_k])
    apply (rule keeps_bindE_True [OF save])
     apply (rule st [OF _ random_nonce_trimmed])
        apply (auto intro: keeps_ret)
    done
qed

lemma ConsumeNonce_k: "keeps I (ConsumeNonce m c n) (\<lambda>_. True)"
  unfolding ConsumeNonce_def Let_def
  by (intro keeps_if keeps_throw bind_k keeps_case_option keeps_bindE_True [OF now_k]
      keeps_bindE_True [OF publish_k] keeps_ret) simp

subsection \<open>Access tokens\<close>

lemma delete_linked_k: "keeps I (delete_linked m c k ss) (\<lambda>_. True)"
  by (induction ss) (auto intro!: keeps_intros delete split: option.split)

lemma revokeForAccess_k: "keeps I (revokeRefreshForAccessToken m c s) (\<lambda>_. True)"
  unfolding revokeRefreshForAccessToken_def
  by (intro keeps_if bind_k delete_linked_k keeps_ret) simp

lemma delete_except_k: "keeps I (delete_except m c k ss) (\<lambda>_. True)"
  by (induction ss) (auto intro!: keeps_intros delete split: option.split)

lemma revokeExcept_k: "keeps I (revokeRefreshExcept m c subject keep) (\<lambda>_. True)"
  unfolding revokeRefreshExcept_def
  by (intro keeps_if bind_k delete_except_k delete_all keeps_ret) simp_all

lemma replace_k: "keeps I (replace_others m c subject keep) (\<lambda>_. True)"
  unfolding replace_others_def
  by (intro keeps_bindE_True delete_all revokeExcept_k publish_k)

lemma hashed_access_state [simp]: "TrimSpace token \<noteq> [] \<Longrightarrow> hashed_state (access_state cf subject lo token now)"
  by (simp add: access_state_def hashed_state_def)

lemma login_k: "keeps I (login m c i token lo b) hashed_state"
  unfolding login_def Let_def
  by (intro keeps_if keeps_throw keeps_bindE_True keeps_whenE ConsumeNonce_k now_k replace_k save
      sync_k publish_k keeps_ret) auto

lemma Login_k: "keeps I (Login m c i token opts) (\<lambda>_. True)"
  unfolding Login_def by (intro keeps_bindE [OF login_k] keeps_ret) simp

lemma hashed_autoRenewed: "hashed_state s \<Longrightarrow> hashed_state (fst (autoRenewed cf s now))"
  by (simp add: autoRenewed_def Let_def)

lemma getTokenState_k: "keeps I (getTokenState m c token b) hashed_state"
  unfolding getTokenState_def Let_def case_prod_unfold
  by (intro keeps_if keeps_throw bind_k keeps_case_option keeps_bindE_True [OF now_k]
      keeps_bindE_True [OF keeps_attempt] delete keeps_bindE_True update_k sync_k publish_k keeps_ret)
    (auto simp: hashed_autoRenewed)

lemma GetTokenState_k: "keeps I (GetTokenState m c token) (\<lambda>_. True)"
  unfolding GetTokenState_def by (intro keeps_bindE [OF getTokenState_k] keeps_ret) simp

lemma IsValid_k: "keeps I (IsValid m c token) (\<lambda>_. True)"
  unfolding IsValid_def by (intro keeps_bindE_True keeps_attempt GetTokenState_k keeps_ret) simp

lemma hashed_renewed: "hashed_state s \<Longrightarrow> hashed_state (renewed_state s now ttl)"
  by (simp add: renewed_state_def Let_def)

lemma Renew_k: "keeps I (Renew m c token ttl) (\<lambda>_. True)"
  unfolding Renew_def Let_def
  by (intro keeps_bindE [OF getTokenState_k] keeps_bindE_True now_k update_k hashed_renewed sync_k
      publish_k)

lemma Logout_k: "keeps I (Logout m c token) (\<lambda>_. True)"
  unfolding Logout_def Let_def
  by (intro keeps_bindE [OF getTokenState_k] keeps_bindE_True delete revokeForAccess_k publish_k)

lemma LogoutByLoginID_k: "keeps I (LogoutByLoginID m c i opts) (\<lambda>_. True)"
  unfolding LogoutByLoginID_def Let_def revokeRefreshForSubject_def
  by (intro keeps_if keeps_throw keeps_bindE_True delete_all revokeExcept_k keeps_whenE
      delete_session publish_k)

subsection \<open>Sessions and authorities\<close>

lemma GetSession_k: "keeps I (GetSession m c i opts) (\<lambda>_. True)"
  unfolding GetSession_def Let_def
  by (intro keeps_if keeps_throw keeps_bindE_True get_session keeps_case_option keeps_ret) simp

lemma SaveSession_k: "keeps I (SaveSession m c s) (\<lambda>_. True)"
  unfolding SaveSession_def Let_def
  by (intro keeps_case_option keeps_if keeps_throw save_session)

lemma DeleteSession_k: "keeps I (DeleteSession m c i opts) (\<lambda>_. True)"
  unfolding DeleteSession_def Let_def by (intro keeps_if keeps_throw delete_session)

lemma CheckAuthority_k: "keeps I (CheckAuthority m c x) (\<lambda>_. True)"
  unfolding CheckAuthority_def Let_def
  by (intro keeps_case_sum keeps_throw keeps_if keeps_bindE_True authorizer keeps_ret) simp

lemma CheckAll_k: "keeps I (CheckAll m c xs) (\<lambda>_. True)"
  by (induction xs) (auto intro!: keeps_intros CheckAuthority_k)

lemma CheckAny_k: "keeps I (CheckAny m c xs) (\<lambda>_. True)"
proof -
  have "keeps I (check_any_loop m c d xs) (\<lambda>_. True)" for d
    by (induction xs arbitrary: d)
      (auto intro!: keeps_intros CheckAuthority_k split: option.split)
  then show ?thesis by (simp add: CheckAny_def)
qed

subsection \<open>The refresh flow\<close>

lemma newRefresh_k:
  assumes "hashed_state a" and "TrimSpace r \<noteq> []"
  shows "keeps I (newRefreshState m r a) (\<lambda>s. hashed_state s \<and> ts_Refresh s =
    Some (empty_RefreshInfo\<lparr>ri_AccessToken := ts_Token a\<rparr>))"
  unfolding newRefreshState_def Let_def
  by (intro keeps_bindE_True [OF now_k] keeps_ret)
    (use assms in \<open>simp add: hashed_state_def hashed_refresh_def empty_RefreshInfo_def\<close>)

lemma LoginWithRefresh_k: "keeps I (LoginWithRefresh m c i a r opts) (\<lambda>_. True)"
  unfolding LoginWithRefresh_def Let_def
  by (intro keeps_if keeps_throw keeps_bindE [OF login_k] keeps_bindE [OF newRefresh_k]
      keeps_bindE_True [OF now_k] keeps_bindE_True [OF keeps_attempt] save delete keeps_case_sum
      keeps_bindE_True [OF publish_k] keeps_ret) auto

lemma validate_k: "keeps I (validateNextAccessToken m s a r) (\<lambda>_. True)"
  unfolding validateNextAccessToken_def Let_def
  by (intro keeps_if keeps_throw keeps_case_option keeps_ret) simp_all

lemma load_k: "keeps I (loadUsableRefreshToken m c r) hashed_state"
  unfolding loadUsableRefreshToken_def Let_def
  by (intro bind_k keeps_case_option keeps_throw keeps_if keeps_bindE_True [OF now_k]
      keeps_bindE_True [OF keeps_attempt] delete keeps_ret) simp

lemma consumeUsable_k: "keeps I (consumeUsableRefreshToken m c r) hashed_state"
  unfolding consumeUsableRefreshToken_def Let_def
  by (intro bind_k keeps_case_option keeps_throw keeps_if keeps_bindE_True [OF now_k] keeps_ret) simp

lemma next_access_k: "keeps I (next_access m c s a fo) hashed_state"
  unfolding next_access_def Let_def
  by (intro keeps_bindE_True validate_k keeps_case_option keeps_ret keeps_whenE delete publish_k
      login_k) simp

lemma next_refresh_k:
  assumes "hashed_state s" and "hashed_state t"
    and "rc_RotateRefreshToken (cf_Refresh (m_config m)) \<Longrightarrow> TrimSpace n \<noteq> []"
  shows "keeps I (next_refresh m r n s t now) hashed_state"
  unfolding next_refresh_def Let_def
proof (intro keeps_if keeps_bindE [OF newRefresh_k] keeps_ret, goal_cases)
  case 4
  with assms show ?case
    by (auto simp: hashed_state_def hashed_refresh_def empty_RefreshInfo_def Touch_def
        split: option.splits)
qed (use assms in \<open>auto simp: hashed_state_def hashed_refresh_def empty_RefreshInfo_def\<close>)

lemma body_k:
  assumes "hashed_state s"
    and "rc_RotateRefreshToken (cf_Refresh (m_config m)) \<Longrightarrow> TrimSpace (rf_nextRefreshToken fo) \<noteq> []"
  shows "keeps I (refresh_body m c r a fo s e) (\<lambda>_. True)"
  unfolding refresh_body_def Let_def
  by (intro keeps_bindE [OF next_access_k] keeps_bindE_True [OF now_k]
      keeps_bindE [OF next_refresh_k] keeps_bindE_True [OF keeps_attempt] keeps_if save update_k delete
      keeps_case_sum keeps_throw keeps_bindE_True [OF publish_k] keeps_ret)
    (use assms in auto)

lemma restoring_k:
  assumes "hashed_state o'" and "keeps I body (\<lambda>_. True)"
  shows "keeps I (restoring m c e o' body) (\<lambda>_. True)"
  unfolding restoring_def
  by (intro keeps_bindE_True [OF keeps_attempt] assms keeps_case_sum keeps_ret
      keeps_bindE_True [OF now_k] update_k keeps_throw) simp

lemma Refresh_k:
  assumes "refresh_options opts"
  shows "keeps I (Refresh m c r a opts) (\<lambda>_. True)"
proof -
  have next_ok: "TrimSpace (rf_nextRefreshToken (option_Apply default_refreshFlowOptions opts)) \<noteq> []"
    if "rc_RotateRefreshToken (cf_Refresh (m_config m))"
      and "\<not> (rc_RotateRefreshToken (cf_Refresh (m_config m)) \<and>
        rf_nextRefreshToken (option_Apply default_refreshFlowOptions opts) = [])"
    using that next_token_trimmed [OF assms] by simp
  show ?thesis
    unfolding Refresh_def Let_def
    by (intro keeps_if keeps_throw keeps_bindE [OF load_k] keeps_bindE_True [OF validate_k]
        keeps_bindE [OF consumeUsable_k] keeps_bindE_True [OF now_k] body_k restoring_k)
      (use next_ok in auto)
qed

lemma RevokeRefreshToken_k: "keeps I (RevokeRefreshToken m c r) (\<lambda>_. True)"
  unfolding RevokeRefreshToken_def Let_def
  by (intro keeps_if keeps_throw bind_k keeps_case_option keeps_bindE_True [OF now_k]
      keeps_bindE_True update_k publish_k) simp

lemma RevokeRefreshByLoginID_k: "keeps I (RevokeRefreshByLoginID m c i opts) (\<lambda>_. True)"
  unfolding RevokeRefreshByLoginID_def Let_def
  by (intro keeps_if keeps_throw keeps_bindE_True delete_all publish_k)

subsection \<open>Online\<close>

lemma ListTokenStates_k: "keeps I (ListTokenStates m c i opts) (\<lambda>_. True)"
  unfolding ListTokenStates_def Let_def
  by (intro keeps_if keeps_throw bind_k keeps_bindE_True [OF now_k] keeps_ret) simp

lemma logout_device_loop_k: "keeps I (logout_device_loop m c d n ss) (\<lambda>_. True)"
  by (induction ss arbitrary: n) (auto intro!: keeps_intros delete revokeForAccess_k split: option.split)

lemma LogoutByDevice_k: "keeps I (LogoutByDevice m c i d opts) (\<lambda>_. True)"
  unfolding LogoutByDevice_def Let_def
  by (intro keeps_if keeps_throw bind_k keeps_bindE_True [OF logout_device_loop_k] keeps_whenE publish_k)

lemma MarkOnline_k: "keeps I (MarkOnline m c token info) (\<lambda>_. True)"
  unfolding MarkOnline_def Let_def
  by (intro keeps_bindE [OF getTokenState_k] keeps_if keeps_throw keeps_bindE_True now_k update_k
      publish_k) simp

lemma MarkOffline_k: "keeps I (MarkOffline m c token) (\<lambda>_. True)"
  unfolding MarkOffline_def Let_def
  by (intro keeps_bindE [OF getTokenState_k] keeps_if keeps_throw keeps_bindE_True now_k update_k
      publish_k) simp

end

end
