(* ===== verification/Authorizer_Correct.thy ===== *)
theory Authorizer_Correct
  imports Authorizer
begin

text \<open>
  The authorizers are correct: the in-memory one answers by the matching relation over what was
  last set, the role-based one answers by the relation composed of assignment and grant, and what
  it lists is what it grants. Neither touches the world beyond a look at the context.
\<close>

subsection \<open>The in-memory authorizer\<close>

lemma authorities_of_upd [simp]:
  "authorities_of (a(k \<mapsto> as)) k' = (if k' = k then as else authorities_of a k')"
  by (simp add: authorities_of_def)

lemma set_copied_authorities:
  "set (copied_authorities as) =
     {x. \<exists>y \<in> set as. x = y\<lparr>au_Value := TrimSpace (au_Value y)\<rparr> \<and> au_Value x \<noteq> []}"
  by (induction as) (auto simp: Let_def)

lemma authorityMatches_trim [simp]:
  "authorityMatches (c\<lparr>au_Value := TrimSpace (au_Value c)\<rparr>) r = authorityMatches c r"
  "authorityMatches c (r\<lparr>au_Value := TrimSpace (au_Value r)\<rparr>) = authorityMatches c r"
  by (simp_all add: authorityMatches_def Let_def)

definition memory_allows :: "memory_authorizer \<Rightarrow> string \<Rightarrow> Authority \<Rightarrow> bool" where
  "memory_allows a loginID authority \<longleftrightarrow> TrimSpace (au_Value authority) \<noteq> []
     \<and> (\<exists>x \<in> set (authorities_of a (TrimSpace loginID)). authorityMatches x authority)"

lemma memory_HasAuthority_eq:
  "memory_HasAuthority a c i x = bindE (ctxErr c) (\<lambda>_. ret (memory_allows a i x))"
  by (simp add: memory_HasAuthority_def Let_def memory_allows_def list_ex_iff)

subsection \<open>The role-based authorizer: well-formedness\<close>

definition names_ok :: "string list \<Rightarrow> bool" where
  "names_ok xs \<longleftrightarrow> distinct xs \<and> (\<forall>x \<in> set xs. x \<noteq> [] \<and> TrimSpace x = x)"

definition rbac_ok :: "rbac \<Rightarrow> bool" where
  "rbac_ok a \<longleftrightarrow> (\<forall>k. names_ok (set_of (rb_userRoles a) k)
     \<and> names_ok (set_of (rb_rolePermissions a) k) \<and> names_ok (set_of (rb_directPermissions a) k))"

lemma names_ok_Nil [simp]: "names_ok []"
  by (simp add: names_ok_def)

lemma names_ok_insert: "names_ok xs \<Longrightarrow> x \<noteq> [] \<Longrightarrow> TrimSpace x = x \<Longrightarrow> names_ok (List.insert x xs)"
  by (auto simp: names_ok_def)

lemma names_ok_removeAll: "names_ok xs \<Longrightarrow> names_ok (removeAll x xs)"
  by (auto simp: names_ok_def distinct_removeAll)

lemma set_of_upd [simp]:
  "set_of (m(k \<mapsto> xs)) k' = (if k' = k then xs else set_of m k')"
  "set_of (m(k := None)) k' = (if k' = k then [] else set_of m k')"
  by (simp_all add: set_of_def)

lemma permission_values_ok:
  "names_ok acc \<Longrightarrow> names_ok (permission_values ps acc)"
  by (induction ps arbitrary: acc) (auto simp: Let_def names_ok_insert)

lemma set_permission_values:
  "set (permission_values ps acc) = set acc \<union> (TrimSpace ` set ps - {[]})"
  by (induction ps arbitrary: acc) (auto simp: Let_def)

text \<open>The operations of an administrator.\<close>

datatype rbac_op =
    OpAssignRole string string | OpRevokeRole string string
  | OpGrantPermission string string | OpRevokePermission string string
  | OpSetDirectPermissions string "string list"

fun rbac_step :: "rbac \<Rightarrow> rbac_op \<Rightarrow> rbac" where
  "rbac_step a (OpAssignRole i r) = AssignRole a i r"
| "rbac_step a (OpRevokeRole i r) = RevokeRole a i r"
| "rbac_step a (OpGrantPermission r p) = GrantPermission a r p"
| "rbac_step a (OpRevokePermission r p) = RevokePermission a r p"
| "rbac_step a (OpSetDirectPermissions i ps) = SetDirectPermissions a i ps"

lemma rbac_ok_step: "rbac_ok a \<Longrightarrow> rbac_ok (rbac_step a op)"
  by (cases op)
    (auto simp: rbac_ok_def AssignRole_def RevokeRole_def GrantPermission_def RevokePermission_def
      SetDirectPermissions_def Let_def names_ok_insert names_ok_removeAll permission_values_ok)

definition rbac_run :: "rbac_op list \<Rightarrow> rbac" where
  "rbac_run ops = fold (\<lambda>op a. rbac_step a op) ops (NewAuthorizer [])"

lemma rbac_ok_run: "rbac_ok (rbac_run ops)"
proof -
  have "rbac_ok a \<Longrightarrow> rbac_ok (fold (\<lambda>op a. rbac_step a op) ops a)" for a
    by (induction ops arbitrary: a) (auto intro: rbac_ok_step)
  then show ?thesis
    by (simp add: rbac_run_def NewAuthorizer_def rbac_ok_def set_of_def)
qed

subsection \<open>The relation it decides\<close>

definition has_role :: "rbac \<Rightarrow> string \<Rightarrow> string \<Rightarrow> bool" where
  "has_role a i r \<longleftrightarrow> r \<in> set (set_of (rb_userRoles a) (TrimSpace i))"

definition granted :: "rbac \<Rightarrow> string \<Rightarrow> string \<Rightarrow> bool" where
  "granted a i p \<longleftrightarrow> p \<in> set (set_of (rb_directPermissions a) (TrimSpace i))
     \<or> (\<exists>r. has_role a i r \<and> p \<in> set (set_of (rb_rolePermissions a) r))"

definition rbac_allows :: "rbac \<Rightarrow> string \<Rightarrow> Authority \<Rightarrow> bool" where
  "rbac_allows a i x \<longleftrightarrow> TrimSpace i \<noteq> [] \<and> TrimSpace (au_Value x) \<noteq> [] \<and>
     (if au_Type x = AuthorityRole then has_role a i (TrimSpace (au_Value x))
      else au_Type x = AuthorityPermission
        \<and> (\<exists>p. granted a i p \<and> covers (TrimSpace p) (TrimSpace (au_Value x))))"

lemma permissionSetMatches_iff:
  "permissionSetMatches ps v \<longleftrightarrow> (\<exists>p \<in> set ps. covers (TrimSpace p) (TrimSpace v))"
  by (simp add: permissionSetMatches_def list_ex_iff authorityValueMatches_iff)

lemma authority_types_distinct [simp]:
  "AuthorityRole \<noteq> AuthorityPermission" "AuthorityPermission \<noteq> AuthorityRole"
  by (simp_all add: AuthorityRole_def AuthorityPermission_def)

lemma rbac_HasAuthority_eq:
  "rbac_HasAuthority a c i x = bindE (ctxErr c) (\<lambda>_. ret (rbac_allows a i x))"
proof -
  let ?v = "TrimSpace (au_Value x)" and ?i = "TrimSpace i"
  have "rbac_allows a i x \<longleftrightarrow>
      permissionSetMatches (set_of (rb_directPermissions a) ?i) ?v
      \<or> list_ex (\<lambda>r. permissionSetMatches (set_of (rb_rolePermissions a) r) ?v)
           (set_of (rb_userRoles a) ?i)"
    if "au_Type x = AuthorityPermission" "?i \<noteq> []" "?v \<noteq> []"
    using that unfolding rbac_allows_def granted_def has_role_def permissionSetMatches_iff list_ex_iff
    by simp blast
  then show ?thesis
    by (auto simp: rbac_HasAuthority_def Let_def rbac_allows_def has_role_def
        intro!: arg_cong [where f = "bindE (ctxErr c)"])
qed

subsection \<open>What it lists is what it grants\<close>

lemma set_add_authority: "set (add_authority x xs) = set xs \<union> (if au_Value x = [] then {} else {x})"
  by (auto simp: add_authority_def)

lemma distinct_add_authority: "distinct xs \<Longrightarrow> distinct (add_authority x xs)"
  by (simp add: add_authority_def)

lemma set_fold_add:
  "set (fold (\<lambda>p. add_authority (Permission p)) ps xs)
   = set xs \<union> {Permission p | p. p \<in> set ps \<and> TrimSpace p \<noteq> []}"
  by (induction ps arbitrary: xs) (auto simp: set_add_authority Permission_def)

lemma distinct_fold_add:
  "distinct xs \<Longrightarrow> distinct (fold (\<lambda>p. add_authority (Permission p)) ps xs)"
  by (induction ps arbitrary: xs) (auto simp: distinct_add_authority)

definition role_authorities :: "rbac \<Rightarrow> string list \<Rightarrow> Authority set" where
  "role_authorities a roles = {Role r | r. r \<in> set roles \<and> TrimSpace r \<noteq> []}
     \<union> {Permission p | p. \<exists>r \<in> set roles. p \<in> set (set_of (rb_rolePermissions a) r) \<and> TrimSpace p \<noteq> []}"

lemma au_Value_Role [simp]: "au_Value (Role r) = TrimSpace r"
  by (simp add: Role_def)

lemma role_authorities_Cons:
  "role_authorities a (r # rs) = (if TrimSpace r = [] then {} else {Role r})
     \<union> {Permission p | p. p \<in> set (set_of (rb_rolePermissions a) r) \<and> TrimSpace p \<noteq> []}
     \<union> role_authorities a rs"
  by (auto simp: role_authorities_def)

lemma wp_collect_roles:
  assumes "distinct xs"
    and "\<And>ys w'. distinct ys \<Longrightarrow> set ys = set xs \<union> role_authorities a roles \<Longrightarrow> Q ys w'"
  shows "wp (collect_roles a roles xs) Q E w"
  using assms
proof (induction roles arbitrary: xs w)
  case Nil
  then show ?case by (simp add: wp_simps role_authorities_def)
next
  case (Cons r roles)
  show ?case
    unfolding collect_roles.simps wp_simps
    by (rule Cons.IH)
      (simp_all add: Cons.prems distinct_fold_add distinct_add_authority set_fold_add
        set_add_authority role_authorities_Cons Un_assoc)
qed

definition listed :: "rbac \<Rightarrow> string \<Rightarrow> Authority set" where
  "listed a i = role_authorities a (set_of (rb_userRoles a) (TrimSpace i))
     \<union> {Permission p | p. p \<in> set (set_of (rb_directPermissions a) (TrimSpace i)) \<and> TrimSpace p \<noteq> []}"

lemma wp_rbac_GetAuthorities:
  assumes "healthy c" and "TrimSpace i \<noteq> []"
    and "\<And>xs w'. distinct xs \<Longrightarrow> set xs = listed a i \<Longrightarrow> Q xs w'"
  shows "wp (rbac_GetAuthorities a c i) Q E w"
proof -
  have "wp (collect_roles a ks [])
      (\<lambda>result. wp (bindE (range_keys ds) (\<lambda>ps.
          ret (fold (\<lambda>p. add_authority (Permission p)) ps result))) Q E) E v"
    if "set ks = set (set_of (rb_userRoles a) (TrimSpace i))"
      and "ds = set_of (rb_directPermissions a) (TrimSpace i)" for ks ds v
    by (rule wp_collect_roles)
      (auto simp: wp_simps set_fold_add listed_def role_authorities_def that
        intro!: assms(3) distinct_fold_add)
  then show ?thesis
    using assms(2)
    by (auto simp: rbac_GetAuthorities_def wp_bindE [of "ctxErr c"] wp_bindE [of "range_keys xs" for xs]
        wp_bindE [of "collect_roles a xs ys" for xs ys] wp_range_keys Let_def
        intro!: wp_ctxErr_healthy [OF assms(1)])
qed

lemma listed_permission_iff:
  assumes "rbac_ok a"
  shows "Permission p \<in> listed a i \<and> TrimSpace p = p \<longleftrightarrow> granted a i p"
proof -
  have trimmed: "q \<noteq> [] \<and> TrimSpace q = q" if "granted a i q" for q
    using assms that by (auto simp: rbac_ok_def names_ok_def granted_def)
  have eq: "Permission q = Permission q' \<longleftrightarrow> TrimSpace q = TrimSpace q'"
    and ne: "Permission q \<noteq> Role r" for q q' r
    by (simp_all add: Permission_def Role_def)
  have "Permission p \<in> listed a i \<longleftrightarrow>
      (\<exists>q. granted a i q \<and> TrimSpace q \<noteq> [] \<and> TrimSpace p = TrimSpace q)"
    by (simp add: listed_def role_authorities_def granted_def has_role_def eq ne) blast
  with trimmed show ?thesis by metis
qed

end
