(* ===== verification/System.thy ===== *)
theory System
  imports Manager_Safe Authorizer_Correct
begin

text \<open>
  The whole system: Managers over the in-memory store, the calls a client can make, and the
  states that sequences of calls can reach. A Manager built by \<open>NewManager\<close> over the in-memory
  store, with an authorizer and a bus that leave the store alone, keeps every stored token hashed
  and the indexes exact.
\<close>

subsection \<open>Managers over the in-memory store\<close>

definition memory_store_value :: "'x mem_scheme store_value" where
  "memory_store_value = \<lparr>sv_ops = mem_store_ops, sv_atomic = Some mem_atomic_ops\<rparr>"

text \<open>A store of a third party, without the optional capability.\<close>

definition legacy_store_value :: "'x mem_scheme store_value" where
  "legacy_store_value = \<lparr>sv_ops = mem_store_ops, sv_atomic = None\<rparr>"

definition memory_manager :: "Config \<Rightarrow> rbac \<Rightarrow> 'x mem_scheme manager" where
  "memory_manager cf az = the (NewManager (Some memory_store_value)
     [WithConfig cf, WithAuthorizer (Some (rbac_ops az)), WithEventBus (Some recording_bus)])"

definition legacy_manager :: "Config \<Rightarrow> rbac \<Rightarrow> 'x mem_scheme manager" where
  "legacy_manager cf az = the (NewManager (Some legacy_store_value)
     [WithConfig cf, WithAuthorizer (Some (rbac_ops az)), WithEventBus (Some recording_bus)])"

definition complete_config :: "Config \<Rightarrow> Config" where
  "complete_config cf = cf\<lparr>cf_Refresh := RefreshConfig_withDefaults (cf_Refresh cf),
     cf_Nonce := NonceConfig_withDefaults (cf_Nonce cf)\<rparr>"

lemma complete_config_sel [simp]:
  "cf_Refresh (complete_config cf) = RefreshConfig_withDefaults (cf_Refresh cf)"
  "cf_Nonce (complete_config cf) = NonceConfig_withDefaults (cf_Nonce cf)"
  "cf_Timeout (complete_config cf) = cf_Timeout cf"
  "cf_ActiveTimeout (complete_config cf) = cf_ActiveTimeout cf"
  "cf_AutoRenew (complete_config cf) = cf_AutoRenew cf"
  "cf_Concurrent (complete_config cf) = cf_Concurrent cf"
  "cf_RequireNonce (complete_config cf) = cf_RequireNonce cf"
  by (simp_all add: complete_config_def)

lemma memory_manager_sel [simp]:
  "m_config (memory_manager cf az) = complete_config cf"
  "m_store (memory_manager cf az) = mem_store_ops"
  "m_atomicStore (memory_manager cf az) = Some mem_atomic_ops"
  "m_authorizer (memory_manager cf az) = rbac_ops az"
  "m_eventBus (memory_manager cf az) = Some recording_bus"
  by (simp_all add: memory_manager_def NewManager_def WithConfig_def WithAuthorizer_def
      WithEventBus_def memory_store_value_def complete_config_def Let_def)

lemma legacy_manager_sel [simp]:
  "m_config (legacy_manager cf az) = complete_config cf"
  "m_store (legacy_manager cf az) = mem_store_ops"
  "m_atomicStore (legacy_manager cf az) = None"
  "m_authorizer (legacy_manager cf az) = rbac_ops az"
  "m_eventBus (legacy_manager cf az) = Some recording_bus"
  by (simp_all add: legacy_manager_def NewManager_def WithConfig_def WithAuthorizer_def
      WithEventBus_def legacy_store_value_def complete_config_def Let_def)

lemma keeps_rbac_HasAuthority:
  "tick_stable I \<Longrightarrow> keeps I (az_HasAuthority (rbac_ops az) c i x) (\<lambda>_. True)"
  by (simp add: rbac_ops_def rbac_HasAuthority_eq keeps_bindE_True keeps_ctxErr keeps_ret)

interpretation recording_sink: event_sink mem_safe recording_bus
  by unfold_locales simp

lemma managed_on_memory:
  fixes m :: "'x mem_scheme manager"
  assumes "m_store m = mem_store_ops" and "m_atomicStore m \<in> {None, Some mem_atomic_ops}"
    and "\<And>c i x. keeps mem_safe (az_HasAuthority (m_authorizer m) c i x) (\<lambda>_. True)"
    and "\<And>b. m_eventBus m = Some b \<Longrightarrow> event_sink mem_safe b"
  shows "managed mem_safe m"
proof (intro managed.intro managed_axioms.intro)
  show "token_store mem_safe (m_store m)"
    unfolding assms(1) by (rule mem_token.token_store_axioms)
  show "atomic_store mem_safe A" if "m_atomicStore m = Some A" for A
    using that assms(2) mem_atomic.atomic_store_axioms by auto
qed (use assms in auto)

interpretation on_memory: managed mem_safe "memory_manager cf az" for cf az
  by (rule managed_on_memory)
    (auto simp: keeps_rbac_HasAuthority mem_token.I_tick recording_sink.event_sink_axioms)

interpretation on_legacy: managed mem_safe "legacy_manager cf az" for cf az
  by (rule managed_on_memory)
    (auto simp: keeps_rbac_HasAuthority mem_token.I_tick recording_sink.event_sink_axioms)

subsection \<open>The calls of a client\<close>

datatype call =
    CLogin ctx string TokenValue "loginOptions go_option list"
  | CLogout ctx TokenValue
  | CLogoutByLoginID ctx string "logoutOptions go_option list"
  | CLogoutByDevice ctx string string "logoutOptions go_option list"
  | CGetTokenState ctx TokenValue
  | CIsValid ctx TokenValue
  | CRenew ctx TokenValue duration
  | CListTokenStates ctx string "listTokenOptions go_option list"
  | CLoginWithRefresh ctx string TokenValue TokenValue "loginOptions go_option list"
  | CRefresh ctx TokenValue TokenValue "refreshFlowOptions go_option list"
  | CRevokeRefreshToken ctx TokenValue
  | CRevokeRefreshByLoginID ctx string "logoutOptions go_option list"
  | CGenerateNonce ctx "generateNonceOptions go_option list"
  | CConsumeNonce ctx TokenValue
  | CMarkOnline ctx TokenValue OnlineInfo
  | CMarkOffline ctx TokenValue
  | CGetSession ctx string "sessionOptions go_option list"
  | CSaveSession ctx "Session option"
  | CDeleteSession ctx string "sessionOptions go_option list"
  | CCheckAuthority ctx Authority
  | CCheckAll ctx "Authority list"
  | CCheckAny ctx "Authority list"

definition dropE :: "('w, 'e, 'a) op \<Rightarrow> ('w, 'e, unit) op" where
  "dropE a = bindE a (\<lambda>_. ret ())"

fun exec :: "'x env_scheme manager \<Rightarrow> call \<Rightarrow> ('x, unit) eop" where
  "exec m (CLogin c i t opts) = dropE (Login m c i t opts)"
| "exec m (CLogout c t) = Logout m c t"
| "exec m (CLogoutByLoginID c i opts) = LogoutByLoginID m c i opts"
| "exec m (CLogoutByDevice c i d opts) = LogoutByDevice m c i d opts"
| "exec m (CGetTokenState c t) = dropE (GetTokenState m c t)"
| "exec m (CIsValid c t) = dropE (IsValid m c t)"
| "exec m (CRenew c t ttl) = Renew m c t ttl"
| "exec m (CListTokenStates c i opts) = dropE (ListTokenStates m c i opts)"
| "exec m (CLoginWithRefresh c i a r opts) = dropE (LoginWithRefresh m c i a r opts)"
| "exec m (CRefresh c r a opts) = dropE (Refresh m c r a opts)"
| "exec m (CRevokeRefreshToken c r) = RevokeRefreshToken m c r"
| "exec m (CRevokeRefreshByLoginID c i opts) = RevokeRefreshByLoginID m c i opts"
| "exec m (CGenerateNonce c opts) = dropE (GenerateNonce m c opts)"
| "exec m (CConsumeNonce c n) = dropE (ConsumeNonce m c n)"
| "exec m (CMarkOnline c t info) = MarkOnline m c t info"
| "exec m (CMarkOffline c t) = MarkOffline m c t"
| "exec m (CGetSession c i opts) = dropE (GetSession m c i opts)"
| "exec m (CSaveSession c s) = SaveSession m c s"
| "exec m (CDeleteSession c i opts) = DeleteSession m c i opts"
| "exec m (CCheckAuthority c x) = CheckAuthority m c x"
| "exec m (CCheckAll c xs) = CheckAll m c xs"
| "exec m (CCheckAny c xs) = CheckAny m c xs"

definition call_ok :: "call \<Rightarrow> bool" where
  "call_ok call \<longleftrightarrow> (case call of CRefresh c r a opts \<Rightarrow> refresh_options opts | _ \<Rightarrow> True)"

lemma keeps_dropE: "keeps I a (\<lambda>_. True) \<Longrightarrow> keeps I (dropE a) (\<lambda>_. True)"
  unfolding dropE_def by (intro keeps_bindE_True keeps_ret) simp_all

context managed begin

lemma exec_k: "call_ok call \<Longrightarrow> keeps I (exec m call) (\<lambda>_. True)"
  by (cases call)
    (auto simp: call_ok_def intro: keeps_dropE Login_k Logout_k LogoutByLoginID_k LogoutByDevice_k
      GetTokenState_k IsValid_k Renew_k ListTokenStates_k LoginWithRefresh_k Refresh_k
      RevokeRefreshToken_k RevokeRefreshByLoginID_k GenerateNonce_k ConsumeNonce_k MarkOnline_k
      MarkOffline_k GetSession_k SaveSession_k DeleteSession_k CheckAuthority_k CheckAll_k CheckAny_k)

end

text \<open>The states that a client reaches, through any number of Managers over one store.\<close>

inductive reachable :: "mem manager set \<Rightarrow> mem \<Rightarrow> bool" for ms where
  init: "reachable ms (mem_NewStore e)"
| call: "reachable ms w \<Longrightarrow> m \<in> ms \<Longrightarrow> call_ok call \<Longrightarrow> reachable ms (snd (exec m call w))"

lemma reachable_safe:
  assumes "reachable ms w" and "\<And>m. m \<in> ms \<Longrightarrow> managed mem_safe m"
  shows "mem_safe w"
  using assms(1)
proof (induction rule: reachable.induct)
  case (init e)
  show ?case by (rule mem_safe_NewStore)
next
  case (call w m call)
  show ?case
    using managed.exec_k [OF assms(2) [OF call.hyps(2)] call.hyps(3)] call.IH by (rule keepsD)
qed

end
