(* ===== verification/Manager_Effects.thy ===== *)
theory Manager_Effects
  imports System
begin

text \<open>
  A calculus for the effects of a Manager over the in-memory store. \<open>run_at w ts ss es w'\<close>: the run
  that began in \<open>w\<close> is in the good state \<open>w'\<close> with the token table \<open>ts\<close>, the session table
  \<open>ss\<close> and the published events \<open>es\<close> (up to their times). Each step has a rule that moves this
  description along, so an operation is analysed by applying the rules in the order of its calls.
\<close>

definition untimed :: "Event \<Rightarrow> Event" where
  "untimed ev = ev\<lparr>ev_Time := zero_time\<rparr>"

definition run_at :: "'x mem_scheme \<Rightarrow> (TokenValue \<Rightarrow> tokenItem option) \<Rightarrow>
    (LoginSubject \<Rightarrow> sessionItem option) \<Rightarrow> Event list \<Rightarrow> 'x mem_scheme \<Rightarrow> bool" where
  "run_at w0 ts ss es w \<longleftrightarrow> mem_inv w \<and> env_clock w = env_clock w0
     \<and> env_rand w = env_rand w0 \<and> mem_tokens w = ts \<and> mem_sessions w = ss \<and> map untimed (env_published w) = es"

definition published :: "'x env_scheme \<Rightarrow> Event list" where
  "published w = map untimed (env_published w)"

lemma at_start: "mem_inv w \<Longrightarrow> run_at w (mem_tokens w) (mem_sessions w) (published w) w"
  by (simp add: run_at_def published_def)

lemma at_D:
  assumes "run_at w0 ts ss es w"
  shows "mem_inv w" "env_clock w = env_clock w0" "mem_tokens w = ts" "mem_sessions w = ss"
    "published w = es" "env_rand w = env_rand w0"
  using assms by (simp_all add: run_at_def published_def)

lemma at_tick [simp]: "run_at w0 ts ss es (tick w) = run_at w0 ts ss es w"
  by (simp add: run_at_def)

lemma at_leaves: "run_at w0 ts ss es w \<Longrightarrow> leaves w ts' ss' w' \<Longrightarrow> run_at w0 ts' ss' es w'"
  by (simp add: run_at_def leaves_def same_env_def)

text \<open>What is owed for a context that may be done: nothing when it is healthy.\<close>

definition cerr :: "ctx \<Rightarrow> (error \<Rightarrow> 'w \<Rightarrow> bool) \<Rightarrow> bool" where
  "cerr c E \<longleftrightarrow> (\<forall>e w. \<not> healthy c \<longrightarrow> E (ErrContext e) w)"

lemma cerr_simps [simp]:
  "healthy c \<Longrightarrow> cerr c E" "cerr c (\<lambda>_ _. True)" "cerr (normalizeContext c) E = cerr c E"
  by (simp_all add: cerr_def)

lemma cerr_mono: "cerr c E \<Longrightarrow> (\<And>e w. E (ErrContext e) w \<Longrightarrow> E' (ErrContext e) w) \<Longrightarrow> cerr c E'"
  by (auto simp: cerr_def)

lemma cerr_on_cancel: "cerr c E \<Longrightarrow> on_cancel c w E"
  by (auto simp: cerr_def on_cancel_def)

lemma wp_bindI: "wp a (\<lambda>x. wp (f x) Q E) E w \<Longrightarrow> wp (bindE a f) Q E w"
  by (simp add: wp_bindE)

lemma wp_succeeds_unit: "wp a (\<lambda>_. Q) (\<lambda>_ _. False) w \<longleftrightarrow> (\<exists>w'. a w = (Inr (), w') \<and> Q w')"
  by (simp add: wp_succeeds)

lemma wp_attemptI: "wp a (\<lambda>x. Q (Inr x)) (\<lambda>e. Q (Inl e)) w \<Longrightarrow> wp (attempt a) Q E w"
  by (simp add: wp_attempt)

lemma mem_store_sel [simp]:
  "st_SaveTokenState mem_store_ops = mem_SaveTokenState"
  "st_GetTokenState mem_store_ops = mem_GetTokenState"
  "st_ConsumeTokenState mem_store_ops = mem_ConsumeTokenState"
  "st_DeleteTokenState mem_store_ops = mem_DeleteTokenState"
  "st_FindTokenStates mem_store_ops = mem_FindTokenStates"
  "st_DeleteTokenStates mem_store_ops = mem_DeleteTokenStates"
  "st_SaveSession mem_store_ops = mem_SaveSession" "st_GetSession mem_store_ops = mem_GetSession"
  "st_DeleteSession mem_store_ops = mem_DeleteSession"
  "at_CompareAndSwapTokenState mem_atomic_ops = mem_CompareAndSwapTokenState"
  "at_ConsumeTokenStateOfKind mem_atomic_ops = mem_ConsumeTokenStateOfKind"
  "at_EnsureSession mem_atomic_ops = mem_EnsureSession"
  by (simp_all add: mem_store_ops_def mem_atomic_ops_def)

subsection \<open>Rules for the environment\<close>

lemma at_now:
  assumes "run_at w0 ts ss es w"
    and "\<And>n w'. run_at w0 ts ss es w' \<Longrightarrow> Q (env_clock w0 n) w'"
  shows "wp (m_now m) Q E w"
  using assms(1) assms(2) [of "tick w" "env_tick w"]
  by (simp add: m_now_def wp_read_now at_D)

lemma at_ctx:
  assumes "run_at w0 ts ss es w" and "cerr c E" and "\<And>w'. run_at w0 ts ss es w' \<Longrightarrow> Q () w'"
  shows "wp (ctxErr c) Q E w"
  using assms by (intro wp_ctxErr) (auto simp: cerr_def)

lemma at_publish:
  assumes "run_at w0 ts ss es w" and "m_eventBus m = Some recording_bus"
    and "\<And>w'. run_at w0 ts ss (es @ [untimed ev]) w' \<Longrightarrow> Q () w'"
  shows "wp (publish m c ev) Q E w"
proof -
  have Q: "Q () (u\<lparr>env_published := env_published u @ [e]\<rparr>)"
    if "run_at w0 ts ss es u" "untimed e = untimed ev" for u e
    by (rule assms(3)) (use that in \<open>simp add: run_at_def\<close>)
  have "untimed (ev\<lparr>ev_Time := t\<rparr>) = untimed ev" for t
    by (simp add: untimed_def)
  then have "Q () ((tick w)\<lparr>env_published := env_published (tick w) @ [ev\<lparr>ev_Time := t\<rparr>]\<rparr>)" for t
    using assms(1) by (intro Q) simp_all
  moreover have "Q () (w\<lparr>env_published := env_published w @ [ev]\<rparr>)"
    using assms(1) by (intro Q) simp_all
  ultimately show ?thesis
    using assms(2) by (simp add: publish_def wp_simps m_now_def)
qed

subsection \<open>Rules for the store\<close>

lemma at_Get:
  assumes "run_at w0 ts ss es w" and "cerr c E"
    and "\<And>n w'. run_at w0 (evicted (env_clock w0 n) k ts) ss es w' \<Longrightarrow> Q (live_state (env_clock w0 n) ts k) w'"
  shows "wp (mem_GetTokenState c k) Q E w"
  using assms at_D [OF assms(1)]
  by (intro wp_mem_GetTokenState cerr_on_cancel) (auto intro: at_leaves)

lemma at_Delete:
  assumes "run_at w0 ts ss es w" and "cerr c E" and "\<And>w'. run_at w0 (ts(k := None)) ss es w' \<Longrightarrow> Q () w'"
  shows "wp (mem_DeleteTokenState c k) Q E w"
  using assms at_D [OF assms(1)]
  by (intro wp_mem_DeleteTokenState cerr_on_cancel) (auto intro: at_leaves)

lemma at_Save:
  assumes "run_at w0 ts ss es w" and "cerr c E" and "storable s"
    and "\<And>n w'. run_at w0 (ts(ts_Token s \<mapsto> stored_item s (env_clock w0 n) ttl)) ss es w' \<Longrightarrow> Q () w'"
  shows "wp (mem_SaveTokenState c (Some s) ttl) Q E w"
  using assms at_D [OF assms(1)]
  by (intro wp_mem_SaveTokenState cerr_on_cancel) (auto intro: at_leaves)

lemma at_CAS:
  assumes "run_at w0 ts ss es w" and "cerr c E" and "storable s" and "ts_Token e = ts_Token s"
    and "\<And>n n' w'. run_at w0 (ts(ts_Token s \<mapsto> stored_item s (env_clock w0 n) ttl)) ss es w' \<Longrightarrow>
      live_state (env_clock w0 n') ts (ts_Token s) = Some e \<Longrightarrow> Q True w'"
    and "\<And>n' w'. run_at w0 ts ss es w' \<Longrightarrow>
      live_state (env_clock w0 n') ts (ts_Token s) \<noteq> Some e \<Longrightarrow> Q False w'"
  shows "wp (mem_CompareAndSwapTokenState c (Some e) (Some s) ttl) Q E w"
proof (rule wp_mem_CompareAndSwapTokenState [OF at_D(1) [OF assms(1)] cerr_on_cancel [OF assms(2)]
      assms(3,4)], goal_cases)
  case (1 n n' w')
  then show ?case
    using assms(5) [OF at_leaves [OF assms(1)]] at_D [OF assms(1)] by simp
next
  case (2 n' w')
  then show ?case
    using assms(6) [OF at_leaves [OF assms(1)]] at_D [OF assms(1)] by simp
qed

lemma at_consume:
  assumes "run_at w0 ts ss es w" and "cerr c E" and "kind \<noteq> []"
    and "\<And>n w'. run_at w0 (consumed_table (env_clock w0 n) k kind ts) ss es w' \<Longrightarrow>
      Q (live_state (env_clock w0 n) ts k) w'"
  shows "wp (mem_ConsumeTokenStateOfKind c k kind) Q E w"
  unfolding mem_ConsumeTokenStateOfKind_nonempty [OF assms(3)]
  using assms at_D [OF assms(1)]
  by (intro wp_mem_consumeTokenState cerr_on_cancel) (auto intro: at_leaves)

lemma at_Find:
  assumes "run_at w0 ts ss es w" and "cerr c E"
    and "\<And>n xs w'. run_at w0 (drop_where (\<lambda>it. subject_key it = LoginSubject_Normalize subject
            \<and> tokenItem_isExpired it (env_clock w0 n)) ts) ss es w' \<Longrightarrow>
        distinct (map ts_Token xs) \<Longrightarrow>
        set xs = owned_states (env_clock w0 n) (LoginSubject_Normalize subject) kinds ts \<Longrightarrow>
        Q (map Some xs) w'"
  shows "wp (mem_FindTokenStates c subject kinds) Q E w"
  using assms at_D [OF assms(1)]
  by (intro wp_mem_FindTokenStates cerr_on_cancel) (auto intro: at_leaves)

lemma at_DeleteAll:
  assumes "run_at w0 ts ss es w" and "cerr c E"
    and "\<And>w'. run_at w0 (drop_where (\<lambda>it. subject_key it = LoginSubject_Normalize subject
            \<and> MatchKind (ts_Kind (ti_state it)) kinds) ts) ss es w' \<Longrightarrow> Q () w'"
  shows "wp (mem_DeleteTokenStates c subject kinds) Q E w"
  using assms at_D [OF assms(1)]
  by (intro wp_mem_DeleteTokenStates cerr_on_cancel) (auto intro: at_leaves)

lemma at_EnsureSession:
  assumes "run_at w0 ts ss es w" and "cerr c E" and "\<not> LoginSubject_IsZero subject"
    and "\<And>n w'. run_at w0 ts (ss(LoginSubject_Normalize subject \<mapsto>
        ensured_session (env_clock w0 n) (LoginSubject_Normalize subject) ttl ss)) es w' \<Longrightarrow> Q () w'"
  shows "wp (mem_EnsureSession c subject ttl) Q E w"
  using assms at_D [OF assms(1)]
  by (intro wp_mem_EnsureSession cerr_on_cancel) (auto intro: at_leaves)

lemma at_DeleteSession:
  assumes "run_at w0 ts ss es w" and "cerr c E"
    and "\<And>w'. run_at w0 ts (ss(LoginSubject_Normalize subject := None)) es w' \<Longrightarrow> Q () w'"
  shows "wp (mem_DeleteSession c subject) Q E w"
  using assms at_D [OF assms(1)]
  by (intro wp_mem_DeleteSession cerr_on_cancel) (auto intro: at_leaves)

lemma at_SaveSession:
  assumes "run_at w0 ts ss es w" and "cerr c E" and "\<not> LoginSubject_IsZero (se_Subject s)"
    and "\<And>n w'. run_at w0 ts (ss(LoginSubject_Normalize (se_Subject s) \<mapsto>
        \<lparr>si_session = Session_Clone s, si_expiresAt = session_expiry (env_clock w0 n) ttl\<rparr>)) es w' \<Longrightarrow>
      Q () w'"
  shows "wp (mem_SaveSession c (Some s) ttl) Q E w"
  using assms at_D [OF assms(1)]
  by (intro wp_mem_SaveSession cerr_on_cancel) (auto intro: at_leaves)

lemma at_GetSession:
  assumes "run_at w0 ts ss es w" and "cerr c E"
    and "\<And>n w'. run_at w0 ts (ss(LoginSubject_Normalize subject :=
        live_session (env_clock w0 n) ss (LoginSubject_Normalize subject))) es w' \<Longrightarrow>
      Q (map_option (\<lambda>si. Session_Clone (si_session si))
        (live_session (env_clock w0 n) ss (LoginSubject_Normalize subject))) w'"
  shows "wp (mem_GetSession c subject) Q E w"
  using assms at_D [OF assms(1)]
  by (intro wp_mem_GetSession cerr_on_cancel) (auto intro: at_leaves)

end
