(* ===== verification/Login_Effects.thy ===== *)
theory Login_Effects
  imports Manager_Effects
begin

text \<open>
  The effects of login, logout and revocation on the tables of the in-memory store, in the
  calculus of \<open>Manager_Effects\<close>.
\<close>

subsection \<open>Revocation of refresh tokens\<close>

definition without :: "TokenValue set \<Rightarrow> (TokenValue \<Rightarrow> tokenItem option) \<Rightarrow>
    TokenValue \<Rightarrow> tokenItem option" where
  "without K ts = (\<lambda>k. if k \<in> K then None else ts k)"

lemma without_empty [simp]: "without {} ts = ts"
  by (simp add: without_def)

lemma without_removed: "without K (ts(k := None)) = without (insert k K) ts"
  by (auto simp: without_def fun_eq_iff)

lemma at_delete_linked:
  assumes "run_at w0 ts ss es w" and "cerr c E"
    and "\<And>w'. run_at w0 (without {ts_Token s | s r. s \<in> set xs \<and> ts_Refresh s = Some r
           \<and> ri_AccessToken r = k} ts) ss es w' \<Longrightarrow> Q () w'"
  shows "wp (delete_linked (memory_manager cf az) c k (map Some xs)) Q E w"
  using assms(1,3)
proof (induction xs arbitrary: ts w)
  case Nil
  then show ?case by (simp add: wp_ret)
next
  case (Cons x xs)
  let ?K = "\<lambda>xs. {ts_Token s | s r. s \<in> set xs \<and> ts_Refresh s = Some r \<and> ri_AccessToken r = k}"
  show ?case
  proof (cases "\<exists>r. ts_Refresh x = Some r \<and> ri_AccessToken r = k")
    case True
    have K: "?K (x # xs) = insert (ts_Token x) (?K xs)" using True by auto
    obtain r where r: "ts_Refresh x = Some r" "ri_AccessToken r = k" using True by blast
    have "wp (delete_linked (memory_manager cf az) c k (map Some xs)) Q E w'"
      if "run_at w0 (ts(ts_Token x := None)) ss es w'" for w'
      by (rule Cons.IH [OF that], rule Cons.prems(2)) (simp only: K without_removed)
    with r show ?thesis
      by (simp add: wp_bindI at_Delete [OF Cons.prems(1) assms(2)])
  next
    case False
    have K: "?K (x # xs) = ?K xs" using False by auto
    have "wp (delete_linked (memory_manager cf az) c k (map Some xs)) Q E w"
      by (rule Cons.IH [OF Cons.prems(1)], rule Cons.prems(2)) (simp only: K)
    with False show ?thesis by (auto split: option.split)
  qed
qed

lemma at_delete_except:
  assumes "run_at w0 ts ss es w" and "cerr c E"
    and "\<And>w'. run_at w0 (without (ts_Token ` set xs - {keep}) ts) ss es w' \<Longrightarrow> Q () w'"
  shows "wp (delete_except (memory_manager cf az) c keep (map Some xs)) Q E w"
  using assms(1,3)
proof (induction xs arbitrary: ts w)
  case Nil
  then show ?case by (simp add: wp_ret)
next
  case (Cons x xs)
  show ?case
  proof (cases "ts_Token x = keep")
    case True
    then have K: "ts_Token ` set (x # xs) - {keep} = ts_Token ` set xs - {keep}" by auto
    have "wp (delete_except (memory_manager cf az) c keep (map Some xs)) Q E w"
      by (rule Cons.IH [OF Cons.prems(1)], rule Cons.prems(2)) (simp only: K)
    with True show ?thesis by simp
  next
    case False
    then have K: "ts_Token ` set (x # xs) - {keep} = insert (ts_Token x) (ts_Token ` set xs - {keep})"
      by auto
    have "wp (delete_except (memory_manager cf az) c keep (map Some xs)) Q E w'"
      if "run_at w0 (ts(ts_Token x := None)) ss es w'" for w'
      by (rule Cons.IH [OF that], rule Cons.prems(2)) (simp only: K without_removed)
    with False show ?thesis
      by (simp add: wp_bindI at_Delete [OF Cons.prems(1) assms(2)])
  qed
qed


text \<open>
  What single login does to the table. Read from the top: entries only disappear; those of other
  subjects stay; of the subject's own, no access token stays, and no refresh token but \<open>keep\<close>
  where refresh tokens are revoked; what is of another kind, or is \<open>keep\<close>, stays while it lives.
\<close>

definition replaces :: "'x env_scheme \<Rightarrow> bool \<Rightarrow> LoginSubject \<Rightarrow> TokenValue \<Rightarrow>
    (TokenValue \<Rightarrow> tokenItem option) \<Rightarrow> (TokenValue \<Rightarrow> tokenItem option) \<Rightarrow> bool" where
  "replaces w0 revoke key keep ts ts' \<longleftrightarrow>
     (\<forall>k. ts' k = ts k \<or> ts' k = None)
   \<and> (\<forall>k it. ts k = Some it \<longrightarrow> subject_key it \<noteq> key \<longrightarrow> ts' k = Some it)
   \<and> (\<forall>k it. ts' k = Some it \<longrightarrow> subject_key it = key \<longrightarrow> ts_Kind (ti_state it) \<noteq> TokenKindAccess
        \<and> (revoke \<longrightarrow> ts_Kind (ti_state it) = TokenKindRefresh \<longrightarrow> k = keep))
   \<and> (\<forall>k it. ts k = Some it \<longrightarrow> (\<forall>n. \<not> tokenItem_isExpired it (env_clock w0 n)) \<longrightarrow>
        ts_Kind (ti_state it) \<noteq> TokenKindAccess \<longrightarrow>
        (ts_Kind (ti_state it) = TokenKindRefresh \<longrightarrow> k = keep \<and> keep \<noteq> []) \<longrightarrow> ts' k = Some it)"

lemma revoked_Find:
  assumes xs: "set xs = owned_states (env_clock w0 n) key [TokenKindRefresh] ts"
    and ok: "\<And>k it. ts k = Some it \<Longrightarrow> ts_Token (ti_state it) = k"
    and acc: "\<And>k it. ts k = Some it \<Longrightarrow> subject_key it = key \<Longrightarrow> ts_Kind (ti_state it) \<noteq> TokenKindAccess"
  shows "replaces w0 True key keep ts
     (without (ts_Token ` set xs - {keep})
       (drop_where (\<lambda>it. subject_key it = key \<and> tokenItem_isExpired it (env_clock w0 n)) ts))"
proof -
  let ?t = "env_clock w0 n"
  let ?ts = "without (ts_Token ` set xs - {keep})
       (drop_where (\<lambda>it. subject_key it = key \<and> tokenItem_isExpired it ?t) ts)"
  have mem: "k \<in> ts_Token ` set xs \<longleftrightarrow> (\<exists>it. live_item ?t ts k = Some it \<and> subject_key it = key
      \<and> ts_Kind (ti_state it) = TokenKindRefresh)" for k
    using ok unfolding xs owned_states_def
    by (auto simp: image_iff MatchKind_def dest: live_item_SomeD)
  have "?ts k = (case ts k of None \<Rightarrow> None
      | Some it \<Rightarrow> if subject_key it = key
                  \<and> (tokenItem_isExpired it ?t \<or> ts_Kind (ti_state it) = TokenKindRefresh \<and> k \<noteq> keep)
                then None else Some it)" for k
    by (auto simp: without_def drop_where_def mem live_item_def split: option.splits)
  then show ?thesis
    using acc unfolding replaces_def by (auto split: option.splits if_splits)
qed


definition no_access :: "LoginSubject \<Rightarrow> (TokenValue \<Rightarrow> tokenItem option) \<Rightarrow> bool" where
  "no_access key ts \<longleftrightarrow>
     (\<forall>k it. ts k = Some it \<longrightarrow> subject_key it = key \<longrightarrow> ts_Kind (ti_state it) \<noteq> TokenKindAccess)"

lemma run_at_token: "run_at w0 ts ss es w \<Longrightarrow> ts k = Some it \<Longrightarrow> ts_Token (ti_state it) = k"
  by (auto dest: at_D(1,3) intro: item_ok_sel(1) mem_inv_item)

lemma at_revokeRefreshExcept:
  assumes a: "run_at w0 ts ss es w" and "cerr c E" and acc: "no_access (LoginSubject_Normalize subject) ts"
    and ok: "\<And>ts' w'. run_at w0 ts' ss es w' \<Longrightarrow>
      replaces w0 (rc_RevokeRefreshOnLogout (RefreshConfig_withDefaults (cf_Refresh cf)))
        (LoginSubject_Normalize subject) keep ts ts' \<Longrightarrow> Q () w'"
  shows "wp (revokeRefreshExcept (memory_manager cf az) c subject keep) Q E w"
proof -
  let ?flag = "rc_RevokeRefreshOnLogout (RefreshConfig_withDefaults (cf_Refresh cf))"
  let ?key = "LoginSubject_Normalize subject"
  consider "\<not> ?flag" | "?flag" "keep = []" | "?flag" "keep \<noteq> []" by blast
  then show ?thesis
  proof cases
    case 1
    have "replaces w0 False ?key keep ts ts"
      using acc by (auto simp: replaces_def no_access_def)
    with 1 ok [OF a] show ?thesis
      by (simp add: revokeRefreshExcept_def wp_ret)
  next
    case 2
    have "replaces w0 True ?key [] ts (drop_where (\<lambda>it. subject_key it = ?key
        \<and> MatchKind (ts_Kind (ti_state it)) [TokenKindRefresh]) ts)"
      using acc by (auto simp: replaces_def drop_where_def MatchKind_def no_access_def split: option.splits)
    with 2 ok show ?thesis
      by (simp add: revokeRefreshExcept_def)
        (rule at_DeleteAll [OF a assms(2)], simp)
  next
    case 3
    have "replaces w0 True ?key keep ts (without (ts_Token ` set xs - {keep})
        (drop_where (\<lambda>it. subject_key it = ?key \<and> tokenItem_isExpired it (env_clock w0 n)) ts))"
      if "set xs = owned_states (env_clock w0 n) ?key [TokenKindRefresh] ts" for xs n
      using revoked_Find [OF that] run_at_token [OF a] acc by (simp add: no_access_def)
    note rep = this
    have "wp (bindE (mem_FindTokenStates c ?key [TokenKindRefresh])
        (\<lambda>states. delete_except (memory_manager cf az) c keep states)) Q E w"
      apply (intro wp_bindI at_Find [OF a assms(2)])
      apply (simp only: LoginSubject_Normalize_idem)
      apply (rule at_delete_except [OF _ assms(2)])
       apply assumption
      apply (rule ok, assumption)
      using 3(1) rep by simp
    with 3 show ?thesis
      unfolding revokeRefreshExcept_def memory_manager_sel complete_config_sel mem_store_sel
      by (simp only: not_True_eq_False if_False)
  qed
qed

lemma replaces_sub:
  assumes sub: "\<And>k. u k = ts k \<or> u k = None"
    and stay: "\<And>k it. ts k = Some it \<Longrightarrow> subject_key it \<noteq> key \<or> ts_Kind (ti_state it) \<noteq> TokenKindAccess \<Longrightarrow>
      u k = Some it"
    and r: "replaces w0 revoke key keep u ts'"
  shows "replaces w0 revoke key keep ts ts'"
proof -
  note r' = r [unfolded replaces_def]
  note r1 = r' [THEN conjunct1, rule_format] and r2 = r' [THEN conjunct2, THEN conjunct1, rule_format]
    and r3 = r' [THEN conjunct2, THEN conjunct2, THEN conjunct1]
    and r4 = r' [THEN conjunct2, THEN conjunct2, THEN conjunct2, rule_format]
  show ?thesis
    unfolding replaces_def
  proof (intro conjI r3 allI impI, goal_cases)
    case (1 k)
    show ?case using r1 [of k] sub [of k] by argo
  next
    case (2 k it)
    then show ?case by (intro r2 stay) simp_all
  next
    case (3 k it)
    then show ?case by (intro r4 stay) simp_all
  qed
qed

lemma replaces_after_drop:
  assumes "replaces w0 revoke key keep
      (drop_where (\<lambda>it. subject_key it = key \<and> MatchKind (ts_Kind (ti_state it)) [TokenKindAccess]) ts) ts'"
  shows "replaces w0 revoke key keep ts ts'"
proof -
  let ?d = "drop_where (\<lambda>it. subject_key it = key \<and> MatchKind (ts_Kind (ti_state it)) [TokenKindAccess]) ts"
  have d: "?d k = (case ts k of None \<Rightarrow> None
      | Some it \<Rightarrow> if subject_key it = key \<and> ts_Kind (ti_state it) = TokenKindAccess then None else Some it)" for k
    by (auto simp: drop_where_def MatchKind_def split: option.split)
  have "?d k = ts k \<or> ?d k = None" for k by (simp add: d split: option.split)
  moreover have "?d k = Some it" if "ts k = Some it" "subject_key it \<noteq> key \<or> ts_Kind (ti_state it) \<noteq> TokenKindAccess"
    for k it using that by (auto simp: d)
  ultimately have "replaces w0 revoke key keep ?d ts' \<Longrightarrow> replaces w0 revoke key keep ts ts'"
    by (rule replaces_sub)
  with assms show ?thesis by blast
qed

lemma at_replace_others:
  assumes a: "run_at w0 ts ss es w" and "cerr c E" and key: "LoginSubject_Normalize key = key"
    and ok: "\<And>ts' w'. run_at w0 ts' ss
        (es @ [new_Event EventReplaced (sub_LoginID key) (sub_LoginType key) []]) w' \<Longrightarrow>
      replaces w0 (rc_RevokeRefreshOnLogout (RefreshConfig_withDefaults (cf_Refresh cf))) key keep ts ts' \<Longrightarrow>
      Q () w'"
  shows "wp (replace_others (memory_manager cf az) c key keep) Q E w"
proof -
  have acc: "no_access key (drop_where (\<lambda>it. subject_key it = key
      \<and> MatchKind (ts_Kind (ti_state it)) [TokenKindAccess]) ts)"
    by (auto simp: no_access_def drop_where_def MatchKind_def split: option.splits if_splits)
  have ev: "untimed (new_Event t i l k) = new_Event t i l k" for t i l k
    by (simp add: untimed_def new_Event_def)
  show ?thesis
    unfolding replace_others_def memory_manager_sel mem_store_sel
    apply (intro wp_bindI at_DeleteAll [OF a assms(2)])
    apply (rule at_revokeRefreshExcept [where cf = cf, OF _ assms(2)], assumption)
     apply (simp only: key, rule acc)
    apply (rule at_publish, assumption, simp)
    apply (rule ok)
     apply (simp only: ev)
    apply (rule replaces_after_drop)
    apply (simp only: key)
    done
qed


subsection \<open>Login\<close>

definition login_key :: "string \<Rightarrow> string \<Rightarrow> LoginSubject" where
  "login_key loginID loginType =
     LoginSubject_Normalize \<lparr>sub_LoginID = loginID, sub_LoginType = loginType\<rparr>"

definition login_ttl :: "Config \<Rightarrow> duration" where
  "login_ttl cf = (if cf_Timeout cf > 0 then cf_Timeout cf else 0)"

lemma login_key_Trim [simp]: "login_key (TrimSpace i) t = login_key i t"
  by (simp add: login_key_def LoginSubject_Normalize_def)

lemma login_key_sel [simp]:
  "sub_LoginID (login_key i t) = TrimSpace i"
  "sub_LoginType (login_key i t) = (if TrimSpace t = [] then DefaultLoginType else TrimSpace t)"
  "LoginSubject_Normalize (login_key i t) = login_key i t"
  "LoginSubject_IsZero (login_key i t) = (TrimSpace i = [])"
  by (simp_all add: login_key_def LoginSubject_IsZero_def)
     (simp_all add: LoginSubject_Normalize_def Let_def)

lemma access_state_sel [simp]:
  "ts_Token (access_state cf key lo tok now) = storeKey tok"
  "ts_Kind (access_state cf key lo tok now) = TokenKindAccess"
  "ts_LoginID (access_state cf key lo tok now) = sub_LoginID key"
  "ts_LoginType (access_state cf key lo tok now) = sub_LoginType key"
  "ts_Device (access_state cf key lo tok now) = lo_device lo"
  "ts_Status (access_state cf key lo tok now) = TokenStatusActive"
  "ts_Metadata (access_state cf key lo tok now) = cloneRawMessage (lo_metadata lo)"
  "ts_ExpiresAt (access_state cf key lo tok now) =
     (if cf_Timeout cf > 0 then Some (Time_Add now (cf_Timeout cf)) else None)"
  "ts_Refresh (access_state cf key lo tok now) = None"
  by (simp_all add: access_state_def)

lemma access_state_ok:
  assumes "TrimSpace i \<noteq> []" and "TrimSpace tok \<noteq> []"
  shows "state_ok (access_state cf (login_key i t) lo tok now)"
  using assms by (simp add: state_ok_def normal_state_def cloned_def)

lemma state_ok_storable: "state_ok s \<Longrightarrow> storable s"
  by (simp add: state_ok_def storable_def)

lemma TokenState_Subject_access [simp]:
  "LoginSubject_Normalize (TokenState_Subject (access_state cf (login_key i t) lo tok now)) = login_key i t"
proof -
  have "TokenState_Subject (access_state cf (login_key i t) lo tok now) = login_key i t"
    by (simp add: TokenState_Subject_def login_key_def LoginSubject_Normalize_def Let_def)
  then show ?thesis by simp
qed

lemma untimed_new_Event [simp]: "untimed (new_Event t i l k) = new_Event t i l k"
  by (simp add: untimed_def new_Event_def)

lemma login_ttl_complete [simp]: "login_ttl (complete_config cf) = login_ttl cf"
  by (simp add: login_ttl_def)

lemma whenE_False: "whenE False a = ret ()" and whenE_True: "whenE True a = a"
  by (simp_all add: whenE_def)

lemma at_login:
  fixes lo :: loginOptions and i :: string
  defines "key \<equiv> login_key i (lo_loginType lo)"
  assumes a: "run_at w0 ts ss es w" and c: "cerr c E"
    and ne: "TrimSpace i \<noteq> []" "TrimSpace tok \<noteq> []" and nonce: "\<not> (b \<and> cf_RequireNonce cf)"
    and ok: "\<And>ts' n n' n'' w'.
      (if cf_Concurrent cf then ts' = ts
       else replaces w0 (rc_RevokeRefreshOnLogout (RefreshConfig_withDefaults (cf_Refresh cf))) key
              (lo_preserveRefresh lo) ts ts') \<Longrightarrow>
      run_at w0
        (ts'(storeKey tok \<mapsto>
           stored_item (access_state cf key lo tok (env_clock w0 n)) (env_clock w0 n') (login_ttl cf)))
        (ss(key \<mapsto> ensured_session (env_clock w0 n'') key (login_ttl cf) ss))
        (es @ (if cf_Concurrent cf then []
               else [new_Event EventReplaced (sub_LoginID key) (sub_LoginType key) []])
            @ [new_Event EventLogin (sub_LoginID key) (sub_LoginType key) (TrimSpace tok)]) w' \<Longrightarrow>
      Q (access_state cf key lo tok (env_clock w0 n)) w'"
  shows "wp (login (memory_manager cf az) c i tok lo b) Q E w"
proof -
  let ?c = "normalizeContext c" and ?m = "memory_manager cf az"
  have c': "cerr ?c E" using c by simp
  have key: "LoginSubject_Normalize \<lparr>sub_LoginID = TrimSpace i, sub_LoginType = lo_loginType lo\<rparr> = key"
    by (simp add: key_def login_key_def LoginSubject_Normalize_def)
  have as: "access_state (complete_config cf) key lo (TrimSpace tok) now = access_state cf key lo tok now" for now
    by (simp add: access_state_def)
  have sok: "state_ok (access_state cf key lo tok now)" for now
    unfolding key_def by (rule access_state_ok [OF ne])
  have keyz: "LoginSubject_Normalize key = key" "\<not> LoginSubject_IsZero key"
    using ne by (simp_all add: key_def)
  have rest: "wp (bindE (mem_SaveTokenState ?c (Some (access_state cf key lo tok (env_clock w0 n))) (login_ttl cf)) (\<lambda>_.
        bindE (syncSessionTTL ?m ?c key (login_ttl cf)) (\<lambda>_.
        bindE (publish ?m ?c (new_Event EventLogin (sub_LoginID key) (sub_LoginType key) (TrimSpace tok))) (\<lambda>_.
        ret (TokenState_Clone (access_state cf key lo tok (env_clock w0 n))))))) Q E v"
    if "(if cf_Concurrent cf then ts' = ts
       else replaces w0 (rc_RevokeRefreshOnLogout (RefreshConfig_withDefaults (cf_Refresh cf))) key
              (lo_preserveRefresh lo) ts ts')"
      and "run_at w0 ts' ss (es @ (if cf_Concurrent cf then []
               else [new_Event EventReplaced (sub_LoginID key) (sub_LoginType key) []])) v" for ts' v n
    apply (intro wp_bindI at_Save [OF that(2) c' state_ok_storable [OF sok]])
    apply (simp add: syncSessionTTL_def keyz(1))
    apply (rule at_EnsureSession [OF _ c' keyz(2)], assumption)
    apply (intro wp_bindI)
    apply (rule at_publish, assumption, simp)
    apply (simp add: wp_ret state_ok_Clone [OF sok])
    apply (rule ok [OF that(1)])
    apply (simp add: keyz(1))
    done
  have no_nonce: "(b \<and> cf_RequireNonce (complete_config cf)) = False"
    using nonce by simp
  show ?thesis
    unfolding login_def Let_def TrimSpace_idem memory_manager_sel mem_store_sel key as no_nonce
      login_ttl_def [symmetric] login_ttl_complete whenE_False bindE_ret_left if_not_P [OF ne(1)]
      if_not_P [OF ne(2)]
  proof ((cases "cf_Concurrent cf"; intro wp_bindI at_now [OF a]), goal_cases)
    case (1 n w')
    then show ?case by (simp add: whenE_False wp_ret) (rule rest, simp_all)
  next
    case (2 n w')
    then show ?case
      by (simp add: whenE_True) (rule at_replace_others [where cf = cf, OF _ c' keyz(1)], assumption,
          rule rest, simp_all)
  qed
qed


subsection \<open>Reading a token\<close>

lemma run_at_state_ok: "run_at w0 ts ss es w \<Longrightarrow> ts k = Some it \<Longrightarrow> state_ok (ti_state it)"
  by (auto dest: at_D(1,3) intro: item_ok_sel(2) mem_inv_item)

lemma live_state_D:
  "live_state t ts k = Some s \<Longrightarrow> \<exists>it. ts k = Some it \<and> ti_state it = s \<and> \<not> tokenItem_isExpired it t"
  by (auto simp: live_state_def dest: live_item_SomeD)

lemma run_at_evicted_live:
  "run_at w0 (evicted t k ts) ss es w \<Longrightarrow> live_state t ts k = Some s \<Longrightarrow> run_at w0 ts ss es w"
  by (auto simp: live_state_def evicted_live)

text \<open>Why a read of the key fails, and what a failed read may have evicted.\<close>

definition read_fails :: "'x env_scheme \<Rightarrow> (TokenValue \<Rightarrow> tokenItem option) \<Rightarrow> TokenValue \<Rightarrow> error \<Rightarrow> bool" where
  "read_fails w0 ts k e \<longleftrightarrow>
     e = ErrTokenNotFound \<and> (\<exists>n. case ts k of None \<Rightarrow> True | Some it \<Rightarrow> tokenItem_isExpired it (env_clock w0 n))
   \<or> e = ErrTokenInvalid \<and> (\<exists>it. ts k = Some it \<and> ts_Status (ti_state it) \<noteq> TokenStatusActive)"

text \<open>The second look at the clock, after the read.\<close>

lemma at_unexpired:
  assumes a: "run_at w0 ts ss es w"
    and bad: "\<And>n ts' w'. IsExpired s (env_clock w0 n) \<Longrightarrow> run_at w0 ts' ss es w' \<Longrightarrow>
      ts' = ts \<or> ts' = ts(k := None) \<Longrightarrow> E err w'"
    and ok: "\<And>n w'. run_at w0 ts ss es w' \<Longrightarrow> \<not> IsExpired s (env_clock w0 n) \<Longrightarrow>
      wp (f (env_clock w0 n)) Q E w'"
  shows "wp (bindE (m_now m) (\<lambda>now. if IsExpired s now
      then bindE (attempt (mem_DeleteTokenState c k)) (\<lambda>_. throw err) else f now)) Q E w"
proof (intro wp_bindI at_now [OF a], goal_cases)
  case (1 n v)
  show ?case
  proof (cases "IsExpired s (env_clock w0 n)")
    case True
    have "wp (bindE (attempt (mem_DeleteTokenState c k)) (\<lambda>_. throw err)) Q E v"
      by (intro wp_bindI wp_attemptI wp_mem_DeleteTokenState [OF at_D(1) [OF 1]])
        (auto simp: on_cancel_def wp_throw at_D [OF 1] intro: bad [OF True] at_leaves [OF 1])
    with True show ?thesis by simp
  next
    case False
    with ok [OF 1] show ?thesis by simp
  qed
qed

text \<open>What a read does with a live access token under automatic renewal.\<close>

definition renewing_read :: "'x env_scheme manager \<Rightarrow> ctx \<Rightarrow> TokenState \<Rightarrow> time \<Rightarrow> ('x, TokenState) eop" where
  "renewing_read m c s now =
     (case autoRenewed (m_config m) s now of (state, ttl) \<Rightarrow>
        bindE (updateTokenState m c s state ttl) (\<lambda>_.
        bindE (syncSessionTTL m c (TokenState_Subject state) ttl) (\<lambda>_.
        bindE (publish m c (new_Event EventRenewTimeout (ts_LoginID state) (ts_LoginType state) (ts_Token state))) (\<lambda>_.
        ret (TokenState_Clone state)))))"

text \<open>A refused read leaves the tokens alone, but it may drop the expired one it was asked for.\<close>

definition drops_expired :: "'x env_scheme \<Rightarrow> TokenValue \<Rightarrow> (TokenValue \<Rightarrow> tokenItem option) \<Rightarrow>
    (TokenValue \<Rightarrow> tokenItem option) \<Rightarrow> bool" where
  "drops_expired w0 k ts ts' \<longleftrightarrow> ts' = ts
     \<or> ts' = ts(k := None) \<and> (\<exists>it n. ts k = Some it \<and> tokenItem_isExpired it (env_clock w0 n))"

lemma at_getTokenState_any:
  assumes a: "run_at w0 ts ss es w" and c: "cerr c E" and ne: "TrimSpace tok \<noteq> []"
    and bad: "\<And>e ts' w'. read_fails w0 ts (storeKey tok) e \<Longrightarrow>
      run_at w0 ts' ss es w' \<Longrightarrow> drops_expired w0 (storeKey tok) ts ts' \<Longrightarrow> E e w'"
    and ok: "\<And>n n' it w'. run_at w0 ts ss es w' \<Longrightarrow> ts (storeKey tok) = Some it \<Longrightarrow>
      \<not> tokenItem_isExpired it (env_clock w0 n) \<Longrightarrow> ts_Status (ti_state it) = TokenStatusActive \<Longrightarrow>
      \<not> IsExpired (ti_state it) (env_clock w0 n') \<Longrightarrow>
      wp (if b \<and> cf_AutoRenew cf \<and> ts_Kind (ti_state it) = TokenKindAccess
          then renewing_read (memory_manager cf az) (normalizeContext c) (ti_state it) (env_clock w0 n')
          else ret (ti_state it)) Q E w'"
  shows "wp (getTokenState (memory_manager cf az) c tok b) Q E w"
proof -
  let ?k = "storeKey tok" and ?c = "normalizeContext c"
  have c': "cerr ?c E" using c by simp
  show ?thesis
    unfolding getTokenState_def Let_def TrimSpace_idem if_not_P [OF ne] storeKey_TrimSpace
      memory_manager_sel mem_store_sel complete_config_sel
  proof (intro wp_bindI at_Get [OF a c'], goal_cases)
    case (1 n w')
    let ?t = "env_clock w0 n"
    show ?case
    proof (cases "live_state ?t ts ?k")
      case None
      then have "read_fails w0 ts ?k ErrTokenNotFound"
        by (auto simp: read_fails_def live_state_def live_item_def split: option.splits if_splits)
      moreover have "drops_expired w0 ?k ts (evicted ?t ?k ts)"
        using None by (auto simp: drops_expired_def evicted_def live_state_def live_item_def fun_eq_iff
            split: option.splits if_splits)
      ultimately show ?thesis using None 1 by (simp add: wp_throw bad)
    next
      case (Some s)
      from live_state_D [OF Some] obtain it where it: "ts ?k = Some it" "ti_state it = s"
        "\<not> tokenItem_isExpired it ?t" by blast
      note v = run_at_evicted_live [OF 1 Some]
      have s: "TokenState_Normalize s = s" "TokenState_Clone s = s"
        using run_at_state_ok [OF a it(1)] it(2) by (simp_all add: state_ok_Normalize state_ok_Clone)
      have inv: "ts_Status s \<noteq> TokenStatusActive \<Longrightarrow> E ErrTokenInvalid w'"
        using bad [OF _ v, of ErrTokenInvalid] it by (simp add: read_fails_def drops_expired_def)
      have good: "wp (bindE (m_now (memory_manager cf az)) (\<lambda>now. if IsExpired s now
          then bindE (attempt (mem_DeleteTokenState ?c ?k)) (\<lambda>_. throw ErrTokenNotFound)
          else if b \<and> cf_AutoRenew cf \<and> ts_Kind s = TokenKindAccess
          then renewing_read (memory_manager cf az) ?c s now else ret s)) Q E w'"
        if act: "ts_Status s = TokenStatusActive"
      proof (rule at_unexpired [OF v], goal_cases)
        case (1 n' ts' v')
        then have "read_fails w0 ts ?k ErrTokenNotFound"
          using it by (auto simp: read_fails_def tokenItem_isExpired_def intro!: exI [of _ n'])
        moreover have "drops_expired w0 ?k ts ts'"
          using 1(1,3) it by (auto simp: drops_expired_def tokenItem_isExpired_def)
        ultimately show ?case using bad 1(2) by blast
      next
        case (2 n' v')
        show ?case using ok [OF 2(1) it(1,3), of n'] 2(2) act unfolding it(2) by (simp cong: if_cong)
      qed
      show ?thesis
      proof (cases "ts_Status s = TokenStatusActive")
        case True
        then show ?thesis
          using good [unfolded renewing_read_def memory_manager_sel] unfolding Some sum.case option.case
          by (simp only: s if_False simp_thms)
      next
        case False
        then show ?thesis using inv by (simp add: Some s wp_throw)
      qed
    qed
  qed
qed

lemma at_getTokenState:
  assumes a: "run_at w0 ts ss es w" and c: "cerr c E" and ne: "TrimSpace tok \<noteq> []"
    and auto: "\<not> (b \<and> cf_AutoRenew cf)"
    and bad: "\<And>e ts' w'. read_fails w0 ts (storeKey tok) e \<Longrightarrow>
      run_at w0 ts' ss es w' \<Longrightarrow> ts' = ts \<or> ts' = ts(storeKey tok := None) \<Longrightarrow> E e w'"
    and ok: "\<And>n n' it w'. run_at w0 ts ss es w' \<Longrightarrow> ts (storeKey tok) = Some it \<Longrightarrow>
      \<not> tokenItem_isExpired it (env_clock w0 n) \<Longrightarrow> ts_Status (ti_state it) = TokenStatusActive \<Longrightarrow>
      \<not> IsExpired (ti_state it) (env_clock w0 n') \<Longrightarrow> Q (ti_state it) w'"
  shows "wp (getTokenState (memory_manager cf az) c tok b) Q E w"
proof (rule at_getTokenState_any [OF a c ne])
  show "E e w'" if "read_fails w0 ts (storeKey tok) e" "run_at w0 ts' ss es w'" "drops_expired w0 (storeKey tok) ts ts'"
    for e ts' w'
    using bad [OF that(1,2)] that(3) by (auto simp: drops_expired_def)
  show "wp (if b \<and> cf_AutoRenew cf \<and> ts_Kind (ti_state it) = TokenKindAccess
      then renewing_read (memory_manager cf az) (normalizeContext c) (ti_state it) (env_clock w0 n')
      else ret (ti_state it)) Q E w'"
    if "run_at w0 ts ss es w'" "ts (storeKey tok) = Some it" "\<not> tokenItem_isExpired it (env_clock w0 n)"
      "ts_Status (ti_state it) = TokenStatusActive" "\<not> IsExpired (ti_state it) (env_clock w0 n')" for n n' it w'
    using auto ok [OF that] by (auto simp: wp_ret)
qed

subsection \<open>Refresh tokens linked to an access token\<close>

definition linked :: "tokenItem \<Rightarrow> TokenValue \<Rightarrow> bool" where
  "linked it k \<longleftrightarrow> ts_Kind (ti_state it) = TokenKindRefresh
     \<and> (\<exists>r. ts_Refresh (ti_state it) = Some r \<and> ri_AccessToken r = k)"

text \<open>The table after the refresh tokens linked to \<open>key\<close> are revoked.\<close>

lemma revoked_links:
  assumes xs: "set xs = owned_states (env_clock w0 n) subject [TokenKindRefresh] ts"
    and ok: "\<And>k it. ts k = Some it \<Longrightarrow> ts_Token (ti_state it) = k"
  shows "without {ts_Token x | x r. x \<in> set xs \<and> ts_Refresh x = Some r \<and> ri_AccessToken r = key}
      (drop_where (\<lambda>it. subject_key it = subject \<and> tokenItem_isExpired it (env_clock w0 n)) ts)
    = drop_where (\<lambda>it. subject_key it = subject
        \<and> (tokenItem_isExpired it (env_clock w0 n) \<or> linked it key)) ts"
proof -
  let ?t = "env_clock w0 n"
  have "k \<in> {ts_Token x | x r. x \<in> set xs \<and> ts_Refresh x = Some r \<and> ri_AccessToken r = key}
      \<longleftrightarrow> (\<exists>it. live_item ?t ts k = Some it \<and> subject_key it = subject \<and> linked it key)" for k
    unfolding xs owned_states_def linked_def using ok
    by (auto simp: MatchKind_def dest: live_item_SomeD)
  then show ?thesis
    by (auto simp: without_def drop_where_def live_item_def fun_eq_iff split: option.splits)
qed

lemma drop_where_Some: "drop_where P ts k = Some it \<longleftrightarrow> ts k = Some it \<and> \<not> P it"
  by (auto simp: drop_where_def split: option.split)

definition unlinks :: "'x env_scheme \<Rightarrow> bool \<Rightarrow> LoginSubject \<Rightarrow> TokenValue \<Rightarrow>
    (TokenValue \<Rightarrow> tokenItem option) \<Rightarrow> (TokenValue \<Rightarrow> tokenItem option) \<Rightarrow> bool" where
  "unlinks w0 revoke subject key ts ts' \<longleftrightarrow>
     (if revoke
      then \<exists>n. ts' = drop_where (\<lambda>it. subject_key it = subject
             \<and> (tokenItem_isExpired it (env_clock w0 n) \<or> linked it key)) ts
      else ts' = ts)"

lemma unlinksD:
  assumes "unlinks w0 revoke subject key ts ts'"
  shows "ts' k = Some it \<Longrightarrow> ts k = Some it"
    and "ts' k = Some it \<Longrightarrow> revoke \<Longrightarrow> subject_key it = subject \<Longrightarrow> \<not> linked it key"
    and "ts k = Some it \<Longrightarrow> subject_key it \<noteq> subject
           \<or> (\<forall>n. \<not> tokenItem_isExpired it (env_clock w0 n)) \<and> \<not> linked it key \<Longrightarrow> ts' k = Some it"
  using assms by (auto simp: unlinks_def drop_where_Some split: if_splits)

lemma at_revokeRefreshForAccessToken:
  assumes a: "run_at w0 ts ss es w" and c: "cerr c E" and k: "ts_Token s \<noteq> []"
    and ok: "\<And>ts' w'. run_at w0 ts' ss es w' \<Longrightarrow>
      unlinks w0 (rc_RevokeRefreshOnLogout (cf_Refresh (complete_config cf)))
        (LoginSubject_Normalize (TokenState_Subject s)) (ts_Token s) ts ts' \<Longrightarrow> Q () w'"
  shows "wp (revokeRefreshForAccessToken (memory_manager cf az) c s) Q E w"
proof (cases "rc_RevokeRefreshOnLogout (cf_Refresh (complete_config cf))")
  case False
  with ok [OF a] show ?thesis
    by (simp add: revokeRefreshForAccessToken_def wp_ret unlinks_def)
next
  case True
  have "wp (bindE (mem_FindTokenStates c (TokenState_Subject s) [TokenKindRefresh])
      (\<lambda>states. delete_linked (memory_manager cf az) c (ts_Token s) states)) Q E w"
  proof (intro wp_bindI at_Find [OF a c] at_delete_linked [OF _ c], assumption, rule ok,
      assumption, goal_cases)
    case (1 n xs w' w'')
    from revoked_links [OF 1(3) run_at_token [OF a]] True show ?case
      unfolding unlinks_def by (simp del: complete_config_sel) blast
  qed
  with True k show ?thesis
    unfolding revokeRefreshForAccessToken_def memory_manager_sel mem_store_sel
    by simp
qed


subsection \<open>Guarded updates\<close>

text \<open>Without interference, the guarded update of what was just read wins.\<close>

lemma at_update:
  assumes a: "run_at w0 ts ss es w" and c: "cerr c E" and ok: "state_ok s"
    and tok: "ts_Token e = ts_Token s" and live: "\<And>n. live_state (env_clock w0 n) ts (ts_Token s) = Some e"
    and Q: "\<And>n w'. run_at w0 (ts(ts_Token s \<mapsto> stored_item s (env_clock w0 n) ttl)) ss es w' \<Longrightarrow> Q () w'"
  shows "wp (updateTokenState (memory_manager cf az) c e s ttl) Q E w"
  unfolding updateTokenState_def memory_manager_sel option.case mem_store_sel
  by (rule wp_bindI, rule at_CAS [OF a c state_ok_storable [OF ok] tok])
    (simp_all add: wp_ret Q live)

lemma at_sync:
  assumes a: "run_at w0 ts ss es w" and c: "cerr c E" and sub: "\<not> LoginSubject_IsZero subject"
    and Q: "\<And>n w'. run_at w0 ts (ss(LoginSubject_Normalize subject \<mapsto>
        ensured_session (env_clock w0 n) (LoginSubject_Normalize subject) ttl ss)) es w' \<Longrightarrow> Q () w'"
  shows "wp (syncSessionTTL (memory_manager cf az) c subject ttl) Q E w"
  unfolding syncSessionTTL_def Let_def memory_manager_sel option.case mem_store_sel
  by (rule at_EnsureSession [OF a c]) (use sub Q in simp_all)

end
