(* ===== verification/Access_Properties.thy ===== *)
theory Access_Properties
  imports Login_Effects
begin

text \<open>
  What login, reading, renewal and logout mean to a client of a Manager over the in-memory store,
  stated for the whole operation from a state of the store to the next.
\<close>

subsection \<open>Usable tokens and a demonstration world\<close>

text \<open>A stored token that is active and outlives every instant the clock shows.\<close>

definition usable :: "'x mem_scheme \<Rightarrow> TokenValue \<Rightarrow> tokenItem \<Rightarrow> bool" where
  "usable w tok it \<longleftrightarrow> mem_tokens w (storeKey tok) = Some it
     \<and> ts_Status (ti_state it) = TokenStatusActive \<and> (\<forall>n. \<not> tokenItem_isExpired it (env_clock w n))"

text \<open>Every reading of the clock lies in the window, and the window is no longer than the lifetime.\<close>

definition clock_below :: "'x env_scheme \<Rightarrow> duration \<Rightarrow> bool" where
  "clock_below w lifetime \<longleftrightarrow> lifetime \<le> 0
     \<or> (\<forall>m n. env_clock w m < Time_Add (env_clock w n) lifetime)"

definition demo_env :: env where
  "demo_env = \<lparr>env_clock = (\<lambda>_. 0), env_order = (\<lambda>_ _. 0),
     env_rand = (\<lambda>_. Some (\<lambda>_. CHR 0x00)), env_tick = 0, env_published = []\<rparr>"

definition demo :: mem where
  "demo = mem_NewStore demo_env"

definition no_rbac :: rbac where
  "no_rbac = NewAuthorizer []"

lemma demo_sel [simp]:
  "env_clock demo = (\<lambda>_. 0)" "mem_tokens demo = (\<lambda>_. None)" "mem_sessions demo = (\<lambda>_. None)"
  "mem_inv demo" "mem_safe demo" "env_published demo = []"
  using mem_inv_NewStore [of demo_env] mem_safe_NewStore [of demo_env]
  by (simp_all add: demo_def mem_NewStore_def demo_env_def env.defs mem.defs)

lemma DefaultConfig_sel [simp]:
  "cf_AutoRenew DefaultConfig = False" "cf_Concurrent DefaultConfig = True"
  "cf_RequireNonce DefaultConfig = False" "0 \<le> cf_Timeout DefaultConfig"
  "cf_Refresh DefaultConfig = DefaultRefreshConfig"
  by (simp_all add: DefaultConfig_def Hour_def Minute_def Second_def)

lemma demo_trim [simp]:
  "TrimSpace ''alice'' = ''alice''" "TrimSpace ''abc'' = ''abc''" "TrimSpace ''r1'' = ''r1''"
  by (rule TrimSpace_graphic; simp add: graphic_def)+

lemma clock_below_simps [simp]: "0 \<le> d \<Longrightarrow> clock_below demo d"
  by (auto simp: clock_below_def Time_Add_def)

lemma stored_item_lives:
  assumes "state_ok s" and "clock_below w ttl"
    and "ts_ExpiresAt s = (if ttl > 0 then Some (Time_Add (env_clock w a) ttl) else None)"
  shows "\<not> tokenItem_isExpired (stored_item s (env_clock w b) ttl) (env_clock w n)"
proof -
  have ex: "IsExpired s t \<longleftrightarrow> ttl > 0 \<and> Time_Add (env_clock w a) ttl \<le> t" for t
    using assms(3) by (auto simp: IsExpired_iff)
  have "item_ok (ts_Token s) (stored_item s (env_clock w b) ttl)"
    using item_ok_new [OF assms(1)] by (simp add: stored_item_def stored_state_id [OF assms(1)])
  note item_expired_iff [OF this]
  with EffectiveExpiresAt_expired_iff [of s "env_clock w b" ttl "env_clock w n"] ex assms(2)
  show ?thesis
    by (auto simp: stored_item_def stored_state_id [OF assms(1)] clock_below_def not_le not_less)
qed

lemma login_stored_lives:
  assumes "TrimSpace i \<noteq> []" and "TrimSpace tok \<noteq> []" and "clock_below w (cf_Timeout cf)"
  shows "\<not> tokenItem_isExpired
    (stored_item (access_state cf (login_key i t) lo tok (env_clock w a)) (env_clock w b) (login_ttl cf))
    (env_clock w n)"
  using assms
  by (intro stored_item_lives [where a = a] access_state_ok) (auto simp: login_ttl_def clock_below_def)

subsection \<open>Login\<close>

lemma wp_Login:
  fixes opts :: "loginOptions go_option list" and i :: string
  defines "lo \<equiv> option_Apply default_loginOptions opts"
  defines "key \<equiv> login_key i (lo_loginType lo)"
  assumes inv: "mem_inv w" and c: "healthy c" and ne: "TrimSpace i \<noteq> []" "TrimSpace tok \<noteq> []"
    and nonce: "\<not> cf_RequireNonce cf"
    and ok: "\<And>ts' n n' n'' w'.
      (if cf_Concurrent cf then ts' = mem_tokens w
       else replaces w (rc_RevokeRefreshOnLogout (RefreshConfig_withDefaults (cf_Refresh cf))) key
              (lo_preserveRefresh lo) (mem_tokens w) ts') \<Longrightarrow>
      run_at w
        (ts'(storeKey tok \<mapsto>
           stored_item (access_state cf key lo tok (env_clock w n)) (env_clock w n') (login_ttl cf)))
        ((mem_sessions w)(key \<mapsto> ensured_session (env_clock w n'') key (login_ttl cf) (mem_sessions w)))
        (published w @ (if cf_Concurrent cf then []
               else [new_Event EventReplaced (sub_LoginID key) (sub_LoginType key) []])
            @ [new_Event EventLogin (sub_LoginID key) (sub_LoginType key) (TrimSpace tok)]) w' \<Longrightarrow>
      Q ((access_state cf key lo tok (env_clock w n))\<lparr>ts_Token := TrimSpace tok\<rparr>) w'"
  shows "wp (Login (memory_manager cf az) c i tok opts) Q E w"
proof -
  have ok_state: "state_ok (access_state cf key lo tok now)" for now
    unfolding key_def by (rule access_state_ok [OF ne])
  show ?thesis
    unfolding Login_def lo_def [symmetric]
    apply (rule wp_bindI)
    apply (rule at_login [OF at_start [OF inv] _ ne])
      apply (simp add: c)
     apply (simp add: nonce)
    apply (simp only: wp_ret withPlaintextToken_def option.map option.sel
        state_ok_Clone [OF ok_state [unfolded key_def]])
    apply (rule ok [unfolded key_def])
     apply assumption+
    done
qed


lemma Login_makes_usable':
  assumes inv: "mem_inv w" and c: "healthy c" and ne: "TrimSpace i \<noteq> []" "TrimSpace tok \<noteq> []"
    and nonce: "\<not> cf_RequireNonce cf" and life: "clock_below w (cf_Timeout cf)"
  shows "\<exists>it w'. Login (memory_manager cf az) c i tok opts w
        = (Inr ((ti_state it)\<lparr>ts_Token := TrimSpace tok\<rparr>), w')
      \<and> mem_inv w' \<and> env_clock w' = env_clock w \<and> usable w' tok it
      \<and> ts_Kind (ti_state it) = TokenKindAccess
      \<and> (let lo = option_Apply default_loginOptions opts; key = login_key i (lo_loginType lo) in
           TokenState_Subject (ti_state it) = key
         \<and> ts_Device (ti_state it) = lo_device lo \<and> ts_Metadata (ti_state it) = cloneRawMessage (lo_metadata lo)
         \<and> (cf_Concurrent cf \<longrightarrow> mem_tokens w' = (mem_tokens w)(storeKey tok \<mapsto> it))
         \<and> (\<exists>session. mem_sessions w' = (mem_sessions w)(key \<mapsto> session))
         \<and> published w' = published w
             @ (if cf_Concurrent cf then [] else [new_Event EventReplaced (sub_LoginID key) (sub_LoginType key) []])
             @ [new_Event EventLogin (sub_LoginID key) (sub_LoginType key) (TrimSpace tok)])"
proof -
  let ?lo = "option_Apply default_loginOptions opts"
  let ?key = "login_key i (lo_loginType ?lo)"
  have "wp (Login (memory_manager cf az) c i tok opts)
      (\<lambda>s w'. \<exists>it. s = (ti_state it)\<lparr>ts_Token := TrimSpace tok\<rparr>
        \<and> mem_inv w' \<and> env_clock w' = env_clock w \<and> usable w' tok it
        \<and> ts_Kind (ti_state it) = TokenKindAccess \<and> TokenState_Subject (ti_state it) = ?key
        \<and> ts_Device (ti_state it) = lo_device ?lo \<and> ts_Metadata (ti_state it) = cloneRawMessage (lo_metadata ?lo)
        \<and> (cf_Concurrent cf \<longrightarrow> mem_tokens w' = (mem_tokens w)(storeKey tok \<mapsto> it))
        \<and> (\<exists>session. mem_sessions w' = (mem_sessions w)(?key \<mapsto> session))
        \<and> published w' = published w
            @ (if cf_Concurrent cf then [] else [new_Event EventReplaced (sub_LoginID ?key) (sub_LoginType ?key) []])
            @ [new_Event EventLogin (sub_LoginID ?key) (sub_LoginType ?key) (TrimSpace tok)])
      (\<lambda>_ _. False) w"
  proof (rule wp_Login [OF inv c ne nonce], goal_cases)
    case (1 ts' n n' n'' w')
    let ?it = "stored_item (access_state cf ?key ?lo tok (env_clock w n))
      (env_clock w n') (login_ttl cf)"
    note d = at_D [OF 1(2)]
    note sid = stored_state_id [OF access_state_ok [OF ne]]
    have "usable w' tok ?it"
      using login_stored_lives [OF ne life] d by (simp add: usable_def stored_item_def sid)
    moreover have "TokenState_Subject (access_state cf ?key ?lo tok t) = ?key" for t
      by (simp add: TokenState_Subject_def del: login_key_sel(1,2))
    ultimately show ?case
      using d 1(1) by (intro exI [of _ ?it]) (auto simp: stored_item_def sid)
  qed
  then show ?thesis unfolding wp_succeeds Let_def by blast
qed

text \<open>C7: a login with a non-empty login ID and token, where no nonce is demanded, succeeds and
  makes the token usable, while the context is not done and the clock stays within the timeout. The
  store holds, under the hash of the token, an active access state of the trimmed login ID and the login
  type of the options (or the default one), with their device and metadata, and the caller gets that
  state with the token in place of the hash. With concurrent logins allowed, no other token is
  touched. The session of that subject exists and no other session changes. The one event is
  the login of that subject, after its replacement when concurrent logins are not allowed.\<close>

theorem Login_makes_usable:
  assumes inv: "mem_inv w" and c: "healthy c" and ne: "TrimSpace i \<noteq> []" "TrimSpace tok \<noteq> []"
    and nonce: "\<not> cf_RequireNonce cf" and life: "clock_below w (cf_Timeout cf)"
  shows "\<exists>it w'. Login (memory_manager cf az) c i tok opts w
        = (Inr ((ti_state it)\<lparr>ts_Token := TrimSpace tok\<rparr>), w')
      \<and> mem_inv w' \<and> env_clock w' = env_clock w \<and> usable w' tok it
      \<and> ts_Kind (ti_state it) = TokenKindAccess
      \<and> (let lo = option_Apply default_loginOptions opts; key = login_key i (lo_loginType lo) in
           TokenState_Subject (ti_state it) = key
         \<and> ts_Device (ti_state it) = lo_device lo \<and> ts_Metadata (ti_state it) = cloneRawMessage (lo_metadata lo)
         \<and> (cf_Concurrent cf \<longrightarrow> mem_tokens w' = (mem_tokens w)(storeKey tok \<mapsto> it))
         \<and> (\<exists>session. mem_sessions w' = (mem_sessions w)(key \<mapsto> session))
         \<and> published w' = published w
             @ (if cf_Concurrent cf then [] else [new_Event EventReplaced (sub_LoginID key) (sub_LoginType key) []])
             @ [new_Event EventLogin (sub_LoginID key) (sub_LoginType key) (TrimSpace tok)])"
  by (rule Login_makes_usable' [OF assms])

theorem Login_makes_usable_witness:
  "\<exists>it w'. Login (memory_manager DefaultConfig no_rbac) None ''alice'' ''abc'' [WithLoginType ''web''] demo
        = (Inr ((ti_state it)\<lparr>ts_Token := ''abc''\<rparr>), w')
      \<and> mem_inv w' \<and> usable w' ''abc'' it \<and> ts_LoginType (ti_state it) = ''web''"
proof -
  let ?key = "login_key ''alice'' (lo_loginType (option_Apply default_loginOptions [WithLoginType ''web'']))"
  have web: "sub_LoginType ?key = ''web''"
    by code_simp
  obtain it w' where w': "Login (memory_manager DefaultConfig no_rbac) None ''alice'' ''abc'' [WithLoginType ''web''] demo
        = (Inr ((ti_state it)\<lparr>ts_Token := TrimSpace ''abc''\<rparr>), w')"
      "mem_inv w'" "usable w' ''abc'' it" and key: "TokenState_Subject (ti_state it) = ?key"
    using Login_makes_usable [of demo None "''alice''" "''abc''" DefaultConfig no_rbac "[WithLoginType ''web'']"]
    unfolding Let_def by auto
  have "TrimSpace ''abc'' = ''abc''" by code_simp
  moreover have "ts_LoginType (ti_state it) = ''web''"
    using web unfolding key [symmetric] by (simp add: TokenState_Subject_def)
  ultimately show ?thesis using w' by metis
qed


text \<open>C9: when concurrent logins are not allowed and no nonce is demanded, a login that is asked to
  preserve no refresh token leaves the subject with exactly one access token: the new one, which the
  caller gets. Where logout revokes refresh tokens, the subject has no refresh token left either. The
  tokens of every other subject stay as they are.\<close>

theorem Login_exclusive:
  assumes inv: "mem_inv w" and c: "healthy c" and ne: "TrimSpace i \<noteq> []" "TrimSpace tok \<noteq> []"
    and nonce: "\<not> cf_RequireNonce cf" and single: "\<not> cf_Concurrent cf"
    and keep: "lo_preserveRefresh (option_Apply default_loginOptions opts) = []"
  shows "\<exists>new w'. Login (memory_manager cf az) c i tok opts w = (Inr ((ti_state new)\<lparr>ts_Token := TrimSpace tok\<rparr>), w')
      \<and> (let key = login_key i (lo_loginType (option_Apply default_loginOptions opts)) in
         (\<forall>k it. mem_tokens w' k = Some it \<and> subject_key it = key \<and> ts_Kind (ti_state it) = TokenKindAccess
            \<longleftrightarrow> k = storeKey tok \<and> it = new)
       \<and> (rc_RevokeRefreshOnLogout (cf_Refresh (complete_config cf)) \<longrightarrow>
            (\<forall>k it. mem_tokens w' k = Some it \<longrightarrow> subject_key it = key \<longrightarrow>
               ts_Kind (ti_state it) \<noteq> TokenKindRefresh))
       \<and> (\<forall>k it. mem_tokens w k = Some it \<longrightarrow> subject_key it \<noteq> key \<longrightarrow> k \<noteq> storeKey tok \<longrightarrow>
            mem_tokens w' k = Some it))"
proof -
  let ?lo = "option_Apply default_loginOptions opts"
  let ?key = "login_key i (lo_loginType ?lo)"
  let ?revoke = "rc_RevokeRefreshOnLogout (RefreshConfig_withDefaults (cf_Refresh cf))"
  have "wp (Login (memory_manager cf az) c i tok opts)
      (\<lambda>s w'. \<exists>new. s = (ti_state new)\<lparr>ts_Token := TrimSpace tok\<rparr>
       \<and> (\<forall>k it. mem_tokens w' k = Some it \<and> subject_key it = ?key \<and> ts_Kind (ti_state it) = TokenKindAccess
            \<longleftrightarrow> k = storeKey tok \<and> it = new)
       \<and> (?revoke \<longrightarrow> (\<forall>k it. mem_tokens w' k = Some it \<longrightarrow> subject_key it = ?key \<longrightarrow>
               ts_Kind (ti_state it) \<noteq> TokenKindRefresh))
       \<and> (\<forall>k it. mem_tokens w k = Some it \<longrightarrow> subject_key it \<noteq> ?key \<longrightarrow> k \<noteq> storeKey tok \<longrightarrow>
            mem_tokens w' k = Some it)) (\<lambda>_ _. False) w"
  proof (rule wp_Login [OF inv c ne nonce], goal_cases)
    case (1 ts' n n' n'' w')
    note d = at_D(3) [OF 1(2)]
    have r: "replaces w ?revoke ?key [] (mem_tokens w) ts'"
      using 1(1) single keep by simp
    let ?new = "stored_item (access_state cf ?key ?lo tok (env_clock w n)) (env_clock w n') (login_ttl cf)"
    have new: "ti_state ?new = access_state cf ?key ?lo tok (env_clock w n)" "subject_key ?new = ?key"
      by (simp_all add: stored_item_def subject_key_def stored_state_id [OF access_state_ok [OF ne]])
    have "k \<noteq> []" if "ts' k = Some it" for k it
      using that r mem_inv_item [OF inv, of k it] unfolding replaces_def
      by (metis item_ok_def option.distinct(1) state_ok_def)
    with r new show ?case
      unfolding d replaces_def by (intro exI [of _ ?new]) (auto split: if_splits)
  qed
  then show ?thesis unfolding wp_succeeds Let_def complete_config_sel by blast
qed

theorem Login_exclusive_witness:
  "\<exists>new w'. Login (memory_manager (DefaultConfig\<lparr>cf_Concurrent := False\<rparr>) no_rbac) None
       ''alice'' ''abc'' [] demo = (Inr ((ti_state new)\<lparr>ts_Token := ''abc''\<rparr>), w')
     \<and> mem_tokens w' (storeKey ''abc'') = Some new"
  using Login_exclusive [of demo None "''alice''" "''abc''" "DefaultConfig\<lparr>cf_Concurrent := False\<rparr>" "[]" no_rbac]
  by (auto simp: default_loginOptions_def Let_def)

subsection \<open>Reading\<close>

lemma usable_not_failing: "usable w tok it \<Longrightarrow> \<not> read_fails w (mem_tokens w) (storeKey tok) e"
  by (simp add: usable_def read_fails_def)

lemma wp_getTokenState_usable:
  assumes inv: "mem_inv w" and u: "usable w tok it" and c: "healthy c" and ne: "TrimSpace tok \<noteq> []"
    and auto: "\<not> (b \<and> cf_AutoRenew cf)"
    and ok: "\<And>w'. run_at w (mem_tokens w) (mem_sessions w) (published w) w' \<Longrightarrow> Q (ti_state it) w'"
  shows "wp (getTokenState (memory_manager cf az) c tok b) Q E w"
proof (rule at_getTokenState [OF at_start [OF inv] _ ne auto], goal_cases)
  case 1
  show ?case using c by simp
next
  case (2 e ts' w')
  with usable_not_failing [OF u] show ?case by blast
next
  case (3 n n' it' w')
  with u ok show ?case by (simp add: usable_def)
qed

lemma usable_state_ok: "mem_inv w \<Longrightarrow> usable w tok it \<Longrightarrow> item_ok (storeKey tok) it"
  by (auto simp: usable_def intro: mem_inv_item)

lemma GetTokenState_usable':
  assumes inv: "mem_inv w" and u: "usable w tok it" and c: "healthy c" and ne: "TrimSpace tok \<noteq> []"
    and auto: "\<not> cf_AutoRenew cf"
  shows "\<exists>w'. GetTokenState (memory_manager cf az) c tok w
        = (Inr ((ti_state it)\<lparr>ts_Token := TrimSpace tok\<rparr>), w')
      \<and> mem_inv w' \<and> mem_tokens w' = mem_tokens w \<and> mem_sessions w' = mem_sessions w
      \<and> published w' = published w"
proof -
  have "TokenState_Clone (ti_state it) = ti_state it"
    using usable_state_ok [OF inv u] by (simp add: item_ok_def state_ok_Clone)
  then have "wp (GetTokenState (memory_manager cf az) c tok)
      (\<lambda>s w'. s = (ti_state it)\<lparr>ts_Token := TrimSpace tok\<rparr>
        \<and> mem_inv w' \<and> mem_tokens w' = mem_tokens w \<and> mem_sessions w' = mem_sessions w
        \<and> published w' = published w) (\<lambda>_ _. False) w"
    unfolding GetTokenState_def
    by (intro wp_bindI wp_getTokenState_usable [OF inv u c ne])
      (use auto in \<open>auto simp: wp_ret withPlaintextToken_def at_D\<close>)
  then show ?thesis unfolding wp_succeeds by blast
qed

text \<open>
  With automatic renewal on, reading an access token also writes it back: the last activity is the
  clock, the expiry is moved where an active timeout is set, and the session of the subject is
  brought to the new lifetime.
\<close>

lemma autoRenewed_complete [simp]: "autoRenewed (complete_config cf) s now = autoRenewed cf s now"
  by (simp add: autoRenewed_def cong: if_cong)

lemma autoRenewed_facts:
  assumes "state_ok s"
  shows "state_ok (fst (autoRenewed cf s now))" "ts_Token (fst (autoRenewed cf s now)) = ts_Token s"
    and "TokenState_Subject (fst (autoRenewed cf s now)) = TokenState_Subject s"
    and "ts_LoginID (fst (autoRenewed cf s now)) = ts_LoginID s" "ts_Kind (fst (autoRenewed cf s now)) = ts_Kind s"
  using assms by (simp_all add: autoRenewed_def Touch_def state_ok_def normal_state_def cloned_def
      TokenState_Subject_def Let_def)

definition renewed_read :: "Config \<Rightarrow> 'x mem_scheme \<Rightarrow> TokenValue \<Rightarrow> tokenItem \<Rightarrow> TokenState \<Rightarrow> 'x mem_scheme \<Rightarrow> bool" where
  "renewed_read cf w k it s w' \<longleftrightarrow> (\<exists>n it' session. s = fst (autoRenewed cf (ti_state it) (env_clock w n))
     \<and> ti_state it' = s \<and> mem_tokens w' = (mem_tokens w)(k \<mapsto> it')
     \<and> mem_sessions w' = (mem_sessions w)(subject_key it \<mapsto> session))"

lemma renewed_readI:
  assumes "run_at w ((mem_tokens w)(k \<mapsto> it')) ((mem_sessions w)(subject_key it \<mapsto> session)) es w'"
    and "ti_state it' = fst (autoRenewed cf (ti_state it) (env_clock w n))"
  shows "renewed_read cf w k it (fst (autoRenewed cf (ti_state it) (env_clock w n))) w'"
  unfolding renewed_read_def using at_D [OF assms(1)] assms(2) by blast

lemma GetTokenState_live:
  assumes inv: "mem_inv w" and u: "usable w tok it" and c: "healthy c" and ne: "TrimSpace tok \<noteq> []"
    and sub: "cf_AutoRenew cf \<Longrightarrow> \<not> LoginSubject_IsZero (subject_key it)"
  shows "\<exists>s w'. GetTokenState (memory_manager cf az) c tok w = (Inr (s\<lparr>ts_Token := TrimSpace tok\<rparr>), w')
      \<and> mem_inv w' \<and> ts_LoginID s = ts_LoginID (ti_state it) \<and> TokenState_Subject s = TokenState_Subject (ti_state it)
      \<and> ts_Kind s = ts_Kind (ti_state it)
      \<and> (if cf_AutoRenew cf \<and> ts_Kind (ti_state it) = TokenKindAccess then renewed_read cf w (storeKey tok) it s w'
         else s = ti_state it \<and> mem_tokens w' = mem_tokens w \<and> mem_sessions w' = mem_sessions w)"
    (is "\<exists>s w'. _ = _ \<and> ?R s w'")
proof -
  let ?s = "ti_state it"
  have sok: "state_ok ?s" and tok: "ts_Token ?s = storeKey tok"
    using usable_state_ok [OF inv u] by (simp_all add: item_ok_def)
  note f = autoRenewed_facts [OF sok, of cf]
  have c': "cerr (normalizeContext c) E" for E :: "error \<Rightarrow> 'a mem_scheme \<Rightarrow> bool" using c by simp
  have live: "live_state (env_clock w n) (mem_tokens w) (storeKey tok) = Some ?s" for n
    using u by (simp add: usable_def live_state_def live_item_def)
  have renew: "wp (renewing_read (memory_manager cf az) (normalizeContext c) ?s (env_clock w n))
      (P) (\<lambda>_ _. False) v" if "run_at w (mem_tokens w) (mem_sessions w) (published w) v"
      and auto: "cf_AutoRenew cf" and post: "\<And>r v'. r = fst (autoRenewed cf ?s (env_clock w n)) \<Longrightarrow> mem_inv v' \<Longrightarrow> renewed_read cf w (storeKey tok) it r v'
        \<Longrightarrow> P r v'" for n v P
  proof -
    have sub': "\<not> LoginSubject_IsZero (TokenState_Subject ?s)"
      using sub [OF auto] by (simp add: subject_key_def)
    obtain r ttl where r: "autoRenewed cf ?s (env_clock w n) = (r, ttl)" by fastforce
    note fr = f [of "env_clock w n", unfolded r fst_conv]
    have st: "ti_state (stored_item r t ttl) = r" for t
      by (simp add: stored_item_def stored_state_id [OF fr(1)])
    show ?thesis
      unfolding renewing_read_def memory_manager_sel autoRenewed_complete r prod.case fr(3)
      by (rule wp_bindI, rule at_update [OF that(1) c' fr(1)], simp add: fr(2),
          simp add: fr(2) tok live, rule wp_bindI, rule at_sync [OF _ c' sub'], assumption,
          rule wp_bindI, rule at_publish, assumption, simp, unfold state_ok_Clone [OF fr(1)] wp_ret,
          rule post, simp add: r, simp add: at_D(1), subst fst_conv [of r ttl, symmetric], fold r,
          rule renewed_readI, fold subject_key_def, simp add: fr(2) tok, simp add: r st)
  qed
  have "wp (getTokenState (memory_manager cf az) c tok True) (\<lambda>s w'. s = TokenState_Clone s \<and> ?R s w') (\<lambda>_ _. False) w"
    by (rule at_getTokenState_any [OF at_start [OF inv] _ ne])
      (use c u usable_not_failing [OF u] in \<open>auto simp: usable_def wp_ret at_D f state_ok_Clone sok intro!: renew\<close>)
  then obtain s w' where "getTokenState (memory_manager cf az) c tok True w = (Inr s, w')" "TokenState_Clone s = s" "?R s w'"
    unfolding wp_succeeds by metis
  then show ?thesis
    by (intro exI [of _ s] exI [of _ w']) (simp add: GetTokenState_def bindE_def ret_def withPlaintextToken_def)
qed

text \<open>The state that the demonstrations start from: one login.\<close>

definition demo_login :: mem where
  "demo_login = snd (Login (memory_manager DefaultConfig no_rbac) None ''alice'' ''abc'' [] demo)"

lemma demo_login_usable:
  obtains it where "usable demo_login ''abc'' it" and "mem_inv demo_login"
    and "env_clock demo_login = (\<lambda>_. 0)" and "ts_Kind (ti_state it) = TokenKindAccess" and "ts_LoginID (ti_state it) = ''alice''"
proof -
  from Login_makes_usable' [of demo None "''alice''" "''abc''" DefaultConfig no_rbac "[]"]
  obtain it where *: "usable demo_login ''abc'' it" "mem_inv demo_login" "env_clock demo_login = (\<lambda>_. 0)"
      "ts_Kind (ti_state it) = TokenKindAccess"
    and key: "TokenState_Subject (ti_state it) = login_key ''alice'' (lo_loginType (option_Apply default_loginOptions []))"
    by (auto simp: demo_login_def Let_def)
  have "ts_LoginID (ti_state it) = TrimSpace ''alice''"
    using arg_cong [OF key, of sub_LoginID] by (simp add: TokenState_Subject_def)
  with * that show thesis by simp
qed

lemma demo_login_inv [simp]: "mem_inv demo_login"
  using Login_makes_usable' [of demo None "''alice''" "''abc''" DefaultConfig no_rbac "[]"]
  by (auto simp: demo_login_def)



end
