(* ===== verification/Redis_Properties.thy ===== *)
theory Redis_Properties
  imports Redis_Server Access_Properties
begin

text \<open>
  Managers over the Redis store: what lies on the server is hashed whatever the Managers do.
\<close>

subsection \<open>Managers over Redis\<close>

definition redis_store_value :: "other_json \<Rightarrow> 'x env_scheme redis_Store \<Rightarrow> 'x env_scheme store_value" where
  "redis_store_value other s = \<lparr>sv_ops = redis_store_ops other s, sv_atomic = Some (redis_atomic_ops other s)\<rparr>"

definition redis_manager ::
    "other_json \<Rightarrow> 'x env_scheme redis_Store \<Rightarrow> Config \<Rightarrow> rbac \<Rightarrow> 'x env_scheme manager" where
  "redis_manager other s cf az = the (NewManager (Some (redis_store_value other s))
     [WithConfig cf, WithAuthorizer (Some (rbac_ops az)), WithEventBus (Some recording_bus)])"

lemma redis_manager_sel [simp]:
  "m_store (redis_manager other s cf az) = redis_store_ops other s"
  "m_atomicStore (redis_manager other s cf az) = Some (redis_atomic_ops other s)"
  "m_authorizer (redis_manager other s cf az) = rbac_ops az"
  "m_eventBus (redis_manager other s cf az) = Some recording_bus"
  by (simp_all add: redis_manager_def NewManager_def WithConfig_def WithAuthorizer_def
      WithEventBus_def redis_store_value_def Let_def)

lemma managed_on_redis:
  assumes "faithful_redis held calls s"
  shows "managed (redis_safe held s) (redis_manager other s cf az)"
proof (intro managed.intro managed_axioms.intro)
  show "token_store (redis_safe held s) (m_store (redis_manager other s cf az))"
    using faithful_redis.redis_token_store [OF assms] by simp
  show "atomic_store (redis_safe held s) A" if "m_atomicStore (redis_manager other s cf az) = Some A" for A
    using that faithful_redis.redis_atomic_store [OF assms] by auto
  show "keeps (redis_safe held s) (az_HasAuthority (m_authorizer (redis_manager other s cf az)) c i x) (\<lambda>_. True)"
    for c i x
    using faithful_redis.safe_tick [OF assms] by (simp add: keeps_rbac_HasAuthority)
  show "event_sink (redis_safe held s) b" if "m_eventBus (redis_manager other s cf az) = Some b" for b
    using that faithful_redis.safe_publish [OF assms] by (auto intro!: event_sink.intro)
qed

text \<open>A sequence of calls, each on a Manager of its own configuration and roles.\<close>

definition redis_run ::
    "other_json \<Rightarrow> 'x env_scheme redis_Store \<Rightarrow> (Config \<times> rbac \<times> call) list \<Rightarrow> 'x env_scheme \<Rightarrow> 'x env_scheme" where
  "redis_run other s cs w = fold (\<lambda>(cf, az, call) w. snd (exec (redis_manager other s cf az) call w)) cs w"

lemma redis_run_safe:
  assumes "faithful_redis held calls s" and "redis_safe held s w" and "\<forall>(cf, az, call) \<in> set cs. call_ok call"
  shows "redis_safe held s (redis_run other s cs w)"
  using assms(2,3)
proof (induction cs arbitrary: w)
  case (Cons x cs)
  obtain cf az call where x: "x = (cf, az, call)" by (cases x)
  with Cons.prems have "redis_safe held s (snd (exec (redis_manager other s cf az) call w))"
    by (intro keepsD [OF managed.exec_k [OF managed_on_redis [OF assms(1)]]]) simp_all
  with Cons x show ?case by (simp add: redis_run_def)
qed (simp add: redis_run_def)

text \<open>C8: no plaintext on the Redis server. Over any server that gives back only what was set, and
  after any sequence of calls on Managers over the Redis store that started with an empty
  server, the name of every key of a token ends in the 64 hexadecimal digits of the SHA-256 of
  some token, and the value under it, if it decodes, is the state of that token, whose links to
  other tokens are empty or such digits too.\<close>

theorem redis_tokens_hashed:
  assumes "faithful_redis held calls s" and "held w = {}" and "\<forall>(cf, az, call) \<in> set cs. call_ok call"
  shows "\<forall>token data. (tokenKey s token, data) \<in> held (redis_run other s cs w) \<longrightarrow>
    (\<exists>plain. TrimSpace plain \<noteq> [] \<and> token = hex_EncodeToString (Sum256 (TrimSpace plain)))
    \<and> (\<forall>state. TokenState_Unmarshal data = Inr state \<longrightarrow> ts_Token state = token
        \<and> (\<forall>r. ts_Refresh state = Some r \<longrightarrow>
             (\<forall>link \<in> {ri_AccessToken r, ri_RotatedFrom r, ri_RotatedTo r}.
                link = [] \<or> (\<exists>plain. TrimSpace plain \<noteq> [] \<and> link = storeKey plain))))"
proof (intro allI impI)
  fix token data assume mem: "(tokenKey s token, data) \<in> held (redis_run other s cs w)"
  have "redis_safe held s (redis_run other s cs w)"
    using assms(2) by (intro redis_run_safe [OF assms(1) _ assms(3)]) (simp add: redis_safe_def all_values_def)
  with mem have ok: "token_value_ok token data" by (fastforce simp: redis_safe_def all_values_def)
  then have "\<exists>plain. TrimSpace plain \<noteq> [] \<and> token = hex_EncodeToString (Sum256 (TrimSpace plain))"
    by (auto simp: token_value_ok_def is_store_key_def storeKey_def)
  with ok show "(\<exists>plain. TrimSpace plain \<noteq> [] \<and> token = hex_EncodeToString (Sum256 (TrimSpace plain)))
    \<and> (\<forall>state. TokenState_Unmarshal data = Inr state \<longrightarrow> ts_Token state = token
        \<and> (\<forall>r. ts_Refresh state = Some r \<longrightarrow>
             (\<forall>link \<in> {ri_AccessToken r, ri_RotatedFrom r, ri_RotatedTo r}.
                link = [] \<or> (\<exists>plain. TrimSpace plain \<noteq> [] \<and> link = storeKey plain))))"
    by (auto simp: token_value_ok_def hashed_state_def hashed_refresh_def key_or_empty_def is_store_key_def)
qed

definition empty_server :: redis_world where
  "empty_server = new_redis_world demo_env"

definition demo_calls :: "(Config \<times> rbac \<times> call) list" where
  "demo_calls = [(DefaultConfig, no_rbac, CLogin None ''alice'' ''plaintext'' [])]"

definition demo_redis :: "redis_world redis_Store" where
  "demo_redis = server_store ''bt''"

theorem redis_tokens_hashed_witness:
  "\<forall>data. (tokenKey demo_redis ''plaintext'', data) \<notin>
     server_values (redis_run (\<lambda>_. None) demo_redis demo_calls empty_server)"
proof (intro allI notI)
  fix data
  assume mem: "(tokenKey demo_redis ''plaintext'', data) \<in>
     server_values (redis_run (\<lambda>_. None) demo_redis demo_calls empty_server)"
  have "server_values empty_server = {}"
    by (simp add: empty_server_def new_redis_world_def server_values_def redis_world.defs env.defs)
  moreover have "\<forall>(cf, az, call) \<in> set demo_calls. call_ok call" by (simp add: demo_calls_def call_ok_def)
  ultimately obtain plain where "''plaintext'' = hex_EncodeToString (Sum256 (TrimSpace plain))"
    using redis_tokens_hashed [OF server.faithful_redis_axioms, of empty_server demo_calls "''bt''" "\<lambda>_. None"] mem
    unfolding demo_redis_def
    by blast
  from arg_cong [OF this, of length] show False by simp
qed

end
