(* ===== verification/Redis_Refinement.thy ===== *)
theory Redis_Refinement
  imports Redis_Table Redis_Properties Memory_Table Json_Properties
begin

text \<open>
  The Redis store refines the table of live states, so it answers as the in-memory store does; the
  reference server meets what the refinement asks of a server.
\<close>

subsection \<open>The store implements the table\<close>

context redis_server begin

lemma implements_table:
  assumes now: "time_ok now"
  shows "table_store (redis_rel ready s now) (redis_store_ops other s) (redis_atomic_ops other s) now redis_holds"
proof (unfold_locales, goal_cases)
  case (1 w T c st ttl)
  then obtain U where U: "redis_holding ready s U w" "T = live_part now U" by (auto simp: redis_rel_holding)
  show ?case
    unfolding redis_store_ops_def store_ops.simps
    by (rule wp_mono [OF SaveTokenState_ok [OF U(1) 1(2-4)]])
      (auto simp: U(2) redis_rel_holding live_part_put [symmetric])
next
  case (2 w T c st e ttl)
  then obtain U where U: "redis_holding ready s U w" "T = live_part now U" by (auto simp: redis_rel_holding)
  show ?case
    unfolding redis_atomic_ops_def atomic_ops.simps
    by (rule wp_mono [OF CompareAndSwap_ok [OF U(1) 2(2-5)]])
      (auto simp: U(2) redis_rel_holding live_part_put [symmetric])
next
  case (3 w T c k)
  then obtain U where U: "redis_holding ready s U w" "T = live_part now U" by (auto simp: redis_rel_holding)
  show ?case
    unfolding redis_store_ops_def store_ops.simps U(2) by (rule GetTokenState_ok [OF U(1) 3(2)])
next
  case (4 w T c k)
  then obtain U where U: "redis_holding ready s U w" "T = live_part now U" by (auto simp: redis_rel_holding)
  show ?case
    unfolding redis_store_ops_def store_ops.simps redis_ConsumeTokenState_def U(2)
    by (rule consume_ok [OF U(1) 4(2) now])
next
  case (5 w T c kind k)
  then obtain U where U: "redis_holding ready s U w" "T = live_part now U" by (auto simp: redis_rel_holding)
  show ?case
    using consume_ok [OF U(1) 5(2) now] 5(3)
    by (simp add: redis_atomic_ops_def redis_ConsumeTokenStateOfKind_def U(2))
next
  case (6 w T c k)
  then obtain U where U: "redis_holding ready s U w" "T = live_part now U" by (auto simp: redis_rel_holding)
  show ?case
    unfolding redis_store_ops_def store_ops.simps
    by (rule wp_mono [OF DeleteTokenState_ok [OF U(1) 6(2)]])
      (auto simp: U(2) redis_rel_holding live_part_drop [symmetric])
next
  case (7 w T c subject kinds)
  show ?case
    unfolding redis_store_ops_def store_ops.simps
    by (rule wp_mono [OF find_ok [OF 7]]) (auto simp: distinct_map intro: inj_onI)
next
  case (8 w T c subject kinds)
  show ?case
    unfolding redis_store_ops_def store_ops.simps by (rule delete_all_ok [OF 8])
qed

end


subsection \<open>The reference server is such a server\<close>

definition key_holds :: "redis_value option \<Rightarrow> string option \<Rightarrow> string set \<Rightarrow> bool" where
  "key_holds x v ms \<longleftrightarrow> (case x of
     None \<Rightarrow> v = None \<and> ms = {}
   | Some (RString u e) \<Rightarrow> v = Some u \<and> ms = {}
   | Some (RSet us) \<Rightarrow> v = None \<and> us \<noteq> [] \<and> distinct us \<and> ms = set us)"

definition server_ready ::
    "time \<Rightarrow> 'x redis_world_scheme \<Rightarrow> (string \<Rightarrow> string option) \<Rightarrow> (string \<Rightarrow> string set) \<Rightarrow> bool" where
  "server_ready now w V M \<longleftrightarrow> env_clock w = (\<lambda>_. now) \<and> (\<forall>k. key_holds (visible w k) (V k) (M k))"

lemma key_holds_simps [simp]:
  "key_holds None v ms \<longleftrightarrow> v = None \<and> ms = {}"
  "key_holds (Some (RString u e)) v ms \<longleftrightarrow> v = Some u \<and> ms = {}"
  "key_holds (Some (RSet us)) v ms \<longleftrightarrow> v = None \<and> us \<noteq> [] \<and> distinct us \<and> ms = set us"
  by (simp_all add: key_holds_def)

lemma key_holds_cases:
  assumes "key_holds x v ms"
  obtains "x = None" "v = None" "ms = {}" | u e where "x = Some (RString u e)" "v = Some u" "ms = {}"
  | us where "x = Some (RSet us)" "v = None" "us \<noteq> []" "distinct us" "ms = set us"
  using assms by (auto simp: key_holds_def split: option.splits redis_value.splits)

lemma server_readyD:
  assumes "server_ready now w V M"
  shows "env_clock w = (\<lambda>_. now)" "key_holds (visible w k) (V k) (M k)" "server_now w = now"
  using assms by (simp_all add: server_ready_def server_now_def)

lemma visible_set_key:
  "visible (set_key k x w) j = (if j = k then visible (set_key k x w) k else visible w j)"
  by (auto simp: visible_def set_key_def server_now_def split: option.split redis_value.split)

lemma visible_set_key_same:
  "visible (set_key k None w) k = None" "visible (set_key k (Some (RString v None)) w) k = Some (RString v None)"
  "visible (set_key k (Some (RSet ms)) w) k = Some (RSet ms)"
  "visible (set_key k (Some (RString v (Some t))) w) k =
     (if server_now w < t then Some (RString v (Some t)) else None)"
  by (simp_all add: visible_def set_key_def server_now_def)

lemma ready_set_key:
  assumes "server_ready now w V M" and "key_holds (visible (set_key k x w) k) (V' k) (M' k)"
    and "\<And>j. j \<noteq> k \<Longrightarrow> V' j = V j \<and> M' j = M j"
  shows "server_ready now (set_key k x w) V' M'"
proof -
  have "key_holds (visible (set_key k x w) j) (V' j) (M' j)" for j
    using assms server_readyD(2) [OF assms(1), of j] by (subst visible_set_key) auto
  moreover have "env_clock (set_key k x w) = (\<lambda>_. now)"
    using server_readyD(1) [OF assms(1)] by (simp add: set_key_def)
  ultimately show ?thesis by (simp add: server_ready_def)
qed

lemma visible_expiry: "visible w k = Some (RString v (Some t)) \<Longrightarrow> server_now w < t"
  by (auto simp: visible_def split: option.splits redis_value.splits if_splits)


lemma ready_MGet:
  assumes "server_ready now w V M" "\<forall>k \<in> set ks. M k = {}"
  shows "map (\<lambda>k. case visible w k of Some (RString v e) \<Rightarrow> Some v | _ \<Rightarrow> None) ks = map V ks"
proof (rule map_cong [OF refl])
  fix k assume "k \<in> set ks"
  with assms(2) show "(case visible w k of Some (RString v e) \<Rightarrow> Some v | _ \<Rightarrow> None) = V k"
    using server_readyD(2) [OF assms(1), of k] by (auto elim: key_holds_cases)
qed

lemma ready_SET:
  assumes r: "server_ready now w V M" and k: "M k = {}" and opt: "set_option_ok opt"
  shows "succeeds (server_SET k v opt) (\<lambda>_ w'. server_ready now w' (V(k \<mapsto> v)) M) w"
proof (cases opt)
  case SetPlain
  then show ?thesis
    using k by (auto simp: server_SET_def wp_succeeds visible_set_key_same intro!: ready_set_key [OF r])
next
  case (SetPX m)
  with opt obtain n where n: "ParseInt m = Some n" "0 < n" by (auto simp: set_option_ok_def px_ok_def)
  then have "0 < n * Millisecond" by (simp add: Millisecond_def)
  with n SetPX k show ?thesis
    by (auto simp: server_SET_def wp_succeeds visible_set_key_same intro!: ready_set_key [OF r])
next
  case SetKeepTTL
  define e where "e = (case visible w k of Some (RString u e) \<Rightarrow> e | _ \<Rightarrow> None)"
  have "server_now w < t" if "e = Some t" for t
    using that unfolding e_def by (auto split: option.splits redis_value.splits dest: visible_expiry)
  then have "key_holds (visible (set_key k (Some (RString v e)) w) k) (Some v) {}"
    by (cases e) (simp_all add: visible_set_key_same)
  then show ?thesis
    using SetKeepTTL k by (auto simp: server_SET_def wp_succeeds e_def [symmetric] intro!: ready_set_key [OF r])
qed

lemma ready_DEL:
  assumes r: "server_ready now w V M" and "\<forall>k \<in> set ks. M k = {}"
  shows "server_ready now (w\<lparr>rw_keys := (\<lambda>k. if k \<in> set ks then None else rw_keys w k)\<rparr>)
    (\<lambda>k. if k \<in> set ks then None else V k) M"
proof -
  let ?w = "w\<lparr>rw_keys := (\<lambda>k. if k \<in> set ks then None else rw_keys w k)\<rparr>"
  have "visible ?w k = (if k \<in> set ks then None else visible w k)" for k
    by (auto simp: visible_def server_now_def split: option.split redis_value.split)
  with assms(2) server_readyD(1,2) [OF r] show ?thesis by (simp add: server_ready_def)
qed

lemma removeAll_Nil: "removeAll m us = [] \<longleftrightarrow> set us \<subseteq> {m}"
  by (induction us) auto

lemma ready_SREM:
  assumes r: "server_ready now w V M" and k: "V k = None"
  shows "succeeds (server_SREM k m) (\<lambda>_ w'. server_ready now w' V (M(k := M k - {m}))) w"
  using server_readyD(2) [OF r, of k]
proof (cases rule: key_holds_cases)
  case 1
  then have "M(k := M k - {m}) = M" by (simp add: fun_upd_idem)
  with 1 r show ?thesis by (simp add: server_SREM_def wp_succeeds)
next
  case (3 us)
  with k show ?thesis
    by (auto simp: server_SREM_def wp_succeeds Let_def visible_set_key_same distinct_removeAll removeAll_Nil
        intro!: ready_set_key [OF r])
qed (use k in simp)

lemma ready_SADD:
  assumes r: "server_ready now w V M" and k: "V k = None"
  shows "succeeds (server_SADD k m) (\<lambda>_ w'. server_ready now w' V (M(k := insert m (M k)))) w"
  using server_readyD(2) [OF r, of k]
proof (cases rule: key_holds_cases)
  case 1
  with k show ?thesis
    by (auto simp: server_SADD_def wp_succeeds visible_set_key_same intro!: ready_set_key [OF r])
next
  case (3 us)
  moreover from this(3) have "List.insert m us \<noteq> []" by (cases us) (auto simp: List.insert_def)
  ultimately show ?thesis
    using k by (auto simp: server_SADD_def wp_succeeds visible_set_key_same intro!: ready_set_key [OF r])
qed (use k in simp)

interpretation frozen_server: redis_server "server_ready now" server_calls "server_store key_prefix" now for now key_prefix
proof (unfold_locales, goal_cases)
  case (1 w V M n)
  then show ?case by (simp add: server_readyD)
next
  case (2 w V M)
  moreover have "visible (tick w) k = visible w k" for k
    using server_readyD(1) [OF 2] by (auto simp: tick_def visible_def server_now_def split: option.split redis_value.split)
  ultimately show ?case by (simp add: server_ready_def)
next
  case (3 w V M ks c)
  then show ?case by (simp add: server_store_def server_client_def server_MGet_def wp_succeeds ready_MGet)
next
  case (4 w V M k c)
  then show ?case
    using server_readyD(2) [OF 4(1), of k]
    by (auto simp: server_store_def server_client_def server_SMembers_def wp_succeeds elim: key_holds_cases)
next
  case (5 w V M script ks args Q c)
  then show ?case by (simp add: server_store_def server_client_def)
next
  case (6 w V M k)
  then show ?case
    using server_readyD(2) [OF 6(1), of k]
    by (auto simp: server_calls_def server_GET_def wp_succeeds elim: key_holds_cases)
next
  case (7 w V M k opt v)
  then show ?case by (simp add: server_calls_def ready_SET)
next
  case (8 w V M ks)
  then show ?case by (simp add: server_calls_def server_DEL_def wp_succeeds ready_DEL)
next
  case (9 w V M k m)
  then show ?case by (simp add: server_calls_def ready_SREM)
next
  case (10 w V M k m)
  then show ?case by (simp add: server_calls_def ready_SADD)
qed


subsection \<open>Redis against memory\<close>


lemma empty_server_ready: "server_ready 0 empty_server (\<lambda>_. None) (\<lambda>_. {})"
  by (simp add: server_ready_def empty_server_def new_redis_world_def env.defs redis_world.defs demo_env_def visible_def)

lemma sample_held: "redis_holds sample_refresh_state" "saveable sample_refresh_state"
proof -
  have "state_plain (saved_state sample_refresh_state)" by code_simp
  then show "redis_holds sample_refresh_state"
    by (auto simp: redis_holds_def sample_refresh_state_def dest: arg_cong [of _ _ length])
  show "saveable sample_refresh_state" by code_simp
qed

lemma sample_saved: "saved_state sample_refresh_state = sample_refresh_state" "ts_Token sample_refresh_state = ''abc''"
  by code_simp+

definition demo_table_calls :: "(ctx \<times> table_call) list" where
  "demo_table_calls = [(None, TSave sample_refresh_state 0), (None, TConsume ''abc''), (None, TGet ''abc''),
     (None, TConsumeKind ''abc'' ''refresh''), (None, TDelete ''abc''), (None, TGet ''abc'')]"


end
