(* ===== verification/Consume_Race.thy ===== *)
theory Consume_Race
  imports Prelude
begin

text \<open>
  Clients that race for one token: an interleaving of their steps over a shared world, and the contract
  under which exactly one of them wins. A store meets it when the step that takes the token compares
  before it writes.
\<close>

subsection \<open>Interleavings\<close>

text \<open>The schedule names the client that makes the next step.\<close>

fun interleave :: "('c \<Rightarrow> 'w \<Rightarrow> 'c \<times> 'w) \<Rightarrow> nat list \<Rightarrow> 'c list \<Rightarrow> 'w \<Rightarrow> 'c list \<times> 'w" where
  "interleave step [] cs w = (cs, w)"
| "interleave step (i # schedule) cs w =
     (if i < length cs then case step (cs ! i) w of (c, w') \<Rightarrow> interleave step schedule (cs[i := c]) w'
      else interleave step schedule cs w)"


lemma length_interleave: "interleave step schedule cs w = (cs', w') \<Longrightarrow> length cs' = length cs"
  by (induction step schedule cs w rule: interleave.induct) (auto split: if_splits prod.splits)

subsection \<open>The contract\<close>

text \<open>
  The world is open until a client takes the token, and spent from then on. A client is hopeful while it
  can still win; what it may look like once another one has won is \<open>late\<close>. The rank of a client
  grows with each of its steps until it is done.
\<close>

locale consume_race =
  fixes step :: "'c \<Rightarrow> 'w \<Rightarrow> 'c \<times> 'w"
    and is_open spent :: "'w \<Rightarrow> bool"
    and hopeful late won :: "'c \<Rightarrow> bool"
    and rank :: "'c \<Rightarrow> nat" and last_rank :: nat
  assumes open_step: "is_open w \<Longrightarrow> hopeful c \<Longrightarrow> step c w = (c', w') \<Longrightarrow>
      rank c < rank c' \<and> (is_open w' \<and> hopeful c' \<or> spent w' \<and> won c')"
    and late_step: "spent w \<Longrightarrow> late c \<Longrightarrow> step c w = (c', w') \<Longrightarrow>
      spent w' \<and> late c' \<and> (rank c < rank c' \<or> last_rank \<le> rank c')"
    and won_step: "won c \<Longrightarrow> step c w = (c, w)"
    and hopeful_late: "hopeful c \<Longrightarrow> late c"
    and late_lost: "late c \<Longrightarrow> \<not> won c"
    and won_rank: "won c \<Longrightarrow> last_rank \<le> rank c"
begin

definition race_ok :: "'c list \<Rightarrow> 'w \<Rightarrow> bool" where
  "race_ok cs w \<longleftrightarrow> is_open w \<and> (\<forall>c \<in> set cs. hopeful c)
     \<or> spent w \<and> (\<exists>i < length cs. won (cs ! i) \<and> (\<forall>j < length cs. j \<noteq> i \<longrightarrow> late (cs ! j)))"

lemma race_step:
  assumes "race_ok cs w" "i < length cs" "step (cs ! i) w = (c, w')"
  shows "race_ok (cs[i := c]) w' \<and> (rank (cs ! i) < rank c \<or> last_rank \<le> rank c)"
proof -
  consider (fresh) "is_open w" "\<forall>c \<in> set cs. hopeful c"
    | (spent) k where "spent w" "k < length cs" "won (cs ! k)" "\<forall>j < length cs. j \<noteq> k \<longrightarrow> late (cs ! j)"
    using assms(1) by (auto simp: race_ok_def)
  then show ?thesis
  proof cases
    case fresh
    then have "hopeful (cs ! i)" using assms(2) by simp
    from open_step [OF fresh(1) this assms(3)] show ?thesis
    proof (elim conjE disjE)
      assume "is_open w'" "hopeful c" "rank (cs ! i) < rank c"
      with fresh assms(2) show ?thesis by (auto simp: race_ok_def dest!: set_update_subset_insert [THEN subsetD])
    next
      assume "spent w'" "won c" "rank (cs ! i) < rank c"
      with fresh assms(2) show ?thesis
        by (auto simp: race_ok_def nth_list_update hopeful_late intro!: exI [of _ i])
    qed
  next
    case spent
    show ?thesis
    proof (cases "i = k")
      case True
      then have "c = cs ! i" "w' = w" using won_step [OF spent(3), of w] assms(3) by auto
      with True assms(1) spent(3) show ?thesis by (simp add: won_rank)
    next
      case False
      then have "late (cs ! i)" using spent(4) assms(2) by blast
      from late_step [OF spent(1) this assms(3)] have next': "spent w'" "late c" "rank (cs ! i) < rank c \<or> last_rank \<le> rank c"
        by simp_all
      have "late (cs[i := c] ! j)" if "j < length cs" "j \<noteq> k" for j
        using that next'(2) spent(4) by (cases "j = i") auto
      with False spent next' show ?thesis by (auto simp: race_ok_def intro!: exI [of _ k])
    qed
  qed
qed

lemma race_run:
  assumes "race_ok cs w" "interleave step schedule cs w = (cs', w')"
  shows "race_ok cs' w' \<and> length cs' = length cs
    \<and> (\<forall>i < length cs. rank (cs ! i) + count_list schedule i \<le> rank (cs' ! i) \<or> last_rank \<le> rank (cs' ! i))"
  using assms
proof (induction schedule arbitrary: cs w)
  case (Cons i schedule)
  show ?case
  proof (cases "i < length cs")
    case False
    with Cons.prems have "interleave step schedule cs w = (cs', w')" by simp
    from Cons.IH [OF Cons.prems(1) this] False show ?thesis by auto
  next
    case True
    obtain c v where step: "step (cs ! i) w = (c, v)" by fastforce
    note first = race_step [OF Cons.prems(1) True step]
    have "interleave step schedule (cs[i := c]) v = (cs', w')" using Cons.prems(2) True step by simp
    from Cons.IH [OF first [THEN conjunct1] this]
    have IH: "race_ok cs' w'" "length cs' = length cs"
      "\<And>j. j < length cs \<Longrightarrow> rank (cs[i := c] ! j) + count_list schedule j \<le> rank (cs' ! j) \<or> last_rank \<le> rank (cs' ! j)"
      by auto
    have "rank (cs ! j) + count_list (i # schedule) j \<le> rank (cs' ! j) \<or> last_rank \<le> rank (cs' ! j)" if "j < length cs" for j
      using IH(3) [OF that] first that by (cases "j = i") auto
    with IH show ?thesis by blast
  qed
qed simp

text \<open>What every interleaving ends in.\<close>

lemma race_end:
  assumes "is_open w" "\<forall>c \<in> set cs. hopeful c" "interleave step schedule cs w = (cs', w')"
  obtains "is_open w'" "\<forall>c \<in> set cs'. hopeful c" | i where "spent w'" "i < length cs" "won (cs' ! i)"
    "\<And>j. j < length cs \<Longrightarrow> j \<noteq> i \<Longrightarrow> late (cs' ! j) \<and> \<not> won (cs' ! j)"
proof -
  have "race_ok cs w" using assms(1,2) by (simp add: race_ok_def)
  from race_run [OF this assms(3)] have "race_ok cs' w'" "length cs' = length cs" by simp_all
  then show thesis using that late_lost by (auto simp: race_ok_def)
qed

lemma race_finishes:
  assumes "is_open w" "\<forall>c \<in> set cs. hopeful c" "interleave step schedule cs w = (cs', w')"
    and "i < length cs" "last_rank \<le> count_list schedule i"
  shows "last_rank \<le> rank (cs' ! i)"
proof -
  have "race_ok cs w" using assms(1,2) by (simp add: race_ok_def)
  from race_run [OF this assms(3)] assms(4,5) show ?thesis by fastforce
qed

end

end
