(* ===== verification/Redis_Race.thy ===== *)
theory Redis_Race
  imports Redis_Refinement Consume_Race
begin

text \<open>
  Clients of the Redis store that consume one token at the same time. The server runs one command at a
  time, a script as a whole, so the steps of a client are its commands: the read of the token and the
  script that takes it.
\<close>

subsection \<open>The steps of a client\<close>

text \<open>\<open>Waiting n\<close> is about to read in attempt \<open>n\<close>; \<open>Holding n\<close> has read a snapshot.\<close>

datatype consumer_phase = Waiting nat | Holding nat token_snapshot | Finished "error + TokenState option"

type_synonym consumer = "ctx \<times> TokenKind \<times> consumer_phase"

fun consumer_step ::
    "'x env_scheme redis_Store \<Rightarrow> TokenValue \<Rightarrow> consumer \<Rightarrow> 'x env_scheme \<Rightarrow> consumer \<times> 'x env_scheme" where
  "consumer_step s t (c, kind, Waiting n) w =
     (if n \<ge> 32 then ((c, kind, Finished (Inl ErrTokenInvalid)), w)
      else case readToken s c t w of
        (Inl e, w') \<Rightarrow> ((c, kind, Finished (Inl e)), w')
      | (Inr snapshot, w') \<Rightarrow> ((c, kind, Holding n snapshot), w'))"
| "consumer_step s t (c, kind, Holding n snapshot) w =
     (case consume_decide s c t kind snapshot w of
        (Inl e, w') \<Rightarrow> ((c, kind, Finished (Inl e)), w')
      | (Inr (Some result), w') \<Rightarrow> ((c, kind, Finished (Inr result)), w')
      | (Inr None, w') \<Rightarrow> ((c, kind, Waiting (Suc n)), w'))"
| "consumer_step s t (c, kind, Finished result) w = ((c, kind, Finished result), w)"

text \<open>A client that runs alone computes the loop of \<open>consumeTokenState\<close>.\<close>

lemma interleave_append:
  "interleave step (xs @ ys) cs w = (case interleave step xs cs w of (cs', w') \<Rightarrow> interleave step ys cs' w')"
  by (induction xs arbitrary: cs w) (auto split: prod.split)

lemma consumer_alone:
  assumes "n \<le> 32"
  shows "\<exists>k. interleave (consumer_step s t) (replicate k 0) [(c, kind, Waiting (32 - n))] w =
    ([(c, kind, Finished (fst (retry n (consume_once s c t kind) w)))], snd (retry n (consume_once s c t kind) w))"
  using assms
proof (induction n arbitrary: w)
  case 0
  show ?case by (rule exI [of _ 1]) (simp add: throw_def)
next
  case (Suc n)
  have few: "\<not> 32 \<le> 31 - n" by arith
  have once: "consume_once s c t kind w = (case readToken s c t w of
      (Inl e, v) \<Rightarrow> (Inl e, v) | (Inr snapshot, v) \<Rightarrow> consume_decide s c t kind snapshot v)"
    by (simp add: consume_once_def bindE_apply)
  show ?case
  proof (cases "readToken s c t w")
    case (Pair r v)
    show ?thesis
    proof (cases r)
      case (Inl e)
      with Pair Suc.prems show ?thesis by (intro exI [of _ 1]) (simp add: few once bindE_apply)
    next
      case (Inr snapshot)
      obtain r' v' where decide: "consume_decide s c t kind snapshot v = (r', v')" by fastforce
      show ?thesis
      proof (cases "r' = Inr None")
        case True
        from Suc.IH [of v'] Suc.prems obtain k where
          "interleave (consumer_step s t) (replicate k 0) [(c, kind, Waiting (32 - n))] v' =
           ([(c, kind, Finished (fst (retry n (consume_once s c t kind) v')))], snd (retry n (consume_once s c t kind) v'))"
          by auto
        moreover have "Suc (32 - Suc n) = 32 - n" using Suc.prems by simp
        ultimately show ?thesis
          using Pair Inr decide True Suc.prems
          by (intro exI [of _ "Suc (Suc k)"]) (simp add: few once bindE_apply)
      next
        case False
        with Pair Inr decide Suc.prems show ?thesis
          by (intro exI [of _ 2])
            (cases r'; auto simp: few once bindE_apply ret_def numeral_2_eq_2 split: option.splits)
      qed
    qed
  qed
qed


subsection \<open>The race\<close>

text \<open>The token is active and \<open>raw\<close> is its text; every client asks for any kind or for its own.\<close>

definition race_setting :: "time \<Rightarrow> TokenValue \<Rightarrow> token_table \<Rightarrow> TokenState \<Rightarrow> string \<Rightarrow> bool" where
  "race_setting now t U st raw \<longleftrightarrow>
     time_ok now \<and> U t = Some st \<and> IsActive st now \<and> entry_ok t st \<and> TokenState_Unmarshal raw = Inr st"

definition race_open ::
    "('w \<Rightarrow> (string \<Rightarrow> string option) \<Rightarrow> (string \<Rightarrow> string set) \<Rightarrow> bool) \<Rightarrow> 'w redis_Store \<Rightarrow> time \<Rightarrow>
     TokenValue \<Rightarrow> token_table \<Rightarrow> TokenState \<Rightarrow> string \<Rightarrow> 'w \<Rightarrow> bool" where
  "race_open ready s now t U st raw w \<longleftrightarrow> race_setting now t U st raw
     \<and> (\<exists>V M. ready w V M \<and> redis_content s V M U \<and> V (tokenKey s t) = Some raw)"

definition race_spent ::
    "('w \<Rightarrow> (string \<Rightarrow> string option) \<Rightarrow> (string \<Rightarrow> string set) \<Rightarrow> bool) \<Rightarrow> 'w redis_Store \<Rightarrow> time \<Rightarrow>
     TokenValue \<Rightarrow> token_table \<Rightarrow> TokenState \<Rightarrow> string \<Rightarrow> 'w \<Rightarrow> bool" where
  "race_spent ready s now t U st raw w \<longleftrightarrow> race_setting now t U st raw
     \<and> redis_holding ready s (U(t \<mapsto> MarkConsumed st now)) w"

fun race_hopeful :: "TokenState \<Rightarrow> string \<Rightarrow> consumer \<Rightarrow> bool" where
  "race_hopeful st raw (c, kind, phase) \<longleftrightarrow> (kind = [] \<or> ts_Kind st = kind)
     \<and> (phase = Waiting 0 \<or> phase = Holding 0 (Some st, raw, []))"

fun race_late :: "time \<Rightarrow> TokenState \<Rightarrow> string \<Rightarrow> consumer \<Rightarrow> bool" where
  "race_late now st raw (c, kind, phase) \<longleftrightarrow> (kind = [] \<or> ts_Kind st = kind)
     \<and> (phase = Waiting 0 \<or> phase = Waiting 1 \<or> phase = Holding 0 (Some st, raw, [])
        \<or> (\<exists>n \<le> 1. \<exists>d. phase = Holding n (Some (MarkConsumed st now), d, []))
        \<or> phase = Finished (Inr (Some (MarkConsumed st now))))"

fun race_won :: "TokenState \<Rightarrow> consumer \<Rightarrow> bool" where
  "race_won st (c, kind, phase) \<longleftrightarrow> phase = Finished (Inr (Some st))"

fun consumer_rank :: "consumer \<Rightarrow> nat" where
  "consumer_rank (c, kind, Waiting n) = 2 * n"
| "consumer_rank (c, kind, Holding n snapshot) = 2 * n + 1"
| "consumer_rank (c, kind, Finished r) = 4"

lemma consumed_differs: "IsActive st now \<Longrightarrow> MarkConsumed st t \<noteq> st"
proof
  assume "IsActive st now" "MarkConsumed st t = st"
  then have "ts_Status (MarkConsumed st t) = [] \<or> ts_Status (MarkConsumed st t) = TokenStatusActive"
    by (simp add: IsActive_def)
  then show False by (simp add: TokenStatusConsumed_def TokenStatusActive_def)
qed

lemma consumed_inactive: "\<not> IsActive (MarkConsumed st t) now"
  by (simp add: IsActive_def TokenStatusConsumed_def TokenStatusActive_def)

context redis_server begin

text \<open>A script that finds another text than the client has read changes nothing.\<close>

lemma decide_loses:
  assumes r: "ready w V M" and C: "redis_content s V M U" and raw: "V (tokenKey s t) \<noteq> Some raw"
    and st: "IsActive st now" "state_plain st" "cloned st" and kind: "kind = [] \<or> ts_Kind st = kind" and now: "time_ok now"
  shows "succeeds (consume_decide s c t kind (Some st, raw, [])) (\<lambda>x w'. x = None \<and> ready w' V M) w"
proof -
  have "state_plain (MarkConsumed st now)" by (rule plain_MarkConsumed [OF st(2) now])
  then obtain d where d: "TokenState_Marshal (MarkConsumed st now) = Inr d" by (rule plain_Marshal)
  let ?K = "lua_array [tokenKey s t, consumedMarkerKey s t]" and ?A = "lua_array [raw, [], d]"
  have "succeeds (cl_Eval (rs_rdb s c) consumeScript [tokenKey s t, consumedMarkerKey s t] [raw, [], d])
      (\<lambda>x w'. x = 0 \<and> ready w' V M) v" if v: "ready v V M" for v
  proof (rule Eval [OF v])
    obtain v' where get: "call_GET calls (tokenKey s t) v = (Inr (V (tokenKey s t)), v')" and v': "ready v' V M"
      using GET_step [OF v redis_contentD(3) [OF C]] by blast
    have "snapshot_changed calls ?K ?A v = (Inr True, v')"
      using raw by (simp add: snapshot_changed_def op_simps get lua_array_def)
    then have "consumeScript calls ?K ?A v = (Inr 0, v')" by (simp add: consumeScript_def op_simps)
    with v' show "succeeds (consumeScript calls ?K ?A) (\<lambda>x w'. x = 0 \<and> ready w' V M) v" by (simp add: wp_succeeds)
  qed
  from this [OF ready_tick [OF ready_tick [OF ready_tick [OF r]]]]
  show ?thesis
    using st(1) kind d TokenState_Clone_id [OF st(3)]
    by (simp add: consume_decide_def wp_bindE wp_read_now clock [OF r] Let_def from_sum_def wp_ret IsActive_def)
      (erule wp_mono; auto simp: wp_ret)
qed

lemma race_open_step:
  assumes w: "race_open ready s now t U st raw w" and c: "race_hopeful st raw x" and step: "consumer_step s t x w = (x', w')"
  shows "consumer_rank x < consumer_rank x' \<and> (race_open ready s now t U st raw w' \<and> race_hopeful st raw x'
    \<or> race_spent ready s now t U st raw w' \<and> race_won st x')"
proof -
  obtain c kind phase where x: "x = (c, kind, phase)" by (cases x)
  from w obtain V M where set: "race_setting now t U st raw" and r: "ready w V M" and C: "redis_content s V M U"
    and raw: "V (tokenKey s t) = Some raw" by (auto simp: race_open_def)
  have U: "U t = Some st" using set by (simp add: race_setting_def)
  have kind: "kind = [] \<or> ts_Kind st = kind" using c x by simp
  from c x consider "phase = Waiting 0" | "phase = Holding 0 (Some st, raw, [])" by auto
  then show ?thesis
  proof cases
    case 1
    from read_ok [OF r C, of c t] obtain v where "readToken s c t w = (Inr (Some st, raw, []), v)" "ready v V M"
      by (auto simp: wp_succeeds snapshot_of_def U raw or_empty_def)
    with 1 x step set C raw kind show ?thesis by (auto simp: race_open_def)
  next
    case 2
    from decide_takes [OF r C U raw _ kind] set obtain v where
      "consume_decide s c t kind (Some st, raw, []) w = (Inr (Some (Some st)), v)"
      "redis_holding ready s (U(t \<mapsto> MarkConsumed st now)) v"
      by (auto simp: wp_succeeds race_setting_def)
    with 2 x step set show ?thesis by (auto simp: race_spent_def)
  qed
qed

lemma race_late_step:
  assumes w: "race_spent ready s now t U st raw w" and c: "race_late now st raw x" and step: "consumer_step s t x w = (x', w')"
  shows "race_spent ready s now t U st raw w' \<and> race_late now st raw x' \<and> (consumer_rank x < consumer_rank x' \<or> 4 \<le> consumer_rank x')"
proof -
  let ?c = "MarkConsumed st now" and ?U = "U(t \<mapsto> MarkConsumed st now)"
  obtain c kind phase where x: "x = (c, kind, phase)" by (cases x)
  from w obtain V M where set: "race_setting now t U st raw" and r: "ready w V M" and C: "redis_content s V M ?U"
    by (auto simp: race_spent_def redis_holding_def)
  have spent: "race_spent ready s now t U st raw v" if "ready v V M" for v
    using set that C by (auto simp: race_spent_def redis_holding_def)
  obtain d where d: "V (tokenKey s t) = Some d" "TokenState_Unmarshal d = Inr ?c"
    using redis_contentD(1) [OF C, of t] by (auto simp: raw_entry_def)
  have act: "IsActive st now" using set by (simp add: race_setting_def)
  have lost: "V (tokenKey s t) \<noteq> Some raw"
    using d set consumed_differs [OF act, of now] by (auto simp: race_setting_def)
  have kind: "kind = [] \<or> ts_Kind st = kind" using c x by simp
  from c x consider n where "phase = Waiting n" "n \<le> 1" | "phase = Holding 0 (Some st, raw, [])"
    | n d' where "phase = Holding n (Some ?c, d', [])" "n \<le> 1" | "phase = Finished (Inr (Some ?c))" by auto
  then show ?thesis
  proof cases
    case (1 n)
    from read_ok [OF r C, of c t] obtain v where "readToken s c t w = (Inr (Some ?c, d, []), v)" "ready v V M"
      by (auto simp: wp_succeeds snapshot_of_def d or_empty_def)
    with 1 x step kind spent show ?thesis by auto
  next
    case 2
    have "state_plain st" "cloned st" "time_ok now" using set by (simp_all add: race_setting_def entry_ok_def)
    from decide_loses [OF r C lost act this(1,2) kind this(3)] obtain v where
      "consume_decide s c t kind (Some st, raw, []) w = (Inr None, v)" "ready v V M"
      by (auto simp: wp_succeeds)
    with 2 x step kind spent show ?thesis by auto
  next
    case (3 n d')
    have "\<not> IsExpired ?c now" using act by (simp add: IsActive_def IsExpired_def)
    with decide_stops [OF r, of ?c kind c t d' "[]"] consumed_inactive [of st now now] obtain v where
      "consume_decide s c t kind (Some ?c, d', []) w = (Inr (Some (Some ?c)), v)" "ready v V M"
      by (auto simp: wp_succeeds)
    with 3 x step kind spent show ?thesis by auto
  next
    case 4
    with x step kind w show ?thesis by auto
  qed
qed

lemma consumers_race:
  "consume_race (consumer_step s t) (race_open ready s now t U st raw) (race_spent ready s now t U st raw)
     (\<lambda>x. IsActive st now \<and> race_hopeful st raw x) (\<lambda>x. IsActive st now \<and> race_late now st raw x) (race_won st) consumer_rank 4"
proof (unfold_locales, goal_cases)
  case (1 w x x' w')
  then show ?case using race_open_step [of t U st raw w x x' w'] by auto
next
  case (2 w x x' w')
  then show ?case using race_late_step [of t U st raw w x x' w'] by auto
next
  case (3 x w)
  then show ?case by (cases x) auto
next
  case (4 x)
  then show ?case by (cases x) auto
next
  case (5 x)
  then show ?case using consumed_differs [of st now now] by (cases x) auto
next
  case (6 x)
  then show ?case by (cases x) auto
qed

end

sublocale redis_server \<subseteq> race: consume_race "consumer_step s t"
  "race_open ready s now t U st raw" "race_spent ready s now t U st raw"
  "\<lambda>x. IsActive st now \<and> race_hopeful st raw x" "\<lambda>x. IsActive st now \<and> race_late now st raw x"
  "race_won st" consumer_rank 4 for t U st raw
  by (rule consumers_race)

subsection \<open>One of them gets the token\<close>

definition start_race :: "(ctx \<times> TokenKind) list \<Rightarrow> consumer list" where
  "start_race clients = map (\<lambda>(c, kind). (c, kind, Waiting 0)) clients"

fun result_of :: "consumer \<Rightarrow> (error + TokenState option) option" where
  "result_of (c, kind, Finished r) = Some r"
| "result_of (c, kind, phase) = None"

lemma result_won: "race_won st x \<longleftrightarrow> result_of x = Some (Inr (Some st))"
  by (cases x rule: result_of.cases) simp_all

lemma result_late: "race_late now st raw x \<Longrightarrow> result_of x = Some r \<Longrightarrow> r = Inr (Some (MarkConsumed st now))"
  by (cases x rule: result_of.cases) auto

lemma result_hopeful: "race_hopeful st raw x \<Longrightarrow> result_of x = None"
  by (cases x rule: result_of.cases) auto

lemma result_rank: "4 \<le> consumer_rank x \<Longrightarrow> race_late now st raw x \<or> race_won st x \<Longrightarrow> result_of x \<noteq> None"
  by (cases x rule: result_of.cases) auto

lemma rank_hopeful: "race_hopeful st raw x \<Longrightarrow> consumer_rank x < 4"
  by (cases x rule: consumer_rank.cases) auto

text \<open>C4: a token is consumed once, whoever races for it. Any number of clients consume one active token
  over a Redis server, and their commands interleave in any order. Then no client fails; each that
  comes to an end has either the active state, which means that it has the token, or the consumed
  one, which tells it that the token is spent. As soon as one has ended, exactly one client has the
  token and the server holds the consumed state. And a client ends within four steps, two of its
  32 attempts, however the others run.\<close>

theorem redis_one_winner:
  assumes "redis_server ready calls s now" and "time_ok now"
    and "redis_holding ready s U w" and "U t = Some st" and "IsActive st now"
    and "\<forall>(c, kind) \<in> set clients. kind = [] \<or> kind = ts_Kind st"
    and "interleave (consumer_step s t) schedule (start_race clients) w = (cs, w')"
  shows "(\<forall>i < length clients. \<forall>r. result_of (cs ! i) = Some r \<longrightarrow>
        r = Inr (Some st) \<or> r = Inr (Some (MarkConsumed st now)))
    \<and> ((\<exists>i < length clients. result_of (cs ! i) \<noteq> None) \<longrightarrow>
        (\<exists>!i. i < length clients \<and> result_of (cs ! i) = Some (Inr (Some st)))
        \<and> redis_holding ready s (U(t \<mapsto> MarkConsumed st now)) w')
    \<and> (\<forall>i < length clients. 4 \<le> count_list schedule i \<longrightarrow> result_of (cs ! i) \<noteq> None)"
proof -
  from assms(3) obtain V M where V: "ready w V M" "redis_content s V M U" by (auto simp: redis_holding_def)
  then obtain raw where raw: "V (tokenKey s t) = Some raw" "TokenState_Unmarshal raw = Inr st"
    using redis_contentD(1) [OF V(2), of t] assms(4) by (auto simp: raw_entry_def)
  have "race_setting now t U st raw"
    using assms(2,4,5) raw(2) redis_contentD(2) [OF V(2) assms(4)] by (simp add: race_setting_def)
  with V raw(1) have start: "race_open ready s now t U st raw w" by (auto simp: race_open_def)
  have hope: "\<forall>x \<in> set (start_race clients). IsActive st now \<and> race_hopeful st raw x"
    using assms(5,6) by (auto simp: start_race_def)
  note contract = redis_server.consumers_race [OF assms(1)]
  have len: "length (start_race clients) = length clients" by (simp add: start_race_def)
  have ends: "4 \<le> consumer_rank (cs ! i)" if "i < length clients" "4 \<le> count_list schedule i" for i
    using consume_race.race_finishes [OF contract start hope assms(7)] that by (simp add: len)
  show ?thesis
  proof (rule consume_race.race_end [OF contract start hope assms(7)], goal_cases)
    case 1
    have "length cs = length clients" using length_interleave [OF assms(7)] by (simp add: len)
    then have "race_hopeful st raw (cs ! i)" if "i < length clients" for i using 1(2) that by simp
    then have none: "result_of (cs ! i) = None" and low: "consumer_rank (cs ! i) < 4" if "i < length clients" for i
      by (rule result_hopeful rank_hopeful; use that in assumption)+
    have few: "\<not> 4 \<le> count_list schedule i" if "i < length clients" for i
      using ends [OF that] low [OF that] by linarith
    have "\<not> (\<exists>i < length clients. result_of (cs ! i) \<noteq> None)" using none by auto
    with few show ?case by auto
  next
    case (2 i)
    have late: "race_late now st raw (cs ! j)" "result_of (cs ! j) \<noteq> Some (Inr (Some st))"
      if "j < length clients" "j \<noteq> i" for j
      using 2(4) [of j] that by (auto simp: len result_won)
    have won: "i < length clients" "result_of (cs ! i) = Some (Inr (Some st))" using 2(2,3) by (auto simp: len result_won)
    have "\<exists>!j. j < length clients \<and> result_of (cs ! j) = Some (Inr (Some st))" using won late(2) by blast
    moreover have "r = Inr (Some st) \<or> r = Inr (Some (MarkConsumed st now))"
      if "j < length clients" "result_of (cs ! j) = Some r" for j r
      using that late(1) [of j] won(2) by (cases "j = i") (auto dest: result_late)
    moreover have "result_of (cs ! j) \<noteq> None" if "j < length clients" "4 \<le> count_list schedule j" for j
      using ends [OF that] late(1) [of j] that(1) won(2) by (cases "j = i") (auto dest: result_rank)
    ultimately show ?case using 2(1) by (auto simp: race_spent_def)
  qed
qed

definition saved_server :: redis_world where
  "saved_server = snd (redis_SaveTokenState demo_redis None (Some sample_refresh_state) 0 empty_server)"

theorem redis_one_winner_witness:
  "\<exists>!i. i < 2 \<and> result_of (fst (interleave (consumer_step demo_redis ''abc'') [0, 1, 0, 1, 1, 1, 0, 0]
     (start_race [(None, []), (None, TokenKindRefresh)]) saved_server) ! i) = Some (Inr (Some sample_refresh_state))"
proof -
  have "time_ok 0" by code_simp
  have "redis_content demo_redis (\<lambda>_. None) (\<lambda>_. {}) (\<lambda>_. None)" by (simp add: redis_content_def raw_entry_def)
  then have "redis_holding (server_ready 0) demo_redis (\<lambda>_. None) empty_server"
    using empty_server_ready by (auto simp: redis_holding_def)
  then have saved: "redis_holding (server_ready 0) demo_redis ((\<lambda>_. None)(''abc'' \<mapsto> sample_refresh_state)) saved_server"
    using frozen_server.SaveTokenState_ok [of 0 "''bt''" "\<lambda>_. None" empty_server None sample_refresh_state 0]
    by (auto simp: demo_redis_def sample_held saved_server_def wp_succeeds sample_saved)
  let ?clients = "[(None, []), (None, TokenKindRefresh)]" and ?schedule = "[0, 1, 0, 1, 1, 1, 0, 0]"
  obtain cs w' where run: "interleave (consumer_step demo_redis ''abc'') ?schedule (start_race ?clients) saved_server = (cs, w')"
    by fastforce
  have "IsActive sample_refresh_state 0" "TokenKindRefresh = ts_Kind sample_refresh_state" by code_simp+
  then have "\<forall>(c, kind) \<in> set ?clients. kind = [] \<or> kind = ts_Kind sample_refresh_state" by simp
  from redis_one_winner [OF frozen_server.redis_server_axioms \<open>time_ok 0\<close> saved [unfolded demo_redis_def]
      _ \<open>IsActive sample_refresh_state 0\<close> this run [unfolded demo_redis_def]]
  have one: "(\<exists>i < length ?clients. result_of (cs ! i) \<noteq> None) \<Longrightarrow>
      \<exists>!i. i < length ?clients \<and> result_of (cs ! i) = Some (Inr (Some sample_refresh_state))"
    and ends: "\<And>i. i < length ?clients \<Longrightarrow> 4 \<le> count_list ?schedule i \<Longrightarrow> result_of (cs ! i) \<noteq> None"
    by simp_all
  have two: "length ?clients = 2" by simp
  have "result_of (cs ! 0) \<noteq> None" by (rule ends) simp_all
  then have "\<exists>i < length ?clients. result_of (cs ! i) \<noteq> None" unfolding two by (intro exI [of _ 0]) simp
  from one [OF this] show ?thesis unfolding run two fst_conv .
qed

end
