(* ===== verification/Redis_Expiry.thy ===== *)
theory Redis_Expiry
  imports Redis_Refinement
begin

text \<open>
  How long the Redis store keeps a token: the expiry, in milliseconds, that the save script gives to
  the key, over the reference server, and that consuming the token leaves it.
\<close>

subsection \<open>The save script on the reference server\<close>

lemma server_frames:
  "server_GET k w = (r, w') \<Longrightarrow> w' = w"
  "server_DEL ks w = (i, w') \<Longrightarrow> j \<notin> set ks \<Longrightarrow> rw_keys w' j = rw_keys w j"
  "server_SREM k m w = (i, w') \<Longrightarrow> j \<noteq> k \<Longrightarrow> rw_keys w' j = rw_keys w j"
  "server_SADD k m w = (i, w') \<Longrightarrow> j \<noteq> k \<Longrightarrow> rw_keys w' j = rw_keys w j"
  by (auto simp: server_defs set_key_def Let_def split: option.splits redis_value.splits if_splits)

lemma server_SET_holds:
  assumes "server_SET k v opt w = (Inr (), w')" and "opt = (if 0 < n then SetPX m else SetPlain)" and "ParseInt m = Some n"
  shows "rw_keys w' k = Some (RString v (if 0 < n then Some (server_now w + n * Millisecond) else None))"
  using assms by (auto simp: server_SET_def set_key_def split: if_splits)

lemma bindE_InrD: "bindE m f w = (Inr y, w'') \<Longrightarrow> \<exists>x w'. m w = (Inr x, w') \<and> f x w' = (Inr y, w'')"
  by (auto simp: bindE_def split: sum.splits prod.splits)

lemma server_save_expiry:
  assumes run: "saveScript server_calls KEYS ARGV w = (Inr 1, w')" and m: "ParseInt (ARGV 4) = Some n"
    and K: "KEYS 1 \<notin> {KEYS 2, KEYS 3, KEYS 4, KEYS 5}"
  shows "rw_keys w' (KEYS 1) = Some (RString (ARGV 3) (if 0 < n then Some (server_now w + n * Millisecond) else None))"
proof -
  let ?opt = "if 0 < n then SetPX (ARGV 4) else SetPlain"
  from run obtain w1 i w2 i3 w3 i4 w4 i5 w5 where
    "server_SET (KEYS 1) (ARGV 3) ?opt w = (Inr (), w1)" "server_DEL [KEYS 2] w1 = (Inr i, w2)"
    "server_SREM (KEYS 3) (ARGV 5) w2 = (Inr i3, w3)" "server_SREM (KEYS 5) (ARGV 5) w3 = (Inr i4, w4)"
    "server_SADD (KEYS 4) (ARGV 5) w4 = (Inr i5, w5)" "w' = w5"
    unfolding saveScript_def
    by (auto simp: server_calls_def lua_positive_def m ret_def if_distrib [of "\<lambda>m. m _"]
        dest!: bindE_InrD server_frames(1) split: if_splits simp del: One_nat_def) blast+
  with server_SET_holds [OF this(1) refl m] K show ?thesis
    by (auto simp: server_frames)
qed

lemma server_consume_expiry:
  assumes run: "consumeScript server_calls KEYS ARGV w = (Inr 1, w')" and v: "visible w (KEYS 1) = Some (RString v x)"
    and K: "KEYS 1 \<noteq> KEYS 2"
  shows "rw_keys w' (KEYS 1) = Some (RString (ARGV 3) x)"
proof -
  from run have "\<exists>w1 i. server_SET (KEYS 1) (ARGV 3) SetKeepTTL w = (Inr (), w1) \<and> server_DEL [KEYS 2] w1 = (Inr i, w')"
    unfolding consumeScript_def snapshot_changed_def
    by (auto simp: server_calls_def ret_def dest!: bindE_InrD server_frames(1) split: if_splits simp del: One_nat_def)
  then obtain w1 i where "server_SET (KEYS 1) (ARGV 3) SetKeepTTL w = (Inr (), w1)" "server_DEL [KEYS 2] w1 = (Inr i, w')"
    by blast
  with K v server_frames(2) [of "[KEYS 2]" w1 "Inr i" w' "KEYS 1"] show ?thesis
    by (auto simp: server_SET_def set_key_def)
qed

subsection \<open>From the lifetime to the expiry of the key\<close>

text \<open>When the key of a token that lives until \<open>e\<close> goes: the time is rounded down to a millisecond from the
  save on, but never below one, and it is bounded by the longest duration, 292 years.\<close>

definition key_expiry :: "time \<Rightarrow> time \<Rightarrow> time" where
  "key_expiry now e = now + max 1 (min (max_duration div Millisecond) ((e - now) div Millisecond)) * Millisecond"

lemma key_expiry_exact:
  "now + Millisecond \<le> e \<Longrightarrow> e - now \<le> max_duration \<Longrightarrow> key_expiry now e \<le> e \<and> e < key_expiry now e + Millisecond"
  by (auto simp: key_expiry_def Millisecond_def max_duration_def)

lemma key_expiry_soon: "e < now + Millisecond \<Longrightarrow> key_expiry now e = now + Millisecond"
  by (auto simp: key_expiry_def Millisecond_def max_duration_def min_def max_def)

lemma save_millis_None: "EffectiveExpiresAt st now ttl = None \<Longrightarrow> save_millis now st ttl = 0"
  by (simp add: save_millis_def redisTTL_def redisExpiresTTL_def Milliseconds_def Millisecond_def)

lemma save_millis_Some:
  assumes "EffectiveExpiresAt st now ttl = Some e"
  shows "0 < save_millis now st ttl" "now + save_millis now st ttl * Millisecond = key_expiry now e"
  using assms
  by (auto simp: save_millis_def redisTTL_def redisExpiresTTL_def Milliseconds_def Let_def key_expiry_def
      Time_Sub_def max_duration_def min_duration_def Millisecond_def min_def max_def)



end
