(* ===== verification/Logout_Properties.thy ===== *)
theory Logout_Properties
  imports Access_Properties
begin

text \<open>The ends of a login: logout, logout of a whole subject, and renewal.\<close>

subsection \<open>Absent tokens\<close>

lemma GetTokenState_absent':
  assumes inv: "mem_inv w" and c: "healthy c" and ne: "TrimSpace tok \<noteq> []"
    and absent: "mem_tokens w (storeKey tok) = None"
  shows "\<exists>w'. GetTokenState (memory_manager cf az) c tok w = (Inl ErrTokenNotFound, w')
      \<and> mem_tokens w' = mem_tokens w \<and> mem_sessions w' = mem_sessions w \<and> mem_inv w'"
proof -
  have "wp (GetTokenState (memory_manager cf az) c tok) (\<lambda>_ _. False)
      (\<lambda>e w'. e = ErrTokenNotFound \<and> mem_tokens w' = mem_tokens w
         \<and> mem_sessions w' = mem_sessions w \<and> mem_inv w') w"
    unfolding GetTokenState_def getTokenState_def Let_def TrimSpace_idem if_not_P [OF ne]
      memory_manager_sel mem_store_sel storeKey_TrimSpace
    by (intro wp_bindI at_Get [OF at_start [OF inv]])
      (use c absent in \<open>auto simp: live_state_def live_item_def evicted_def fun_upd_idem wp_throw at_D\<close>)
  then show ?thesis unfolding wp_fails by blast
qed

text \<open>A token that the store does not hold is reported as not found, and asking for it changes
  nothing.\<close>

theorem GetTokenState_absent:
  assumes inv: "mem_inv w" and c: "healthy c" and ne: "TrimSpace tok \<noteq> []"
    and absent: "mem_tokens w (storeKey tok) = None"
  shows "\<exists>w'. GetTokenState (memory_manager cf az) c tok w = (Inl ErrTokenNotFound, w')
      \<and> mem_tokens w' = mem_tokens w \<and> mem_sessions w' = mem_sessions w \<and> mem_inv w'"
  by (rule GetTokenState_absent' [OF assms])

theorem GetTokenState_absent_witness:
  "\<exists>w'. GetTokenState (memory_manager DefaultConfig no_rbac) None ''abc'' demo
     = (Inl ErrTokenNotFound, w')"
  using GetTokenState_absent [of demo None "''abc''" DefaultConfig no_rbac] by auto

subsection \<open>Logout\<close>

definition never_expires :: "'x env_scheme \<Rightarrow> tokenItem \<Rightarrow> bool" where
  "never_expires w it \<longleftrightarrow> (\<forall>n. \<not> tokenItem_isExpired it (env_clock w n))"

text \<open>C10: logging out a usable token succeeds and removes it; where logout revokes refresh
  tokens, none that is linked to it remains. Tokens of other subjects, and living tokens of the
  subject without that link, stay as they are. The event carries the token.\<close>

theorem Logout_removes:
  assumes inv: "mem_inv w" and u: "usable w tok it" and c: "healthy c" and ne: "TrimSpace tok \<noteq> []"
  shows "\<exists>w'. Logout (memory_manager cf az) c tok w = (Inr (), w') \<and> mem_inv w'
      \<and> env_clock w' = env_clock w
      \<and> mem_tokens w' (storeKey tok) = None
      \<and> (rc_RevokeRefreshOnLogout (cf_Refresh (complete_config cf)) \<longrightarrow>
           (\<forall>k x. mem_tokens w' k = Some x \<longrightarrow> subject_key x = subject_key it \<longrightarrow>
              \<not> linked x (storeKey tok)))
      \<and> (\<forall>k x. mem_tokens w k = Some x \<longrightarrow> k \<noteq> storeKey tok \<longrightarrow>
           subject_key x \<noteq> subject_key it \<or> never_expires w x \<and> \<not> linked x (storeKey tok) \<longrightarrow>
           mem_tokens w' k = Some x)
      \<and> published w' = published w @ [new_Event EventLogout (ts_LoginID (ti_state it))
           (ts_LoginType (ti_state it)) tok]"
proof -
  let ?P = "\<lambda>w'. mem_inv w' \<and> env_clock w' = env_clock w \<and> mem_tokens w' (storeKey tok) = None
      \<and> (rc_RevokeRefreshOnLogout (cf_Refresh (complete_config cf)) \<longrightarrow>
           (\<forall>k x. mem_tokens w' k = Some x \<longrightarrow> subject_key x = subject_key it \<longrightarrow>
              \<not> linked x (storeKey tok)))
      \<and> (\<forall>k x. mem_tokens w k = Some x \<longrightarrow> k \<noteq> storeKey tok \<longrightarrow>
           subject_key x \<noteq> subject_key it \<or> never_expires w x \<and> \<not> linked x (storeKey tok) \<longrightarrow>
           mem_tokens w' k = Some x)
      \<and> published w' = published w @ [new_Event EventLogout (ts_LoginID (ti_state it))
           (ts_LoginType (ti_state it)) tok]"
  have tok: "ts_Token (ti_state it) = storeKey tok" "storeKey tok \<noteq> []"
    using usable_state_ok [OF inv u] ne by (simp_all add: item_ok_def)
  have c': "cerr (normalizeContext c) (\<lambda>_ _. False)" using c by simp
  have fin: "?P w'"
    if "run_at w ts' (mem_sessions w) (published w @ [new_Event EventLogout (ts_LoginID (ti_state it))
           (ts_LoginType (ti_state it)) tok]) w'"
      and "unlinks w (rc_RevokeRefreshOnLogout (cf_Refresh (complete_config cf)))
        (LoginSubject_Normalize (TokenState_Subject (ti_state it))) (storeKey tok)
        ((mem_tokens w)(storeKey tok := None)) ts'" for ts' w'
  proof -
    note d = at_D [OF that(1)] and r = unlinksD [OF that(2)]
    have "ts' (storeKey tok) = None"
      using r(1) [of "storeKey tok"] by (cases "ts' (storeKey tok)") simp_all
    moreover have "\<not> linked x (storeKey tok)"
      if "rc_RevokeRefreshOnLogout (cf_Refresh (complete_config cf))" "ts' k = Some x"
        "subject_key x = subject_key it" for k x
      using r(2) [OF that(2,1)] that(3) by (simp add: subject_key_def)
    moreover have "ts' k = Some x" if "mem_tokens w k = Some x" "k \<noteq> storeKey tok"
        "subject_key x \<noteq> subject_key it \<or> never_expires w x \<and> \<not> linked x (storeKey tok)" for k x
      using that by (intro r(3)) (auto simp: never_expires_def subject_key_def)
    ultimately show ?thesis unfolding d(3) using d by blast
  qed
  have "wp (Logout (memory_manager cf az) c tok) (\<lambda>_. ?P) (\<lambda>_ _. False) w"
    unfolding Logout_def Let_def memory_manager_sel mem_store_sel
    apply (intro wp_bindI wp_getTokenState_usable [OF inv u _ ne])
      apply (simp add: c)
     apply simp
    apply (rule at_Delete [OF _ c'], assumption)
    apply (rule wp_bindI)
    apply (rule at_revokeRefreshForAccessToken [OF _ c'], assumption)
     apply (simp add: tok ne)
    apply (rule at_publish, assumption, simp)
    apply (rule fin)
     apply (simp add: tok)+
    done
  then show ?thesis unfolding wp_succeeds_unit .
qed

theorem Logout_removes_witness:
  "\<exists>w'. Logout (memory_manager DefaultConfig no_rbac) None ''abc'' demo_login = (Inr (), w')
     \<and> mem_tokens w' (storeKey ''abc'') = None"
proof -
  obtain it where "usable demo_login ''abc'' it" "mem_inv demo_login" by (rule demo_login_usable)
  from Logout_removes [OF this(2,1), of None DefaultConfig no_rbac] show ?thesis by auto
qed


text \<open>C11: logging out a whole subject removes every access token of it, removes every refresh token
  where logout revokes those, leaves every token of another subject and every nonce in place, and
  removes the session exactly when that was asked for.\<close>

theorem LogoutByLoginID_effect:
  assumes inv: "mem_inv w" and c: "healthy c" and ne: "TrimSpace i \<noteq> []"
  shows "\<exists>w'. LogoutByLoginID (memory_manager cf az) c i opts w = (Inr (), w') \<and> mem_inv w' \<and>
    (let lo = option_Apply default_logoutOptions opts; key = login_key i (go_loginType lo);
         revoke = rc_RevokeRefreshOnLogout (cf_Refresh (complete_config cf))
     in (\<forall>k it. mem_tokens w' k = Some it \<longleftrightarrow> mem_tokens w k = Some it
            \<and> (subject_key it = key \<longrightarrow> ts_Kind (ti_state it) \<noteq> TokenKindAccess
                 \<and> (revoke \<longrightarrow> ts_Kind (ti_state it) \<noteq> TokenKindRefresh)))
      \<and> mem_sessions w' = (if go_deleteSession lo then (mem_sessions w)(key := None) else mem_sessions w)
      \<and> published w' = published w
          @ [new_Event EventKickOut (sub_LoginID key) (sub_LoginType key) []])"
proof -
  define lo where "lo = option_Apply default_logoutOptions opts"
  define key where "key = login_key i (go_loginType lo)"
  define revoke where "revoke = rc_RevokeRefreshOnLogout (cf_Refresh (complete_config cf))"
  define ev where "ev = new_Event EventKickOut (sub_LoginID key) (sub_LoginType key) []"
  define ts where "ts = drop_where (\<lambda>it. subject_key it = key
    \<and> MatchKind (ts_Kind (ti_state it)) [TokenKindAccess]) (mem_tokens w)"
  define ts' where "ts' = (if revoke then drop_where (\<lambda>it. subject_key it = key
    \<and> MatchKind (ts_Kind (ti_state it)) [TokenKindRefresh]) ts else ts)"
  define ss where "ss = (if go_deleteSession lo then (mem_sessions w)(key := None) else mem_sessions w)"
  let ?P = "\<lambda>w'. run_at w ts' ss (published w @ [ev]) w'"
  let ?m = "memory_manager cf az" and ?c = "normalizeContext c"
  have c': "cerr ?c (\<lambda>_ _. False)" using c by simp
  have nkey [simp]: "LoginSubject_Normalize key = key" by (simp add: key_def)
  have key: "LoginSubject_Normalize \<lparr>sub_LoginID = TrimSpace i, sub_LoginType = go_loginType lo\<rparr> = key"
    by (simp add: key_def login_key_def LoginSubject_Normalize_def)
  have tail: "wp (bindE (whenE (go_deleteSession lo) (mem_DeleteSession ?c key)) (\<lambda>_. publish ?m ?c ev))
      (\<lambda>_. ?P) (\<lambda>_ _. False) v" if v: "run_at w ts' (mem_sessions w) (published w) v" for v
    using v by (cases "go_deleteSession lo")
      (auto simp: whenE_True whenE_False ss_def ev_def intro!: wp_bindI at_publish at_DeleteSession [OF v c'])
  have revoke_step: "wp (bindE (revokeRefreshForSubject ?m ?c key) (\<lambda>_.
      bindE (whenE (go_deleteSession lo) (mem_DeleteSession ?c key)) (\<lambda>_. publish ?m ?c ev)))
      (\<lambda>_. ?P) (\<lambda>_ _. False) v" if v: "run_at w ts (mem_sessions w) (published w) v" for v
    unfolding revokeRefreshForSubject_def revokeRefreshExcept_def memory_manager_sel mem_store_sel
      revoke_def [symmetric] nkey
    using v tail by (cases revoke)
      (auto simp: ts'_def wp_ret intro!: wp_bindI [of "mem_DeleteTokenStates d e f" for d e f]
        at_DeleteAll [OF v c'])
  have "wp (LogoutByLoginID ?m c i opts) (\<lambda>_. ?P) (\<lambda>_ _. False) w"
    unfolding LogoutByLoginID_def Let_def TrimSpace_idem if_not_P [OF ne] memory_manager_sel
      mem_store_sel lo_def [symmetric] key ev_def [symmetric]
    by (rule wp_bindI, rule at_DeleteAll [OF at_start [OF inv] c'], rule revoke_step) (simp add: ts_def)
  then obtain w' where w': "LogoutByLoginID ?m c i opts w = (Inr (), w')" "?P w'"
    unfolding wp_succeeds_unit by blast
  have "ts' k = Some it \<longleftrightarrow> mem_tokens w k = Some it
      \<and> (subject_key it = key \<longrightarrow> ts_Kind (ti_state it) \<noteq> TokenKindAccess
           \<and> (revoke \<longrightarrow> ts_Kind (ti_state it) \<noteq> TokenKindRefresh))" for k it
    by (auto simp: ts'_def ts_def drop_where_Some MatchKind_def)
  with w' at_D [OF w'(2)] show ?thesis
    unfolding Let_def lo_def [symmetric] key_def [symmetric] revoke_def [symmetric] ev_def [symmetric]
      ss_def [symmetric] by (intro exI [of _ w']) simp
qed

theorem LogoutByLoginID_effect_witness:
  "\<exists>w'. LogoutByLoginID (memory_manager DefaultConfig no_rbac) None ''alice'' [] demo_login
     = (Inr (), w') \<and> mem_sessions w' = mem_sessions demo_login"
  using LogoutByLoginID_effect [OF demo_login_inv, of None "''alice''" DefaultConfig no_rbac "[]"]
  by (auto simp: Let_def default_logoutOptions_def)

end
