(* ===== verification/Nonce_Properties.thy ===== *)
theory Nonce_Properties
  imports Logout_Properties
begin

text \<open>
  Nonces and renewal: what a nonce is worth once, and what a renewal does to the lifetime of a
  token and of its session.
\<close>

subsection \<open>Consumption\<close>

definition consumed_item :: "tokenItem \<Rightarrow> time \<Rightarrow> tokenItem" where
  "consumed_item it t = it\<lparr>ti_state := MarkConsumed (ti_state it) t\<rparr>"

text \<open>The outcomes of \<open>ConsumeNonce\<close> on a stored token that does not expire.\<close>

definition nonce_error :: "TokenState \<Rightarrow> error option" where
  "nonce_error s =
     (if ts_Kind s \<noteq> TokenKindNonce then Some ErrUnsupportedKind
      else if IsConsumed s then Some ErrNonceReplayed
      else if ts_Status s \<noteq> TokenStatusActive then Some ErrTokenInvalid
      else None)"

lemma consumed_table_kept:
  assumes "live_item t ts k = Some it" and "ts_Kind (ti_state it) \<noteq> kind \<or> ts_Status (ti_state it) \<noteq> TokenStatusActive"
    and "kind \<noteq> []" and "ts_Status (ti_state it) \<noteq> []"
  shows "consumed_table t k kind ts = ts"
  using assms by (auto simp: consumed_table_def IsActive_def)

lemma consumed_table_marked:
  assumes "live_item t ts k = Some it" and "ts_Kind (ti_state it) = kind"
    and "ts_Status (ti_state it) = TokenStatusActive"
  shows "consumed_table t k kind ts = ts(k \<mapsto> consumed_item it t)"
proof -
  have "\<not> IsExpired (ti_state it) t"
    using live_item_SomeD [OF assms(1)] by (simp add: tokenItem_isExpired_def)
  with assms show ?thesis by (simp add: consumed_table_def IsActive_def consumed_item_def)
qed

lemma at_ConsumeNonce:
  assumes a: "run_at w0 ts ss es w" and c: "cerr c E" and ne: "TrimSpace nonce \<noteq> []"
    and it: "ts (storeKey nonce) = Some it" and live: "never_expires w0 it"
    and bad: "\<And>e w'. nonce_error (ti_state it) = Some e \<Longrightarrow> run_at w0 ts ss es w' \<Longrightarrow> E e w'"
    and ok: "\<And>n n' w'. nonce_error (ti_state it) = None \<Longrightarrow>
      run_at w0 (ts(storeKey nonce \<mapsto> consumed_item it (env_clock w0 n))) ss
        (es @ [new_Event EventNonceConsumed (ts_LoginID (ti_state it)) (ts_LoginType (ti_state it))
           (storeKey nonce)]) w' \<Longrightarrow>
      Q ((MarkConsumed (ti_state it) (env_clock w0 n'))\<lparr>ts_Token := TrimSpace nonce\<rparr>) w'"
  shows "wp (ConsumeNonce (memory_manager cf az) c nonce) Q E w"
proof -
  let ?s = "ti_state it" and ?k = "storeKey nonce"
  have c': "cerr (normalizeContext c) E" using c by simp
  have sok: "state_ok ?s" by (rule run_at_state_ok [OF a it])
  have tok: "ts_Token ?s = ?k" by (rule run_at_token [OF a it])
  have st: "ts_Status ?s \<noteq> []" using sok by (simp add: state_ok_def normal_state_def)
  have cl: "TokenState_Clone (MarkConsumed ?s t) = MarkConsumed ?s t" for t
    using sok by (simp add: state_ok_def TokenState_Clone_eq cloned_def)
  have li: "live_item (env_clock w0 n) ts ?k = Some it" for n
    using it live by (simp add: live_item_def never_expires_def)
  have ls: "live_state (env_clock w0 n) ts ?k = Some ?s" for n
    using li by (simp add: live_state_def)
  have ex: "\<not> IsExpired ?s (env_clock w0 n)" for n
    using live by (simp add: never_expires_def tokenItem_isExpired_def)
  show ?thesis
    unfolding ConsumeNonce_def Let_def TrimSpace_idem if_not_P [OF ne] storeKey_TrimSpace
      consumeTokenState_def memory_manager_sel option.case mem_store_sel
  proof (rule wp_bindI, rule at_consume [OF a c'], goal_cases)
    case 1
    show ?case by (simp add: TokenKindNonce_def)
  next
    case (2 n v)
    show ?case
    proof (cases "nonce_error ?s")
      case (Some e)
      have "consumed_table (env_clock w0 n) ?k TokenKindNonce ts = ts"
        using Some by (intro consumed_table_kept [OF li _ _ st])
          (auto simp: nonce_error_def IsConsumed_def TokenKindNonce_def split: if_splits)
      with bad [OF Some] 2 have "E e v" by simp
      with Some show ?thesis
        using sok by (auto simp: ls nonce_error_def state_ok_Normalize wp_throw split: if_splits)
    next
      case None
      then have s: "ts_Kind ?s = TokenKindNonce" "\<not> IsConsumed ?s" "ts_Status ?s = TokenStatusActive"
        by (auto simp: nonce_error_def split: if_splits)
      note v = 2 [unfolded consumed_table_marked [OF li s(1,3)]]
      show ?thesis
        unfolding ls option.case state_ok_Normalize [OF sok]
        using s by simp
          (intro wp_bindI at_now [OF v], simp add: ex, intro wp_bindI at_now, assumption,
           intro wp_bindI at_publish, assumption, simp,
           simp add: wp_ret withPlaintextToken_def cl tok ok [OF None])
    qed
  qed
qed


subsection \<open>Generation\<close>

definition rand_total :: "'x env_scheme \<Rightarrow> bool" where
  "rand_total w \<longleftrightarrow> (\<forall>n. env_rand w n \<noteq> None)"

lemma nonce_trimmed:
  assumes "s \<noteq> []" and "set s \<subseteq> set url_alphabet"
  shows "TrimSpace s = s"
proof (rule TrimSpace_graphic [OF assms(1)])
  have "\<forall>x \<in> set url_alphabet. graphic x"
    by (simp add: url_alphabet_def graphic_def)
  with assms show "graphic (hd s)" "graphic (last s)"
    using hd_in_set [OF assms(1)] last_in_set [OF assms(1)] by blast+
qed

lemma at_RandomString:
  assumes a: "run_at w0 ts ss es w" and r: "rand_total w0"
    and ok: "\<And>s w'. run_at w0 ts ss es w' \<Longrightarrow> length s = nat n \<Longrightarrow> set s \<subseteq> set url_alphabet \<Longrightarrow> Q s w'"
  shows "wp (RandomString n) Q E w"
proof -
  have "env_rand w (env_tick w) \<noteq> None"
    using r at_D(6) [OF a] by (simp add: rand_total_def)
  then have "\<exists>s w'. RandomString n w = (Inr s, w') \<and> (w' = w \<or> w' = tick w)"
    by (auto simp: RandomString_def Let_def op_simps rand_Read_def)
  then obtain s w' where s: "RandomString n w = (Inr s, w')" and w': "w' = w \<or> w' = tick w"
    by blast
  have "length s = nat n \<and> set s \<subseteq> set url_alphabet"
    using keeps_valueD [OF keeps_RandomString [of "\<lambda>_. True"] TrueI s] by (simp add: tick_stable_def)
  with ok [of w' s] a w' s show ?thesis by (auto simp: wp_def)
qed

text \<open>What a fresh nonce is in the store.\<close>

definition fresh_nonce :: "Config \<Rightarrow> generateNonceOptions \<Rightarrow> tokenItem \<Rightarrow> bool" where
  "fresh_nonce cf opts it \<longleftrightarrow> ts_Kind (ti_state it) = TokenKindNonce
     \<and> ts_Status (ti_state it) = TokenStatusActive
     \<and> ts_LoginID (ti_state it) = sub_LoginID (gn_subject opts)
     \<and> ts_LoginType (ti_state it) = (let t = sub_LoginType (gn_subject opts) in if t = [] then DefaultLoginType else t)
     \<and> ts_Metadata (ti_state it) = cloneRawMessage (gn_metadata opts)
     \<and> ts_Nonce (ti_state it) = Some \<lparr>ni_Purpose = gn_purpose opts, ni_ConsumedAt = None\<rparr>"

lemma wp_GenerateNonce:
  fixes opts :: "generateNonceOptions go_option list"
  assumes inv: "mem_inv w" and c: "healthy c" and r: "rand_total w"
    and life: "clock_below w (nc_Timeout (cf_Nonce (complete_config cf)))"
    and ok: "\<And>nonce it w'. length nonce = nat (nc_Length (cf_Nonce (complete_config cf))) \<Longrightarrow>
      set nonce \<subseteq> set url_alphabet \<Longrightarrow> TrimSpace nonce = nonce \<Longrightarrow> nonce \<noteq> [] \<Longrightarrow>
      fresh_nonce cf (option_Apply default_generateNonceOptions opts) it \<Longrightarrow> never_expires w it \<Longrightarrow>
      run_at w ((mem_tokens w)(storeKey nonce \<mapsto> it)) (mem_sessions w) (published w) w' \<Longrightarrow>
      Q nonce w'"
  shows "wp (GenerateNonce (memory_manager cf az) c opts) Q E w"
proof -
  define nc where "nc = cf_Nonce (complete_config cf)"
  define go where "go = option_Apply default_generateNonceOptions opts"
  have c': "cerr (normalizeContext c) E" for E :: "error \<Rightarrow> 'a mem_scheme \<Rightarrow> bool" using c by simp
  have pos: "0 < nc_Timeout nc" "0 < nc_Length nc"
    using NonceConfig_withDefaults_pos by (simp_all add: nc_def)
  let ?s = "\<lambda>nonce now. \<lparr>ts_Token = storeKey nonce, ts_Kind = TokenKindNonce,
      ts_LoginID = sub_LoginID (gn_subject go), ts_LoginType = sub_LoginType (gn_subject go),
      ts_Device = [], ts_CreatedAt = now, ts_LastActiveAt = now,
      ts_ExpiresAt = Some (Time_Add now (nc_Timeout nc)), ts_Status = TokenStatusActive,
      ts_Metadata = cloneRawMessage (gn_metadata go), ts_Refresh = None,
      ts_Nonce = Some \<lparr>ni_Purpose = gn_purpose go, ni_ConsumedAt = None\<rparr>, ts_Online = None\<rparr>"
  have step: "wp (bindE (mem_SaveTokenState (normalizeContext c)
        (Some (?s nonce (env_clock w n))) (nc_Timeout nc)) (\<lambda>_. ret nonce)) Q E v"
    if v: "run_at w (mem_tokens w) (mem_sessions w) (published w) v"
      and nonce: "length nonce = nat (nc_Length nc)" "set nonce \<subseteq> set url_alphabet" "TrimSpace nonce = nonce" "nonce \<noteq> []" for nonce n v
  proof -
    let ?x = "stored_state (?s nonce (env_clock w n))"
    have st: "storable (?s nonce (env_clock w n))" using nonce by (simp add: storable_def)
    have ex: "ts_ExpiresAt ?x = Some (Time_Add (env_clock w n) (nc_Timeout nc))"
      by (simp add: stored_state_def)
    have it: "stored_item (?s nonce (env_clock w n)) t ttl = stored_item ?x t ttl" for t ttl
      using stored_state_id [OF storable_ok [OF st]] by (simp add: stored_item_def)
    have "never_expires w (stored_item (?s nonce (env_clock w n)) (env_clock w n') (nc_Timeout nc))" for n'
      unfolding it never_expires_def
      by (intro allI stored_item_lives [OF storable_ok [OF st]])
        (use life pos ex in \<open>auto simp: nc_def\<close>)
    moreover have "fresh_nonce cf go (stored_item (?s nonce (env_clock w n)) t ttl)" for t ttl
      by (simp add: fresh_nonce_def stored_item_def stored_state_def TokenState_Normalize_def Let_def)
    ultimately have "Q nonce u" if "run_at w ((mem_tokens w)(storeKey nonce \<mapsto>
        stored_item (?s nonce (env_clock w n)) (env_clock w n') (nc_Timeout nc)))
        (mem_sessions w) (published w) u" for u n'
      using that nonce unfolding nc_def go_def by (intro ok) simp_all
    then show ?thesis
      by (intro wp_bindI at_Save [OF v c' st]) (simp add: wp_ret)
  qed
  show ?thesis
    unfolding GenerateNonce_def Let_def memory_manager_sel mem_store_sel nc_def [symmetric] go_def [symmetric]
  proof (rule wp_bindI, rule at_ctx [OF at_start [OF inv] c'], rule wp_bindI, rule wp_attemptI,
      rule at_RandomString [OF _ r], assumption, goal_cases)
    case (1 u nonce v)
    then have ne: "nonce \<noteq> []" using pos by auto
    show ?case
      unfolding sum.case if_not_P [OF ne]
      by (rule wp_bindI, rule at_now [OF 1(2)], rule step)
        (use 1 ne nonce_trimmed in \<open>simp_all\<close>)
  qed
qed


text \<open>C2: a generated nonce is worth one consumption. While the entropy source works, the contexts are
  not done and the clock stays within the lifetime of a nonce, generation succeeds, and the nonce
  has the configured length over the 64 characters of the URL alphabet. The first consumption returns
  its state as consumed, with the purpose, the login ID, the login type (or the default one, when none
  was given) and the metadata it was made for; the second is refused as a replay and
  changes no token, whichever Manager over the store asks.\<close>

theorem nonce_single_use:
  assumes inv: "mem_inv w" and c: "healthy c" "healthy c'" "healthy c''" and r: "rand_total w"
    and life: "clock_below w (nc_Timeout (cf_Nonce (complete_config cf)))"
  shows "\<exists>nonce w1 s w2 w3.
      GenerateNonce (memory_manager cf az) c opts w = (Inr nonce, w1)
    \<and> length nonce = nat (nc_Length (cf_Nonce (complete_config cf))) \<and> set nonce \<subseteq> set url_alphabet
    \<and> ConsumeNonce (memory_manager cf az') c' nonce w1 = (Inr s, w2)
    \<and> ts_Token s = nonce \<and> ts_Kind s = TokenKindNonce \<and> IsConsumed s
    \<and> ts_LoginID s = sub_LoginID (gn_subject (option_Apply default_generateNonceOptions opts))
    \<and> ts_LoginType s = (let t = sub_LoginType (gn_subject (option_Apply default_generateNonceOptions opts))
                          in if t = [] then DefaultLoginType else t)
    \<and> ts_Metadata s = cloneRawMessage (gn_metadata (option_Apply default_generateNonceOptions opts))
    \<and> map_option ni_Purpose (ts_Nonce s)
        = Some (gn_purpose (option_Apply default_generateNonceOptions opts))
    \<and> ConsumeNonce (memory_manager cf az'') c'' nonce w2 = (Inl ErrNonceReplayed, w3)
    \<and> mem_tokens w3 = mem_tokens w2"
proof -
  let ?go = "option_Apply default_generateNonceOptions opts"
  have "wp (GenerateNonce (memory_manager cf az) c opts)
     (\<lambda>nonce w1. length nonce = nat (nc_Length (cf_Nonce (complete_config cf))) \<and> set nonce \<subseteq> set url_alphabet
     \<and> TrimSpace nonce = nonce \<and> nonce \<noteq> [] \<and> (\<exists>it. fresh_nonce cf ?go it \<and> never_expires w it
     \<and> run_at w ((mem_tokens w)(storeKey nonce \<mapsto> it)) (mem_sessions w) (published w) w1))
     (\<lambda>_ _. False) w"
    by (rule wp_GenerateNonce [OF inv c(1) r life]) auto
  then obtain nonce w1 it where gen: "GenerateNonce (memory_manager cf az) c opts w = (Inr nonce, w1)"
    "length nonce = nat (nc_Length (cf_Nonce (complete_config cf)))" "set nonce \<subseteq> set url_alphabet"
    and nonce: "TrimSpace nonce = nonce" "nonce \<noteq> []" and it: "fresh_nonce cf ?go it" "never_expires w it"
    and w1: "run_at w ((mem_tokens w)(storeKey nonce \<mapsto> it)) (mem_sessions w) (published w) w1"
    unfolding wp_succeeds by blast
  have ne: "TrimSpace nonce \<noteq> []" using nonce by simp
  have none: "nonce_error (ti_state it) = None"
    using it(1) by (simp add: fresh_nonce_def nonce_error_def IsConsumed_def TokenStatusActive_def
        TokenStatusConsumed_def)
  let ?ts = "(mem_tokens w)(storeKey nonce \<mapsto> it)"
  have "wp (ConsumeNonce (memory_manager cf az') c' nonce)
      (\<lambda>s w2. \<exists>n n' es. s = (MarkConsumed (ti_state it) (env_clock w n'))\<lparr>ts_Token := nonce\<rparr>
        \<and> run_at w (?ts(storeKey nonce \<mapsto> consumed_item it (env_clock w n))) (mem_sessions w) es w2)
      (\<lambda>_ _. False) w1"
    by (rule at_ConsumeNonce [OF w1 _ ne _ it(2)]) (use none c nonce in auto)
  then obtain s w2 n n' es where con: "ConsumeNonce (memory_manager cf az') c' nonce w1 = (Inr s, w2)"
    and s: "s = (MarkConsumed (ti_state it) (env_clock w n'))\<lparr>ts_Token := nonce\<rparr>"
    and w2: "run_at w (?ts(storeKey nonce \<mapsto> consumed_item it (env_clock w n))) (mem_sessions w) es w2"
    unfolding wp_succeeds by blast
  have it': "never_expires w (consumed_item it t)" for t
    using it(2) by (simp add: never_expires_def tokenItem_isExpired_def consumed_item_def IsExpired_iff)
  have "wp (ConsumeNonce (memory_manager cf az'') c'' nonce) (\<lambda>_ _. False)
      (\<lambda>e w3. e = ErrNonceReplayed \<and> mem_tokens w3 = mem_tokens w2) w2"
  proof (rule at_ConsumeNonce [OF w2 _ ne fun_upd_same it'], goal_cases)
    case (2 e w')
    then show ?case
      using it(1) at_D(3) [OF w2] at_D(3) [OF 2(2)]
      by (auto simp: nonce_error_def consumed_item_def fresh_nonce_def fun_eq_iff)
  next
    case 3
    then show ?case using it(1) by (simp add: nonce_error_def consumed_item_def fresh_nonce_def)
  qed (simp add: c)
  then obtain w3 where rep: "ConsumeNonce (memory_manager cf az'') c'' nonce w2 = (Inl ErrNonceReplayed, w3)"
    "mem_tokens w3 = mem_tokens w2"
    unfolding wp_fails by blast
  have "map_option ni_Purpose (ts_Nonce s) = Some (gn_purpose ?go)"
    "ts_LoginID s = sub_LoginID (gn_subject ?go)" "ts_Token s = nonce" "ts_Kind s = TokenKindNonce" "IsConsumed s"
    "ts_LoginType s = (let t = sub_LoginType (gn_subject ?go) in if t = [] then DefaultLoginType else t)"
    "ts_Metadata s = cloneRawMessage (gn_metadata ?go)"
    using it(1) by (simp_all add: s fresh_nonce_def MarkConsumed_def Let_def IsConsumed_def split: option.split)
  with gen con rep show ?thesis by blast
qed

theorem nonce_single_use_witness:
  "\<exists>nonce w1 s w2 w3. GenerateNonce (memory_manager DefaultConfig no_rbac) None [] demo = (Inr nonce, w1)
    \<and> set nonce \<subseteq> set url_alphabet \<and> ts_LoginType s = DefaultLoginType
    \<and> ConsumeNonce (memory_manager DefaultConfig no_rbac) None nonce w1 = (Inr s, w2)
    \<and> ConsumeNonce (memory_manager DefaultConfig no_rbac) None nonce w2 = (Inl ErrNonceReplayed, w3)"
proof -
  have "rand_total demo"
    by (simp add: rand_total_def demo_def mem_NewStore_def demo_env_def env.defs mem.defs)
  moreover have "clock_below demo (nc_Timeout (cf_Nonce (complete_config DefaultConfig)))"
    using NonceConfig_withDefaults_pos(1) [of "cf_Nonce DefaultConfig"] by simp
  ultimately show ?thesis
    using nonce_single_use [of demo None None None DefaultConfig no_rbac "[]" no_rbac no_rbac]
    by (auto simp: default_generateNonceOptions_def Let_def)
qed

text \<open>Consuming a live token of another kind as a nonce is refused and spends nothing: the
  token table stays as it is.\<close>

theorem ConsumeNonce_wrong_kind:
  assumes "mem_inv w" and "healthy c" and "TrimSpace tok \<noteq> []" and "usable w tok it"
    and "ts_Kind (ti_state it) \<noteq> TokenKindNonce"
  shows "\<exists>w'. ConsumeNonce (memory_manager cf az) c tok w = (Inl ErrUnsupportedKind, w')
    \<and> mem_tokens w' = mem_tokens w \<and> mem_inv w'"
proof -
  have "never_expires w it" "mem_tokens w (storeKey tok) = Some it"
    using assms(4) by (simp_all add: usable_def never_expires_def)
  with assms have "wp (ConsumeNonce (memory_manager cf az) c tok) (\<lambda>_ _. False)
      (\<lambda>e w'. e = ErrUnsupportedKind \<and> mem_tokens w' = mem_tokens w \<and> mem_inv w') w"
    by (intro at_ConsumeNonce [OF at_start [OF assms(1)]]) (auto simp: nonce_error_def at_D)
  then show ?thesis unfolding wp_fails by blast
qed

theorem ConsumeNonce_wrong_kind_witness:
  "\<exists>w'. ConsumeNonce (memory_manager DefaultConfig no_rbac) None ''abc'' demo_login
     = (Inl ErrUnsupportedKind, w')"
proof -
  obtain it where it: "usable demo_login ''abc'' it" "mem_inv demo_login"
    "ts_Kind (ti_state it) = TokenKindAccess" by (rule demo_login_usable)
  have "ts_Kind (ti_state it) \<noteq> TokenKindNonce"
    by (simp add: it(3) TokenKindAccess_def TokenKindNonce_def)
  from ConsumeNonce_wrong_kind [OF it(2) _ _ it(1) this, of None DefaultConfig no_rbac] show ?thesis by auto
qed

subsection \<open>Renewal\<close>

lemma renewed_state_facts:
  assumes "state_ok s"
  shows "state_ok (renewed_state s now ttl)"
    and "ts_Token (renewed_state s now ttl) = ts_Token s"
    and "ts_Status (renewed_state s now ttl) = ts_Status s"
    and "TokenState_Subject (renewed_state s now ttl) = TokenState_Subject s"
    and "renewed_state s now ttl = s\<lparr>ts_LastActiveAt := now,
        ts_ExpiresAt := (if 0 < ttl then Some (Time_Add now ttl) else None)\<rparr>"
  using assms by (simp_all add: renewed_state_def Touch_def state_ok_def normal_state_def cloned_def
      TokenState_Subject_def Let_def)

text \<open>C12: renewing a usable token of a real subject succeeds. With a positive lifetime the token
  expires that long after the renewal, with any other it never expires, and nothing else of its
  state changes but the last activity; the session is kept, or made, with the same lifetime.\<close>

theorem Renew_effect:
  assumes inv: "mem_inv w" and u: "usable w tok it" and c: "healthy c" and ne: "TrimSpace tok \<noteq> []"
    and sub: "\<not> LoginSubject_IsZero (subject_key it)" and life: "clock_below w ttl"
  shows "\<exists>n n' it' w'. Renew (memory_manager cf az) c tok ttl w = (Inr (), w')
    \<and> mem_inv w' \<and> mem_tokens w' = (mem_tokens w)(storeKey tok \<mapsto> it') \<and> usable w' tok it'
    \<and> ti_state it' = (ti_state it)\<lparr>ts_LastActiveAt := env_clock w n,
        ts_ExpiresAt := (if 0 < ttl then Some (Time_Add (env_clock w n) ttl) else None)\<rparr>
    \<and> mem_sessions w' = (mem_sessions w)(subject_key it \<mapsto>
        ensured_session (env_clock w n') (subject_key it) ttl (mem_sessions w))"
proof -
  let ?s = "ti_state it"
  let ?r = "\<lambda>n. renewed_state ?s (env_clock w n) ttl"
  let ?ss = "\<lambda>n. (mem_sessions w)(subject_key it \<mapsto>
        ensured_session (env_clock w n) (subject_key it) ttl (mem_sessions w))"
  let ?P = "\<lambda>w'. \<exists>n n' n'' es. run_at w ((mem_tokens w)(storeKey tok \<mapsto> stored_item (?r n) (env_clock w n'') ttl))
    (?ss n') es w'"
  have sok: "state_ok ?s" and tok: "ts_Token ?s = storeKey tok"
    using usable_state_ok [OF inv u] by (simp_all add: item_ok_def)
  have act: "ts_Status ?s = TokenStatusActive" using u by (simp add: usable_def)
  note r = renewed_state_facts [OF sok]
  have c': "cerr (normalizeContext c) E" for E :: "error \<Rightarrow> 'a mem_scheme \<Rightarrow> bool" using c by simp
  have live: "live_state (env_clock w n) (mem_tokens w) (storeKey tok) = Some ?s" for n
    using u by (simp add: usable_def live_state_def live_item_def)
  have "wp (Renew (memory_manager cf az) c tok ttl) (\<lambda>_. ?P) (\<lambda>_ _. False) w"
    unfolding Renew_def Let_def
  proof (rule wp_bindI, rule wp_getTokenState_usable [OF inv u _ ne], simp add: c, simp, rule wp_bindI,
      rule at_now, assumption, unfold state_ok_Clone [OF sok] r(4), rule wp_bindI,
      rule at_update [OF _ c' r(1)], assumption, goal_cases)
    case (3 v1 n v2 n' v3)
    have sub': "\<not> LoginSubject_IsZero (TokenState_Subject ?s)"
      using sub by (simp add: subject_key_def)
    have tk: "ts_Token (?r n) = storeKey tok" by (simp add: r(2) tok)
    show ?case
      by (rule wp_bindI, rule at_sync [OF 3(3) c' sub'], rule at_publish, assumption, simp)
        (use tk in \<open>auto simp: subject_key_def\<close>)
  qed (simp_all add: r(2) tok live)
  then obtain w' n n' n'' es where w': "Renew (memory_manager cf az) c tok ttl w = (Inr (), w')"
    "run_at w ((mem_tokens w)(storeKey tok \<mapsto> stored_item (?r n) (env_clock w n'') ttl)) (?ss n') es w'"
    unfolding wp_succeeds_unit by blast
  have st: "ti_state (stored_item (?r n) t ttl) = ?r n" for t
    by (simp add: stored_item_def stored_state_id [OF r(1)])
  have "\<not> tokenItem_isExpired (stored_item (?r n) (env_clock w n'') ttl) (env_clock w m)" for m
    by (rule stored_item_lives [OF r(1) life]) (simp add: r(5))
  then have "usable w' tok (stored_item (?r n) (env_clock w n'') ttl)"
    unfolding usable_def st using at_D [OF w'(2)] r(3) act by simp
  with w'(1) at_D [OF w'(2)] st r(5) show ?thesis by metis
qed

theorem Renew_effect_witness:
  "\<exists>w' it'. Renew (memory_manager DefaultConfig no_rbac) None ''abc'' 0 demo_login = (Inr (), w')
     \<and> usable w' ''abc'' it' \<and> ts_ExpiresAt (ti_state it') = None"
proof -
  obtain it where it: "usable demo_login ''abc'' it" "mem_inv demo_login"
    "ts_Kind (ti_state it) = TokenKindAccess" "ts_LoginID (ti_state it) = ''alice''"
    by (rule demo_login_usable)
  have "\<not> LoginSubject_IsZero (TokenState_Subject (ti_state it))"
    by (simp add: LoginSubject_IsZero_def TokenState_Subject_def it(4))
  then have sub: "\<not> LoginSubject_IsZero (subject_key it)" by (simp add: subject_key_def)
  have ne: "TrimSpace ''abc'' \<noteq> []" and life: "clock_below demo_login 0"
    by (simp_all add: clock_below_def)
  obtain n it' w' where "Renew (memory_manager DefaultConfig no_rbac) None ''abc'' 0 demo_login = (Inr (), w')"
    "usable w' ''abc'' it'" "ti_state it' = (ti_state it)\<lparr>ts_LastActiveAt := env_clock demo_login n,
        ts_ExpiresAt := (if 0 < (0::duration) then Some (Time_Add (env_clock demo_login n) 0) else None)\<rparr>"
    using Renew_effect [OF it(2,1) _ ne sub life, of None DefaultConfig no_rbac] by auto
  then show ?thesis by (intro exI [of _ w'] exI [of _ it']) simp
qed

end
