(* ===== verification/Store_Traces.thy ===== *)
theory Store_Traces
  imports Memory_Safe
begin

text \<open>
  Interleavings. The methods of the in-memory store are atomic under its mutex, so whatever the
  goroutines of any number of clients do, the store sees some sequence of method calls. Over all
  sequences: the indexes stay exact, and a token that is not written again is consumed at most
  once.
\<close>

datatype store_call =
    SSave ctx "TokenState option" duration
  | SCas ctx "TokenState option" "TokenState option" duration
  | SGet ctx TokenValue
  | SConsume ctx TokenValue
  | SConsumeKind ctx TokenValue TokenKind
  | SDelete ctx TokenValue
  | SFind ctx LoginSubject "TokenKind list"
  | SDeleteAll ctx LoginSubject "TokenKind list"
  | SSaveSession ctx "Session option" duration
  | SEnsureSession ctx LoginSubject duration
  | SGetSession ctx LoginSubject
  | SDeleteSession ctx LoginSubject

datatype store_result =
    RUnit | RBool bool | RState "TokenState option" | RStates "TokenState option list"
  | RSession "Session option"

definition mapE :: "('a \<Rightarrow> 'b) \<Rightarrow> ('w, 'e, 'a) op \<Rightarrow> ('w, 'e, 'b) op" where
  "mapE f a = bindE a (\<lambda>x. ret (f x))"

fun store_exec :: "store_call \<Rightarrow> ('x, store_result) mop" where
  "store_exec (SSave c s ttl) = mapE (\<lambda>_. RUnit) (mem_SaveTokenState c s ttl)"
| "store_exec (SCas c e n ttl) = mapE RBool (mem_CompareAndSwapTokenState c e n ttl)"
| "store_exec (SGet c k) = mapE RState (mem_GetTokenState c k)"
| "store_exec (SConsume c k) = mapE RState (mem_ConsumeTokenState c k)"
| "store_exec (SConsumeKind c k kind) = mapE RState (mem_ConsumeTokenStateOfKind c k kind)"
| "store_exec (SDelete c k) = mapE (\<lambda>_. RUnit) (mem_DeleteTokenState c k)"
| "store_exec (SFind c s ks) = mapE RStates (mem_FindTokenStates c s ks)"
| "store_exec (SDeleteAll c s ks) = mapE (\<lambda>_. RUnit) (mem_DeleteTokenStates c s ks)"
| "store_exec (SSaveSession c s ttl) = mapE (\<lambda>_. RUnit) (mem_SaveSession c s ttl)"
| "store_exec (SEnsureSession c s ttl) = mapE (\<lambda>_. RUnit) (mem_EnsureSession c s ttl)"
| "store_exec (SGetSession c s) = mapE RSession (mem_GetSession c s)"
| "store_exec (SDeleteSession c s) = mapE (\<lambda>_. RUnit) (mem_DeleteSession c s)"

type_synonym store_event = "store_call \<times> (error + store_result)"

fun store_run :: "store_call list \<Rightarrow> 'x mem_scheme \<Rightarrow> store_event list \<times> 'x mem_scheme" where
  "store_run [] w = ([], w)"
| "store_run (call # calls) w =
     (case store_exec call w of (r, w') \<Rightarrow>
        case store_run calls w' of (es, w'') \<Rightarrow> ((call, r) # es, w''))"

subsection \<open>What a call does to the table of tokens\<close>

lemma wp_mapE [wp_simps]: "wp (mapE f a) Q E w = wp a (\<lambda>x. Q (f x)) E w"
  by (simp add: mapE_def wp_def bindE_def ret_def split: prod.split sum.split)

fun writes_key :: "TokenValue \<Rightarrow> store_call \<Rightarrow> bool" where
  "writes_key k (SSave c (Some s) ttl) = (ts_Token s = k)"
| "writes_key k (SCas c e (Some s) ttl) = (ts_Token s = k)"
| "writes_key k _ = False"

text \<open>An entry that is not written is left, dropped, or marked consumed.\<close>

definition entry_step :: "tokenItem option \<Rightarrow> tokenItem option \<Rightarrow> bool" where
  "entry_step old new \<longleftrightarrow> new = old \<or> new = None
     \<or> (\<exists>it t. old = Some it \<and> new = Some (it\<lparr>ti_state := MarkConsumed (ti_state it) t\<rparr>))"

lemma entry_step_simps [simp]: "entry_step x x" "entry_step x None"
  by (simp_all add: entry_step_def)

lemma entry_step_tables:
  "entry_step (ts k) (evicted t j ts k)" "entry_step (ts k) (consumed_table t j kind ts k)"
  "entry_step (ts k) (drop_where P ts k)" "entry_step (ts k) ((ts(j := None)) k)"
  "entry_step (ts k) ((ts(j \<mapsto> it)) k) = (j = k \<longrightarrow> entry_step (ts k) (Some it))"
  by (auto simp: entry_step_def evicted_def consumed_table_def drop_where_def
      dest: live_item_SomeD split: option.split)
     (auto simp: live_item_def split: option.splits if_splits)

definition good_step :: "'x mem_scheme \<Rightarrow> (TokenValue \<Rightarrow> bool) \<Rightarrow> 'x mem_scheme \<Rightarrow> bool" where
  "good_step w W w' \<longleftrightarrow>
     mem_inv w' \<and> (\<forall>k. \<not> W k \<longrightarrow> entry_step (mem_tokens w k) (mem_tokens w' k))"

lemma good_step_leaves:
  "leaves w ts ss w' \<Longrightarrow> (\<And>k. \<not> W k \<Longrightarrow> entry_step (mem_tokens w k) (ts k)) \<Longrightarrow> good_step w W w'"
  by (simp add: good_step_def leaves_def)

lemma good_step_cancel: "on_cancel c w (\<lambda>_. good_step w W)"
  by (auto simp: on_cancel_def intro: good_step_leaves)

lemma good_step_unchanged: "leaves w (mem_tokens w) ss w' \<Longrightarrow> good_step w W w'"
  by (erule good_step_leaves) simp


definition keeps_entries :: "'x mem_scheme \<Rightarrow> (TokenValue \<Rightarrow> bool) \<Rightarrow> ('x, 'a) mop \<Rightarrow> bool" where
  "keeps_entries w W a \<longleftrightarrow> wp a (\<lambda>_. good_step w W) (\<lambda>_. good_step w W) w"

lemmas entry_rules = good_step_cancel good_step_leaves good_step_unchanged entry_step_tables

lemma good_step_refused: "mem_inv w \<Longrightarrow> good_step w W w" "mem_inv w \<Longrightarrow> good_step w W (tick w)"
  by (simp_all add: good_step_def)

lemma entries_saveTokenState:
  assumes inv: "mem_inv w"
  shows "keeps_entries w (\<lambda>k. ts_Token s = k) (mem_saveTokenState c None (Some s) ttl)"
proof (cases "storable s")
  case True
  show ?thesis unfolding keeps_entries_def mem_SaveTokenState_def [symmetric]
    by (rule wp_mem_SaveTokenState [OF inv _ True]) (auto intro: entry_rules simp: entry_step_tables)
next
  case False
  show ?thesis unfolding keeps_entries_def
    by (rule wp_mem_saveTokenState_refused [OF inv False]) (auto intro: entry_rules)
qed

lemma entries_Save:
  "mem_inv w \<Longrightarrow> keeps_entries w (\<lambda>k. writes_key k (SSave c s ttl)) (mem_SaveTokenState c s ttl)"
  using entries_saveTokenState [of w _ c ttl]
  by (cases s) (auto simp: keeps_entries_def wp_simps mem_SaveTokenState_def mem_saveTokenState_def
      intro!: wp_ctxErr good_step_refused)

lemma entries_CAS:
  assumes inv: "mem_inv w"
  shows "keeps_entries w (\<lambda>k. writes_key k (SCas c e n ttl)) (mem_CompareAndSwapTokenState c e n ttl)"
proof (cases "\<exists>e' n'. e = Some e' \<and> n = Some n' \<and> ts_Token e' = ts_Token n'")
  case False
  then show ?thesis
    by (auto simp: keeps_entries_def wp_simps mem_CompareAndSwapTokenState_def good_step_refused inv
        split: option.splits)
next
  case True
  then obtain e' n' where en: "e = Some e'" "n = Some n'" "ts_Token e' = ts_Token n'" by blast
  show ?thesis
  proof (cases "storable n'")
    case True
    show ?thesis unfolding keeps_entries_def en(1,2)
      by (rule wp_mem_CompareAndSwapTokenState [OF inv _ True en(3)])
        (auto intro: entry_rules simp: entry_step_tables)
  next
    case False
    have "wp (mem_saveTokenState c (Some e') (Some n') ttl) (\<lambda>_. good_step w (\<lambda>k. ts_Token n' = k))
        (\<lambda>_. good_step w (\<lambda>k. ts_Token n' = k)) w"
      by (rule wp_mem_saveTokenState_refused [OF inv False]) (auto intro: entry_rules)
    with en show ?thesis
      by (auto simp: keeps_entries_def mem_CompareAndSwapTokenState_def wp_simps elim!: wp_mono)
  qed
qed

lemma entries_consume: "mem_inv w \<Longrightarrow> keeps_entries w (\<lambda>_. False) (mem_consumeTokenState c k kind)"
  unfolding keeps_entries_def by (rule wp_mem_consumeTokenState) (blast intro: entry_rules)+

lemma entries_ConsumeOfKind:
  "mem_inv w \<Longrightarrow> keeps_entries w (\<lambda>_. False) (mem_ConsumeTokenStateOfKind c k kind)"
  using entries_consume [of w c k kind]
  by (auto simp: keeps_entries_def mem_ConsumeTokenStateOfKind_def wp_throw good_step_refused)

lemma entries_SaveSession: "mem_inv w \<Longrightarrow> keeps_entries w (\<lambda>_. False) (mem_SaveSession c s ttl)"
proof (cases "\<exists>s'. s = Some s' \<and> \<not> LoginSubject_IsZero (se_Subject s')")
  case True
  moreover assume "mem_inv w"
  ultimately show ?thesis
    by (auto simp: keeps_entries_def intro!: wp_mem_SaveSession intro: entry_rules)
next
  case False
  moreover assume "mem_inv w"
  ultimately show ?thesis
    by (cases s) (auto simp: keeps_entries_def wp_simps mem_SaveSession_def Let_def
        intro!: wp_ctxErr good_step_refused)
qed

lemma entries_EnsureSession: "mem_inv w \<Longrightarrow> keeps_entries w (\<lambda>_. False) (mem_EnsureSession c s ttl)"
proof (cases "LoginSubject_IsZero s")
  case True
  moreover assume "mem_inv w"
  ultimately show ?thesis
    by (auto simp: keeps_entries_def wp_simps mem_EnsureSession_def Let_def
        intro!: wp_ctxErr good_step_refused)
next
  case False
  moreover assume "mem_inv w"
  ultimately show ?thesis
    by (auto simp: keeps_entries_def intro!: wp_mem_EnsureSession intro: entry_rules)
qed

lemma entries_others:
  assumes "mem_inv w"
  shows "keeps_entries w (\<lambda>_. False) (mem_GetTokenState c k)"
    and "keeps_entries w (\<lambda>_. False) (mem_DeleteTokenState c k)"
    and "keeps_entries w (\<lambda>_. False) (mem_FindTokenStates c s kinds)"
    and "keeps_entries w (\<lambda>_. False) (mem_DeleteTokenStates c s kinds)"
    and "keeps_entries w (\<lambda>_. False) (mem_GetSession c s)"
    and "keeps_entries w (\<lambda>_. False) (mem_DeleteSession c s)"
  unfolding keeps_entries_def
  by (rule wp_mem_GetTokenState wp_mem_DeleteTokenState wp_mem_FindTokenStates
      wp_mem_DeleteTokenStates wp_mem_GetSession wp_mem_DeleteSession, rule assms;
      blast intro: entry_rules)+

lemma wp_store_exec:
  assumes inv: "mem_inv w"
  shows "wp (store_exec call) (\<lambda>_. good_step w (\<lambda>k. writes_key k call))
    (\<lambda>_. good_step w (\<lambda>k. writes_key k call)) w"
  using entries_Save [OF inv] entries_CAS [OF inv] entries_consume [OF inv]
    entries_ConsumeOfKind [OF inv] entries_SaveSession [OF inv] entries_EnsureSession [OF inv]
    entries_others [OF inv]
  by (cases call) (auto simp: keeps_entries_def wp_mapE mem_ConsumeTokenState_def)

lemma store_exec_inv: "mem_inv w \<Longrightarrow> mem_inv (snd (store_exec call w))"
  using wp_store_exec [of w call]
  by (auto simp: wp_def good_step_def split: prod.splits sum.splits)

lemma store_exec_entry:
  "mem_inv w \<Longrightarrow> \<not> writes_key k call \<Longrightarrow>
   entry_step (mem_tokens w k) (mem_tokens (snd (store_exec call w)) k)"
  using wp_store_exec [of w call]
  by (auto simp: wp_def good_step_def split: prod.splits sum.splits)

lemma store_run_inv: "mem_inv w \<Longrightarrow> mem_inv (snd (store_run calls w))"
  by (induction calls arbitrary: w) (auto dest: store_exec_inv simp: case_prod_unfold)

subsection \<open>A token is consumed at most once\<close>

text \<open>A call wins the key when it consumes it and is handed a live, unspent snapshot.\<close>

fun consumes_key :: "TokenValue \<Rightarrow> store_call \<Rightarrow> TokenState \<Rightarrow> bool" where
  "consumes_key k (SConsume c k') s = (k' = k)"
| "consumes_key k (SConsumeKind c k' kind) s = (k' = k \<and> ts_Kind s = kind)"
| "consumes_key k _ s = False"

fun wins :: "TokenValue \<Rightarrow> store_event \<Rightarrow> bool" where
  "wins k (call, Inr (RState (Some s))) = (consumes_key k call s \<and> ts_Status s = TokenStatusActive)"
| "wins k (call, _) = False"

definition spent :: "TokenValue \<Rightarrow> 'x mem_scheme \<Rightarrow> bool" where
  "spent k w \<longleftrightarrow> (\<forall>it. mem_tokens w k = Some it \<longrightarrow> ts_Status (ti_state it) \<noteq> TokenStatusActive)"

lemma spent_exec:
  "mem_inv w \<Longrightarrow> \<not> writes_key k call \<Longrightarrow> spent k w \<Longrightarrow> spent k (snd (store_exec call w))"
  using store_exec_entry [of w k call] by (auto simp: spent_def entry_step_def)

lemma wp_consume_wins:
  assumes inv: "mem_inv w"
  shows "wp (mem_consumeTokenState c k kind)
     (\<lambda>r w'. \<forall>s. r = Some s \<longrightarrow> (kind = [] \<or> ts_Kind s = kind) \<longrightarrow> ts_Status s = TokenStatusActive \<longrightarrow>
        \<not> spent k w \<and> spent k w') (\<lambda>_ _. True) w"
proof (rule wp_mem_consumeTokenState [OF inv])
  fix n w'
  let ?t = "env_clock w n"
  assume *: "leaves w (consumed_table ?t k kind (mem_tokens w)) (mem_sessions w) w'"
  have active: "IsActive (ti_state it) ?t"
    if "live_item ?t (mem_tokens w) k = Some it" "ts_Status (ti_state it) = TokenStatusActive" for it
    using live_item_SomeD [OF that(1)] that(2) by (simp add: IsActive_def tokenItem_isExpired_def)
  show "\<forall>s. live_state ?t (mem_tokens w) k = Some s \<longrightarrow> (kind = [] \<or> ts_Kind s = kind) \<longrightarrow>
      ts_Status s = TokenStatusActive \<longrightarrow> \<not> spent k w \<and> spent k w'"
    using leavesD(3) [OF *] active
    by (auto simp: live_state_def spent_def consumed_table_def dest: live_item_SomeD)
qed (simp add: on_cancel_def)

lemma wins_exec:
  assumes "mem_inv w" and "wins k (call, fst (store_exec call w))"
  shows "\<not> spent k w \<and> spent k (snd (store_exec call w))"
proof -
  obtain s where r: "fst (store_exec call w) = Inr (RState (Some s))"
    and s: "consumes_key k call s" "ts_Status s = TokenStatusActive"
    using assms(2) by (cases "(k, call, fst (store_exec call w))" rule: wins.cases) auto
  obtain c kind where m: "mem_consumeTokenState c k kind w = (Inr (Some s), snd (store_exec call w))"
    and kind: "kind = [] \<or> ts_Kind s = kind"
    using s(1) r by (cases call)
      (auto simp: mapE_def bindE_def ret_def throw_def mem_ConsumeTokenState_def
        mem_ConsumeTokenStateOfKind_def split: prod.splits sum.splits if_splits)
  from wp_InrD [OF wp_consume_wins [OF assms(1)] m] kind s(2) show ?thesis by blast
qed

lemma no_win_when_spent:
  "mem_inv w \<Longrightarrow> spent k w \<Longrightarrow> \<forall>call \<in> set calls. \<not> writes_key k call \<Longrightarrow>
   filter (wins k) (fst (store_run calls w)) = []"
proof (induction calls arbitrary: w)
  case (Cons call calls)
  have "\<not> wins k (call, fst (store_exec call w))"
    using wins_exec [OF Cons.prems(1)] Cons.prems(2) by blast
  with Cons.IH [OF store_exec_inv [OF Cons.prems(1)] spent_exec] Cons.prems show ?case
    by (simp add: case_prod_unfold)
qed simp

lemma at_most_one_win:
  "mem_inv w \<Longrightarrow> \<forall>call \<in> set calls. \<not> writes_key k call \<Longrightarrow>
   length (filter (wins k) (fst (store_run calls w))) \<le> 1"
proof (induction calls arbitrary: w)
  case (Cons call calls)
  let ?w = "snd (store_exec call w)"
  show ?case
  proof (cases "wins k (call, fst (store_exec call w))")
    case True
    with wins_exec [OF Cons.prems(1) True] no_win_when_spent [OF store_exec_inv [OF Cons.prems(1)]]
      Cons.prems(2) show ?thesis by (simp add: case_prod_unfold)
  next
    case False
    with Cons.IH [OF store_exec_inv [OF Cons.prems(1)]] Cons.prems(2) show ?thesis
      by (simp add: case_prod_unfold)
  qed
qed simp

end
