(* ===== verification/System_Properties.thy ===== *)
theory System_Properties
  imports Nonce_Properties Store_Traces
begin

text \<open>
  The promises of the whole system: what holds of the store in every state that clients of any
  number of Managers reach, and what any interleaving of calls on the store can do.
\<close>

subsection \<open>Secrecy and consistency of reachable states\<close>

lemma reachable_mem_safe:
  assumes "reachable ms w"
    and ms: "\<forall>m \<in> ms. \<exists>cf az. m = memory_manager cf az \<or> m = legacy_manager cf az"
  shows "mem_safe w"
proof (rule reachable_safe [OF assms(1)])
  fix m assume "m \<in> ms"
  with ms obtain cf az where "m = memory_manager cf az \<or> m = legacy_manager cf az" by blast
  then show "managed mem_safe m"
    using on_memory.managed_axioms [of cf az] on_legacy.managed_axioms [of cf az] by auto
qed

text \<open>C1: no plaintext at rest. In every state that any sequence of calls on Managers over the
  store reaches (with the optional capability or without, whatever their configurations and
  roles), every stored token lies under its own \<open>Token\<close> field, that field is the 64 hexadecimal
  digits of the SHA-256 of some token, and every link of a refresh token to another token is empty
  or such a digest.\<close>

theorem stored_tokens_hashed:
  assumes "reachable ms w"
    and "\<forall>m \<in> ms. \<exists>cf az. m = memory_manager cf az \<or> m = legacy_manager cf az"
    and "mem_tokens w k = Some it"
  shows "ts_Token (ti_state it) = k \<and> length k = 64 \<and> set k \<subseteq> set ''0123456789abcdef''
    \<and> (\<exists>token. TrimSpace token \<noteq> [] \<and> k = hex_EncodeToString (Sum256 (TrimSpace token)))
    \<and> (\<forall>r. ts_Refresh (ti_state it) = Some r \<longrightarrow>
         (\<forall>link \<in> {ri_AccessToken r, ri_RotatedFrom r, ri_RotatedTo r}.
            link = [] \<or> (\<exists>token. TrimSpace token \<noteq> [] \<and> link = storeKey token)))"
proof -
  note safe = reachable_mem_safe [OF assms(1,2)]
  have tok: "ts_Token (ti_state it) = k"
    using mem_inv_item [OF mem_safe_inv [OF safe] assms(3)] by (simp add: item_ok_def)
  have h: "hashed_state (ti_state it)"
    using mem_safe_hashed [OF safe] assms(3) by (simp add: hashed_table_def)
  with tok have key: "is_store_key k" by (simp add: hashed_state_def)
  then have "\<exists>token. TrimSpace token \<noteq> [] \<and> k = hex_EncodeToString (Sum256 (TrimSpace token))"
    by (auto simp: is_store_key_def storeKey_def)
  with tok is_store_key_shape [OF key] h show ?thesis
    by (auto simp: hashed_state_def hashed_refresh_def key_or_empty_def is_store_key_def hex_table_def)
qed

lemma snd_dropE [simp]: "snd (dropE a w) = snd (a w)"
  by (simp add: dropE_def bindE_def ret_def split: prod.split sum.split)

lemma reachable_demo_login:
  "reachable {memory_manager DefaultConfig no_rbac} demo_login"
proof -
  have "reachable {memory_manager DefaultConfig no_rbac} (snd (exec (memory_manager DefaultConfig no_rbac)
      (CLogin None ''alice'' ''abc'' []) demo))"
    unfolding demo_def by (intro reachable.intros) (simp_all add: call_ok_def)
  then show ?thesis by (simp add: demo_login_def)
qed

theorem stored_tokens_hashed_witness:
  "\<exists>it. mem_tokens demo_login (storeKey ''abc'') = Some it \<and> length (storeKey ''abc'') = 64"
proof -
  obtain it where "usable demo_login ''abc'' it" by (rule demo_login_usable)
  then have "mem_tokens demo_login (storeKey ''abc'') = Some it" by (simp add: usable_def)
  with stored_tokens_hashed [OF reachable_demo_login _ this] show ?thesis by blast
qed

text \<open>C13: the secondary index is exact in every reachable state: the keys recorded for a subject
  are, without repetition, the keys of the stored tokens of that subject, and no empty entry is
  left behind.\<close>

theorem index_exact:
  assumes "reachable ms w"
    and "\<forall>m \<in> ms. \<exists>cf az. m = memory_manager cf az \<or> m = legacy_manager cf az"
  shows "mem_indexes w key \<noteq> Some [] \<and> distinct (index_members key w)
    \<and> set (index_members key w) = {k. \<exists>it. mem_tokens w k = Some it
         \<and> LoginSubject_Normalize (TokenState_Subject (ti_state it)) = key}"
proof -
  have inv: "mem_inv w" by (rule mem_safe_inv [OF reachable_mem_safe [OF assms]])
  then show ?thesis
    using mem_inv_no_empty_index [OF inv] mem_inv_distinct [OF inv] mem_inv_members [OF inv]
    by (auto simp: subject_key_def)
qed

theorem index_exact_witness:
  "distinct (index_members \<lparr>sub_LoginID = ''alice'', sub_LoginType = ''login''\<rparr> demo_login)"
  using index_exact [OF reachable_demo_login] by blast

subsection \<open>Interleavings on the store\<close>

text \<open>C14: the methods of the store are atomic under its mutex, so concurrent clients produce some
  sequence of method calls. Whatever the sequence, the keys, the state, the index and the sessions
  of the store stay consistent.\<close>

theorem interleavings_consistent:
  "tokens_ok (snd (store_run calls (mem_NewStore e)))
   \<and> index_ok (snd (store_run calls (mem_NewStore e)))
   \<and> sessions_ok (snd (store_run calls (mem_NewStore e)))"
  using store_run_inv [OF mem_inv_NewStore [of e], of calls] by (simp add: mem_inv_def)

text \<open>C3: a token is spent at most once. In every interleaving of store calls from a consistent
  store in which nobody writes the key again, at most one call is handed the token as active by
  consuming it, whatever the number of consumers and whatever reads, deletions and searches lie in
  between.\<close>

theorem consumed_at_most_once:
  assumes "mem_inv w" and "\<forall>call \<in> set calls. \<not> writes_key k call"
  shows "length (filter (wins k) (fst (store_run calls w))) \<le> 1"
  using assms by (rule at_most_one_win)

theorem consumed_at_most_once_witness:
  "length (filter (wins (storeKey ''abc'')) (fst (store_run
     [SConsume None (storeKey ''abc''), SGet None (storeKey ''abc''), SConsume None (storeKey ''abc'')]
     demo_login))) \<le> 1"
proof -
  show ?thesis by (rule consumed_at_most_once [OF demo_login_inv]) simp
qed

end
