(* ===== verification/Refresh_Effects.thy ===== *)
theory Refresh_Effects
  imports Nonce_Properties Store_Traces
begin

text \<open>
  The steps of the refresh flow as rules of the effect calculus: reading and claiming a refresh
  token, the new access token that a claim buys, the refresh state that follows it, and what a
  step that fails under a cancelled context leaves in place.
\<close>

subsection \<open>Refresh states\<close>

text \<open>A refresh token ready for use: usable, of the right kind, of a real subject, with its link.\<close>

definition usable_refresh :: "'x mem_scheme \<Rightarrow> TokenValue \<Rightarrow> tokenItem \<Rightarrow> RefreshInfo \<Rightarrow> bool" where
  "usable_refresh w r it info \<longleftrightarrow> usable w r it \<and> ts_Kind (ti_state it) = TokenKindRefresh
     \<and> ts_Refresh (ti_state it) = Some info \<and> ts_Nonce (ti_state it) = None
     \<and> TrimSpace (ts_LoginID (ti_state it)) \<noteq> []"

text \<open>The state that \<open>newRefreshState\<close> builds at an instant.\<close>

definition fresh_refresh :: "Config \<Rightarrow> TokenValue \<Rightarrow> TokenState \<Rightarrow> time \<Rightarrow> TokenState" where
  "fresh_refresh cf r access now =
     \<lparr>ts_Token = storeKey r, ts_Kind = TokenKindRefresh, ts_LoginID = ts_LoginID access,
      ts_LoginType = ts_LoginType access, ts_Device = ts_Device access, ts_CreatedAt = now,
      ts_LastActiveAt = now,
      ts_ExpiresAt = (let timeout = rc_Timeout (cf_Refresh (complete_config cf))
                      in if timeout > 0 then Some (Time_Add now timeout) else None),
      ts_Status = TokenStatusActive, ts_Metadata = cloneRawMessage (ts_Metadata access),
      ts_Refresh = Some (empty_RefreshInfo\<lparr>ri_AccessToken := ts_Token access\<rparr>),
      ts_Nonce = None, ts_Online = None\<rparr>"

lemma at_newRefreshState:
  assumes a: "run_at w0 ts ss es w"
    and ok: "\<And>n w'. run_at w0 ts ss es w' \<Longrightarrow> Q (fresh_refresh cf r access (env_clock w0 n)) w'"
  shows "wp (newRefreshState (memory_manager cf az) r access) Q E w"
  unfolding newRefreshState_def
  by (intro wp_bindI at_now [OF a]) (use ok in \<open>simp add: wp_ret fresh_refresh_def Let_def\<close>)

lemma fresh_refresh_sel [simp]:
  "ts_Token (fresh_refresh cf r s now) = storeKey r"
  "ts_Kind (fresh_refresh cf r s now) = TokenKindRefresh"
  "ts_LoginID (fresh_refresh cf r s now) = ts_LoginID s"
  "ts_LoginType (fresh_refresh cf r s now) = ts_LoginType s"
  "ts_Status (fresh_refresh cf r s now) = TokenStatusActive"
  "ts_Nonce (fresh_refresh cf r s now) = None"
  "ts_Refresh (fresh_refresh cf r s now) = Some (empty_RefreshInfo\<lparr>ri_AccessToken := ts_Token s\<rparr>)"
  "ts_ExpiresAt (fresh_refresh cf r s now) = (let t = rc_Timeout (cf_Refresh (complete_config cf))
     in if t > 0 then Some (Time_Add now t) else None)"
  by (simp_all add: fresh_refresh_def)

lemma fresh_refresh_ok:
  assumes "state_ok s" and "ts_LoginID s \<noteq> []" and "TrimSpace r \<noteq> []"
  shows "state_ok (fresh_refresh cf r s now)"
    and "state_ok ((fresh_refresh cf r s now)\<lparr>ts_Refresh := Some info\<rparr>)"
  using assms by (simp_all add: state_ok_def normal_state_def cloned_def fresh_refresh_def)

subsection \<open>Reading and claiming\<close>

lemma never_expires_live:
  assumes "ts k = Some it" and "never_expires w0 it"
  shows "live_item (env_clock w0 n) ts k = Some it" and "live_state (env_clock w0 n) ts k = Some (ti_state it)"
    and "\<not> IsExpired (ti_state it) (env_clock w0 n)"
  using assms by (simp_all add: live_state_def live_item_def never_expires_def tokenItem_isExpired_def)

lemma at_loadUsable:
  assumes a: "run_at w0 ts ss es w" and c: "cerr c E"
    and it: "ts (storeKey r) = Some it" and live: "never_expires w0 it"
    and s: "ts_Kind (ti_state it) = TokenKindRefresh" "ts_Status (ti_state it) = TokenStatusActive"
    and ok: "\<And>w'. run_at w0 ts ss es w' \<Longrightarrow> Q (ti_state it) w'"
  shows "wp (loadUsableRefreshToken (memory_manager cf az) c r) Q E w"
proof -
  note sok = run_at_state_ok [OF a it]
  note l = never_expires_live [where ts = ts and k = "storeKey r", OF it live]
  show ?thesis
    unfolding loadUsableRefreshToken_def Let_def memory_manager_sel mem_store_sel
  proof (intro wp_bindI at_Get [OF a c], goal_cases)
    case (1 n w')
    have v: "run_at w0 ts ss es w'" using 1 by (rule run_at_evicted_live) (rule l(2))
    show ?case
      unfolding l(2) option.case state_ok_Normalize [OF sok]
      by (simp add: s) (intro wp_bindI at_now [OF v], simp add: l(3) wp_ret ok)
  qed
qed

lemma at_claim:
  assumes a: "run_at w0 ts ss es w" and c: "cerr c E"
    and it: "ts (storeKey r) = Some it" and live: "never_expires w0 it"
    and s: "ts_Kind (ti_state it) = TokenKindRefresh" "ts_Status (ti_state it) = TokenStatusActive"
    and ok: "\<And>n w'. run_at w0 (ts(storeKey r \<mapsto> consumed_item it (env_clock w0 n))) ss es w' \<Longrightarrow>
      Q (ti_state it) w'"
  shows "wp (consumeUsableRefreshToken (memory_manager cf az) c r) Q E w"
proof -
  note sok = run_at_state_ok [OF a it]
  note l = never_expires_live [where ts = ts and k = "storeKey r", OF it live]
  show ?thesis
    unfolding consumeUsableRefreshToken_def Let_def consumeTokenState_def memory_manager_sel
      option.case mem_store_sel
  proof (rule wp_bindI, rule at_consume [OF a c], goal_cases)
    case 1
    show ?case by (simp add: TokenKindRefresh_def)
  next
    case (2 n w')
    note v = 2 [unfolded consumed_table_marked [OF l(1) s]]
    show ?case
      unfolding l(2) option.case state_ok_Normalize [OF sok]
      by (simp add: s) (intro wp_bindI at_now [OF v], simp add: l(3) wp_ret ok)
  qed
qed

text \<open>A spent refresh token is not read as usable, whatever the context and the clock.\<close>

lemma wp_load_spent:
  assumes inv: "mem_inv w" and sp: "spent (storeKey r) w"
  shows "wp (loadUsableRefreshToken (memory_manager cf az) c r) (\<lambda>_ _. False)
    (\<lambda>e w'. mem_inv w' \<and> (mem_tokens w' = mem_tokens w \<or> mem_tokens w' = (mem_tokens w)(storeKey r := None))) w"
proof -
  let ?k = "storeKey r"
  have ev: "evicted t ?k (mem_tokens w) = mem_tokens w \<or> evicted t ?k (mem_tokens w) = (mem_tokens w)(?k := None)" for t
    by (cases "live_item t (mem_tokens w) ?k") (auto simp: evicted_def fun_upd_idem dest: live_item_SomeD)
  have st: "ts_Status (TokenState_Normalize s) \<noteq> TokenStatusActive"
    if "live_state t (mem_tokens w) ?k = Some s" for t s
  proof -
    from live_state_D [OF that] obtain it where it: "mem_tokens w ?k = Some it" "ti_state it = s" by blast
    with mem_inv_item [OF inv it(1)] have "TokenState_Normalize s = s"
      by (auto simp: item_ok_def state_ok_Normalize)
    with it sp show ?thesis by (simp add: spent_def)
  qed
  show ?thesis
    unfolding loadUsableRefreshToken_def Let_def memory_manager_sel mem_store_sel
  proof (rule wp_bindI, rule wp_mem_GetTokenState [OF inv], goal_cases)
    case 1
    show ?case by (auto simp: on_cancel_def leaves_def)
  next
    case (2 n w')
    note d = leavesD [OF 2]
    show ?case
      using ev [of "env_clock w n"] st [of "env_clock w n"] d
      by (auto simp: wp_throw split: option.split)
  qed
qed

subsection \<open>The new access token\<close>

abbreviation refresh_config :: "Config \<Rightarrow> RefreshConfig" where
  "refresh_config cf \<equiv> cf_Refresh (complete_config cf)"

text \<open>The options of the inner login, and the tables that a claim may leave for it.\<close>

definition next_login :: "Config \<Rightarrow> refreshFlowOptions \<Rightarrow> TokenState \<Rightarrow> loginOptions" where
  "next_login cf fo s =
     \<lparr>lo_loginType = ts_LoginType s,
      lo_device = (if rf_device fo \<noteq> [] then rf_device fo else ts_Device s),
      lo_metadata = (if rf_metadata fo \<noteq> None \<and> rf_metadata fo \<noteq> Some []
                     then cloneRawMessage (rf_metadata fo) else cloneRawMessage (ts_Metadata s)),
      lo_nonce = [],
      lo_preserveRefresh = (if \<not> rc_RotateRefreshToken (refresh_config cf) then ts_Token s else [])\<rparr>"

definition old_access_gone :: "Config \<Rightarrow> RefreshInfo \<Rightarrow> (TokenValue \<Rightarrow> tokenItem option) \<Rightarrow>
    TokenValue \<Rightarrow> tokenItem option" where
  "old_access_gone cf info ts =
     (if rc_RevokeAccessTokenOnRefresh (refresh_config cf) \<and> ri_AccessToken info \<noteq> []
      then ts(ri_AccessToken info := None) else ts)"

definition login_leaves :: "'x env_scheme \<Rightarrow> Config \<Rightarrow> LoginSubject \<Rightarrow> TokenValue \<Rightarrow>
    (TokenValue \<Rightarrow> tokenItem option) \<Rightarrow> (TokenValue \<Rightarrow> tokenItem option) \<Rightarrow> bool" where
  "login_leaves w0 cf key keep ts ts' \<longleftrightarrow>
     (if cf_Concurrent cf then ts' = ts
      else replaces w0 (rc_RevokeRefreshOnLogout (refresh_config cf)) key keep ts ts')"

lemma login_leaves_entry: "login_leaves w0 cf key keep ts ts' \<Longrightarrow> ts' k = ts k \<or> ts' k = None"
  by (auto simp: login_leaves_def replaces_def split: if_splits)

definition next_ok :: "Config \<Rightarrow> TokenValue \<Rightarrow> TokenValue \<Rightarrow> RefreshInfo \<Rightarrow> bool" where
  "next_ok cf a nr info \<longleftrightarrow>
     (rc_RotateRefreshToken (refresh_config cf) \<longrightarrow> storeKey nr \<noteq> ri_AccessToken info)
   \<and> (rc_RevokeAccessTokenOnRefresh (refresh_config cf) \<longrightarrow> storeKey a \<noteq> ri_AccessToken info)"

lemma wp_validate_ok:
  "ts_Refresh s = Some info \<Longrightarrow> next_ok cf a nr info \<Longrightarrow> Q () w \<Longrightarrow>
   wp (validateNextAccessToken (memory_manager cf az) s a nr) Q E w"
  by (auto simp: validateNextAccessToken_def Let_def next_ok_def wp_simps)

lemma at_next_access:
  fixes s :: TokenState
  defines "key \<equiv> login_key (ts_LoginID s) (ts_LoginType s)"
  assumes a: "run_at w0 ts ss es w" and c: "cerr c E" and info: "ts_Refresh s = Some info"
    and ne: "TrimSpace (ts_LoginID s) \<noteq> []" "TrimSpace acc \<noteq> []"
    and next_ok: "next_ok cf acc (rf_nextRefreshToken fo) info"
    and ok: "\<And>ts' n n' ss' es' w'.
      login_leaves w0 cf key (lo_preserveRefresh (next_login cf fo s)) (old_access_gone cf info ts) ts' \<Longrightarrow>
      run_at w0 (ts'(storeKey acc \<mapsto> stored_item (access_state cf key (next_login cf fo s) acc (env_clock w0 n))
          (env_clock w0 n') (login_ttl cf))) ss' es' w' \<Longrightarrow>
      Q (access_state cf key (next_login cf fo s) acc (env_clock w0 n)) w'"
  shows "wp (next_access (memory_manager cf az) c s acc fo) Q E w"
proof -
  let ?m = "memory_manager cf az" and ?rc = "refresh_config cf"
  let ?lo = "next_login cf fo s"
  have login: "wp (login ?m c (ts_LoginID s) acc ?lo False) Q E v"
    if v: "run_at w0 (old_access_gone cf info ts) ss es' v" for v es'
  proof (rule at_login [OF v c ne], goal_cases)
    case (2 ts' n n' n'' w')
    have key': "login_key (ts_LoginID s) (lo_loginType ?lo) = key"
      by (simp add: key_def next_login_def)
    show ?case
      using 2(1) unfolding key' by (intro ok [OF _ 2(2) [unfolded key']]) (simp add: login_leaves_def)
  qed simp
  have gone: "wp (whenE (rc_RevokeAccessTokenOnRefresh ?rc \<and> ri_AccessToken info \<noteq> [])
      (bindE (mem_DeleteTokenState c (ri_AccessToken info)) (\<lambda>_. publish ?m c ev))) P E v"
    if v: "run_at w0 ts ss es v"
      and P: "\<And>es' v'. run_at w0 (old_access_gone cf info ts) ss es' v' \<Longrightarrow> P () v'" for v P ev
    using v P unfolding wp_whenE old_access_gone_def
    by (auto intro!: wp_bindI at_Delete [OF v c] at_publish)
  show ?thesis
    unfolding next_access_def Let_def memory_manager_sel mem_store_sel info option.case
      next_login_def [symmetric]
    by (intro wp_bindI wp_validate_ok [OF info next_ok]) (rule gone [OF a], rule login)
qed

end
