(* ===== verification/Digests.thy ===== *)
theory Digests
  imports Access_Properties
begin

text \<open>
  The store keys of the tokens that the demonstrations use, evaluated in the logic. They show that
  hypotheses that ask for tokens with different keys can be met.
\<close>

lemma storeKey_r1:
  "storeKey ''r1'' = ''82f3e9c695dc6b8d1b11818d5701919e286de8d47f7c3eb3100c485f79e57828''"
proof -
  let ?z = "hex_word ''00000000''"
  let ?ws = "[hex_word ''72318000'', ?z, ?z, ?z, ?z, ?z, ?z, ?z, ?z, ?z, ?z, ?z, ?z, ?z, ?z,
    hex_word ''00000010'']"
  have "be_words (sha_pad ''r1'') = ?ws"
    by (simp add: sha_pad_eval)
  moreover have "sha_block sha_iv ?ws =
    (hex_word ''82f3e9c6'', hex_word ''95dc6b8d'', hex_word ''1b11818d'', hex_word ''5701919e'',
     hex_word ''286de8d4'', hex_word ''7f7c3eb3'', hex_word ''100c485f'', hex_word ''79e57828'')"
    by (simp only: sha_eval)
  ultimately have "Sum256 ''r1'' = sha_digest
    (hex_word ''82f3e9c6'', hex_word ''95dc6b8d'', hex_word ''1b11818d'', hex_word ''5701919e'',
     hex_word ''286de8d4'', hex_word ''7f7c3eb3'', hex_word ''100c485f'', hex_word ''79e57828'')"
    by (intro Sum256_one_block) simp_all
  moreover have "TrimSpace ''r1'' = ''r1''"
    by (rule TrimSpace_graphic; simp add: graphic_def)
  ultimately show ?thesis by (simp add: storeKey_def hex_eval)
qed

lemma storeKey_a2:
  "storeKey ''a2'' = ''2c3a4249d77070058649dbd822dcaf7957586fce428cfb2ca88b94741eda8b07''"
proof -
  let ?z = "hex_word ''00000000''"
  let ?ws = "[hex_word ''61328000'', ?z, ?z, ?z, ?z, ?z, ?z, ?z, ?z, ?z, ?z, ?z, ?z, ?z, ?z,
    hex_word ''00000010'']"
  have "be_words (sha_pad ''a2'') = ?ws"
    by (simp add: sha_pad_eval)
  moreover have "sha_block sha_iv ?ws =
    (hex_word ''2c3a4249'', hex_word ''d7707005'', hex_word ''8649dbd8'', hex_word ''22dcaf79'',
     hex_word ''57586fce'', hex_word ''428cfb2c'', hex_word ''a88b9474'', hex_word ''1eda8b07'')"
    by (simp only: sha_eval)
  ultimately have "Sum256 ''a2'' = sha_digest
    (hex_word ''2c3a4249'', hex_word ''d7707005'', hex_word ''8649dbd8'', hex_word ''22dcaf79'',
     hex_word ''57586fce'', hex_word ''428cfb2c'', hex_word ''a88b9474'', hex_word ''1eda8b07'')"
    by (intro Sum256_one_block) simp_all
  moreover have "TrimSpace ''a2'' = ''a2''"
    by (rule TrimSpace_graphic; simp add: graphic_def)
  ultimately show ?thesis by (simp add: storeKey_def hex_eval)
qed

lemma storeKey_r2:
  "storeKey ''r2'' = ''db77fd01af957221a4989b64b3770a83a3c56068405b9f0e9408feae57fd17e4''"
proof -
  let ?z = "hex_word ''00000000''"
  let ?ws = "[hex_word ''72328000'', ?z, ?z, ?z, ?z, ?z, ?z, ?z, ?z, ?z, ?z, ?z, ?z, ?z, ?z,
    hex_word ''00000010'']"
  have "be_words (sha_pad ''r2'') = ?ws"
    by (simp add: sha_pad_eval)
  moreover have "sha_block sha_iv ?ws =
    (hex_word ''db77fd01'', hex_word ''af957221'', hex_word ''a4989b64'', hex_word ''b3770a83'',
     hex_word ''a3c56068'', hex_word ''405b9f0e'', hex_word ''9408feae'', hex_word ''57fd17e4'')"
    by (simp only: sha_eval)
  ultimately have "Sum256 ''r2'' = sha_digest
    (hex_word ''db77fd01'', hex_word ''af957221'', hex_word ''a4989b64'', hex_word ''b3770a83'',
     hex_word ''a3c56068'', hex_word ''405b9f0e'', hex_word ''9408feae'', hex_word ''57fd17e4'')"
    by (intro Sum256_one_block) simp_all
  moreover have "TrimSpace ''r2'' = ''r2''"
    by (rule TrimSpace_graphic; simp add: graphic_def)
  ultimately show ?thesis by (simp add: storeKey_def hex_eval)
qed

lemma storeKey_abc:
  "storeKey ''abc'' = ''ba7816bf8f01cfea414140de5dae2223b00361a396177a9cb410ff61f20015ad''"
  using Sum256_abc by (simp add: storeKey_def)

lemmas storeKey_demo = storeKey_abc storeKey_r1 storeKey_a2 storeKey_r2

lemma demo_keys_differ:
  "storeKey ''abc'' \<noteq> storeKey ''r1''" "storeKey ''a2'' \<noteq> storeKey ''r1''" "storeKey ''a2'' \<noteq> storeKey ''abc''"
  "storeKey ''r2'' \<noteq> storeKey ''r1''" "storeKey ''r2'' \<noteq> storeKey ''a2''" "storeKey ''r2'' \<noteq> storeKey ''abc''"
  by (simp_all add: storeKey_demo)

end
