(* ===== verification/Refresh_Properties.thy ===== *)
theory Refresh_Properties
  imports Refresh_Effects Digests
begin

text \<open>
  What the refresh flow promises a client: rotation spends the old refresh token and hands out a
  linked pair, a spent refresh token buys nothing, reuse keeps the refresh token, and a refresh
  that fails half-way gives a reusable token back.
\<close>

subsection \<open>Lifetimes of refresh states\<close>

text \<open>The clock stays in a window of less than half the lifetime.\<close>

definition clock_within :: "'x env_scheme \<Rightarrow> duration \<Rightarrow> bool" where
  "clock_within w d \<longleftrightarrow> d \<le> 0
     \<or> d \<le> max_duration \<and> (\<forall>m n. 2 * (env_clock w m - env_clock w n) < d)"

lemma stored_item_expired_iff:
  assumes "state_ok s"
  shows "tokenItem_isExpired (stored_item s now ttl) t \<longleftrightarrow>
    IsExpired s t \<or> (0 < ttl \<and> Time_Add now ttl \<le> t)"
  using item_expired_iff [OF item_ok_new [OF assms, of now ttl]] EffectiveExpiresAt_expired_iff
  by (simp add: stored_item_def stored_state_id [OF assms])

lemma stored_remaining_lives:
  assumes ok: "state_ok s" and within: "clock_within w d"
    and ex: "ts_ExpiresAt s = (if d > 0 then Some (Time_Add (env_clock w a) d) else None)"
  shows "\<not> tokenItem_isExpired
    (stored_item s (env_clock w b) (remainingTTL (env_clock w n) s)) (env_clock w m)"
proof (cases "d > 0")
  case False
  with ex have "ts_ExpiresAt s = None" by simp
  then show ?thesis
    by (simp add: stored_item_expired_iff [OF ok] remainingTTL_def IsExpired_iff)
next
  case True
  let ?ttl = "remainingTTL (env_clock w n) s"
  have near: "2 * (env_clock w i - env_clock w j) < d" "d \<le> max_duration" for i j
    using within True by (auto simp: clock_within_def)
  have e: "ts_ExpiresAt s = Some (env_clock w a + d)" using ex True by (simp add: Time_Add_def)
  have pos: "env_clock w n < env_clock w a + d" using near(1) [of n a] True by arith
  have "?ttl = Time_Sub (env_clock w a + d) (env_clock w n)"
    using pos by (simp add: remainingTTL_def e Let_def Time_Sub_le_0_iff not_le)
  moreover have "env_clock w m - env_clock w b < max_duration"
    and "env_clock w m - env_clock w b < env_clock w a + d - env_clock w n"
    using near(1) [of m b] near(1) [of n a] near(2) True by arith+
  then have "env_clock w m < env_clock w b + Time_Sub (env_clock w a + d) (env_clock w n)"
    unfolding Time_Sub_def by (auto simp: max_def min_def split: if_splits)
  moreover have "env_clock w m < env_clock w a + d" using near(1) [of m a] True by arith
  moreover from this have "\<not> IsExpired s (env_clock w m)" by (simp add: IsExpired_iff e)
  ultimately show ?thesis by (simp add: stored_item_expired_iff [OF ok] Time_Add_def)
qed

subsection \<open>Up to the claim\<close>

definition claimed_item :: "tokenItem \<Rightarrow> tokenItem" where
  "claimed_item it = it\<lparr>ti_state := (ti_state it)\<lparr>ts_Status := TokenStatusConsumed\<rparr>\<rparr>"

lemma consumed_item_claimed: "ts_Nonce (ti_state it) = None \<Longrightarrow> consumed_item it t = claimed_item it"
  by (simp add: consumed_item_def claimed_item_def MarkConsumed_def Let_def)

lemma MarkConsumed_claimed: "ts_Nonce (ti_state it) = None \<Longrightarrow> MarkConsumed (ti_state it) t = ti_state (claimed_item it)"
  by (simp add: claimed_item_def MarkConsumed_def Let_def)

text \<open>Arguments that pass the guards, for distinct keys.\<close>

definition refresh_args :: "Config \<Rightarrow> TokenValue \<Rightarrow> TokenValue \<Rightarrow> TokenValue \<Rightarrow> bool" where
  "refresh_args cf r a nr \<longleftrightarrow> TrimSpace a \<noteq> [] \<and> storeKey a \<noteq> storeKey r
     \<and> (rc_RotateRefreshToken (refresh_config cf) \<longrightarrow>
          nr \<noteq> [] \<and> TrimSpace nr = nr \<and> storeKey nr \<noteq> storeKey r \<and> storeKey nr \<noteq> storeKey a)"

lemma storeKey_differ: "storeKey a \<noteq> storeKey b \<Longrightarrow> TrimSpace a \<noteq> TrimSpace b"
  by (auto simp: storeKey_def)

lemma usable_refreshD:
  assumes "mem_inv w" and "usable_refresh w r it info"
  shows "TrimSpace r \<noteq> []" "mem_tokens w (storeKey r) = Some it" "never_expires w it"
    "ts_Kind (ti_state it) = TokenKindRefresh" "ts_Status (ti_state it) = TokenStatusActive"
    "ts_Refresh (ti_state it) = Some info" "ts_Nonce (ti_state it) = None"
    "TrimSpace (ts_LoginID (ti_state it)) \<noteq> []" "state_ok (ti_state it)"
    "ts_Token (ti_state it) = storeKey r"
  using assms usable_state_ok [OF assms(1), of r it]
  by (auto simp: usable_refresh_def usable_def never_expires_def item_ok_def state_ok_def)

lemma wp_Refresh_claim:
  fixes opts :: "refreshFlowOptions go_option list"
  defines "fo \<equiv> option_Apply default_refreshFlowOptions opts"
  assumes inv: "mem_inv w" and u: "usable_refresh w r it info" and c: "healthy c"
    and args: "refresh_args cf r a (rf_nextRefreshToken fo)"
    and next_ok: "next_ok cf a (rf_nextRefreshToken fo) info"
    and body: "\<And>v. run_at w ((mem_tokens w)(storeKey r \<mapsto> claimed_item it)) (mem_sessions w) (published w) v \<Longrightarrow>
      wp (if rc_RotateRefreshToken (refresh_config cf)
          then refresh_body (memory_manager cf az) (normalizeContext c) (TrimSpace r) (TrimSpace a) fo
                 (ti_state it) (ti_state (claimed_item it))
          else restoring (memory_manager cf az) (normalizeContext c) (ti_state (claimed_item it)) (ti_state it)
                 (refresh_body (memory_manager cf az) (normalizeContext c) (TrimSpace r) (TrimSpace a) fo
                    (ti_state it) (ti_state (claimed_item it)))) Q E v"
  shows "wp (Refresh (memory_manager cf az) c r a opts) Q E w"
proof -
  note d = usable_refreshD [OF inv u]
  have c': "cerr (normalizeContext c) E" using c by simp
  have ne: "TrimSpace a \<noteq> []" "TrimSpace a \<noteq> TrimSpace r"
    using args by (auto simp: refresh_args_def dest: storeKey_differ)
  have rot: "rf_nextRefreshToken fo \<noteq> []" "rf_nextRefreshToken fo \<noteq> TrimSpace r"
      "TrimSpace a \<noteq> rf_nextRefreshToken fo" if "rc_RotateRefreshToken (refresh_config cf)"
    using args that by (auto simp: refresh_args_def dest: storeKey_differ)
  have guards: "(rc_RotateRefreshToken (refresh_config cf) \<and> rf_nextRefreshToken fo = []) = False"
      "(rc_RotateRefreshToken (refresh_config cf) \<and> rf_nextRefreshToken fo = TrimSpace r) = False"
      "(rc_RotateRefreshToken (refresh_config cf) \<and> TrimSpace a = rf_nextRefreshToken fo) = False"
      "(TrimSpace r = []) = False" "(TrimSpace a = []) = False" "(TrimSpace a = TrimSpace r) = False"
    using ne rot d(1) by blast+
  have nx: "next_ok cf (TrimSpace a) (rf_nextRefreshToken fo) info"
    using next_ok by (simp add: next_ok_def)
  note it = d(2) [folded storeKey_TrimSpace [of r]]
  show ?thesis
    unfolding Refresh_def Let_def memory_manager_sel fo_def [symmetric] guards if_False
  proof (rule wp_bindI, rule at_loadUsable [where ts = "mem_tokens w" and r = "TrimSpace r", OF at_start [OF inv] c' it d(3-5)], rule wp_bindI,
      rule wp_validate_ok [OF d(6) nx], rule wp_bindI, rule at_claim [where ts = "mem_tokens w" and r = "TrimSpace r", OF _ c' it d(3-5)],
      assumption, rule wp_bindI, rule at_now, assumption, goal_cases)
    case (1 v n v' n' v'')
    then show ?case
      unfolding consumed_item_claimed [OF d(7)] state_ok_Clone [OF d(9)] MarkConsumed_claimed [OF d(7)]
        storeKey_TrimSpace
      by (intro body)
  qed
qed

subsection \<open>Rotation\<close>

text \<open>The refresh state after a rotation: fresh, with the key it came from.\<close>

definition rotated_refresh :: "Config \<Rightarrow> TokenValue \<Rightarrow> TokenValue \<Rightarrow> TokenState \<Rightarrow> time \<Rightarrow> time \<Rightarrow> TokenState" where
  "rotated_refresh cf r nr access made used =
     (fresh_refresh cf nr access made)\<lparr>ts_Refresh := Some (empty_RefreshInfo
        \<lparr>ri_AccessToken := ts_Token access, ri_RotatedFrom := storeKey r, ri_LastUsedAt := Some used\<rparr>)\<rparr>"

lemma rotated_refresh_sel [simp]:
  "ts_Token (rotated_refresh cf r nr s made used) = storeKey nr"
  "ts_Kind (rotated_refresh cf r nr s made used) = TokenKindRefresh"
  "ts_Status (rotated_refresh cf r nr s made used) = TokenStatusActive"
  "ts_LoginID (rotated_refresh cf r nr s made used) = ts_LoginID s"
  "ts_Nonce (rotated_refresh cf r nr s made used) = None"
  "ts_Refresh (rotated_refresh cf r nr s made used) = Some (empty_RefreshInfo
     \<lparr>ri_AccessToken := ts_Token s, ri_RotatedFrom := storeKey r, ri_LastUsedAt := Some used\<rparr>)"
  "ts_ExpiresAt (rotated_refresh cf r nr s made used) = ts_ExpiresAt (fresh_refresh cf nr s made)"
  by (simp_all add: rotated_refresh_def del: fresh_refresh_sel(8))

lemma at_next_refresh_rotates:
  assumes a: "run_at w0 ts ss es w" and rotate: "rc_RotateRefreshToken (refresh_config cf)"
    and ok: "\<And>n w'. run_at w0 ts ss es w' \<Longrightarrow> Q (rotated_refresh cf r nr access (env_clock w0 n) used) w'"
  shows "wp (next_refresh (memory_manager cf az) r nr s access used) Q E w"
proof -
  have "wp (bindE (newRefreshState (memory_manager cf az) nr access) (\<lambda>fresh.
      ret (fresh\<lparr>ts_Refresh := map_option (\<lambda>i. i\<lparr>ri_RotatedFrom := storeKey r,
        ri_LastUsedAt := utcTimePtr used\<rparr>) (ts_Refresh fresh)\<rparr>))) Q E w"
    by (intro wp_bindI at_newRefreshState [OF a])
      (use ok in \<open>simp add: wp_ret rotated_refresh_def\<close>)
  with rotate show ?thesis by (simp add: next_refresh_def)
qed

lemma wp_Refresh_rotates:
  fixes opts :: "refreshFlowOptions go_option list" and it :: tokenItem
  defines "fo \<equiv> option_Apply default_refreshFlowOptions opts"
    and "key \<equiv> login_key (ts_LoginID (ti_state it)) (ts_LoginType (ti_state it))"
  assumes inv: "mem_inv w" and u: "usable_refresh w r it info" and c: "healthy c"
    and rotate: "rc_RotateRefreshToken (refresh_config cf)"
    and args: "refresh_args cf r a (rf_nextRefreshToken fo)"
    and next_ok: "next_ok cf a (rf_nextRefreshToken fo) info"
    and ok: "\<And>as rs ts' n n' made used b ss es w'.
      as = access_state cf key (next_login cf fo (ti_state it)) a (env_clock w n) \<Longrightarrow>
      rs = rotated_refresh cf r (rf_nextRefreshToken fo) as (env_clock w made) (env_clock w used) \<Longrightarrow>
      login_leaves w cf key [] (old_access_gone cf info ((mem_tokens w)(storeKey r \<mapsto> claimed_item it))) ts' \<Longrightarrow>
      run_at w (ts'(storeKey a \<mapsto> stored_item as (env_clock w n') (login_ttl cf),
          storeKey (rf_nextRefreshToken fo) \<mapsto>
            stored_item rs (env_clock w b) (remainingTTL (env_clock w used) rs))) ss es w' \<Longrightarrow>
      state_ok as \<Longrightarrow> state_ok rs \<Longrightarrow>
      Q \<lparr>lr_TokenState = as\<lparr>ts_Token := TrimSpace a\<rparr>,
         lr_RefreshState = rs\<lparr>ts_Token := rf_nextRefreshToken fo\<rparr>\<rparr> w'"
  shows "wp (Refresh (memory_manager cf az) c r a opts) Q E w"
proof (rule wp_Refresh_claim [OF inv u c args [unfolded fo_def] next_ok [unfolded fo_def]],
    fold fo_def, unfold if_P [OF rotate], goal_cases)
  case (1 v)
  let ?m = "memory_manager cf az" and ?c = "normalizeContext c" and ?nr = "rf_nextRefreshToken fo"
  note d = usable_refreshD [OF inv u]
  have c': "cerr ?c E" for E :: "error \<Rightarrow> 'a mem_scheme \<Rightarrow> bool" using c by simp
  have a': "TrimSpace (TrimSpace a) \<noteq> []" and nr: "?nr \<noteq> []" "TrimSpace ?nr = ?nr"
    using args rotate by (simp_all add: refresh_args_def)
  have nx: "next_ok cf (TrimSpace a) ?nr info" using next_ok by (simp add: next_ok_def)
  have as: "access_state cf key lo (TrimSpace a) t = access_state cf key lo a t" for lo t
    by (simp add: access_state_def)
  have rt: "rotated_refresh cf (TrimSpace r) n s x y = rotated_refresh cf r n s x y" for n s x y
    by (simp add: rotated_refresh_def)
  have keep: "lo_preserveRefresh (next_login cf fo s) = []" for s
    using rotate by (simp add: next_login_def del: complete_config_sel)
  have saved: "wp (bindE (attempt (mem_SaveTokenState ?c (Some rs) (remainingTTL (env_clock w used) rs))) f) Q E x"
    if f: "f = (\<lambda>saved. case saved of
          Inl err \<Rightarrow> bindE (attempt (mem_DeleteTokenState ?c (ts_Token as))) (\<lambda>_. throw err)
        | Inr _ \<Rightarrow> bindE (publish ?m ?c (new_Event EventRefresh (ts_LoginID as) (ts_LoginType as) (ts_Token as)))
            (\<lambda>_. ret \<lparr>lr_TokenState = the (withPlaintextToken (Some as) (TrimSpace a)),
               lr_RefreshState = the (withPlaintextToken (Some rs) ?nr)\<rparr>))"
      and eqs: "as = access_state cf key (next_login cf fo (ti_state it)) a (env_clock w n)"
        "rs = rotated_refresh cf r ?nr as (env_clock w made) (env_clock w used)"
      and leaves: "login_leaves w cf key [] (old_access_gone cf info ((mem_tokens w)(storeKey r \<mapsto> claimed_item it))) ts'"
      and x: "run_at w (ts'(storeKey a \<mapsto> stored_item as (env_clock w n') (login_ttl cf))) ss es x"
    for f as rs made used n n' ts' ss es x
  proof -
    have sok: "state_ok as"
      unfolding eqs key_def by (rule access_state_ok [OF d(8)]) (use a' in simp)
    have rok: "state_ok rs"
      unfolding eqs(2) rotated_refresh_def
      by (rule fresh_refresh_ok(2) [OF sok]) (simp_all add: eqs(1) key_def d(8) nr)
    show ?thesis
      unfolding f
      apply (intro wp_bindI wp_attemptI at_Save [OF x c' state_ok_storable [OF rok]])
      apply (simp only: sum.case)
      apply (rule wp_bindI, rule at_publish, assumption, simp)
      apply (simp only: wp_ret withPlaintextToken_def option.map option.sel state_ok_Clone [OF sok]
          state_ok_Clone [OF rok] TrimSpace_idem nr(2))
      apply (rule ok [OF eqs leaves _ sok rok])
      apply (simp add: eqs(2))
      done
  qed
  show ?case
    unfolding refresh_body_def Let_def memory_manager_sel mem_store_sel if_P [OF rotate]
  proof (rule wp_bindI, rule at_next_access [OF 1 c' d(6,8) a' nx], rule wp_bindI, rule at_now,
      assumption, rule wp_bindI, rule at_next_refresh_rotates [OF _ rotate], assumption, goal_cases)
    case (1 ts' n n' ss' es' v' used x made y)
    then show ?case
      unfolding key_def [symmetric] as storeKey_TrimSpace keep rt
      by (intro saved [OF refl refl refl])
  qed
qed


text \<open>C15: rotation. Refreshing with a usable refresh token in rotating mode succeeds: the old
  refresh token is spent, the access token it was linked to is gone where the configuration revokes
  it, the new access token is usable, and the new refresh token is usable, linked to the new access
  token and marked with the one it came from. The caller gets both states with the tokens
  themselves in place of the hashes.\<close>

theorem Refresh_rotates:
  fixes opts :: "refreshFlowOptions go_option list"
  defines "nr \<equiv> rf_nextRefreshToken (option_Apply default_refreshFlowOptions opts)"
  assumes inv: "mem_inv w" and u: "usable_refresh w r it info" and c: "healthy c"
    and rotate: "rc_RotateRefreshToken (cf_Refresh (complete_config cf))"
    and args: "refresh_args cf r a nr" and next_ok: "next_ok cf a nr info"
    and life: "clock_below w (cf_Timeout cf)" "clock_within w (rc_Timeout (cf_Refresh (complete_config cf)))"
  shows "\<exists>res w' ita itn infon. Refresh (memory_manager cf az) c r a opts w = (Inr res, w')
    \<and> mem_inv w' \<and> spent (storeKey r) w'
    \<and> (rc_RevokeAccessTokenOnRefresh (cf_Refresh (complete_config cf)) \<and> ri_AccessToken info \<noteq> [] \<longrightarrow>
         mem_tokens w' (ri_AccessToken info) = None)
    \<and> usable w' a ita \<and> ts_Kind (ti_state ita) = TokenKindAccess
    \<and> ts_LoginID (ti_state ita) = TrimSpace (ts_LoginID (ti_state it))
    \<and> usable_refresh w' nr itn infon
    \<and> ri_AccessToken infon = storeKey a \<and> ri_RotatedFrom infon = storeKey r
    \<and> lr_TokenState res = (ti_state ita)\<lparr>ts_Token := TrimSpace a\<rparr>
    \<and> lr_RefreshState res = (ti_state itn)\<lparr>ts_Token := nr\<rparr>"
proof -
  let ?P = "\<lambda>res w'. \<exists>ita itn infon. mem_inv w' \<and> spent (storeKey r) w'
    \<and> (rc_RevokeAccessTokenOnRefresh (refresh_config cf) \<and> ri_AccessToken info \<noteq> [] \<longrightarrow>
         mem_tokens w' (ri_AccessToken info) = None)
    \<and> usable w' a ita \<and> ts_Kind (ti_state ita) = TokenKindAccess
    \<and> ts_LoginID (ti_state ita) = TrimSpace (ts_LoginID (ti_state it))
    \<and> usable_refresh w' nr itn infon
    \<and> ri_AccessToken infon = storeKey a \<and> ri_RotatedFrom infon = storeKey r
    \<and> lr_TokenState res = (ti_state ita)\<lparr>ts_Token := TrimSpace a\<rparr>
    \<and> lr_RefreshState res = (ti_state itn)\<lparr>ts_Token := nr\<rparr>"
  note d = usable_refreshD [OF inv u]
  have nr: "TrimSpace nr \<noteq> []" "storeKey nr \<noteq> storeKey r" "storeKey nr \<noteq> storeKey a"
    and a: "TrimSpace a \<noteq> []" "storeKey a \<noteq> storeKey r"
    using args rotate by (simp_all add: refresh_args_def)
  have link: "storeKey nr \<noteq> ri_AccessToken info"
    and link': "rc_RevokeAccessTokenOnRefresh (refresh_config cf) \<Longrightarrow> storeKey a \<noteq> ri_AccessToken info"
    using next_ok rotate by (simp_all add: next_ok_def)
  have "wp (Refresh (memory_manager cf az) c r a opts) ?P (\<lambda>_ _. False) w"
  proof (rule wp_Refresh_rotates [OF inv u c rotate args [unfolded nr_def] next_ok [unfolded nr_def]],
      fold nr_def, goal_cases)
    case (1 as rs ts' n n' made used b ss es w')
    let ?ts = "old_access_gone cf info ((mem_tokens w)(storeKey r \<mapsto> claimed_item it))"
    let ?ita = "stored_item as (env_clock w n') (login_ttl cf)"
    let ?itn = "stored_item rs (env_clock w b) (remainingTTL (env_clock w used) rs)"
    note w' = at_D [OF 1(4)] and entry = login_leaves_entry [OF 1(3)]
    have st: "ti_state ?ita = as" "ti_state ?itn = rs"
      using 1(5,6) by (simp_all add: stored_item_def stored_state_id)
    have "spent (storeKey r) w'"
      using entry [of "storeKey r"] nr(2) a(2) w'(3)
      by (auto simp: spent_def old_access_gone_def claimed_item_def TokenStatusActive_def
          TokenStatusConsumed_def split: if_splits)
    moreover have "mem_tokens w' (ri_AccessToken info) = None"
      if "rc_RevokeAccessTokenOnRefresh (refresh_config cf)" "ri_AccessToken info \<noteq> []"
      using entry [of "ri_AccessToken info"] link link' [OF that(1)] that w'(3)
      by (auto simp: old_access_gone_def)
    moreover have "\<not> tokenItem_isExpired ?ita (env_clock w m)" for m
      unfolding 1(1) by (rule login_stored_lives [OF d(8) a(1) life(1)])
    then have "usable w' a ?ita"
      unfolding usable_def st w' using nr(3) by (simp add: 1(1))
    moreover have "\<not> tokenItem_isExpired ?itn (env_clock w m)" for m
      by (rule stored_remaining_lives [OF 1(6) life(2), where a = made]) (simp add: 1(2) Let_def)
    then have "usable w' nr ?itn"
      unfolding usable_def st w' by (simp add: 1(2))
    then have "usable_refresh w' nr ?itn (empty_RefreshInfo
        \<lparr>ri_AccessToken := ts_Token as, ri_RotatedFrom := storeKey r, ri_LastUsedAt := Some (env_clock w used)\<rparr>)"
      unfolding usable_refresh_def st by (simp add: 1(1,2) d(8))
    ultimately show ?case
      using w' st 1(1) by (intro exI [of _ ?ita] exI [of _ ?itn] exI conjI) (assumption | simp)+
  qed
  then show ?thesis unfolding wp_succeeds by blast
qed


subsection \<open>Login with a refresh token\<close>

lemma LoginWithRefresh_links':
  assumes inv: "mem_inv w" and c: "healthy c"
    and ne: "TrimSpace i \<noteq> []" "TrimSpace a \<noteq> []" "TrimSpace r \<noteq> []" and keys: "storeKey a \<noteq> storeKey r"
    and nonce: "\<not> cf_RequireNonce cf"
    and life: "clock_below w (cf_Timeout cf)" "clock_within w (rc_Timeout (refresh_config cf))"
  shows "\<exists>res w' ita itr info. LoginWithRefresh (memory_manager cf az) c i a r opts w = (Inr res, w')
    \<and> mem_inv w' \<and> env_clock w' = env_clock w
    \<and> usable w' a ita \<and> ts_Kind (ti_state ita) = TokenKindAccess \<and> ts_LoginID (ti_state ita) = TrimSpace i
    \<and> usable_refresh w' r itr info \<and> ri_AccessToken info = storeKey a
    \<and> ts_LoginID (ti_state itr) = TrimSpace i
    \<and> lr_TokenState res = (ti_state ita)\<lparr>ts_Token := TrimSpace a\<rparr>
    \<and> lr_RefreshState res = (ti_state itr)\<lparr>ts_Token := TrimSpace r\<rparr>"
proof -
  let ?m = "memory_manager cf az" and ?c = "normalizeContext c"
  define lo where "lo = option_Apply default_loginOptions opts"
  define key where "key = login_key i (lo_loginType lo)"
  let ?P = "\<lambda>res w'. \<exists>ita itr info. mem_inv w' \<and> env_clock w' = env_clock w
    \<and> usable w' a ita \<and> ts_Kind (ti_state ita) = TokenKindAccess \<and> ts_LoginID (ti_state ita) = TrimSpace i
    \<and> usable_refresh w' r itr info \<and> ri_AccessToken info = storeKey a
    \<and> ts_LoginID (ti_state itr) = TrimSpace i
    \<and> lr_TokenState res = (ti_state ita)\<lparr>ts_Token := TrimSpace a\<rparr>
    \<and> lr_RefreshState res = (ti_state itr)\<lparr>ts_Token := TrimSpace r\<rparr>"
  have c': "cerr ?c E" for E :: "error \<Rightarrow> 'a mem_scheme \<Rightarrow> bool" using c by simp
  have r': "TrimSpace (TrimSpace r) \<noteq> []" using ne by simp
  have k': "storeKey a \<noteq> storeKey (TrimSpace r)" using keys by simp
  have fr: "fresh_refresh cf (TrimSpace r) s t = fresh_refresh cf r s t" for s t
    by (simp add: fresh_refresh_def)
  have fin: "?P \<lparr>lr_TokenState = as\<lparr>ts_Token := TrimSpace a\<rparr>, lr_RefreshState = rs\<lparr>ts_Token := TrimSpace r\<rparr>\<rparr> w'"
    if w': "run_at w (ts'(storeKey a \<mapsto> stored_item as (env_clock w n') (login_ttl cf),
          storeKey r \<mapsto> stored_item rs (env_clock w b) (remainingTTL (env_clock w used) rs))) ss es w'"
      and as: "as = access_state cf key lo a (env_clock w n)" and rs: "rs = fresh_refresh cf r as (env_clock w made)"
      and ok: "state_ok as" "state_ok rs" for as rs ts' n n' made used b ss es w'
  proof -
    let ?ita = "stored_item as (env_clock w n') (login_ttl cf)"
    let ?itr = "stored_item rs (env_clock w b) (remainingTTL (env_clock w used) rs)"
    note d = at_D [OF w']
    have st: "ti_state ?ita = as" "ti_state ?itr = rs"
      using ok by (simp_all add: stored_item_def stored_state_id)
    have "\<not> tokenItem_isExpired ?ita (env_clock w m)" for m
      unfolding as key_def by (rule login_stored_lives [OF ne(1,2) life(1)])
    then have 1: "usable w' a ?ita"
      unfolding usable_def st d using keys by (simp add: as)
    have "\<not> tokenItem_isExpired ?itr (env_clock w m)" for m
      by (rule stored_remaining_lives [OF ok(2) life(2), where a = made]) (simp add: rs Let_def)
    then have "usable w' r ?itr"
      unfolding usable_def st d by (simp add: rs)
    then have 2: "usable_refresh w' r ?itr (empty_RefreshInfo\<lparr>ri_AccessToken := storeKey a\<rparr>)"
      unfolding usable_refresh_def st using ne by (simp add: as rs key_def)
    show ?thesis
      using 1 2 d st by (intro exI [of _ ?ita] exI [of _ ?itr] exI conjI) (assumption | simp add: as rs key_def)+
  qed
  have "wp (LoginWithRefresh ?m c i a r opts) ?P (\<lambda>_ _. False) w"
    unfolding LoginWithRefresh_def Let_def if_not_P [OF r' [unfolded TrimSpace_idem]] if_not_P [OF k']
      memory_manager_sel mem_store_sel lo_def [symmetric] fr
  proof (rule wp_bindI, rule at_login [OF at_start [OF inv] c' ne(1,2)], simp add: nonce,
      fold key_def, rule wp_bindI, rule at_newRefreshState, assumption, unfold fr, rule wp_bindI, rule at_now,
      assumption, goal_cases)
    case (1 ts' n n' n'' x made y used z)
    have ok: "state_ok (access_state cf key lo a (env_clock w n))"
      unfolding key_def by (rule access_state_ok [OF ne(1,2)])
    have ok': "state_ok (fresh_refresh cf r (access_state cf key lo a (env_clock w n)) (env_clock w made))"
      by (rule fresh_refresh_ok(1) [OF ok]) (simp_all add: key_def ne)
    show ?case
      apply (intro wp_bindI wp_attemptI at_Save [OF 1(4) c' state_ok_storable [OF ok']])
      apply (simp only: sum.case)
      apply (rule wp_bindI, rule at_publish, assumption, simp)
      apply (simp only: wp_ret withPlaintextToken_def option.map option.sel state_ok_Clone [OF ok]
          state_ok_Clone [OF ok'] TrimSpace_idem)
      apply (rule fin [OF _ refl refl ok ok'])
      apply simp
      done
  qed
  then show ?thesis unfolding wp_succeeds by blast
qed


text \<open>C19: a login with a refresh token, for distinct store keys and where no nonce is demanded,
  succeeds and makes both tokens usable; the refresh state is of the same login ID and is linked to
  the new access token, and the caller gets both states with the tokens in place of the hashes.\<close>

theorem LoginWithRefresh_links:
  assumes "mem_inv w" and "healthy c"
    and "TrimSpace i \<noteq> []" "TrimSpace a \<noteq> []" "TrimSpace r \<noteq> []" and "storeKey a \<noteq> storeKey r"
    and "\<not> cf_RequireNonce cf" and "clock_below w (cf_Timeout cf)"
    and "clock_within w (rc_Timeout (cf_Refresh (complete_config cf)))"
  shows "\<exists>res w' ita itr info. LoginWithRefresh (memory_manager cf az) c i a r opts w = (Inr res, w')
    \<and> mem_inv w' \<and> env_clock w' = env_clock w
    \<and> usable w' a ita \<and> ts_Kind (ti_state ita) = TokenKindAccess \<and> ts_LoginID (ti_state ita) = TrimSpace i
    \<and> usable_refresh w' r itr info \<and> ri_AccessToken info = storeKey a
    \<and> ts_LoginID (ti_state itr) = TrimSpace i
    \<and> lr_TokenState res = (ti_state ita)\<lparr>ts_Token := TrimSpace a\<rparr>
    \<and> lr_RefreshState res = (ti_state itr)\<lparr>ts_Token := TrimSpace r\<rparr>"
  using assms by (rule LoginWithRefresh_links')

lemma DefaultConfig_refresh [simp]:
  "RefreshConfig_withDefaults DefaultRefreshConfig = DefaultRefreshConfig"
  "rc_RotateRefreshToken DefaultRefreshConfig" "rc_RevokeAccessTokenOnRefresh DefaultRefreshConfig"
  "rc_RevokeRefreshOnLogout DefaultRefreshConfig"
  "rc_Timeout DefaultRefreshConfig = DefaultRefreshTimeout"
  by (simp_all add: RefreshConfig_withDefaults_def DefaultRefreshConfig_def Let_def)

lemma clock_within_still: "env_clock w = (\<lambda>_. 0) \<Longrightarrow> d \<le> max_duration \<Longrightarrow> clock_within w d"
  by (auto simp: clock_within_def)

lemma DefaultRefreshTimeout_bound: "DefaultRefreshTimeout \<le> max_duration"
  by (simp add: DefaultRefreshTimeout_def max_duration_def Hour_def Minute_def Second_def)

lemma demo_trim_more [simp]: "TrimSpace ''a2'' = ''a2''" "TrimSpace ''r2'' = ''r2''"
  by (rule TrimSpace_graphic; simp add: graphic_def)+

theorem LoginWithRefresh_links_witness:
  "\<exists>res w' ita itr info. LoginWithRefresh (memory_manager DefaultConfig no_rbac) None ''alice'' ''abc'' ''r1'' [] demo
       = (Inr res, w') \<and> usable w' ''abc'' ita \<and> usable_refresh w' ''r1'' itr info"
proof -
  have "clock_within demo (rc_Timeout (cf_Refresh (complete_config DefaultConfig)))"
    by (intro clock_within_still) (simp_all add: DefaultRefreshTimeout_bound)
  from LoginWithRefresh_links [OF _ _ _ _ _ demo_keys_differ(1) _ _ this, of None "''alice''" no_rbac "[]"]
  show ?thesis by auto
qed

text \<open>The state that the demonstrations of refreshing start from.\<close>

definition demo_refresh :: mem where
  "demo_refresh = snd (LoginWithRefresh (memory_manager DefaultConfig no_rbac) None ''alice'' ''abc'' ''r1'' [] demo)"

lemma demo_refresh_usable:
  obtains it info where "mem_inv demo_refresh" and "usable_refresh demo_refresh ''r1'' it info"
    and "ri_AccessToken info = storeKey ''abc''" and "ts_LoginID (ti_state it) = ''alice''"
    and "env_clock demo_refresh = (\<lambda>_. 0)"
proof -
  have "clock_within demo (rc_Timeout (refresh_config DefaultConfig))"
    by (intro clock_within_still) (simp_all add: DefaultRefreshTimeout_bound)
  from LoginWithRefresh_links' [OF _ _ _ _ _ demo_keys_differ(1) _ _ this, of None "''alice''" no_rbac "[]"]
  show ?thesis by (auto simp: demo_refresh_def intro: that)
qed

theorem Refresh_rotates_witness:
  "\<exists>res w' ita itn infon. Refresh (memory_manager DefaultConfig no_rbac) None ''r1'' ''a2''
       [WithNextRefreshToken ''r2''] demo_refresh = (Inr res, w')
     \<and> spent (storeKey ''r1'') w' \<and> mem_tokens w' (storeKey ''abc'') = None
     \<and> usable w' ''a2'' ita \<and> usable_refresh w' ''r2'' itn infon"
proof -
  obtain it info where d: "mem_inv demo_refresh" "usable_refresh demo_refresh ''r1'' it info"
    "ri_AccessToken info = storeKey ''abc''" and clock: "env_clock demo_refresh = (\<lambda>_. 0)"
    by (rule demo_refresh_usable)
  have nr: "rf_nextRefreshToken (option_Apply default_refreshFlowOptions [WithNextRefreshToken ''r2'']) = ''r2''"
    by (simp add: WithNextRefreshToken_def)
  have "refresh_args DefaultConfig ''r1'' ''a2'' ''r2''" "next_ok DefaultConfig ''a2'' ''r2'' info"
    by (simp_all add: refresh_args_def next_ok_def d(3) demo_keys_differ)
  moreover have "clock_below demo_refresh (cf_Timeout DefaultConfig)"
    by (auto simp: clock_below_def clock Time_Add_def)
  moreover have "clock_within demo_refresh (rc_Timeout (cf_Refresh (complete_config DefaultConfig)))"
    by (intro clock_within_still clock) (simp add: DefaultRefreshTimeout_bound)
  ultimately obtain res w' ita itn infon where
    "Refresh (memory_manager DefaultConfig no_rbac) None ''r1'' ''a2'' [WithNextRefreshToken ''r2''] demo_refresh
       = (Inr res, w')" "spent (storeKey ''r1'') w'" "mem_tokens w' (ri_AccessToken info) = None"
    "usable w' ''a2'' ita" "usable_refresh w' ''r2'' itn infon"
    using Refresh_rotates [OF d(1,2), of None DefaultConfig "''a2''" "[WithNextRefreshToken ''r2'']" no_rbac,
      unfolded nr] d(3) by auto
  with d(3) show ?thesis by auto
qed

subsection \<open>Spent refresh tokens\<close>

lemma wp_Refresh_spent:
  assumes inv: "mem_inv w" and sp: "spent (storeKey r) w"
  shows "wp (Refresh (memory_manager cf az) c r a opts) (\<lambda>_ _. False)
    (\<lambda>_ w'. mem_inv w' \<and> (mem_tokens w' = mem_tokens w \<or> mem_tokens w' = (mem_tokens w)(storeKey r := None))) w"
proof -
  have sp': "spent (storeKey (TrimSpace r)) w" using sp by simp
  show ?thesis
    unfolding Refresh_def Let_def
    by (simp add: wp_simps inv) (intro impI wp_mono [OF wp_load_spent [OF inv sp']], auto)
qed

text \<open>C17: a spent refresh token buys nothing. While the store holds no active entry under the key
  of a refresh token (it was rotated, revoked or removed), refreshing with it fails whatever the
  configuration, the context and the clock do, and changes no entry but possibly evicting that very
  key.\<close>

theorem Refresh_spent_refused:
  assumes "mem_inv w" and "spent (storeKey r) w"
  shows "\<exists>e w'. Refresh (memory_manager cf az) c r a opts w = (Inl e, w') \<and> mem_inv w'
    \<and> spent (storeKey r) w' \<and> (\<forall>k. k \<noteq> storeKey r \<longrightarrow> mem_tokens w' k = mem_tokens w k)"
  using wp_Refresh_spent [OF assms, of cf az c a opts] assms(2) unfolding wp_fails
  by (auto simp: spent_def)

lemma consumption_spends:
  assumes inv: "mem_inv w" and c: "healthy c"
  shows "mem_inv (snd (mem_ConsumeTokenState c k w)) \<and> spent k (snd (mem_ConsumeTokenState c k w))"
proof -
  have "wp (mem_ConsumeTokenState c k) (\<lambda>_ w'. mem_inv w' \<and> spent k w') (\<lambda>_ _. False) w"
    unfolding mem_ConsumeTokenState_def
  proof (rule wp_mem_consumeTokenState [OF inv], simp add: c, goal_cases)
    case (1 n w')
    have "ts_Status (ti_state it) \<noteq> TokenStatusActive"
      if "consumed_table (env_clock w n) k [] (mem_tokens w) k = Some it" for it
      using that by (auto simp: consumed_table_def IsActive_def tokenItem_isExpired_def
          TokenStatusActive_def TokenStatusConsumed_def dest!: live_item_SomeD split: option.splits if_splits)
    with leavesD [OF 1] show ?case by (simp add: spent_def)
  qed
  then obtain x w' where "mem_ConsumeTokenState c k w = (Inr x, w')" "mem_inv w'" "spent k w'"
    unfolding wp_succeeds by blast
  then show ?thesis by simp
qed

theorem Refresh_spent_refused_witness:
  "\<exists>e w'. Refresh (memory_manager DefaultConfig no_rbac) None ''r1'' ''a2'' [WithNextRefreshToken ''r2'']
     (snd (mem_ConsumeTokenState None (storeKey ''r1'') demo_refresh)) = (Inl e, w')"
proof -
  obtain it info where "mem_inv demo_refresh" "usable_refresh demo_refresh ''r1'' it info"
    by (rule demo_refresh_usable)
  then show ?thesis
    using consumption_spends [of demo_refresh None "storeKey ''r1''"]
      Refresh_spent_refused [of "snd (mem_ConsumeTokenState None (storeKey ''r1'') demo_refresh)" "''r1''"
        DefaultConfig no_rbac None "''a2''" "[WithNextRefreshToken ''r2'']"]
    by auto
qed

end
