(* ===== verification/Refresh_Pinned.thy ===== *)
theory Refresh_Pinned
  imports Refresh_Properties
begin

text \<open>
  An entry that nobody may lose: while a claimed refresh token waits in the store, every step of
  the login that its claim buys keeps it in place, also the steps that a done context cuts off.
\<close>

subsection \<open>Pinned entries\<close>

definition pinned :: "'x mem_scheme \<Rightarrow> TokenValue \<Rightarrow> tokenItem \<Rightarrow> 'x mem_scheme \<Rightarrow> bool" where
  "pinned w0 k it w \<longleftrightarrow> mem_inv w \<and> env_clock w = env_clock w0 \<and> mem_tokens w k = Some it"

lemma pinnedD:
  assumes "pinned w0 k it w"
  shows "mem_inv w" "env_clock w = env_clock w0" "mem_tokens w k = Some it"
  using assms by (simp_all add: pinned_def)

lemma pinned_tick [simp]: "pinned w0 k it (tick w) = pinned w0 k it w"
  by (simp add: pinned_def)

lemma tick_stable_pinned: "tick_stable (pinned w0 k it)"
  by (simp add: tick_stable_def)

lemma keeps_pinnedI:
  assumes "\<And>w. mem_inv w \<Longrightarrow> env_clock w = env_clock w0 \<Longrightarrow> mem_tokens w k = Some it \<Longrightarrow>
    wp a (\<lambda>x w'. pinned w0 k it w' \<and> Q x) (\<lambda>_. pinned w0 k it) w"
  shows "keeps (pinned w0 k it) a Q"
  by (rule keeps_wp, rule assms) (simp_all add: pinned_def)

lemmas pinned_effect = pinned_def leaves_def same_env_def on_cancel_def drop_where_Some never_expires_def

lemma pinned_publish: "keeps (pinned w0 k it) (publish (memory_manager cf az) c ev) (\<lambda>_. True)"
proof (rule keeps_wp)
  fix w assume w: "pinned w0 k it w"
  then show "wp (publish (memory_manager cf az) c ev) (\<lambda>x w'. pinned w0 k it w' \<and> True) (\<lambda>_. pinned w0 k it) w"
    by (simp add: publish_def wp_simps m_now_def) (simp add: pinned_def)
qed

lemma pinned_now: "keeps (pinned w0 k it) (m_now m) (\<lambda>_. True)"
  unfolding m_now_def by (rule keeps_read_now [OF tick_stable_pinned])

lemma pinned_Delete: "j \<noteq> k \<Longrightarrow> keeps (pinned w0 k it) (mem_DeleteTokenState c j) (\<lambda>_. True)"
  by (intro keeps_pinnedI wp_mem_DeleteTokenState) (auto simp: pinned_effect)

lemma pinned_Save:
  "storable s \<Longrightarrow> ts_Token s \<noteq> k \<Longrightarrow> keeps (pinned w0 k it) (mem_SaveTokenState c (Some s) ttl) (\<lambda>_. True)"
  by (intro keeps_pinnedI wp_mem_SaveTokenState) (auto simp: pinned_effect)

lemma pinned_DeleteAll:
  "\<not> MatchKind (ts_Kind (ti_state it)) kinds \<Longrightarrow>
   keeps (pinned w0 k it) (mem_DeleteTokenStates c subject kinds) (\<lambda>_. True)"
  by (intro keeps_pinnedI wp_mem_DeleteTokenStates) (auto simp: pinned_effect)

lemma pinned_Find:
  "never_expires w0 it \<Longrightarrow> keeps (pinned w0 k it) (mem_FindTokenStates c subject kinds) (\<lambda>_. True)"
  by (intro keeps_pinnedI wp_mem_FindTokenStates) (auto simp: pinned_effect)

lemma pinned_EnsureSession:
  "\<not> LoginSubject_IsZero subject \<Longrightarrow> keeps (pinned w0 k it) (mem_EnsureSession c subject ttl) (\<lambda>_. True)"
  by (intro keeps_pinnedI wp_mem_EnsureSession) (auto simp: pinned_effect)

subsection \<open>The login keeps the claimed token\<close>

lemma pinned_delete_except:
  "keeps (pinned w0 k it) (delete_except (memory_manager cf az) c k states) (\<lambda>_. True)"
  by (induction states) (auto intro: keeps_ret keeps_bindE_True pinned_Delete split: option.split)

lemma pinned_revokeRefreshExcept:
  assumes "never_expires w0 it" and "k \<noteq> []"
  shows "keeps (pinned w0 k it) (revokeRefreshExcept (memory_manager cf az) c subject k) (\<lambda>_. True)"
  using assms unfolding revokeRefreshExcept_def memory_manager_sel mem_store_sel
  by (auto intro: keeps_ret keeps_bindE_True pinned_Find pinned_delete_except)

lemma pinned_login:
  assumes live: "never_expires w0 it" and k: "k \<noteq> []" "storeKey tok \<noteq> k"
    and kind: "ts_Kind (ti_state it) = TokenKindRefresh" and keep: "lo_preserveRefresh lo = k"
  shows "keeps (pinned w0 k it) (login (memory_manager cf az) c i tok lo False) (\<lambda>s. ts_Token s = storeKey tok)"
proof -
  let ?I = "pinned w0 k it" and ?m = "memory_manager cf az"
  define key where "key = login_key i (lo_loginType lo)"
  have key: "LoginSubject_Normalize \<lparr>sub_LoginID = TrimSpace i, sub_LoginType = lo_loginType lo\<rparr> = key"
    by (simp add: key_def login_key_def LoginSubject_Normalize_def)
  have nkey: "LoginSubject_Normalize key = key" by (simp add: key_def)
  have replace: "keeps ?I (replace_others ?m c' key (lo_preserveRefresh lo)) (\<lambda>_. True)" for c'
    unfolding replace_others_def memory_manager_sel mem_store_sel keep
    by (intro keeps_bindE_True pinned_DeleteAll pinned_revokeRefreshExcept [OF live k(1)] pinned_publish)
      (simp add: kind MatchKind_def TokenKindRefresh_def TokenKindAccess_def)
  have rest: "keeps ?I (bindE (mem_SaveTokenState c' (Some (access_state cf' key lo (TrimSpace tok) now)) ttl) (\<lambda>_.
      bindE (syncSessionTTL ?m c' key ttl) (\<lambda>_. bindE (publish ?m c' ev) (\<lambda>_.
      ret (TokenState_Clone (access_state cf' key lo (TrimSpace tok) now)))))) (\<lambda>s. ts_Token s = storeKey tok)"
    if ne: "TrimSpace i \<noteq> []" "TrimSpace tok \<noteq> []" for c' cf' now ttl ev
    unfolding syncSessionTTL_def Let_def memory_manager_sel option.case mem_store_sel nkey
    by (intro keeps_bindE [where R = "\<lambda>_. True"] pinned_Save pinned_EnsureSession pinned_publish keeps_ret)
      (use ne k in \<open>simp_all add: storable_def key_def\<close>)
  show ?thesis
    unfolding login_def Let_def memory_manager_sel mem_store_sel key whenE_False
      HOL.simp_thms(22) bindE_ret_left
    by (intro keeps_if keeps_throw keeps_bindE [where R = "\<lambda>_. True"] pinned_now keeps_whenE replace rest) auto
qed

end
