(* ===== verification/Refresh_Reuse.thy ===== *)
theory Refresh_Reuse
  imports Refresh_Pinned
begin

text \<open>
  The reusable mode of the refresh flow: the refresh token survives its use, linked to the new
  access token, and it survives a use that fails at any point, because the failure puts the claimed
  state back. Revocation ends it.
\<close>

subsection \<open>A failed refresh\<close>

lemma wp_keeps:
  "keeps I a R \<Longrightarrow> I w \<Longrightarrow> (\<And>x w'. I w' \<Longrightarrow> R x \<Longrightarrow> Q x w') \<Longrightarrow> (\<And>e w'. I w' \<Longrightarrow> E e w') \<Longrightarrow> wp a Q E w"
  using keeps_stateD [of I a R w] keeps_valueD [of I a R w]
  by (cases "a w") (auto simp: wp_def split: sum.split)

lemma claimed_item_sel [simp]:
  "ts_Kind (ti_state (claimed_item it)) = ts_Kind (ti_state it)"
  "ts_Token (ti_state (claimed_item it)) = ts_Token (ti_state it)"
  "ti_expiresAt (claimed_item it) = ti_expiresAt it"
  "never_expires w (claimed_item it) = never_expires w it"
  by (simp_all add: claimed_item_def never_expires_def tokenItem_isExpired_def IsExpired_iff)

lemma pinned_validate:
  "keeps (pinned w0 k it) (validateNextAccessToken (memory_manager cf az) s a nr) (\<lambda>_. True)"
  unfolding validateNextAccessToken_def Let_def
  by (intro keeps_if keeps_throw keeps_ret keeps_case_option) simp_all

text \<open>A guarded update either happens or leaves the entry.\<close>

lemma wp_update_pinned:
  assumes p: "pinned w0 k it w" and s: "storable s" and e: "ts_Token e = ts_Token s"
  shows "wp (updateTokenState (memory_manager cf az) c e s ttl) (\<lambda>_ _. True) (\<lambda>_. pinned w0 k it) w"
  unfolding updateTokenState_def memory_manager_sel option.case mem_store_sel
  by (rule wp_bindI, rule wp_mem_CompareAndSwapTokenState [OF pinnedD(1) [OF p] _ s e])
    (use p in \<open>auto simp: wp_simps pinned_effect\<close>)

definition reused_refresh :: "TokenState \<Rightarrow> RefreshInfo \<Rightarrow> TokenState \<Rightarrow> time \<Rightarrow> TokenState" where
  "reused_refresh s info access now =
     s\<lparr>ts_Refresh := Some (info\<lparr>ri_AccessToken := ts_Token access, ri_LastUsedAt := Some now\<rparr>),
       ts_Device := ts_Device access, ts_Metadata := cloneRawMessage (ts_Metadata access),
       ts_LastActiveAt := now\<rparr>"

lemma reused_refresh_subject [simp]:
  "TokenState_Subject (reused_refresh s info access now) = TokenState_Subject s"
  by (simp add: reused_refresh_def TokenState_Subject_def)

lemma next_refresh_reused:
  "\<not> rc_RotateRefreshToken (refresh_config cf) \<Longrightarrow> ts_Refresh s = Some info \<Longrightarrow>
   next_refresh (memory_manager cf az) r nr s access now = ret (reused_refresh s info access now)"
  by (simp add: next_refresh_def reused_refresh_def Touch_def Let_def)

lemma wp_publish_total: "(\<And>w'. Q () w') \<Longrightarrow> wp (publish (memory_manager cf az) c ev) Q E w"
  by (simp add: publish_def m_now_def wp_simps)

lemma wp_refresh_body_fails:
  assumes p: "pinned w0 (storeKey r) (claimed_item it) w" and live: "never_expires w0 it"
    and kind: "ts_Kind (ti_state it) = TokenKindRefresh" and info: "ts_Refresh (ti_state it) = Some info"
    and tok: "ts_Token (ti_state it) = storeKey r" "TrimSpace r \<noteq> []" and ok: "state_ok (ti_state it)"
    and reuse: "\<not> rc_RotateRefreshToken (refresh_config cf)"
    and keys: "storeKey a \<noteq> storeKey r" "ri_AccessToken info \<noteq> storeKey r"
  shows "wp (refresh_body (memory_manager cf az) c r' a fo (ti_state it) (ti_state (claimed_item it)))
    (\<lambda>_ _. True) (\<lambda>_. pinned w0 (storeKey r) (claimed_item it)) w"
proof -
  let ?m = "memory_manager cf az" and ?I = "pinned w0 (storeKey r) (claimed_item it)"
  have keep: "lo_preserveRefresh (next_login cf fo (ti_state it)) = storeKey r"
    using reuse tok by (simp add: next_login_def del: complete_config_sel)
  have access: "keeps ?I (next_access ?m c (ti_state it) a fo) (\<lambda>s. ts_Token s = storeKey a)"
    unfolding next_access_def Let_def memory_manager_sel mem_store_sel info option.case
      next_login_def [symmetric]
    by (intro keeps_bindE [where R = "\<lambda>_. True"] pinned_validate keeps_whenE pinned_Delete keys
        pinned_publish pinned_login)
      (simp_all add: live kind tok keys keep)
  have next_ok: "storable (reused_refresh (ti_state it) info s now)" for s now
    using ok kind by (auto simp: storable_def reused_refresh_def state_ok_def TokenKindRefresh_def TokenKindNonce_def)
  have rollback: "keeps ?I (attempt (mem_DeleteTokenState c (storeKey a))) (\<lambda>_. True)"
    by (intro keeps_attempt pinned_Delete keys)
  show ?thesis
    unfolding refresh_body_def Let_def memory_manager_sel mem_store_sel if_not_P [OF reuse]
      next_refresh_reused [OF reuse info] bindE_ret_left
  proof (rule wp_bindI, rule wp_keeps [OF access p], rule wp_bindI, rule wp_keeps [OF pinned_now],
      assumption, rule wp_bindI, rule wp_attemptI, goal_cases)
    case (1 s w1 now w2)
    show ?case
    proof (rule wp_mono [OF wp_update_pinned [OF 1(3) next_ok]], goal_cases)
      case (2 u w3)
      show ?case
        unfolding sum.case
        by (rule wp_bindI, rule wp_publish_total) (simp add: wp_ret)
    next
      case (3 e w3)
      then show ?case
        unfolding sum.case 1(2) by (intro wp_bindI wp_keeps [OF rollback]) (simp_all add: wp_throw)
    qed (simp add: reused_refresh_def)
  qed
qed


text \<open>Reading and claiming under any context: a failure leaves the token as it was.\<close>

lemma pinned_now_value: "keeps (pinned w0 k it) (m_now m) (\<lambda>t. \<exists>n. t = env_clock w0 n)"
  unfolding m_now_def by (rule keeps_wp) (auto simp: wp_simps pinned_def)

lemma pinned_load:
  assumes live: "never_expires w0 it"
    and s: "ts_Kind (ti_state it) = TokenKindRefresh" "ts_Status (ti_state it) = TokenStatusActive"
    and ok: "state_ok (ti_state it)"
  shows "keeps (pinned w0 (storeKey r) it) (loadUsableRefreshToken (memory_manager cf az) c r) (\<lambda>s. s = ti_state it)"
proof -
  let ?I = "pinned w0 (storeKey r) it"
  have get: "keeps ?I (mem_GetTokenState c (storeKey r)) (\<lambda>x. x = Some (ti_state it))"
  proof (rule keeps_pinnedI, rule wp_mem_GetTokenState, assumption, goal_cases)
    case (2 w n w')
    have "live_item (env_clock w n) (mem_tokens w) (storeKey r) = Some it"
      using 2(2,3) live by (simp add: live_item_def never_expires_def)
    with 2 show ?case
      by (auto simp: pinned_effect live_state_def evicted_def fun_upd_idem)
  qed (auto simp: pinned_effect)
  have "\<not> IsExpired (ti_state it) (env_clock w0 n)" for n
    using live by (simp add: never_expires_def tokenItem_isExpired_def)
  then show ?thesis
    unfolding loadUsableRefreshToken_def Let_def memory_manager_sel mem_store_sel
    by (intro keeps_bindE [OF get])
      (auto simp: state_ok_Normalize [OF ok] s intro!: keeps_bindE [OF pinned_now_value] keeps_ret)
qed

lemma wp_claim_pinned:
  assumes p: "pinned w0 (storeKey r) it w" and live: "never_expires w0 it"
    and s: "ts_Kind (ti_state it) = TokenKindRefresh" "ts_Status (ti_state it) = TokenStatusActive"
    and ok: "state_ok (ti_state it)" and nonce: "ts_Nonce (ti_state it) = None"
  shows "wp (consumeUsableRefreshToken (memory_manager cf az) c r)
    (\<lambda>x w'. x = ti_state it \<and> pinned w0 (storeKey r) (claimed_item it) w')
    (\<lambda>_. pinned w0 (storeKey r) it) w"
proof -
  have ex: "\<not> IsExpired (ti_state it) (env_clock w0 n)" for n
    using live by (simp add: never_expires_def tokenItem_isExpired_def)
  have kind: "TokenKindRefresh \<noteq> []" by (simp add: TokenKindRefresh_def)
  have li: "live_item (env_clock w n) (mem_tokens w) (storeKey r) = Some it" for n
    using pinnedD [OF p] live by (simp add: live_item_def never_expires_def)
  show ?thesis
    unfolding consumeUsableRefreshToken_def Let_def consumeTokenState_def memory_manager_sel
      option.case mem_store_sel mem_ConsumeTokenStateOfKind_nonempty [OF kind]
  proof (rule wp_bindI, rule wp_mem_consumeTokenState [OF pinnedD(1) [OF p]], goal_cases)
    case 1
    show ?case using p by (auto simp: pinned_effect)
  next
    case (2 n w')
    note v = leavesD(3) [OF 2, unfolded consumed_table_marked [OF li s] consumed_item_claimed [OF nonce]]
    have "pinned w0 (storeKey r) (claimed_item it) w'"
      unfolding pinned_def v using leavesD(1,2) [OF 2] pinnedD(2) [OF p] by (simp add: same_env_def)
    then show ?case
      using ex s by (simp add: live_state_def li state_ok_Normalize [OF ok] wp_simps m_now_def pinnedD(2))
  qed
qed

lemma wp_restoring:
  assumes "wp body Q P w"
    and "\<And>e v. P e v \<Longrightarrow> wp (bindE (m_now m) (\<lambda>now. bindE (attempt (updateTokenState m (cleanup_context c)
      expected original (remainingTTL now original))) (\<lambda>cleanup. case cleanup of Inr _ \<Rightarrow> throw e
      | Inl ce \<Rightarrow> throw (ErrJoin e (ErrWrap ''restore refresh token'' ce))))) Q E v"
  shows "wp (restoring m c expected original body) Q E w"
  unfolding restoring_def
  by (intro wp_bindI wp_attemptI wp_mono [OF assms(1)]) (auto simp: wp_ret intro: assms(2))

lemma wp_put_back:
  assumes p: "pinned w0 (storeKey r) (claimed_item it) w" and live: "never_expires w0 it"
    and tok: "ts_Token (ti_state it) = storeKey r" and ok: "state_ok (ti_state it)" and c: "healthy c"
  shows "wp (updateTokenState (memory_manager cf az) c (ti_state (claimed_item it)) (ti_state it) ttl)
    (\<lambda>_ w'. mem_inv w' \<and> (\<exists>it'. mem_tokens w' (storeKey r) = Some it' \<and> ti_state it' = ti_state it))
    (\<lambda>_ _. False) w"
proof (rule at_update [OF at_start [OF pinnedD(1) [OF p]] _ ok], goal_cases)
  case (3 n)
  have "never_expires w (claimed_item it)"
    using live pinnedD(2) [OF p] by (simp only: claimed_item_sel(4)) (simp add: never_expires_def)
  from never_expires_live(2) [where ts = "mem_tokens w" and k = "storeKey r", OF pinnedD(3) [OF p] this]
  show ?case by (simp add: tok)
next
  case (4 n w')
  then show ?case
    using at_D [OF 4] by (auto simp: tok stored_item_def stored_state_id [OF ok])
qed (simp_all add: c)


lemma wp_now_pinned:
  "pinned w0 k it w \<Longrightarrow> (\<And>t v. pinned w0 k it v \<Longrightarrow> Q t v) \<Longrightarrow> wp (m_now m) Q E w"
  by (simp add: m_now_def wp_simps)

lemma wp_guard: "E e w \<Longrightarrow> wp m Q E w \<Longrightarrow> wp (if b then throw e else m) Q E w"
  by (simp add: wp_throw)

text \<open>C16: a failed refresh does not burn a reusable refresh token. In reusable mode, whenever
  \<open>Refresh\<close> fails on a usable refresh token (because of its arguments, a context that is done at
  any point, or the store), the state of the token in the store is again what it was, active and
  with its link, provided that the clean-up context of the deferred function is not done.\<close>

theorem Refresh_failure_restores:
  assumes inv: "mem_inv w" and u: "usable_refresh w r it info"
    and reuse: "\<not> rc_RotateRefreshToken (cf_Refresh (complete_config cf))"
    and cleanup: "healthy (cleanup_context (normalizeContext c))"
    and keys: "storeKey a \<noteq> storeKey r" "ri_AccessToken info \<noteq> storeKey r"
  shows "case Refresh (memory_manager cf az) c r a opts w of
      (Inl e, w') \<Rightarrow> mem_inv w' \<and>
        (\<exists>it'. mem_tokens w' (storeKey r) = Some it' \<and> ti_state it' = ti_state it)
    | (Inr res, w') \<Rightarrow> True"
proof -
  let ?m = "memory_manager cf az" and ?c = "normalizeContext c"
  let ?E = "\<lambda>e w'. mem_inv w' \<and> (\<exists>it'. mem_tokens w' (storeKey r) = Some it' \<and> ti_state it' = ti_state it)"
  let ?fo = "option_Apply default_refreshFlowOptions opts"
  note d = usable_refreshD [OF inv u]
  have start: "pinned w (storeKey (TrimSpace r)) it w" using inv d(2) by (simp add: pinned_def)
  have E: "?E e v" if "pinned w (storeKey (TrimSpace r)) it v" for e :: error and v
    using that by (auto simp: pinned_def)
  have keys': "storeKey (TrimSpace a) \<noteq> storeKey (TrimSpace r)" "ri_AccessToken info \<noteq> storeKey (TrimSpace r)"
    using keys by simp_all
  have tok': "ts_Token (ti_state it) = storeKey (TrimSpace r)" "TrimSpace (TrimSpace r) \<noteq> []"
    using d by simp_all
  have restored: "wp (restoring ?m ?c (ti_state (claimed_item it)) (ti_state it)
      (refresh_body ?m ?c (TrimSpace r) (TrimSpace a) ?fo (ti_state it) (ti_state (claimed_item it))))
      (\<lambda>_ _. True) ?E v"
    if v: "pinned w (storeKey (TrimSpace r)) (claimed_item it) v" for v
  proof (rule wp_restoring [OF wp_refresh_body_fails [OF v d(3,4,6) tok' d(9) reuse keys']], goal_cases)
    case (1 e v')
    show ?case
      by (rule wp_bindI, rule wp_now_pinned [OF 1], rule wp_bindI, rule wp_attemptI,
          rule wp_mono [OF wp_put_back [OF _ d(3) tok'(1) d(9) cleanup]], assumption)
        (simp_all add: wp_throw)
  qed
  have "wp (Refresh ?m c r a opts) (\<lambda>_ _. True) ?E w"
    unfolding Refresh_def Let_def memory_manager_sel if_not_P [OF reuse]
  proof (intro wp_guard E [OF start], rule wp_bindI, rule wp_keeps [OF pinned_load [OF d(3-5,9)] start],
      rule wp_bindI, rule wp_keeps [OF pinned_validate], assumption, rule wp_bindI, goal_cases)
    case (1 s v1 u v2)
    show ?case
      by (rule wp_mono [OF wp_claim_pinned [OF 1(3) d(3-5,9,7)]], rule wp_bindI, erule conjE,
          rule wp_now_pinned, assumption)
        (simp_all add: restored E MarkConsumed_claimed d(7) state_ok_Clone d(9))
  qed (rule E, assumption)+
  then show ?thesis by (simp add: wp_def)
qed


text \<open>A configuration with reusable refresh tokens, and a context that is done from the \<open>k\<close>-th
  observation on.\<close>

definition reuse_config :: Config where
  "reuse_config = DefaultConfig\<lparr>cf_Refresh := DefaultRefreshConfig\<lparr>rc_RotateRefreshToken := False\<rparr>\<rparr>"

definition cancelled_from :: "nat \<Rightarrow> ctx" where
  "cancelled_from k = Some \<lparr>gc_done = (\<lambda>n. if k \<le> n then Some Canceled else None),
     gc_cleanup = (\<lambda>_. None), gc_auth = None\<rparr>"

lemma reuse_config_sel [simp]:
  "cf_Refresh reuse_config = DefaultRefreshConfig\<lparr>rc_RotateRefreshToken := False\<rparr>"
  "RefreshConfig_withDefaults (DefaultRefreshConfig\<lparr>rc_RotateRefreshToken := False\<rparr>) =
     DefaultRefreshConfig\<lparr>rc_RotateRefreshToken := False\<rparr>"
  "cf_Timeout reuse_config = cf_Timeout DefaultConfig" "cf_Concurrent reuse_config"
  by (simp_all add: reuse_config_def RefreshConfig_withDefaults_def DefaultRefreshConfig_def
      DefaultRefreshTimeout_def Hour_def Minute_def Second_def Let_def)

theorem Refresh_failure_restores_witness:
  "\<forall>k. case Refresh (memory_manager reuse_config no_rbac) (cancelled_from k) ''r1'' ''a2'' [] demo_refresh of
      (Inl e, w') \<Rightarrow> \<exists>it'. mem_tokens w' (storeKey ''r1'') = Some it' \<and> ts_Status (ti_state it') = TokenStatusActive
    | (Inr res, w') \<Rightarrow> True"
proof
  fix k
  obtain it info where d: "mem_inv demo_refresh" "usable_refresh demo_refresh ''r1'' it info"
    "ri_AccessToken info = storeKey ''abc''" by (rule demo_refresh_usable)
  have "\<not> rc_RotateRefreshToken (cf_Refresh (complete_config reuse_config))" by simp
  moreover have "healthy (cleanup_context (normalizeContext (cancelled_from k)))"
    by (simp add: cancelled_from_def normalizeContext_def cleanup_context_def healthy_def)
  moreover have "storeKey ''a2'' \<noteq> storeKey ''r1''" "ri_AccessToken info \<noteq> storeKey ''r1''"
    by (simp_all add: d(3) demo_keys_differ)
  moreover note Refresh_failure_restores [OF d(1,2), of reuse_config "cancelled_from k" "''a2''" no_rbac "[]"]
  moreover have "ts_Status (ti_state it) = TokenStatusActive" by (rule usable_refreshD(5) [OF d(1,2)])
  ultimately show "case Refresh (memory_manager reuse_config no_rbac) (cancelled_from k) ''r1'' ''a2'' [] demo_refresh of
      (Inl e, w') \<Rightarrow> \<exists>it'. mem_tokens w' (storeKey ''r1'') = Some it' \<and> ts_Status (ti_state it') = TokenStatusActive
    | (Inr res, w') \<Rightarrow> True"
    by (auto split: prod.splits sum.splits)
qed

subsection \<open>Revocation\<close>

lemma MarkRevoked_ok: "state_ok s \<Longrightarrow> state_ok (MarkRevoked s t)"
  by (simp add: state_ok_def normal_state_def cloned_def TokenStatusRevoked_def)

text \<open>C20: revoking a usable refresh token succeeds: its state is kept as revoked, so that the token
  is spent, and no other token and no session changes. The event names the subject and the key of
  the linked access token.\<close>

theorem RevokeRefreshToken_spends:
  assumes inv: "mem_inv w" and u: "usable_refresh w r it info" and c: "healthy c"
  shows "\<exists>it' w'. RevokeRefreshToken (memory_manager cf az) c r w = (Inr (), w') \<and> mem_inv w'
    \<and> mem_tokens w' = (mem_tokens w)(storeKey r \<mapsto> it') \<and> mem_sessions w' = mem_sessions w
    \<and> IsRevoked (ti_state it') \<and> spent (storeKey r) w'
    \<and> published w' = published w @ [new_Event EventRefreshRevoked (ts_LoginID (ti_state it))
         (ts_LoginType (ti_state it)) (ri_AccessToken info)]"
proof -
  note d = usable_refreshD [OF inv u]
  have c': "cerr (normalizeContext c) E" for E :: "error \<Rightarrow> 'a mem_scheme \<Rightarrow> bool" using c by simp
  note l = never_expires_live [where ts = "mem_tokens w" and k = "storeKey r", OF d(2,3)]
  have "wp (RevokeRefreshToken (memory_manager cf az) c r)
    (\<lambda>_ w'. \<exists>t t' ttl. run_at w ((mem_tokens w)(storeKey r \<mapsto> stored_item (MarkRevoked (ti_state it) t) t' ttl))
      (mem_sessions w) (published w @ [new_Event EventRefreshRevoked (ts_LoginID (ti_state it))
         (ts_LoginType (ti_state it)) (ri_AccessToken info)]) w') (\<lambda>_ _. False) w"
    unfolding RevokeRefreshToken_def Let_def if_not_P [OF d(1)] memory_manager_sel mem_store_sel storeKey_TrimSpace
  proof (rule wp_bindI, rule at_Get [OF at_start [OF inv] c'], goal_cases)
    case (1 n v)
    have v: "run_at w (mem_tokens w) (mem_sessions w) (published w) v"
      using 1 by (rule run_at_evicted_live) (rule l(2))
    show ?case
      unfolding l(2) option.case state_ok_Normalize [OF d(9)] d(6) state_ok_Clone [OF d(9)]
      apply (simp only: d(4) simp_thms if_False)
      apply (intro wp_bindI at_now [OF v])
      apply (rule at_now, assumption)
      apply (intro wp_bindI)
      apply (rule at_update [OF _ c' MarkRevoked_ok [OF d(9)]], assumption, simp)
       apply (simp add: d(10) l(2))
      apply (rule at_publish, assumption, simp)
      apply (simp add: d(10))
      apply blast
      done
  qed
  then obtain w' t t' ttl where "RevokeRefreshToken (memory_manager cf az) c r w = (Inr (), w')"
    and w': "run_at w ((mem_tokens w)(storeKey r \<mapsto> stored_item (MarkRevoked (ti_state it) t) t' ttl))
      (mem_sessions w) (published w @ [new_Event EventRefreshRevoked (ts_LoginID (ti_state it))
         (ts_LoginType (ti_state it)) (ri_AccessToken info)]) w'"
    unfolding wp_succeeds_unit by blast
  moreover have "ti_state (stored_item (MarkRevoked (ti_state it) t) t' ttl) = MarkRevoked (ti_state it) t"
    by (simp add: stored_item_def stored_state_id [OF MarkRevoked_ok [OF d(9)]])
  ultimately show ?thesis
    using at_D [OF w']
    by (intro exI [of _ "stored_item (MarkRevoked (ti_state it) t) t' ttl"] exI [of _ w'])
      (simp add: spent_def IsRevoked_def TokenStatusRevoked_def TokenStatusActive_def)
qed

theorem RevokeRefreshToken_spends_witness:
  "\<exists>w'. RevokeRefreshToken (memory_manager DefaultConfig no_rbac) None ''r1'' demo_refresh = (Inr (), w')
     \<and> spent (storeKey ''r1'') w'"
proof -
  obtain it info where "mem_inv demo_refresh" "usable_refresh demo_refresh ''r1'' it info"
    by (rule demo_refresh_usable)
  from RevokeRefreshToken_spends [OF this, of None DefaultConfig no_rbac] show ?thesis by auto
qed


subsection \<open>A successful reuse\<close>

lemma claimed_stays:
  assumes live: "never_expires w it" and kind: "ts_Kind (ti_state it) = TokenKindRefresh"
    and link: "ri_AccessToken info \<noteq> k" and keep: "k \<noteq> []"
    and leaves: "login_leaves w cf key k (old_access_gone cf info (ts(k \<mapsto> claimed_item it))) ts'"
  shows "ts' k = Some (claimed_item it)"
proof -
  have at_k: "old_access_gone cf info (ts(k \<mapsto> claimed_item it)) k = Some (claimed_item it)"
    using link by (simp add: old_access_gone_def)
  have "\<forall>n. \<not> tokenItem_isExpired (claimed_item it) (env_clock w n)"
    using live claimed_item_sel(4) [of w it] by (simp add: never_expires_def)
  moreover have "ts_Kind (ti_state (claimed_item it)) \<noteq> TokenKindAccess"
    using kind by (simp add: TokenKindRefresh_def TokenKindAccess_def)
  moreover have "replaces w rv key k ts1 ts' \<Longrightarrow> ts1 k = Some x \<Longrightarrow> \<forall>n. \<not> tokenItem_isExpired x (env_clock w n) \<Longrightarrow>
      ts_Kind (ti_state x) \<noteq> TokenKindAccess \<Longrightarrow> ts' k = Some x" for rv ts1 x
    using keep unfolding replaces_def by blast
  ultimately show ?thesis
    using leaves at_k by (simp only: login_leaves_def split: if_splits)
qed

text \<open>C18: reuse. Refreshing with a usable refresh token in reusable mode succeeds, while the context
  is not done and the clock stays within the timeout of the access token: the new access
  token is usable, for the subject of the refresh token, and the access token that the refresh token
  was linked to is gone where the configuration revokes it. Its device and metadata are those of the
  options, or else those of the refresh token. The refresh token is active again
  with the same expiry, linked to the new access token and with its device and metadata.\<close>

theorem Refresh_reuses:
  fixes opts :: "refreshFlowOptions go_option list"
  assumes inv: "mem_inv w" and u: "usable_refresh w r it info" and c: "healthy c"
    and reuse: "\<not> rc_RotateRefreshToken (cf_Refresh (complete_config cf))"
    and args: "TrimSpace a \<noteq> []" "storeKey a \<noteq> storeKey r" "ri_AccessToken info \<noteq> storeKey r"
      "storeKey a \<noteq> ri_AccessToken info"
    and life: "clock_below w (cf_Timeout cf)"
  shows "\<exists>res w' ita itr infor. Refresh (memory_manager cf az) c r a opts w = (Inr res, w') \<and> mem_inv w'
    \<and> (rc_RevokeAccessTokenOnRefresh (cf_Refresh (complete_config cf)) \<and> ri_AccessToken info \<noteq> [] \<longrightarrow>
         mem_tokens w' (ri_AccessToken info) = None)
    \<and> usable w' a ita \<and> ts_Kind (ti_state ita) = TokenKindAccess
    \<and> subject_key ita = subject_key it \<and> subject_key itr = subject_key it
    \<and> (let fo = option_Apply default_refreshFlowOptions opts in
         ts_Device (ti_state ita) = (if rf_device fo \<noteq> [] then rf_device fo else ts_Device (ti_state it))
       \<and> ts_Metadata (ti_state ita) =
           cloneRawMessage (if rf_metadata fo \<noteq> None \<and> rf_metadata fo \<noteq> Some [] then rf_metadata fo
                            else ts_Metadata (ti_state it)))
    \<and> mem_tokens w' (storeKey r) = Some itr \<and> ts_Status (ti_state itr) = TokenStatusActive
    \<and> ts_Kind (ti_state itr) = TokenKindRefresh
    \<and> ts_ExpiresAt (ti_state itr) = ts_ExpiresAt (ti_state it)
    \<and> ts_Refresh (ti_state itr) = Some infor \<and> ri_AccessToken infor = storeKey a
    \<and> ts_Device (ti_state itr) = ts_Device (ti_state ita)
    \<and> ts_Metadata (ti_state itr) = ts_Metadata (ti_state ita)
    \<and> lr_TokenState res = (ti_state ita)\<lparr>ts_Token := TrimSpace a\<rparr>
    \<and> lr_RefreshState res = (ti_state itr)\<lparr>ts_Token := TrimSpace r\<rparr>"
proof -
  define fo where "fo = option_Apply default_refreshFlowOptions opts"
  define key where "key = login_key (ts_LoginID (ti_state it)) (ts_LoginType (ti_state it))"
  let ?m = "memory_manager cf az" and ?c = "normalizeContext c"
  note d = usable_refreshD [OF inv u]
  have c': "cerr ?c E" for E :: "error \<Rightarrow> 'a mem_scheme \<Rightarrow> bool" using c by simp
  have a': "TrimSpace (TrimSpace a) \<noteq> []" using args by simp
  have as: "access_state cf key lo (TrimSpace a) t = access_state cf key lo a t" for lo t
    by (simp add: access_state_def)
  have keep: "lo_preserveRefresh (next_login cf fo (ti_state it)) = storeKey r"
    using reuse d(10) by (simp add: next_login_def del: complete_config_sel)
  have ra: "refresh_args cf r a (rf_nextRefreshToken fo)" and
    nx: "next_ok cf a (rf_nextRefreshToken fo) info" "next_ok cf (TrimSpace a) (rf_nextRefreshToken fo) info"
    using args reuse by (simp_all add: refresh_args_def next_ok_def del: complete_config_sel)
  let ?as = "\<lambda>n. access_state cf key (next_login cf fo (ti_state it)) a (env_clock w n)"
  let ?rs = "\<lambda>n j. reused_refresh (ti_state it) info (?as n) (env_clock w j)"
  let ?Q = "\<lambda>res w'. \<exists>ts' n n' j b ss es. login_leaves w cf key (storeKey r)
        (old_access_gone cf info ((mem_tokens w)(storeKey r \<mapsto> claimed_item it))) ts'
    \<and> run_at w (ts'(storeKey a \<mapsto> stored_item (?as n) (env_clock w n') (login_ttl cf),
        storeKey r \<mapsto> stored_item (?rs n j) (env_clock w b) (remainingTTL (env_clock w j) (?rs n j)))) ss es w'
    \<and> res = \<lparr>lr_TokenState = (?as n)\<lparr>ts_Token := TrimSpace a\<rparr>, lr_RefreshState = (?rs n j)\<lparr>ts_Token := TrimSpace r\<rparr>\<rparr>"
  have sok: "state_ok (?as n)" for n
    unfolding key_def by (rule access_state_ok [OF d(8) args(1)])
  have rok: "state_ok (?rs n j)" for n j
    using d(9) by (simp add: reused_refresh_def state_ok_def normal_state_def cloned_def)
  have body: "wp (refresh_body ?m ?c (TrimSpace r) (TrimSpace a) fo (ti_state it) (ti_state (claimed_item it)))
      ?Q (\<lambda>_ _. False) v"
    if v: "run_at w ((mem_tokens w)(storeKey r \<mapsto> claimed_item it)) (mem_sessions w) (published w) v" for v
    unfolding refresh_body_def Let_def memory_manager_sel mem_store_sel if_not_P [OF reuse]
      next_refresh_reused [OF reuse d(6)] bindE_ret_left
  proof (rule wp_bindI, rule at_next_access [OF v c' d(6,8) a' nx(2)], rule wp_bindI, rule at_now,
      assumption, rule wp_bindI, rule wp_attemptI, goal_cases)
    case (1 ts' n n' ss' es' x j y)
    note leaves = 1(1) [unfolded keep key_def [symmetric]]
    have y: "run_at w (ts'(storeKey a \<mapsto> stored_item (?as n) (env_clock w n') (login_ttl cf))) ss' es' y"
      using 1(3) unfolding key_def [symmetric] as storeKey_TrimSpace .
    have stays: "(ts'(storeKey a \<mapsto> stored_item (?as n) (env_clock w n') (login_ttl cf))) (storeKey r) = Some (claimed_item it)"
      using claimed_stays [OF d(3,4) args(3) _ leaves] args(2) d(1) by simp
    have live: "never_expires w (claimed_item it)" using d(3) by simp
    have held: "live_state (env_clock w m) (ts'(storeKey a \<mapsto> stored_item (?as n) (env_clock w n') (login_ttl cf)))
        (storeKey r) = Some (ti_state (claimed_item it))" for m
      using stays live by (rule never_expires_live(2))
    show ?case
      unfolding key_def [symmetric] as storeKey_TrimSpace
      apply (rule at_update [OF y c' rok])
        apply (simp add: reused_refresh_def)
       apply (simp add: reused_refresh_def d(10) held)
      apply (simp only: sum.case)
      apply (rule wp_bindI, rule at_publish, assumption, simp)
      apply (simp only: wp_ret withPlaintextToken_def option.map option.sel state_ok_Clone [OF sok]
          state_ok_Clone [OF rok] TrimSpace_idem)
      apply (intro exI conjI, rule leaves)
       apply (simp add: reused_refresh_def d(10))
      apply simp
      done
  qed
  have "wp (Refresh ?m c r a opts) ?Q (\<lambda>_ _. False) w"
    by (rule wp_Refresh_claim [OF inv u c ra [unfolded fo_def] nx(1) [unfolded fo_def]], fold fo_def,
        unfold if_not_P [OF reuse], rule wp_restoring [OF body], assumption) simp
  then obtain res w' ts' n n' j b ss es where run: "Refresh ?m c r a opts w = (Inr res, w')"
    and leaves: "login_leaves w cf key (storeKey r)
        (old_access_gone cf info ((mem_tokens w)(storeKey r \<mapsto> claimed_item it))) ts'"
    and w': "run_at w (ts'(storeKey a \<mapsto> stored_item (?as n) (env_clock w n') (login_ttl cf),
        storeKey r \<mapsto> stored_item (?rs n j) (env_clock w b) (remainingTTL (env_clock w j) (?rs n j)))) ss es w'"
    and res: "res = \<lparr>lr_TokenState = (?as n)\<lparr>ts_Token := TrimSpace a\<rparr>, lr_RefreshState = (?rs n j)\<lparr>ts_Token := TrimSpace r\<rparr>\<rparr>"
    unfolding wp_succeeds by blast
  let ?ita = "stored_item (?as n) (env_clock w n') (login_ttl cf)"
  let ?itr = "stored_item (?rs n j) (env_clock w b) (remainingTTL (env_clock w j) (?rs n j))"
  note e = at_D [OF w']
  have st: "ti_state ?ita = ?as n" "ti_state ?itr = ?rs n j"
    by (simp_all add: stored_item_def stored_state_id [OF sok] stored_state_id [OF rok])
  have "\<not> tokenItem_isExpired ?ita (env_clock w m)" for m
    unfolding key_def by (rule login_stored_lives [OF d(8) args(1) life])
  then have "usable w' a ?ita"
    unfolding usable_def st e using args by simp
  moreover have "rc_RevokeAccessTokenOnRefresh (refresh_config cf) \<and> ri_AccessToken info \<noteq> [] \<longrightarrow>
      mem_tokens w' (ri_AccessToken info) = None"
    using login_leaves_entry [OF leaves, of "ri_AccessToken info"] args e(3)
    by (auto simp: old_access_gone_def)
  moreover have "subject_key ?ita = subject_key it" "subject_key ?itr = subject_key it"
    unfolding subject_key_def st reused_refresh_subject unfolding key_def TokenState_Subject_access
    by (simp_all add: login_key_def TokenState_Subject_def)
  moreover have "ts_Device (ti_state ?ita) = (if rf_device fo \<noteq> [] then rf_device fo else ts_Device (ti_state it))"
    and "ts_Metadata (ti_state ?ita) = cloneRawMessage (if rf_metadata fo \<noteq> None \<and> rf_metadata fo \<noteq> Some []
        then rf_metadata fo else ts_Metadata (ti_state it))"
    unfolding st by (simp_all add: next_login_def)
  moreover have "ts_Metadata (ti_state ?itr) = ts_Metadata (ti_state ?ita)"
    and "ts_Device (ti_state ?itr) = ts_Device (ti_state ?ita)"
    and "lr_TokenState res = (ti_state ?ita)\<lparr>ts_Token := TrimSpace a\<rparr>"
    and "lr_RefreshState res = (ti_state ?itr)\<lparr>ts_Token := TrimSpace r\<rparr>"
    and "ts_Kind (ti_state ?ita) = TokenKindAccess"
    and "ts_Status (ti_state ?itr) = TokenStatusActive" "ts_Kind (ti_state ?itr) = TokenKindRefresh"
    and "ts_ExpiresAt (ti_state ?itr) = ts_ExpiresAt (ti_state it)"
    and "ts_Refresh (ti_state ?itr) = Some (info\<lparr>ri_AccessToken := storeKey a, ri_LastUsedAt := Some (env_clock w j)\<rparr>)"
    unfolding st res using d(4,5) by (simp_all add: reused_refresh_def)
  moreover have "mem_tokens w' (storeKey r) = Some ?itr" using e by simp
  ultimately show ?thesis
    using run e(1) unfolding Let_def fo_def [symmetric] complete_config_sel
    by (intro exI [of _ res] exI [of _ w'] exI [of _ ?ita] exI [of _ ?itr] exI conjI)
      (assumption | rule RefreshInfo.select_convs(1) | simp (no_asm))+
qed

theorem Refresh_reuses_witness:
  "\<exists>res w' ita itr. Refresh (memory_manager reuse_config no_rbac) None ''r1'' ''a2'' [WithRefreshDevice ''phone''] demo_refresh
       = (Inr res, w')
     \<and> usable w' ''a2'' ita \<and> mem_tokens w' (storeKey ''abc'') = None
     \<and> mem_tokens w' (storeKey ''r1'') = Some itr \<and> ts_Status (ti_state itr) = TokenStatusActive
     \<and> ts_Device (ti_state itr) = ''phone''"
proof -
  obtain it info where d: "mem_inv demo_refresh" "usable_refresh demo_refresh ''r1'' it info"
    "ri_AccessToken info = storeKey ''abc''" and clock: "env_clock demo_refresh = (\<lambda>_. 0)"
    by (rule demo_refresh_usable)
  have "clock_below demo_refresh (cf_Timeout reuse_config)"
    by (auto simp: clock_below_def clock Time_Add_def)
  moreover have "\<not> rc_RotateRefreshToken (cf_Refresh (complete_config reuse_config))" by simp
  moreover have "rf_device (option_Apply default_refreshFlowOptions [WithRefreshDevice ''phone'']) = ''phone''"
    by code_simp
  moreover note Refresh_reuses [OF d(1,2), of None reuse_config "''a2''" no_rbac "[WithRefreshDevice ''phone'']"]
  ultimately obtain res w' ita itr where
    "Refresh (memory_manager reuse_config no_rbac) None ''r1'' ''a2'' [WithRefreshDevice ''phone''] demo_refresh = (Inr res, w')"
    "usable w' ''a2'' ita" "mem_tokens w' (ri_AccessToken info) = None"
    "mem_tokens w' (storeKey ''r1'') = Some itr" "ts_Status (ti_state itr) = TokenStatusActive"
    "ts_Device (ti_state itr) = ''phone''"
    using d(3) demo_keys_differ by (auto simp: Let_def)
  with d(3) show ?thesis by auto
qed

end
