(* ===== verification/Async_Bus.thy ===== *)
theory Async_Bus
  imports Event_Bus
begin

text \<open>
  The asynchronous event bus of \<open>core/async_event.go\<close>: publishers put jobs into a bounded
  channel, workers take them out and call the listeners, and a wait group counts what is
  outstanding. The goroutines interleave, so the bus is a transition system: one definition per
  atomic action of a goroutine, \<open>None\<close> while the action is blocked. A runtime panic that nobody
  recovers from ends the process: it is recorded in \<open>bs_crash\<close>.
\<close>

subsection \<open>Channels, jobs and the bus\<close>

text \<open>An error handler either returns (\<open>True\<close>) or panics (\<open>False\<close>).\<close>

type_synonym 'w EventErrorHandler = "ctx \<Rightarrow> Event \<Rightarrow> error \<Rightarrow> 'w \<Rightarrow> bool \<times> 'w"

record 'w asyncEventJob =
  job_ctx :: ctx
  job_event :: Event
  job_listeners :: "'w listener list"
  job_errorHandler :: "'w EventErrorHandler option"

text \<open>A buffered channel of jobs: \<open>make(chan asyncEventJob, size)\<close>.\<close>

record 'w job_chan =
  ch_cap :: nat
  ch_buf :: "'w asyncEventJob list"
  ch_closed :: bool

definition make_chan :: "nat \<Rightarrow> 'w job_chan" where
  "make_chan n = \<lparr>ch_cap = n, ch_buf = [], ch_closed = False\<rparr>"

record 'w AsyncEventBus =
  ab_listeners :: "'w listener list"
  ab_queue :: "'w job_chan option"
  ab_workerCount :: int
  ab_errorHandler :: "'w EventErrorHandler option"
  ab_wg :: int
  ab_closeOnce :: bool
  ab_closed :: bool

definition WithEventQueueSize :: "int \<Rightarrow> 'w AsyncEventBus go_option" where
  "WithEventQueueSize n =
     Some (\<lambda>b. if n > 0 then b\<lparr>ab_queue := Some (make_chan (nat n))\<rparr> else b)"

definition WithEventWorkerCount :: "int \<Rightarrow> 'w AsyncEventBus go_option" where
  "WithEventWorkerCount n = Some (\<lambda>b. if n > 0 then b\<lparr>ab_workerCount := n\<rparr> else b)"

definition WithEventErrorHandler :: "'w EventErrorHandler option \<Rightarrow> 'w AsyncEventBus go_option" where
  "WithEventErrorHandler handler = Some (\<lambda>b. b\<lparr>ab_errorHandler := handler\<rparr>)"

subsection \<open>Goroutines\<close>

text \<open>
  A worker waits for a job, runs the remaining listeners of one, or has left its loop. A call of
  \<open>Flush\<close>, by a user or by \<open>Close\<close>, owns a goroutine in \<open>wg.Wait()\<close>: before the call, asleep in
  it, woken, or past \<open>close(done)\<close>; the caller may give up on its context while the goroutine
  stays. \<open>fl_before\<close> is history: how many jobs had been accepted when the call began.
\<close>

datatype 'w worker_state =
    WorkerWaiting
  | WorkerRunning "'w asyncEventJob" "'w listener list"
  | WorkerLeft

datatype wait_state = WaitStart | WaitAsleep | WaitWoken | WaitOver

datatype flush_caller = FlushCall | CloseCall | CallerGone

record flusher =
  fl_ctx :: ctx
  fl_wait :: wait_state
  fl_caller :: flush_caller
  fl_before :: nat

datatype crash =
    SendOnClosedChannel | CloseOfClosedChannel | NegativeWaitGroup | WaitGroupReused | HandlerPanicked

text \<open>
  \<open>bs_publishers\<close> are the calls of \<open>Publish\<close> in their \<open>select\<close>: they hold the read lock. The last
  three fields are the history of jobs put into the channel, taken out, and done.
\<close>

record 'w bus_system =
  bs_bus :: "'w AsyncEventBus"
  bs_world :: 'w
  bs_publishers :: "'w asyncEventJob list"
  bs_workers :: "'w worker_state list"
  bs_flushers :: "flusher list"
  bs_crash :: "crash option"
  bs_accepted :: "'w asyncEventJob list"
  bs_received :: "'w asyncEventJob list"
  bs_finished :: "'w asyncEventJob list"

definition NewAsyncEventBus :: "'w AsyncEventBus go_option list \<Rightarrow> 'w \<Rightarrow> 'w bus_system" where
  "NewAsyncEventBus opts w =
     (let b = \<lparr>ab_listeners = [], ab_queue = Some (make_chan 64), ab_workerCount = 1,
                ab_errorHandler = None, ab_wg = 0, ab_closeOnce = False, ab_closed = False\<rparr>;
          b = option_Apply b opts;
          b = (case ab_queue b of None \<Rightarrow> b\<lparr>ab_queue := Some (make_chan 64)\<rparr> | Some _ \<Rightarrow> b);
          b = (if ab_workerCount b \<le> 0 then b\<lparr>ab_workerCount := 1\<rparr> else b)
      in \<lparr>bs_bus = b, bs_world = w, bs_publishers = [],
          bs_workers = replicate (nat (ab_workerCount b)) WorkerWaiting, bs_flushers = [],
          bs_crash = None, bs_accepted = [], bs_received = [], bs_finished = []\<rparr>)"

abbreviation bs_chan :: "'w bus_system \<Rightarrow> 'w job_chan" where
  "bs_chan s \<equiv> the (ab_queue (bs_bus s))"

definition set_chan :: "'w job_chan \<Rightarrow> 'w bus_system \<Rightarrow> 'w bus_system" where
  "set_chan ch s = s\<lparr>bs_bus := (bs_bus s)\<lparr>ab_queue := Some ch\<rparr>\<rparr>"

subsection \<open>Registration\<close>

text \<open>The write lock is free while no call of \<open>Publish\<close> holds the read lock.\<close>

definition AsyncEventBus_Register ::
    "'w listener option \<Rightarrow> 'w bus_system \<Rightarrow> 'w bus_system option" where
  "AsyncEventBus_Register listener s =
     (case listener of
        None \<Rightarrow> Some s
      | Some l \<Rightarrow>
          if bs_publishers s \<noteq> [] then None
          else Some (s\<lparr>bs_bus := (bs_bus s)\<lparr>ab_listeners := ab_listeners (bs_bus s) @ [l]\<rparr>\<rparr>))"

definition AsyncEventBus_Clear :: "'w bus_system \<Rightarrow> 'w bus_system option" where
  "AsyncEventBus_Clear s =
     (if bs_publishers s \<noteq> [] then None
      else Some (s\<lparr>bs_bus := (bs_bus s)\<lparr>ab_listeners := []\<rparr>\<rparr>))"

definition AsyncEventBus_ListenerCount :: "'w bus_system \<Rightarrow> nat" where
  "AsyncEventBus_ListenerCount s = length (ab_listeners (bs_bus s))"

subsection \<open>Publication\<close>

text \<open>Up to the \<open>select\<close>: a closed bus ignores the event, otherwise the job is counted.\<close>

definition publish_begin :: "ctx \<Rightarrow> Event \<Rightarrow> 'w bus_system \<Rightarrow> 'w bus_system option" where
  "publish_begin c ev s =
     (let c = (case c of None \<Rightarrow> Some Background | Some x \<Rightarrow> Some x); b = bs_bus s
      in if ab_closed b then Some s
         else
           let job = \<lparr>job_ctx = c, job_event = ev, job_listeners = ab_listeners b,
                      job_errorHandler = ab_errorHandler b\<rparr>
           in Some (s\<lparr>bs_bus := b\<lparr>ab_wg := ab_wg b + 1\<rparr>,
                      bs_publishers := bs_publishers s @ [job]\<rparr>))"

text \<open>\<open>case b.queue <- job\<close>.\<close>

definition publish_send :: "nat \<Rightarrow> 'w bus_system \<Rightarrow> 'w bus_system option" where
  "publish_send i s =
     (if i \<ge> length (bs_publishers s) then None
      else if ch_closed (bs_chan s) then Some (s\<lparr>bs_crash := Some SendOnClosedChannel\<rparr>)
      else if length (ch_buf (bs_chan s)) \<ge> ch_cap (bs_chan s) then None
      else
        let job = bs_publishers s ! i; ch = bs_chan s
        in Some (set_chan (ch\<lparr>ch_buf := ch_buf ch @ [job]\<rparr>)
             (s\<lparr>bs_publishers := drop_nth i (bs_publishers s),
                bs_accepted := bs_accepted s @ [job]\<rparr>)))"

text \<open>
  \<open>wg.Done()\<close>: the counter reaching zero wakes every goroutine asleep in \<open>wg.Wait()\<close>. The step is atomic: the
  panic that \<open>sync.WaitGroup\<close> raises when an \<open>Add\<close> falls between the two halves of it needs the same race
  of a flush with a publication as the reuse below, and counts as that one.
\<close>

definition wake :: "flusher \<Rightarrow> flusher" where
  "wake f = (if fl_wait f = WaitAsleep then f\<lparr>fl_wait := WaitWoken\<rparr> else f)"

definition wg_Done :: "'w bus_system \<Rightarrow> 'w bus_system" where
  "wg_Done s =
     (let n = ab_wg (bs_bus s) - 1; s = s\<lparr>bs_bus := (bs_bus s)\<lparr>ab_wg := n\<rparr>\<rparr>
      in if n < 0 then s\<lparr>bs_crash := Some NegativeWaitGroup\<rparr>
         else if n = 0 then s\<lparr>bs_flushers := map wake (bs_flushers s)\<rparr>
         else s)"

text \<open>\<open>case <-ctx.Done()\<close>, with the context observed for the \<open>n\<close>-th time.\<close>

definition ctx_done_at :: "ctx \<Rightarrow> nat \<Rightarrow> bool" where
  "ctx_done_at c n \<longleftrightarrow> (case c of None \<Rightarrow> False | Some x \<Rightarrow> gc_done x n \<noteq> None)"

definition publish_cancel :: "nat \<Rightarrow> nat \<Rightarrow> 'w bus_system \<Rightarrow> 'w bus_system option" where
  "publish_cancel i n s =
     (if i \<ge> length (bs_publishers s) \<or> \<not> ctx_done_at (job_ctx (bs_publishers s ! i)) n then None
      else Some (wg_Done (s\<lparr>bs_publishers := drop_nth i (bs_publishers s)\<rparr>)))"

subsection \<open>Workers\<close>

definition dispatch_one ::
    "ctx \<Rightarrow> Event \<Rightarrow> 'w EventErrorHandler option \<Rightarrow> 'w listener \<Rightarrow> 'w \<Rightarrow> bool \<times> 'w" where
  "dispatch_one c ev handler listener w =
     (let on_panic = (\<lambda>w. case handler of None \<Rightarrow> (True, w) | Some h \<Rightarrow> h c ev ErrEventListenerPanic w)
      in case listener c ev w of
           (HandleOk, w) \<Rightarrow> (True, w)
         | (HandleError err, w) \<Rightarrow>
             (case handler of
                None \<Rightarrow> (True, w)
              | Some h \<Rightarrow> (case h c ev err w of (True, w) \<Rightarrow> (True, w) | (False, w) \<Rightarrow> on_panic w))
         | (HandlePanic, w) \<Rightarrow> on_panic w)"

text \<open>The loop as a whole, undisturbed by other goroutines: it stops at a panic that escapes.\<close>

fun dispatch ::
    "ctx \<Rightarrow> Event \<Rightarrow> 'w EventErrorHandler option \<Rightarrow> 'w listener list \<Rightarrow> 'w \<Rightarrow> bool \<times> 'w" where
  "dispatch c ev handler [] w = (True, w)"
| "dispatch c ev handler (listener # listeners) w =
     (case dispatch_one c ev handler listener w of
        (True, w) \<Rightarrow> dispatch c ev handler listeners w
      | (False, w) \<Rightarrow> (False, w))"

definition set_worker :: "nat \<Rightarrow> 'w worker_state \<Rightarrow> 'w bus_system \<Rightarrow> 'w bus_system" where
  "set_worker i x s = s\<lparr>bs_workers := (bs_workers s)[i := x]\<rparr>"

text \<open>\<open>for job := range b.queue\<close>: a receive, or the end of the loop on a closed and empty channel.\<close>

definition worker_receive :: "nat \<Rightarrow> 'w bus_system \<Rightarrow> 'w bus_system option" where
  "worker_receive i s =
     (if i < length (bs_workers s)
      then case bs_workers s ! i of
             WorkerWaiting \<Rightarrow>
               (case ch_buf (bs_chan s) of
                  [] \<Rightarrow> if ch_closed (bs_chan s) then Some (set_worker i WorkerLeft s) else None
                | job # rest \<Rightarrow>
                    Some (set_worker i (WorkerRunning job (job_listeners job))
                      (set_chan ((bs_chan s)\<lparr>ch_buf := rest\<rparr>)
                        (s\<lparr>bs_received := bs_received s @ [job]\<rparr>))))
           | _ \<Rightarrow> None
      else None)"

text \<open>One turn of the loop of \<open>dispatch\<close>, or its end followed by \<open>b.wg.Done()\<close>.\<close>

definition worker_run :: "nat \<Rightarrow> 'w bus_system \<Rightarrow> 'w bus_system option" where
  "worker_run i s =
     (if i < length (bs_workers s)
      then case bs_workers s ! i of
             WorkerRunning job (listener # rest) \<Rightarrow>
               (case dispatch_one (job_ctx job) (job_event job) (job_errorHandler job) listener (bs_world s) of
                  (True, w) \<Rightarrow> Some (set_worker i (WorkerRunning job rest) (s\<lparr>bs_world := w\<rparr>))
                | (False, w) \<Rightarrow> Some (s\<lparr>bs_world := w, bs_crash := Some HandlerPanicked\<rparr>))
           | WorkerRunning job [] \<Rightarrow>
               Some (wg_Done (set_worker i WorkerWaiting (s\<lparr>bs_finished := bs_finished s @ [job]\<rparr>)))
           | _ \<Rightarrow> None
      else None)"

subsection \<open>Flush and Close\<close>

definition flush_begin :: "ctx \<Rightarrow> flush_caller \<Rightarrow> 'w bus_system \<Rightarrow> 'w bus_system" where
  "flush_begin c caller s =
     s\<lparr>bs_flushers := bs_flushers s @ [\<lparr>fl_ctx = normalizeContext c, fl_wait = WaitStart,
         fl_caller = caller, fl_before = length (bs_accepted s)\<rparr>]\<rparr>"

definition set_flusher :: "nat \<Rightarrow> flusher \<Rightarrow> 'w bus_system \<Rightarrow> 'w bus_system" where
  "set_flusher i f s = s\<lparr>bs_flushers := (bs_flushers s)[i := f]\<rparr>"

text \<open>
  The goroutine of \<open>Flush\<close> in \<open>wg.Wait()\<close>. A goroutine that was woken panics when the wait group
  has been put to use again in the meantime, as \<open>sync.WaitGroup\<close> does.
\<close>

definition flush_wait :: "nat \<Rightarrow> 'w bus_system \<Rightarrow> 'w bus_system option" where
  "flush_wait i s =
     (if i < length (bs_flushers s)
      then let f = bs_flushers s ! i
           in case fl_wait f of
                WaitStart \<Rightarrow>
                  Some (set_flusher i
                    (f\<lparr>fl_wait := (if ab_wg (bs_bus s) = 0 then WaitOver else WaitAsleep)\<rparr>) s)
              | WaitWoken \<Rightarrow>
                  if ab_wg (bs_bus s) \<noteq> 0 then Some (s\<lparr>bs_crash := Some WaitGroupReused\<rparr>)
                  else Some (set_flusher i (f\<lparr>fl_wait := WaitOver\<rparr>) s)
              | _ \<Rightarrow> None
      else None)"

text \<open>\<open>b.closeOnce.Do(func() { close(b.queue) })\<close>.\<close>

definition close_queue_once :: "'w bus_system \<Rightarrow> 'w bus_system" where
  "close_queue_once s =
     (if ab_closeOnce (bs_bus s) then s
      else
        let s = s\<lparr>bs_bus := (bs_bus s)\<lparr>ab_closeOnce := True\<rparr>\<rparr>
        in if ch_closed (bs_chan s) then s\<lparr>bs_crash := Some CloseOfClosedChannel\<rparr>
           else set_chan ((bs_chan s)\<lparr>ch_closed := True\<rparr>) s)"

text \<open>\<open>case <-done\<close>: the caller returns nil; \<open>Close\<close> closes the queue before it does.\<close>

definition flush_return :: "nat \<Rightarrow> 'w bus_system \<Rightarrow> 'w bus_system option" where
  "flush_return i s =
     (if i < length (bs_flushers s)
      then let f = bs_flushers s ! i; s' = set_flusher i (f\<lparr>fl_caller := CallerGone\<rparr>) s
           in if fl_wait f \<noteq> WaitOver then None
              else case fl_caller f of
                     FlushCall \<Rightarrow> Some s'
                   | CloseCall \<Rightarrow> Some (close_queue_once s')
                   | CallerGone \<Rightarrow> None
      else None)"

text \<open>\<open>case <-ctx.Done()\<close>: the caller returns the error of its context and leaves the goroutine.\<close>

definition flush_cancel :: "nat \<Rightarrow> nat \<Rightarrow> 'w bus_system \<Rightarrow> 'w bus_system option" where
  "flush_cancel i n s =
     (if i < length (bs_flushers s)
      then let f = bs_flushers s ! i
           in if fl_caller f = CallerGone \<or> \<not> ctx_done_at (fl_ctx f) n then None
              else Some (set_flusher i (f\<lparr>fl_caller := CallerGone\<rparr>) s)
      else None)"

definition AsyncEventBus_Flush :: "ctx \<Rightarrow> 'w bus_system \<Rightarrow> 'w bus_system option" where
  "AsyncEventBus_Flush c s = Some (flush_begin c FlushCall s)"

text \<open>\<open>Close\<close> up to its call of \<open>Flush\<close>: both branches of the code lead there.\<close>

definition close_begin :: "ctx \<Rightarrow> 'w bus_system \<Rightarrow> 'w bus_system option" where
  "close_begin c s =
     (if bs_publishers s \<noteq> [] then None
      else if ab_closed (bs_bus s) then Some (flush_begin c CloseCall s)
      else Some (flush_begin c CloseCall (s\<lparr>bs_bus := (bs_bus s)\<lparr>ab_closed := True\<rparr>\<rparr>)))"

subsection \<open>Runs\<close>

datatype 'w bus_action =
    Register "'w listener option" | Clear
  | PublishBegin ctx Event | PublishSend nat | PublishCancel nat nat
  | WorkerReceive nat | WorkerRun nat
  | FlushBegin ctx | CloseBegin ctx | FlushWait nat | FlushReturn nat | FlushCancel nat nat

fun bus_act :: "'w bus_action \<Rightarrow> 'w bus_system \<Rightarrow> 'w bus_system option" where
  "bus_act (Register l) s = AsyncEventBus_Register l s"
| "bus_act Clear s = AsyncEventBus_Clear s"
| "bus_act (PublishBegin c ev) s = publish_begin c ev s"
| "bus_act (PublishSend i) s = publish_send i s"
| "bus_act (PublishCancel i n) s = publish_cancel i n s"
| "bus_act (WorkerReceive i) s = worker_receive i s"
| "bus_act (WorkerRun i) s = worker_run i s"
| "bus_act (FlushBegin c) s = AsyncEventBus_Flush c s"
| "bus_act (CloseBegin c) s = close_begin c s"
| "bus_act (FlushWait i) s = flush_wait i s"
| "bus_act (FlushReturn i) s = flush_return i s"
| "bus_act (FlushCancel i n) s = flush_cancel i n s"

text \<open>A crashed process takes no further step.\<close>

inductive bus_step :: "'w bus_system \<Rightarrow> 'w bus_action \<Rightarrow> 'w bus_system \<Rightarrow> bool" where
  act: "bs_crash s = None \<Longrightarrow> bus_act a s = Some t \<Longrightarrow> bus_step s a t"

inductive bus_run :: "'w bus_system \<Rightarrow> 'w bus_action list \<Rightarrow> 'w bus_system \<Rightarrow> bool" where
  start: "bus_run s [] s"
| step: "bus_run s as t \<Longrightarrow> bus_step t a u \<Longrightarrow> bus_run s (as @ [a]) u"

inductive_simps bus_step_iff: "bus_step s a t"
inductive_simps bus_run_Nil [simp]: "bus_run s [] t"

text \<open>The same runs as a computation.\<close>

fun bus_exec :: "'w bus_action list \<Rightarrow> 'w bus_system \<Rightarrow> 'w bus_system option" where
  "bus_exec [] s = Some s"
| "bus_exec (a # as) s =
     (if bs_crash s = None
      then case bus_act a s of None \<Rightarrow> None | Some t \<Rightarrow> bus_exec as t
      else None)"

lemma bus_run_append: "bus_run t bs u \<Longrightarrow> bus_run s as t \<Longrightarrow> bus_run s (as @ bs) u"
  by (induction rule: bus_run.induct) (simp, metis append_assoc bus_run.step)

lemma bus_exec_run: "bus_exec as s = Some t \<Longrightarrow> bus_run s as t"
proof (induction as arbitrary: s)
  case (Cons a as)
  then obtain u where u: "bus_step s a u" "bus_run u as t"
    by (auto simp: bus_step_iff split: if_splits option.splits)
  have "bus_run s [a] u" using bus_run.step [OF bus_run.start u(1)] by simp
  from bus_run_append [OF u(2) this] show ?case by simp
qed simp

end
