(* ===== verification/Async_Bus_Correct.thy ===== *)
theory Async_Bus_Correct
  imports Async_Bus
begin

text \<open>
  Every interleaving of publishers, workers, flushes and closes keeps the books of the bus: the
  wait group counts the publications under way, the jobs in the channel and those that a worker
  runs; a job taken out was put in before, in the same order; nobody publishes once the bus is
  closed. It follows that the channel is never misused, that what \<open>Flush\<close> and \<open>Close\<close> promise
  holds, and that the workers finish what they were given.
\<close>

subsection \<open>The jobs in the hands of the workers\<close>

fun active :: "'w worker_state \<Rightarrow> 'w asyncEventJob multiset" where
  "active (WorkerRunning job rest) = {#job#}"
| "active _ = {#}"

definition running :: "'w worker_state list \<Rightarrow> 'w asyncEventJob multiset" where
  "running ws = sum_list (map active ws)"

lemma running_simps [simp]: "running [] = {#}" "running (x # ws) = active x + running ws"
  by (simp_all add: running_def)

lemma running_replicate [simp]: "running (replicate n WorkerWaiting) = {#}"
  by (induction n) auto

lemma running_update:
  "i < length ws \<Longrightarrow> running (ws[i := x]) + active (ws ! i) = running ws + active x"
  by (induction ws arbitrary: i) (auto simp: nth_Cons' split: nat.split)

lemma running_take_up:
  "i < length ws \<Longrightarrow> ws ! i = WorkerWaiting \<Longrightarrow>
   running (ws[i := WorkerRunning job rest]) = add_mset job (running ws)"
  using running_update [of i ws "WorkerRunning job rest"] by simp

lemma running_go_on:
  "i < length ws \<Longrightarrow> ws ! i = WorkerRunning job rest \<Longrightarrow>
   running (ws[i := WorkerRunning job rest']) = running ws"
  using running_update [of i ws "WorkerRunning job rest'"] by simp

lemma running_put_down:
  "i < length ws \<Longrightarrow> ws ! i = WorkerRunning job rest \<Longrightarrow>
   add_mset job (running (ws[i := WorkerWaiting])) = running ws"
  using running_update [of i ws WorkerWaiting] by simp

lemma running_leave:
  "i < length ws \<Longrightarrow> ws ! i = WorkerWaiting \<Longrightarrow> running (ws[i := WorkerLeft]) = running ws"
  using running_update [of i ws WorkerLeft] by simp

lemma running_member: "WorkerRunning job rest \<in> set ws \<Longrightarrow> job \<in># running ws"
  by (induction ws) auto

subsection \<open>The invariant\<close>

text \<open>\<open>outstanding\<close>: what the wait group has to count.\<close>

definition outstanding :: "'w bus_system \<Rightarrow> nat" where
  "outstanding s = length (bs_publishers s) + length (ch_buf (bs_chan s)) + size (running (bs_workers s))"

definition flusher_ok :: "'w bus_system \<Rightarrow> flusher \<Rightarrow> bool" where
  "flusher_ok s f \<longleftrightarrow>
     (fl_wait f = WaitAsleep \<longrightarrow> ab_wg (bs_bus s) \<noteq> 0)
     \<and> fl_before f \<le> length (bs_accepted s)
     \<and> (fl_wait f \<in> {WaitWoken, WaitOver} \<longrightarrow>
          mset (take (fl_before f) (bs_accepted s)) \<subseteq># mset (bs_finished s))
     \<and> (fl_caller f = CloseCall \<longrightarrow> ab_closed (bs_bus s)
          \<and> (fl_wait f \<in> {WaitWoken, WaitOver} \<longrightarrow> ab_wg (bs_bus s) = 0))"

definition chan_ok :: "'w AsyncEventBus \<Rightarrow> bool" where
  "chan_ok b \<longleftrightarrow> (\<exists>ch. ab_queue b = Some ch \<and> 0 < ch_cap ch \<and> length (ch_buf ch) \<le> ch_cap ch
     \<and> (ch_closed ch \<longrightarrow> ab_closed b) \<and> ab_closeOnce b = ch_closed ch)"

text \<open>With \<open>k = 1\<close> a goroutine is about to call \<open>wg.Done()\<close>.\<close>

definition books :: "nat \<Rightarrow> 'w bus_system \<Rightarrow> bool" where
  "books k s \<longleftrightarrow> chan_ok (bs_bus s)
     \<and> ab_wg (bs_bus s) = int (outstanding s + k)
     \<and> bs_accepted s = bs_received s @ ch_buf (bs_chan s)
     \<and> mset (bs_received s) = mset (bs_finished s) + running (bs_workers s)
     \<and> (ab_closed (bs_bus s) \<longrightarrow> bs_publishers s = [])
     \<and> (\<forall>f \<in> set (bs_flushers s). flusher_ok s f)
     \<and> bs_crash s \<in> {None, Some WaitGroupReused, Some HandlerPanicked}"

abbreviation bus_inv :: "'w bus_system \<Rightarrow> bool" where
  "bus_inv \<equiv> books 0"

lemma set_chan_sel [simp]:
  "ab_queue (bs_bus (set_chan ch s)) = Some ch" "ab_wg (bs_bus (set_chan ch s)) = ab_wg (bs_bus s)"
  "ab_closed (bs_bus (set_chan ch s)) = ab_closed (bs_bus s)"
  "ab_closeOnce (bs_bus (set_chan ch s)) = ab_closeOnce (bs_bus s)"
  "ab_errorHandler (bs_bus (set_chan ch s)) = ab_errorHandler (bs_bus s)"
  "bs_world (set_chan ch s) = bs_world s" "bs_publishers (set_chan ch s) = bs_publishers s"
  "bs_workers (set_chan ch s) = bs_workers s" "bs_flushers (set_chan ch s) = bs_flushers s"
  "bs_crash (set_chan ch s) = bs_crash s" "bs_accepted (set_chan ch s) = bs_accepted s"
  "bs_received (set_chan ch s) = bs_received s" "bs_finished (set_chan ch s) = bs_finished s"
  by (simp_all add: set_chan_def)

lemma books_finished_all:
  "books k s \<Longrightarrow> outstanding s = 0 \<Longrightarrow> mset (bs_accepted s) = mset (bs_finished s)"
  by (simp add: books_def outstanding_def)

lemma books_prefix_finished:
  assumes "books k s" and "outstanding s = 0"
  shows "mset (take n (bs_accepted s)) \<subseteq># mset (bs_finished s)"
proof -
  have "mset (take n (bs_accepted s)) \<subseteq># mset (bs_accepted s)"
    by (metis append_take_drop_id mset_append mset_subset_eq_add_left)
  with books_finished_all [OF assms] show ?thesis by simp
qed

lemma wg_Done_sel [simp]:
  "ab_queue (bs_bus (wg_Done s)) = ab_queue (bs_bus s)"
  "ab_closed (bs_bus (wg_Done s)) = ab_closed (bs_bus s)"
  "ab_errorHandler (bs_bus (wg_Done s)) = ab_errorHandler (bs_bus s)"
  "bs_publishers (wg_Done s) = bs_publishers s" "bs_workers (wg_Done s) = bs_workers s"
  "bs_accepted (wg_Done s) = bs_accepted s" "bs_received (wg_Done s) = bs_received s"
  "bs_finished (wg_Done s) = bs_finished s" "bs_world (wg_Done s) = bs_world s"
  by (simp_all add: wg_Done_def Let_def)

lemma wake_sel [simp]:
  "fl_before (wake f) = fl_before f" "fl_caller (wake f) = fl_caller f" "fl_ctx (wake f) = fl_ctx f"
  "fl_wait (wake f) = (if fl_wait f = WaitAsleep then WaitWoken else fl_wait f)"
  by (simp_all add: wake_def)

lemma books_wg_Done:
  assumes b: "books 1 s"
  shows "bus_inv (wg_Done s)"
proof -
  let ?n = "ab_wg (bs_bus s) - 1"
  have n: "?n = int (outstanding s)" using b by (simp add: books_def)
  have same: "outstanding (wg_Done s) = outstanding s" by (simp add: outstanding_def)
  have "flusher_ok (wg_Done s) f" if f: "f \<in> set (bs_flushers (wg_Done s))" for f
  proof (cases "?n = 0")
    case True
    then obtain g where g: "g \<in> set (bs_flushers s)" "f = wake g"
      using f by (auto simp: wg_Done_def Let_def)
    then have "flusher_ok s g" using b by (simp add: books_def)
    moreover have "mset (take (fl_before g) (bs_accepted s)) \<subseteq># mset (bs_finished s)"
      using books_prefix_finished [OF b] n True by simp
    ultimately show ?thesis using True g(2)
      by (auto simp: flusher_ok_def wg_Done_def Let_def)
  next
    case False
    then have "f \<in> set (bs_flushers s)" using f n by (simp add: wg_Done_def Let_def split: if_splits)
    then have "flusher_ok s f" using b by (simp add: books_def)
    with False n show ?thesis by (auto simp: flusher_ok_def wg_Done_def Let_def)
  qed
  moreover have "ab_wg (bs_bus (wg_Done s)) = int (outstanding s)"
    "bs_crash (wg_Done s) = bs_crash s" "chan_ok (bs_bus (wg_Done s)) = chan_ok (bs_bus s)"
    using n by (simp_all add: wg_Done_def Let_def chan_ok_def)
  ultimately show ?thesis using b by (auto simp: books_def same)
qed

subsection \<open>Every action keeps it\<close>

text \<open>What an action may do to the state that a flush depends on.\<close>

lemma flusher_ok_keep:
  assumes "flusher_ok s f"
    and "ab_wg (bs_bus s) \<noteq> 0 \<Longrightarrow> ab_wg (bs_bus t) \<noteq> 0" and "bs_accepted t = bs_accepted s @ ys"
    and "mset (bs_finished s) \<subseteq># mset (bs_finished t)"
    and "ab_closed (bs_bus s) \<Longrightarrow>
           ab_closed (bs_bus t) \<and> (ab_wg (bs_bus s) = 0 \<longrightarrow> ab_wg (bs_bus t) = 0)"
  shows "flusher_ok t f"
  using assms by (auto simp: flusher_ok_def intro: subset_mset.order_trans)

lemma booksI:
  assumes "chan_ok (bs_bus s)" and "ab_wg (bs_bus s) = int (outstanding s + k)"
    and "bs_accepted s = bs_received s @ ch_buf (bs_chan s)"
    and "mset (bs_received s) = mset (bs_finished s) + running (bs_workers s)"
    and "ab_closed (bs_bus s) \<Longrightarrow> bs_publishers s = []"
    and "\<And>f. f \<in> set (bs_flushers s) \<Longrightarrow> flusher_ok s f"
    and "bs_crash s \<in> {None, Some WaitGroupReused, Some HandlerPanicked}"
  shows "books k s"
  using assms by (simp add: books_def)

lemma booksD:
  assumes "books k s"
  shows "chan_ok (bs_bus s)" and "ab_wg (bs_bus s) = int (outstanding s + k)"
    and "bs_accepted s = bs_received s @ ch_buf (bs_chan s)"
    and "mset (bs_received s) = mset (bs_finished s) + running (bs_workers s)"
    and "ab_closed (bs_bus s) \<Longrightarrow> bs_publishers s = []"
    and "f \<in> set (bs_flushers s) \<Longrightarrow> flusher_ok s f"
    and "bs_crash s \<in> {None, Some WaitGroupReused, Some HandlerPanicked}"
  using assms by (simp_all add: books_def)

lemma chan_okD:
  assumes "chan_ok b"
  obtains ch where "ab_queue b = Some ch" "0 < ch_cap ch" "length (ch_buf ch) \<le> ch_cap ch"
    "ch_closed ch \<longrightarrow> ab_closed b" "ab_closeOnce b = ch_closed ch"
  using assms by (auto simp: chan_ok_def)

text \<open>Whatever only concerns the listeners, the world or a panic leaves the books alone.\<close>

lemma books_cong:
  assumes "books k s" and "bs_publishers t = bs_publishers s" "bs_flushers t = bs_flushers s"
    "running (bs_workers t) = running (bs_workers s)" "bs_accepted t = bs_accepted s"
    "bs_received t = bs_received s" "bs_finished t = bs_finished s"
    "ab_queue (bs_bus t) = ab_queue (bs_bus s)" "ab_wg (bs_bus t) = ab_wg (bs_bus s)"
    "ab_closed (bs_bus t) = ab_closed (bs_bus s)" "ab_closeOnce (bs_bus t) = ab_closeOnce (bs_bus s)"
    "bs_crash t \<in> {None, Some WaitGroupReused, Some HandlerPanicked}"
  shows "books k t"
proof -
  have "flusher_ok t f = flusher_ok s f" for f
    by (simp only: flusher_ok_def assms(2-))
  moreover have "outstanding t = outstanding s" "chan_ok (bs_bus t) = chan_ok (bs_bus s)"
    by (simp_all only: outstanding_def chan_ok_def assms(2-))
  ultimately show ?thesis using assms(1) unfolding books_def by (auto simp only: assms(2-))
qed

text \<open>The options a caller can construct.\<close>

definition bus_option :: "'w AsyncEventBus go_option \<Rightarrow> bool" where
  "bus_option opt \<longleftrightarrow> opt = None \<or> (\<exists>n. opt = WithEventQueueSize n)
     \<or> (\<exists>n. opt = WithEventWorkerCount n) \<or> (\<exists>h. opt = WithEventErrorHandler h)"

definition fresh_bus :: "'w AsyncEventBus \<Rightarrow> bool" where
  "fresh_bus b \<longleftrightarrow> (\<exists>ch. ab_queue b = Some ch \<and> 0 < ch_cap ch \<and> ch_buf ch = [] \<and> \<not> ch_closed ch)
     \<and> ab_wg b = 0
     \<and> \<not> ab_closeOnce b \<and> \<not> ab_closed b \<and> 0 < ab_workerCount b \<and> ab_listeners b = []"

lemma fresh_bus_options:
  fixes b :: "'w AsyncEventBus"
  assumes "\<forall>opt \<in> set opts. bus_option opt" and "fresh_bus b"
  shows "fresh_bus (option_Apply b opts)"
proof (rule option_Apply_inv [where P = fresh_bus, OF assms(2)])
  fix f and b :: "'w AsyncEventBus" assume "Some f \<in> set opts" "fresh_bus b"
  moreover from this have "bus_option (Some f)" using assms(1) by blast
  ultimately show "fresh_bus (f b)"
    unfolding bus_option_def
    by (elim disjE exE)
      (simp_all add: WithEventQueueSize_def WithEventWorkerCount_def WithEventErrorHandler_def
        fresh_bus_def make_chan_def)
qed

lemma bus_inv_New:
  assumes "\<forall>opt \<in> set opts. bus_option opt"
  shows "bus_inv (NewAsyncEventBus opts w)"
    and "bs_workers (NewAsyncEventBus opts w) \<noteq> []" "bs_crash (NewAsyncEventBus opts w) = None"
proof -
  let ?b = "option_Apply \<lparr>ab_listeners = [], ab_queue = Some (make_chan 64), ab_workerCount = 1,
      ab_errorHandler = None, ab_wg = 0, ab_closeOnce = False, ab_closed = False\<rparr> opts"
  have f: "fresh_bus ?b"
    by (rule fresh_bus_options [OF assms]) (simp add: fresh_bus_def make_chan_def)
  then have "NewAsyncEventBus opts w = \<lparr>bs_bus = ?b, bs_world = w, bs_publishers = [],
      bs_workers = replicate (nat (ab_workerCount ?b)) WorkerWaiting, bs_flushers = [],
      bs_crash = None, bs_accepted = [], bs_received = [], bs_finished = []\<rparr>"
    by (auto simp: NewAsyncEventBus_def Let_def fresh_bus_def)
  with f show "bus_inv (NewAsyncEventBus opts w)" "bs_workers (NewAsyncEventBus opts w) \<noteq> []"
    "bs_crash (NewAsyncEventBus opts w) = None"
    by (auto simp: fresh_bus_def books_def chan_ok_def outstanding_def)
qed

lemma books_Register: "bus_inv s \<Longrightarrow> AsyncEventBus_Register l s = Some t \<Longrightarrow> bus_inv t"
  by (frule booksD(7), erule books_cong)
    (auto simp: AsyncEventBus_Register_def split: option.splits if_splits)

lemma books_Clear: "bus_inv s \<Longrightarrow> AsyncEventBus_Clear s = Some t \<Longrightarrow> bus_inv t"
  by (frule booksD(7), erule books_cong) (auto simp: AsyncEventBus_Clear_def split: if_splits)

lemma books_publish_begin:
  assumes inv: "bus_inv s" and "publish_begin c ev s = Some t"
  shows "bus_inv t"
proof (cases "ab_closed (bs_bus s)")
  case True
  then show ?thesis using assms by (simp add: publish_begin_def Let_def)
next
  case False
  then obtain job where t: "t = s\<lparr>bs_bus := (bs_bus s)\<lparr>ab_wg := ab_wg (bs_bus s) + 1\<rparr>,
      bs_publishers := bs_publishers s @ [job]\<rparr>"
    using assms(2) by (auto simp: publish_begin_def Let_def)
  note d = booksD [OF inv]
  show ?thesis
  proof (rule booksI, goal_cases)
    case 1 show ?case using d(1) by (simp add: t chan_ok_def)
  next
    case 2 show ?case using d(2) by (simp add: t outstanding_def)
  next
    case (6 f)
    then have "flusher_ok s f" using d(6) by (simp add: t)
    then show ?case by (rule flusher_ok_keep [where ys = "[]"]) (use d(2) False in \<open>simp_all add: t\<close>)
  qed (use d(3,4,7) False in \<open>simp_all add: t\<close>)
qed

lemma drop_nth_length: "i < length xs \<Longrightarrow> length xs = Suc (length (drop_nth i xs))"
  by (cases xs) auto

lemma books_publish_send:
  assumes inv: "bus_inv s" and "publish_send i s = Some t"
  shows "bus_inv t"
proof -
  note d = booksD [OF inv]
  obtain ch where ch: "ab_queue (bs_bus s) = Some ch" "0 < ch_cap ch" "length (ch_buf ch) \<le> ch_cap ch"
    "ch_closed ch \<longrightarrow> ab_closed (bs_bus s)" "ab_closeOnce (bs_bus s) = ch_closed ch"
    using d(1) by (rule chan_okD)
  have i: "i < length (bs_publishers s)"
    using assms(2) by (simp add: publish_send_def split: if_splits)
  then have op: "\<not> ab_closed (bs_bus s)" "\<not> ch_closed ch" using d(5) ch(4) by auto
  have room: "length (ch_buf ch) < ch_cap ch" and
    t: "t = set_chan (ch\<lparr>ch_buf := ch_buf ch @ [bs_publishers s ! i]\<rparr>)
      (s\<lparr>bs_publishers := drop_nth i (bs_publishers s),
         bs_accepted := bs_accepted s @ [bs_publishers s ! i]\<rparr>)"
    using assms(2) i op ch(1) by (auto simp: publish_send_def Let_def split: if_splits)
  show ?thesis
  proof (rule booksI, goal_cases)
    case 1 show ?case using ch room by (simp add: t chan_ok_def)
  next
    case 2 show ?case using d(2) ch(1) drop_nth_length [OF i] by (simp add: t outstanding_def)
  next
    case (6 f)
    then have "flusher_ok s f" using d(6) by (simp add: t)
    then show ?case
      by (rule flusher_ok_keep [where ys = "[bs_publishers s ! i]"]) (use op in \<open>simp_all add: t\<close>)
  qed (use d(3,4,7) op ch(1) in \<open>simp_all add: t\<close>)
qed

lemma books_publish_cancel:
  assumes inv: "bus_inv s" and "publish_cancel i n s = Some t"
  shows "bus_inv t"
proof -
  from assms(2) have i: "i < length (bs_publishers s)"
    and t: "t = wg_Done (s\<lparr>bs_publishers := drop_nth i (bs_publishers s)\<rparr>)"
    by (auto simp: publish_cancel_def split: if_splits)
  let ?u = "s\<lparr>bs_publishers := drop_nth i (bs_publishers s)\<rparr>"
  note d = booksD [OF inv]
  have "books 1 ?u"
  proof (rule booksI, goal_cases)
    case 2 show ?case using d(2) drop_nth_length [OF i] by (simp add: outstanding_def)
  next
    case 5 then show ?case using d(5) i by simp
  next
    case (6 f)
    then have "flusher_ok s f" using d(6) by simp
    then show ?case by (rule flusher_ok_keep [where ys = "[]"]) simp_all
  qed (use d(1,3,4,7) in simp_all)
  from books_wg_Done [OF this] show ?thesis by (simp add: t)
qed

lemma worker_receiveE:
  assumes "worker_receive i s = Some t"
  obtains (leave) "i < length (bs_workers s)" "bs_workers s ! i = WorkerWaiting"
      "ch_buf (bs_chan s) = []" "ch_closed (bs_chan s)" "t = set_worker i WorkerLeft s"
    | (take) job rest where "i < length (bs_workers s)" "bs_workers s ! i = WorkerWaiting"
      "ch_buf (bs_chan s) = job # rest"
      "t = set_worker i (WorkerRunning job (job_listeners job))
        (set_chan ((bs_chan s)\<lparr>ch_buf := rest\<rparr>) (s\<lparr>bs_received := bs_received s @ [job]\<rparr>))"
  using assms by (auto simp: worker_receive_def split: if_splits worker_state.splits list.splits)

lemma worker_runE:
  assumes "worker_run i s = Some t"
  obtains (finish) job where "i < length (bs_workers s)" "bs_workers s ! i = WorkerRunning job []"
      "t = wg_Done (set_worker i WorkerWaiting (s\<lparr>bs_finished := bs_finished s @ [job]\<rparr>))"
    | (call) job l rest w where "i < length (bs_workers s)" "bs_workers s ! i = WorkerRunning job (l # rest)"
      "dispatch_one (job_ctx job) (job_event job) (job_errorHandler job) l (bs_world s) = (True, w)"
      "t = set_worker i (WorkerRunning job rest) (s\<lparr>bs_world := w\<rparr>)"
    | (panic) job l rest w where "i < length (bs_workers s)" "bs_workers s ! i = WorkerRunning job (l # rest)"
      "dispatch_one (job_ctx job) (job_event job) (job_errorHandler job) l (bs_world s) = (False, w)"
      "t = s\<lparr>bs_world := w, bs_crash := Some HandlerPanicked\<rparr>"
  using assms by (auto simp: worker_run_def split: if_splits worker_state.splits list.splits prod.splits bool.splits)

lemma books_worker_receive:
  assumes inv: "bus_inv s" and "worker_receive i s = Some t"
  shows "bus_inv t"
  using assms(2)
proof (cases rule: worker_receiveE)
  case leave
  show ?thesis
    using inv by (rule books_cong)
      (use booksD(7) [OF inv] running_leave [OF leave(1,2)] in \<open>simp_all add: leave(5) set_worker_def\<close>)
next
  case (take job rest)
  note d = booksD [OF inv] and t = take(4) and up = running_take_up [OF take(1,2)]
  obtain ch where ch: "ab_queue (bs_bus s) = Some ch" "0 < ch_cap ch" "length (ch_buf ch) \<le> ch_cap ch"
    "ch_closed ch \<longrightarrow> ab_closed (bs_bus s)" "ab_closeOnce (bs_bus s) = ch_closed ch"
    using d(1) by (rule chan_okD)
  with take(3) have buf: "ch_buf ch = job # rest" by simp
  show ?thesis
  proof (rule booksI, goal_cases)
    case 1 show ?case using ch buf by (simp add: t chan_ok_def set_worker_def)
  next
    case 2 show ?case using d(2) ch(1) buf up by (simp add: t outstanding_def set_worker_def)
  next
    case (6 f)
    then have "flusher_ok s f" using d(6) by (simp add: t set_worker_def)
    then show ?case by (rule flusher_ok_keep [where ys = "[]"]) (simp_all add: t set_worker_def)
  qed (use d(3,4,5,7) ch(1) buf up in \<open>simp_all add: t set_worker_def\<close>)
qed

lemma books_worker_run:
  assumes inv: "bus_inv s" and "worker_run i s = Some t"
  shows "bus_inv t"
  using assms(2)
proof (cases rule: worker_runE)
  case (finish job)
  let ?u = "set_worker i WorkerWaiting (s\<lparr>bs_finished := bs_finished s @ [job]\<rparr>)"
  note d = booksD [OF inv] and put = running_put_down [OF finish(1,2), symmetric]
  have "books 1 ?u"
  proof (rule booksI, goal_cases)
    case (6 f)
    then have "flusher_ok s f" using d(6) by (simp add: set_worker_def)
    then show ?case by (rule flusher_ok_keep [where ys = "[]"]) (simp_all add: set_worker_def)
  qed (use d(1,2,3,4,5,7) put in \<open>simp_all add: set_worker_def outstanding_def\<close>)
  from books_wg_Done [OF this] show ?thesis by (simp add: finish(3))
next
  case (call job l rest w)
  show ?thesis
    using inv by (rule books_cong)
      (use booksD(7) [OF inv] running_go_on [OF call(1,2), of rest] in
        \<open>simp_all add: call(4) set_worker_def\<close>)
next
  case (panic job l rest w)
  show ?thesis using inv by (rule books_cong) (simp_all add: panic(4))
qed

lemma books_set_flusher:
  assumes inv: "books k s" and i: "i < length (bs_flushers s)" and f: "flusher_ok s f"
  shows "books k (set_flusher i f s)"
proof -
  note d = booksD [OF inv]
  have "flusher_ok (set_flusher i f s) g = flusher_ok s g" for g
    by (simp add: flusher_ok_def set_flusher_def)
  then show ?thesis
    using d f set_update_subset_insert [of "bs_flushers s" i f]
    by (intro booksI) (auto simp: set_flusher_def outstanding_def)
qed

lemma books_flush_begin:
  assumes inv: "bus_inv s" and "caller = CloseCall \<Longrightarrow> ab_closed (bs_bus s)"
  shows "bus_inv (flush_begin c caller s)"
proof -
  note d = booksD [OF inv]
  have "flusher_ok (flush_begin c caller s) g = flusher_ok s g" for g
    by (simp add: flusher_ok_def flush_begin_def)
  moreover have "flusher_ok s \<lparr>fl_ctx = normalizeContext c, fl_wait = WaitStart,
      fl_caller = caller, fl_before = length (bs_accepted s)\<rparr>"
    using assms(2) by (simp add: flusher_ok_def)
  ultimately show ?thesis
    using d by (intro booksI) (auto simp: flush_begin_def outstanding_def)
qed

lemma books_close_begin:
  assumes inv: "bus_inv s" and "close_begin c s = Some t"
  shows "bus_inv t"
proof -
  let ?u = "s\<lparr>bs_bus := (bs_bus s)\<lparr>ab_closed := True\<rparr>\<rparr>"
  note d = booksD [OF inv]
  have p: "bs_publishers s = []" using assms(2) by (simp add: close_begin_def split: if_splits)
  have "bus_inv ?u" if op: "\<not> ab_closed (bs_bus s)"
  proof (rule booksI, goal_cases)
    case 1 show ?case using d(1) by (auto simp: chan_ok_def)
  next
    case (6 f)
    then have "flusher_ok s f" using d(6) by simp
    then show ?case by (rule flusher_ok_keep [where ys = "[]"]) (use op in simp_all)
  qed (use d(2,3,4,7) p in \<open>simp_all add: outstanding_def\<close>)
  then show ?thesis
    using assms p by (auto simp: close_begin_def intro!: books_flush_begin split: if_splits)
qed

lemma flusher_ok_nth: "bus_inv s \<Longrightarrow> i < length (bs_flushers s) \<Longrightarrow> flusher_ok s (bs_flushers s ! i)"
  by (simp add: booksD(6))

lemma books_flush_wait:
  assumes inv: "bus_inv s" and "flush_wait i s = Some t"
  shows "bus_inv t"
proof -
  define f where "f = bs_flushers s ! i"
  from assms(2) have i: "i < length (bs_flushers s)" by (simp add: flush_wait_def split: if_splits)
  from flusher_ok_nth [OF inv i] have ok: "flusher_ok s f" by (simp add: f_def)
  show ?thesis
  proof (cases "fl_wait f")
    case WaitStart
    have "ab_wg (bs_bus s) = 0 \<Longrightarrow> mset (take (fl_before f) (bs_accepted s)) \<subseteq># mset (bs_finished s)"
      using books_prefix_finished [OF inv] booksD(2) [OF inv] by simp
    with ok have "flusher_ok s (f\<lparr>fl_wait := (if ab_wg (bs_bus s) = 0 then WaitOver else WaitAsleep)\<rparr>)"
      by (auto simp: flusher_ok_def)
    from books_set_flusher [OF inv i this] show ?thesis
      using assms(2) i WaitStart by (simp add: flush_wait_def f_def Let_def)
  next
    case WaitWoken
    with ok have "flusher_ok s (f\<lparr>fl_wait := WaitOver\<rparr>)" by (simp add: flusher_ok_def)
    from books_set_flusher [OF inv i this] show ?thesis
      using assms(2) i WaitWoken inv
      by (auto simp: flush_wait_def f_def Let_def elim: books_cong split: if_splits)
  qed (use assms(2) i in \<open>simp_all add: flush_wait_def f_def Let_def\<close>)
qed

lemma books_flush_cancel:
  assumes inv: "bus_inv s" and "flush_cancel i n s = Some t"
  shows "bus_inv t"
proof -
  from assms(2) have i: "i < length (bs_flushers s)"
    and t: "t = set_flusher i ((bs_flushers s ! i)\<lparr>fl_caller := CallerGone\<rparr>) s"
    by (auto simp: flush_cancel_def Let_def split: if_splits)
  show ?thesis
    unfolding t using flusher_ok_nth [OF inv i] by (intro books_set_flusher inv i) (simp add: flusher_ok_def)
qed

lemma books_close_queue_once:
  assumes inv: "bus_inv s" and closed: "ab_closed (bs_bus s)"
  shows "bus_inv (close_queue_once s)"
proof (cases "ab_closeOnce (bs_bus s)")
  case False
  note d = booksD [OF inv]
  obtain ch where ch: "ab_queue (bs_bus s) = Some ch" "0 < ch_cap ch" "length (ch_buf ch) \<le> ch_cap ch"
    "ch_closed ch \<longrightarrow> ab_closed (bs_bus s)" "ab_closeOnce (bs_bus s) = ch_closed ch"
    using d(1) by (rule chan_okD)
  then have eq: "close_queue_once s =
      set_chan (ch\<lparr>ch_closed := True\<rparr>) (s\<lparr>bs_bus := (bs_bus s)\<lparr>ab_closeOnce := True\<rparr>\<rparr>)" (is "_ = ?t")
    using False by (simp add: close_queue_once_def Let_def)
  have "flusher_ok ?t g = flusher_ok s g" for g by (simp add: flusher_ok_def)
  then show ?thesis
    unfolding eq using d closed ch
    by (intro booksI) (auto simp: chan_ok_def outstanding_def)
qed (use inv in \<open>simp add: close_queue_once_def\<close>)

lemma books_flush_return:
  assumes inv: "bus_inv s" and "flush_return i s = Some t"
  shows "bus_inv t"
proof -
  let ?s = "set_flusher i ((bs_flushers s ! i)\<lparr>fl_caller := CallerGone\<rparr>) s"
  from assms(2) have i: "i < length (bs_flushers s)" by (simp add: flush_return_def split: if_splits)
  note ok = flusher_ok_nth [OF inv i]
  then have s: "bus_inv ?s" by (intro books_set_flusher inv i) (simp add: flusher_ok_def)
  have "ab_closed (bs_bus ?s)" if "fl_caller (bs_flushers s ! i) = CloseCall"
    using ok that by (simp add: flusher_ok_def set_flusher_def)
  then show ?thesis
    using assms(2) i s books_close_queue_once [OF s]
    by (auto simp: flush_return_def Let_def split: if_splits flush_caller.splits)
qed

lemma bus_inv_act: "bus_inv s \<Longrightarrow> bus_act a s = Some t \<Longrightarrow> bus_inv t"
  by (cases a)
    (auto simp: AsyncEventBus_Flush_def
      intro: books_Register books_Clear books_publish_begin books_publish_send books_publish_cancel
        books_worker_receive books_worker_run books_flush_begin books_close_begin books_flush_wait
        books_flush_return books_flush_cancel)

lemma bus_inv_run: "bus_run s as t \<Longrightarrow> bus_inv s \<Longrightarrow> bus_inv t"
  by (induction rule: bus_run.induct) (auto simp: bus_step_iff intro: bus_inv_act)

end
