(* ===== verification/Async_Properties.thy ===== *)
theory Async_Properties
  imports Async_Bus_Correct
begin

text \<open>
  What the asynchronous bus promises, over all interleavings: no misuse of the channel, what a
  return of \<open>Flush\<close> and \<open>Close\<close> means, the order of delivery with one worker and its equivalence
  with the synchronous bus, and that the workers always finish their backlog.
\<close>

subsection \<open>Where the error handler comes from\<close>

fun worker_jobs :: "'w worker_state \<Rightarrow> 'w asyncEventJob set" where
  "worker_jobs (WorkerRunning job rest) = {job}"
| "worker_jobs _ = {}"

definition held_jobs :: "'w bus_system \<Rightarrow> 'w asyncEventJob set" where
  "held_jobs s = set (bs_publishers s) \<union> set (ch_buf (bs_chan s)) \<union> (\<Union>x \<in> set (bs_workers s). worker_jobs x)"

definition handled_by :: "'w EventErrorHandler option \<Rightarrow> 'w bus_system \<Rightarrow> bool" where
  "handled_by h s \<longleftrightarrow> ab_errorHandler (bs_bus s) = h \<and> (\<forall>job \<in> held_jobs s. job_errorHandler job = h)"

lemma set_drop_nth: "set (drop_nth i xs) \<subseteq> set xs"
  by (induction i xs rule: drop_nth.induct) auto

lemma worker_jobs_update:
  "(\<Union>x \<in> set (xs[i := y]). worker_jobs x) \<subseteq> (\<Union>x \<in> set xs. worker_jobs x) \<union> worker_jobs y"
  using set_update_subset_insert by fastforce

lemma handled_by_mono:
  "handled_by h s \<Longrightarrow> ab_errorHandler (bs_bus t) = ab_errorHandler (bs_bus s) \<Longrightarrow>
   held_jobs t \<subseteq> held_jobs s \<Longrightarrow> handled_by h t"
  by (auto simp: handled_by_def)

lemma set_worker_sel [simp]:
  "bs_bus (set_worker i x s) = bs_bus s" "bs_publishers (set_worker i x s) = bs_publishers s"
  "bs_workers (set_worker i x s) = (bs_workers s)[i := x]" "bs_flushers (set_worker i x s) = bs_flushers s"
  "bs_crash (set_worker i x s) = bs_crash s" "bs_world (set_worker i x s) = bs_world s"
  "bs_accepted (set_worker i x s) = bs_accepted s" "bs_received (set_worker i x s) = bs_received s"
  "bs_finished (set_worker i x s) = bs_finished s"
  by (simp_all add: set_worker_def)

lemma set_flusher_sel [simp]:
  "bs_bus (set_flusher i f s) = bs_bus s" "bs_publishers (set_flusher i f s) = bs_publishers s"
  "bs_workers (set_flusher i f s) = bs_workers s" "bs_flushers (set_flusher i f s) = (bs_flushers s)[i := f]"
  "bs_crash (set_flusher i f s) = bs_crash s" "bs_world (set_flusher i f s) = bs_world s"
  "bs_accepted (set_flusher i f s) = bs_accepted s" "bs_received (set_flusher i f s) = bs_received s"
  "bs_finished (set_flusher i f s) = bs_finished s"
  by (simp_all add: set_flusher_def)

lemma worker_jobs_nth: "i < length xs \<Longrightarrow> worker_jobs (xs ! i) \<subseteq> (\<Union>x \<in> set xs. worker_jobs x)"
  using nth_mem by fastforce

lemma close_queue_once_sel [simp]:
  "bs_publishers (close_queue_once s) = bs_publishers s" "bs_workers (close_queue_once s) = bs_workers s"
  "bs_flushers (close_queue_once s) = bs_flushers s" "bs_world (close_queue_once s) = bs_world s"
  "bs_accepted (close_queue_once s) = bs_accepted s" "bs_received (close_queue_once s) = bs_received s"
  "bs_finished (close_queue_once s) = bs_finished s" "ab_wg (bs_bus (close_queue_once s)) = ab_wg (bs_bus s)"
  "ab_closed (bs_bus (close_queue_once s)) = ab_closed (bs_bus s)"
  "ab_errorHandler (bs_bus (close_queue_once s)) = ab_errorHandler (bs_bus s)"
  "ch_buf (bs_chan (close_queue_once s)) = ch_buf (bs_chan s)"
  by (simp_all add: close_queue_once_def Let_def)

lemma held_jobs_worker:
  assumes "i < length (bs_workers s)" and "bs_workers t = (bs_workers s)[i := x]"
    and "worker_jobs x \<subseteq> held_jobs s" and "bs_publishers t = bs_publishers s"
    and "set (ch_buf (bs_chan t)) \<subseteq> set (ch_buf (bs_chan s))"
  shows "held_jobs t \<subseteq> held_jobs s"
  using assms worker_jobs_update [of "bs_workers s" i x] unfolding held_jobs_def by auto

lemma handled_by_act: "handled_by h s \<Longrightarrow> bus_act a s = Some t \<Longrightarrow> handled_by h t"
proof (cases a)
  case (PublishBegin c ev)
  assume "handled_by h s" "bus_act a s = Some t"
  with PublishBegin show ?thesis
    by (auto simp: publish_begin_def Let_def handled_by_def held_jobs_def split: if_splits)
next
  case (PublishSend i)
  assume s: "handled_by h s" and t: "bus_act a s = Some t"
  show ?thesis
    by (rule handled_by_mono [OF s])
      (use t PublishSend set_drop_nth [of i "bs_publishers s"] in
        \<open>auto simp: publish_send_def Let_def held_jobs_def split: if_splits\<close>)
next
  case (PublishCancel i n)
  assume s: "handled_by h s" and t: "bus_act a s = Some t"
  show ?thesis
    by (rule handled_by_mono [OF s])
      (use t PublishCancel set_drop_nth [of i "bs_publishers s"] in
        \<open>auto simp: publish_cancel_def held_jobs_def split: if_splits\<close>)
next
  case (WorkerReceive i)
  assume s: "handled_by h s" and "bus_act a s = Some t"
  then have "worker_receive i s = Some t" by (simp add: WorkerReceive)
  then show ?thesis
  proof (cases rule: worker_receiveE)
    case leave
    show ?thesis
      by (intro handled_by_mono [OF s] held_jobs_worker [of i]) (use leave in auto)
  next
    case (take job rest)
    show ?thesis
      by (intro handled_by_mono [OF s] held_jobs_worker [of i]) (use take in \<open>auto simp: held_jobs_def\<close>)
  qed
next
  case (WorkerRun i)
  assume s: "handled_by h s" and "bus_act a s = Some t"
  then have "worker_run i s = Some t" by (simp add: WorkerRun)
  then show ?thesis
  proof (cases rule: worker_runE)
    case (finish job)
    show ?thesis
      by (intro handled_by_mono [OF s] held_jobs_worker [of i]) (use finish in auto)
  next
    case (call job l rest w)
    have "worker_jobs (WorkerRunning job rest) \<subseteq> held_jobs s"
      using worker_jobs_nth [OF call(1)] call(2) by (auto simp: held_jobs_def)
    then show ?thesis
      by (intro handled_by_mono [OF s] held_jobs_worker [of i]) (use call in auto)
  next
    case (panic job l rest w)
    show ?thesis by (rule handled_by_mono [OF s]) (auto simp: panic(4) held_jobs_def)
  qed
qed (auto simp: AsyncEventBus_Register_def AsyncEventBus_Clear_def AsyncEventBus_Flush_def
    close_begin_def flush_begin_def flush_wait_def flush_return_def flush_cancel_def Let_def
    handled_by_def held_jobs_def split: option.splits if_splits wait_state.splits flush_caller.splits)

lemma close_queue_once_done [simp]: "ab_closeOnce (bs_bus (close_queue_once s))"
  by (simp add: close_queue_once_def Let_def set_chan_def)

subsection \<open>A bus that is published to and closed\<close>

text \<open>While nobody but \<open>Close\<close> waits, whoever waits does so on a closed bus.\<close>

definition quiet :: "'w bus_system \<Rightarrow> bool" where
  "quiet s \<longleftrightarrow> (\<forall>f \<in> set (bs_flushers s). ab_closed (bs_bus s)
     \<and> (fl_wait f \<in> {WaitWoken, WaitOver} \<longrightarrow> ab_wg (bs_bus s) = 0))"

lemma quiet_wg_Done:
  assumes "quiet s" and "0 < ab_wg (bs_bus s)"
  shows "quiet (wg_Done s)"
proof -
  have *: "ab_closed (bs_bus s) \<and> fl_wait f \<notin> {WaitWoken, WaitOver}" if "f \<in> set (bs_flushers s)" for f
    using assms that by (auto simp: quiet_def)
  then have "bs_flushers s \<noteq> [] \<Longrightarrow> ab_closed (bs_bus s)" by (meson last_in_set)
  with * assms(2) show ?thesis
    by (cases "ab_wg (bs_bus s) = 1") (auto simp: quiet_def wg_Done_def Let_def)
qed

lemma quiet_same:
  "quiet s \<Longrightarrow> bs_flushers t = bs_flushers s \<Longrightarrow> ab_closed (bs_bus t) = ab_closed (bs_bus s) \<Longrightarrow>
   ab_wg (bs_bus t) = ab_wg (bs_bus s) \<Longrightarrow> quiet t"
  by (simp add: quiet_def)

lemma quiet_set_flusher:
  assumes "quiet s" "i < length (bs_flushers s)"
    and "fl_wait f \<in> {WaitWoken, WaitOver} \<Longrightarrow>
           fl_wait (bs_flushers s ! i) \<in> {WaitWoken, WaitOver} \<or> ab_wg (bs_bus s) = 0"
  shows "quiet (set_flusher i f s)"
proof -
  have "ab_closed (bs_bus s)" using assms(1,2) nth_mem unfolding quiet_def by blast
  moreover have "fl_wait (bs_flushers s ! i) \<in> {WaitWoken, WaitOver} \<Longrightarrow> ab_wg (bs_bus s) = 0"
    using assms(1,2) nth_mem unfolding quiet_def by blast
  ultimately show ?thesis
    using assms set_update_subset_insert [of "bs_flushers s" i f] by (auto simp: quiet_def)
qed

lemma quiet_flush_wait:
  assumes "quiet s" and "flush_wait i s = Some t"
  shows "quiet t \<and> bs_crash t = bs_crash s"
proof -
  define f where "f = bs_flushers s ! i"
  from assms(2) have i: "i < length (bs_flushers s)" by (simp add: flush_wait_def split: if_splits)
  have woken: "fl_wait f = WaitWoken \<Longrightarrow> ab_wg (bs_bus s) = 0"
    using assms(1) i nth_mem unfolding quiet_def f_def by blast
  then obtain x where "t = set_flusher i (f\<lparr>fl_wait := x\<rparr>) s"
    and "x = WaitOver \<longrightarrow> ab_wg (bs_bus s) = 0" "x \<noteq> WaitWoken"
    using assms(2) i by (auto simp: flush_wait_def f_def Let_def split: wait_state.splits if_splits)
  then show ?thesis using quiet_set_flusher [OF assms(1) i, of "f\<lparr>fl_wait := x\<rparr>"] by auto
qed

lemma quiet_act:
  assumes inv: "bus_inv s" and q: "quiet s" and t: "bus_act a s = Some t"
    and a: "\<And>c. a \<noteq> FlushBegin c"
  shows "quiet t \<and> (bs_crash t = Some WaitGroupReused \<longrightarrow> bs_crash s = Some WaitGroupReused)"
proof -
  have q_drop: "quiet (s\<lparr>bs_publishers := ps\<rparr>)" for ps using q by (rule quiet_same) simp_all
  show ?thesis
  proof (cases a)
    case (Register l)
    then show ?thesis using q t by (auto simp: AsyncEventBus_Register_def quiet_def split: option.splits if_splits)
  next
    case Clear
    then show ?thesis using q t by (auto simp: AsyncEventBus_Clear_def quiet_def split: if_splits)
  next
    case (PublishBegin c ev)
    then show ?thesis using q t by (auto simp: publish_begin_def Let_def quiet_def split: if_splits)
  next
    case (PublishSend i)
    then show ?thesis using q t by (auto simp: publish_send_def Let_def quiet_def split: if_splits)
  next
    case (PublishCancel i n)
    then have i: "i < length (bs_publishers s)"
      and u: "t = wg_Done (s\<lparr>bs_publishers := drop_nth i (bs_publishers s)\<rparr>)"
      using t by (auto simp: publish_cancel_def split: if_splits)
    have "0 < ab_wg (bs_bus s)" using booksD(2) [OF inv] i by (auto simp: outstanding_def)
    then show ?thesis using quiet_wg_Done [OF q_drop] u by (auto simp: wg_Done_def Let_def)
  next
    case (WorkerReceive i)
    then have "worker_receive i s = Some t" using t by simp
    then show ?thesis by (cases rule: worker_receiveE) (use q in \<open>auto simp: quiet_def\<close>)
  next
    case (WorkerRun i)
    then have "worker_run i s = Some t" using t by simp
    then show ?thesis
    proof (cases rule: worker_runE)
      case (finish job)
      let ?u = "set_worker i WorkerWaiting (s\<lparr>bs_finished := bs_finished s @ [job]\<rparr>)"
      have "0 < ab_wg (bs_bus ?u)"
        using booksD(2) [OF inv] running_put_down [OF finish(1,2)]
        by (auto simp: outstanding_def dest: arg_cong [where f = size])
      moreover have "quiet ?u" using q by (rule quiet_same) simp_all
      ultimately show ?thesis using quiet_wg_Done [of ?u] finish(3) by (auto simp: wg_Done_def Let_def)
    qed (use q in \<open>auto simp: quiet_def\<close>)
  next
    case (FlushWait i)
    then show ?thesis using quiet_flush_wait [OF q] t by auto
  next
    case (FlushReturn i)
    then have i: "i < length (bs_flushers s)" using t by (simp add: flush_return_def split: if_splits)
    have "quiet (set_flusher i ((bs_flushers s ! i)\<lparr>fl_caller := CallerGone\<rparr>) s)"
      by (rule quiet_set_flusher [OF q i]) simp
    moreover from this have
      "quiet (close_queue_once (set_flusher i ((bs_flushers s ! i)\<lparr>fl_caller := CallerGone\<rparr>) s))"
      by (rule quiet_same) simp_all
    ultimately show ?thesis using t FlushReturn
      by (auto simp: flush_return_def Let_def close_queue_once_def set_chan_def
          split: if_splits flush_caller.splits)
  next
    case (FlushCancel i n)
    then have i: "i < length (bs_flushers s)"
      and u: "t = set_flusher i ((bs_flushers s ! i)\<lparr>fl_caller := CallerGone\<rparr>) s"
      using t by (auto simp: flush_cancel_def Let_def split: if_splits)
    have "quiet t" unfolding u by (rule quiet_set_flusher [OF q i]) simp
    then show ?thesis by (simp add: u)
  next
    case (CloseBegin c)
    then have "bs_publishers s = []" and u: "t = flush_begin c CloseCall (s\<lparr>bs_bus := (bs_bus s)\<lparr>ab_closed := True\<rparr>\<rparr>)"
      using t by (auto simp: close_begin_def flush_begin_def split: if_splits)
    show ?thesis using q unfolding u by (auto simp: quiet_def flush_begin_def)
  qed (use a in blast)
qed

text \<open>An error handler that never panics.\<close>

definition handler_returns :: "'w EventErrorHandler option \<Rightarrow> bool" where
  "handler_returns h \<longleftrightarrow> (case h of None \<Rightarrow> True | Some f \<Rightarrow> \<forall>c ev e w. fst (f c ev e w))"

lemma dispatch_one_returns: "handler_returns h \<Longrightarrow> fst (dispatch_one c ev h l w)"
  by (auto simp: handler_returns_def dispatch_one_def split: option.splits listener_outcome.splits
      prod.splits bool.splits)

lemma no_handler_panic:
  assumes "handled_by h s" and "handler_returns h" and "bus_act a s = Some t"
  shows "bs_crash t = Some HandlerPanicked \<Longrightarrow> bs_crash s = Some HandlerPanicked"
proof (cases a)
  case (WorkerRun i)
  assume crash: "bs_crash t = Some HandlerPanicked"
  have "worker_run i s = Some t" using assms(3) WorkerRun by simp
  then show ?thesis
  proof (cases rule: worker_runE)
    case (panic job l rest w)
    have "job \<in> held_jobs s" using worker_jobs_nth [OF panic(1)] panic(2) by (auto simp: held_jobs_def)
    then have "job_errorHandler job = h" using assms(1) by (simp add: handled_by_def)
    with dispatch_one_returns [OF assms(2)] panic(3) show ?thesis by (metis fst_conv)
  qed (use crash in \<open>auto simp: wg_Done_def Let_def split: if_splits\<close>)
next
  case (WorkerReceive i)
  assume crash: "bs_crash t = Some HandlerPanicked"
  have "worker_receive i s = Some t" using assms(3) WorkerReceive by simp
  then show ?thesis by (cases rule: worker_receiveE) (use crash in auto)
qed (use assms(3) in \<open>auto simp: AsyncEventBus_Register_def AsyncEventBus_Clear_def AsyncEventBus_Flush_def
    publish_begin_def publish_send_def publish_cancel_def wg_Done_def close_queue_once_def
    set_flusher_def set_chan_def
    close_begin_def flush_begin_def flush_wait_def flush_return_def flush_cancel_def Let_def
    split: option.splits if_splits wait_state.splits flush_caller.splits\<close>)

lemma handled_by_New: "handled_by (ab_errorHandler (bs_bus (NewAsyncEventBus opts w))) (NewAsyncEventBus opts w)"
  if "\<forall>opt \<in> set opts. bus_option opt"
proof -
  have "bs_publishers (NewAsyncEventBus opts w) = []" "bs_accepted (NewAsyncEventBus opts w) = []"
    "set (bs_workers (NewAsyncEventBus opts w)) \<subseteq> {WorkerWaiting}"
    by (auto simp: NewAsyncEventBus_def Let_def)
  moreover have "ch_buf (bs_chan (NewAsyncEventBus opts w)) = []"
    using booksD(3) [OF bus_inv_New(1) [OF that], of w] calculation(2) by simp
  ultimately show ?thesis by (fastforce simp: handled_by_def held_jobs_def)
qed

lemma bus_run_panics:
  assumes run: "bus_run s as t" and start: "bus_inv s" "quiet s" "handled_by h s" "bs_crash s = None"
  shows "handled_by h t" and "bs_crash t = Some HandlerPanicked \<Longrightarrow> \<not> handler_returns h"
    and "\<forall>c. FlushBegin c \<notin> set as \<Longrightarrow> quiet t \<and> bs_crash t \<noteq> Some WaitGroupReused"
proof -
  from run start(3,4) have "handled_by h t \<and> (bs_crash t = Some HandlerPanicked \<longrightarrow> \<not> handler_returns h)"
  proof (induction rule: bus_run.induct)
    case (step s as t a u)
    then have "handled_by h t" "bs_crash t = None" "bus_act a t = Some u" by (auto simp: bus_step_iff)
    with handled_by_act no_handler_panic show ?case by fastforce
  qed simp
  then show "handled_by h t" "bs_crash t = Some HandlerPanicked \<Longrightarrow> \<not> handler_returns h" by auto
  from run start have "\<forall>c. FlushBegin c \<notin> set as \<Longrightarrow> quiet t \<and> bs_crash t \<noteq> Some WaitGroupReused"
  proof (induction rule: bus_run.induct)
    case (step s as t a u)
    then have t: "quiet t" "bs_crash t = None" "bus_act a t = Some u" "a \<notin> range FlushBegin"
      by (auto simp: bus_step_iff)
    have "bus_inv t" by (rule bus_inv_run [OF step.hyps(1) step.prems(2)])
    from quiet_act [OF this t(1,3)] t(2,4) show ?case by auto
  qed simp
  then show "\<forall>c. FlushBegin c \<notin> set as \<Longrightarrow> quiet t \<and> bs_crash t \<noteq> Some WaitGroupReused" .
qed

lemma quiet_New: "quiet (NewAsyncEventBus opts w)"
  by (simp add: quiet_def NewAsyncEventBus_def Let_def)

text \<open>C21: whatever publishers, workers, flushes and closes do, and in whatever order, the wait
  group of the asynchronous bus counts exactly the publications under way, the queued jobs and the
  running ones; no send hits a closed channel, the channel is closed at most once and the counter
  never falls below zero. The process can only go down by a panic in the error handler, which is
  impossible when the handler always returns, or by a reused wait group, which takes a call of
  \<open>Flush\<close>: a bus that is published to and closed is safe.\<close>

theorem async_bus_panics:
  assumes "\<forall>opt \<in> set opts. bus_option opt" and run: "bus_run (NewAsyncEventBus opts w) as t"
  shows "ab_wg (bs_bus t) = int (outstanding t)
      \<and> bs_crash t \<notin> {Some SendOnClosedChannel, Some CloseOfClosedChannel, Some NegativeWaitGroup}
      \<and> (bs_crash t = Some HandlerPanicked \<longrightarrow>
           \<not> handler_returns (ab_errorHandler (bs_bus (NewAsyncEventBus opts w))))
      \<and> (bs_crash t = Some WaitGroupReused \<longrightarrow> (\<exists>c. FlushBegin c \<in> set as))"
proof -
  note new = bus_inv_New [OF assms(1)]
  have inv: "bus_inv t" by (rule bus_inv_run [OF run new(1)])
  note p = bus_run_panics [OF run new(1) quiet_New handled_by_New [OF assms(1)] new(3)]
  show ?thesis using booksD(2,7) [OF inv] p(2,3) by auto
qed

text \<open>A bus of one worker and a queue of one place, an event that is published, delivered to a
  panicking listener, and a close.\<close>

definition demo_event :: Event where
  "demo_event = new_Event EventLogin ''u'' ''login'' ''t''"

definition demo_listener :: "nat listener" where
  "demo_listener c ev w = (if w = 0 then HandleOk else HandlePanic, w + 1)"

definition demo_actions :: "nat bus_action list" where
  "demo_actions = [Register (Some demo_listener), PublishBegin None demo_event, PublishSend 0,
     WorkerReceive 0, PublishBegin None demo_event, PublishSend 0, WorkerRun 0, WorkerRun 0,
     CloseBegin None, FlushWait 0, PublishBegin None demo_event, WorkerReceive 0, WorkerRun 0,
     WorkerRun 0, FlushWait 0, FlushReturn 0, WorkerReceive 0]"

lemmas bus_eval = NewAsyncEventBus_def WithEventQueueSize_def make_chan_def demo_actions_def
  demo_listener_def AsyncEventBus_Register_def publish_begin_def publish_send_def worker_receive_def
  worker_run_def wg_Done_def wake_def close_begin_def flush_begin_def flush_wait_def flush_return_def
  close_queue_once_def set_chan_def set_worker_def set_flusher_def dispatch_one_def
  AsyncEventBus_Flush_def Let_def

lemma demo_run:
  "\<exists>t. bus_run (NewAsyncEventBus [WithEventQueueSize 1] 0) demo_actions t
     \<and> bs_crash t = None \<and> bs_world t = 2 \<and> bs_workers t = [WorkerLeft] \<and> length (bs_finished t) = 2"
proof -
  have "\<exists>t. bus_exec demo_actions (NewAsyncEventBus [WithEventQueueSize 1] 0) = Some t
     \<and> bs_crash t = None \<and> bs_world t = 2 \<and> bs_workers t = [WorkerLeft] \<and> length (bs_finished t) = 2"
    by (simp add: bus_eval)
  then show ?thesis using bus_exec_run by blast
qed

theorem async_bus_panics_witness:
  "\<exists>t. bus_run (NewAsyncEventBus [WithEventQueueSize 1] 0) demo_actions t
     \<and> ab_wg (bs_bus t) = int (outstanding t) \<and> length (bs_finished t) = 2
     \<and> bs_crash t \<noteq> Some WaitGroupReused"
proof -
  obtain t where t: "bus_run (NewAsyncEventBus [WithEventQueueSize 1] 0) demo_actions t"
    "length (bs_finished t) = 2" using demo_run by blast
  have "\<forall>opt \<in> set [WithEventQueueSize 1]. bus_option opt" by (auto simp: bus_option_def)
  from async_bus_panics [OF this t(1)] t show ?thesis by (auto simp: demo_actions_def)
qed

text \<open>A call of \<open>Flush\<close> can bring the process down, as this run of a default bus without any listener
  shows, in which a flush sleeps on one publication, the worker finishes it and wakes the flush, and
  a second publication arrives before the flush looks again: \<open>sync.WaitGroup\<close> then panics in a
  goroutine that nobody recovers.\<close>

lemma Flush_races_Publish:
  "\<exists>as t. bus_run (NewAsyncEventBus [] (0 :: nat)) as t \<and> bs_crash t = Some WaitGroupReused
     \<and> (\<forall>l. Register l \<notin> set as) \<and> (\<forall>c. CloseBegin c \<notin> set as)"
proof -
  let ?as = "[PublishBegin None demo_event, PublishSend 0, FlushBegin None, FlushWait 0,
     WorkerReceive 0, WorkerRun 0, PublishBegin None demo_event, FlushWait 0] :: nat bus_action list"
  have "\<exists>t. bus_exec ?as (NewAsyncEventBus [] 0) = Some t \<and> bs_crash t = Some WaitGroupReused"
    by (simp add: bus_eval)
  then obtain t where "bus_run (NewAsyncEventBus [] 0) ?as t" "bs_crash t = Some WaitGroupReused"
    using bus_exec_run by blast
  then show ?thesis by (intro exI [of _ ?as] exI [of _ t]) auto
qed

subsection \<open>What a return of Flush or Close means\<close>

text \<open>C24: when \<open>Flush\<close> returns nil, every job accepted before it was called has been run to its end
  by a worker; when \<open>Close\<close> returns nil, this holds of every job ever accepted, the bus is closed and
  so is its channel, and no publication is under way.\<close>

theorem Flush_and_Close_wait:
  assumes "\<forall>opt \<in> set opts. bus_option opt" and "bus_run (NewAsyncEventBus opts w) as s"
    and "flush_return i s = Some t"
  shows "mset (take (fl_before (bs_flushers s ! i)) (bs_accepted t)) \<subseteq># mset (bs_finished t)
    \<and> (fl_caller (bs_flushers s ! i) = CloseCall \<longrightarrow> mset (bs_finished t) = mset (bs_accepted t)
         \<and> ab_closed (bs_bus t) \<and> ch_closed (bs_chan t) \<and> bs_publishers t = [])"
proof -
  have inv: "bus_inv s" by (rule bus_inv_run [OF assms(2) bus_inv_New(1) [OF assms(1)]])
  let ?f = "bs_flushers s ! i"
  from assms(3) have i: "i < length (bs_flushers s)" and over: "fl_wait ?f = WaitOver"
    by (auto simp: flush_return_def Let_def split: if_splits)
  have ok: "flusher_ok s ?f" by (rule flusher_ok_nth [OF inv i])
  have same: "bs_accepted t = bs_accepted s" "bs_finished t = bs_finished s"
    "bs_publishers t = bs_publishers s" "ab_closed (bs_bus t) = ab_closed (bs_bus s)"
    using assms(3) by (auto simp: flush_return_def Let_def split: if_splits flush_caller.splits)
  have inv_t: "bus_inv t" by (rule books_flush_return [OF inv assms(3)])
  have "mset (bs_finished s) = mset (bs_accepted s) \<and> ab_closed (bs_bus s) \<and> ch_closed (bs_chan t)
      \<and> bs_publishers s = []" if close: "fl_caller ?f = CloseCall"
  proof -
    have c: "ab_closed (bs_bus s)" "ab_wg (bs_bus s) = 0" using ok over close by (auto simp: flusher_ok_def)
    then have "outstanding s = 0" using booksD(2) [OF inv] by simp
    then have "mset (bs_accepted s) = mset (bs_finished s)" by (rule books_finished_all [OF inv])
    moreover have "ab_closeOnce (bs_bus t)"
      using assms(3) i over close by (auto simp: flush_return_def Let_def)
    then have "ch_closed (bs_chan t)" using chan_okD [OF booksD(1) [OF inv_t]] by (metis option.sel)
    ultimately show ?thesis using c booksD(5) [OF inv] by auto
  qed
  with ok over show ?thesis by (auto simp: same flusher_ok_def)
qed

theorem Flush_and_Close_wait_witness:
  "\<exists>s t. bus_run (NewAsyncEventBus [WithEventQueueSize 1] 0) (take 15 demo_actions) s
     \<and> flush_return 0 s = Some t \<and> length (bs_accepted t) = 2 \<and> mset (bs_finished t) = mset (bs_accepted t)
     \<and> ch_closed (bs_chan t)"
proof -
  have "\<exists>s t. bus_exec (take 15 demo_actions) (NewAsyncEventBus [WithEventQueueSize 1] 0) = Some s
     \<and> flush_return 0 s = Some t \<and> length (bs_accepted t) = 2 \<and> fl_caller (bs_flushers s ! 0) = CloseCall"
    by (simp add: bus_eval)
  then obtain s t where s: "bus_run (NewAsyncEventBus [WithEventQueueSize 1] 0) (take 15 demo_actions) s"
    and t: "flush_return 0 s = Some t" "length (bs_accepted t) = 2" "fl_caller (bs_flushers s ! 0) = CloseCall"
    using bus_exec_run by blast
  have "\<forall>opt \<in> set [WithEventQueueSize 1]. bus_option opt" by (auto simp: bus_option_def)
  from Flush_and_Close_wait [OF this s t(1)] s t show ?thesis by blast
qed

subsection \<open>One worker delivers in order\<close>

definition job_effect :: "'w asyncEventJob \<Rightarrow> 'w \<Rightarrow> 'w" where
  "job_effect job w = snd (dispatch (job_ctx job) (job_event job) (job_errorHandler job) (job_listeners job) w)"

lemma dispatch_append:
  "dispatch c ev h (xs @ ys) w =
     (case dispatch c ev h xs w of (True, w) \<Rightarrow> dispatch c ev h ys w | (False, w) \<Rightarrow> (False, w))"
  by (induction xs arbitrary: w) (auto split: prod.splits bool.splits)

lemma dispatch_sync: "dispatch c ev None ls w = (True, SyncEventBus_Publish ls c ev w)"
  by (induction ls arbitrary: w)
    (auto simp: dispatch_one_def Let_def split: prod.splits bool.splits listener_outcome.splits)

text \<open>The effect of what is finished, and of the part of the running job that is done.\<close>

definition serial :: "'w \<Rightarrow> 'w bus_system \<Rightarrow> bool" where
  "serial w0 s \<longleftrightarrow> (\<exists>x. bs_workers s = [x] \<and> (case x of
      WorkerRunning job rest \<Rightarrow> bs_received s = bs_finished s @ [job]
        \<and> (\<exists>ls. job_listeners job = ls @ rest \<and>
             dispatch (job_ctx job) (job_event job) (job_errorHandler job) ls (fold job_effect (bs_finished s) w0)
             = (True, bs_world s))
    | _ \<Rightarrow> bs_received s = bs_finished s \<and> bs_world s = fold job_effect (bs_finished s) w0))"

lemma serial_same:
  "serial w0 s \<Longrightarrow> bs_workers t = bs_workers s \<Longrightarrow> bs_received t = bs_received s \<Longrightarrow>
   bs_finished t = bs_finished s \<Longrightarrow> bs_world t = bs_world s \<Longrightarrow> serial w0 t"
  by (simp only: serial_def)

lemma serial_act:
  assumes s: "serial w0 s" and t: "bus_act a s = Some t" and "bs_crash t \<noteq> Some HandlerPanicked"
  shows "serial w0 t"
proof (cases a)
  case (WorkerReceive i)
  have "worker_receive i s = Some t" using t WorkerReceive by simp
  then show ?thesis
  proof (cases rule: worker_receiveE)
    case leave
    with s show ?thesis by (auto simp: serial_def)
  next
    case (take job rest)
    with s show ?thesis by (auto simp: serial_def)
  qed
next
  case (WorkerRun i)
  have "worker_run i s = Some t" using t WorkerRun by simp
  then show ?thesis
  proof (cases rule: worker_runE)
    case (finish job)
    with s show ?thesis by (auto simp: serial_def job_effect_def)
  next
    case (call job l rest w)
    have "dispatch (job_ctx job) (job_event job) (job_errorHandler job) (ls @ [l]) v = (True, w)"
      if "dispatch (job_ctx job) (job_event job) (job_errorHandler job) ls v = (True, bs_world s)" for ls v
      by (simp add: dispatch_append that call(3))
    with s call show ?thesis by (fastforce simp: serial_def)
  next
    case (panic job l rest w)
    with assms(3) show ?thesis by simp
  qed
qed (rule serial_same [OF s],
    use t in \<open>auto simp: AsyncEventBus_Register_def AsyncEventBus_Clear_def AsyncEventBus_Flush_def
    publish_begin_def publish_send_def publish_cancel_def
    close_begin_def flush_begin_def flush_wait_def flush_return_def flush_cancel_def Let_def
    split: option.splits if_splits wait_state.splits flush_caller.splits\<close>)+

lemma accepted_handler:
  assumes "bus_run s as t" and "handled_by h s" and "bs_accepted s = []"
  shows "handled_by h t \<and> (\<forall>job \<in> set (bs_accepted t). job_errorHandler job = h)"
  using assms
proof (induction rule: bus_run.induct)
  case (step s as t a u)
  then have t: "handled_by h t" "\<forall>job \<in> set (bs_accepted t). job_errorHandler job = h"
    and a: "bus_act a t = Some u" by (auto simp: bus_step_iff)
  have "set (bs_accepted u) \<subseteq> set (bs_accepted t) \<union> held_jobs t"
  proof (cases a)
    case (WorkerReceive i)
    then have "worker_receive i t = Some u" using a by simp
    then show ?thesis by (cases rule: worker_receiveE) auto
  next
    case (WorkerRun i)
    then have "worker_run i t = Some u" using a by simp
    then show ?thesis by (cases rule: worker_runE) auto
  qed (use a in \<open>auto simp: AsyncEventBus_Register_def AsyncEventBus_Clear_def AsyncEventBus_Flush_def
      publish_begin_def publish_send_def publish_cancel_def held_jobs_def
      close_begin_def flush_begin_def flush_wait_def flush_return_def flush_cancel_def Let_def
      split: option.splits if_splits wait_state.splits flush_caller.splits\<close>)
  with t handled_by_act [OF t(1) a] show ?case by (auto simp: handled_by_def)
qed simp

lemma serial_run:
  assumes "bus_run s as t" and "serial w0 s" and "bs_crash t \<noteq> Some HandlerPanicked"
  shows "serial w0 t"
  using assms by (induction rule: bus_run.induct) (auto simp: bus_step_iff intro: serial_act)

text \<open>C22: with one worker the asynchronous bus is the synchronous bus, later. Whatever else happens,
  the jobs done so far are the first of those accepted, in that order; and whenever nothing is
  outstanding, the world is what the events would have made of it one after the other, each handed
  to the listeners of its publication: without an error handler, what \<open>SyncEventBus.Publish\<close> does.\<close>

theorem one_worker_in_order:
  assumes opts: "\<forall>opt \<in> set opts. bus_option opt"
    and one: "ab_workerCount (bs_bus (NewAsyncEventBus opts w)) = 1"
    and run: "bus_run (NewAsyncEventBus opts w) as t" and ok: "bs_crash t \<noteq> Some HandlerPanicked"
  shows "prefix (bs_finished t) (bs_accepted t)
    \<and> (outstanding t = 0 \<longrightarrow> bs_finished t = bs_accepted t \<and> bs_world t = fold job_effect (bs_accepted t) w)
    \<and> (ab_errorHandler (bs_bus (NewAsyncEventBus opts w)) = None \<longrightarrow>
         (\<forall>job \<in> set (bs_accepted t).
            job_effect job = SyncEventBus_Publish (job_listeners job) (job_ctx job) (job_event job)))"
proof -
  let ?s = "NewAsyncEventBus opts w"
  note new = bus_inv_New [OF opts]
  have inv: "bus_inv t" by (rule bus_inv_run [OF run new(1)])
  have s: "bs_accepted ?s = []" "bs_workers ?s = replicate (nat (ab_workerCount (bs_bus ?s))) WorkerWaiting"
    by (simp_all add: NewAsyncEventBus_def Let_def)
  have "serial w ?s"
    using s(2) one by (simp add: serial_def) (simp add: NewAsyncEventBus_def Let_def)
  then have t: "serial w t" by (rule serial_run [OF run _ ok])
  then have "prefix (bs_finished t) (bs_received t)"
    unfolding serial_def by (elim exE conjE) (rename_tac x, case_tac x, auto)
  then have "prefix (bs_finished t) (bs_accepted t)" by (simp add: booksD(3) [OF inv])
  moreover have "bs_finished t = bs_accepted t \<and> bs_world t = fold job_effect (bs_accepted t) w"
    if "outstanding t = 0"
  proof -
    have "running (bs_workers t) = {#}" "ch_buf (bs_chan t) = []" using that by (auto simp: outstanding_def)
    then show ?thesis using t booksD(3) [OF inv]
      unfolding serial_def by (elim exE conjE) (rename_tac x, case_tac x, auto)
  qed
  moreover have "job_effect job = SyncEventBus_Publish (job_listeners job) (job_ctx job) (job_event job)"
    if "ab_errorHandler (bs_bus ?s) = None" "job \<in> set (bs_accepted t)" for job
    using accepted_handler [OF run handled_by_New [OF opts] s(1)] that
    by (auto simp: job_effect_def dispatch_sync)
  ultimately show ?thesis by blast
qed

theorem one_worker_in_order_witness:
  "\<exists>t. bus_run (NewAsyncEventBus [WithEventQueueSize 1] 0) demo_actions t
     \<and> length (bs_finished t) = 2 \<and> prefix (bs_finished t) (bs_accepted t)"
proof -
  obtain t where t: "bus_run (NewAsyncEventBus [WithEventQueueSize 1] 0) demo_actions t"
    "length (bs_finished t) = 2" "bs_crash t = None" using demo_run by blast
  have "\<forall>opt \<in> set [WithEventQueueSize 1]. bus_option opt" by (auto simp: bus_option_def)
  from one_worker_in_order [OF this _ t(1)] t show ?thesis by (auto simp: bus_eval)
qed

subsection \<open>The workers finish\<close>

text \<open>The number of steps left, in publishers, queue and workers.\<close>

definition job_cost :: "'w asyncEventJob \<Rightarrow> nat" where
  "job_cost job = length (job_listeners job) + 2"

fun worker_cost :: "'w worker_state \<Rightarrow> nat" where
  "worker_cost WorkerWaiting = 1"
| "worker_cost (WorkerRunning job rest) = length rest + 2"
| "worker_cost WorkerLeft = 0"

definition backlog :: "'w bus_system \<Rightarrow> nat" where
  "backlog s = sum_list (map (\<lambda>job. job_cost job + 1) (bs_publishers s))
     + sum_list (map job_cost (ch_buf (bs_chan s))) + sum_list (map worker_cost (bs_workers s))"

definition work :: "'w bus_action \<Rightarrow> bool" where
  "work a \<longleftrightarrow> (\<exists>i. a \<in> {PublishSend i, WorkerReceive i, WorkerRun i})"

lemma sum_list_drop_nth:
  "i < length xs \<Longrightarrow> sum_list (map f (drop_nth i xs)) + f (xs ! i) = (sum_list (map f xs) :: nat)"
  by (induction i xs rule: drop_nth.induct) (auto simp: add_ac)

lemma worker_cost_update:
  "i < length ws \<Longrightarrow> sum_list (map worker_cost (ws[i := x])) + worker_cost (ws ! i)
     = sum_list (map worker_cost ws) + worker_cost x"
  by (induction ws arbitrary: i) (auto simp: nth_Cons' split: nat.split)

lemma backlog_work:
  assumes inv: "bus_inv s" and a: "work a" and t: "bus_act a s = Some t" "bs_crash t = None"
  shows "backlog s = Suc (backlog t)"
proof -
  from a consider i where "a = PublishSend i" | i where "a = WorkerReceive i" | i where "a = WorkerRun i"
    by (auto simp: work_def)
  then show ?thesis
  proof cases
    case (1 i)
    then have "i < length (bs_publishers s)" using t by (simp add: publish_send_def split: if_splits)
    with sum_list_drop_nth [OF this, of "\<lambda>job. job_cost job + 1"] 1 t show ?thesis
      by (auto simp: publish_send_def Let_def backlog_def split: if_splits)
  next
    case (2 i)
    then have "worker_receive i s = Some t" using t by simp
    then show ?thesis
    proof (cases rule: worker_receiveE)
      case leave
      with worker_cost_update [OF leave(1)] show ?thesis by (simp add: backlog_def)
    next
      case (take job rest)
      with worker_cost_update [OF take(1), of "WorkerRunning job (job_listeners job)"] show ?thesis
        by (simp add: backlog_def job_cost_def)
    qed
  next
    case (3 i)
    then have "worker_run i s = Some t" using t by simp
    then show ?thesis
    proof (cases rule: worker_runE)
      case (finish job)
      with worker_cost_update [OF finish(1), of WorkerWaiting] show ?thesis by (simp add: backlog_def)
    next
      case (call job l rest w)
      with worker_cost_update [OF call(1), of "WorkerRunning job rest"] show ?thesis
        by (simp add: backlog_def)
    qed (use t in simp)
  qed
qed

text \<open>A worker leaves when the channel is closed, and by then nothing is outstanding.\<close>

definition staffed :: "'w bus_system \<Rightarrow> bool" where
  "staffed s \<longleftrightarrow> bs_workers s \<noteq> [] \<and> (WorkerLeft \<in> set (bs_workers s) \<longrightarrow> ch_closed (bs_chan s))
     \<and> (ch_closed (bs_chan s) \<longrightarrow> ab_wg (bs_bus s) = 0)"

lemma closed_chan_bus: "books k s \<Longrightarrow> ch_closed (bs_chan s) \<Longrightarrow> ab_closed (bs_bus s)"
  using chan_okD [OF booksD(1)] by (metis option.sel)

lemma staffed_same:
  "staffed s \<Longrightarrow> bs_workers t = bs_workers s \<Longrightarrow> ch_closed (bs_chan t) = ch_closed (bs_chan s) \<Longrightarrow>
   (ch_closed (bs_chan s) \<Longrightarrow> ab_wg (bs_bus t) = ab_wg (bs_bus s)) \<Longrightarrow> staffed t"
  by (simp add: staffed_def)

lemma staffed_worker_run:
  assumes inv: "bus_inv s" and s: "staffed s" and t: "worker_run i s = Some t"
  shows "staffed t"
proof -
  have op: "\<not> ch_closed (bs_chan s)" if "WorkerRunning job rest \<in> set (bs_workers s)" for job rest
  proof
    assume "ch_closed (bs_chan s)"
    then have "outstanding s = 0" using s booksD(2) [OF inv] by (simp add: staffed_def)
    then show False using running_member [OF that] by (simp add: outstanding_def)
  qed
  have left: "WorkerLeft \<notin> set ((bs_workers s)[i := x])"
    if "x \<noteq> WorkerLeft" "\<not> ch_closed (bs_chan s)" for x
    using s that set_update_subset_insert [of "bs_workers s" i x] by (auto simp: staffed_def)
  from t show ?thesis
  proof (cases rule: worker_runE)
    case (finish job)
    then have "\<not> ch_closed (bs_chan s)" using op nth_mem by metis
    with finish s left [of WorkerWaiting] show ?thesis by (simp add: staffed_def)
  next
    case (call job l rest w)
    then have "\<not> ch_closed (bs_chan s)" using op nth_mem by metis
    with call s left [of "WorkerRunning job rest"] show ?thesis by (simp add: staffed_def)
  next
    case (panic job l rest w)
    show ?thesis by (rule staffed_same [OF s]) (simp_all add: panic(4))
  qed
qed

lemma staffed_act:
  assumes inv: "bus_inv s" and s: "staffed s" and t: "bus_act a s = Some t"
  shows "staffed t"
proof (cases a)
  case (PublishBegin c ev)
  then show ?thesis
    using t closed_chan_bus [OF inv] s by (auto simp: publish_begin_def Let_def staffed_def split: if_splits)
next
  case (PublishSend i)
  then show ?thesis using t s by (auto simp: publish_send_def Let_def staffed_def split: if_splits)
next
  case (PublishCancel i n)
  then have "i < length (bs_publishers s)"
    and u: "t = wg_Done (s\<lparr>bs_publishers := drop_nth i (bs_publishers s)\<rparr>)"
    using t by (auto simp: publish_cancel_def split: if_splits)
  then have "\<not> ch_closed (bs_chan s)" using closed_chan_bus [OF inv] booksD(5) [OF inv] by auto
  with s u show ?thesis by (simp add: staffed_def)
next
  case (WorkerReceive i)
  then have "worker_receive i s = Some t" using t by simp
  then show ?thesis
  proof (cases rule: worker_receiveE)
    case leave
    with s show ?thesis by (simp add: staffed_def)
  next
    case (take job rest)
    then show ?thesis
      using s set_update_subset_insert [of "bs_workers s" i "WorkerRunning job (job_listeners job)"]
      by (auto simp: staffed_def)
  qed
next
  case (WorkerRun i)
  then show ?thesis using staffed_worker_run [OF inv s] t by simp
next
  case (FlushReturn i)
  then have i: "i < length (bs_flushers s)" and over: "fl_wait (bs_flushers s ! i) = WaitOver"
    using t by (auto simp: flush_return_def Let_def split: if_splits)
  have "ab_wg (bs_bus s) = 0" if "fl_caller (bs_flushers s ! i) = CloseCall"
    using flusher_ok_nth [OF inv i] over that by (simp add: flusher_ok_def)
  then show ?thesis
    using t FlushReturn i over s
    by (auto simp: flush_return_def Let_def close_queue_once_def set_chan_def staffed_def
        split: flush_caller.splits if_splits)
qed (rule staffed_same [OF s], use t in \<open>auto simp: AsyncEventBus_Register_def AsyncEventBus_Clear_def
    AsyncEventBus_Flush_def close_begin_def flush_begin_def flush_wait_def flush_cancel_def Let_def
    split: option.splits if_splits wait_state.splits\<close>)+

lemma staffed_run: "bus_run s as t \<Longrightarrow> bus_inv s \<Longrightarrow> staffed s \<Longrightarrow> staffed t"
  by (induction rule: bus_run.induct) (auto simp: bus_step_iff intro: staffed_act bus_inv_run)

lemma staffed_New:
  assumes "\<forall>opt \<in> set opts. bus_option opt"
  shows "staffed (NewAsyncEventBus opts w)"
proof -
  let ?s = "NewAsyncEventBus opts w"
  have "bs_workers ?s = replicate (nat (ab_workerCount (bs_bus ?s))) WorkerWaiting"
    by (simp add: NewAsyncEventBus_def Let_def)
  moreover have "bs_publishers ?s = []" "bs_accepted ?s = []"
    by (simp_all add: NewAsyncEventBus_def Let_def)
  ultimately show ?thesis
    using bus_inv_New(2) [OF assms, of w] booksD(2,3) [OF bus_inv_New(1) [OF assms], of w]
    by (auto simp: staffed_def outstanding_def)
qed

text \<open>Something outstanding can always be worked on.\<close>

lemma work_enabled:
  assumes inv: "bus_inv s" and s: "staffed s" and "outstanding s > 0"
  shows "\<exists>a t. work a \<and> bus_act a s = Some t"
proof -
  obtain ch where ch: "ab_queue (bs_bus s) = Some ch" "0 < ch_cap ch"
    using booksD(1) [OF inv] by (auto elim: chan_okD)
  have op: "\<not> ch_closed ch" using s assms(3) booksD(2) [OF inv] ch(1) by (auto simp: staffed_def)
  show ?thesis
  proof (cases "\<exists>job rest. WorkerRunning job rest \<in> set (bs_workers s)")
    case True
    then obtain i job rest where i: "i < length (bs_workers s)" "bs_workers s ! i = WorkerRunning job rest"
      by (auto simp: in_set_conv_nth)
    then have "\<exists>t. worker_run i s = Some t"
      by (cases rest) (auto simp: worker_run_def split: prod.splits bool.splits)
    then show ?thesis unfolding work_def by (metis bus_act.simps(7) insertI1 insertI2)
  next
    case False
    have all: "x = WorkerWaiting" if "x \<in> set (bs_workers s)" for x
      using that False s op ch(1) by (cases rule: worker_state.exhaust [of x]) (auto simp: staffed_def)
    then have "set (bs_workers s) \<subseteq> {WorkerWaiting}" by blast
    then have r: "running (bs_workers s) = {#}"
      by (metis replicate_length_same running_replicate subsetD singletonD)
    show ?thesis
    proof (cases "ch_buf ch")
      case (Cons job rest)
      have "bs_workers s ! 0 = WorkerWaiting" "0 < length (bs_workers s)"
        using all s by (auto simp: staffed_def)
      then have "\<exists>t. worker_receive 0 s = Some t" using Cons ch by (simp add: worker_receive_def)
      then show ?thesis unfolding work_def by (metis bus_act.simps(6) insertI1 insertI2)
    next
      case Nil
      then have "bs_publishers s \<noteq> []" using assms(3) r ch by (simp add: outstanding_def)
      then have "\<exists>t. publish_send 0 s = Some t" using Nil ch op by (simp add: publish_send_def Let_def)
      then show ?thesis unfolding work_def by (metis bus_act.simps(4) insertI1)
    qed
  qed
qed

lemma work_run_length:
  assumes "bus_run s as t" and "bus_inv s" and "\<forall>a \<in> set as. work a" and "bs_crash t = None"
  shows "length as + backlog t = backlog s"
  using assms
proof (induction rule: bus_run.induct)
  case (step s as t a u)
  then have t: "bs_crash t = None" "bus_act a t = Some u" "work a" by (auto simp: bus_step_iff)
  have "bus_inv t" by (rule bus_inv_run [OF step.hyps(1) step.prems(1)])
  from backlog_work [OF this t(3,2)] step t show ?case by simp
qed simp

lemma work_crash:
  assumes "bus_inv u" and "handled_by h t" "handler_returns h" and "work a" "bus_act a t = Some u"
    and "bs_crash t = None"
  shows "bs_crash u = None"
proof -
  have "bs_crash u \<noteq> Some HandlerPanicked" using no_handler_panic [OF assms(2,3,5)] assms(6) by auto
  moreover have "bs_crash u \<noteq> Some WaitGroupReused"
    using assms(4-6) by (auto simp: work_def publish_send_def wg_Done_def Let_def
        split: if_splits elim!: worker_receiveE worker_runE)
  ultimately show ?thesis using booksD(7) [OF assms(1)] by auto
qed

text \<open>C23: the workers always finish. From any reachable state, with an error handler that returns,
  the goroutines that send and work take at most as many steps as the backlog counts, in whatever
  order they are scheduled; and as long as they can take none, nothing is outstanding: the wait group
  is at zero, so that \<open>Flush\<close> and \<open>Close\<close> return.\<close>

theorem async_bus_drains:
  assumes opts: "\<forall>opt \<in> set opts. bus_option opt"
    and handler: "handler_returns (ab_errorHandler (bs_bus (NewAsyncEventBus opts w)))"
    and run: "bus_run (NewAsyncEventBus opts w) bs s" and ok: "bs_crash s = None"
    and work: "bus_run s as t" "\<forall>a \<in> set as. work a"
  shows "length as \<le> backlog s
    \<and> ((\<nexists>a u. work a \<and> bus_step t a u) \<longrightarrow> ab_wg (bs_bus t) = 0 \<and> outstanding t = 0)"
proof -
  note new = bus_inv_New [OF opts]
  have s: "bus_inv s" "staffed s"
    by (rule bus_inv_run [OF run new(1)], rule staffed_run [OF run new(1) staffed_New [OF opts]])
  have t: "bus_inv t" "staffed t"
    by (rule bus_inv_run [OF work(1) s(1)], rule staffed_run [OF work(1) s])
  have h: "handled_by (ab_errorHandler (bs_bus (NewAsyncEventBus opts w))) s"
    using accepted_handler [OF run handled_by_New [OF opts]] by (simp add: NewAsyncEventBus_def Let_def)
  have crash: "bs_crash t = None"
    using work s(1) h ok
  proof (induction rule: bus_run.induct)
    case (step s as t a u)
    have run: "bus_run s (as @ [a]) u" using step.hyps by (rule bus_run.step)
    have "handled_by (ab_errorHandler (bs_bus (NewAsyncEventBus opts w))) t"
      using step.hyps(1) step.prems(3)
      by (induction rule: bus_run.induct) (auto simp: bus_step_iff intro: handled_by_act)
    with step handler show ?case
      by (auto simp: bus_step_iff intro: work_crash [OF bus_inv_run [OF run]])
  qed
  have "ab_wg (bs_bus t) = 0 \<and> outstanding t = 0" if stuck: "\<nexists>a u. work a \<and> bus_step t a u"
  proof -
    have "outstanding t = 0" using work_enabled [OF t] stuck crash unfolding bus_step_iff by blast
    then show ?thesis using booksD(2) [OF t(1)] by simp
  qed
  with work_run_length [OF work(1) s(1) work(2) crash] show ?thesis by simp
qed

theorem async_bus_drains_witness:
  "\<exists>s t. bus_run (NewAsyncEventBus [WithEventQueueSize 1] 0) (take 6 demo_actions) s
     \<and> bus_run s [WorkerRun 0, WorkerRun 0] t \<and> 2 \<le> backlog s \<and> outstanding s = 2"
proof -
  have "\<exists>s t. bus_exec (take 6 demo_actions) (NewAsyncEventBus [WithEventQueueSize 1] 0) = Some s
     \<and> bus_exec [WorkerRun 0, WorkerRun 0] s = Some t \<and> bs_crash s = None \<and> outstanding s = 2"
    by (simp add: bus_eval outstanding_def)
  then obtain s t where s: "bus_run (NewAsyncEventBus [WithEventQueueSize 1] 0) (take 6 demo_actions) s"
    and t: "bus_run s [WorkerRun 0, WorkerRun 0] t" and ok: "bs_crash s = None" "outstanding s = 2"
    using bus_exec_run by blast
  have opts: "\<forall>opt \<in> set [WithEventQueueSize 1]. bus_option opt" by (auto simp: bus_option_def)
  have h: "handler_returns (ab_errorHandler (bs_bus (NewAsyncEventBus [WithEventQueueSize 1] (0 :: nat))))"
    by (simp add: bus_eval handler_returns_def)
  have "\<forall>a \<in> set [WorkerRun 0, WorkerRun 0]. work a" by (auto simp: work_def)
  from async_bus_drains [OF opts h s ok(1) t this] s t ok show ?thesis by auto
qed

end
