(* ===== verification/Plugins.thy ===== *)
theory Plugins
  imports Go_Text Manager_Access
begin

text \<open>
  The plugins: the lookup of a token by sources (\<open>plugins/lookup.go\<close>), the authentication of a
  token (\<open>plugins/authenticate.go\<close>), the extractor and the middleware of \<open>net/http\<close>
  (\<open>plugins/http\<close>), the middleware of gin (\<open>plugins/gin\<close>) and the interceptors of gRPC
  (\<open>plugins/grpc\<close>). What gin and gRPC provide is a parameter.
\<close>

subsection \<open>Token lookup\<close>

type_synonym Source = string

definition SourceHeader :: Source where "SourceHeader = ''header''"
definition SourceAuthorization :: Source where "SourceAuthorization = ''authorization''"
definition SourceCookie :: Source where "SourceCookie = ''cookie''"
definition SourceQuery :: Source where "SourceQuery = ''query''"

lemmas source_defs = SourceHeader_def SourceAuthorization_def SourceCookie_def SourceQuery_def

definition DefaultAuthorizationKey :: string where
  "DefaultAuthorizationKey = ''Authorization''"

definition DefaultOrder :: "Source list" where
  "DefaultOrder = [SourceHeader, SourceAuthorization, SourceCookie]"

text \<open>A nil getter is \<open>None\<close>.\<close>

record Getters =
  gt_Header :: "(string \<Rightarrow> string) option"
  gt_Cookie :: "(string \<Rightarrow> string) option"
  gt_Query :: "(string \<Rightarrow> string) option"

record TokenLookup =
  tl_TokenName :: string
  tl_TokenPrefix :: string
  tl_AuthorizationKey :: string
  tl_Order :: "Source list"

definition TokenLookup_withDefaults :: "TokenLookup \<Rightarrow> TokenLookup" where
  "TokenLookup_withDefaults l =
     (let l = (if tl_TokenName l = [] then l\<lparr>tl_TokenName := DefaultTokenName\<rparr> else l);
          l = (if tl_AuthorizationKey l = [] then l\<lparr>tl_AuthorizationKey := DefaultAuthorizationKey\<rparr> else l)
      in if tl_Order l = [] then l\<lparr>tl_Order := DefaultOrder\<rparr> else l)"

text \<open>\<open>None\<close> is the result \<open>"", false\<close>.\<close>

definition TokenLookup_normalize :: "TokenLookup \<Rightarrow> string \<Rightarrow> TokenValue option" where
  "TokenLookup_normalize l value =
     (let value = TrimSpace value
      in if value = [] then None
         else
           let pfx = TrimSpace (tl_TokenPrefix l); fields = Fields value;
               finish = (\<lambda>value. let value = TrimSpace value in if value = [] then None else Some value)
           in if pfx \<noteq> [] \<and> length fields = 1 \<and> EqualFold (fields ! 0) pfx then None
              else if pfx \<noteq> [] \<and> length fields \<ge> 2 \<and> EqualFold (fields ! 0) pfx
              then finish (TrimSpace (TrimPrefix value (fields ! 0)))
              else finish value)"

definition lookup_source :: "TokenLookup \<Rightarrow> Getters \<Rightarrow> Source \<Rightarrow> TokenValue option" where
  "lookup_source l g source =
     (let get = (\<lambda>getter key. case getter of None \<Rightarrow> None | Some f \<Rightarrow> TokenLookup_normalize l (f key))
      in if source = SourceHeader then get (gt_Header g) (tl_TokenName l)
         else if source = SourceAuthorization then get (gt_Header g) (tl_AuthorizationKey l)
         else if source = SourceCookie then get (gt_Cookie g) (tl_TokenName l)
         else if source = SourceQuery then get (gt_Query g) (tl_TokenName l)
         else None)"

fun resolve_loop :: "TokenLookup \<Rightarrow> Getters \<Rightarrow> Source list \<Rightarrow> TokenValue option" where
  "resolve_loop l g [] = None"
| "resolve_loop l g (source # order) =
     (case lookup_source l g source of Some token \<Rightarrow> Some token | None \<Rightarrow> resolve_loop l g order)"

definition Resolve :: "TokenLookup \<Rightarrow> Getters \<Rightarrow> TokenValue option" where
  "Resolve l g = (let l = TokenLookup_withDefaults l in resolve_loop l g (tl_Order l))"

subsection \<open>Authentication\<close>

text \<open>The nil Manager is \<open>None\<close>; the nil context that \<open>NewAuthContext\<close> gives for a nil state does not occur.\<close>

definition Authenticate ::
    "ctx \<Rightarrow> 'x env_scheme manager option \<Rightarrow> TokenValue \<Rightarrow> ('x, AuthContext option) eop" where
  "Authenticate c m token =
     (case m of
        None \<Rightarrow> throw ErrNotLogin
      | Some m \<Rightarrow>
          bindE (GetTokenState m c token) (\<lambda>state.
          if ts_Kind state \<noteq> TokenKindAccess then throw ErrTokenInvalid
          else ret (NewAuthContext (Some state))))"

subsection \<open>Cookies\<close>

text \<open>\<open>http.SameSite\<close> is an int, its constants are numbered from 1.\<close>

type_synonym SameSite = int

definition SameSiteDefaultMode :: SameSite where "SameSiteDefaultMode = 1"
definition SameSiteLaxMode :: SameSite where "SameSiteLaxMode = 2"
definition SameSiteStrictMode :: SameSite where "SameSiteStrictMode = 3"
definition SameSiteNoneMode :: SameSite where "SameSiteNoneMode = 4"

record CookieConfig =
  cc_Name :: string
  cc_Path :: string
  cc_Domain :: string
  cc_Secure :: bool
  cc_HttpOnly :: bool
  cc_SameSite :: SameSite

definition DefaultCookieConfig :: CookieConfig where
  "DefaultCookieConfig = \<lparr>cc_Name = DefaultTokenName, cc_Path = ''/'', cc_Domain = [],
     cc_Secure = False, cc_HttpOnly = True, cc_SameSite = SameSiteLaxMode\<rparr>"

text \<open>\<open>http.Cookie\<close>, as far as the program sets it.\<close>

record http_cookie =
  hc_Name :: string
  hc_Value :: string
  hc_Path :: string
  hc_Domain :: string
  hc_Expires :: "time option"
  hc_MaxAge :: int
  hc_Secure :: bool
  hc_HttpOnly :: bool
  hc_SameSite :: SameSite

subsection \<open>Requests, responses and the extractor\<close>

text \<open>
  A request holds its context, its header by canonical key, its cookies and its query parameters;
  a response the status and the cookies that were written. A handler also acts on the world.
\<close>

record http_request =
  rq_ctx :: go_context
  rq_header :: "string \<Rightarrow> string list"
  rq_cookies :: "(string \<times> string) list"
  rq_query :: "string \<Rightarrow> string list"

record http_response =
  rs_status :: "int option"
  rs_set_cookies :: "http_cookie list"
  rs_body :: string

text \<open>The canonical form of a header key; a key with a byte that no header field may have is kept.\<close>

definition token_byte :: "char \<Rightarrow> bool" where
  "token_byte c \<longleftrightarrow> c \<in> set (''!#$%&'' @ [CHR 0x27] @ ''*+-.^_`|~'')
     \<or> (let n = of_char c :: nat in 48 \<le> n \<and> n \<le> 57 \<or> 65 \<le> n \<and> n \<le> 90 \<or> 97 \<le> n \<and> n \<le> 122)"

fun canonical_bytes :: "bool \<Rightarrow> string \<Rightarrow> string" where
  "canonical_bytes upper [] = []"
| "canonical_bytes upper (c # s) =
     (if upper then ascii_upper c else ascii_lower c) # canonical_bytes (c = CHR ''-'') s"

definition CanonicalHeaderKey :: "string \<Rightarrow> string" where
  "CanonicalHeaderKey s = (if list_all token_byte s then canonical_bytes True s else s)"

definition first_value :: "string list \<Rightarrow> string" where
  "first_value vs = (case vs of [] \<Rightarrow> [] | v # _ \<Rightarrow> v)"

definition Header_Get :: "http_request \<Rightarrow> string \<Rightarrow> string" where
  "Header_Get r key = first_value (rq_header r (CanonicalHeaderKey key))"

definition Query_Get :: "http_request \<Rightarrow> string \<Rightarrow> string" where
  "Query_Get r key = first_value (rq_query r key)"

text \<open>\<open>r.Cookie(name)\<close>: the first cookie of the name; \<open>None\<close> is \<open>ErrNoCookie\<close>.\<close>

definition request_Cookie :: "http_request \<Rightarrow> string \<Rightarrow> string option" where
  "request_Cookie r name = (if name = [] then None else map_of (rq_cookies r) name)"

type_synonym 'w http_handler =
  "http_response \<Rightarrow> http_request option \<Rightarrow> 'w \<Rightarrow> http_response \<times> 'w"

record 'w http_options =
  ho_tokenName :: string
  ho_tokenPrefix :: string
  ho_unauthorized :: "'w http_handler option"
  ho_authorizationKey :: string
  ho_allowQuery :: bool
  ho_readCookie :: bool
  ho_cookieConfig :: CookieConfig

definition WithTokenName :: "string \<Rightarrow> 'w http_options go_option" where
  "WithTokenName name = Some (\<lambda>os. if name \<noteq> [] then os\<lparr>ho_tokenName := name\<rparr> else os)"

definition WithTokenPrefix :: "string \<Rightarrow> 'w http_options go_option" where
  "WithTokenPrefix pfx = Some (\<lambda>os. os\<lparr>ho_tokenPrefix := pfx\<rparr>)"

definition WithUnauthorized :: "'w http_handler option \<Rightarrow> 'w http_options go_option" where
  "WithUnauthorized handler =
     Some (\<lambda>os. case handler of None \<Rightarrow> os | Some h \<Rightarrow> os\<lparr>ho_unauthorized := Some h\<rparr>)"

definition WithQueryToken :: "'w http_options go_option" where
  "WithQueryToken = Some (\<lambda>os. os\<lparr>ho_allowQuery := True\<rparr>)"

definition WithCookieConfig :: "CookieConfig \<Rightarrow> 'w http_options go_option" where
  "WithCookieConfig config =
     (let config = (if cc_Name config = [] then config\<lparr>cc_Name := DefaultTokenName\<rparr> else config)
      in Some (\<lambda>os. os\<lparr>ho_cookieConfig := config\<rparr>))"

definition WithCookieRead :: "bool \<Rightarrow> 'w http_options go_option" where
  "WithCookieRead enabled = Some (\<lambda>os. os\<lparr>ho_readCookie := enabled\<rparr>)"

record 'w Extractor =
  ex_opts :: "'w http_options"
  ex_lookup :: TokenLookup

definition NewExtractor :: "'w http_options go_option list \<Rightarrow> 'w Extractor" where
  "NewExtractor opts =
     (let os = \<lparr>ho_tokenName = DefaultTokenName, ho_tokenPrefix = [], ho_unauthorized = None,
               ho_authorizationKey = DefaultAuthorizationKey, ho_allowQuery = False,
               ho_readCookie = True, ho_cookieConfig = DefaultCookieConfig\<lparr>cc_Name := []\<rparr>\<rparr>;
          os = option_Apply os opts;
          os = (if ho_tokenName os = [] then os\<lparr>ho_tokenName := DefaultTokenName\<rparr> else os);
          os = (if ho_authorizationKey os = [] then os\<lparr>ho_authorizationKey := DefaultAuthorizationKey\<rparr> else os);
          os = (if cc_Name (ho_cookieConfig os) = []
               then os\<lparr>ho_cookieConfig := (ho_cookieConfig os)\<lparr>cc_Name := ho_tokenName os\<rparr>\<rparr> else os);
          lookup = \<lparr>tl_TokenName = ho_tokenName os, tl_TokenPrefix = ho_tokenPrefix os,
                    tl_AuthorizationKey = ho_authorizationKey os, tl_Order = []\<rparr>
      in \<lparr>ex_opts = os,
          ex_lookup = (if ho_allowQuery os then lookup\<lparr>tl_Order := DefaultOrder @ [SourceQuery]\<rparr>
                       else lookup)\<rparr>)"

definition OptionsFromConfig ::
    "Config \<Rightarrow> 'w http_options go_option list \<Rightarrow> 'w http_options go_option list" where
  "OptionsFromConfig config opts =
     [WithTokenName (cf_TokenName config), WithTokenPrefix (cf_TokenPrefix config)] @ opts"

definition ExtractToken :: "'w Extractor \<Rightarrow> http_request option \<Rightarrow> TokenValue option" where
  "ExtractToken e r =
     (case r of
        None \<Rightarrow> None
      | Some r \<Rightarrow>
          let cookie = (if ho_readCookie (ex_opts e)
                then Some (\<lambda>_. case request_Cookie r (cc_Name (ho_cookieConfig (ex_opts e))) of
                                 Some value \<Rightarrow> value | None \<Rightarrow> [])
                else None)
          in Resolve (ex_lookup e)
               \<lparr>gt_Header = Some (Header_Get r), gt_Cookie = cookie, gt_Query = Some (Query_Get r)\<rparr>)"

definition StatusUnauthorized :: int where "StatusUnauthorized = 401"

text \<open>\<open>w.WriteHeader\<close>: only the first status counts.\<close>

definition WriteHeader :: "int \<Rightarrow> http_response \<Rightarrow> http_response" where
  "WriteHeader code w = (case rs_status w of None \<Rightarrow> w\<lparr>rs_status := Some code\<rparr> | Some _ \<Rightarrow> w)"

definition Unauthorized :: "'w Extractor \<Rightarrow> 'w http_handler" where
  "Unauthorized e =
     (case ho_unauthorized (ex_opts e) of
        Some h \<Rightarrow> h
      | None \<Rightarrow> (\<lambda>w r world. (WriteHeader StatusUnauthorized w, world)))"

text \<open>
  What both middlewares do with a request: \<open>None\<close> to refuse it, or the authentication for the rest
  of the chain.
\<close>

definition request_ctx :: "http_request option \<Rightarrow> ctx" where
  "request_ctx r = (case r of None \<Rightarrow> None | Some r \<Rightarrow> Some (rq_ctx r))"

definition with_context :: "ctx \<Rightarrow> http_request option \<Rightarrow> http_request option" where
  "with_context c r = (case (c, r) of (Some x, Some r) \<Rightarrow> Some (r\<lparr>rq_ctx := x\<rparr>) | _ \<Rightarrow> r)"

definition middleware_config :: "'x env_scheme manager option \<Rightarrow> Config" where
  "middleware_config manager = (case manager of None \<Rightarrow> DefaultConfig | Some m \<Rightarrow> Manager_Config m)"

definition Middleware ::
    "'x env_scheme manager option \<Rightarrow> 'x env_scheme http_options go_option list \<Rightarrow>
     'x env_scheme http_handler \<Rightarrow> 'x env_scheme http_handler" where
  "Middleware manager opts nxt =
     (let extractor = NewExtractor (OptionsFromConfig (middleware_config manager) opts);
          unauthorized = Unauthorized extractor
      in (\<lambda>w r world.
            if manager = None then unauthorized w r world
            else case ExtractToken extractor r of
                   None \<Rightarrow> unauthorized w r world
                 | Some token \<Rightarrow>
                     (case Authenticate (request_ctx r) manager token world of
                        (Inl err, world) \<Rightarrow> unauthorized w r world
                      | (Inr auth, world) \<Rightarrow>
                          nxt w (with_context (WithAuth (request_ctx r) auth) r) world)))"

subsection \<open>Gin\<close>

text \<open>
  What the program uses of a \<open>gin.Context\<close>, which gin provides: its two fields \<open>Request\<close> and
  \<open>Writer\<close>, and its methods \<open>Abort\<close>, \<open>Set\<close> and \<open>Next\<close>.
\<close>

record ('g, 'w) gin_api =
  gin_Request :: "'g \<Rightarrow> http_request option"
  gin_set_Request :: "http_request option \<Rightarrow> 'g \<Rightarrow> 'g"
  gin_Writer :: "'g \<Rightarrow> http_response"
  gin_set_Writer :: "http_response \<Rightarrow> 'g \<Rightarrow> 'g"
  gin_Abort :: "'g \<Rightarrow> 'g"
  gin_Set :: "string \<Rightarrow> AuthContext option \<Rightarrow> 'g \<Rightarrow> 'g"
  gin_Next :: "'g \<Rightarrow> 'w \<Rightarrow> 'g \<times> 'w"

definition gin_Middleware ::
    "('g, 'x env_scheme) gin_api \<Rightarrow> 'x env_scheme manager option \<Rightarrow>
     'x env_scheme http_options go_option list \<Rightarrow> 'g \<Rightarrow> 'x env_scheme \<Rightarrow> 'g \<times> 'x env_scheme" where
  "gin_Middleware api manager opts =
     (let extractor = NewExtractor (OptionsFromConfig (middleware_config manager) opts);
          unauthorized = (\<lambda>c world.
            case Unauthorized extractor (gin_Writer api c) (gin_Request api c) world of
              (w, world) \<Rightarrow> (gin_Abort api (gin_set_Writer api w c), world))
      in (\<lambda>c world.
            if manager = None then unauthorized c world
            else case ExtractToken extractor (gin_Request api c) of
                   None \<Rightarrow> unauthorized c world
                 | Some token \<Rightarrow>
                     (case Authenticate (request_ctx (gin_Request api c)) manager token world of
                        (Inl err, world) \<Rightarrow> unauthorized c world
                      | (Inr auth, world) \<Rightarrow>
                          let r = gin_Request api c;
                              c = gin_set_Request api (with_context (WithAuth (request_ctx r) auth) r) c
                          in gin_Next api (gin_Set api ''auth'' auth c) world)))"

end
