(* ===== verification/Cookies.thy ===== *)
theory Cookies
  imports Plugins Go_Numbers
begin

text \<open>
  The cookies of \<open>plugins/http/cookie.go\<close>: how a cookie is built from its configuration and
  checked, written with a lifetime and deleted. The checks of \<open>http.Cookie.Valid\<close> are those of
  \<open>net/http\<close>.
\<close>

subsection \<open>Validity of a cookie\<close>

definition in_range :: "nat \<Rightarrow> nat \<Rightarrow> char \<Rightarrow> bool" where
  "in_range a b c \<longleftrightarrow> a \<le> (of_char c :: nat) \<and> (of_char c :: nat) \<le> b"

definition validCookieValueByte :: "char \<Rightarrow> bool" where
  "validCookieValueByte c \<longleftrightarrow> in_range 0x20 0x7e c \<and> c \<noteq> CHR 0x22 \<and> c \<noteq> CHR '';'' \<and> c \<noteq> CHR 0x5C"

definition validCookiePathByte :: "char \<Rightarrow> bool" where
  "validCookiePathByte c \<longleftrightarrow> in_range 0x20 0x7e c \<and> c \<noteq> CHR '';''"

definition letter :: "char \<Rightarrow> bool" where
  "letter c \<longleftrightarrow> in_range 97 122 c \<or> in_range 65 90 c"

definition digit :: "char \<Rightarrow> bool" where
  "digit c \<longleftrightarrow> in_range 48 57 c"

text \<open>The loop over the bytes of a domain name: the last byte, whether a letter was seen, and the
  length of the current label.\<close>

fun domain_loop :: "char \<Rightarrow> bool \<Rightarrow> nat \<Rightarrow> string \<Rightarrow> bool" where
  "domain_loop lst seen partlen [] = (lst \<noteq> CHR ''-'' \<and> partlen \<le> 63 \<and> seen)"
| "domain_loop lst seen partlen (c # s) =
     (if letter c then domain_loop c True (partlen + 1) s
      else if digit c then domain_loop c seen (partlen + 1) s
      else if c = CHR ''-'' then lst \<noteq> CHR ''.'' \<and> domain_loop c seen (partlen + 1) s
      else if c = CHR ''.''
      then lst \<noteq> CHR ''.'' \<and> lst \<noteq> CHR ''-'' \<and> partlen \<le> 63 \<and> partlen \<noteq> 0 \<and> domain_loop c seen 0 s
      else False)"

definition isCookieDomainName :: "string \<Rightarrow> bool" where
  "isCookieDomainName s \<longleftrightarrow> s \<noteq> [] \<and> length s \<le> 255
     \<and> domain_loop (CHR ''.'') False 0 (if hd s = CHR ''.'' then tl s else s)"

text \<open>An IPv4 address in dotted decimal form: \<open>net.ParseIP\<close> on a string without a colon.\<close>

fun split_dots :: "string \<Rightarrow> string list" where
  "split_dots [] = [[]]"
| "split_dots (c # s) =
     (if c = CHR ''.'' then [] # split_dots s
      else case split_dots s of [] \<Rightarrow> [[c]] | p # ps \<Rightarrow> (c # p) # ps)"

definition octet :: "string \<Rightarrow> bool" where
  "octet s \<longleftrightarrow> s \<noteq> [] \<and> length s \<le> 3 \<and> list_all digit s
     \<and> (length s = 1 \<or> hd s \<noteq> CHR ''0'')
     \<and> foldl (\<lambda>n c. 10 * n + (of_char c - 48)) (0 :: int) s \<le> 255"

definition validCookieDomain :: "string \<Rightarrow> bool" where
  "validCookieDomain s \<longleftrightarrow> isCookieDomainName s
     \<or> length (split_dots s) = 4 \<and> list_all octet (split_dots s)"

definition cookie_Valid :: "http_cookie \<Rightarrow> bool" where
  "cookie_Valid c \<longleftrightarrow> hc_Name c \<noteq> [] \<and> list_all token_byte (hc_Name c)
     \<and> list_all validCookieValueByte (hc_Value c)
     \<and> list_all validCookiePathByte (hc_Path c)
     \<and> (hc_Domain c = [] \<or> validCookieDomain (hc_Domain c))"

subsection \<open>Building, writing and deleting\<close>

text \<open>\<open>ErrInvalidCookie\<close> with its reason, or an error of the core.\<close>

datatype cookie_problem =
    NilResponseWriter | LifetimeExceedsMaxAge | PathNotAbsolute | UnsupportedSameSite
  | NoneRequiresSecure | SecurePrefix | HostPrefix | NotValid

datatype cookie_error = ErrInvalidCookie cookie_problem | CoreError error

definition CookieConfig_cookie :: "CookieConfig \<Rightarrow> string \<Rightarrow> cookie_error + http_cookie" where
  "CookieConfig_cookie c value =
     (let c = (if cc_Name c = [] then c\<lparr>cc_Name := DefaultTokenName\<rparr> else c);
          c = (if cc_Path c = [] then c\<lparr>cc_Path := ''/''\<rparr> else c)
      in if \<not> HasPrefix (cc_Path c) ''/'' then Inl (ErrInvalidCookie PathNotAbsolute)
         else
           let c = (if cc_SameSite c = 0 then c\<lparr>cc_SameSite := SameSiteLaxMode\<rparr> else c)
           in if cc_SameSite c < SameSiteDefaultMode \<or> cc_SameSite c > SameSiteNoneMode
              then Inl (ErrInvalidCookie UnsupportedSameSite)
              else if cc_SameSite c = SameSiteNoneMode \<and> \<not> cc_Secure c
              then Inl (ErrInvalidCookie NoneRequiresSecure)
              else if HasPrefix (cc_Name c) ''__Secure-'' \<and> \<not> cc_Secure c
              then Inl (ErrInvalidCookie SecurePrefix)
              else if HasPrefix (cc_Name c) ''__Host-''
                \<and> (\<not> cc_Secure c \<or> cc_Domain c \<noteq> [] \<or> cc_Path c \<noteq> ''/'')
              then Inl (ErrInvalidCookie HostPrefix)
              else
                let cookie = \<lparr>hc_Name = cc_Name c, hc_Value = value, hc_Path = cc_Path c,
                      hc_Domain = cc_Domain c, hc_Expires = None, hc_MaxAge = 0,
                      hc_Secure = cc_Secure c, hc_HttpOnly = cc_HttpOnly c,
                      hc_SameSite = cc_SameSite c\<rparr>
                in if \<not> cookie_Valid cookie then Inl (ErrInvalidCookie NotValid) else Inr cookie)"

definition SetCookie :: "http_cookie \<Rightarrow> http_response \<Rightarrow> http_response" where
  "SetCookie cookie w = w\<lparr>rs_set_cookies := rs_set_cookies w @ [cookie]\<rparr>"

definition lifetime_seconds :: "duration \<Rightarrow> int" where
  "lifetime_seconds ttl = (ttl - 1) div Second + 1"

text \<open>The clock is read where the code calls \<open>time.Now()\<close>. The nil response writer is \<open>None\<close>.\<close>

definition SetTokenCookie ::
    "nat \<Rightarrow> CookieConfig \<Rightarrow> http_response option \<Rightarrow> TokenValue \<Rightarrow> duration \<Rightarrow>
     ('x env_scheme, cookie_error, http_response) op" where
  "SetTokenCookie bits c w token ttl =
     (case w of
        None \<Rightarrow> throw (ErrInvalidCookie NilResponseWriter)
      | Some w \<Rightarrow>
          let token = TrimSpace token
          in if token = [] then throw (CoreError ErrEmptyToken)
             else
               (case CookieConfig_cookie c token of
                 Inl err \<Rightarrow> throw err
               | Inr cookie \<Rightarrow>
                   if ttl > 0
                   then
                     let seconds = lifetime_seconds ttl
                     in if to_int bits seconds \<noteq> seconds
                        then throw (ErrInvalidCookie LifetimeExceedsMaxAge)
                        else
                          (\<lambda>world. (Inr (SetCookie (cookie\<lparr>hc_MaxAge := to_int bits seconds,
                             hc_Expires := Some (Time_Add (env_clock world (env_tick world)) ttl)\<rparr>) w),
                           tick world))
                   else ret (SetCookie cookie w)))"

definition ClearTokenCookie ::
    "CookieConfig \<Rightarrow> http_response option \<Rightarrow> cookie_error + http_response" where
  "ClearTokenCookie c w =
     (case w of
        None \<Rightarrow> Inl (ErrInvalidCookie NilResponseWriter)
      | Some w \<Rightarrow>
          (case CookieConfig_cookie c [] of
             Inl err \<Rightarrow> Inl err
           | Inr cookie \<Rightarrow>
               Inr (SetCookie (cookie\<lparr>hc_MaxAge := -1, hc_Expires := Some (1 * Second)\<rparr>) w)))"

subsection \<open>What a written cookie obeys\<close>

definition cookie_rules :: "http_cookie \<Rightarrow> bool" where
  "cookie_rules k \<longleftrightarrow> cookie_Valid k \<and> HasPrefix (hc_Path k) ''/''
     \<and> hc_SameSite k \<in> {SameSiteDefaultMode..SameSiteNoneMode}
     \<and> (hc_SameSite k = SameSiteNoneMode \<longrightarrow> hc_Secure k)
     \<and> (HasPrefix (hc_Name k) ''__Secure-'' \<longrightarrow> hc_Secure k)
     \<and> (HasPrefix (hc_Name k) ''__Host-'' \<longrightarrow> hc_Secure k \<and> hc_Domain k = [] \<and> hc_Path k = ''/'')"

lemma cookie_rules_attributes [simp]:
  "cookie_rules (k\<lparr>hc_MaxAge := a, hc_Expires := e\<rparr>) = cookie_rules k"
  by (simp add: cookie_rules_def cookie_Valid_def)

definition cookie_name :: "CookieConfig \<Rightarrow> string" where
  "cookie_name c = (if cc_Name c = [] then DefaultTokenName else cc_Name c)"

definition cookie_path :: "CookieConfig \<Rightarrow> string" where
  "cookie_path c = (if cc_Path c = [] then ''/'' else cc_Path c)"

definition cookie_same_site :: "CookieConfig \<Rightarrow> SameSite" where
  "cookie_same_site c = (if cc_SameSite c = 0 then SameSiteLaxMode else cc_SameSite c)"

definition cookie_of :: "CookieConfig \<Rightarrow> string \<Rightarrow> http_cookie" where
  "cookie_of c value = \<lparr>hc_Name = cookie_name c, hc_Value = value, hc_Path = cookie_path c,
     hc_Domain = cc_Domain c, hc_Expires = None, hc_MaxAge = 0, hc_Secure = cc_Secure c,
     hc_HttpOnly = cc_HttpOnly c, hc_SameSite = cookie_same_site c\<rparr>"

text \<open>Building a cookie succeeds exactly when the completed configuration obeys the rules.\<close>

lemma CookieConfig_cookie_closed:
  "CookieConfig_cookie c value =
     (let n = cookie_name c; p = cookie_path c; ss = cookie_same_site c; k = cookie_of c value
      in if \<not> HasPrefix p ''/'' then Inl (ErrInvalidCookie PathNotAbsolute)
      else if ss < SameSiteDefaultMode \<or> ss > SameSiteNoneMode then Inl (ErrInvalidCookie UnsupportedSameSite)
      else if ss = SameSiteNoneMode \<and> \<not> cc_Secure c then Inl (ErrInvalidCookie NoneRequiresSecure)
      else if HasPrefix n ''__Secure-'' \<and> \<not> cc_Secure c then Inl (ErrInvalidCookie SecurePrefix)
      else if HasPrefix n ''__Host-'' \<and> (\<not> cc_Secure c \<or> cc_Domain c \<noteq> [] \<or> p \<noteq> ''/'')
      then Inl (ErrInvalidCookie HostPrefix)
      else if \<not> cookie_Valid k then Inl (ErrInvalidCookie NotValid) else Inr k)"
  unfolding CookieConfig_cookie_def cookie_of_def cookie_same_site_def cookie_name_def cookie_path_def Let_def
  by (cases c; cases "cc_Name c = []"; cases "cc_Path c = []"; cases "cc_SameSite c = 0")
    (simp_all only: if_True if_False CookieConfig.simps simp_thms refl)

lemma CookieConfig_cookie_Inr_iff:
  "CookieConfig_cookie c value = Inr k \<longleftrightarrow> k = cookie_of c value \<and> cookie_rules (cookie_of c value)"
  unfolding CookieConfig_cookie_closed Let_def cookie_rules_def by (auto simp: cookie_of_def)

lemma cookie_rules_no_value: "cookie_rules (cookie_of c v) \<Longrightarrow> cookie_rules (cookie_of c [])"
  by (simp add: cookie_rules_def cookie_Valid_def cookie_of_def)

lemma cookie_of_sel [simp]:
  "hc_Name (cookie_of c v) = cookie_name c" "hc_Value (cookie_of c v) = v"
  "hc_Path (cookie_of c v) = cookie_path c" "hc_Domain (cookie_of c v) = cc_Domain c"
  "hc_MaxAge (cookie_of c v) = 0" "hc_Expires (cookie_of c v) = None"
  "hc_Secure (cookie_of c v) = cc_Secure c"
  by (simp_all add: cookie_of_def)

text \<open>The number of seconds is the lifetime, rounded up.\<close>

lemma lifetime_seconds_ceiling:
  assumes "0 < ttl"
  shows "0 < lifetime_seconds ttl" and "ttl \<le> lifetime_seconds ttl * Second"
    and "(lifetime_seconds ttl - 1) * Second < ttl"
proof -
  define q where "q = (ttl - 1) div Second"
  define r where "r = (ttl - 1) mod Second"
  have "ttl - 1 = q * Second + r" "0 \<le> r" "r < Second"
    by (simp_all add: q_def r_def Second_def)
  moreover have "0 \<le> q" using assms by (simp add: q_def Second_def)
  moreover have "lifetime_seconds ttl = q + 1" by (simp add: lifetime_seconds_def q_def)
  ultimately show "0 < lifetime_seconds ttl" "ttl \<le> lifetime_seconds ttl * Second"
    "(lifetime_seconds ttl - 1) * Second < ttl"
    by (simp_all add: algebra_simps Second_def)
qed

end
