(* ===== verification/Grpc.thy ===== *)
theory Grpc
  imports Plugins
begin

text \<open>
  The gRPC interceptors (\<open>plugins/grpc\<close>). The metadata API of gRPC is a parameter: reading the
  incoming metadata of a context, looking up a key in it, and appending to the outgoing metadata.
\<close>

definition DefaultMetadataKey :: string where "DefaultMetadataKey = ''authorization''"

subsection \<open>Server\<close>

text \<open>A status with code \<open>Unauthenticated\<close> and a message: a text, or that of an error.\<close>

datatype grpc_status = UnauthenticatedText string | UnauthenticatedError error

record server_options =
  so_metadataKey :: string
  so_lookup :: TokenLookup

definition WithMetadataKey :: "string \<Rightarrow> server_options \<Rightarrow> server_options" where
  "WithMetadataKey key os =
     (let key = TrimSpace key in if key \<noteq> [] then os\<lparr>so_metadataKey := ToLower key\<rparr> else os)"

definition WithTokenLookup :: "TokenLookup \<Rightarrow> server_options \<Rightarrow> server_options" where
  "WithTokenLookup lookup os = os\<lparr>so_lookup := lookup\<rparr>"

definition newOptions :: "(server_options \<Rightarrow> server_options) list \<Rightarrow> server_options" where
  "newOptions opts =
     (let os = \<lparr>so_metadataKey = DefaultMetadataKey,
                so_lookup = \<lparr>tl_TokenName = [], tl_TokenPrefix = [], tl_AuthorizationKey = [], tl_Order = []\<rparr>\<rparr>;
          os = fold (\<lambda>opt os. opt os) opts os;
          os = (if so_metadataKey os = [] then os\<lparr>so_metadataKey := DefaultMetadataKey\<rparr> else os);
          lookup = so_lookup os;
          lookup = lookup\<lparr>tl_AuthorizationKey := so_metadataKey os\<rparr>;
          lookup = lookup\<lparr>tl_TokenName := so_metadataKey os\<rparr>;
          lookup = lookup\<lparr>tl_Order := [SourceHeader]\<rparr>
      in os\<lparr>so_lookup := lookup\<rparr>)"

record 'md metadata_api =
  md_FromIncomingContext :: "ctx \<Rightarrow> 'md option"
  md_Get :: "'md \<Rightarrow> string \<Rightarrow> string list"
  md_AppendToOutgoingContext :: "ctx \<Rightarrow> string \<Rightarrow> string \<Rightarrow> ctx"

definition grpc_authenticate ::
    "'md metadata_api \<Rightarrow> server_options \<Rightarrow> ctx \<Rightarrow> 'x env_scheme manager option \<Rightarrow> 'x env_scheme \<Rightarrow>
     (grpc_status + ctx) \<times> 'x env_scheme" where
  "grpc_authenticate api os c m world =
     (if m = None then (Inl (UnauthenticatedError ErrNotLogin), world)
      else case md_FromIncomingContext api c of
             None \<Rightarrow> (Inl (UnauthenticatedText ''missing metadata''), world)
           | Some md \<Rightarrow>
               (case Resolve (so_lookup os)
                       \<lparr>gt_Header = Some (\<lambda>key. case md_Get api md (ToLower key) of [] \<Rightarrow> [] | v # _ \<Rightarrow> v),
                        gt_Cookie = None, gt_Query = None\<rparr> of
                  None \<Rightarrow> (Inl (UnauthenticatedError ErrNotLogin), world)
                | Some token \<Rightarrow>
                    (case Authenticate c m token world of
                       (Inl err, world) \<Rightarrow> (Inl (UnauthenticatedError err), world)
                     | (Inr auth, world) \<Rightarrow> (Inr (WithAuth c auth), world))))"

text \<open>A handler answers or fails with an error of its own (\<open>Inr\<close> of the outer sum).\<close>

definition UnaryServerInterceptor ::
    "'md metadata_api \<Rightarrow> 'x env_scheme manager option \<Rightarrow> (server_options \<Rightarrow> server_options) list \<Rightarrow>
     ctx \<Rightarrow> 'req \<Rightarrow> (ctx \<Rightarrow> 'req \<Rightarrow> 'x env_scheme \<Rightarrow> 'resp \<times> 'x env_scheme) \<Rightarrow> 'x env_scheme \<Rightarrow>
     (grpc_status + 'resp) \<times> 'x env_scheme" where
  "UnaryServerInterceptor api m opts =
     (let os = newOptions opts
      in (\<lambda>c req handler world.
            case grpc_authenticate api os c m world of
              (Inl err, world) \<Rightarrow> (Inl err, world)
            | (Inr authCtx, world) \<Rightarrow> (case handler authCtx req world of (resp, world) \<Rightarrow> (Inr resp, world))))"

record 'ss wrappedStream =
  ws_ServerStream :: 'ss
  ws_ctx :: ctx

definition wrappedStream_Context :: "'ss wrappedStream \<Rightarrow> ctx" where
  "wrappedStream_Context w = ws_ctx w"

definition StreamServerInterceptor ::
    "'md metadata_api \<Rightarrow> ('ss \<Rightarrow> ctx) \<Rightarrow> 'x env_scheme manager option \<Rightarrow>
     (server_options \<Rightarrow> server_options) list \<Rightarrow> 'srv \<Rightarrow> 'ss \<Rightarrow>
     ('srv \<Rightarrow> 'ss wrappedStream \<Rightarrow> 'x env_scheme \<Rightarrow> 'resp \<times> 'x env_scheme) \<Rightarrow> 'x env_scheme \<Rightarrow>
     (grpc_status + 'resp) \<times> 'x env_scheme" where
  "StreamServerInterceptor api stream_ctx m opts =
     (let os = newOptions opts
      in (\<lambda>srv ss handler world.
            case grpc_authenticate api os (stream_ctx ss) m world of
              (Inl err, world) \<Rightarrow> (Inl err, world)
            | (Inr authCtx, world) \<Rightarrow>
                (case handler srv \<lparr>ws_ServerStream = ss, ws_ctx = authCtx\<rparr> world of
                   (resp, world) \<Rightarrow> (Inr resp, world))))"

subsection \<open>Client\<close>

type_synonym TokenSource = "ctx \<Rightarrow> TokenValue option"

record clientOptions =
  co_metadataKey :: string
  co_tokenPrefix :: string
  co_source :: TokenSource

definition WithClientMetadataKey :: "string \<Rightarrow> clientOptions \<Rightarrow> clientOptions" where
  "WithClientMetadataKey key os =
     (let key = TrimSpace key in if key \<noteq> [] then os\<lparr>co_metadataKey := ToLower key\<rparr> else os)"

definition WithClientTokenPrefix :: "string \<Rightarrow> clientOptions \<Rightarrow> clientOptions" where
  "WithClientTokenPrefix pfx os = os\<lparr>co_tokenPrefix := TrimSpace pfx\<rparr>"

definition WithTokenSource :: "TokenSource option \<Rightarrow> clientOptions \<Rightarrow> clientOptions" where
  "WithTokenSource source os =
     (case source of None \<Rightarrow> os | Some f \<Rightarrow> os\<lparr>co_source := f\<rparr>)"

definition newClientOptions :: "(clientOptions \<Rightarrow> clientOptions) list \<Rightarrow> clientOptions" where
  "newClientOptions opts =
     (let os = \<lparr>co_metadataKey = DefaultMetadataKey, co_tokenPrefix = [],
                co_source = (\<lambda>c. TokenFromContext c)\<rparr>;
          os = fold (\<lambda>opt os. opt os) opts os
      in if co_metadataKey os = [] then os\<lparr>co_metadataKey := DefaultMetadataKey\<rparr> else os)"

definition inject :: "'md metadata_api \<Rightarrow> clientOptions \<Rightarrow> ctx \<Rightarrow> ctx" where
  "inject api os c =
     (case co_source os c of
        None \<Rightarrow> c
      | Some token \<Rightarrow>
          if token = [] then c
          else
            let value = (if co_tokenPrefix os \<noteq> [] then co_tokenPrefix os @ '' '' @ token else token)
            in md_AppendToOutgoingContext api c (co_metadataKey os) value)"

definition UnaryClientInterceptor ::
    "'md metadata_api \<Rightarrow> (clientOptions \<Rightarrow> clientOptions) list \<Rightarrow> ctx \<Rightarrow> 'call \<Rightarrow>
     (ctx \<Rightarrow> 'call \<Rightarrow> 'w \<Rightarrow> 'r \<times> 'w) \<Rightarrow> 'w \<Rightarrow> 'r \<times> 'w" where
  "UnaryClientInterceptor api opts =
     (let os = newClientOptions opts in (\<lambda>c call invoker world. invoker (inject api os c) call world))"

definition StreamClientInterceptor ::
    "'md metadata_api \<Rightarrow> (clientOptions \<Rightarrow> clientOptions) list \<Rightarrow> ctx \<Rightarrow> 'call \<Rightarrow>
     (ctx \<Rightarrow> 'call \<Rightarrow> 'w \<Rightarrow> 'r \<times> 'w) \<Rightarrow> 'w \<Rightarrow> 'r \<times> 'w" where
  "StreamClientInterceptor api opts =
     (let os = newClientOptions opts in (\<lambda>c call streamer world. streamer (inject api os c) call world))"

end
