(* ===== verification/Plugin_Properties.thy ===== *)
theory Plugin_Properties
  imports Cookies Grpc Logout_Properties
begin

text \<open>
  What the plugins promise: where a token may come from, what a prefix does to it, which requests
  a middleware lets through, that what the client interceptor or the cookie writer sends is what
  the server reads, and the attributes and lifetimes of cookies.
\<close>

subsection \<open>Lookup\<close>

lemma normalize_trimmed: "TokenLookup_normalize l v = Some tok \<Longrightarrow> tok \<noteq> [] \<and> TrimSpace tok = tok"
  by (auto simp: TokenLookup_normalize_def Let_def split: if_splits)

lemma lookup_source_trimmed: "lookup_source l g src = Some tok \<Longrightarrow> tok \<noteq> [] \<and> TrimSpace tok = tok"
  by (auto simp: lookup_source_def Let_def dest: normalize_trimmed split: if_splits option.splits)

lemma Resolve_trimmed: "Resolve l g = Some tok \<Longrightarrow> tok \<noteq> [] \<and> TrimSpace tok = tok"
proof -
  have "resolve_loop l g srcs = Some tok \<Longrightarrow> tok \<noteq> [] \<and> TrimSpace tok = tok" for l srcs
    by (induction srcs) (auto dest: lookup_source_trimmed split: option.splits)
  then show "Resolve l g = Some tok \<Longrightarrow> tok \<noteq> [] \<and> TrimSpace tok = tok"
    by (simp add: Resolve_def Let_def)
qed

lemma resolve_loop_cong:
  "(\<And>src. src \<in> set srcs \<Longrightarrow> lookup_source l g src = lookup_source l g' src) \<Longrightarrow>
   resolve_loop l g srcs = resolve_loop l g' srcs"
  by (induction srcs) (auto split: option.splits)

lemma ex_lookup_Order:
  "tl_Order (ex_lookup (NewExtractor opts))
     = (if ho_allowQuery (ex_opts (NewExtractor opts)) then DefaultOrder @ [SourceQuery] else [])"
  by (simp add: NewExtractor_def Let_def)

lemma default_order_no_query: "SourceQuery \<notin> set DefaultOrder"
  by (simp add: DefaultOrder_def source_defs)

definition with_query :: "(string \<Rightarrow> string list) \<Rightarrow> http_request option \<Rightarrow> http_request option" where
  "with_query q r = map_option (\<lambda>r. r\<lparr>rq_query := q\<rparr>) r"

definition with_cookies :: "(string \<times> string) list \<Rightarrow> http_request option \<Rightarrow> http_request option" where
  "with_cookies ks r = map_option (\<lambda>r. r\<lparr>rq_cookies := ks\<rparr>) r"

text \<open>C33: whatever the options, a token that the extractor finds is not empty and trimmed; unless a
  query token was asked for, the query of the request plays no part, and with cookies switched off
  neither do the cookies.\<close>

theorem extraction_sources:
  fixes opts :: "'w http_options go_option list"
  defines "e \<equiv> NewExtractor opts"
  shows "(ExtractToken e r = Some tok \<longrightarrow> tok \<noteq> [] \<and> TrimSpace tok = tok)
    \<and> (\<not> ho_allowQuery (ex_opts e) \<longrightarrow> ExtractToken e (with_query q r) = ExtractToken e r)
    \<and> (\<not> ho_readCookie (ex_opts e) \<longrightarrow> ExtractToken e (with_cookies ks r) = ExtractToken e r)"
proof (intro conjI impI)
  show "tok \<noteq> []" "TrimSpace tok = tok" if "ExtractToken e r = Some tok"
    using that Resolve_trimmed by (auto simp: ExtractToken_def Let_def split: option.splits)
  show "ExtractToken e (with_cookies ks r) = ExtractToken e r" if "\<not> ho_readCookie (ex_opts e)"
    using that
    by (cases r) (simp_all add: ExtractToken_def with_cookies_def Let_def Header_Get_def [abs_def]
        Query_Get_def [abs_def])
  show "ExtractToken e (with_query q r) = ExtractToken e r" if no: "\<not> ho_allowQuery (ex_opts e)"
  proof (cases r)
    case (Some req)
    let ?l = "TokenLookup_withDefaults (ex_lookup e)"
    have "tl_Order ?l = DefaultOrder"
      using no ex_lookup_Order [of opts] by (simp add: e_def TokenLookup_withDefaults_def Let_def)
    then have "lookup_source ?l g src = lookup_source ?l (g\<lparr>gt_Query := f\<rparr>) src"
      if "src \<in> set (tl_Order ?l)" for g f src
      using that default_order_no_query by (auto simp: lookup_source_def Let_def)
    from resolve_loop_cong [OF this] have "Resolve (ex_lookup e) g = Resolve (ex_lookup e) (g\<lparr>gt_Query := f\<rparr>)" for g f
      by (simp add: Resolve_def Let_def)
    from this [of "\<lparr>gt_Header = h, gt_Cookie = c, gt_Query = Some (Query_Get (req\<lparr>rq_query := q\<rparr>))\<rparr>"
        "Some (Query_Get req)" for h c] show ?thesis
      by (simp add: Some ExtractToken_def with_query_def Let_def Header_Get_def [abs_def]
          request_Cookie_def [abs_def])
  qed (simp add: with_query_def)
qed

lemma utf8_find_blank: "find (\<lambda>p. p \<noteq> [] \<and> prefix p (CHR '' '' # s)) utf8_spaces = Some '' ''"
  by (simp add: utf8_spaces_def)

lemma trim_left_blank [simp]: "trim_left (CHR '' '' # s) = trim_left s"
  unfolding trim_left_def by (subst strip.simps) (simp add: utf8_find_blank)

lemma trim_left_word [simp]: "word w \<Longrightarrow> trim_left w = w"
  using word_hd_last trim_left_ne by blast

lemma TrimSpace_blank_word: "word w \<Longrightarrow> TrimSpace (CHR '' '' # w) = w"
  using TrimSpace_word [of w] by (simp add: TrimSpace_def)

lemma Fields_blank_word: "word w \<Longrightarrow> Fields (CHR '' '' # w) = [w]"
proof -
  assume w: "word w"
  have "Fields (CHR '' '' # w) = Fields w" by (subst (1 2) Fields.simps) (simp add: w)
  then show ?thesis using Fields_word [OF w] by simp
qed

lemma TrimSpace_two_words: "word p \<Longrightarrow> word t \<Longrightarrow> TrimSpace (p @ CHR '' '' # t) = p @ CHR '' '' # t"
  by (rule TrimSpace_graphic) (use word_hd_last [of p] word_hd_last [of t] in auto)

lemma normalize_prefixed:
  assumes "word p" "word t" and "TrimSpace (tl_TokenPrefix l) \<noteq> []" "EqualFold p (TrimSpace (tl_TokenPrefix l))"
  shows "TokenLookup_normalize l (p @ '' '' @ t) = Some t"
proof -
  have "TrimSpace (p @ CHR '' '' # t) = p @ CHR '' '' # t" by (rule TrimSpace_two_words [OF assms(1,2)])
  moreover have "Fields (p @ CHR '' '' # t) = [p, t]"
    using Fields_word_blank [OF assms(1)] Fields_blank_word [OF assms(2)] by simp
  moreover have "TrimPrefix (p @ CHR '' '' # t) p = CHR '' '' # t" by (simp add: TrimPrefix_def HasPrefix_def)
  moreover have "t \<noteq> []" "p \<noteq> []" using assms(1,2) by (simp_all add: word_def)
  ultimately show ?thesis
    using assms by (simp add: TokenLookup_normalize_def Let_def TrimSpace_blank_word)
qed

lemma normalize_plain:
  assumes "TrimSpace (tl_TokenPrefix l) = []" and "TrimSpace t \<noteq> []"
  shows "TokenLookup_normalize l t = Some (TrimSpace t)"
  using assms by (simp add: TokenLookup_normalize_def Let_def)

definition demo_request :: http_request where
  "demo_request = \<lparr>rq_ctx = Background, rq_header = (\<lambda>k. if k = ''Token'' then [''abc''] else []),
     rq_cookies = [], rq_query = (\<lambda>_. [])\<rparr>"

abbreviation memory_extractor ::
    "Config \<Rightarrow> rbac \<Rightarrow> 'x mem_scheme http_options go_option list \<Rightarrow> 'x mem_scheme Extractor" where
  "memory_extractor cf az opts \<equiv> NewExtractor (OptionsFromConfig
     (middleware_config (Some (memory_manager cf az :: 'x mem_scheme manager))) opts)"

lemma demo_extracts_as:
  assumes "cf_TokenName cf = cf_TokenName DefaultConfig" and "cf_TokenPrefix cf = cf_TokenPrefix DefaultConfig"
  shows "ExtractToken (memory_extractor cf no_rbac []) (Some demo_request) = Some ''abc''"
proof -
  have key: "CanonicalHeaderKey ''token'' = ''Token''" by code_simp
  have "cf_TokenName (complete_config cf) = ''token''" "cf_TokenPrefix (complete_config cf) = []"
    using assms by (simp_all add: complete_config_def DefaultConfig_def DefaultTokenName_def)
  then show ?thesis
    by (simp add: ExtractToken_def NewExtractor_def OptionsFromConfig_def middleware_config_def
        Manager_Config_def WithTokenName_def WithTokenPrefix_def Let_def Resolve_def
        TokenLookup_withDefaults_def DefaultOrder_def lookup_source_def normalize_plain
        demo_request_def Header_Get_def first_value_def key DefaultTokenName_def
        DefaultAuthorizationKey_def DefaultCookieConfig_def)
qed

theorem extraction_sources_witness:
  "\<exists>e :: unit Extractor. ExtractToken e (with_query (\<lambda>_. [''x'']) (Some demo_request))
     = ExtractToken e (Some demo_request) \<and> \<not> ho_allowQuery (ex_opts e)"
proof -
  have "\<not> ho_allowQuery (ex_opts (NewExtractor ([] :: unit http_options go_option list)))"
    by (simp add: NewExtractor_def Let_def)
  with extraction_sources [of "[]" "Some demo_request" _ "\<lambda>_. [''x'']"] show ?thesis by blast
qed

subsection \<open>Authentication and the middlewares\<close>

definition auth_of :: "TokenState \<Rightarrow> TokenValue \<Rightarrow> AuthContext" where
  "auth_of s tok = the (NewAuthContext (Some (s\<lparr>ts_Token := TrimSpace tok\<rparr>)))"

lemma auth_of_sel [simp]:
  "ac_LoginID (auth_of s tok) = ts_LoginID s" "ac_Token (auth_of s tok) = TrimSpace tok"
  "ac_Kind (auth_of s tok) = ts_Kind s" "ac_LoginType (auth_of s tok) = ts_LoginType s"
  by (simp_all add: auth_of_def NewAuthContext_def)

lemma Authenticate_live:
  assumes "mem_inv w" "usable w tok it" "healthy c" "TrimSpace tok \<noteq> []" "ts_Kind (ti_state it) = TokenKindAccess"
    and "cf_AutoRenew cf \<longrightarrow> \<not> LoginSubject_IsZero (subject_key it)"
  shows "\<exists>auth s w'. Authenticate c (Some (memory_manager cf az)) tok w = (Inr (Some auth), w')
      \<and> ac_LoginID auth = ts_LoginID (ti_state it) \<and> ac_LoginType auth = ts_LoginType (ti_state it)
      \<and> ac_Token auth = TrimSpace tok \<and> mem_inv w'
      \<and> (if cf_AutoRenew cf then renewed_read cf w (storeKey tok) it s w'
         else mem_tokens w' = mem_tokens w \<and> mem_sessions w' = mem_sessions w)"
proof -
  obtain s w' where g: "GetTokenState (memory_manager cf az) c tok w = (Inr (s\<lparr>ts_Token := TrimSpace tok\<rparr>), w')"
    "mem_inv w'" "ts_LoginID s = ts_LoginID (ti_state it)" "TokenState_Subject s = TokenState_Subject (ti_state it)"
    "ts_Kind s = TokenKindAccess"
    "if cf_AutoRenew cf then renewed_read cf w (storeKey tok) it s w'
     else s = ti_state it \<and> mem_tokens w' = mem_tokens w \<and> mem_sessions w' = mem_sessions w"
    using GetTokenState_live [OF assms(1-4), of cf az] assms(5,6) by auto
  then have "Authenticate c (Some (memory_manager cf az)) tok w = (Inr (Some (auth_of s tok)), w')"
    by (simp add: Authenticate_def bindE_def ret_def auth_of_def NewAuthContext_def)
  moreover have "ts_LoginType s = ts_LoginType (ti_state it)"
    using g(4) by (simp add: TokenState_Subject_def)
  ultimately show ?thesis
    using g by (intro exI [of _ "auth_of s tok"] exI [of _ s] exI [of _ w']) (simp split: if_splits)
qed

text \<open>A token that admits no request: unknown to the store, not an access token, revoked or consumed,
  or expired.\<close>

definition not_admitted :: "'x mem_scheme \<Rightarrow> TokenValue \<Rightarrow> bool" where
  "not_admitted w tok \<longleftrightarrow> (\<forall>it. mem_tokens w (storeKey tok) = Some it \<longrightarrow>
     ts_Kind (ti_state it) \<noteq> TokenKindAccess \<or> ts_Status (ti_state it) \<noteq> TokenStatusActive
     \<or> (\<forall>n. tokenItem_isExpired it (env_clock w n)))"

lemma Authenticate_refuses:
  assumes "mem_inv w" "healthy c" "TrimSpace tok \<noteq> []" "not_admitted w tok"
  shows "\<exists>err w'. Authenticate c (Some (memory_manager cf az)) tok w = (Inl err, w')
     \<and> mem_inv w' \<and> drops_expired w (storeKey tok) (mem_tokens w) (mem_tokens w')
     \<and> mem_sessions w' = mem_sessions w \<and> published w' = published w"
proof -
  let ?R = "\<lambda>w'. mem_inv w' \<and> drops_expired w (storeKey tok) (mem_tokens w) (mem_tokens w')
     \<and> mem_sessions w' = mem_sessions w \<and> published w' = published w"
  have same: "?R v" if "run_at w (mem_tokens w) (mem_sessions w) (published w) v" for v
    using at_D [OF that] by (simp add: drops_expired_def)
  have "wp (Authenticate c (Some (memory_manager cf az)) tok) (\<lambda>_ _. False) (\<lambda>_. ?R) w"
    unfolding Authenticate_def GetTokenState_def option.case
  proof (intro wp_bindI, rule at_getTokenState_any [OF at_start [OF assms(1)] _ assms(3)], goal_cases)
    case 1
    show ?case using assms(2) by simp
  next
    case (2 e ts' v)
    then show ?case using at_D [OF 2(2)] by simp
  next
    case (3 n n' it v)
    then have "ts_Kind (ti_state it) \<noteq> TokenKindAccess"
      using assms(4) unfolding not_admitted_def by blast
    then show ?case
      using same [OF 3(1)] by (simp add: wp_ret wp_throw withPlaintextToken_def)
  qed
  then show ?thesis
    by (cases "Authenticate c (Some (memory_manager cf az)) tok w") (auto simp: wp_def split: sum.splits)
qed

lemma ExtractToken_trimmed: "ExtractToken e r = Some tok \<Longrightarrow> tok \<noteq> [] \<and> TrimSpace tok = tok"
  using Resolve_trimmed by (auto simp: ExtractToken_def Let_def split: option.splits)

text \<open>C27: the HTTP middleware lets a request with a live access token through, while its context is not
  done: the next handler runs on the same response and request, but that its context names the login of
  that token. Without automatic renewal no token and no session has changed; with it, for a token of
  a real subject, the one change is that the token is stored again as renewed at some
  reading of the clock, and that its subject has a session.\<close>

theorem Middleware_admits:
  fixes opts :: "'x mem_scheme http_options go_option list"
  assumes "mem_inv w" and "ExtractToken (memory_extractor cf az opts) (Some req) = Some tok"
    and "usable w tok it" "ts_Kind (ti_state it) = TokenKindAccess"
    and "healthy (Some (rq_ctx req))"
    and "cf_AutoRenew cf \<longrightarrow> \<not> LoginSubject_IsZero (subject_key it)"
  shows "\<exists>auth s w'. Middleware (Some (memory_manager cf az)) opts nxt resp (Some req) w
        = nxt resp (Some (req\<lparr>rq_ctx := (rq_ctx req)\<lparr>gc_auth := Some auth\<rparr>\<rparr>)) w'
      \<and> ac_LoginID auth = ts_LoginID (ti_state it) \<and> ac_LoginType auth = ts_LoginType (ti_state it)
      \<and> ac_Token auth = tok \<and> mem_inv w'
      \<and> (if cf_AutoRenew cf then renewed_read cf w (storeKey tok) it s w'
         else mem_tokens w' = mem_tokens w \<and> mem_sessions w' = mem_sessions w)"
proof -
  have tok: "tok \<noteq> []" "TrimSpace tok = tok" using ExtractToken_trimmed [OF assms(2)] by auto
  have "TrimSpace tok \<noteq> []" using tok by simp
  from Authenticate_live [OF assms(1,3,5) this assms(4,6), of az] tok
  obtain auth s w' where "Authenticate (Some (rq_ctx req)) (Some (memory_manager cf az)) tok w = (Inr (Some auth), w')"
    and post: "ac_LoginID auth = ts_LoginID (ti_state it)" "ac_LoginType auth = ts_LoginType (ti_state it)"
      "ac_Token auth = tok" "mem_inv w'" "if cf_AutoRenew cf then renewed_read cf w (storeKey tok) it s w'
         else mem_tokens w' = mem_tokens w \<and> mem_sessions w' = mem_sessions w" by auto
  then have "Middleware (Some (memory_manager cf az)) opts nxt resp (Some req) w =
      nxt resp (Some (req\<lparr>rq_ctx := (rq_ctx req)\<lparr>gc_auth := Some auth\<rparr>\<rparr>)) w'"
    using assms(2) by (simp add: Middleware_def Let_def request_ctx_def with_context_def WithAuth_def)
  with post show ?thesis by blast
qed

theorem Middleware_admits_witness:
  "\<exists>w' s it. Middleware (Some (memory_manager (DefaultConfig\<lparr>cf_AutoRenew := True\<rparr>) no_rbac)) []
     (\<lambda>resp r w. (resp\<lparr>rs_body := (case r of None \<Rightarrow> [] | Some r \<Rightarrow>
        (case AuthFromContext (Some (rq_ctx r)) of None \<Rightarrow> [] | Some auth \<Rightarrow> ac_LoginID auth))\<rparr>, w))
     \<lparr>rs_status = None, rs_set_cookies = [], rs_body = []\<rparr> (Some demo_request) demo_login
     = (\<lparr>rs_status = None, rs_set_cookies = [], rs_body = ''alice''\<rparr>, w')
     \<and> renewed_read (DefaultConfig\<lparr>cf_AutoRenew := True\<rparr>) demo_login (storeKey ''abc'') it s w'"
proof -
  let ?cf = "DefaultConfig\<lparr>cf_AutoRenew := True\<rparr>"
  obtain it where it: "usable demo_login ''abc'' it" "mem_inv demo_login"
    "ts_Kind (ti_state it) = TokenKindAccess" "ts_LoginID (ti_state it) = ''alice''"
    by (rule demo_login_usable)
  have c: "healthy (Some (rq_ctx demo_request))"
    by (simp add: demo_request_def)
  have "TrimSpace (sub_LoginID (subject_key it)) = ''alice''"
    by (simp add: TokenState_Subject_def subject_key_def it(4) LoginSubject_Normalize_def Let_def)
  then have "\<not> LoginSubject_IsZero (subject_key it)"
    by (simp add: LoginSubject_IsZero_def)
  then show ?thesis
    using Middleware_admits [OF it(2) demo_extracts_as [of ?cf] it(1,3) c, of "\<lambda>resp r w. (resp\<lparr>rs_body := (case r of None \<Rightarrow> [] | Some r \<Rightarrow>
          (case AuthFromContext (Some (rq_ctx r)) of None \<Rightarrow> [] | Some auth \<Rightarrow> ac_LoginID auth))\<rparr>, w)"
        "\<lparr>rs_status = None, rs_set_cookies = [], rs_body = []\<rparr>"] it(4)
    by (auto simp: AuthFromContext_def) blast
qed

text \<open>C28: any other request is refused, while its context is not done: without a token, with a token the
  store does not know, or with one that is not an access token (a refresh token or a nonce), is
  revoked or consumed, or is expired, the middleware answers as configured for
  unauthorized requests, by default with status 401, and the next handler never runs. No session
  changes, no event is published, and no token changes but that an expired one may be dropped.\<close>

theorem Middleware_refuses:
  fixes opts :: "'x mem_scheme http_options go_option list" and cf :: Config and az :: rbac
  defines "e \<equiv> memory_extractor cf az opts"
  assumes inv: "mem_inv w" and c: "healthy (Some (rq_ctx req))"
    and bad: "\<forall>tok. ExtractToken e (Some req) = Some tok \<longrightarrow> not_admitted w tok"
  shows "\<exists>w'. Middleware (Some (memory_manager cf az)) opts nxt resp (Some req) w
        = Unauthorized e resp (Some req) w'
      \<and> mem_inv w' \<and> mem_sessions w' = mem_sessions w \<and> published w' = published w
      \<and> (mem_tokens w' = mem_tokens w
         \<or> (\<exists>tok. ExtractToken e (Some req) = Some tok \<and> drops_expired w (storeKey tok) (mem_tokens w) (mem_tokens w')))
      \<and> (ho_unauthorized (ex_opts e) = None \<longrightarrow>
           Unauthorized e resp (Some req) w' = (WriteHeader StatusUnauthorized resp, w'))"
proof (cases "ExtractToken e (Some req)")
  case None
  then show ?thesis using inv by (auto simp: Middleware_def Let_def e_def Unauthorized_def)
next
  case (Some tok)
  then have tok: "TrimSpace tok \<noteq> []" using ExtractToken_trimmed [OF Some] by auto
  from Authenticate_refuses [OF inv c tok bad [rule_format, OF Some], of cf az] obtain err w' where
    "Authenticate (Some (rq_ctx req)) (Some (memory_manager cf az)) tok w = (Inl err, w')"
    and post: "mem_inv w'" "drops_expired w (storeKey tok) (mem_tokens w) (mem_tokens w')"
      "mem_sessions w' = mem_sessions w" "published w' = published w" by blast
  then have "Middleware (Some (memory_manager cf az)) opts nxt resp (Some req) w = Unauthorized e resp (Some req) w'"
    using Some by (simp add: Middleware_def Let_def e_def request_ctx_def)
  with post Some show ?thesis by (intro exI [of _ w']) (auto simp: Unauthorized_def)
qed

text \<open>A store whose only token is a revoked access token.\<close>

lemma revoked_store:
  "\<exists>w it. mem_inv w \<and> mem_tokens (w :: mem) (storeKey ''abc'') = Some it \<and> ts_Status (ti_state it) = TokenStatusRevoked
     \<and> ts_Kind (ti_state it) = TokenKindAccess \<and> (\<forall>n. \<not> tokenItem_isExpired it (env_clock w n))"
proof -
  let ?s = "(access_state DefaultConfig (login_key ''alice'' []) default_loginOptions ''abc'' 0)\<lparr>ts_Status := TokenStatusRevoked\<rparr>"
  let ?ttl = "login_ttl DefaultConfig"
  have "state_ok (access_state DefaultConfig (login_key ''alice'' []) default_loginOptions ''abc'' 0)"
    by (rule access_state_ok) simp_all
  then have ok: "state_ok ?s"
    by (simp add: state_ok_def normal_state_def cloned_def TokenStatusRevoked_def)
  have "wp (mem_SaveTokenState None (Some ?s) ?ttl)
      (\<lambda>_ w'. \<exists>n. run_at demo ((mem_tokens demo)(ts_Token ?s \<mapsto> stored_item ?s (env_clock demo n) ?ttl)) (mem_sessions demo)
        (published demo) w') (\<lambda>_ _. False) demo"
    by (rule at_Save [OF at_start _ state_ok_storable [OF ok]]) (auto simp: cerr_def)
  then obtain w n where "run_at demo ((mem_tokens demo)(ts_Token ?s \<mapsto> stored_item ?s (env_clock demo n) ?ttl))
      (mem_sessions demo) (published demo) w"
    unfolding wp_succeeds_unit by blast
  note d = at_D [OF this]
  have "\<not> tokenItem_isExpired (stored_item ?s (env_clock demo a) ?ttl) (env_clock demo b)" for a b
    by (rule stored_item_lives [OF ok, where a = a]) (simp_all add: login_ttl_def)
  with d show ?thesis
    by (intro exI [of _ w] exI [of _ "stored_item ?s (env_clock demo n) ?ttl"])
      (simp add: stored_item_def stored_state_id [OF ok])
qed

theorem Middleware_refuses_witness:
  "\<exists>(w :: mem) it w'. mem_tokens w (storeKey ''abc'') = Some it \<and> ts_Status (ti_state it) = TokenStatusRevoked
     \<and> Middleware (Some (memory_manager (DefaultConfig\<lparr>cf_AutoRenew := True\<rparr>) no_rbac)) []
       (\<lambda>resp r w. (resp\<lparr>rs_body := ''in''\<rparr>, w))
       \<lparr>rs_status = None, rs_set_cookies = [], rs_body = []\<rparr> (Some demo_request) w
     = (\<lparr>rs_status = Some 401, rs_set_cookies = [], rs_body = []\<rparr>, w') \<and> mem_tokens w' (storeKey ''abc'') = Some it"
proof -
  let ?cf = "DefaultConfig\<lparr>cf_AutoRenew := True\<rparr>"
  let ?e = "memory_extractor ?cf no_rbac [] :: mem Extractor"
  obtain w :: mem and it where w: "mem_inv w" "mem_tokens w (storeKey ''abc'') = Some it"
    "ts_Status (ti_state it) = TokenStatusRevoked" and live: "\<forall>n. \<not> tokenItem_isExpired it (env_clock w n)"
    using revoked_store by blast
  have tok: "ExtractToken ?e (Some demo_request) = Some ''abc''" by (rule demo_extracts_as) simp_all
  have "not_admitted w ''abc''"
    by (simp add: not_admitted_def w TokenStatusRevoked_def TokenStatusActive_def)
  then have bad: "\<forall>tok. ExtractToken ?e (Some demo_request) = Some tok \<longrightarrow> not_admitted w tok"
    by (simp add: tok)
  have "healthy (Some (rq_ctx demo_request))" by (simp add: demo_request_def)
  moreover have "ho_unauthorized (ex_opts ?e) = None"
    by (simp add: NewExtractor_def OptionsFromConfig_def Let_def WithTokenName_def WithTokenPrefix_def)
  ultimately obtain w' where w': "Middleware (Some (memory_manager ?cf no_rbac)) [] (\<lambda>resp r w. (resp\<lparr>rs_body := ''in''\<rparr>, w))
      \<lparr>rs_status = None, rs_set_cookies = [], rs_body = []\<rparr> (Some demo_request) w
      = (\<lparr>rs_status = Some 401, rs_set_cookies = [], rs_body = []\<rparr>, w')"
    and "mem_tokens w' = mem_tokens w \<or> drops_expired w (storeKey ''abc'') (mem_tokens w) (mem_tokens w')"
    using Middleware_refuses [OF w(1) _ bad, of "\<lambda>resp r w. (resp\<lparr>rs_body := ''in''\<rparr>, w)"
        "\<lparr>rs_status = None, rs_set_cookies = [], rs_body = []\<rparr>"] tok
    by (auto simp: WriteHeader_def StatusUnauthorized_def)
  then have "mem_tokens w' (storeKey ''abc'') = Some it"
    using w(2) live by (auto simp: drops_expired_def)
  with w' w(2,3) show ?thesis by blast
qed

subsection \<open>gRPC\<close>

abbreviation header_only :: "string list \<Rightarrow> Getters" where
  "header_only vs \<equiv> \<lparr>gt_Header = Some (\<lambda>_. case vs of [] \<Rightarrow> [] | v # _ \<Rightarrow> v), gt_Cookie = None, gt_Query = None\<rparr>"

lemma newOptions_sel:
  "tl_Order (so_lookup (newOptions opts)) = [SourceHeader]"
  "tl_TokenName (so_lookup (newOptions opts)) = so_metadataKey (newOptions opts)"
  "tl_AuthorizationKey (so_lookup (newOptions opts)) = so_metadataKey (newOptions opts)"
  "so_metadataKey (newOptions opts) \<noteq> []"
  by (simp_all add: newOptions_def Let_def DefaultMetadataKey_def)

lemma Resolve_server:
  "Resolve (so_lookup (newOptions opts)) \<lparr>gt_Header = Some f, gt_Cookie = None, gt_Query = None\<rparr>
     = TokenLookup_normalize (so_lookup (newOptions opts)) (f (so_metadataKey (newOptions opts)))"
proof -
  have "TokenLookup_withDefaults (so_lookup (newOptions opts)) = so_lookup (newOptions opts)"
    by (simp add: TokenLookup_withDefaults_def newOptions_sel Let_def)
  then show ?thesis
    by (simp add: Resolve_def newOptions_sel lookup_source_def Let_def split: option.split)
qed

text \<open>The value that the client sends for a token.\<close>

definition sent_value :: "clientOptions \<Rightarrow> TokenValue \<Rightarrow> string" where
  "sent_value os tok = (if co_tokenPrefix os \<noteq> [] then co_tokenPrefix os @ '' '' @ tok else tok)"

text \<open>Client and server agree on the prefix up to letter case.\<close>

definition same_prefix :: "clientOptions \<Rightarrow> TokenLookup \<Rightarrow> bool" where
  "same_prefix os l \<longleftrightarrow>
     (if co_tokenPrefix os = [] then TrimSpace (tl_TokenPrefix l) = []
      else word (co_tokenPrefix os) \<and> TrimSpace (tl_TokenPrefix l) \<noteq> []
        \<and> EqualFold (co_tokenPrefix os) (TrimSpace (tl_TokenPrefix l)))"

lemma normalize_sent: "word tok \<Longrightarrow> same_prefix os l \<Longrightarrow> TokenLookup_normalize l (sent_value os tok) = Some tok"
  using normalize_prefixed [of "co_tokenPrefix os" tok l] normalize_plain [of l tok]
  by (auto simp: sent_value_def same_prefix_def word_def split: if_splits)

text \<open>
  What gRPC documents of its metadata. Keys are in lower case, over letters, digits and three signs,
  and some are reserved for gRPC and HTTP/2. Appending a pair to the outgoing metadata of a
  context keeps what is there and adds the value at the end of the values of its key. A call
  delivers the outgoing metadata of its context, values of printable ASCII without blanks at their ends,
  as the incoming metadata of the context on the server (for a connection without credentials that add
  metadata of their own). Here \<open>sent c k\<close> is what the outgoing metadata of a context
  holds for a key, and \<open>deliver c\<close> is the context on the server.
\<close>

definition metadata_key :: "string \<Rightarrow> bool" where
  "metadata_key k \<longleftrightarrow> k \<noteq> [] \<and> set k \<subseteq> set ''abcdefghijklmnopqrstuvwxyz0123456789-_.''
     \<and> \<not> prefix ''grpc-'' k
     \<and> k \<notin> {''content-type'', ''user-agent'', ''te'', ''host'', ''connection'', ''transfer-encoding''}"

definition header_value :: "string \<Rightarrow> bool" where
  "header_value v \<longleftrightarrow> v \<noteq> [] \<and> (\<forall>c \<in> set v. graphic c \<or> c = CHR '' '') \<and> graphic (hd v) \<and> graphic (last v)"

definition metadata_laws ::
    "'md metadata_api \<Rightarrow> (go_context \<Rightarrow> string \<Rightarrow> string list) \<Rightarrow> (go_context \<Rightarrow> go_context) \<Rightarrow> bool" where
  "metadata_laws api sent deliver \<longleftrightarrow>
     (\<forall>c k v. metadata_key k \<longrightarrow> header_value v \<longrightarrow>
        (\<exists>c'. md_AppendToOutgoingContext api (Some c) k v = Some c'
           \<and> (\<forall>j. metadata_key j \<longrightarrow> sent c' j = sent c j @ (if j = k then [v] else []))))
   \<and> (\<forall>c k. metadata_key k \<longrightarrow> list_all header_value (sent c k) \<longrightarrow>
        (\<exists>md. md_FromIncomingContext api (Some (deliver c)) = Some md \<and> md_Get api md k = sent c k))"

lemma lower_bytes [simp]:
  "set k \<subseteq> set ''abcdefghijklmnopqrstuvwxyz0123456789-_.'' \<Longrightarrow> ToLower k = k"
proof (induction k)
  case (Cons c k)
  have "ascii_lower c = c \<and> c \<noteq> CHR 0xE2 \<and> c \<noteq> CHR 0xC4" if "c \<in> set ''abcdefghijklmnopqrstuvwxyz0123456789-_.''"
    using that by (auto simp: ascii_lower_def)
  with Cons show ?case by (auto simp: ToLower_def)
qed (simp add: ToLower_def)

lemma sent_value_header: "word tok \<Longrightarrow> same_prefix os l \<Longrightarrow> header_value (sent_value os tok)"
  by (auto simp: header_value_def sent_value_def same_prefix_def word_def split: if_splits)

lemma sent_value_ne: "word tok \<Longrightarrow> sent_value os tok \<noteq> []"
  by (simp add: sent_value_def word_def)

lemma inject_delivers:
  assumes laws: "metadata_laws api sent deliver"
    and src: "co_source os (Some c) = Some tok" and tok: "word tok" and same: "same_prefix os (so_lookup sos)"
    and key: "co_metadataKey os = so_metadataKey sos" "metadata_key (so_metadataKey sos)"
    and none: "sent c (so_metadataKey sos) = []"
  obtains c' md where "inject api os (Some c) = Some c'" and "md_FromIncomingContext api (Some (deliver c')) = Some md"
    and "md_Get api md (ToLower (so_metadataKey sos)) = [sent_value os tok]"
proof -
  let ?k = "so_metadataKey sos" and ?v = "sent_value os tok"
  note hv = sent_value_header [OF tok same]
  obtain c' where c': "md_AppendToOutgoingContext api (Some c) ?k ?v = Some c'" and sent: "sent c' ?k = [?v]"
    using laws key(2) hv none unfolding metadata_laws_def by fastforce
  moreover have "list_all header_value (sent c' ?k)" by (simp add: sent hv)
  then obtain md where "md_FromIncomingContext api (Some (deliver c')) = Some md" "md_Get api md ?k = [?v]"
    using conjunct2 [OF laws [unfolded metadata_laws_def]] key(2) unfolding sent [symmetric] by blast
  moreover have "inject api os (Some c) = Some c'"
    using src tok key(1) c' by (simp add: inject_def sent_value_def Let_def word_def)
  moreover have "ToLower ?k = ?k" using key(2) by (simp add: metadata_key_def)
  ultimately show thesis using that by simp
qed

text \<open>C29: a token makes the round trip through gRPC, over a metadata API that does what gRPC
  documents. Client and server agree on the metadata key and, up to letter case, on the prefix; the token
  is printable and without blanks, and the context of the call carries no value of its own
  under the key. The client interceptors start the call with the token in its outgoing metadata;
  from the metadata delivered, the server interceptors, unary and stream, read back the token itself
  and, if it is a live access token, run the handler, with a context that names its login.
  Without automatic renewal no token and no session changes; with it only the token itself, and the
  session of its subject, as it is renewed.\<close>

theorem grpc_roundtrip:
  fixes api :: "'md metadata_api" and w :: "'x mem_scheme"
    and copts :: "(clientOptions \<Rightarrow> clientOptions) list" and sopts :: "(server_options \<Rightarrow> server_options) list"
  defines "os \<equiv> newClientOptions copts" and "sos \<equiv> newOptions sopts"
  assumes laws: "metadata_laws api sent deliver"
    and client: "co_source os (Some c) = Some tok" "word tok" "same_prefix os (so_lookup sos)"
    and key: "co_metadataKey os = so_metadataKey sos" "metadata_key (so_metadataKey sos)"
    and none: "sent c (so_metadataKey sos) = []"
    and live: "mem_inv w" "usable w tok it" "ts_Kind (ti_state it) = TokenKindAccess"
      "cf_AutoRenew cf \<longrightarrow> \<not> LoginSubject_IsZero (subject_key it)"
    and open_call: "\<forall>c'. inject api os (Some c) = Some c' \<longrightarrow> healthy (Some (deliver c'))"
  shows "\<exists>c' auth s w'. UnaryClientInterceptor api copts (Some c) call invoker world = invoker (Some c') call world
    \<and> StreamClientInterceptor api copts (Some c) call invoker world = invoker (Some c') call world
    \<and> UnaryServerInterceptor api (Some (memory_manager cf az)) sopts (Some (deliver c')) req handler w
        = (case handler (WithAuth (Some (deliver c')) (Some auth)) req w' of (resp, w'') \<Rightarrow> (Inr resp, w''))
    \<and> (stream_ctx ss = Some (deliver c') \<longrightarrow>
        StreamServerInterceptor api stream_ctx (Some (memory_manager cf az)) sopts srv ss shandler w
        = (case shandler srv \<lparr>ws_ServerStream = ss, ws_ctx = WithAuth (Some (deliver c')) (Some auth)\<rparr> w' of
             (resp, w'') \<Rightarrow> (Inr resp, w'')))
    \<and> ac_LoginID auth = ts_LoginID (ti_state it) \<and> ac_LoginType auth = ts_LoginType (ti_state it)
    \<and> ac_Token auth = tok \<and> mem_inv w'
    \<and> (if cf_AutoRenew cf then renewed_read cf w (storeKey tok) it s w'
       else mem_tokens w' = mem_tokens w \<and> mem_sessions w' = mem_sessions w)"
proof -
  have tok: "TrimSpace tok \<noteq> []" "TrimSpace tok = tok" using client(2) by (auto simp: word_def)
  obtain c' md where inj: "inject api os (Some c) = Some c'"
    and md: "md_FromIncomingContext api (Some (deliver c')) = Some md"
      "md_Get api md (ToLower (so_metadataKey sos)) = [sent_value os tok]"
    by (rule inject_delivers [OF laws client key none])
  obtain auth s w' where auth: "Authenticate (Some (deliver c')) (Some (memory_manager cf az)) tok w = (Inr (Some auth), w')"
    and post: "ac_LoginID auth = ts_LoginID (ti_state it)" "ac_LoginType auth = ts_LoginType (ti_state it)"
      "ac_Token auth = tok" "mem_inv w'" "if cf_AutoRenew cf then renewed_read cf w (storeKey tok) it s w'
         else mem_tokens w' = mem_tokens w \<and> mem_sessions w' = mem_sessions w"
    using Authenticate_live [OF live(1,2) _ tok(1) live(3,4), of "Some (deliver c')" az] open_call inj tok(2) by auto
  have "grpc_authenticate api sos (Some (deliver c')) (Some (memory_manager cf az)) w
      = (Inr (WithAuth (Some (deliver c')) (Some auth)), w')"
    using auth client(2,3) md unfolding sos_def
    by (simp add: grpc_authenticate_def Resolve_server normalize_sent)
  then have "UnaryServerInterceptor api (Some (memory_manager cf az)) sopts (Some (deliver c')) req handler w
        = (case handler (WithAuth (Some (deliver c')) (Some auth)) req w' of (resp, w'') \<Rightarrow> (Inr resp, w''))"
    and "stream_ctx ss = Some (deliver c') \<longrightarrow>
        StreamServerInterceptor api stream_ctx (Some (memory_manager cf az)) sopts srv ss shandler w
        = (case shandler srv \<lparr>ws_ServerStream = ss, ws_ctx = WithAuth (Some (deliver c')) (Some auth)\<rparr> w' of
             (resp, w'') \<Rightarrow> (Inr resp, w''))"
    unfolding sos_def by (simp_all add: UnaryServerInterceptor_def StreamServerInterceptor_def Let_def)
  moreover have "UnaryClientInterceptor api copts (Some c) call invoker world = invoker (Some c') call world"
    "StreamClientInterceptor api copts (Some c) call invoker world = invoker (Some c') call world"
    using inj unfolding os_def by (simp_all add: UnaryClientInterceptor_def StreamClientInterceptor_def Let_def)
  ultimately show ?thesis using post by blast
qed

text \<open>A metadata API that keeps its pairs in the device of an authentication, each key and each value
  ended by a zero byte, and delivers a context as it is.\<close>

definition nul_byte :: char where "nul_byte = CHR 0x00"

function demo_pairs :: "string \<Rightarrow> (string \<times> string) list" where
  "demo_pairs s = (if s = [] then [] else
     let k = takeWhile (\<lambda>c. c \<noteq> nul_byte) s; s = drop 1 (dropWhile (\<lambda>c. c \<noteq> nul_byte) s);
         v = takeWhile (\<lambda>c. c \<noteq> nul_byte) s; s = drop 1 (dropWhile (\<lambda>c. c \<noteq> nul_byte) s)
     in demo_pairs s @ [(k, v)])"
  by pat_completeness auto
termination
proof (relation "measure length", simp, goal_cases)
  case (1 s k s1 v s2)
  have shrink: "length (drop 1 (dropWhile P t)) \<le> length t - 1" for P and t :: string
    using length_dropWhile_le [of P t] by (simp add: diff_le_mono)
  have "length s2 \<le> length s - 1"
    unfolding 1 using shrink [of "\<lambda>c. c \<noteq> nul_byte" s] shrink [of "\<lambda>c. c \<noteq> nul_byte" "drop 1 (dropWhile (\<lambda>c. c \<noteq> nul_byte) s)"]
    by linarith
  with 1(1) show ?case by (cases s) auto
qed

declare demo_pairs.simps [simp del]

definition demo_device :: "go_context \<Rightarrow> string" where
  "demo_device c = (case gc_auth c of None \<Rightarrow> [] | Some a \<Rightarrow> ac_Device a)"

definition demo_values :: "(string \<times> string) list \<Rightarrow> string \<Rightarrow> string list" where
  "demo_values ps k = map snd (filter (\<lambda>p. fst p = k) ps)"

definition demo_append :: "go_context \<Rightarrow> string \<Rightarrow> string \<Rightarrow> go_context" where
  "demo_append c k v = c\<lparr>gc_auth := Some
     \<lparr>ac_Token = [], ac_Kind = [], ac_LoginID = [], ac_LoginType = [], ac_Device = k @ nul_byte # v @ nul_byte # demo_device c,
      ac_ExpiresAt = None, ac_Metadata = None\<rparr>\<rparr>"

definition demo_api :: "(string \<times> string) list metadata_api" where
  "demo_api = \<lparr>md_FromIncomingContext = map_option (\<lambda>c. demo_pairs (demo_device c)),
     md_Get = demo_values, md_AppendToOutgoingContext = (\<lambda>c k v. map_option (\<lambda>c. demo_append c k v) c)\<rparr>"

lemma demo_pairs_append: "nul_byte \<notin> set k \<Longrightarrow> nul_byte \<notin> set v \<Longrightarrow>
   demo_pairs (k @ nul_byte # v @ nul_byte # s) = demo_pairs s @ [(k, v)]"
  by (subst demo_pairs.simps) (simp add: Let_def takeWhile_append dropWhile_append)

lemma demo_metadata_laws: "metadata_laws demo_api (\<lambda>c. demo_values (demo_pairs (demo_device c))) (\<lambda>c. c)"
proof -
  have key: "nul_byte \<notin> set k" if "metadata_key k" for k
    using that by (auto simp: metadata_key_def nul_byte_def)
  have val: "nul_byte \<notin> set v" if "header_value v" for v
    using that by (auto simp: header_value_def nul_byte_def graphic_def)
  have "demo_device (demo_append c k v) = k @ nul_byte # v @ nul_byte # demo_device c" for c k v
    by (simp add: demo_device_def demo_append_def)
  then have "demo_values (demo_pairs (demo_device (demo_append c k v))) j
      = demo_values (demo_pairs (demo_device c)) j @ (if j = k then [v] else [])"
    if "metadata_key k" "header_value v" for c k v j
    by (simp add: demo_pairs_append key val that demo_values_def)
  then show ?thesis
    by (simp add: metadata_laws_def demo_api_def)
qed

theorem grpc_roundtrip_witness:
  "\<exists>c' w'. UnaryClientInterceptor demo_api
       [WithClientTokenPrefix ''Bearer'', WithTokenSource (Some (\<lambda>_. Some ''abc''))] (Some Background) ()
       (\<lambda>c _ w. (c, w)) () = (Some c', ())
    \<and> UnaryServerInterceptor demo_api (Some (memory_manager DefaultConfig no_rbac))
      [WithTokenLookup \<lparr>tl_TokenName = [], tl_TokenPrefix = ''bearer'', tl_AuthorizationKey = [], tl_Order = []\<rparr>]
      (Some c') () (\<lambda>c _ w. (LoginIDFromContext c, w)) demo_login = (Inr (Some ''alice''), w')"
proof -
  let ?copts = "[WithClientTokenPrefix ''Bearer'', WithTokenSource (Some (\<lambda>_. Some ''abc''))]"
  let ?os = "newClientOptions ?copts"
  let ?sopts = "[WithTokenLookup \<lparr>tl_TokenName = [], tl_TokenPrefix = ''bearer'', tl_AuthorizationKey = [], tl_Order = []\<rparr>]"
  have words: "word ''abc''" "word ''Bearer''" "word ''bearer''" by (simp_all add: word_def graphic_def)
  have os: "co_tokenPrefix ?os = ''Bearer''" "co_metadataKey ?os = DefaultMetadataKey" "co_source ?os c = Some ''abc''" for c
    using words(2) by (simp_all add: newClientOptions_def WithClientTokenPrefix_def WithTokenSource_def
        Let_def DefaultMetadataKey_def)
  have sos: "so_metadataKey (newOptions ?sopts) = DefaultMetadataKey" "tl_TokenPrefix (so_lookup (newOptions ?sopts)) = ''bearer''"
    by (simp_all add: newOptions_def WithTokenLookup_def Let_def DefaultMetadataKey_def)
  have fold: "EqualFold ''Bearer'' ''bearer''" and key: "metadata_key DefaultMetadataKey" by code_simp+
  obtain it where it: "usable demo_login ''abc'' it" "mem_inv demo_login"
    "ts_Kind (ti_state it) = TokenKindAccess" "ts_LoginID (ti_state it) = ''alice''"
    by (rule demo_login_usable)
  have same: "same_prefix ?os (so_lookup (newOptions ?sopts))"
    using words fold by (simp add: same_prefix_def os sos)
  have none: "demo_values (demo_pairs (demo_device Background)) (so_metadataKey (newOptions ?sopts)) = []"
    by (simp add: demo_device_def Background_def demo_pairs.simps demo_values_def)
  have ctx: "\<forall>c'. inject demo_api ?os (Some Background) = Some c' \<longrightarrow> healthy (Some ((\<lambda>c. c) c'))"
    by (auto simp: inject_def os Let_def demo_api_def demo_append_def healthy_def Background_def)
  obtain c' auth w' where "UnaryClientInterceptor demo_api ?copts (Some Background) () (\<lambda>c _ w. (c, w)) () = (Some c', ())"
    "UnaryServerInterceptor demo_api (Some (memory_manager DefaultConfig no_rbac)) ?sopts (Some c') ()
       (\<lambda>c _ w. (LoginIDFromContext c, w)) demo_login
     = (Inr (LoginIDFromContext (WithAuth (Some c') (Some auth))), w')" "ac_LoginID auth = ''alice''"
    using grpc_roundtrip [OF demo_metadata_laws os(3) words(1) same _ _ none it(2,1,3) _ ctx, of DefaultConfig "()"
        "\<lambda>c _ w. (c, w)" "()" no_rbac "()" "\<lambda>c _ w. (LoginIDFromContext c, w)"
        "\<lambda>_ :: unit. None" "()" "()" "\<lambda>_ _ w. ((), w)"] os(2) sos(1) key it(4)
    by auto
  then show ?thesis by (auto simp: LoginIDFromContext_def AuthFromContext_WithAuth)
qed

subsection \<open>Cookies\<close>

lemma SetTokenCookie_Inr:
  assumes "SetTokenCookie bits cfg (Some resp) tok ttl w = (Inr resp', w')"
  shows "\<exists>k. CookieConfig_cookie cfg (TrimSpace tok) = Inr k \<and> TrimSpace tok \<noteq> [] \<and>
    resp' = SetCookie (if ttl > 0 then k\<lparr>hc_MaxAge := lifetime_seconds ttl,
       hc_Expires := Some (env_clock w (env_tick w) + ttl)\<rparr> else k) resp"
  using assms by (auto simp: SetTokenCookie_def Let_def throw_def ret_def Time_Add_def
      split: if_splits sum.splits)

lemma to_int_64: "0 < ttl \<Longrightarrow> ttl \<le> max_duration \<Longrightarrow> to_int 64 (lifetime_seconds ttl) = lifetime_seconds ttl"
proof -
  assume "0 < ttl" "ttl \<le> max_duration"
  then have "- (2 ^ 63) \<le> lifetime_seconds ttl" "lifetime_seconds ttl < 2 ^ 63"
    by (simp_all add: lifetime_seconds_def max_duration_def Second_def)
  then show ?thesis unfolding to_int_def by (subst signed_take_bit_int_eq_self) simp_all
qed

text \<open>C32: a written token cookie obeys the rules of browsers: a valid name and value, an absolute path,
  and the attributes that \<open>SameSite=None\<close> and the \<open>__Secure-\<close> and \<open>__Host-\<close> prefixes demand. A positive
  lifetime becomes \<open>Max-Age\<close> rounded up to seconds, never zero and never short of the lifetime, and
  the matching expiry; any other lifetime leaves both unset. On 64 bits no lifetime is out of range,
  and deleting names the same cookie, path and domain.\<close>

theorem token_cookie:
  assumes "SetTokenCookie bits cfg (Some resp) tok ttl w = (Inr resp', w')"
  shows "\<exists>k. rs_set_cookies resp' = rs_set_cookies resp @ [k] \<and> cookie_rules k
    \<and> hc_Value k = TrimSpace tok \<and> hc_Name k = cookie_name cfg
    \<and> (if ttl > 0 then 0 < hc_MaxAge k \<and> (hc_MaxAge k - 1) * Second < ttl \<and> ttl \<le> hc_MaxAge k * Second
         \<and> hc_Expires k = Some (env_clock w (env_tick w) + ttl)
       else hc_MaxAge k = 0 \<and> hc_Expires k = None)
    \<and> (\<exists>resp'' d. ClearTokenCookie cfg (Some resp) = Inr resp'' \<and> rs_set_cookies resp'' = rs_set_cookies resp @ [d]
         \<and> hc_MaxAge d = - 1 \<and> hc_Name d = hc_Name k \<and> hc_Path d = hc_Path k \<and> hc_Domain d = hc_Domain k)
    \<and> (0 < ttl \<and> ttl \<le> max_duration \<longrightarrow> to_int 64 (lifetime_seconds ttl) = lifetime_seconds ttl)"
proof -
  let ?k = "cookie_of cfg (TrimSpace tok)" and ?d = "cookie_of cfg []"
  have rules: "cookie_rules ?k" "cookie_rules ?d"
    and resp': "resp' = SetCookie (if ttl > 0 then ?k\<lparr>hc_MaxAge := lifetime_seconds ttl,
       hc_Expires := Some (env_clock w (env_tick w) + ttl)\<rparr> else ?k) resp"
    using SetTokenCookie_Inr [OF assms] by (auto simp: CookieConfig_cookie_Inr_iff intro: cookie_rules_no_value)
  have "ClearTokenCookie cfg (Some resp) = Inr (SetCookie (?d\<lparr>hc_MaxAge := -1, hc_Expires := Some (1 * Second)\<rparr>) resp)"
    using CookieConfig_cookie_Inr_iff [of cfg "[]" ?d] rules by (simp add: ClearTokenCookie_def)
  then show ?thesis
    using rules lifetime_seconds_ceiling [of ttl] to_int_64 [of ttl] by (auto simp: resp' SetCookie_def)
qed

definition blank_response :: http_response where
  "blank_response = \<lparr>rs_status = None, rs_set_cookies = [], rs_body = []\<rparr>"

lemma demo_cookie_rules: "cookie_rules (cookie_of DefaultCookieConfig ''abc'')"
  by code_simp

lemma demo_set_cookie:
  "\<exists>resp' w'. SetTokenCookie 64 DefaultCookieConfig (Some blank_response) ''abc'' (90 * Minute + 1) demo
     = (Inr resp', w') \<and> resp' = SetCookie (cookie_of DefaultCookieConfig ''abc''
          \<lparr>hc_MaxAge := 5401, hc_Expires := Some (90 * Minute + 1)\<rparr>) blank_response"
proof -
  have "CookieConfig_cookie DefaultCookieConfig ''abc'' = Inr (cookie_of DefaultCookieConfig ''abc'')"
    by (simp add: CookieConfig_cookie_Inr_iff demo_cookie_rules)
  moreover have "lifetime_seconds (90 * Minute + 1) = 5401" "to_int 64 5401 = 5401"
    "env_clock demo (env_tick demo) = 0" "0 < 90 * Minute + 1" by code_simp+
  ultimately show ?thesis by (simp add: SetTokenCookie_def Let_def Time_Add_def)
qed

theorem token_cookie_witness:
  "\<exists>k. hc_MaxAge k = 5401 \<and> (5401 - 1) * Second < 90 * Minute + 1 \<and> cookie_rules k
     \<and> rs_set_cookies blank_response @ [k] = [k]"
proof -
  obtain resp' w' where set: "SetTokenCookie 64 DefaultCookieConfig (Some blank_response) ''abc''
      (90 * Minute + 1) demo = (Inr resp', w')"
    and r: "rs_set_cookies resp' = [cookie_of DefaultCookieConfig ''abc''
      \<lparr>hc_MaxAge := 5401, hc_Expires := Some (90 * Minute + 1)\<rparr>]"
    using demo_set_cookie by (auto simp: SetCookie_def blank_response_def)
  have pos: "0 < 90 * Minute + 1" by code_simp
  from token_cookie [OF set] obtain k where "rs_set_cookies resp' = rs_set_cookies blank_response @ [k]"
    "cookie_rules k" "(hc_MaxAge k - 1) * Second < 90 * Minute + 1"
    unfolding if_P [OF pos] by blast
  moreover from this r have "hc_MaxAge k = 5401" by (auto simp: blank_response_def)
  ultimately show ?thesis by (intro exI [of _ k]) (simp add: blank_response_def)
qed

text \<open>A request that brings back the cookies of a response and nothing else.\<close>

definition bring_back :: "http_response \<Rightarrow> http_request" where
  "bring_back resp = \<lparr>rq_ctx = Background, rq_header = (\<lambda>_. []),
     rq_cookies = map (\<lambda>k. (hc_Name k, hc_Value k)) (rs_set_cookies resp), rq_query = (\<lambda>_. [])\<rparr>"

text \<open>C30: writer and reader share the cookie. A token written as a cookie under some configuration is
  the token that an extractor with this configuration finds in the next request.\<close>

theorem cookie_roundtrip:
  fixes cfg :: CookieConfig
  assumes "SetTokenCookie bits cfg (Some resp) tok ttl w = (Inr resp', w')" and "rs_set_cookies resp = []"
  shows "ExtractToken (NewExtractor [WithCookieConfig cfg] :: 'w Extractor) (Some (bring_back resp'))
    = Some (TrimSpace tok)"
proof -
  obtain k where "rs_set_cookies resp' = [k]" "hc_Name k = cookie_name cfg" "hc_Value k = TrimSpace tok"
    and ne: "TrimSpace tok \<noteq> []" "cookie_name cfg \<noteq> []"
    using SetTokenCookie_Inr [OF assms(1)] assms(2)
    by (auto simp: CookieConfig_cookie_Inr_iff SetCookie_def cookie_name_def DefaultTokenName_def)
  then have cookie: "request_Cookie (bring_back resp') (cookie_name cfg) = Some (TrimSpace tok)"
    by (simp add: request_Cookie_def bring_back_def)
  have header: "Header_Get (bring_back resp') key = []" for key
    by (simp add: Header_Get_def bring_back_def first_value_def)
  let ?e = "NewExtractor [WithCookieConfig cfg] :: 'w Extractor"
  have e: "cc_Name (ho_cookieConfig (ex_opts ?e)) = cookie_name cfg" "ho_readCookie (ex_opts ?e)"
    "tl_Order (TokenLookup_withDefaults (ex_lookup ?e)) = [SourceHeader, SourceAuthorization, SourceCookie]"
    "tl_TokenPrefix (TokenLookup_withDefaults (ex_lookup ?e)) = []"
    by (cases "cc_Name cfg = []";
        simp add: NewExtractor_def WithCookieConfig_def Let_def cookie_name_def DefaultTokenName_def
          DefaultAuthorizationKey_def TokenLookup_withDefaults_def DefaultOrder_def)+
  have none: "TokenLookup_normalize l [] = None" for l by (simp add: TokenLookup_normalize_def Let_def)
  show ?thesis
    using normalize_plain [of "TokenLookup_withDefaults (ex_lookup ?e)" "TrimSpace tok"] ne
    by (simp add: ExtractToken_def Let_def Resolve_def e cookie lookup_source_def header none source_defs)
qed

theorem cookie_roundtrip_witness:
  "\<exists>resp'. ExtractToken (NewExtractor [WithCookieConfig DefaultCookieConfig] :: unit Extractor)
     (Some (bring_back resp')) = Some ''abc'' \<and> resp' \<noteq> blank_response"
proof -
  obtain resp' w' where set: "SetTokenCookie 64 DefaultCookieConfig (Some blank_response) ''abc''
      (90 * Minute + 1) demo = (Inr resp', w')"
    and r: "rs_set_cookies resp' \<noteq> []"
    using demo_set_cookie by (auto simp: SetCookie_def blank_response_def)
  from cookie_roundtrip [OF set] r show ?thesis by (auto simp: blank_response_def)
qed

end
