(* ===== verification/Token_Gen.thy ===== *)
theory Token_Gen
  imports Go_Text Rand Store_Port
begin

text \<open>
  The token generators of \<open>token/generator.go\<close> and the JWT manager of \<open>token/jwt.go\<close>. The libraries
  that sign and verify a JWT, make a UUID and make a secret are third-party: they are parameters,
  gathered in \<open>jwt_lib\<close>. The data of a token is of any type, the type parameter of the code.
\<close>

subsection \<open>Errors\<close>

text \<open>The sentinels of \<open>token/errors.go\<close>, and what wraps them: the second part of an
  \<open>fmt.Errorf("%w: ...")\<close> is the argument, and a library may report an error of its own.\<close>

datatype token_error =
    TokErrEmptyUserID | TokErrEmptyToken | TokErrEmptyJWTSecret | TokErrInvalidToken
  | TokErrInvalidIssuer string | TokErrInvalidAudience "string list"
  | TokErrUnsupportedTokenStyle string | TokErrUnsupportedJWTAlgorithm string
  | TokErrGenerateToken error | TokErrGenerateEmpty
  | TokLibrary string | TokParse token_error | TokVerify token_error

subsection \<open>Configuration\<close>

definition DefaultSimpleLength :: int where "DefaultSimpleLength = 16"
definition TiktokTokenLength :: nat where "TiktokTokenLength = 11"
definition TiktokCharset :: string where
  "TiktokCharset = ''0123456789ABCDEFGHIJKLMNOPQRSTUVWXYZabcdefghijklmnopqrstuvwxyz''"
definition HashRandomBytesLen :: nat where "HashRandomBytesLen = 16"
definition TimestampRandomLen :: nat where "TimestampRandomLen = 8"
definition gen_DefaultTokenName :: string where "gen_DefaultTokenName = ''token''"

type_synonym TokenStyle = string

definition TokenStyleSimple :: TokenStyle where "TokenStyleSimple = ''simple''"
definition TokenStyleTimestamp :: TokenStyle where "TokenStyleTimestamp = ''timestamp''"
definition TokenStyleUUID :: TokenStyle where "TokenStyleUUID = ''uuid''"
definition TokenStyleHash :: TokenStyle where "TokenStyleHash = ''hash''"
definition TokenStyleJWT :: TokenStyle where "TokenStyleJWT = ''jwt''"
definition TokenStyleTiktok :: TokenStyle where "TokenStyleTiktok = ''tiktok''"

lemmas style_defs = TokenStyleSimple_def TokenStyleTimestamp_def TokenStyleUUID_def
  TokenStyleHash_def TokenStyleJWT_def TokenStyleTiktok_def

definition DefaultJWTSecret :: string where "DefaultJWTSecret = []"
definition DefaultJWTAlgorithm :: string where "DefaultJWTAlgorithm = ''HS256''"
definition DefaultIssuer :: string where "DefaultIssuer = ''hurry-app''"
definition DefaultJWTExpiry :: duration where "DefaultJWTExpiry = 7 * 24 * Hour"
definition JWTSecretLength :: int where "JWTSecretLength = 32"

record TokenConfig =
  tc_JWTIssuer :: string
  tc_JWTSecretKey :: string
  tc_JWTAudience :: "string list"
  tc_JWTAlgorithm :: string
  tc_JWTExpiry :: duration
  tc_TokenPrefix :: string
  tc_TokenStyle :: TokenStyle
  tc_TokenName :: string
  tc_SimpleTokenLength :: int

definition DefaultTokenConfig :: TokenConfig where
  "DefaultTokenConfig = \<lparr>tc_JWTIssuer = DefaultIssuer, tc_JWTSecretKey = DefaultJWTSecret,
     tc_JWTAudience = [], tc_JWTAlgorithm = DefaultJWTAlgorithm, tc_JWTExpiry = DefaultJWTExpiry,
     tc_TokenPrefix = [], tc_TokenStyle = TokenStyleSimple, tc_TokenName = gen_DefaultTokenName,
     tc_SimpleTokenLength = DefaultSimpleLength\<rparr>"

definition NewTokenConfig :: "TokenConfig go_option list \<Rightarrow> TokenConfig" where
  "NewTokenConfig opts = option_Apply DefaultTokenConfig opts"

definition WithJWTIssuer :: "string \<Rightarrow> TokenConfig \<Rightarrow> TokenConfig" where
  "WithJWTIssuer issuer c =
     (let issuer = (if issuer = [] then DefaultIssuer else issuer) in c\<lparr>tc_JWTIssuer := issuer\<rparr>)"

definition WithJWTSecretKey :: "string \<Rightarrow> TokenConfig \<Rightarrow> TokenConfig" where
  "WithJWTSecretKey secretKey c = c\<lparr>tc_JWTSecretKey := secretKey\<rparr>"

definition WithJWTAudience :: "string list \<Rightarrow> TokenConfig \<Rightarrow> TokenConfig" where
  "WithJWTAudience audience c = c\<lparr>tc_JWTAudience := audience\<rparr>"

definition WithJWTAlgorithm :: "string \<Rightarrow> TokenConfig \<Rightarrow> TokenConfig" where
  "WithJWTAlgorithm algorithm c =
     (let algorithm = (if algorithm = [] then DefaultJWTAlgorithm else algorithm)
      in c\<lparr>tc_JWTAlgorithm := algorithm\<rparr>)"

definition WithJWTExpiry :: "duration \<Rightarrow> TokenConfig \<Rightarrow> TokenConfig" where
  "WithJWTExpiry expiry c =
     (let expiry = (if expiry = 0 then DefaultJWTExpiry else expiry) in c\<lparr>tc_JWTExpiry := expiry\<rparr>)"

definition gen_WithTokenPrefix :: "string \<Rightarrow> TokenConfig \<Rightarrow> TokenConfig" where
  "gen_WithTokenPrefix pfx c = c\<lparr>tc_TokenPrefix := pfx\<rparr>"

definition WithTokenStyle :: "TokenStyle \<Rightarrow> TokenConfig \<Rightarrow> TokenConfig" where
  "WithTokenStyle style c =
     (let style = (if style = [] then TokenStyleSimple else style) in c\<lparr>tc_TokenStyle := style\<rparr>)"

definition gen_WithTokenName :: "string \<Rightarrow> TokenConfig \<Rightarrow> TokenConfig" where
  "gen_WithTokenName name c =
     (let name = (if name = [] then gen_DefaultTokenName else name) in c\<lparr>tc_TokenName := name\<rparr>)"

definition WithSimpleTokenLength :: "int \<Rightarrow> TokenConfig \<Rightarrow> TokenConfig" where
  "WithSimpleTokenLength len c =
     (let len = (if len \<le> 0 then DefaultSimpleLength else len) in c\<lparr>tc_SimpleTokenLength := len\<rparr>)"

definition WithTokenConfig :: "TokenConfig \<Rightarrow> TokenConfig \<Rightarrow> TokenConfig" where
  "WithTokenConfig config c =
     (let c = WithJWTIssuer (tc_JWTIssuer config) c;
          c = WithJWTSecretKey (tc_JWTSecretKey config) c;
          c = WithJWTAudience (tc_JWTAudience config) c;
          c = WithJWTAlgorithm (tc_JWTAlgorithm config) c;
          c = WithJWTExpiry (tc_JWTExpiry config) c;
          c = gen_WithTokenPrefix (tc_TokenPrefix config) c;
          c = WithTokenStyle (tc_TokenStyle config) c;
          c = gen_WithTokenName (tc_TokenName config) c
      in WithSimpleTokenLength (tc_SimpleTokenLength config) c)"

record JwtConfig =
  jc_SecretKey :: string
  jc_Issuer :: string
  jc_Audience :: "string list"
  jc_Algorithm :: string
  jc_Expiry :: duration

definition DefaultJwtConfig :: JwtConfig where
  "DefaultJwtConfig = \<lparr>jc_SecretKey = DefaultJWTSecret, jc_Issuer = DefaultIssuer, jc_Audience = [],
     jc_Algorithm = DefaultJWTAlgorithm, jc_Expiry = DefaultJWTExpiry\<rparr>"

definition NewJwtConfig :: "JwtConfig go_option list \<Rightarrow> JwtConfig" where
  "NewJwtConfig opts = option_Apply DefaultJwtConfig opts"

definition WithSecretKey :: "string \<Rightarrow> JwtConfig \<Rightarrow> JwtConfig" where
  "WithSecretKey secretKey c = c\<lparr>jc_SecretKey := secretKey\<rparr>"

definition WithIssuer :: "string \<Rightarrow> JwtConfig \<Rightarrow> JwtConfig" where
  "WithIssuer issuer c =
     (let issuer = (if TrimSpace issuer = [] then DefaultIssuer else issuer) in c\<lparr>jc_Issuer := issuer\<rparr>)"

definition WithAudience :: "string list \<Rightarrow> JwtConfig \<Rightarrow> JwtConfig" where
  "WithAudience audience c = c\<lparr>jc_Audience := audience\<rparr>"

definition WithAlgorithm :: "string \<Rightarrow> JwtConfig \<Rightarrow> JwtConfig" where
  "WithAlgorithm algorithm c =
     (let algorithm = (if TrimSpace algorithm = [] then DefaultJWTAlgorithm else algorithm)
      in c\<lparr>jc_Algorithm := algorithm\<rparr>)"

definition WithExpiry :: "duration \<Rightarrow> JwtConfig \<Rightarrow> JwtConfig" where
  "WithExpiry expiry c =
     (let expiry = (if expiry = 0 then DefaultJWTExpiry else expiry) in c\<lparr>jc_Expiry := expiry\<rparr>)"

definition WithJwtConfig :: "JwtConfig \<Rightarrow> JwtConfig \<Rightarrow> JwtConfig" where
  "WithJwtConfig config c =
     WithExpiry (jc_Expiry config) (WithAlgorithm (jc_Algorithm config) (WithAudience (jc_Audience config)
       (WithIssuer (jc_Issuer config) (WithSecretKey (jc_SecretKey config) c))))"

definition TokenConfig_jwtConfig :: "TokenConfig \<Rightarrow> JwtConfig \<Rightarrow> JwtConfig" where
  "TokenConfig_jwtConfig tc jwt =
     WithExpiry (tc_JWTExpiry tc) (WithAlgorithm (tc_JWTAlgorithm tc) (WithAudience (tc_JWTAudience tc)
       (WithIssuer (tc_JWTIssuer tc) (WithSecretKey (tc_JWTSecretKey tc) jwt))))"

subsection \<open>JWT\<close>

datatype SigningMethod = SigningMethodHS256 | SigningMethodHS384 | SigningMethodHS512

definition jwtSigningMethod :: "string \<Rightarrow> token_error + SigningMethod" where
  "jwtSigningMethod algorithm =
     (let a = ToUpper (TrimSpace algorithm)
      in if a = ''HS256'' then Inr SigningMethodHS256
         else if a = ''HS384'' then Inr SigningMethodHS384
         else if a = ''HS512'' then Inr SigningMethodHS512
         else Inl (TokErrUnsupportedJWTAlgorithm algorithm))"

text \<open>\<open>Claims[T]\<close> with the registered claims; a \<open>*NumericDate\<close> is an instant or nil.\<close>

record 'd Claims =
  cl_Data :: 'd
  cl_Issuer :: string
  cl_Subject :: string
  cl_Audience :: "string list"
  cl_ExpiresAt :: "time option"
  cl_NotBefore :: "time option"
  cl_IssuedAt :: "time option"
  cl_ID :: string

text \<open>
  What the program relies on of \<open>jwtx\<close>, \<open>jwt\<close> and \<open>uuid\<close>: the rounding of \<open>NewNumericDate\<close>, a fresh
  UUID, signing, and parsing with verification, which reads the clock and gives the claims with the
  flag \<open>Valid\<close>.
\<close>

record ('x, 'd) jwt_lib =
  jl_NumericDate :: "time \<Rightarrow> time"
  jl_NewUUID :: "'x env_scheme \<Rightarrow> string \<times> 'x env_scheme"
  jl_Generate :: "string \<Rightarrow> SigningMethod \<Rightarrow> 'd Claims \<Rightarrow> string + string"
  jl_Parse :: "string \<Rightarrow> string \<Rightarrow> SigningMethod \<Rightarrow> time \<Rightarrow> string + ('d Claims \<times> bool)"
  jl_GenerateSecret :: "int \<Rightarrow> 'x env_scheme \<Rightarrow> string \<times> 'x env_scheme"

type_synonym ('x, 'a) tok_op = "('x env_scheme, token_error, 'a) op"

definition time_Now :: "('x, time) tok_op" where
  "time_Now = (\<lambda>w. (Inr (env_clock w (env_tick w)), tick w))"

definition NewUUID :: "('x, 'd) jwt_lib \<Rightarrow> ('x, string) tok_op" where
  "NewUUID lib = (\<lambda>w. case jl_NewUUID lib w of (s, w') \<Rightarrow> (Inr s, w'))"

definition lift_error :: "('e \<Rightarrow> 'f) \<Rightarrow> 'e + 'a \<Rightarrow> ('w, 'f, 'a) op" where
  "lift_error f r = (case r of Inl e \<Rightarrow> throw (f e) | Inr x \<Rightarrow> ret x)"

definition JwtManager_GenerateToken ::
    "('x, 'd) jwt_lib \<Rightarrow> JwtConfig \<Rightarrow> string \<Rightarrow> 'd \<Rightarrow> ('x, string) tok_op" where
  "JwtManager_GenerateToken lib conf userID data =
     (let userID = TrimSpace userID
      in if userID = [] then throw TokErrEmptyUserID
         else
           let secretKey = TrimSpace (jc_SecretKey conf)
           in if secretKey = [] then throw TokErrEmptyJWTSecret
              else
                bindE (lift_error id (jwtSigningMethod (jc_Algorithm conf))) (\<lambda>signingMethod.
                bindE time_Now (\<lambda>now.
                bindE (NewUUID lib) (\<lambda>uuid.
                let claims = \<lparr>cl_Data = data, cl_Issuer = jc_Issuer conf, cl_Subject = userID,
                      cl_Audience = jc_Audience conf,
                      cl_ExpiresAt = Some (jl_NumericDate lib (Time_Add now (jc_Expiry conf))),
                      cl_NotBefore = Some (jl_NumericDate lib now),
                      cl_IssuedAt = Some (jl_NumericDate lib now), cl_ID = uuid\<rparr>
                in lift_error TokLibrary (jl_Generate lib secretKey signingMethod claims)))))"

fun audience_in :: "string list \<Rightarrow> string list \<Rightarrow> bool" where
  "audience_in actual [] = False"
| "audience_in actual (want # expected) =
     (let want = TrimSpace want
      in if want = [] then audience_in actual expected
         else if list_ex (\<lambda>got. got = want) actual then True else audience_in actual expected)"

definition audienceMatches :: "string list \<Rightarrow> string list \<Rightarrow> bool" where
  "audienceMatches actual expected = audience_in actual expected"

definition validateRegisteredClaims :: "JwtConfig \<Rightarrow> 'd Claims option \<Rightarrow> token_error option" where
  "validateRegisteredClaims conf claims =
     (case claims of
        None \<Rightarrow> Some TokErrInvalidToken
      | Some claims \<Rightarrow>
          let issuer = TrimSpace (jc_Issuer conf)
          in if issuer \<noteq> [] \<and> cl_Issuer claims \<noteq> issuer then Some (TokErrInvalidIssuer (cl_Issuer claims))
             else if jc_Audience conf \<noteq> [] \<and> \<not> audienceMatches (cl_Audience claims) (jc_Audience conf)
             then Some (TokErrInvalidAudience (cl_Audience claims))
             else None)"

definition ParseToken :: "('x, 'd) jwt_lib \<Rightarrow> JwtConfig \<Rightarrow> string \<Rightarrow> ('x, 'd Claims) tok_op" where
  "ParseToken lib conf tokenStr =
     (if TrimSpace tokenStr = [] then throw TokErrEmptyToken
      else
        let secretKey = TrimSpace (jc_SecretKey conf)
        in if secretKey = [] then throw TokErrEmptyJWTSecret
           else
             bindE (lift_error id (jwtSigningMethod (jc_Algorithm conf))) (\<lambda>signingMethod.
             bindE time_Now (\<lambda>now.
             bindE (lift_error (\<lambda>e. TokParse (TokLibrary e)) (jl_Parse lib tokenStr secretKey signingMethod now))
               (\<lambda>(claims, valid).
                  if valid
                  then (case validateRegisteredClaims conf (Some claims) of
                          Some err \<Rightarrow> throw err
                        | None \<Rightarrow> ret claims)
                  else throw TokErrInvalidToken))))"

definition VerifyToken :: "('x, 'd) jwt_lib \<Rightarrow> JwtConfig \<Rightarrow> string \<Rightarrow> ('x, bool) tok_op" where
  "VerifyToken lib conf tokenStr =
     bindE (attempt (ParseToken lib conf tokenStr)) (\<lambda>r.
     case r of Inl err \<Rightarrow> throw (TokVerify err) | Inr _ \<Rightarrow> ret True)"

definition GenerateJWTSecret :: "('x, 'd) jwt_lib \<Rightarrow> int \<Rightarrow> 'x env_scheme \<Rightarrow> string \<times> 'x env_scheme" where
  "GenerateJWTSecret lib len w =
     (let len = (if len \<le> 0 then JWTSecretLength else len)
      in case jl_GenerateSecret lib len w of (s, w') \<Rightarrow> (hex_EncodeToString s, w'))"

subsection \<open>The other styles\<close>

definition map_error :: "('e \<Rightarrow> 'f) \<Rightarrow> ('w, 'e, 'a) op \<Rightarrow> ('w, 'f, 'a) op" where
  "map_error f m = (\<lambda>w. case m w of (Inl e, w') \<Rightarrow> (Inl (f e), w') | (Inr x, w') \<Rightarrow> (Inr x, w'))"

definition generateSimpleToken :: "int \<Rightarrow> ('x, string) tok_op" where
  "generateSimpleToken len =
     (let len = (if len \<le> 0 then DefaultSimpleLength else len)
      in bindE (map_error TokErrGenerateToken (RandomString len)) (\<lambda>tokenStr.
         if tokenStr = [] then throw TokErrGenerateEmpty else ret tokenStr))"

definition generateUUIDToken :: "('x, 'd) jwt_lib \<Rightarrow> ('x, string) tok_op" where
  "generateUUIDToken lib = NewUUID lib"

definition generateTimestampToken :: "string \<Rightarrow> ('x, string) tok_op" where
  "generateTimestampToken userID =
     bindE (map_error TokErrGenerateToken (rand_Read TimestampRandomLen)) (\<lambda>randomBytes.
     bindE time_Now (\<lambda>now.
     let timestamp = now div Millisecond; randomPart = hex_EncodeToString randomBytes
     in ret (decimal timestamp @ ''_'' @ TrimSpace userID @ ''_'' @ randomPart)))"

definition generateHashToken :: "string \<Rightarrow> ('x, string) tok_op" where
  "generateHashToken userID =
     bindE (map_error TokErrGenerateToken (rand_Read HashRandomBytesLen)) (\<lambda>randomBytes.
     bindE time_Now (\<lambda>now.
     let data = TrimSpace userID @ '':'' @ decimal now @ '':'' @ hex_EncodeToString randomBytes
     in ret (hex_EncodeToString (Sum256 data))))"

fun tiktok_loop :: "nat \<Rightarrow> ('x, string) tok_op" where
  "tiktok_loop 0 = ret []"
| "tiktok_loop (Suc k) =
     bindE (map_error TokErrGenerateToken (rand_Int (length TiktokCharset))) (\<lambda>num.
     bindE (tiktok_loop k) (\<lambda>rest. ret (TiktokCharset ! num # rest)))"

definition generateTiktokToken :: "('x, string) tok_op" where
  "generateTiktokToken = tiktok_loop TiktokTokenLength"

definition TokenGenerator_GenerateToken ::
    "('x, 'd) jwt_lib \<Rightarrow> TokenConfig \<Rightarrow> string \<Rightarrow> 'd \<Rightarrow> ('x, string) tok_op" where
  "TokenGenerator_GenerateToken lib config userID data =
     (let style = tc_TokenStyle config
      in if style = TokenStyleJWT
         then JwtManager_GenerateToken lib (NewJwtConfig [Some (TokenConfig_jwtConfig config)]) userID data
         else if style = TokenStyleSimple then generateSimpleToken (tc_SimpleTokenLength config)
         else if style = TokenStyleUUID then generateUUIDToken lib
         else if style = TokenStyleTimestamp then generateTimestampToken userID
         else if style = TokenStyleHash then generateHashToken userID
         else if style = TokenStyleTiktok then generateTiktokToken
         else throw (TokErrUnsupportedTokenStyle style))"

end
