(* ===== verification/Token_Properties.thy ===== *)
theory Token_Properties
  imports Token_Gen Digests Go_Json
begin

text \<open>
  What the token generators promise: the shape of every style, configurations that options cannot
  break, and when a JWT made under a configuration is accepted under it.
\<close>

subsection \<open>Shapes\<close>

lemma keeps_map_error: "keeps I m Q \<Longrightarrow> keeps I (map_error f m) Q"
  by (fastforce simp: keeps_def map_error_def split: prod.splits sum.splits)

lemma keeps_time_Now: "tick_stable I \<Longrightarrow> keeps I time_Now (\<lambda>_. True)"
  by (simp add: keeps_def time_Now_def tick_stable_def)

lemma tick_stable_True [simp]: "tick_stable (\<lambda>_. True)"
  by (simp add: tick_stable_def)

lemma keeps_rand_Int: "0 < n \<Longrightarrow> tick_stable I \<Longrightarrow> keeps I (rand_Int n) (\<lambda>k. k < n)"
  unfolding rand_Int_def by (rule keeps_bindE [OF keeps_rand_Read]) (auto intro: keeps_ret)

lemma keeps_tiktok_loop:
  "tick_stable I \<Longrightarrow> keeps I (tiktok_loop k) (\<lambda>s. length s = k \<and> set s \<subseteq> set TiktokCharset)"
proof (induction k)
  case 0
  then show ?case by (simp add: keeps_ret)
next
  case (Suc k)
  have "keeps I (bindE (map_error TokErrGenerateToken (rand_Int (length TiktokCharset))) (\<lambda>num.
     bindE (tiktok_loop k) (\<lambda>rest. ret (TiktokCharset ! num # rest))))
     (\<lambda>s. length s = Suc k \<and> set s \<subseteq> set TiktokCharset)"
  proof (rule keeps_bindE [where R = "\<lambda>n. n < length TiktokCharset"], goal_cases)
    case 1
    show ?case by (intro keeps_map_error keeps_rand_Int Suc.prems) (simp add: TiktokCharset_def)
  next
    case (2 n)
    then show ?case
      by (intro keeps_bindE [OF Suc.IH [OF Suc.prems]] keeps_ret) auto
  qed
  then show ?case by simp
qed

lemma hex_shape: "length (hex_EncodeToString s) = 2 * length s \<and> set (hex_EncodeToString s) \<subseteq> set hex_table"
  using set_hex_EncodeToString by auto

definition hex_of :: "nat \<Rightarrow> string \<Rightarrow> bool" where
  "hex_of n s \<longleftrightarrow> length s = n \<and> set s \<subseteq> set hex_table"

lemma keeps_generateHashToken:
  "tick_stable I \<Longrightarrow> keeps I (generateHashToken uid) (hex_of 64)"
  unfolding generateHashToken_def
  by (intro keeps_bindE [OF keeps_map_error [OF keeps_rand_Read]] keeps_bindE [OF keeps_time_Now])
    (auto simp: Let_def hex_of_def hex_shape intro!: keeps_ret)

lemma keeps_generateTimestampToken:
  "tick_stable I \<Longrightarrow> keeps I (generateTimestampToken uid)
     (\<lambda>s. \<exists>t r. s = decimal t @ ''_'' @ TrimSpace uid @ ''_'' @ r \<and> hex_of 16 r)"
  unfolding generateTimestampToken_def
proof (intro keeps_bindE [OF keeps_map_error [OF keeps_rand_Read]] keeps_bindE [OF keeps_time_Now], goal_cases)
  case (3 bytes now)
  then have "hex_of 16 (hex_EncodeToString bytes)"
    by (simp add: hex_of_def hex_shape TimestampRandomLen_def)
  then show ?case unfolding Let_def by (intro keeps_ret exI conjI) (rule refl)
qed

definition simple_length :: "int \<Rightarrow> nat" where
  "simple_length n = nat (if n \<le> 0 then DefaultSimpleLength else n)"

lemma keeps_generateSimpleToken:
  assumes "tick_stable I"
  shows "keeps I (generateSimpleToken n) (\<lambda>s. length s = simple_length n \<and> set s \<subseteq> set url_alphabet)"
  unfolding generateSimpleToken_def Let_def
  by (rule keeps_bindE [OF keeps_map_error [OF keeps_RandomString [OF assms]]])
    (auto simp: simple_length_def intro!: keeps_ret keeps_throw keeps_if)

text \<open>C34: the tokens of each style have their shape. A simple token has the configured length over the
  URL-safe alphabet of base64; a hash token is 64 hexadecimal digits; a tiktok token has 11 characters
  of its alphabet; a timestamp token is a number, the trimmed user ID and 16 hexadecimal digits,
  joined by underscores; an unknown style is refused.\<close>

theorem generated_shapes:
  assumes "TokenGenerator_GenerateToken lib config uid data w = (Inr s, w')"
  shows "(tc_TokenStyle config = TokenStyleSimple \<longrightarrow>
        length s = simple_length (tc_SimpleTokenLength config) \<and> set s \<subseteq> set url_alphabet)
    \<and> (tc_TokenStyle config = TokenStyleHash \<longrightarrow> hex_of 64 s)
    \<and> (tc_TokenStyle config = TokenStyleTiktok \<longrightarrow> length s = 11 \<and> set s \<subseteq> set TiktokCharset)
    \<and> (tc_TokenStyle config = TokenStyleTimestamp \<longrightarrow>
        (\<exists>t r. s = decimal t @ ''_'' @ TrimSpace uid @ ''_'' @ r \<and> hex_of 16 r))
    \<and> tc_TokenStyle config \<in> {TokenStyleSimple, TokenStyleHash, TokenStyleTiktok, TokenStyleTimestamp,
        TokenStyleUUID, TokenStyleJWT}"
proof -
  have "tc_TokenStyle config \<in> {TokenStyleSimple, TokenStyleHash, TokenStyleTiktok, TokenStyleTimestamp,
        TokenStyleUUID, TokenStyleJWT}"
    using assms by (auto simp: TokenGenerator_GenerateToken_def Let_def throw_def split: if_splits)
  moreover have "length s = simple_length (tc_SimpleTokenLength config) \<and> set s \<subseteq> set url_alphabet"
    if "tc_TokenStyle config = TokenStyleSimple"
    by (rule keeps_valueD [OF keeps_generateSimpleToken [OF tick_stable_True]])
      (use assms that in \<open>simp_all add: TokenGenerator_GenerateToken_def style_defs\<close>)
  moreover have "hex_of 64 s" if "tc_TokenStyle config = TokenStyleHash"
    by (rule keeps_valueD [OF keeps_generateHashToken [OF tick_stable_True]])
      (use assms that in \<open>simp_all add: TokenGenerator_GenerateToken_def style_defs\<close>)
  moreover have "length s = TiktokTokenLength \<and> set s \<subseteq> set TiktokCharset"
    if "tc_TokenStyle config = TokenStyleTiktok"
    by (rule keeps_valueD [OF keeps_tiktok_loop [OF tick_stable_True]])
      (use assms that in \<open>simp_all add: TokenGenerator_GenerateToken_def generateTiktokToken_def style_defs\<close>)
  moreover have "\<exists>t r. s = decimal t @ ''_'' @ TrimSpace uid @ ''_'' @ r \<and> hex_of 16 r"
    if "tc_TokenStyle config = TokenStyleTimestamp"
    by (rule keeps_valueD [OF keeps_generateTimestampToken [OF tick_stable_True]])
      (use assms that in \<open>simp_all add: TokenGenerator_GenerateToken_def style_defs\<close>)
  ultimately show ?thesis by (auto simp: TiktokTokenLength_def)
qed

text \<open>A library that signs by writing the key and the subject down.\<close>

definition demo_lib :: "(unit, string) jwt_lib" where
  "demo_lib = \<lparr>jl_NumericDate = (\<lambda>t. t - t mod Second), jl_NewUUID = (\<lambda>w. (''id'', w)),
     jl_Generate = (\<lambda>k m c. Inr ''jwt''), jl_Parse = (\<lambda>s k m t. Inl ''unused''),
     jl_GenerateSecret = (\<lambda>n w. ([], w))\<rparr>"

theorem generated_shapes_witness:
  "\<exists>s w'. TokenGenerator_GenerateToken demo_lib (DefaultTokenConfig\<lparr>tc_TokenStyle := TokenStyleTiktok\<rparr>)
     ''u'' [] demo_env = (Inr s, w') \<and> length s = 11 \<and> set s \<subseteq> set TiktokCharset"
proof -
  let ?c = "DefaultTokenConfig\<lparr>tc_TokenStyle := TokenStyleTiktok\<rparr>"
  have "\<exists>s w'. TokenGenerator_GenerateToken demo_lib ?c ''u'' [] demo_env = (Inr s, w')"
    by (simp add: TokenGenerator_GenerateToken_def style_defs generateTiktokToken_def TiktokTokenLength_def
        numeral_eq_Suc bindE_def map_error_def rand_Int_def rand_Read_def demo_env_def ret_def)
  then obtain s w' where s: "TokenGenerator_GenerateToken demo_lib ?c ''u'' [] demo_env = (Inr s, w')" by blast
  from generated_shapes [OF s] show ?thesis using s by simp
qed

subsection \<open>Configurations\<close>

definition config_ok :: "TokenConfig \<Rightarrow> bool" where
  "config_ok c \<longleftrightarrow> tc_JWTIssuer c \<noteq> [] \<and> tc_JWTAlgorithm c \<noteq> [] \<and> tc_JWTExpiry c \<noteq> 0
     \<and> tc_TokenStyle c \<noteq> [] \<and> tc_TokenName c \<noteq> [] \<and> 0 < tc_SimpleTokenLength c"

definition token_option :: "TokenConfig go_option \<Rightarrow> bool" where
  "token_option opt \<longleftrightarrow> opt = None \<or> (\<exists>x. opt = Some (WithTokenConfig x)) \<or> (\<exists>x. opt = Some (WithJWTIssuer x))
     \<or> (\<exists>x. opt = Some (WithJWTSecretKey x)) \<or> (\<exists>x. opt = Some (WithJWTAudience x))
     \<or> (\<exists>x. opt = Some (WithJWTAlgorithm x)) \<or> (\<exists>x. opt = Some (WithJWTExpiry x))
     \<or> (\<exists>x. opt = Some (gen_WithTokenPrefix x)) \<or> (\<exists>x. opt = Some (WithTokenStyle x))
     \<or> (\<exists>x. opt = Some (gen_WithTokenName x)) \<or> (\<exists>x. opt = Some (WithSimpleTokenLength x))"

lemmas token_option_defs = WithJWTIssuer_def WithJWTSecretKey_def WithJWTAudience_def
  WithJWTAlgorithm_def WithJWTExpiry_def gen_WithTokenPrefix_def WithTokenStyle_def
  gen_WithTokenName_def WithSimpleTokenLength_def DefaultIssuer_def DefaultJWTAlgorithm_def
  DefaultJWTExpiry_def gen_DefaultTokenName_def TokenStyleSimple_def DefaultSimpleLength_def
  Hour_def Minute_def Second_def

lemma WithTokenConfig_id: "config_ok x \<Longrightarrow> WithTokenConfig x c = x"
  by (simp add: WithTokenConfig_def config_ok_def token_option_defs Let_def)

lemma config_ok_WithTokenConfig: "config_ok (WithTokenConfig x c)"
  by (simp add: WithTokenConfig_def config_ok_def token_option_defs Let_def)

text \<open>No combination of options makes an unusable configuration: issuer, algorithm, style and name
  are never empty, the expiry is never zero and the length of simple tokens is positive. Such a
  configuration is reproduced exactly when it is passed on as a whole, whatever it is applied to.\<close>

theorem NewTokenConfig_ok:
  assumes "\<forall>opt \<in> set opts. token_option opt"
  shows "config_ok (NewTokenConfig opts)
    \<and> NewTokenConfig (opts' @ [Some (WithTokenConfig (NewTokenConfig opts))]) = NewTokenConfig opts"
proof -
  have "config_ok (option_Apply DefaultTokenConfig opts)"
  proof (rule option_Apply_inv [where P = config_ok])
    show "config_ok DefaultTokenConfig"
      by (simp add: config_ok_def DefaultTokenConfig_def token_option_defs)
    fix f c assume "Some f \<in> set opts" and c: "config_ok c"
    then have "token_option (Some f)" using assms by blast
    then show "config_ok (f c)"
      using c config_ok_WithTokenConfig unfolding token_option_def
      by (elim disjE exE) (simp_all add: config_ok_def token_option_defs Let_def)
  qed
  then show ?thesis
    by (simp add: NewTokenConfig_def option_Apply_append WithTokenConfig_id)
qed

theorem NewTokenConfig_ok_witness:
  "config_ok (NewTokenConfig [Some (WithSimpleTokenLength (- 5)), Some (WithTokenStyle [])])"
  using NewTokenConfig_ok [of "[Some (WithSimpleTokenLength (- 5)), Some (WithTokenStyle [])]" "[]"]
  by (auto simp: token_option_def)

subsection \<open>JWT\<close>

lemma audience_in_iff: "audience_in actual expected \<longleftrightarrow> (\<exists>a \<in> set expected. TrimSpace a \<noteq> [] \<and> TrimSpace a \<in> set actual)"
  by (induction expected) (auto simp: Let_def list_ex_iff)

text \<open>A configuration whose own issuer and audience pass its checks.\<close>

definition self_accepting :: "JwtConfig \<Rightarrow> bool" where
  "self_accepting conf \<longleftrightarrow> (TrimSpace (jc_Issuer conf) = [] \<or> TrimSpace (jc_Issuer conf) = jc_Issuer conf)
     \<and> (jc_Audience conf = [] \<or>
          (\<exists>a \<in> set (jc_Audience conf). TrimSpace a \<noteq> [] \<and> TrimSpace a \<in> set (jc_Audience conf)))"

lemma validate_own:
  "cl_Issuer cl = jc_Issuer conf \<Longrightarrow> cl_Audience cl = jc_Audience conf \<Longrightarrow>
   validateRegisteredClaims conf (Some cl) = None \<longleftrightarrow> self_accepting conf"
  by (auto simp: validateRegisteredClaims_def Let_def audienceMatches_def audience_in_iff self_accepting_def)

text \<open>
  What the libraries document. \<open>NewNumericDate\<close> truncates to seconds, a UUID is text. A JWT holds its
  claims as JSON, which keeps texts in UTF-8 and dates in whole seconds from 1970 to the year 9999;
  the data come back as \<open>encoding/json\<close> decodes what it encoded of them, which is a
  parameter, \<open>wire\<close>: \<open>None\<close> where that fails. A token that was signed is not blank, and parsing it under the same
  key and method, from its start until its expiry, verifies it and gives those claims. Nothing is said of a
  token with other claims.
\<close>

definition json_date :: "time \<Rightarrow> bool" where
  "json_date t \<longleftrightarrow> t mod Second = 0 \<and> 0 \<le> t \<and> t < 253402300800 * Second"

definition json_claims :: "'d Claims \<Rightarrow> bool" where
  "json_claims cl \<longleftrightarrow> list_all valid_utf8 (cl_Issuer cl # cl_Subject cl # cl_ID cl # cl_Audience cl)
     \<and> list_all (\<lambda>d. case d of None \<Rightarrow> True | Some t \<Rightarrow> json_date t) [cl_NotBefore cl, cl_IssuedAt cl, cl_ExpiresAt cl]"

definition lib_verifies :: "('x, 'd) jwt_lib \<Rightarrow> ('d \<Rightarrow> 'd option) \<Rightarrow> bool" where
  "lib_verifies lib wire \<longleftrightarrow>
     (\<forall>t. 0 \<le> t \<longrightarrow> jl_NumericDate lib t = t - t mod Second)
   \<and> (\<forall>x. valid_utf8 (fst (jl_NewUUID lib x)))
   \<and> (\<forall>k m cl s nb ex d. jl_Generate lib k m cl = Inr s \<longrightarrow> json_claims cl \<longrightarrow> wire (cl_Data cl) = Some d \<longrightarrow>
        cl_NotBefore cl = Some nb \<longrightarrow> cl_ExpiresAt cl = Some ex \<longrightarrow>
        TrimSpace s \<noteq> [] \<and> (\<forall>t. nb \<le> t \<and> t < ex \<longrightarrow> jl_Parse lib s k m t = Inr (cl\<lparr>cl_Data := d\<rparr>, True)))"

lemma json_date_truncated: "0 \<le> t \<Longrightarrow> t < 253402300800 * Second \<Longrightarrow> json_date (t - t mod Second)"
  using pos_mod_bound [of Second t] pos_mod_sign [of Second t] mult_div_mod_eq [of Second t]
    pos_imp_zdiv_nonneg_iff [of Second t]
  by (simp add: json_date_def Second_def minus_mod_eq_mult_div mod_eq_0_iff_dvd)

lemma GenerateToken_Inr:
  assumes "JwtManager_GenerateToken lib conf uid data w = (Inr s, w')"
  shows "\<exists>m x. TrimSpace uid \<noteq> [] \<and> TrimSpace (jc_SecretKey conf) \<noteq> []
    \<and> jwtSigningMethod (jc_Algorithm conf) = Inr m
    \<and> jl_Generate lib (TrimSpace (jc_SecretKey conf)) m
       \<lparr>cl_Data = data, cl_Issuer = jc_Issuer conf, cl_Subject = TrimSpace uid, cl_Audience = jc_Audience conf,
        cl_ExpiresAt = Some (jl_NumericDate lib (env_clock w (env_tick w) + jc_Expiry conf)),
        cl_NotBefore = Some (jl_NumericDate lib (env_clock w (env_tick w))),
        cl_IssuedAt = Some (jl_NumericDate lib (env_clock w (env_tick w))), cl_ID = fst (jl_NewUUID lib x)\<rparr> = Inr s"
  using assms
  by (auto simp: JwtManager_GenerateToken_def Let_def throw_def lift_error_def ret_def bindE_def time_Now_def
      NewUUID_def Time_Add_def split: if_splits sum.splits prod.splits intro!: exI [of _ "tick w"])

text \<open>C31: the round trip of a JWT, over libraries that do what they document. A token generated under a
  configuration with its texts in UTF-8 and parsed under the same configuration within
  its lifetime, from the second it was made to the second of its expiry, gives back the trimmed user
  ID and the data as JSON brings them back, exactly when the issuer carries no
  surrounding space and, where audiences are configured, one of them is not blank and, trimmed, equal to
  one of them; otherwise the manager that made the token refuses it.\<close>

theorem jwt_roundtrip:
  assumes lib: "lib_verifies lib wire" and made: "JwtManager_GenerateToken lib conf uid data w = (Inr s, w')"
    and texts: "list_all valid_utf8 (jc_Issuer conf # TrimSpace uid # jc_Audience conf)"
    and data: "wire data = Some data'"
    and clock: "0 \<le> env_clock w (env_tick w)" "env_clock w (env_tick w) < 253402300800 * Second"
      "0 \<le> env_clock w (env_tick w) + jc_Expiry conf" "env_clock w (env_tick w) + jc_Expiry conf < 253402300800 * Second"
    and within_life: "env_clock w (env_tick w) div Second \<le> env_clock v (env_tick v) div Second"
      "env_clock v (env_tick v) div Second < (env_clock w (env_tick w) + jc_Expiry conf) div Second"
  shows "if self_accepting conf
    then \<exists>cl. ParseToken lib conf s v = (Inr cl, tick v) \<and> cl_Data cl = data' \<and> cl_Subject cl = TrimSpace uid
    else \<exists>err. ParseToken lib conf s v = (Inl err, tick v)"
proof -
  let ?t = "env_clock w (env_tick w)" and ?u = "env_clock v (env_tick v)"
  obtain m x where m: "jwtSigningMethod (jc_Algorithm conf) = Inr m" "TrimSpace (jc_SecretKey conf) \<noteq> []"
    and g: "jl_Generate lib (TrimSpace (jc_SecretKey conf)) m
       \<lparr>cl_Data = data, cl_Issuer = jc_Issuer conf, cl_Subject = TrimSpace uid, cl_Audience = jc_Audience conf,
        cl_ExpiresAt = Some (jl_NumericDate lib (?t + jc_Expiry conf)),
        cl_NotBefore = Some (jl_NumericDate lib ?t),
        cl_IssuedAt = Some (jl_NumericDate lib ?t), cl_ID = fst (jl_NewUUID lib x)\<rparr> = Inr s"
    (is "jl_Generate lib ?k m ?cl = _")
    using GenerateToken_Inr [OF made] by blast
  have date: "jl_NumericDate lib t = t - t mod Second" if "0 \<le> t" for t
    using lib that by (simp add: lib_verifies_def)
  have "json_claims ?cl"
    using texts lib json_date_truncated clock by (simp add: json_claims_def lib_verifies_def)
  moreover have "jl_NumericDate lib ?t \<le> ?u" "?u < jl_NumericDate lib (?t + jc_Expiry conf)"
    using within_life pos_mod_bound [of Second ?u] pos_mod_sign [of Second ?u] mult_div_mod_eq [of Second ?u]
    by (simp_all add: date clock minus_mod_eq_mult_div Second_def)
  ultimately have s: "TrimSpace s \<noteq> []" "jl_Parse lib s ?k m ?u = Inr (?cl\<lparr>cl_Data := data'\<rparr>, True)"
    using conjunct2 [OF conjunct2 [OF lib [unfolded lib_verifies_def]], rule_format, OF g, of data'] data by simp_all
  have "ParseToken lib conf s v =
      ((case validateRegisteredClaims conf (Some (?cl\<lparr>cl_Data := data'\<rparr>)) of Some err \<Rightarrow> Inl err
        | None \<Rightarrow> Inr (?cl\<lparr>cl_Data := data'\<rparr>)), tick v)"
    using s m
    by (simp add: ParseToken_def Let_def bindE_def lift_error_def ret_def throw_def time_Now_def split: option.split)
  moreover have "validateRegisteredClaims conf (Some (?cl\<lparr>cl_Data := data'\<rparr>)) = None \<longleftrightarrow> self_accepting conf"
    by (rule validate_own) simp_all
  ultimately show ?thesis by (auto split: option.splits)
qed

text \<open>A library that knows one token.\<close>

definition one_claims :: "string Claims" where
  "one_claims = \<lparr>cl_Data = ''d'', cl_Issuer = DefaultIssuer, cl_Subject = ''u'', cl_Audience = [],
     cl_ExpiresAt = Some DefaultJWTExpiry, cl_NotBefore = Some 0, cl_IssuedAt = Some 0, cl_ID = ''id''\<rparr>"

definition one_token_lib :: "(unit, string) jwt_lib" where
  "one_token_lib = \<lparr>jl_NumericDate = (\<lambda>t. t - t mod Second), jl_NewUUID = (\<lambda>w. (''id'', w)),
     jl_Generate = (\<lambda>k m cl. if k = ''key'' \<and> m = SigningMethodHS256 \<and> cl = one_claims then Inr ''jwt'' else Inl ''no''),
     jl_Parse = (\<lambda>s k m t. if s = ''jwt'' \<and> k = ''key'' \<and> m = SigningMethodHS256 then Inr (one_claims, True) else Inl ''no''),
     jl_GenerateSecret = (\<lambda>n w. ([], w))\<rparr>"

lemma TrimSpace_demo_texts:
  "TrimSpace ''key'' = ''key''" "TrimSpace ''u'' = ''u''" "TrimSpace ''jwt'' = ''jwt''"
  "TrimSpace ''hurry-app'' = ''hurry-app''" "TrimSpace ''HS256'' = ''HS256''"
  by (rule TrimSpace_graphic; simp add: graphic_def)+

lemma one_token_lib_verifies: "lib_verifies one_token_lib Some"
  by (simp add: lib_verifies_def one_token_lib_def one_claims_def TrimSpace_demo_texts valid_utf8.simps(2))

theorem jwt_roundtrip_witness:
  "\<exists>s w' cl. JwtManager_GenerateToken one_token_lib (NewJwtConfig [Some (WithSecretKey ''key'')]) ''u'' ''d'' demo_env = (Inr s, w')
     \<and> ParseToken one_token_lib (NewJwtConfig [Some (WithSecretKey ''key'')]) s demo_env = (Inr cl, tick demo_env)
     \<and> cl_Data cl = ''d'' \<and> cl_Subject cl = ''u''"
proof -
  let ?conf = "NewJwtConfig [Some (WithSecretKey ''key'')]"
  have conf: "?conf = DefaultJwtConfig\<lparr>jc_SecretKey := ''key''\<rparr>" by (simp add: NewJwtConfig_def WithSecretKey_def)
  have upper: "ToUpper ''HS256'' = ''HS256''" by code_simp
  have week: "168 * Hour mod Second = 0" by code_simp
  have "\<exists>w'. JwtManager_GenerateToken one_token_lib ?conf ''u'' ''d'' demo_env = (Inr ''jwt'', w')"
    by (simp add: conf JwtManager_GenerateToken_def Let_def TrimSpace_demo_texts DefaultJwtConfig_def
        jwtSigningMethod_def DefaultJWTAlgorithm_def upper lift_error_def bindE_def ret_def time_Now_def
        NewUUID_def one_token_lib_def demo_env_def Time_Add_def one_claims_def DefaultJWTExpiry_def week)
  then obtain w' where made: "JwtManager_GenerateToken one_token_lib ?conf ''u'' ''d'' demo_env = (Inr ''jwt'', w')" by blast
  have ok: "self_accepting ?conf"
    by (simp add: conf self_accepting_def DefaultJwtConfig_def DefaultIssuer_def TrimSpace_demo_texts)
  have utf8: "list_all valid_utf8 (jc_Issuer ?conf # TrimSpace ''u'' # jc_Audience ?conf)"
    by (simp add: conf DefaultJwtConfig_def DefaultIssuer_def TrimSpace_demo_texts valid_utf8.simps(2))
  have clock: "env_clock demo_env (env_tick demo_env) = 0" by (simp add: demo_env_def)
  have life: "jc_Expiry ?conf = 604800 * Second"
    by (simp add: conf DefaultJwtConfig_def DefaultJWTExpiry_def Hour_def Minute_def Second_def)
  have "Second = 1000000000" by (simp add: Second_def)
  with jwt_roundtrip [OF one_token_lib_verifies made utf8 refl, of demo_env] made ok show ?thesis
    by (auto simp: TrimSpace_demo_texts clock life)
qed

end
