(* ===== verification/Audit_Log.thy ===== *)
theory Audit_Log
  imports Event_Bus Store_Port
begin

text \<open>
  The audit package: the mapping of events (\<open>audit/audit.go\<close>), the listener (\<open>audit/listener.go\<close>)
  and the sink that writes to a structured logger (\<open>audit/slog_sink.go\<close>). The logger itself is a
  parameter: what a call of \<open>LogAttrs\<close> does to the world.
\<close>

subsection \<open>Audit events\<close>

type_synonym AuditEventType = string

definition AuditLogin :: AuditEventType where "AuditLogin = ''audit.login''"
definition AuditLogout :: AuditEventType where "AuditLogout = ''audit.logout''"
definition AuditKickOut :: AuditEventType where "AuditKickOut = ''audit.kick_out''"
definition AuditReplaced :: AuditEventType where "AuditReplaced = ''audit.replaced''"
definition AuditRenew :: AuditEventType where "AuditRenew = ''audit.renew''"
definition AuditRefreshIssued :: AuditEventType where "AuditRefreshIssued = ''audit.refresh_issued''"
definition AuditRefresh :: AuditEventType where "AuditRefresh = ''audit.refresh''"
definition AuditRefreshRevoked :: AuditEventType where "AuditRefreshRevoked = ''audit.refresh_revoked''"
definition AuditNonceConsumed :: AuditEventType where "AuditNonceConsumed = ''audit.nonce_consumed''"
definition AuditOnline :: AuditEventType where "AuditOnline = ''audit.online''"
definition AuditOffline :: AuditEventType where "AuditOffline = ''audit.offline''"
definition AuditUnknown :: AuditEventType where "AuditUnknown = ''audit.unknown''"

lemmas audit_type_defs = AuditLogin_def AuditLogout_def AuditKickOut_def AuditReplaced_def
  AuditRenew_def AuditRefreshIssued_def AuditRefresh_def AuditRefreshRevoked_def
  AuditNonceConsumed_def AuditOnline_def AuditOffline_def AuditUnknown_def

record AuditEvent =
  ae_Type :: AuditEventType
  ae_LoginID :: string
  ae_LoginType :: string
  ae_Token :: TokenValue
  ae_Device :: string
  ae_IP :: string
  ae_Time :: time
  ae_Result :: string
  ae_Detail :: "(string \<times> go_any) list option"

type_synonym Mapper = "Event \<Rightarrow> AuditEvent"

definition eventTypeToAudit :: "(EventType \<times> AuditEventType) list" where
  "eventTypeToAudit =
    [(EventLogin, AuditLogin), (EventLogout, AuditLogout), (EventKickOut, AuditKickOut),
     (EventReplaced, AuditReplaced), (EventRenewTimeout, AuditRenew),
     (EventRefreshIssued, AuditRefreshIssued), (EventRefresh, AuditRefresh),
     (EventRefreshRevoked, AuditRefreshRevoked), (EventNonceConsumed, AuditNonceConsumed),
     (EventOnline, AuditOnline), (EventOffline, AuditOffline)]"

definition MapEventType :: "EventType \<Rightarrow> AuditEventType" where
  "MapEventType t = (case map_of eventTypeToAudit t of Some mapped \<Rightarrow> mapped | None \<Rightarrow> AuditUnknown)"

text \<open>\<open>metadata[key].(string)\<close> with its result ignored on failure.\<close>

definition metadata_string :: "(string \<times> go_any) list \<Rightarrow> string \<Rightarrow> string" where
  "metadata_string md key = (case map_of md key of Some (AnyString s) \<Rightarrow> s | _ \<Rightarrow> [])"

definition DefaultMapper :: Mapper where
  "DefaultMapper ev =
     (let ae = \<lparr>ae_Type = MapEventType (ev_Type ev), ae_LoginID = ev_LoginID ev,
                ae_LoginType = ev_LoginType ev, ae_Token = ev_Token ev, ae_Device = [], ae_IP = [],
                ae_Time = ev_Time ev, ae_Result = ''success'', ae_Detail = ev_Metadata ev\<rparr>
      in case ev_Metadata ev of
           None \<Rightarrow> ae
         | Some md \<Rightarrow> ae\<lparr>ae_Device := metadata_string md ''device'', ae_IP := metadata_string md ''ip''\<rparr>)"

subsection \<open>The sink\<close>

datatype attr_value = AttrString string | AttrTime time

type_synonym attr = "string \<times> attr_value"

text \<open>\<open>(*slog.Logger).LogAttrs\<close> with its level and message.\<close>

type_synonym 'w logger = "ctx \<Rightarrow> int \<Rightarrow> string \<Rightarrow> attr list \<Rightarrow> 'w \<Rightarrow> 'w"

definition LevelInfo :: int where "LevelInfo = 0"

record 'w SlogSink =
  ss_logger :: "'w logger"
  ss_level :: int

text \<open>The first argument is the logger of the process, which a nil logger stands for.\<close>

definition NewSlogSink :: "'w logger \<Rightarrow> 'w logger option \<Rightarrow> 'w SlogSink" where
  "NewSlogSink slog_Default logger =
     \<lparr>ss_logger = (case logger of None \<Rightarrow> slog_Default | Some l \<Rightarrow> l), ss_level = LevelInfo\<rparr>"

definition tokenFingerprint :: "TokenValue \<Rightarrow> string" where
  "tokenFingerprint token = take 16 (hex_EncodeToString (Sum256 token))"

definition slog_attrs :: "AuditEvent \<Rightarrow> attr list" where
  "slog_attrs event =
     (let attrs = [(''type'', AttrString (ae_Type event)), (''time'', AttrTime (ae_Time event)),
                   (''result'', AttrString (ae_Result event))];
          attrs = (if ae_LoginID event \<noteq> [] then attrs @ [(''login_id'', AttrString (ae_LoginID event))] else attrs);
          attrs = (if ae_LoginType event \<noteq> [] then attrs @ [(''login_type'', AttrString (ae_LoginType event))] else attrs);
          attrs = (if ae_Token event \<noteq> [] then attrs @ [(''token_fp'', AttrString (tokenFingerprint (ae_Token event)))] else attrs);
          attrs = (if ae_Device event \<noteq> [] then attrs @ [(''device'', AttrString (ae_Device event))] else attrs)
      in if ae_IP event \<noteq> [] then attrs @ [(''ip'', AttrString (ae_IP event))] else attrs)"

type_synonym 'w Sink = "ctx \<Rightarrow> AuditEvent \<Rightarrow> 'w \<Rightarrow> listener_outcome \<times> 'w"

definition SlogSink_Write :: "'w SlogSink \<Rightarrow> 'w Sink" where
  "SlogSink_Write s c event w = (HandleOk, ss_logger s c (ss_level s) ''audit'' (slog_attrs event) w)"

subsection \<open>The listener\<close>

record 'w audit_Listener =
  al_sink :: "'w Sink"
  al_mapper :: Mapper

definition WithMapper :: "Mapper option \<Rightarrow> 'w audit_Listener \<Rightarrow> 'w audit_Listener" where
  "WithMapper mapper l = (case mapper of None \<Rightarrow> l | Some m \<Rightarrow> l\<lparr>al_mapper := m\<rparr>)"

definition audit_New ::
    "'w logger \<Rightarrow> 'w Sink option \<Rightarrow> ('w audit_Listener \<Rightarrow> 'w audit_Listener) list \<Rightarrow> 'w audit_Listener" where
  "audit_New slog_Default sink opts =
     (let sink = (case sink of None \<Rightarrow> SlogSink_Write (NewSlogSink slog_Default None) | Some s \<Rightarrow> s);
          l = \<lparr>al_sink = sink, al_mapper = DefaultMapper\<rparr>
      in fold (\<lambda>opt l. opt l) opts l)"

definition audit_Handle :: "'w audit_Listener \<Rightarrow> 'w listener" where
  "audit_Handle l c event = al_sink l c (al_mapper l event)"

subsection \<open>What the log reveals\<close>

lemma audit_types_known: "AuditUnknown \<notin> set (map snd eventTypeToAudit)"
  by code_simp

lemma audit_types_distinct: "distinct (map fst eventTypeToAudit) \<and> distinct (map snd eventTypeToAudit)"
  by code_simp

lemma MapEventType_unknown: "MapEventType t = AuditUnknown \<longleftrightarrow> t \<notin> set (map fst eventTypeToAudit)"
proof (cases "map_of eventTypeToAudit t")
  case None
  then have "t \<notin> set (map fst eventTypeToAudit)" by (simp add: map_of_eq_None_iff)
  with None show ?thesis by (simp add: MapEventType_def)
next
  case (Some m)
  then have "(t, m) \<in> set eventTypeToAudit" by (rule map_of_SomeD)
  then have "t \<in> set (map fst eventTypeToAudit)" "m \<in> set (map snd eventTypeToAudit)" by force+
  moreover from this audit_types_known have "m \<noteq> AuditUnknown" by blast
  ultimately show ?thesis using Some by (simp add: MapEventType_def)
qed

lemma MapEventType_inj:
  assumes "t \<in> set (map fst eventTypeToAudit)" "u \<in> set (map fst eventTypeToAudit)"
    "MapEventType t = MapEventType u"
  shows "t = u"
proof -
  have "\<exists>a. map_of eventTypeToAudit v = Some a" if "v \<in> set (map fst eventTypeToAudit)" for v
    using that by (simp add: map_of_eq_None_iff flip: not_None_eq)
  with assms(1,2) obtain a b where ab: "map_of eventTypeToAudit t = Some a" "map_of eventTypeToAudit u = Some b"
    by blast
  with assms(3) have "(t, a) \<in> set eventTypeToAudit" "(u, a) \<in> set eventTypeToAudit"
    by (auto simp: MapEventType_def dest: map_of_SomeD)
  with audit_types_distinct show ?thesis
    unfolding distinct_map inj_on_def by fastforce
qed

lemma tokenFingerprint_shape: "length (tokenFingerprint t) = 16 \<and> set (tokenFingerprint t) \<subseteq> set hex_table"
  using set_hex_EncodeToString [of "Sum256 t"]
  by (auto simp: tokenFingerprint_def dest: in_set_takeD)

lemma DefaultMapper_Token [simp]:
  "DefaultMapper (ev\<lparr>ev_Token := t\<rparr>) = (DefaultMapper ev)\<lparr>ae_Token := t\<rparr>"
  "ae_Token (DefaultMapper ev) = ev_Token ev"
  by (simp_all add: DefaultMapper_def Let_def split: option.split)

lemma slog_attrs_Token:
  "ae_Token e \<noteq> [] \<Longrightarrow> t \<noteq> [] \<Longrightarrow> tokenFingerprint t = tokenFingerprint (ae_Token e) \<Longrightarrow>
   slog_attrs (e\<lparr>ae_Token := t\<rparr>) = slog_attrs e"
  by (simp add: slog_attrs_def cong: if_cong)

definition core_event_types :: "EventType list" where
  "core_event_types = [EventLogin, EventLogout, EventKickOut, EventReplaced, EventRenewTimeout,
     EventRefreshIssued, EventRefresh, EventRefreshRevoked, EventNonceConsumed, EventOnline, EventOffline]"

lemma core_event_types_mapped: "core_event_types = map fst eventTypeToAudit"
  by (simp add: core_event_types_def eventTypeToAudit_def)

lemma DefaultMapper_sel:
  "ae_Type (DefaultMapper ev) = MapEventType (ev_Type ev)" "ae_Time (DefaultMapper ev) = ev_Time ev"
  "ae_Result (DefaultMapper ev) = ''success''" "ae_LoginID (DefaultMapper ev) = ev_LoginID ev"
  "ae_LoginType (DefaultMapper ev) = ev_LoginType ev"
  by (simp_all add: DefaultMapper_def Let_def split: option.split)

text \<open>A text attribute that is left out when empty.\<close>

definition text_attr :: "string \<Rightarrow> string \<Rightarrow> attr list" where
  "text_attr key s = (if s = [] then [] else [(key, AttrString s)])"

lemma slog_attrs_eq:
  "slog_attrs e = [(''type'', AttrString (ae_Type e)), (''time'', AttrTime (ae_Time e)),
      (''result'', AttrString (ae_Result e))]
    @ text_attr ''login_id'' (ae_LoginID e) @ text_attr ''login_type'' (ae_LoginType e)
    @ (if ae_Token e = [] then [] else [(''token_fp'', AttrString (tokenFingerprint (ae_Token e)))])
    @ text_attr ''device'' (ae_Device e) @ text_attr ''ip'' (ae_IP e)"
  by (simp add: slog_attrs_def Let_def text_attr_def)

text \<open>C38: the default audit listener logs every event under its audit type and never the token itself. The
  call never fails; it logs once, with the type, the time, the login, the device and the address of the
  event, where they are there, and of a token only the fingerprint, sixteen hexadecimal
  digits: two events that differ in nothing but their tokens leave the same log when the
  fingerprints agree. The eleven event types of the core have distinct audit types, while any other has
  the unknown one.\<close>

theorem audit_hides_tokens:
  fixes ev :: Event
  defines "ae \<equiv> DefaultMapper ev"
  shows "\<exists>attrs. audit_Handle (audit_New lg None []) c ev w = (HandleOk, lg c LevelInfo ''audit'' attrs w)
    \<and> attrs = [(''type'', AttrString (MapEventType (ev_Type ev))), (''time'', AttrTime (ev_Time ev)),
          (''result'', AttrString ''success'')]
        @ text_attr ''login_id'' (ev_LoginID ev) @ text_attr ''login_type'' (ev_LoginType ev)
        @ (if ev_Token ev = [] then [] else [(''token_fp'', AttrString (tokenFingerprint (ev_Token ev)))])
        @ text_attr ''device'' (ae_Device ae) @ text_attr ''ip'' (ae_IP ae)
    \<and> (\<forall>t. t \<noteq> [] \<and> ev_Token ev \<noteq> [] \<and> tokenFingerprint t = tokenFingerprint (ev_Token ev) \<longrightarrow>
         audit_Handle (audit_New lg None []) c (ev\<lparr>ev_Token := t\<rparr>) w = (HandleOk, lg c LevelInfo ''audit'' attrs w))
    \<and> length (tokenFingerprint (ev_Token ev)) = 16 \<and> set (tokenFingerprint (ev_Token ev)) \<subseteq> set ''0123456789abcdef''
    \<and> inj_on MapEventType (set core_event_types)
    \<and> (MapEventType (ev_Type ev) = AuditUnknown \<longleftrightarrow> ev_Type ev \<notin> set core_event_types)"
proof -
  have run: "audit_Handle (audit_New lg None []) c e w = (HandleOk, lg c LevelInfo ''audit'' (slog_attrs (DefaultMapper e)) w)" for e
    by (simp add: audit_Handle_def audit_New_def SlogSink_Write_def NewSlogSink_def)
  have same: "slog_attrs (DefaultMapper (ev\<lparr>ev_Token := t\<rparr>)) = slog_attrs (DefaultMapper ev)"
    if "t \<noteq> []" "ev_Token ev \<noteq> []" "tokenFingerprint t = tokenFingerprint (ev_Token ev)" for t
    unfolding DefaultMapper_Token using that by (intro slog_attrs_Token) simp_all
  have "inj_on MapEventType (set core_event_types)"
    unfolding core_event_types_mapped by (rule inj_onI, rule MapEventType_inj)
  then show ?thesis
    using tokenFingerprint_shape [of "ev_Token ev"] MapEventType_unknown [of "ev_Type ev"] same
    unfolding run core_event_types_mapped ae_def hex_table_def
    by (intro exI [of _ "slog_attrs (DefaultMapper ev)"] conjI) (simp_all add: slog_attrs_eq DefaultMapper_sel)
qed

theorem audit_hides_tokens_witness:
  "\<exists>attrs. audit_Handle (audit_New (\<lambda>c level msg attrs w. w @ attrs) None []) None
      (new_Event EventLogin ''u'' ''login'' ''tok'') [] = (HandleOk, attrs)
    \<and> hd attrs = (''type'', AttrString ''audit.login'')
    \<and> audit_Handle (audit_New (\<lambda>c level msg attrs w. w @ attrs) None []) None
      ((new_Event EventLogin ''u'' ''login'' ''tok'')\<lparr>ev_Token := ''tok''\<rparr>) [] = (HandleOk, attrs)"
proof -
  have ev: "ev_Token (new_Event EventLogin ''u'' ''login'' ''tok'') = ''tok''" "ev_Type (new_Event EventLogin ''u'' ''login'' ''tok'') = EventLogin"
    by (simp_all add: new_Event_def)
  have type: "MapEventType EventLogin = ''audit.login''" by code_simp
  have ne: "''tok'' \<noteq> []" by simp
  note log = audit_hides_tokens [of "\<lambda>c level msg attrs w. w @ attrs" None "new_Event EventLogin ''u'' ''login'' ''tok''" "[]",
      unfolded ev type append_Nil append_Cons]
  show ?thesis
    by (rule exE [OF log], elim conjE, intro exI conjI, assumption, simp only: list.sel, (erule allE, erule mp))
      (intro conjI ne refl)
qed

end
