(* ===== verification/Authority_Properties.thy ===== *)
theory Authority_Properties
  imports Access_Properties
begin

text \<open>
  Authorities end to end: what the checks of the Manager decide with the role-based authorizer,
  what that authorizer lists after any history of the administrator, and what the in-memory one
  answers after its setters.
\<close>

subsection \<open>The verdict on one authority\<close>

definition holds_authority :: "rbac \<Rightarrow> AuthContext \<Rightarrow> Authority \<Rightarrow> bool" where
  "holds_authority az auth x \<longleftrightarrow> TrimSpace (au_Value x) \<noteq> [] \<and> rbac_allows az (ac_LoginID auth) x"

definition verdict :: "rbac \<Rightarrow> AuthContext \<Rightarrow> Authority \<Rightarrow> error + unit" where
  "verdict az auth x =
     (if TrimSpace (au_Value x) = [] then Inl ErrEmptyAuthority
      else if rbac_allows az (ac_LoginID auth) x then Inr ()
      else Inl (AuthorityDeniedError (x\<lparr>au_Value := TrimSpace (au_Value x)\<rparr>)))"

lemma verdict_Inr_iff: "verdict az auth x = Inr () \<longleftrightarrow> holds_authority az auth x"
  by (simp add: verdict_def holds_authority_def)

lemma rbac_allows_trim [simp]:
  "rbac_allows az i (x\<lparr>au_Value := TrimSpace (au_Value x)\<rparr>) = rbac_allows az i x"
  by (simp add: rbac_allows_def)

text \<open>An observation changes the tick alone.\<close>

definition only_observed :: "'x env_scheme \<Rightarrow> 'x env_scheme \<Rightarrow> bool" where
  "only_observed w w' \<longleftrightarrow> (\<exists>n. w' = w\<lparr>env_tick := n\<rparr>)"

lemma only_observed_refl [simp, intro]: "only_observed w w"
  unfolding only_observed_def by (rule exI [of _ "env_tick w"]) simp

lemma only_observed_tick [simp, intro]: "only_observed w (tick w)"
  unfolding only_observed_def tick_def by blast

lemma only_observed_trans: "only_observed w w' \<Longrightarrow> only_observed w' w'' \<Longrightarrow> only_observed w w''"
  by (auto simp: only_observed_def)

lemma only_observed_more: "only_observed w w' \<Longrightarrow> env.more w' = env.more w \<and> env_published w' = env_published w"
  by (auto simp: only_observed_def)

lemma ctxErr_observes: "ctxErr c w = (r, w') \<Longrightarrow> only_observed w w'"
  by (auto simp: ctxErr_def ret_def split: option.splits)

lemma rbac_HasAuthority_apply:
  assumes "rbac_HasAuthority az c i x w = (r, w')"
  shows "only_observed w w' \<and> ((\<exists>e. r = Inl (ErrContext e)) \<or> r = Inr (rbac_allows az i x))"
  using assms
  by (auto simp: rbac_HasAuthority_eq bindE_apply ret_apply ctxErr_def split: option.splits)

lemma rbac_HasAuthority_healthy:
  "healthy c \<Longrightarrow> fst (rbac_HasAuthority az c i x w) = Inr (rbac_allows az i x)"
  by (simp add: rbac_HasAuthority_eq bindE_apply ret_apply ctxErr_healthy)

lemma CheckAuthority_anonymous:
  "RequireAuth (normalizeContext c) = Inl e \<Longrightarrow> CheckAuthority m c x w = (Inl e, w)"
  by (simp add: CheckAuthority_def throw_apply)

lemma CheckAuthority_apply:
  assumes "m_authorizer m = rbac_ops az" and "RequireAuth (normalizeContext c) = Inr auth"
    and "CheckAuthority m c x w = (r, w')"
  shows "only_observed w w' \<and> ((\<exists>e. r = Inl (ErrContext e)) \<or> r = verdict az auth x)
    \<and> (healthy c \<longrightarrow> r = verdict az auth x)"
proof (cases "TrimSpace (au_Value x) = []")
  case True
  with assms show ?thesis
    by (auto simp: CheckAuthority_def Let_def throw_apply verdict_def)
next
  case False
  let ?x = "x\<lparr>au_Value := TrimSpace (au_Value x)\<rparr>" and ?c = "normalizeContext c"
  obtain h v where h: "rbac_HasAuthority az ?c (ac_LoginID auth) ?x w = (h, v)" 
    by (cases "rbac_HasAuthority az ?c (ac_LoginID auth) ?x w") blast
  have r: "w' = v \<and> r = (case h of Inl e \<Rightarrow> Inl e | Inr ok \<Rightarrow> if ok then Inr () else Inl (AuthorityDeniedError ?x))"
    using assms False h
    by (auto simp: CheckAuthority_def Let_def rbac_ops_def bindE_apply throw_apply ret_apply split: sum.splits if_splits)
  show ?thesis
    using r rbac_HasAuthority_apply [OF h] rbac_HasAuthority_healthy [of ?c az "ac_LoginID auth" ?x w] h False
    by (auto simp: verdict_def)
qed

subsection \<open>Conjunction and disjunction\<close>

text \<open>The first refusal of a list, and the outcome of a disjunction.\<close>

fun all_of :: "rbac \<Rightarrow> AuthContext \<Rightarrow> Authority list \<Rightarrow> error + unit" where
  "all_of az auth [] = Inr ()"
| "all_of az auth (x # xs) = (case verdict az auth x of Inl e \<Rightarrow> Inl e | Inr _ \<Rightarrow> all_of az auth xs)"

fun any_of :: "rbac \<Rightarrow> AuthContext \<Rightarrow> error \<Rightarrow> Authority list \<Rightarrow> error + unit" where
  "any_of az auth e [] = Inl e"
| "any_of az auth e (x # xs) =
     (case verdict az auth x of
        Inr _ \<Rightarrow> Inr ()
      | Inl e' \<Rightarrow> if e' = ErrEmptyAuthority then Inl e' else any_of az auth e' xs)"

lemma verdict_Inl_cases: "verdict az auth x = Inl e \<Longrightarrow> e = ErrEmptyAuthority \<or> (\<exists>a. e = AuthorityDeniedError a)"
  by (auto simp: verdict_def split: if_splits)

lemma all_of_Inr_iff: "all_of az auth xs = Inr () \<longleftrightarrow> (\<forall>x \<in> set xs. holds_authority az auth x)"
  by (induction xs) (auto simp: verdict_Inr_iff [symmetric] split: sum.split)

lemma all_of_Inl:
  "all_of az auth xs = Inl e \<Longrightarrow> \<exists>x \<in> set xs. \<not> holds_authority az auth x \<and> verdict az auth x = Inl e"
  by (induction xs) (auto simp: verdict_Inr_iff [symmetric] split: sum.splits)

lemma any_of_Inr_iff:
  "any_of az auth e xs = Inr () \<longleftrightarrow>
     (\<exists>ys x zs. xs = ys @ x # zs \<and> holds_authority az auth x \<and> (\<forall>y \<in> set ys. TrimSpace (au_Value y) \<noteq> []))"
proof (induction xs arbitrary: e)
  case (Cons x xs)
  have split: "(\<exists>ys u zs. x # xs = ys @ u # zs \<and> P u \<and> (\<forall>y \<in> set ys. Q y)) \<longleftrightarrow>
      P x \<or> Q x \<and> (\<exists>ys u zs. xs = ys @ u # zs \<and> P u \<and> (\<forall>y \<in> set ys. Q y))" for P Q
  proof (intro iffI; elim exE conjE disjE)
    fix ys u zs assume "x # xs = ys @ u # zs" "P u" "\<forall>y \<in> set ys. Q y"
    then show "P x \<or> Q x \<and> (\<exists>ys u zs. xs = ys @ u # zs \<and> P u \<and> (\<forall>y \<in> set ys. Q y))"
      by (cases ys) auto
  next
    assume "P x"
    then show "\<exists>ys u zs. x # xs = ys @ u # zs \<and> P u \<and> (\<forall>y \<in> set ys. Q y)"
      by (intro exI [of _ "[]"] exI [of _ x] exI [of _ xs]) simp
  next
    fix ys u zs assume "Q x" "xs = ys @ u # zs" "P u" "\<forall>y \<in> set ys. Q y"
    then show "\<exists>ys u zs. x # xs = ys @ u # zs \<and> P u \<and> (\<forall>y \<in> set ys. Q y)"
      by (intro exI [of _ "x # ys"] exI [of _ u] exI [of _ zs]) simp
  qed
  show ?case
    unfolding split by (auto simp: Cons.IH verdict_def holds_authority_def)
qed simp

lemma CheckAll_apply:
  assumes "m_authorizer m = rbac_ops az" and "RequireAuth (normalizeContext c) = Inr auth"
    and "CheckAll m c xs w = (r, w')"
  shows "only_observed w w' \<and> ((\<exists>e. r = Inl (ErrContext e)) \<or> r = all_of az auth xs)
    \<and> (healthy c \<longrightarrow> r = all_of az auth xs)"
  using assms(3)
proof (induction xs arbitrary: w)
  case Nil
  then show ?case by (auto simp: ret_apply)
next
  case (Cons x xs)
  obtain h v where h: "CheckAuthority m c x w = (h, v)"
    by (cases "CheckAuthority m c x w") blast
  note this' = CheckAuthority_apply [OF assms(1,2) h]
  show ?case
  proof (cases h)
    case (Inl e)
    then have "r = h \<and> w' = v" using Cons.prems h by (simp add: bindE_apply)
    then show ?thesis using this' Inl by (cases "verdict az auth x") auto
  next
    case (Inr u)
    then have "CheckAll m c xs v = (r, w')" using Cons.prems h by (simp add: bindE_apply)
    from Cons.IH [OF this] show ?thesis
      using this' Inr by (cases "verdict az auth x") (auto intro: only_observed_trans)
  qed
qed

lemma check_any_apply:
  assumes "m_authorizer m = rbac_ops az" and "RequireAuth (normalizeContext c) = Inr auth"
    and "check_any_loop m c d xs w = (r, w')"
  shows "only_observed w w' \<and> ((\<exists>e. r = Inl (ErrContext e))
      \<or> r = any_of az auth (case d of Some e \<Rightarrow> e | None \<Rightarrow> ErrAuthorityDenied) xs)
    \<and> (healthy c \<longrightarrow> r = any_of az auth (case d of Some e \<Rightarrow> e | None \<Rightarrow> ErrAuthorityDenied) xs)"
  using assms(3)
proof (induction xs arbitrary: d w)
  case Nil
  then show ?case by (auto simp: throw_apply split: option.splits)
next
  case (Cons x xs)
  obtain h v where h: "CheckAuthority m c x w = (h, v)"
    by (cases "CheckAuthority m c x w") blast
  note one = CheckAuthority_apply [OF assms(1,2) h]
  have run: "(r, w') = (case h of Inr _ \<Rightarrow> (Inr (), v)
      | Inl e \<Rightarrow> if errors_Is e ErrAuthorityDenied then check_any_loop m c (Some e) xs v else (Inl e, v))"
    using Cons.prems h by (auto simp: bindE_apply attempt_apply ret_apply throw_apply split: sum.splits if_splits)
  show ?case
  proof (cases h)
    case (Inr u)
    then show ?thesis using run one by (cases "verdict az auth x") auto
  next
    case (Inl e)
    show ?thesis
    proof (cases "errors_Is e ErrAuthorityDenied")
      case True
      then have "check_any_loop m c (Some e) xs v = (r, w')" and v: "Inl e = verdict az auth x"
        using run Inl one by auto
      from Cons.IH [OF this(1)] True show ?thesis
        using one v [symmetric] by (cases "verdict az auth x") (auto intro: only_observed_trans)
    next
      case False
      then show ?thesis using run Inl one verdict_Inl_cases [of az auth x e]
        by (cases "verdict az auth x") auto
    qed
  qed
qed

subsection \<open>The checks decide\<close>

lemma RequireAuth_normalize: "RequireAuth (normalizeContext c) = RequireAuth c"
proof -
  have "AuthFromContext (normalizeContext c) = AuthFromContext c"
    by (cases c) (simp_all add: AuthFromContext_def normalizeContext_def Background_def)
  then show ?thesis by (simp add: RequireAuth_def)
qed

lemma RequireAuth_Inr_iff:
  "RequireAuth c = Inr auth \<longleftrightarrow> AuthFromContext c = Some auth \<and> ac_LoginID auth \<noteq> []"
  by (auto simp: RequireAuth_def split: option.splits)

lemma CheckAll_healthy:
  assumes "m_authorizer m = rbac_ops az" "RequireAuth c = Inr auth" "healthy c"
  shows "fst (CheckAll m c xs w) = all_of az auth xs"
proof (cases "CheckAll m c xs w")
  case (Pair r w')
  then show ?thesis using CheckAll_apply [OF assms(1) _ Pair, of auth] assms(2,3) by (simp add: RequireAuth_normalize)
qed

lemma CheckAny_healthy:
  assumes "m_authorizer m = rbac_ops az" "RequireAuth c = Inr auth" "healthy c"
  shows "fst (CheckAny m c xs w) = any_of az auth ErrAuthorityDenied xs"
proof (cases "CheckAny m c xs w")
  case (Pair r w')
  then have "check_any_loop m c None xs w = (r, w')" by (simp add: CheckAny_def)
  from check_any_apply [OF assms(1) _ this, of auth] assms(2,3) Pair show ?thesis
    by (simp add: RequireAuth_normalize)
qed

lemma any_of_Inl: "any_of az auth e xs = Inl e' \<Longrightarrow> e' = e \<or> (\<exists>x \<in> set xs. verdict az auth x = Inl e')"
  by (induction xs arbitrary: e) (auto split: sum.splits if_splits)

text \<open>C35: over the role-based authorizer and in an authenticated context that is not cancelled,
  \<open>CheckAll\<close> succeeds exactly when the login holds every authority asked for, and \<open>CheckAny\<close> exactly
  when it holds one that no blank authority precedes. A login holds a role when it was assigned,
  a permission when a granted one is equal to it or covers it with a trailing star. A refusal of
  \<open>CheckAll\<close> names an authority the login lacks, and every refusal is a denial or, for a blank
  authority, \<open>ErrEmptyAuthority\<close>.\<close>

theorem authorities_decided:
  assumes "m_authorizer m = rbac_ops az" and "RequireAuth c = Inr auth" and "healthy c"
  shows "(fst (CheckAll m c xs w) = Inr () \<longleftrightarrow> (\<forall>x \<in> set xs. holds_authority az auth x))
    \<and> (fst (CheckAny m c xs w) = Inr () \<longleftrightarrow>
         (\<exists>ys x zs. xs = ys @ x # zs \<and> holds_authority az auth x \<and> (\<forall>y \<in> set ys. TrimSpace (au_Value y) \<noteq> [])))
    \<and> (\<forall>e. fst (CheckAll m c xs w) = Inl e \<longrightarrow>
         (\<exists>x \<in> set xs. \<not> holds_authority az auth x \<and> fst (CheckAuthority m c x w) = Inl e))
    \<and> (\<forall>e. fst (CheckAll m c xs w) = Inl e \<or> fst (CheckAny m c xs w) = Inl e \<longrightarrow>
         errors_Is e ErrAuthorityDenied \<or> e = ErrEmptyAuthority)"
proof -
  note all = CheckAll_healthy [OF assms] and any = CheckAny_healthy [OF assms]
  have one: "fst (CheckAuthority m c x w) = verdict az auth x" for x
    using CheckAuthority_apply [OF assms(1), of c auth x w "fst (CheckAuthority m c x w)" "snd (CheckAuthority m c x w)"]
      assms(2,3) by (simp add: RequireAuth_normalize)
  have "errors_Is e ErrAuthorityDenied \<or> e = ErrEmptyAuthority"
    if "all_of az auth xs = Inl e \<or> any_of az auth ErrAuthorityDenied xs = Inl e" for e
    using that by (auto dest!: all_of_Inl any_of_Inl verdict_Inl_cases)
  then show ?thesis
    unfolding all any one
    by (intro conjI all_of_Inr_iff any_of_Inr_iff) (auto dest: all_of_Inl)
qed

text \<open>C36: over the role-based authorizer no cancellation opens a door. Whatever the context, at
  whatever moment it is cancelled, a check that passes was asked for by an authenticated login that
  holds the authorities: all of them for \<open>CheckAll\<close> of one or more, one of them for \<open>CheckAny\<close>.
  And checking, whether it passes or not, changes nothing: no stored state, no event, only how far the
  clock and the context have been read.\<close>

theorem authorities_safe:
  assumes "m_authorizer m = rbac_ops az"
  shows "only_observed w (snd (CheckAll m c xs w)) \<and> only_observed w (snd (CheckAny m c xs w))
    \<and> (fst (CheckAll m c xs w) = Inr () \<and> xs \<noteq> [] \<longrightarrow>
      (\<exists>auth. AuthFromContext c = Some auth \<and> ac_LoginID auth \<noteq> [] \<and> (\<forall>y \<in> set xs. holds_authority az auth y)))
    \<and> (fst (CheckAny m c xs w) = Inr () \<longrightarrow>
      (\<exists>auth. AuthFromContext c = Some auth \<and> ac_LoginID auth \<noteq> [] \<and> (\<exists>y \<in> set xs. holds_authority az auth y)))"
proof (cases "RequireAuth c")
  case (Inl e)
  then have one: "CheckAuthority m c y v = (Inl e, v)" for y v
    using CheckAuthority_anonymous [of c e m y v] by (simp add: RequireAuth_normalize)
  have e: "\<not> errors_Is e ErrAuthorityDenied"
    using Inl by (auto simp: RequireAuth_def split: option.splits if_splits)
  have "fst (CheckAny m c xs w) \<noteq> Inr ()" "snd (CheckAny m c xs w) = w"
    using e by (cases xs; simp add: CheckAny_def bindE_apply attempt_apply one throw_apply)+
  moreover have "xs \<noteq> [] \<longrightarrow> fst (CheckAll m c xs w) \<noteq> Inr ()" "snd (CheckAll m c xs w) = w"
    by (cases xs; simp add: bindE_apply one ret_apply)+
  ultimately show ?thesis by auto
next
  case (Inr auth)
  then have a: "AuthFromContext c = Some auth" "ac_LoginID auth \<noteq> []" by (simp_all add: RequireAuth_Inr_iff)
  have N: "RequireAuth (normalizeContext c) = Inr auth" using Inr by (simp add: RequireAuth_normalize)
  have all: "only_observed w (snd (CheckAll m c xs w))" "fst (CheckAll m c xs w) = Inr () \<Longrightarrow> all_of az auth xs = Inr ()"
    using CheckAll_apply [OF assms N surjective_pairing, of w xs] by auto
  have any: "only_observed w (snd (CheckAny m c xs w))"
    "fst (CheckAny m c xs w) = Inr () \<Longrightarrow> any_of az auth ErrAuthorityDenied xs = Inr ()"
    using check_any_apply [OF assms N surjective_pairing, of w None xs] unfolding CheckAny_def by auto
  show ?thesis
    using a all any by (auto simp only: all_of_Inr_iff any_of_Inr_iff) auto
qed

definition guest_roles :: rbac where
  "guest_roles = rbac_run [OpAssignRole ''u'' ''staff'', OpGrantPermission ''staff'' ''doc:*'']"

definition guest_auth :: AuthContext where
  "guest_auth = \<lparr>ac_Token = ''t'', ac_Kind = TokenKindAccess, ac_LoginID = ''u'', ac_LoginType = ''login'',
     ac_Device = [], ac_ExpiresAt = None, ac_Metadata = None\<rparr>"

definition guest_context :: ctx where
  "guest_context = Some (Background\<lparr>gc_auth := Some guest_auth\<rparr>)"

lemma rbac_allows_eval: "rbac_allows az i x \<longleftrightarrow> fst (rbac_HasAuthority az None i x demo_env) = Inr True"
  by (simp add: rbac_HasAuthority_eq ret_apply)

lemma guest_holds [simp]: "holds_authority guest_roles guest_auth (Permission ''doc:read'')"
  unfolding holds_authority_def rbac_allows_eval by code_simp

lemma guest_lacks [simp]: "\<not> holds_authority guest_roles guest_auth (Role ''admin'')"
  unfolding holds_authority_def rbac_allows_eval by code_simp

lemma guest_context_simps [simp]:
  "RequireAuth guest_context = Inr guest_auth" "healthy guest_context" "AuthFromContext guest_context = Some guest_auth"
  by (simp_all add: guest_context_def RequireAuth_def AuthFromContext_def guest_auth_def healthy_def Background_def)

theorem authorities_decided_witness:
  "fst (CheckAll (memory_manager DefaultConfig guest_roles) guest_context [Permission ''doc:read''] demo) = Inr ()
   \<and> fst (CheckAll (memory_manager DefaultConfig guest_roles) guest_context [Permission ''doc:read'', Role ''admin''] demo) \<noteq> Inr ()"
  using authorities_decided [of "memory_manager DefaultConfig guest_roles" guest_roles guest_context guest_auth
      "[Permission ''doc:read'']" demo]
    authorities_decided [of "memory_manager DefaultConfig guest_roles" guest_roles guest_context guest_auth
      "[Permission ''doc:read'', Role ''admin'']" demo]
  by simp

text \<open>The guest's context, cancelled after its first two observations.\<close>

definition ending_context :: ctx where
  "ending_context = Some (Background\<lparr>gc_auth := Some guest_auth,
     gc_done := (\<lambda>n. if n < 2 then None else Some Canceled)\<rparr>)"

theorem authorities_safe_witness:
  "fst (CheckAny (memory_manager DefaultConfig guest_roles) guest_context [Role ''admin'', Permission ''doc:read''] demo) = Inr ()
   \<and> (\<exists>y \<in> {Role ''admin'', Permission ''doc:read''}. holds_authority guest_roles guest_auth y)
   \<and> only_observed demo (snd (CheckAny (memory_manager DefaultConfig guest_roles) ending_context [Role ''admin''] demo))"
proof -
  have "TrimSpace (au_Value (Role ''admin'')) \<noteq> []" by code_simp
  then have "fst (CheckAny (memory_manager DefaultConfig guest_roles) guest_context [Role ''admin'', Permission ''doc:read''] demo) = Inr ()"
    by (subst CheckAny_healthy [of _ guest_roles _ guest_auth])
      (simp_all add: verdict_def split: sum.split, use guest_holds in \<open>auto simp: holds_authority_def\<close>)
  with authorities_safe [of "memory_manager DefaultConfig guest_roles" guest_roles demo guest_context
      "[Role ''admin'', Permission ''doc:read'']"]
    authorities_safe [of "memory_manager DefaultConfig guest_roles" guest_roles demo ending_context "[Role ''admin'']"]
  show ?thesis by simp
qed

subsection \<open>What the role-based authorizer lists\<close>

definition listed_allows :: "Authority list \<Rightarrow> Authority \<Rightarrow> bool" where
  "listed_allows xs x \<longleftrightarrow> TrimSpace (au_Value x) \<noteq> [] \<and>
     (if au_Type x = AuthorityRole then Role (au_Value x) \<in> set xs
      else au_Type x = AuthorityPermission \<and> (\<exists>y \<in> set xs. authorityMatches y x))"

lemma listed_allows_iff:
  assumes "rbac_ok a" and "TrimSpace i \<noteq> []" and xs: "set xs = listed a i"
  shows "rbac_allows a i x \<longleftrightarrow> listed_allows xs x"
proof -
  have trimmed: "q \<noteq> [] \<and> TrimSpace q = q" if "granted a i q" for q
    using assms(1) that by (auto simp: rbac_ok_def names_ok_def granted_def)
  have role: "has_role a i q \<Longrightarrow> q \<noteq> [] \<and> TrimSpace q = q" for q
    using assms(1) by (auto simp: rbac_ok_def names_ok_def has_role_def)
  have eq: "Role q = Role q' \<longleftrightarrow> TrimSpace q = TrimSpace q'" and ne: "Role q \<noteq> Permission q'" for q q'
    by (simp_all add: Permission_def Role_def)
  have R: "Role v \<in> listed a i \<longleftrightarrow> has_role a i (TrimSpace v)" for v
  proof -
    have "Role v \<in> listed a i \<longleftrightarrow> (\<exists>r. has_role a i r \<and> TrimSpace r \<noteq> [] \<and> TrimSpace v = TrimSpace r)"
      by (simp add: listed_def role_authorities_def eq ne has_role_def) blast
    with role show ?thesis by metis
  qed
  have P: "y \<in> listed a i \<and> au_Type y = AuthorityPermission \<longleftrightarrow> (\<exists>q. y = Permission q \<and> granted a i q)" for y
  proof -
    have "y \<in> listed a i \<longleftrightarrow> (\<exists>r. y = Role r \<and> has_role a i r \<and> TrimSpace r \<noteq> [])
        \<or> (\<exists>q. y = Permission q \<and> granted a i q \<and> TrimSpace q \<noteq> [])"
      by (simp add: listed_def role_authorities_def granted_def has_role_def) blast
    moreover have "au_Type (Role r) = AuthorityRole" "au_Type (Permission r) = AuthorityPermission" for r
      by (simp_all add: Role_def Permission_def)
    ultimately show ?thesis using trimmed authority_types_distinct by auto
  qed
  have "(\<exists>y \<in> listed a i. au_Type y = AuthorityPermission \<and> authorityValueMatches (au_Value y) v)
      \<longleftrightarrow> (\<exists>p. granted a i p \<and> covers (TrimSpace p) (TrimSpace v))" for v
  proof -
    have "(\<exists>y \<in> listed a i. au_Type y = AuthorityPermission \<and> authorityValueMatches (au_Value y) v)
      \<longleftrightarrow> (\<exists>y. (y \<in> listed a i \<and> au_Type y = AuthorityPermission) \<and> authorityValueMatches (au_Value y) v)"
      by (simp add: Bex_def conj_assoc)
    also have "\<dots> \<longleftrightarrow> (\<exists>q. granted a i q \<and> authorityValueMatches (au_Value (Permission q)) v)"
      unfolding P by auto
    finally show ?thesis by (simp add: authorityValueMatches_iff Permission_def)
  qed
  then have "(\<exists>y \<in> set xs. authorityMatches y x) \<longleftrightarrow> (\<exists>p. granted a i p \<and> covers (TrimSpace p) (TrimSpace (au_Value x)))"
    if "au_Type x = AuthorityPermission"
    using that by (simp add: xs authorityMatches_iff)
  then show ?thesis
    unfolding rbac_allows_def listed_allows_def xs R using assms(2)
    by (cases "au_Type x = AuthorityPermission") simp_all
qed

text \<open>C37: after any history of assignments, revocations and grants, \<open>GetAuthorities\<close> lists, without
  repetition and whatever the iteration order of its maps, what \<open>HasAuthority\<close> grants: a role is held
  exactly when it is listed, a permission exactly when a listed one matches it, and the matching of
  \<open>core\<close> and that of \<open>rbac\<close> are the same.\<close>

theorem rbac_lists_grants:
  assumes "healthy c" and "TrimSpace i \<noteq> []"
  shows "\<exists>xs w'. rbac_GetAuthorities (rbac_run ops) c i w = (Inr xs, w') \<and> distinct xs
    \<and> (\<forall>x v. fst (rbac_HasAuthority (rbac_run ops) c i x v) = Inr (listed_allows xs x))
    \<and> (\<forall>a b. authorityMatches a b \<longleftrightarrow> au_Type a = au_Type b \<and> authorityValueMatches (au_Value a) (au_Value b))"
proof -
  have "wp (rbac_GetAuthorities (rbac_run ops) c i) (\<lambda>xs w'. distinct xs \<and> set xs = listed (rbac_run ops) i)
      (\<lambda>_ _. False) w"
    by (rule wp_rbac_GetAuthorities [OF assms]) simp
  then obtain xs w' where run: "rbac_GetAuthorities (rbac_run ops) c i w = (Inr xs, w')" "distinct xs"
    and xs: "set xs = listed (rbac_run ops) i"
    by (auto simp: wp_succeeds)
  have "fst (rbac_HasAuthority (rbac_run ops) c i x v) = Inr (listed_allows xs x)" for x v
    by (simp only: rbac_HasAuthority_healthy [OF assms(1)] listed_allows_iff [OF rbac_ok_run assms(2) xs])
  with run show ?thesis
    by (intro exI conjI allI authorityMatches_iff)
qed

theorem rbac_lists_grants_witness:
  "\<exists>xs w'. rbac_GetAuthorities guest_roles guest_context ''u'' demo = (Inr xs, w') \<and> distinct xs
    \<and> listed_allows xs (Permission ''doc:read'')"
proof -
  have "TrimSpace ''u'' \<noteq> []" by code_simp
  with rbac_lists_grants [of guest_context "''u''" "[OpAssignRole ''u'' ''staff'', OpGrantPermission ''staff'' ''doc:*'']" demo]
  obtain xs w' where "rbac_GetAuthorities guest_roles guest_context ''u'' demo = (Inr xs, w')" "distinct xs"
    and xs: "fst (rbac_HasAuthority guest_roles guest_context ''u'' (Permission ''doc:read'') demo)
       = Inr (listed_allows xs (Permission ''doc:read''))"
    unfolding guest_roles_def by auto
  moreover have "rbac_allows guest_roles ''u'' (Permission ''doc:read'')"
    using guest_holds by (simp add: holds_authority_def guest_auth_def)
  ultimately show ?thesis
    by (auto simp: rbac_HasAuthority_healthy)
qed

subsection \<open>The in-memory authorizer after its setters\<close>

lemma memory_HasAuthority_healthy:
  "healthy c \<Longrightarrow> fst (memory_HasAuthority a c i x w) = Inr (memory_allows a i x)"
  by (simp add: memory_HasAuthority_eq bindE_apply ret_apply ctxErr_healthy)

lemma memory_allows_upd:
  "memory_allows (a(TrimSpace i \<mapsto> as)) j x \<longleftrightarrow> (if TrimSpace j = TrimSpace i
     then TrimSpace (au_Value x) \<noteq> [] \<and> (\<exists>y \<in> set as. authorityMatches y x) else memory_allows a j x)"
  by (auto simp: memory_allows_def)

lemma authorityMatches_type: "authorityMatches y x \<Longrightarrow> au_Type y = au_Type x"
  by (simp add: authorityMatches_iff)

lemma authorityMatches_blank: "TrimSpace (au_Value y) = [] \<Longrightarrow> authorityMatches y x \<Longrightarrow> TrimSpace (au_Value x) = []"
  by (auto simp: authorityMatches_iff authorityValueMatches_iff covers_def star_def)

lemma memory_allows_Set:
  "memory_allows (SetAuthorities a i as) j x \<longleftrightarrow> (if TrimSpace j = TrimSpace i
     then TrimSpace (au_Value x) \<noteq> [] \<and> (\<exists>y \<in> set as. authorityMatches y x) else memory_allows a j x)"
proof -
  have "(\<exists>y \<in> set (copied_authorities as). authorityMatches y x) \<longleftrightarrow> (\<exists>y \<in> set as. authorityMatches y x)"
    if "TrimSpace (au_Value x) \<noteq> []"
    using that authorityMatches_blank [of _ x] by (force simp: set_copied_authorities)
  then show ?thesis by (auto simp: SetAuthorities_def memory_allows_upd)
qed

lemma memory_allows_merge:
  assumes "\<And>y. y \<in> set as \<Longrightarrow> au_Type y = t"
  shows "memory_allows (mergeAuthorities a i t as) j x \<longleftrightarrow> (if TrimSpace j = TrimSpace i \<and> au_Type x = t
     then TrimSpace (au_Value x) \<noteq> [] \<and> (\<exists>y \<in> set as. authorityMatches y x) else memory_allows a j x)"
proof -
  let ?kept = "filter (\<lambda>y. au_Type y \<noteq> t) (authorities_of a (TrimSpace i))"
  have "(\<exists>y \<in> set (?kept @ as). authorityMatches y x) \<longleftrightarrow> (if au_Type x = t
     then \<exists>y \<in> set as. authorityMatches y x else \<exists>y \<in> set (authorities_of a (TrimSpace i)). authorityMatches y x)"
    using assms authorityMatches_type by (cases "au_Type x = t") fastforce+
  then show ?thesis
    unfolding mergeAuthorities_def Let_def memory_allows_upd by (auto simp: memory_allows_def)
qed

text \<open>The in-memory authorizer answers by what was last set. \<open>SetAuthorities\<close> replaces the
  authorities of one login, \<open>SetRoles\<close> and \<open>SetPermissions\<close> those of one type and keep the other
  type; a login is matched up to surrounding space, every other login keeps its answers, and an
  authority is granted exactly when a set one of its type is equal to it or covers it with a
  trailing star.\<close>

theorem memory_authorizer_setters:
  assumes "healthy c"
  shows "fst (memory_HasAuthority (SetAuthorities a i as) c j x w) = Inr (if TrimSpace j = TrimSpace i
        then TrimSpace (au_Value x) \<noteq> [] \<and> (\<exists>y \<in> set as. authorityMatches y x) else memory_allows a j x)
    \<and> fst (memory_HasAuthority (SetRoles a i names) c j x w) = Inr (if TrimSpace j = TrimSpace i \<and> au_Type x = AuthorityRole
        then TrimSpace (au_Value x) \<noteq> [] \<and> (\<exists>r \<in> set names. covers (TrimSpace r) (TrimSpace (au_Value x)))
        else memory_allows a j x)
    \<and> fst (memory_HasAuthority (SetPermissions a i names) c j x w) = Inr (if TrimSpace j = TrimSpace i \<and> au_Type x = AuthorityPermission
        then TrimSpace (au_Value x) \<noteq> [] \<and> (\<exists>p \<in> set names. covers (TrimSpace p) (TrimSpace (au_Value x)))
        else memory_allows a j x)
    \<and> fst (memory_HasAuthority a c j x w) = Inr (memory_allows a j x)"
proof -
  have "memory_allows (SetRoles a i names) j x \<longleftrightarrow> (if TrimSpace j = TrimSpace i \<and> au_Type x = AuthorityRole
        then TrimSpace (au_Value x) \<noteq> [] \<and> (\<exists>r \<in> set names. covers (TrimSpace r) (TrimSpace (au_Value x)))
        else memory_allows a j x)"
    unfolding SetRoles_def
    by (subst memory_allows_merge) (auto simp: Role_def authorityMatches_iff authorityValueMatches_iff)
  moreover have "memory_allows (SetPermissions a i names) j x \<longleftrightarrow> (if TrimSpace j = TrimSpace i \<and> au_Type x = AuthorityPermission
        then TrimSpace (au_Value x) \<noteq> [] \<and> (\<exists>p \<in> set names. covers (TrimSpace p) (TrimSpace (au_Value x)))
        else memory_allows a j x)"
    unfolding SetPermissions_def
    by (subst memory_allows_merge) (auto simp: Permission_def authorityMatches_iff authorityValueMatches_iff)
  ultimately show ?thesis
    unfolding memory_HasAuthority_healthy [OF assms] memory_allows_Set by (intro conjI) simp_all
qed

theorem memory_authorizer_setters_witness:
  "fst (memory_HasAuthority (SetRoles NewMemoryAuthorizer '' u'' [''staff'']) None ''u'' (Role ''staff'') demo) = Inr True"
proof -
  have eqs: "TrimSpace ''u'' = TrimSpace '' u''" "TrimSpace ''staff'' = ''staff''" by code_simp+
  have "au_Type (Role ''staff'') = AuthorityRole" "covers ''staff'' ''staff''"
    by (simp_all add: Role_def covers_def)
  with memory_authorizer_setters [of None NewMemoryAuthorizer "'' u''" "[]" "''u''" "Role ''staff''" demo "[''staff'']"]
  show ?thesis by (simp add: eqs)
qed

end
