(* ===== verification/Spec2Isabelle.thy ===== *)
theory Spec2Isabelle
  imports Database_Server Redis_Race Redis_Expiry System_Properties Refresh_Reuse Async_Properties Plugin_Properties Token_Properties Audit_Log Authority_Properties Session_Numbers
begin

text \<open>
  better-token is a Go library of opaque login tokens: a Manager issues, renews, rotates, consumes
  and revokes tokens of three kinds (access, refresh, nonce) over a pluggable store, checks
  authorities, publishes events, and is reached over HTTP, gin and gRPC. This development models its
  logic as executable functions and proves what makes it correct. Paths below are relative to
  \<open>src/\<close>.

  How Go is modelled. A method with an error result is a function from a state to a result or an
  error and a new state (\<open>Prelude\<close>: \<open>op\<close>, \<open>bindE\<close>, \<open>attempt\<close>); an early \<open>return err\<close> keeps the
  effects before it. Two calculi carry the proofs: \<open>keeps\<close> for invariants that hold on every path,
  errors included, and \<open>wp\<close> for the outcome of a run. The state (\<open>Core_Env\<close>) holds what an operation
  may observe: a clock, the choice of the iteration order of maps and the entropy source, each
  observed at a tick that every observation advances. So a theorem about all states covers a clock
  that moves, a context that is cancelled and an entropy source that fails between any two steps.
  A context is a function from ticks to its cancellation; the five-second context that the refresh
  flow uses to undo its steps is a function of its own. The injected clock of \<open>core/runtime.go\<close> is
  the clock of the state, for the Manager and its store alike. Strings are byte strings, instants
  are nanoseconds from the epoch, durations saturate at 64 bits where the code's do, a pointer is an
  option. Values of type \<open>any\<close> are trees.

  Theories.
  \<^item> \<open>Go_Std\<close>, \<open>Go_Text\<close>, \<open>Go_Numbers\<close>, \<open>Sha256\<close>, \<open>Rand\<close>: the standard library that the program uses
    (time, strings, letter case of the runes with an ASCII image, \<open>ParseInt\<close> and the scanner of
    \<open>encoding/json\<close>, SHA-256 and hexadecimal) and \<open>pkg/option\<close>, \<open>pkg/rand\<close>. \<open>Go_Time\<close> and \<open>Go_Json\<close>: the
    RFC 3339 form of times, UTF-8, and the printer and parser of JSON texts, each with its round trip.
  \<^item> \<open>State_Json\<close> and \<open>Session_Json\<close>: the JSON forms of token states and sessions, by the tags of the
    structs, and \<open>Json_Properties\<close> the round trip of a token state.
  \<^item> \<open>Token_State\<close> (\<open>core/token_state.go\<close>, \<open>state_lifetime.go\<close>, \<open>login_subject.go\<close>), \<open>Core_Env\<close>
    (\<open>errors.go\<close>, \<open>context.go\<close>), \<open>Session\<close> and \<open>Session_Numbers\<close> (\<open>session.go\<close>), \<open>Config\<close> (\<open>config.go\<close>,
    \<open>option.go\<close> and the options of the flows), \<open>Event_Bus\<close> (\<open>event.go\<close>).
  \<^item> \<open>Store_Port\<close>: the ports of \<open>core/store.go\<close>, the derivation of store keys, and the contracts
    \<open>token_store\<close> and \<open>atomic_store\<close> between a store and its client. \<open>Memory_Store\<close>
    (\<open>storage/memory/store.go\<close>) implements them; \<open>Memory_Correct\<close> gives the effect of each method and
    the invariant of tokens, indexes and sessions, \<open>Memory_Safe\<close> interprets the contracts, and
    \<open>Store_Traces\<close> follows interleavings of calls.
  \<^item> \<open>Token_Table\<close>: the abstract specification of a store, a table of the live token states with one
    step per call, and the contract \<open>table_store\<close> under which a store answers as the table does;
    \<open>Memory_Table\<close> interprets it on the in-memory store, and \<open>Stored_States\<close> holds what the two stores
    share that keep JSON on a server.
  \<^item> \<open>Redis_Store\<close> (\<open>storage/redis/store.go\<close>, \<open>session.go\<close>): the methods and the Lua scripts, over the
    commands of a server and the calls of the client as parameters. \<open>Redis_Safe\<close> states what every
    server keeps, whatever else happens on it (\<open>faithful_redis\<close>: a value read was once set), and proves
    the contracts \<open>token_store\<close> and \<open>atomic_store\<close> from it; \<open>Redis_Keys\<close> shows that the families of keys
    do not meet, and \<open>Redis_Table\<close> proves over the laws of the single commands (\<open>redis_server\<close>) that each
    method does its step of the table, which \<open>Redis_Refinement\<close> puts together. \<open>Redis_Server\<close> is a
    reference server on which both locales are interpreted. \<open>Consume_Race\<close> is the contract of clients
    that race for one token, and \<open>Redis_Race\<close> the race over Redis, command by command. \<open>Redis_Expiry\<close> shows, over
    the reference server, how the lifetime of a token becomes the expiry of its key.
  \<^item> \<open>Database_Store\<close> (\<open>storage/database/store.go\<close>): the methods over the statements of GORM, where a
    condition of SQL is a predicate on rows. \<open>Database_Table\<close> states what the statements promise
    (\<open>sql_session\<close>, \<open>sql_database\<close>) and proves the steps of the table; \<open>Database_Server\<close> interprets the laws
    on two lists of rows and holds the refinement.
  \<^item> \<open>Manager_Core\<close>, \<open>Manager_Access\<close>, \<open>Manager_Refresh\<close>: every method of the Manager
    (\<open>core/manager.go\<close>, \<open>nonce.go\<close>, \<open>refresh.go\<close>, \<open>online.go\<close>, \<open>token_manager.go\<close>), over any store,
    authorizer and bus. \<open>Manager_Safe\<close> proves, for every store that keeps the contract, that the
    Manager keeps it (locale \<open>managed\<close>); \<open>System\<close> puts it over the in-memory store and defines the
    reachable states. \<open>Manager_Effects\<close>, \<open>Login_Effects\<close>, \<open>Refresh_Effects\<close>, \<open>Refresh_Pinned\<close> and
    \<open>Digests\<close> hold the effects of the flows; the theories named \<open>Properties\<close> and \<open>Refresh_Reuse\<close> the
    properties.
  \<^item> \<open>Authorizer\<close> with \<open>Authorizer_Correct\<close> and \<open>Authority_Properties\<close> (\<open>core/authorizer.go\<close>,
    \<open>rbac/authorizer.go\<close>), \<open>Audit_Log\<close> (\<open>audit\<close>).
  \<^item> \<open>Async_Bus\<close> with \<open>Async_Bus_Correct\<close> and \<open>Async_Properties\<close> (\<open>core/async_event.go\<close>): a
    transition system of publishers, workers and flushes, with the panics of channels and of the
    wait group. The write lock is free while no publication is in progress; a listener does not call
    back into its bus.
  \<^item> \<open>Plugins\<close>, \<open>Cookies\<close>, \<open>Grpc\<close> with \<open>Plugin_Properties\<close> (\<open>plugins\<close>), \<open>Token_Gen\<close> with
    \<open>Token_Properties\<close> (\<open>token\<close>). What gin, gRPC, the JWT and UUID libraries and the structured logger
    provide is a parameter.

  Bounds and fuel. Every loop of the modelled code is structural recursion over the list it ranges
  over, except three: the retry loops of the Redis store, which recur over their 32 attempts and end
  within them, the drain of the bus, bounded by a measure of its state, and the parser of JSON,
  whose fuel is twice the length of the text plus two: \<open>Go_Json\<close> proves that it is enough for every text
  that the printer writes and that more fuel never changes a result. A JSON number is assumed shorter than \<open>2 ^ 62\<close> bytes. The two refinements hold
  for a clock that stands still between the calls and for states that JSON gives back (valid UTF-8,
  years 0 to 9999, compact metadata), for Redis under tokens that do not end in \<open>:consumed\<close>; they cover the
  calls on tokens, not those on sessions, and, as the clock stands, not the lifetimes. The race
  over Redis has such a clock too, and only consumers of the token as clients; the safety of the Redis
  store assumes nothing about the clock.

  Not modelled. Cancellation inside the bodies of third-party calls; the location and the monotonic
  reading of a \<open>time.Time\<close>, which \<open>reflect.DeepEqual\<close> compares and an instant here does not have; the
  precision of time columns, which a database may cut; the printing of floats and of values of
  foreign types in the data of a session, a parameter; the rejection sampling inside
  \<open>crypto/rand.Int\<close>; values of type \<open>any\<close> with shared or cyclic containers, and with them
  \<open>checkSessionJSONCycles\<close>; the programs under \<open>examples\<close>, which are demonstrations with HTML pages
  around the library.
\<close>

end
